(* ===== verification/OtzPrelude.thy ===== *)
theory OtzPrelude
  imports Main "HOL-Library.Word"
begin

text \<open>
  Shared vocabulary of the development.

  \<^item> The machine types of \<open>lib/include/sw_types.h\<close>: \<open>u8\<close>, \<open>u32\<close>, \<open>u64\<close>, \<open>pa_t\<close>, \<open>va_t\<close>.
  \<^item> The way a C function can end: it returns a value, it stops the machine through
    \<open>DIE_NOW\<close> (\<open>Inl\<close>), or it never returns (\<open>None\<close>).
  \<^item> The lemma collections used by the component theories, and the locale
    \<open>op_contract\<close>: an invariant kept by every operation of a component is kept by
    every sequence of operations.
\<close>

unbundle bit_operations_syntax

section \<open>Machine types\<close>

type_synonym u8 = "8 word"
type_synonym u16 = "16 word"
type_synonym u32 = "32 word"
type_synonym u64 = "64 word"
type_synonym pa_t = "32 word"
type_synonym va_t = "32 word"

text \<open>
  \<open>DIE_NOW\<close> is declared \<open>noreturn\<close>: it prints its message and stops the machine.
  \<open>CORRUPTED\<close> marks an execution that uses a pointer outside the model's memory.
\<close>

datatype panic = DIE_NOW | CORRUPTED

type_synonym 'a outcome = "(panic + 'a) option"

abbreviation returns :: "'a \<Rightarrow> 'a outcome" where
  "returns x \<equiv> Some (Inr x)"

abbreviation dies :: "'a outcome" where
  "dies \<equiv> Some (Inl DIE_NOW)"

text \<open>The return codes of \<open>lib/include/sw_types.h\<close>.\<close>

definition OTZ_OK :: int where "OTZ_OK = 0"
definition OTZ_EFAIL :: int where "OTZ_EFAIL = - 1"
definition OTZ_ENOMEM :: int where "OTZ_ENOMEM = - 2"
definition OTZ_ILLEGAL_ARGUMENT :: int where "OTZ_ILLEGAL_ARGUMENT = - 3"

lemmas otz_codes = OTZ_OK_def OTZ_EFAIL_def OTZ_ENOMEM_def OTZ_ILLEGAL_ARGUMENT_def

section \<open>Lemma collections\<close>

named_theorems unat_steps \<open>unsigned readings of word operations that do not wrap\<close>
named_theorems list_steps \<open>facts on lists updated at one place\<close>

section \<open>Words\<close>

lemma and_top_bit:
  "((w::'a::len word) AND push_bit (LENGTH('a) - Suc 0) 1 = 0) = (\<not> bit w (LENGTH('a) - Suc 0))"
proof -
  let ?k = "LENGTH('a) - Suc 0"
  have "w AND 2 ^ ?k = (if bit w ?k then 2 ^ ?k else 0)"
    by (rule bit_word_eqI) (auto simp: bit_and_iff bit_exp_iff)
  moreover have "(2::'a word) ^ ?k \<noteq> 0"
    by simp
  ultimately show ?thesis by simp
qed

lemma top_bit_clear_unat:
  assumes "\<not> bit (w::'a::len word) (LENGTH('a) - Suc 0)"
  shows "2 * unat w < 2 ^ LENGTH('a)"
proof (rule ccontr)
  let ?k = "LENGTH('a) - Suc 0"
  have len: "(2::nat) ^ LENGTH('a) = 2 * 2 ^ ?k"
    using len_gt_0 [where 'a='a] by (metis Suc_pred One_nat_def power_Suc)
  assume "\<not> ?thesis"
  then have "2 ^ ?k \<le> unat w" using len by simp
  moreover have "unat w < 2 * 2 ^ ?k" unfolding len [symmetric] by (rule unsigned_less)
  ultimately have "unat w div 2 ^ ?k = Suc 0"
    by (intro div_nat_eqI) simp_all
  then have "bit (unat w) ?k" by (simp add: bit_iff_odd)
  with assms show False by (simp add: bit_unsigned_iff)
qed

lemma unat_double [unat_steps]:
  assumes "\<not> bit (w::'a::len word) (LENGTH('a) - Suc 0)"
  shows "unat (w * 2) = unat w * 2"
proof -
  have "unat (w + w) = unat w + unat w"
    unfolding unat_word_ariths(1) using top_bit_clear_unat [OF assms] by simp
  then show ?thesis unfolding mult_2_right .
qed

lemma unat_exp2: "k < LENGTH('a) \<Longrightarrow> unat (2 ^ k :: 'a::len word) = 2 ^ k"
proof -
  assume k: "k < LENGTH('a)"
  have "unat (2 ^ k :: 'a word) = unat (of_nat (2 ^ k) :: 'a word)" by simp
  also have "\<dots> = take_bit LENGTH('a) (2 ^ k)" by (simp only: unsigned_of_nat of_nat_id)
  also have "\<dots> = 2 ^ k" using k by (intro take_bit_nat_eq_self) simp
  finally show ?thesis .
qed

lemma unat_ucast_small:
  "unat (w::'a::len word) < 2 ^ LENGTH('b) \<Longrightarrow> unat (ucast w :: 'b::len word) = unat w"
  by (simp add: unsigned_ucast_eq unsigned_take_bit_eq take_bit_nat_eq_self)

lemma unat_eq_exp2D: "unat (w::'a::len word) = 2 ^ k \<Longrightarrow> w = 2 ^ k"
  by (metis of_nat_numeral of_nat_power of_nat_unat ucast_id)

lemma unat_double_lt: "2 * unat (w::'a::len word) < 2 ^ LENGTH('a) \<Longrightarrow> unat (w * 2) = unat w * 2"
  unfolding mult_2_right unat_word_ariths(1) by simp

lemma unat_plus_lt:
  "unat (a::'a::len word) + unat b < 2 ^ LENGTH('a) \<Longrightarrow> unat (a + b) = unat a + unat b"
  unfolding unat_word_ariths(1) by simp

lemma unat_of_nat_lt: "n < 2 ^ LENGTH('a) \<Longrightarrow> unat (of_nat n :: 'a::len word) = n"
  unfolding unsigned_of_nat of_nat_id by (rule take_bit_nat_eq_self)

lemma sint_eq_0_iff: "sint (w::'a::len word) = 0 \<longleftrightarrow> w = 0"
  by (metis signed_word_eqI sint_0)

lemma of_nat_unat_id: "of_nat (unat (w::'a::len word)) = w"
  by (simp add: of_nat_unat)

lemma bit_exp2: "k < LENGTH('a) \<Longrightarrow> bit (2 ^ k :: 'a::len word) n \<longleftrightarrow> n = k"
  using bit_exp_iff [where 'a="'a word", of k n] by auto

lemma and_exp2_eq_0: "k < LENGTH('a) \<Longrightarrow> ((w::'a::len word) AND 2 ^ k) = 0 \<longleftrightarrow> \<not> bit w k"
proof -
  assume k: "k < LENGTH('a)"
  have "w AND 2 ^ k = (if bit w k then 2 ^ k else 0)"
    by (rule bit_eqI) (auto simp: bit_and_iff bit_exp2 [OF k])
  moreover have "(2::'a word) ^ k \<noteq> 0" using k by simp
  ultimately show ?thesis by simp
qed

lemma unat_lt_2p32: "unat (w::u32) < 4294967296"
  using unsigned_less [of w] by simp

lemma unat_inject: "unat (a::'a::len word) = unat b \<longleftrightarrow> a = b"
  by (auto intro: word_unat_eq_iff [THEN iffD2])

lemma unat_minus_le [unat_steps]: "(b::'a::len word) \<le> a \<Longrightarrow> unat (a - b) = unat a - unat b"
  by (simp add: unat_sub)

section \<open>Operations that keep an invariant\<close>

text \<open>
  \<open>exec s op\<close> is the state after one call of a component's interface, \<open>ok s op\<close> the
  condition under which its callers make that call.
\<close>

locale op_contract =
  fixes inv :: "'s \<Rightarrow> bool"
    and ok :: "'s \<Rightarrow> 'op \<Rightarrow> bool"
    and exec :: "'s \<Rightarrow> 'op \<Rightarrow> 's"
  assumes step_inv: "inv s \<Longrightarrow> ok s c \<Longrightarrow> inv (exec s c)"
begin

primrec run :: "'s \<Rightarrow> 'op list \<Rightarrow> 's" where
  "run s [] = s"
| "run s (c # cs) = run (exec s c) cs"

primrec legal :: "'s \<Rightarrow> 'op list \<Rightarrow> bool" where
  "legal s [] = True"
| "legal s (c # cs) = (ok s c \<and> legal (exec s c) cs)"

lemma run_inv: "inv s \<Longrightarrow> legal s cs \<Longrightarrow> inv (run s cs)"
  by (induction cs arbitrary: s) (auto intro: step_inv)

lemma run_append: "run s (cs @ ds) = run (run s cs) ds"
  by (induction cs arbitrary: s) auto

lemma legal_append: "legal s (cs @ ds) = (legal s cs \<and> legal (run s cs) ds)"
  by (induction cs arbitrary: s) auto

end

end
