(* ===== verification/SwDiv.thy ===== *)
theory SwDiv
  imports OtzPrelude
begin

text \<open>
  Division on a core without a divide instruction (\<open>lib/sw_div.c\<close>): the routines the
  compiler calls for \<open>/\<close> and \<open>%\<close>.

  The 32-bit and the 64-bit routine have the same text at two widths, so the inner loop
  and the recursion are stated once over \<open>'a word\<close>. Both may fail to end (a zero divisor
  makes the inner loop double zero for ever), so they are partial functions with
  \<open>None\<close> for a call that does not return.
\<close>

section \<open>Powers of two\<close>

definition is_power_of2 :: "u32 \<Rightarrow> bool" where
  "is_power_of2 n = (n \<noteq> 0 \<and> (n AND (n - 1)) = 0)"

text \<open>The loop of \<open>get_power_of2\<close> with its counter; \<open>-1\<close> when the 32 rounds find no bit.\<close>

function get_power_of2_loop :: "u32 \<Rightarrow> nat \<Rightarrow> int" where
  "get_power_of2_loop n i =
     (if i < 32
      then if (n AND 1) \<noteq> 0 then int i else get_power_of2_loop (drop_bit 1 n) (i + 1)
      else - 1)"
  by pat_completeness auto
termination
  by (relation "measure (\<lambda>(n, i). 32 - i)") auto

declare get_power_of2_loop.simps [simp del]

definition get_power_of2 :: "u32 \<Rightarrow> int" where
  "get_power_of2 n = get_power_of2_loop n 0"

section \<open>The shift loop and the recursion\<close>

text \<open>
  The \<open>while\<close> of the recursive routines: double \<open>tmp\<close> (with its multiplicity \<open>res\<close>)
  while it stays at most the dividend and no bit falls off the top.
\<close>

partial_function (option) udiv_shift_loop ::
  "'a::len word \<Rightarrow> 'a word \<Rightarrow> 'a word \<Rightarrow> ('a word \<times> 'a word) option" where
  "udiv_shift_loop dividend tmp res =
     (if dividend > tmp
      then if (tmp AND push_bit (LENGTH('a) - 1) 1) \<noteq> 0 then Some (tmp, res)
           else let tmp' = push_bit 1 tmp
                in if tmp' > dividend then Some (drop_bit 1 tmp', res)
                   else udiv_shift_loop dividend tmp' (res * 2)
      else Some (tmp, res))"

partial_function (option) udiv_recursive ::
  "'a::len word \<Rightarrow> 'a word \<Rightarrow> 'a word \<Rightarrow> 'a word option" where
  "udiv_recursive dividend divisor acc =
     (if dividend < divisor then Some acc
      else Option.bind (udiv_shift_loop dividend divisor 1)
             (\<lambda>(tmp, res). udiv_recursive (dividend - tmp) divisor (acc + res)))"

text \<open>The same recursion, returning what is left of the dividend (\<open>__aeabi_idivmod\<close>).\<close>

partial_function (option) umod_recursive ::
  "'a::len word \<Rightarrow> 'a word \<Rightarrow> 'a word \<Rightarrow> 'a word option" where
  "umod_recursive dividend divisor acc =
     (if dividend < divisor then Some dividend
      else Option.bind (udiv_shift_loop dividend divisor 1)
             (\<lambda>(tmp, res). umod_recursive (dividend - tmp) divisor (acc + res)))"

definition aeabi_uidiv_recursive :: "u32 \<Rightarrow> u32 \<Rightarrow> u32 \<Rightarrow> u32 option" where
  "aeabi_uidiv_recursive = udiv_recursive"

definition aeabi_uldivmod_recursive :: "u64 \<Rightarrow> u64 \<Rightarrow> u64 \<Rightarrow> u64 option" where
  "aeabi_uldivmod_recursive = udiv_recursive"

definition aeabi_idivmod_recursive :: "u32 \<Rightarrow> u32 \<Rightarrow> u32 \<Rightarrow> u32 option" where
  "aeabi_idivmod_recursive = umod_recursive"

section \<open>The exported routines\<close>

definition aeabi_uidiv :: "u32 \<Rightarrow> u32 \<Rightarrow> u32 outcome" where
  "aeabi_uidiv dividend divisor =
     (if divisor = 0 then dies
      else if dividend < divisor then returns 0
      else if is_power_of2 divisor
      then returns (drop_bit (nat (get_power_of2 divisor)) dividend)
      else map_option Inr (aeabi_uidiv_recursive dividend divisor 0))"

record ulldiv_t =
  quot :: u64
  rem :: u64

text \<open>
  \<open>is_power_of2\<close> and \<open>get_power_of2\<close> take a \<open>u32\<close>, so the 64-bit divisor is converted
  (\<open>ucast\<close> keeps its low 32 bits) in both calls.
\<close>

definition aeabi_uldivmod :: "u64 \<Rightarrow> u64 \<Rightarrow> ulldiv_t outcome" where
  "aeabi_uldivmod dividend divisor =
     (if divisor = 0 then dies
      else if dividend < divisor then returns \<lparr>quot = 0, rem = dividend\<rparr>
      else if is_power_of2 (ucast divisor)
      then let q = drop_bit (nat (get_power_of2 (ucast divisor))) dividend
           in returns \<lparr>quot = q, rem = dividend - q * divisor\<rparr>
      else map_option (\<lambda>q. Inr \<lparr>quot = q, rem = dividend - q * divisor\<rparr>)
             (aeabi_uldivmod_recursive dividend divisor 0))"

definition aeabi_idivmod :: "u32 \<Rightarrow> u32 \<Rightarrow> u32 outcome" where
  "aeabi_idivmod dividend divisor =
     (if divisor = 0 then dies
      else if dividend < divisor then returns dividend
      else if is_power_of2 divisor then returns (dividend AND (divisor - 1))
      else map_option Inr (aeabi_idivmod_recursive dividend divisor 0))"

section \<open>The shift loop finds a multiple of the divisor\<close>

lemma double_half:
  assumes "\<not> bit (w::'a::len word) (LENGTH('a) - Suc 0)"
  shows "drop_bit (Suc 0) (w * 2) = w"
proof -
  have "unat (drop_bit (Suc 0) (w * 2)) = drop_bit (Suc 0) (unat (w * 2))"
    by (rule unat_drop_bit_eq)
  also have "\<dots> = unat w"
    using unat_double [OF assms] by (simp add: drop_bit_Suc)
  finally show ?thesis by (simp only: word_unat_eq_iff)
qed

lemma udiv_shift_loop_spec:
  fixes dividend tmp res :: "'a::len word"
  assumes "tmp \<noteq> 0" "tmp \<le> dividend" "unat tmp = unat d * unat res"
  shows "\<exists>t r. udiv_shift_loop dividend tmp res = Some (t, r) \<and> t \<noteq> 0 \<and> t \<le> dividend
             \<and> unat t = unat d * unat r"
  using assms
proof (induction "unat dividend - unat tmp" arbitrary: tmp res rule: less_induct)
  case less
  let ?k = "LENGTH('a) - Suc 0"
  note step = udiv_shift_loop.simps [of dividend tmp res]
  show ?case
  proof (cases "tmp < dividend \<and> \<not> bit tmp ?k")
    case False
    then show ?thesis using less.prems step by (auto simp: and_top_bit [simplified])
  next
    case True
    then have dbl: "unat (tmp * 2) = unat tmp * 2" by (simp add: unat_double)
    show ?thesis
    proof (cases "tmp * 2 > dividend")
      case gt: True
      with True step less.prems show ?thesis
        by (auto simp: and_top_bit [simplified] double_half Let_def)
    next
      case le: False
      have pos: "0 < unat tmp" using less.prems(1) by (simp add: unat_gt_0)
      have "unat d * unat res \<noteq> 0" using less.prems(3) pos by simp
      then have "unat res \<le> unat tmp" using less.prems(3) by simp
      then have "2 * unat res < 2 ^ LENGTH('a)"
        using top_bit_clear_unat [of tmp] True by simp
      then have r2: "unat (res * 2) = unat res * 2" by (rule unat_double_lt)
      have "udiv_shift_loop dividend tmp res = udiv_shift_loop dividend (tmp * 2) (res * 2)"
        using step True le by (auto simp: and_top_bit [simplified] Let_def)
      moreover have "unat dividend - unat (tmp * 2) < unat dividend - unat tmp"
        using True pos dbl by (auto simp: word_less_nat_alt)
      moreover have "tmp * 2 \<noteq> 0" using dbl pos by (metis unat_0 mult_is_0 neq0_conv zero_neq_numeral)
      ultimately show ?thesis
        using less.hyps [of "tmp * 2" "res * 2"] le dbl r2 less.prems(3) by (simp add: not_less)
    qed
  qed
qed

section \<open>The recursion divides\<close>

lemma udiv_peel:
  fixes n d :: "'a::len word"
  assumes "d \<noteq> 0" "t \<le> n" "unat t = unat d * unat r"
  shows "r + (n - t) div d = n div d" and "(n - t) mod d = n mod d"
proof -
  have d: "0 < unat d" using assms(1) by (simp add: unat_gt_0)
  have sub: "unat (n - t) = unat n - unat d * unat r"
    using assms(2,3) by (simp add: unat_minus_le)
  have le: "unat d * unat r \<le> unat n" using assms(2,3) by (simp add: word_le_nat_alt)
  then obtain m where m: "unat n = unat d * unat r + m" using le_Suc_ex by blast
  have q: "unat n div unat d = unat r + (unat n - unat d * unat r) div unat d"
    using d by (simp add: m)
  have "unat n div unat d < 2 ^ LENGTH('a)"
    by (meson div_le_dividend le_less_trans unsigned_less)
  then have "unat (r + (n - t) div d) = unat r + unat ((n - t) div d)"
    using q by (intro unat_plus_lt) (simp add: unat_div sub)
  then show "r + (n - t) div d = n div d"
    by (simp add: word_unat_eq_iff unat_div sub q)
  show "(n - t) mod d = n mod d"
    using sub m by (simp add: word_unat_eq_iff unat_mod)
qed

lemma udiv_recursive_correct:
  fixes n d :: "'a::len word"
  assumes "d \<noteq> 0"
  shows "udiv_recursive n d acc = Some (acc + n div d)"
proof (induction "unat n" arbitrary: n acc rule: less_induct)
  case less
  show ?case
  proof (cases "n < d")
    case True
    then have "n div d = 0"
      by (simp add: word_unat_eq_iff unat_div word_less_nat_alt)
    with True show ?thesis by (simp add: udiv_recursive.simps [of n d acc])
  next
    case False
    then obtain t r where loop: "udiv_shift_loop n d 1 = Some (t, r)" "t \<noteq> 0" "t \<le> n"
        "unat t = unat d * unat r"
      using udiv_shift_loop_spec [of d n d 1] assms by (auto simp: not_less)
    have "unat (n - t) < unat n"
      using loop(2,3) by (simp add: unat_minus_le word_le_nat_alt unat_gt_0)
        (metis diff_less le_zero_eq neq0_conv unat_gt_0)
    then have "udiv_recursive (n - t) d (acc + r) = Some (acc + r + (n - t) div d)"
      by (rule less)
    with False loop show ?thesis
      using udiv_peel(1) [OF assms loop(3,4)]
      by (simp add: udiv_recursive.simps [of n d acc] add.assoc)
  qed
qed

lemma umod_recursive_correct:
  fixes n d :: "'a::len word"
  assumes "d \<noteq> 0"
  shows "umod_recursive n d acc = Some (n mod d)"
proof (induction "unat n" arbitrary: n acc rule: less_induct)
  case less
  show ?case
  proof (cases "n < d")
    case True
    then show ?thesis
      by (simp add: umod_recursive.simps [of n d acc] word_unat_eq_iff unat_mod word_less_nat_alt)
  next
    case False
    then obtain t r where loop: "udiv_shift_loop n d 1 = Some (t, r)" "t \<noteq> 0" "t \<le> n"
        "unat t = unat d * unat r"
      using udiv_shift_loop_spec [of d n d 1] assms by (auto simp: not_less)
    have "unat (n - t) < unat n"
      using loop(2,3) by (simp add: unat_minus_le word_le_nat_alt unat_gt_0)
        (metis diff_less le_zero_eq neq0_conv unat_gt_0)
    then have "umod_recursive (n - t) d (acc + r) = Some ((n - t) mod d)"
      by (rule less)
    with False loop show ?thesis
      using udiv_peel(2) [OF assms loop(3,4)]
      by (simp add: umod_recursive.simps [of n d acc])
  qed
qed

section \<open>Powers of two are recognised and measured\<close>

lemma nat_and_pred_zero:
  "0 < n \<Longrightarrow> n AND (n - 1) = 0 \<Longrightarrow> \<exists>k. (n::nat) = 2 ^ k"
proof (induction n rule: less_induct)
  case (less n)
  show ?case
  proof (cases "odd n")
    case True
    then obtain m where m: "n = 2 * m + 1" by (rule oddE)
    then have "n AND (n - 1) = 2 * m"
      by (simp add: and_nat_rec [of "Suc (2 * m)"] flip: mult_2)
    with less.prems m have "n = 2 ^ 0" by simp
    then show ?thesis ..
  next
    case False
    then obtain m where m: "n = 2 * m" by (auto elim: evenE)
    with less.prems have "0 < m" by simp
    have pred: "n - 1 = 2 * (m - 1) + 1" using m \<open>0 < m\<close> by simp
    have "n AND (n - 1) = 2 * (m AND (m - 1))"
      by (simp only: and_nat_rec [of n] pred) (simp add: m)
    with less.prems \<open>0 < m\<close> m obtain k where "m = 2 ^ k"
      using less.IH [of m] by auto
    with m have "n = 2 ^ Suc k" by simp
    then show ?thesis ..
  qed
qed

lemma is_power_of2_iff: "is_power_of2 n = (\<exists>k<32. n = 2 ^ k)"
proof
  assume "is_power_of2 n"
  then have nz: "n \<noteq> 0" and z: "n AND (n - 1) = 0" by (auto simp: is_power_of2_def)
  have "unat n AND (unat n - 1) = unat (n AND (n - 1))"
    using nz by (simp add: unsigned_and_eq unat_minus_one)
  with z have "unat n AND (unat n - 1) = 0" by simp
  moreover have "0 < unat n" using nz by (simp add: unat_gt_0)
  ultimately obtain k where k: "unat n = 2 ^ k" using nat_and_pred_zero by blast
  moreover have "unat n < 2 ^ 32" using unsigned_less [of n] by simp
  ultimately have "(2::nat) ^ k < 2 ^ 32" by simp
  then have "k < 32" by (rule power_less_imp_less_exp [rotated]) simp
  moreover have "n = 2 ^ k" using k by (rule unat_eq_exp2D)
  ultimately show "\<exists>k<32. n = 2 ^ k" by blast
next
  assume "\<exists>k<32. n = 2 ^ k"
  then obtain k where k: "k < 32" "n = 2 ^ k" by blast
  have "n - 1 = mask k" using k by (simp add: mask_eq_exp_minus_1)
  then have "n AND (n - 1) = take_bit k n" by (simp add: take_bit_eq_mask)
  also have "\<dots> = 0" using k by (simp add: take_bit_eq_mod)
  finally show "is_power_of2 n" using k by (simp add: is_power_of2_def)
qed

lemma get_power_of2_loop_exp:
  "i + k < 32 \<Longrightarrow> get_power_of2_loop (2 ^ k) i = int (i + k)"
proof (induction k arbitrary: i)
  case 0
  then show ?case by (simp add: get_power_of2_loop.simps)
next
  case (Suc k)
  have "(2::u32) ^ Suc k AND 1 = 0"
    by (intro bit_word_eqI) (auto simp: bit_and_iff bit_exp_iff bit_1_iff simp del: power_Suc)
  moreover have "drop_bit 1 ((2::u32) ^ Suc k) = 2 ^ k"
    using Suc.prems
    by (intro bit_word_eqI) (auto simp: bit_drop_bit_eq bit_exp_iff simp del: power_Suc)
  ultimately show ?case
    using Suc.prems Suc.IH [of "Suc i"] get_power_of2_loop.simps [of "2 ^ Suc k" i] by simp
qed

lemma get_power_of2_exp: "k < 32 \<Longrightarrow> get_power_of2 (2 ^ k) = int k"
  by (simp add: get_power_of2_def get_power_of2_loop_exp)

lemma get_power_of2_zero: "get_power_of2 0 = - 1"
proof -
  have "get_power_of2_loop 0 i = - 1" for i
  proof (induction "32 - i" arbitrary: i)
    case 0
    then show ?case by (simp add: get_power_of2_loop.simps)
  next
    case (Suc m)
    then have "32 - Suc i = m" by simp
    with Suc show ?case by (subst get_power_of2_loop.simps) auto
  qed
  then show ?thesis by (simp add: get_power_of2_def)
qed

section \<open>What the routines compute\<close>

lemma drop_bit_power_of2:
  "is_power_of2 d \<Longrightarrow> drop_bit (nat (get_power_of2 d)) (n::u32) = n div d"
  by (auto simp: is_power_of2_iff get_power_of2_exp drop_bit_eq_div)

lemma and_pred_power_of2: "is_power_of2 d \<Longrightarrow> (n::u32) AND (d - 1) = n mod d"
  by (auto simp: is_power_of2_iff take_bit_eq_mod simp flip: mask_eq_exp_minus_1 take_bit_eq_mask)

lemma word_div_lt: "(n::'a::len word) < d \<Longrightarrow> n div d = 0"
  by (simp add: word_unat_eq_iff unat_div word_less_nat_alt)

lemma word_mod_lt: "(n::'a::len word) < d \<Longrightarrow> n mod d = n"
  by (simp add: word_unat_eq_iff unat_mod word_less_nat_alt)

lemma word_rem_eq: "(n::'a::len word) - n div d * d = n mod d"
  by (metis add_diff_cancel_left' div_mult_mod_eq)

text \<open>
  \<open>__aeabi_uidiv\<close>: it stops the machine on a zero divisor and otherwise always
  returns, with the unsigned quotient.
\<close>

theorem aeabi_uidiv_correct:
  "aeabi_uidiv n d = (if d = 0 then dies else returns (n div d))"
  by (simp add: aeabi_uidiv_def aeabi_uidiv_recursive_def udiv_recursive_correct
      drop_bit_power_of2 word_div_lt)

text \<open>
  \<open>__aeabi_idivmod\<close>: it stops the machine on a zero divisor and otherwise always
  returns, with the unsigned remainder.
\<close>

theorem aeabi_idivmod_correct:
  "aeabi_idivmod n d = (if d = 0 then dies else returns (n mod d))"
  by (simp add: aeabi_idivmod_def aeabi_idivmod_recursive_def umod_recursive_correct
      and_pred_power_of2 word_mod_lt)

text \<open>The 64-bit routine: right where its divisor fits the \<open>u32\<close> helpers.\<close>

lemma ucast_power_of2_small:
  assumes "(d::u64) < 2 ^ 32" "is_power_of2 (ucast d)"
  shows "drop_bit (nat (get_power_of2 (ucast d))) (n::u64) = n div d"
proof -
  obtain k where k: "k < 32" "ucast d = (2::u32) ^ k"
    using assms(2) by (auto simp: is_power_of2_iff)
  have "unat d < 2 ^ 32" using assms(1) by (simp add: word_less_nat_alt)
  then have "unat (ucast d :: u32) = unat d" by (simp add: unat_ucast_small)
  moreover have "unat (2 ^ k :: u32) = 2 ^ k" using k(1) by (simp add: unat_exp2)
  ultimately have "unat d = 2 ^ k" using k(2) by simp
  then have "d = 2 ^ k" by (rule unat_eq_exp2D)
  then show ?thesis using k by (simp add: get_power_of2_exp drop_bit_eq_div)
qed

text \<open>
  Where the divisor needs more than 32 bits and its low half is a power of two, the
  helpers see only that low half: the dividend is shifted by the wrong amount.
\<close>

lemma ucast_power_of2_large:
  assumes "\<not> (d::u64) < 2 ^ 32" "is_power_of2 (ucast d)" "\<not> (n::u64) < d"
  shows "drop_bit (nat (get_power_of2 (ucast d))) n \<noteq> n div d"
proof -
  obtain k where k: "k < 32" "ucast d = (2::u32) ^ k"
    using assms(2) by (auto simp: is_power_of2_iff)
  have d: "2 ^ 32 \<le> unat d" using assms(1) by (simp add: not_less word_le_nat_alt)
  have nd: "unat d \<le> unat n" using assms(3) by (simp add: not_less word_le_nat_alt)
  have "(2::nat) * 2 ^ k = 2 ^ Suc k" by simp
  also have "\<dots> \<le> 2 ^ 32" using k(1) by (intro power_increasing) simp_all
  finally have two: "2 * 2 ^ k \<le> unat d" using d by linarith
  have "1 \<le> unat n div unat d" using nd d by (simp add: Suc_leI div_greater_zero_iff)
  moreover have "(2 * (unat n div unat d)) * 2 ^ k \<le> unat n"
  proof -
    have "(2 * (unat n div unat d)) * 2 ^ k = (unat n div unat d) * (2 * 2 ^ k)" by simp
    also have "\<dots> \<le> (unat n div unat d) * unat d" using two by (rule mult_le_mono2)
    also have "\<dots> \<le> unat n" by simp
    finally show ?thesis .
  qed
  then have "2 * (unat n div unat d) \<le> unat n div 2 ^ k"
    by (simp add: less_eq_div_iff_mult_less_eq)
  ultimately have "unat n div 2 ^ k \<noteq> unat n div unat d" by linarith
  then have "drop_bit k n \<noteq> n div d"
    by (simp add: word_unat_eq_iff unat_div unat_drop_bit_eq drop_bit_eq_div [where 'a=nat])
  with k show ?thesis by (simp add: get_power_of2_exp)
qed

lemma drop_bit_low_half:
  assumes "is_power_of2 (ucast (d::u64))"
  shows "drop_bit (nat (get_power_of2 (ucast d))) (n::u64) = n div ucast (ucast d :: u32)"
proof -
  obtain k where k: "k < 32" "ucast d = (2::u32) ^ k" using assms by (auto simp: is_power_of2_iff)
  have "(2::nat) ^ k < 2 ^ 64" using k(1) by (intro power_strict_increasing) simp_all
  then have "unat (ucast (2 ^ k :: u32) :: u64) = 2 ^ k"
    using k(1) by (simp add: unsigned_ucast_eq unat_exp2 take_bit_eq_mod)
  then have "ucast (2 ^ k :: u32) = (2 ^ k :: u64)" by (rule unat_eq_exp2D)
  then show ?thesis using k by (simp add: get_power_of2_exp drop_bit_eq_div)
qed

text \<open>
  C22. \<open>__aeabi_uldivmod\<close> stops the machine on a zero divisor and returns on every other one. It returns
  the exact quotient and remainder where the dividend is smaller than the divisor, or the divisor is
  below \<open>2 ^ 32\<close>, or the low 32 bits of the divisor are no power of two. Everywhere else the dividend
  is divided by the low 32 bits of the divisor alone, and that quotient is wrong.
\<close>

theorem aeabi_uldivmod_correct_iff:
  "aeabi_uldivmod n d =
     (if d = 0 then dies
      else if n < d \<or> d < 2 ^ 32 \<or> \<not> is_power_of2 (ucast d) then returns \<lparr>quot = n div d, rem = n mod d\<rparr>
      else let q = n div ucast (ucast d :: u32) in returns \<lparr>quot = q, rem = n - q * d\<rparr>) \<and>
   (d \<noteq> 0 \<and> \<not> (n < d \<or> d < 2 ^ 32 \<or> \<not> is_power_of2 (ucast d)) \<longrightarrow> n div ucast (ucast d :: u32) \<noteq> n div d)"
  using ucast_power_of2_small [of d n] ucast_power_of2_large [of d n] drop_bit_low_half [of d n]
  by (auto simp: aeabi_uldivmod_def aeabi_uldivmod_recursive_def udiv_recursive_correct Let_def
      word_div_lt word_mod_lt word_rem_eq)

theorem aeabi_uldivmod_correct_iff_witness:
  "aeabi_uldivmod 0x100000010 0x100000004 = returns \<lparr>quot = 0x40000004, rem = 0x100000010 - 0x40000004 * 0x100000004\<rparr> \<and>
   (0x40000004 :: u64) \<noteq> 0x100000010 div 0x100000004 \<and>
   aeabi_uldivmod 1000 7 = returns \<lparr>quot = 1000 div 7, rem = 1000 mod 7\<rparr>"
proof -
  have "\<not> (0x100000010::u64) < 0x100000004 \<and> \<not> (0x100000004::u64) < 2 ^ 32 \<and> is_power_of2 (ucast (0x100000004::u64))"
    by (simp add: is_power_of2_def)
  moreover have "(0x100000010::u64) div ucast (ucast (0x100000004::u64) :: u32) = 0x40000004" by simp
  ultimately show ?thesis
    using aeabi_uldivmod_correct_iff [of "0x100000010" "0x100000004"] aeabi_uldivmod_correct_iff [of 1000 7] by simp
qed

end
