(* ===== verification/SwList.thy ===== *)
theory SwList
  imports OtzPrelude
begin

text \<open>
  The intrusive circular list of \<open>include/sw_list.h\<close>, on which every kernel queue is
  built: the task list, the ready list, wait queues, the timer queue, the page
  references and the bins of the buddy allocator.

  The links are modelled as memory: two maps from node address to node address, written
  by the same assignments in the same order as the C, so aliasing between a node and its
  neighbours is part of the model. \<open>ring s h xs\<close> relates that memory to the sequence
  \<open>xs\<close> of the nodes on the list headed by \<open>h\<close>; each operation is shown to act on the
  sequence as its comment says. The other theories use these sequences.
\<close>

section \<open>Nodes and primitive operations\<close>

type_synonym ptr = u32

record links =
  nxt :: "ptr \<Rightarrow> ptr"
  prv :: "ptr \<Rightarrow> ptr"

definition LIST_POISON_PREV :: ptr where "LIST_POISON_PREV = 0xDEADBEEF"
definition LIST_POISON_NEXT :: ptr where "LIST_POISON_NEXT = 0xFADEBABE"

definition set_nxt :: "ptr \<Rightarrow> ptr \<Rightarrow> links \<Rightarrow> links" where
  "set_nxt p v s = s\<lparr>nxt := (nxt s)(p := v)\<rparr>"

definition set_prv :: "ptr \<Rightarrow> ptr \<Rightarrow> links \<Rightarrow> links" where
  "set_prv p v s = s\<lparr>prv := (prv s)(p := v)\<rparr>"

definition init_list_head :: "ptr \<Rightarrow> links \<Rightarrow> links" where
  "init_list_head p s = set_prv p p (set_nxt p p s)"

text \<open>\<open>__list_add\<close>: the four assignments, first to last.\<close>

definition list_add_between :: "ptr \<Rightarrow> ptr \<Rightarrow> ptr \<Rightarrow> links \<Rightarrow> links" where
  "list_add_between prev next new s =
     (let s1 = set_prv new prev s;
          s2 = set_nxt new next s1;
          s3 = set_nxt prev new s2
      in set_prv next new s3)"

definition list_add :: "ptr \<Rightarrow> ptr \<Rightarrow> links \<Rightarrow> links" where
  "list_add head new s = list_add_between head (nxt s head) new s"

definition list_add_tail :: "ptr \<Rightarrow> ptr \<Rightarrow> links \<Rightarrow> links" where
  "list_add_tail tnode new s = list_add_between (prv s tnode) tnode new s"

text \<open>\<open>__list_del\<close>: every right-hand side is read after the assignments before it.\<close>

definition list_del_between :: "ptr \<Rightarrow> ptr \<Rightarrow> ptr \<Rightarrow> links \<Rightarrow> links" where
  "list_del_between node prev next s =
     (let s1 = set_nxt prev (nxt s node) s;
          s2 = set_prv next (prv s1 node) s1;
          s3 = set_nxt node LIST_POISON_NEXT s2
      in set_prv node LIST_POISON_PREV s3)"

definition list_del :: "ptr \<Rightarrow> links \<Rightarrow> links" where
  "list_del node s = list_del_between node (prv s node) (nxt s node) s"

definition list_pop_tail :: "ptr \<Rightarrow> links \<Rightarrow> ptr \<times> links" where
  "list_pop_tail head s = (prv s head, list_del (prv s head) s)"

definition list_pop :: "ptr \<Rightarrow> links \<Rightarrow> ptr \<times> links" where
  "list_pop head s = (nxt s head, list_del (nxt s head) s)"

definition list_empty :: "ptr \<Rightarrow> links \<Rightarrow> bool" where
  "list_empty head s = (nxt s head = head)"

text \<open>
  \<open>list_for_each\<close>: the nodes its cursor visits. A chain that never comes back to the
  head makes the loop run for ever (\<open>None\<close>).
\<close>

partial_function (option) list_for_each_from :: "links \<Rightarrow> ptr \<Rightarrow> ptr \<Rightarrow> ptr list option" where
  "list_for_each_from s head cur =
     (if cur = head then Some []
      else Option.bind (list_for_each_from s head (nxt s cur)) (\<lambda>ps. Some (cur # ps)))"

definition list_for_each :: "ptr \<Rightarrow> links \<Rightarrow> ptr list option" where
  "list_for_each head s = list_for_each_from s head (nxt s head)"

section \<open>Rings and the sequences they hold\<close>

fun linked :: "links \<Rightarrow> ptr \<Rightarrow> ptr list \<Rightarrow> ptr \<Rightarrow> bool" where
  "linked s a [] b = (nxt s a = b \<and> prv s b = a)"
| "linked s a (x # xs) b = (nxt s a = x \<and> prv s x = a \<and> linked s x xs b)"

definition ring :: "links \<Rightarrow> ptr \<Rightarrow> ptr list \<Rightarrow> bool" where
  "ring s h xs = (linked s h xs h \<and> distinct (h # xs))"

named_theorems ring_simps \<open>the primitive writes, read back\<close>

lemma set_nxt_sel [ring_simps]:
  "nxt (set_nxt p v s) q = (if q = p then v else nxt s q)" "prv (set_nxt p v s) = prv s"
  by (simp_all add: set_nxt_def)

lemma set_prv_sel [ring_simps]:
  "prv (set_prv p v s) q = (if q = p then v else prv s q)" "nxt (set_prv p v s) = nxt s"
  by (simp_all add: set_prv_def)

lemma linked_append: "linked s a (xs @ x # ys) b = (linked s a xs x \<and> linked s x ys b)"
  by (induction xs arbitrary: a) auto

lemma linked_set_nxt [ring_simps]:
  "p \<noteq> a \<Longrightarrow> p \<notin> set xs \<Longrightarrow> linked (set_nxt p v s) a xs b = linked s a xs b"
  by (induction xs arbitrary: a) (auto simp: set_nxt_sel)

lemma linked_set_prv [ring_simps]:
  "p \<noteq> b \<Longrightarrow> p \<notin> set xs \<Longrightarrow> linked (set_prv p v s) a xs b = linked s a xs b"
  by (induction xs arbitrary: a) (auto simp: set_prv_sel)

text \<open>A chain through two lists is a chain through each, meeting at the same link.\<close>

lemma linked_append_iff:
  "linked s a (ys @ zs) b = (linked s a ys (hd (zs @ [b])) \<and> linked s (last (a # ys)) zs b)"
proof (induction ys arbitrary: a)
  case Nil
  then show ?case by (cases zs) auto
next
  case (Cons y ys)
  then show ?case by auto
qed

lemma linked_ends:
  "linked s a xs b \<Longrightarrow> nxt s a = hd (xs @ [b])" "linked s a xs b \<Longrightarrow> prv s b = last (a # xs)"
  by (induction xs arbitrary: a) auto

text \<open>Redirecting the last link of a chain, or the first one.\<close>

lemma linked_new_end:
  assumes "linked s a ys b" "distinct (a # ys)"
    and "nxt s' (last (a # ys)) = x" "prv s' x = last (a # ys)"
    and "\<And>p. p \<in> set (butlast (a # ys)) \<Longrightarrow> nxt s' p = nxt s p"
    and "\<And>p. p \<in> set ys \<Longrightarrow> prv s' p = prv s p"
  shows "linked s' a ys x"
  using assms
proof (induction ys arbitrary: a)
  case Nil
  then show ?case by simp
next
  case (Cons y ys)
  have "linked s' y ys x"
    using Cons.prems by (intro Cons.IH) (auto split: if_splits)
  with Cons.prems show ?case by simp
qed

lemma linked_new_start:
  assumes "linked s a zs b" "nxt s' x = hd (zs @ [b])" "prv s' (hd (zs @ [b])) = x"
    and "\<And>p. p \<in> set zs \<Longrightarrow> nxt s' p = nxt s p"
    and "\<And>p. p \<in> set (tl (zs @ [b])) \<Longrightarrow> prv s' p = prv s p"
  shows "linked s' x zs b"
proof (cases zs)
  case Nil
  with assms show ?thesis by simp
next
  case (Cons z zs')
  have same: "linked s' c us b"
    if "linked s c us b" "\<And>p. p \<in> set (c # us) \<Longrightarrow> nxt s' p = nxt s p"
      "\<And>p. p \<in> set (us @ [b]) \<Longrightarrow> prv s' p = prv s p" for c us
    using that by (induction us arbitrary: c) auto
  have "linked s' z zs' b"
    using assms Cons by (intro same) auto
  with assms(2,3) Cons show ?thesis by simp
qed

section \<open>Each operation on the sequence\<close>

lemma ring_init: "ring (init_list_head h s) h []"
  by (simp add: ring_def init_list_head_def ring_simps)

lemma distinct_ends:
  assumes "distinct (h # ys @ zs)"
  shows "q \<in> set (butlast (h # ys)) \<Longrightarrow> q \<noteq> last (h # ys)"
    and "q \<in> set ys \<Longrightarrow> q \<noteq> hd (zs @ [h])"
    and "q \<in> set zs \<Longrightarrow> q \<noteq> last (h # ys)"
    and "q \<in> set (tl (zs @ [h])) \<Longrightarrow> q \<noteq> hd (zs @ [h])"
proof -
  have "distinct (butlast (h # ys) @ [last (h # ys)])"
    using assms by (subst append_butlast_last_id) simp_all
  then show "q \<in> set (butlast (h # ys)) \<Longrightarrow> q \<noteq> last (h # ys)"
    by (simp only: distinct_append) auto
  show "q \<in> set ys \<Longrightarrow> q \<noteq> hd (zs @ [h])" using assms by (cases zs) auto
  have "last (h # ys) \<in> set (h # ys)" by (rule last_in_set) simp
  then show "q \<in> set zs \<Longrightarrow> q \<noteq> last (h # ys)" using assms by auto
  show "q \<in> set (tl (zs @ [h])) \<Longrightarrow> q \<noteq> hd (zs @ [h])" using assms by (cases zs) auto
qed

lemma ring_list_add_between:
  assumes r: "ring s h (ys @ zs)" and new: "x \<notin> set (h # ys @ zs)"
    and p: "p = last (h # ys)" and n: "n = hd (zs @ [h])"
  shows "ring (list_add_between p n x s) h (ys @ x # zs)"
proof -
  define t where "t = list_add_between p n x s"
  have d: "distinct (h # ys @ zs)" and lnk: "linked s h ys n" "linked s p zs h"
    using r by (auto simp: ring_def linked_append_iff p n)
  note de = distinct_ends [OF d, folded p n]
  have "p \<in> set (h # ys)" unfolding p by (rule last_in_set) simp
  moreover have "n \<in> set (zs @ [h])" unfolding n by (rule hd_in_set) simp
  ultimately have xp: "x \<noteq> p" and xn: "x \<noteq> n" using new by auto
  have t: "nxt t q = (if q = p then x else if q = x then n else nxt s q)"
      "prv t q = (if q = n then x else if q = x then p else prv s q)" for q
    using xp xn by (auto simp: t_def list_add_between_def ring_simps)
  have "linked t h ys x"
  proof (rule linked_new_end [OF lnk(1), folded p])
    show "nxt t q = nxt s q" if "q \<in> set (butlast (h # ys))" for q
      using de(1) [OF that] in_set_butlastD [OF that] new by (auto simp: t)
  qed (use d xp xn new de(2) in \<open>auto simp: t\<close>)
  moreover have "linked t x zs h"
  proof (rule linked_new_start [OF lnk(2), folded n])
    have "set (tl (zs @ [h])) \<subseteq> set (zs @ [h])" by (cases zs) auto
    then show "prv t q = prv s q" if "q \<in> set (tl (zs @ [h]))" for q
      using de(4) [OF that] that new by (auto simp: t)
  qed (use xp xn new de(3) in \<open>auto simp: t\<close>)
  ultimately have "linked t h (ys @ x # zs) h" by (simp add: linked_append)
  with d new show ?thesis by (auto simp: ring_def t_def)
qed

lemma ring_list_add_after:
  assumes "ring s h (ys @ zs)" "x \<notin> set (h # ys @ zs)" "p = last (h # ys)"
  shows "ring (list_add p x s) h (ys @ x # zs)"
proof -
  have "nxt s p = hd (zs @ [h])"
    using assms(1) unfolding assms(3) ring_def linked_append_iff by (blast dest: linked_ends(1))
  with assms show ?thesis
    unfolding list_add_def by (intro ring_list_add_between)
qed

lemma ring_list_add_before:
  assumes "ring s h (ys @ zs)" "x \<notin> set (h # ys @ zs)" "n = hd (zs @ [h])"
  shows "ring (list_add_tail n x s) h (ys @ x # zs)"
proof -
  have "linked s h ys (hd (zs @ [h]))" using assms(1) by (simp add: ring_def linked_append_iff)
  then have "prv s n = last (h # ys)"
    unfolding assms(3) by (rule linked_ends(2))
  with assms show ?thesis
    unfolding list_add_tail_def by (intro ring_list_add_between)
qed

lemma ring_list_del:
  assumes r: "ring s h (ys @ x # zs)"
  shows "ring (list_del x s) h (ys @ zs)"
proof -
  define p n where "p = last (h # ys)" and "n = hd (zs @ [h])"
  define t where "t = list_del x s"
  have d: "distinct (h # ys @ zs)" and x: "x \<notin> set (h # ys @ zs)"
    and lnk: "linked s h ys x" "linked s x zs h"
    using r by (auto simp: ring_def linked_append)
  note de = distinct_ends [OF d, folded p_def n_def]
  have px: "prv s x = p" unfolding p_def by (rule linked_ends(2) [OF lnk(1)])
  have nx: "nxt s x = n" unfolding n_def by (rule linked_ends(1) [OF lnk(2)])
  have "p \<in> set (h # ys)" unfolding p_def by (rule last_in_set) simp
  moreover have "n \<in> set (zs @ [h])" unfolding n_def by (rule hd_in_set) simp
  ultimately have xp: "p \<noteq> x" and xn: "n \<noteq> x" using x by auto
  have t: "nxt t q = (if q = x then LIST_POISON_NEXT else if q = p then n else nxt s q)"
      "prv t q = (if q = x then LIST_POISON_PREV else if q = n then p else prv s q)" for q
    using xp xn px nx by (auto simp: t_def list_del_def list_del_between_def ring_simps)
  have "linked t h ys n"
  proof (rule linked_new_end [OF lnk(1), folded p_def])
    show "nxt t q = nxt s q" if "q \<in> set (butlast (h # ys))" for q
      using de(1) [OF that] in_set_butlastD [OF that] x by (auto simp: t)
    show "prv t q = prv s q" if "q \<in> set ys" for q
      using de(2) [OF that] that x by (auto simp: t)
  qed (use d xp xn in \<open>auto simp: t\<close>)
  moreover have "linked t p zs h"
  proof (rule linked_new_start [OF lnk(2), folded n_def])
    have "set (tl (zs @ [h])) \<subseteq> set (zs @ [h])" by (cases zs) auto
    then show "prv t q = prv s q" if "q \<in> set (tl (zs @ [h]))" for q
      using de(4) [OF that] that x by (auto simp: t)
    show "nxt t q = nxt s q" if "q \<in> set zs" for q
      using de(3) [OF that] that x by (auto simp: t)
  qed (use xp xn in \<open>auto simp: t\<close>)
  ultimately have "linked t h (ys @ zs) h" by (simp add: linked_append_iff p_def n_def)
  with d show ?thesis by (auto simp: ring_def t_def)
qed

lemma ring_list_empty: "ring s h xs \<Longrightarrow> list_empty h s = (xs = [])"
  by (cases xs) (auto simp: ring_def list_empty_def)

lemma ring_first_last:
  assumes "ring s h xs"
  shows "nxt s h = hd (xs @ [h])" and "prv s h = last (h # xs)"
  using assms by (auto simp: ring_def dest: linked_ends)

lemma ring_list_pop:
  assumes "ring s h (x # xs)"
  shows "list_pop h s = (x, list_del x s)" and "ring (list_del x s) h xs"
  using ring_first_last [OF assms] ring_list_del [of s h "[]" x xs] assms
  by (simp_all add: list_pop_def)

lemma ring_list_pop_tail:
  assumes "ring s h (xs @ [x])"
  shows "list_pop_tail h s = (x, list_del x s)" and "ring (list_del x s) h xs"
  using ring_first_last [OF assms] ring_list_del [of s h xs x "[]"] assms
  by (simp_all add: list_pop_tail_def)

lemma ring_list_for_each: "ring s h xs \<Longrightarrow> list_for_each h s = Some xs"
proof -
  have "list_for_each_from s h (nxt s a) = Some ys" if "linked s a ys h" "h \<notin> set ys" for a ys
    using that
  proof (induction ys arbitrary: a)
    case Nil
    then show ?case by (simp add: list_for_each_from.simps [of s h h])
  next
    case (Cons y ys)
    then show ?case by (auto simp: list_for_each_from.simps [of s h y])
  qed
  then show "ring s h xs \<Longrightarrow> list_for_each h s = Some xs"
    by (simp add: ring_def list_for_each_def)
qed

section \<open>The list as a queue\<close>

text \<open>
  What the kernel's queues rely on: \<open>rep s q xs\<close> says that the queue \<open>q\<close> holds \<open>xs\<close>, front
  first. \<open>fresh s q x\<close> is the caller's duty that \<open>x\<close> is not the head and not on the
  queue.
\<close>

locale fifo =
  fixes rep :: "'s \<Rightarrow> 'p \<Rightarrow> 'p list \<Rightarrow> bool"
    and init :: "'p \<Rightarrow> 's \<Rightarrow> 's"
    and put :: "'p \<Rightarrow> 'p \<Rightarrow> 's \<Rightarrow> 's"
    and put_front :: "'p \<Rightarrow> 'p \<Rightarrow> 's \<Rightarrow> 's"
    and take_front :: "'p \<Rightarrow> 's \<Rightarrow> 'p \<times> 's"
    and empty :: "'p \<Rightarrow> 's \<Rightarrow> bool"
  assumes rep_init: "rep (init q s) q []"
    and rep_put: "rep s q xs \<Longrightarrow> x \<notin> set (q # xs) \<Longrightarrow> rep (put q x s) q (xs @ [x])"
    and rep_put_front: "rep s q xs \<Longrightarrow> x \<notin> set (q # xs) \<Longrightarrow> rep (put_front q x s) q (x # xs)"
    and rep_take_front: "rep s q (x # xs) \<Longrightarrow> \<exists>s'. take_front q s = (x, s') \<and> rep s' q xs"
    and rep_empty: "rep s q xs \<Longrightarrow> empty q s = (xs = [])"
    and rep_distinct: "rep s q xs \<Longrightarrow> distinct (q # xs)"
begin

fun take_n :: "'p \<Rightarrow> nat \<Rightarrow> 's \<Rightarrow> 'p list \<times> 's" where
  "take_n q 0 s = ([], s)"
| "take_n q (Suc n) s =
     (if empty q s then ([], s)
      else let (x, s1) = take_front q s; (xs, s2) = take_n q n s1 in (x # xs, s2))"

lemma rep_fold_put:
  "rep s q xs \<Longrightarrow> distinct (q # xs @ ys) \<Longrightarrow> rep (fold (put q) ys s) q (xs @ ys)"
proof (induction ys arbitrary: xs s)
  case Nil
  then show ?case by simp
next
  case (Cons y ys)
  have "rep (put q y s) q (xs @ [y])" using Cons.prems by (intro rep_put) auto
  then have "rep (fold (put q) ys (put q y s)) q ((xs @ [y]) @ ys)"
    by (rule Cons.IH) (use Cons.prems in auto)
  then show ?case by simp
qed

lemma rep_take_n:
  "rep s q xs \<Longrightarrow> \<exists>s'. take_n q n s = (take n xs, s') \<and> rep s' q (drop n xs)"
proof (induction n arbitrary: s xs)
  case 0
  then show ?case by simp
next
  case (Suc n)
  show ?case
  proof (cases xs)
    case Nil
    with Suc.prems show ?thesis by (simp add: rep_empty)
  next
    case (Cons x xs')
    with Suc.prems obtain s1 where s1: "take_front q s = (x, s1)" "rep s1 q xs'"
      using rep_take_front by blast
    with Suc.IH [OF s1(2)] Suc.prems Cons show ?thesis by (auto simp: rep_empty Let_def)
  qed
qed

lemma fifo_order:
  assumes "distinct (q # xs)"
  shows "fst (take_n q (length xs) (fold (put q) xs (init q s))) = xs"
proof -
  have "rep (fold (put q) xs (init q s)) q ([] @ xs)"
    by (rule rep_fold_put [OF rep_init]) (use assms in simp)
  then obtain s' where "take_n q (length xs) (fold (put q) xs (init q s)) = (take (length xs) xs, s')"
    using rep_take_n by fastforce
  then show ?thesis by simp
qed

end

lemma list_pop_front: "ring s q (x # xs) \<Longrightarrow> \<exists>s'. list_pop q s = (x, s') \<and> ring s' q xs"
  using ring_list_pop [of s q x xs] by auto

interpretation sw_queue: fifo ring init_list_head list_add_tail list_add list_pop list_empty
proof unfold_locales
  show "ring (list_add_tail q x s) q (xs @ [x])" if "ring s q xs" "x \<notin> set (q # xs)" for s q xs x
    using ring_list_add_before [of s q xs "[]" x q] that by simp
  show "ring (list_add q x s) q (x # xs)" if "ring s q xs" "x \<notin> set (q # xs)" for s q xs x
    using ring_list_add_after [of s q "[]" xs x q] that by simp
qed (auto simp: ring_init ring_list_empty intro: list_pop_front, auto simp: ring_def)

text \<open>Nodes queued with \<open>list_add_tail\<close> and taken with \<open>list_pop\<close> come back in their order.\<close>

lemmas list_queue_fifo = sw_queue.fifo_order

text \<open>
  The pointer operations of \<open>sw_list.h\<close> do what their comments say on any well-formed
  list: adding puts the node first or last, deleting removes exactly that node and poisons
  its links, popping takes the first or the last node, and a traversal always ends and
  visits the nodes in order.
\<close>

theorem sw_list_operations:
  assumes "ring s h xs" "x \<notin> set (h # xs)"
  shows "list_for_each h (list_add h x s) = Some (x # xs) \<and>
    list_for_each h (list_add_tail h x s) = Some (xs @ [x]) \<and>
    list_empty h s = (xs = []) \<and>
    (\<forall>y \<in> set xs. list_for_each h (list_del y s) = Some (remove1 y xs) \<and>
       nxt (list_del y s) y = LIST_POISON_NEXT \<and> prv (list_del y s) y = LIST_POISON_PREV) \<and>
    (xs \<noteq> [] \<longrightarrow>
       fst (list_pop h s) = hd xs \<and>
       list_for_each h (snd (list_pop h s)) = Some (tl xs) \<and>
       fst (list_pop_tail h s) = last xs \<and>
       list_for_each h (snd (list_pop_tail h s)) = Some (butlast xs))"
proof (intro conjI ballI impI)
  fix y assume "y \<in> set xs"
  then obtain us vs where xs: "xs = us @ y # vs" "y \<notin> set us" using split_list_first by fast
  have "ring (list_del y s) h (us @ vs)" using assms(1) unfolding xs by (rule ring_list_del)
  with xs show "list_for_each h (list_del y s) = Some (remove1 y xs)"
    by (simp add: ring_list_for_each remove1_append)
  show "nxt (list_del y s) y = LIST_POISON_NEXT" "prv (list_del y s) y = LIST_POISON_PREV"
    by (simp_all add: list_del_def list_del_between_def ring_simps Let_def)
next
  assume ne: "xs \<noteq> []"
  with assms(1) ring_list_pop [of s h "hd xs" "tl xs"]
    ring_list_pop_tail [of s h "butlast xs" "last xs"]
  show "fst (list_pop h s) = hd xs" "list_for_each h (snd (list_pop h s)) = Some (tl xs)"
    "fst (list_pop_tail h s) = last xs"
    "list_for_each h (snd (list_pop_tail h s)) = Some (butlast xs)"
    by (simp_all add: ring_list_for_each)
qed (use assms sw_queue.rep_put_front [OF assms] sw_queue.rep_put [OF assms] in
    \<open>simp_all add: ring_list_for_each ring_list_empty\<close>)

text \<open>A list of two nodes at addresses 8 and 16, headed by the node at address 4.\<close>

definition two_nodes :: links where
  "two_nodes = list_add_tail 4 16 (list_add_tail 4 8 (init_list_head 4 \<lparr>nxt = \<lambda>_. 0, prv = \<lambda>_. 0\<rparr>))"

lemma two_nodes_ring: "ring two_nodes 4 [8, 16]"
  by (simp add: two_nodes_def ring_def list_add_tail_def list_add_between_def init_list_head_def
      ring_simps)

theorem sw_list_operations_witness:
  "ring two_nodes 4 [8, 16] \<and> (24::ptr) \<notin> set (4 # [8, 16]) \<and>
   list_for_each 4 (list_add 4 24 two_nodes) = Some [24, 8, 16] \<and>
   list_for_each 4 (list_add_tail 4 24 two_nodes) = Some [8, 16, 24] \<and>
   list_for_each 4 (list_del 8 two_nodes) = Some [16] \<and>
   fst (list_pop 4 two_nodes) = 8 \<and> \<not> list_empty 4 two_nodes"
  using two_nodes_ring sw_list_operations [OF two_nodes_ring, of 24] by simp

end
