(* ===== verification/SwBuddy.thy ===== *)
theory SwBuddy
  imports OtzPrelude
begin

text \<open>
  The buddy allocator (\<open>lib/sw_buddy.c\<close>) that serves every task and the kernel itself.

  A heap keeps its bookkeeping in two arrays at the start of its own memory: \<open>hk_fn\<close>, the
  free-area nodes, and \<open>hk_an\<close>, the allocated-area nodes. A node is unused exactly when
  its \<open>map\<close> pointer is null. Bin \<open>b\<close> lists the free blocks of \<open>4 * 2 ^ b\<close> bytes and
  \<open>current\<close> lists the allocated ones; both hold array positions here, in list order
  (theory \<open>SwList\<close> justifies the sequences). Addresses are 32-bit words.
  \<open>SwBuddyInv\<close> holds its theorems.
\<close>

section \<open>Constants and state\<close>

definition MIN_BLOCK_SIZE :: nat where "MIN_BLOCK_SIZE = 4"
definition MAX_BLOCK_SIZE :: nat where "MAX_BLOCK_SIZE = 4096"
definition BINS_MAX_ORDER :: nat where "BINS_MAX_ORDER = 11"
definition NUM_OF_HEAPS :: nat where "NUM_OF_HEAPS = 8"
definition HEAP_SIZE :: u32 where "HEAP_SIZE = 0x10000"
definition HOUSE_KEEPING_PERCENT :: u32 where "HOUSE_KEEPING_PERCENT = 25"
definition COMMON_HEAP_ID :: int where "COMMON_HEAP_ID = 0"

lemmas buddy_consts = MIN_BLOCK_SIZE_def MAX_BLOCK_SIZE_def BINS_MAX_ORDER_def

record sw_alloced_area =
  a_map :: u32
  blk_sz :: u32
  bin_num :: nat

record sw_heap =
  hk_fn :: "nat \<Rightarrow> u32"
  hk_fn_count :: nat
  hk_an :: "nat \<Rightarrow> sw_alloced_area"
  hk_an_count :: nat
  current :: "nat list"
  current_count :: nat
  mem_start :: u32
  mem_size :: u32
  heap_start :: u32
  heap_size :: u32
  bins :: "nat \<Rightarrow> nat list"
  counts :: "nat \<Rightarrow> nat"

definition zero_area :: sw_alloced_area where
  "zero_area = \<lparr>a_map = 0, blk_sz = 0, bin_num = 0\<rparr>"

section \<open>Housekeeping nodes\<close>

definition get_free_hk_node :: "sw_heap \<Rightarrow> nat option" where
  "get_free_hk_node h = find (\<lambda>i. hk_fn h i = 0) [0..<hk_fn_count h]"

definition free_hk_node :: "nat \<Rightarrow> sw_heap \<Rightarrow> sw_heap" where
  "free_hk_node n h = h\<lparr>hk_fn := (hk_fn h)(n := 0)\<rparr>"

definition get_free_ac_node :: "sw_heap \<Rightarrow> nat option" where
  "get_free_ac_node h = find (\<lambda>i. a_map (hk_an h i) = 0) [0..<hk_an_count h]"

definition set_hk_map :: "nat \<Rightarrow> u32 \<Rightarrow> sw_heap \<Rightarrow> sw_heap" where
  "set_hk_map n a h = h\<lparr>hk_fn := (hk_fn h)(n := a)\<rparr>"

definition set_bin :: "nat \<Rightarrow> nat list \<Rightarrow> sw_heap \<Rightarrow> sw_heap" where
  "set_bin b ns h = h\<lparr>bins := (bins h)(b := ns)\<rparr>"

definition set_count :: "nat \<Rightarrow> nat \<Rightarrow> sw_heap \<Rightarrow> sw_heap" where
  "set_count b c h = h\<lparr>counts := (counts h)(b := c)\<rparr>"

section \<open>Initialisation\<close>

definition is_pow_two :: "u32 \<Rightarrow> bool" where
  "is_pow_two x = (x \<noteq> 0 \<and> (x AND (x - 1)) = 0)"

text \<open>
  The fill loop: one free node per maximal block. \<open>mem_size\<close> is unsigned, so a size that
  is no multiple of the block size wraps and the loop runs until the nodes are used up.
\<close>

partial_function (option) buddy_fill :: "u32 \<Rightarrow> u32 \<Rightarrow> sw_heap \<Rightarrow> (int \<times> sw_heap) option" where
  "buddy_fill start sz h =
     (if sz > 0
      then case get_free_hk_node h of
             None \<Rightarrow> Some (- 1, h)
           | Some n \<Rightarrow>
               let h1 = set_hk_map n start h;
                   h2 = set_bin (BINS_MAX_ORDER - 1) (bins h1 (BINS_MAX_ORDER - 1) @ [n]) h1;
                   h3 = set_count (BINS_MAX_ORDER - 1) (counts h2 (BINS_MAX_ORDER - 1) + 1) h2
               in buddy_fill (start + of_nat MAX_BLOCK_SIZE) (sz - of_nat MAX_BLOCK_SIZE) h3
      else Some (0, h))"

text \<open>\<open>sizeof\<close> of the packed nodes: 16 bytes for a free area, 24 for an allocated one.\<close>

definition buddy_init :: "u32 \<Rightarrow> u32 \<Rightarrow> sw_heap \<Rightarrow> (int \<times> sw_heap) option" where
  "buddy_init start sz h =
     (if \<not> is_pow_two sz then Some (- 1, h)
      else
        let hk_total_size = (sz * HOUSE_KEEPING_PERCENT) div 100
        in buddy_fill (start + hk_total_size) (sz - hk_total_size)
             \<lparr>hk_fn = (\<lambda>_. 0),
              hk_fn_count = unat (hk_total_size div 2 div 16),
              hk_an = (\<lambda>_. zero_area),
              hk_an_count = unat (hk_total_size div 2 div 24),
              current = [], current_count = current_count h,
              mem_start = start + hk_total_size, mem_size = sz - hk_total_size,
              heap_start = start, heap_size = sz,
              bins = (\<lambda>_. []), counts = (\<lambda>_. 0)\<rparr>)"

section \<open>Taking blocks\<close>

text \<open>
  \<open>buddy_get_block\<close>: the block at the tail of the bin, or half of a block of the next bin.
  The borrowed block goes to this bin, the caller gets a new node for its upper half; when
  no node is left for that half the borrowed block is on no list any more.
\<close>

function buddy_get_block :: "nat \<Rightarrow> sw_heap \<Rightarrow> nat option \<times> sw_heap" where
  "buddy_get_block idx h =
     (if idx \<ge> BINS_MAX_ORDER then (None, h)
      else if bins h idx = [] then
        (case buddy_get_block (idx + 1) h of
           (None, h1) \<Rightarrow> (None, h1)
         | (Some farea, h1) \<Rightarrow>
             (case get_free_hk_node h1 of
                None \<Rightarrow> (None, h1)
              | Some rarea \<Rightarrow>
                  let h2 = set_bin idx (bins h1 idx @ [farea]) h1;
                      h3 = set_count idx (counts h2 idx + 1) h2
                  in (Some rarea,
                      set_hk_map rarea (hk_fn h3 farea + of_nat (MIN_BLOCK_SIZE * 2 ^ idx)) h3)))
      else (Some (last (bins h idx)),
            set_count idx (counts h idx - 1) (set_bin idx (butlast (bins h idx)) h)))"
  by pat_completeness auto
termination
  by (relation "measure (\<lambda>(idx, h). BINS_MAX_ORDER - idx)") auto

declare buddy_get_block.simps [simp del]

text \<open>
  The scan of \<open>buddy_get_contiguous_block\<close>: \<open>snode\<close> (start of the run), \<open>pnode\<close> (last
  node of the run) and \<open>count\<close> as the C keeps them; a gap clears \<open>snode\<close> only.
\<close>

fun contiguous_scan ::
  "(nat \<Rightarrow> u32) \<Rightarrow> nat \<Rightarrow> nat list \<Rightarrow> nat option \<Rightarrow> nat option \<Rightarrow> nat \<Rightarrow> nat option \<times> nat" where
  "contiguous_scan m num_blocks [] snode pnode count = (snode, count)"
| "contiguous_scan m num_blocks (cnode # rest) snode pnode count =
     (let snode1 = (case snode of None \<Rightarrow> Some cnode | Some s \<Rightarrow> Some s)
      in case pnode of
           None \<Rightarrow> contiguous_scan m num_blocks rest snode1 (Some cnode) count
         | Some p \<Rightarrow>
             if m p + of_nat MAX_BLOCK_SIZE = m cnode
             then if count + 1 = num_blocks then (snode1, count + 1)
                  else contiguous_scan m num_blocks rest snode1 (Some cnode) (count + 1)
             else contiguous_scan m num_blocks rest None (Some p) count)"

text \<open>
  The nodes from \<open>snode\<close> on that the release loop unlinks. Walking past the last node
  would unlink the list head itself: the model stops there with \<open>CORRUPTED\<close>.
\<close>

definition unlink_run :: "nat list \<Rightarrow> nat \<Rightarrow> nat \<Rightarrow> (panic + nat list)" where
  "unlink_run ns snode count =
     (let before = takeWhile (\<lambda>n. n \<noteq> snode) ns; from = dropWhile (\<lambda>n. n \<noteq> snode) ns
      in if count \<le> length from then Inr (before @ drop count from) else Inl CORRUPTED)"

definition buddy_get_contiguous_block ::
  "nat \<Rightarrow> nat \<Rightarrow> sw_heap \<Rightarrow> panic + (nat option \<times> sw_heap)" where
  "buddy_get_contiguous_block num_blocks idx h =
     (if idx \<ge> BINS_MAX_ORDER then Inr (None, h)
      else if bins h idx = [] then Inr (None, h)
      else if counts h idx \<ge> num_blocks
      then case contiguous_scan (hk_fn h) num_blocks (bins h idx) None None 0 of
             (None, _) \<Rightarrow> Inr (None, h)
           | (Some snode, count) \<Rightarrow>
               (case get_free_hk_node h of
                  None \<Rightarrow> Inl DIE_NOW
                | Some cnode \<Rightarrow>
                    (case unlink_run (bins h idx) snode count of
                       Inl e \<Rightarrow> Inl e
                     | Inr ns \<Rightarrow>
                         Inr (Some cnode,
                           set_count idx (counts h idx - count)
                             (set_bin idx ns (set_hk_map cnode (hk_fn h snode) h)))))
      else Inr (None, h))"

section \<open>Giving blocks back\<close>

definition search_for_allocated_block :: "u32 \<Rightarrow> sw_heap \<Rightarrow> nat option" where
  "search_for_allocated_block addr h = find (\<lambda>i. a_map (hk_an h i) = addr) (current h)"

text \<open>
  \<open>add_free_area_to_bin\<close> stops at the first node with a larger address, or at the last
  node, and links the new node after the node it stopped at.
\<close>

fun bin_insert :: "(nat \<Rightarrow> u32) \<Rightarrow> nat \<Rightarrow> nat list \<Rightarrow> nat list" where
  "bin_insert m new [] = [new]"
| "bin_insert m new (carea # rest) =
     (if m carea > m new \<or> rest = [] then carea # new # rest
      else carea # bin_insert m new rest)"

definition add_free_area_to_bin :: "nat \<Rightarrow> nat \<Rightarrow> sw_heap \<Rightarrow> sw_heap" where
  "add_free_area_to_bin free_area bin h =
     set_count bin (counts h bin + 1)
       (set_bin bin (bin_insert (hk_fn h) free_area (bins h bin)) h)"

text \<open>
  One pass of \<open>coalesce_buddies\<close>: the first two neighbours on the list whose addresses
  are one block apart, with the list without them.
\<close>

fun find_buddies :: "(nat \<Rightarrow> u32) \<Rightarrow> u32 \<Rightarrow> nat list \<Rightarrow> (nat \<times> nat \<times> nat list) option" where
  "find_buddies m sz (lfa # cfa # rest) =
     (if m lfa \<noteq> 0 \<and> m lfa + sz = m cfa then Some (lfa, cfa, rest)
      else map_option (\<lambda>(l, c, ns). (l, c, lfa # ns)) (find_buddies m sz (cfa # rest)))"
| "find_buddies m sz _ = None"

lemma find_buddies_length:
  "find_buddies m sz ns = Some (l, c, ns') \<Longrightarrow> length ns = length ns' + 2"
  by (induction m sz ns arbitrary: ns' rule: find_buddies.induct) (auto split: if_splits)

function coalesce_buddies :: "nat \<Rightarrow> sw_heap \<Rightarrow> sw_heap" where
  "coalesce_buddies bin h =
     (if bin \<ge> BINS_MAX_ORDER - 1 then h
      else case find_buddies (hk_fn h) (of_nat (MIN_BLOCK_SIZE * 2 ^ bin)) (bins h bin) of
             Some (lfa, cfa, ns) \<Rightarrow>
               let h1 = set_bin bin ns h;
                   h2 = free_hk_node cfa h1;
                   h3 = add_free_area_to_bin lfa (bin + 1) h2;
                   h4 = set_count bin (counts h3 bin - 2) h3
               in coalesce_buddies bin h4
           | None \<Rightarrow> coalesce_buddies (bin + 1) h)"
  by pat_completeness auto
termination
  by (relation "measures [\<lambda>(bin, h). BINS_MAX_ORDER - bin, \<lambda>(bin, h). length (bins h bin)]")
    (auto dest!: find_buddies_length
      simp: set_bin_def free_hk_node_def add_free_area_to_bin_def set_count_def)

declare coalesce_buddies.simps [simp del]

definition return_to_pool :: "nat \<Rightarrow> sw_heap \<Rightarrow> int \<times> sw_heap" where
  "return_to_pool aarea h =
     (case get_free_hk_node h of
        Some free_area \<Rightarrow>
          let b = bin_num (hk_an h aarea);
              h1 = set_hk_map free_area (a_map (hk_an h aarea)) h;
              h2 = add_free_area_to_bin free_area b h1
          in (0, if counts h2 b > 1 then coalesce_buddies b h2 else h2)
      | None \<Rightarrow> (- 1, h))"

definition buddy_free :: "u32 \<Rightarrow> sw_heap \<Rightarrow> sw_heap" where
  "buddy_free addr h =
     (case search_for_allocated_block addr h of
        None \<Rightarrow> h
      | Some freed_node \<Rightarrow>
          let h1 = snd (return_to_pool freed_node h)
          in h1\<lparr>current := remove1 freed_node (current h1),
                hk_an := (hk_an h1)(freed_node := zero_area)\<rparr>)"

section \<open>\<open>sw_buddy_malloc\<close>\<close>

definition commit_alloc :: "nat \<Rightarrow> nat \<Rightarrow> u32 \<Rightarrow> nat \<Rightarrow> sw_heap \<Rightarrow> u32 \<times> sw_heap" where
  "commit_alloc farea aarea bsz b h =
     (hk_fn h farea,
      free_hk_node farea
        (h\<lparr>hk_an := (hk_an h)(aarea := \<lparr>a_map = hk_fn h farea, blk_sz = bsz, bin_num = b\<rparr>),
           current := current h @ [aarea], current_count := current_count h + 1\<rparr>))"

text \<open>
  The loop over the bins. \<open>curr_blk\<close> doubles while it is too small; once it is large
  enough each further round asks the next bin with the same \<open>curr_blk\<close>.
\<close>

function malloc_loop :: "nat \<Rightarrow> nat \<Rightarrow> u32 \<Rightarrow> sw_heap \<Rightarrow> u32 \<times> sw_heap" where
  "malloc_loop idx curr_blk sz h =
     (if idx \<le> BINS_MAX_ORDER
      then if unat sz > curr_blk then malloc_loop (idx + 1) (curr_blk * 2) sz h
           else (case buddy_get_block idx h of
                   (None, h1) \<Rightarrow> malloc_loop (idx + 1) curr_blk sz h1
                 | (Some farea, h1) \<Rightarrow>
                     (case get_free_ac_node h1 of
                        None \<Rightarrow> (0, h1)
                      | Some aarea \<Rightarrow> commit_alloc farea aarea (of_nat curr_blk) idx h1))
      else (0, h))"
  by pat_completeness auto
termination
  by (relation "measure (\<lambda>(idx, c, s, h). BINS_MAX_ORDER + 1 - idx)") auto

declare malloc_loop.simps [simp del]

definition sw_buddy_malloc :: "u32 \<Rightarrow> sw_heap \<Rightarrow> panic + (u32 \<times> sw_heap)" where
  "sw_buddy_malloc sz h =
     (if sz > heap_size h then Inr (0, h)
      else
        let small = (\<lambda>h'. Inr (malloc_loop 0 MIN_BLOCK_SIZE sz h'))
        in if unat sz > MAX_BLOCK_SIZE
           then let bneeded = (if unat sz mod MAX_BLOCK_SIZE \<noteq> 0
                               then unat sz div MAX_BLOCK_SIZE + 1
                               else unat sz div MAX_BLOCK_SIZE)
                in case buddy_get_contiguous_block bneeded (BINS_MAX_ORDER - 1) h of
                     Inl e \<Rightarrow> Inl e
                   | Inr (None, h1) \<Rightarrow> small h1
                   | Inr (Some farea, h1) \<Rightarrow>
                       (case get_free_ac_node h1 of
                          None \<Rightarrow> Inl DIE_NOW
                        | Some aarea \<Rightarrow>
                            Inr (commit_alloc farea aarea (of_nat (MAX_BLOCK_SIZE * bneeded))
                                   (BINS_MAX_ORDER - 1) h1))
           else small h)"

section \<open>The heaps and their owners\<close>

text \<open>The count of the blocks that a task holds is a 32-bit number in C; the wrap after 2^31 of them is left out.\<close>

record taskid_hindex =
  heap_id :: int
  num_blocks_alloc :: int

record buddy_state =
  buddy_heap :: "nat \<Rightarrow> sw_heap"
  h_index :: "nat \<Rightarrow> taskid_hindex"

definition find_heap :: "int \<Rightarrow> buddy_state \<Rightarrow> nat option" where
  "find_heap hid s = find (\<lambda>i. heap_id (h_index s i) = hid) [0..<NUM_OF_HEAPS]"

definition add_pending :: "int \<Rightarrow> nat \<Rightarrow> buddy_state \<Rightarrow> buddy_state" where
  "add_pending d i s = s\<lparr>h_index := (h_index s)
     (i := (h_index s i)\<lparr>num_blocks_alloc := num_blocks_alloc (h_index s i) + d\<rparr>)\<rparr>"

definition set_heap :: "nat \<Rightarrow> sw_heap \<Rightarrow> buddy_state \<Rightarrow> buddy_state" where
  "set_heap i h s = s\<lparr>buddy_heap := (buddy_heap s)(i := h)\<rparr>"

definition sw_malloc_private :: "int \<Rightarrow> u32 \<Rightarrow> buddy_state \<Rightarrow> panic + (u32 \<times> buddy_state)" where
  "sw_malloc_private hid sz s =
     (case find_heap hid s of
        None \<Rightarrow> Inr (0, s)
      | Some i \<Rightarrow>
          (case sw_buddy_malloc sz (buddy_heap s i) of
             Inl e \<Rightarrow> Inl e
           | Inr (addr, h) \<Rightarrow>
               Inr (addr, (if addr > 0 then add_pending 1 i else id) (set_heap i h s))))"

text \<open>\<open>sw_malloc\<close> and \<open>sw_free\<close> use the heap of the running task.\<close>

definition sw_malloc :: "int \<Rightarrow> u32 \<Rightarrow> buddy_state \<Rightarrow> panic + (u32 \<times> buddy_state)" where
  "sw_malloc current_task_id sz s = sw_malloc_private current_task_id sz s"

definition sw_free_private :: "int \<Rightarrow> u32 \<Rightarrow> buddy_state \<Rightarrow> buddy_state" where
  "sw_free_private hid addr s =
     (case find_heap hid s of
        None \<Rightarrow> s
      | Some i \<Rightarrow> add_pending (- 1) i (set_heap i (buddy_free addr (buddy_heap s i)) s))"

definition sw_free :: "int \<Rightarrow> u32 \<Rightarrow> buddy_state \<Rightarrow> buddy_state" where
  "sw_free current_task_id addr s = sw_free_private current_task_id addr s"

definition sw_heap_init :: "nat \<Rightarrow> u32 \<Rightarrow> u32 \<Rightarrow> buddy_state \<Rightarrow> (int \<times> buddy_state) option" where
  "sw_heap_init i start sz s =
     (let s1 = s\<lparr>h_index := (h_index s)(i := \<lparr>heap_id = - 1, num_blocks_alloc = 0\<rparr>)\<rparr>
      in map_option (\<lambda>(r, h). (r, set_heap i h s1)) (buddy_init start sz (buddy_heap s1 i)))"

definition alloc_private_heap :: "int \<Rightarrow> buddy_state \<Rightarrow> int \<times> buddy_state" where
  "alloc_private_heap hid s =
     (case find_heap hid s of
        Some i \<Rightarrow> (0, s)
      | None \<Rightarrow>
          (case find_heap (- 1) s of
             Some i \<Rightarrow> (0, s\<lparr>h_index := (h_index s)(i := (h_index s i)\<lparr>heap_id := hid\<rparr>)\<rparr>)
           | None \<Rightarrow> (- 1, s)))"

definition free_private_heap :: "int \<Rightarrow> buddy_state \<Rightarrow> int \<times> buddy_state" where
  "free_private_heap hid s =
     (case find_heap hid s of
        None \<Rightarrow> (- 1, s)
      | Some i \<Rightarrow>
          if num_blocks_alloc (h_index s i) \<noteq> 0 then (- 1, s)
          else (0, s\<lparr>h_index := (h_index s)(i := (h_index s i)\<lparr>heap_id := - 1\<rparr>)\<rparr>))"

text \<open>\<open>get_ptr_size\<close> returns \<open>-1\<close> as a \<open>u32\<close> where the task has no heap.\<close>

definition get_ptr_size :: "int \<Rightarrow> u32 \<Rightarrow> buddy_state \<Rightarrow> u32" where
  "get_ptr_size current_task_id addr s =
     (case find_heap current_task_id s of
        None \<Rightarrow> - 1
      | Some i \<Rightarrow>
          (case search_for_allocated_block addr (buddy_heap s i) of
             None \<Rightarrow> 0
           | Some n \<Rightarrow> blk_sz (hk_an (buddy_heap s i) n)))"

end
