(* ===== verification/SwBuddyInv.thy ===== *)
theory SwBuddyInv
  imports SwBuddy
begin

text \<open>
  What the buddy allocator of \<open>lib/sw_buddy.c\<close> guarantees (its model is \<open>SwBuddy\<close>).

  \<open>buddy_inv\<close> counts, for every byte, the free and allocated blocks that cover it: at most
  one, and none outside the heap. Every operation is described by how it changes these
  counts; \<open>sw_buddy_malloc\<close> up to one maximal block, \<open>buddy_free\<close> with its coalescing and
  \<open>buddy_init\<close> keep or establish it. The locale \<open>allocator\<close> is the contract the rest of the
  kernel relies on; it is interpreted on the model. The path for larger requests,
  \<open>buddy_get_contiguous_block\<close>, does not meet the contract (last section).
\<close>

section \<open>The invariant: no byte is in two blocks\<close>

named_theorems buddy_simps \<open>fields of an updated heap\<close>

lemma set_bin_sel [buddy_simps]:
  "bins (set_bin b ns h) = (bins h)(b := ns)" "hk_fn (set_bin b ns h) = hk_fn h"
  "hk_fn_count (set_bin b ns h) = hk_fn_count h" "hk_an (set_bin b ns h) = hk_an h"
  "hk_an_count (set_bin b ns h) = hk_an_count h" "current (set_bin b ns h) = current h"
  "counts (set_bin b ns h) = counts h" "mem_start (set_bin b ns h) = mem_start h"
  "mem_size (set_bin b ns h) = mem_size h" "heap_size (set_bin b ns h) = heap_size h"
  "heap_start (set_bin b ns h) = heap_start h"
  by (simp_all add: set_bin_def)

lemma set_count_sel [buddy_simps]:
  "counts (set_count b c h) = (counts h)(b := c)" "hk_fn (set_count b c h) = hk_fn h"
  "hk_fn_count (set_count b c h) = hk_fn_count h" "hk_an (set_count b c h) = hk_an h"
  "hk_an_count (set_count b c h) = hk_an_count h" "current (set_count b c h) = current h"
  "bins (set_count b c h) = bins h" "mem_start (set_count b c h) = mem_start h"
  "mem_size (set_count b c h) = mem_size h" "heap_size (set_count b c h) = heap_size h"
  "heap_start (set_count b c h) = heap_start h"
  by (simp_all add: set_count_def)

lemma set_hk_map_sel [buddy_simps]:
  "hk_fn (set_hk_map n a h) = (hk_fn h)(n := a)" "bins (set_hk_map n a h) = bins h"
  "hk_fn_count (set_hk_map n a h) = hk_fn_count h" "hk_an (set_hk_map n a h) = hk_an h"
  "hk_an_count (set_hk_map n a h) = hk_an_count h" "current (set_hk_map n a h) = current h"
  "counts (set_hk_map n a h) = counts h" "mem_start (set_hk_map n a h) = mem_start h"
  "mem_size (set_hk_map n a h) = mem_size h" "heap_size (set_hk_map n a h) = heap_size h"
  "heap_start (set_hk_map n a h) = heap_start h"
  by (simp_all add: set_hk_map_def)

lemma free_hk_node_eq [buddy_simps]: "free_hk_node n h = set_hk_map n 0 h"
  by (simp add: free_hk_node_def set_hk_map_def)

definition bin_size :: "nat \<Rightarrow> nat" where
  "bin_size b = MIN_BLOCK_SIZE * 2 ^ b"

text \<open>\<open>within a n x\<close>: 1 if the byte \<open>x\<close> is one of the \<open>n\<close> bytes from \<open>a\<close>, else 0.\<close>

definition within :: "nat \<Rightarrow> nat \<Rightarrow> nat \<Rightarrow> nat" where
  "within a n x = (if a \<le> x \<and> x < a + n then 1 else 0)"

definition bin_cover :: "(nat \<Rightarrow> u32) \<Rightarrow> nat \<Rightarrow> nat list \<Rightarrow> nat \<Rightarrow> nat" where
  "bin_cover m sz ns x = (\<Sum>n\<leftarrow>ns. within (unat (m n)) sz x)"

definition free_cover :: "sw_heap \<Rightarrow> nat \<Rightarrow> nat" where
  "free_cover h x = (\<Sum>b<BINS_MAX_ORDER. bin_cover (hk_fn h) (bin_size b) (bins h b) x)"

definition area_cover :: "sw_alloced_area \<Rightarrow> nat \<Rightarrow> nat" where
  "area_cover a x = within (unat (a_map a)) (bin_size (bin_num a)) x"

definition alloc_cover :: "sw_heap \<Rightarrow> nat \<Rightarrow> nat" where
  "alloc_cover h x = (\<Sum>a\<leftarrow>current h. area_cover (hk_an h a) x)"

definition region :: "sw_heap \<Rightarrow> nat \<Rightarrow> nat" where
  "region h x = within (unat (mem_start h)) (unat (mem_size h)) x"

definition nodes_ok :: "sw_heap \<Rightarrow> bool" where
  "nodes_ok h \<longleftrightarrow>
     (\<forall>b<BINS_MAX_ORDER. counts h b = length (bins h b) \<and>
        (\<forall>n\<in>set (bins h b). n < hk_fn_count h \<and> hk_fn h n \<noteq> 0)) \<and>
     (\<forall>a\<in>set (current h). a < hk_an_count h \<and> a_map (hk_an h a) \<noteq> 0 \<and>
        bin_num (hk_an h a) < BINS_MAX_ORDER \<and>
        unat (blk_sz (hk_an h a)) \<le> bin_size (bin_num (hk_an h a))) \<and>
     unat (mem_start h) + unat (mem_size h) \<le> 2 ^ 32"

text \<open>\<open>ex\<close> is the memory of a block that is on no list while an operation holds it.\<close>

definition buddy_inv_with :: "sw_heap \<Rightarrow> (nat \<Rightarrow> nat) \<Rightarrow> bool" where
  "buddy_inv_with h ex \<longleftrightarrow>
     nodes_ok h \<and> (\<forall>x. free_cover h x + alloc_cover h x + ex x \<le> region h x)"

definition buddy_inv :: "sw_heap \<Rightarrow> bool" where
  "buddy_inv h \<longleftrightarrow> buddy_inv_with h (\<lambda>_. 0)"

lemma bin_size_pos: "0 < bin_size b"
  by (simp add: bin_size_def MIN_BLOCK_SIZE_def)

lemma bin_size_Suc: "bin_size (Suc b) = 2 * bin_size b"
  by (simp add: bin_size_def)

lemma bin_size_bound: "b < BINS_MAX_ORDER \<Longrightarrow> bin_size b \<le> 4096"
proof -
  assume "b < BINS_MAX_ORDER"
  then have "(2::nat) ^ b \<le> 2 ^ 10" by (intro power_increasing) (simp_all add: BINS_MAX_ORDER_def)
  then show ?thesis by (simp add: bin_size_def MIN_BLOCK_SIZE_def)
qed

lemma unat_bin_size: "b < BINS_MAX_ORDER \<Longrightarrow> unat (of_nat (bin_size b) :: u32) = bin_size b"
  using bin_size_bound [of b] by (simp add: unsigned_of_nat take_bit_nat_eq_self)

lemma within_split: "within a (2 * s) x = within a s x + within (a + s) s x"
  by (auto simp: within_def)

lemma bin_cover_simps [simp]:
  "bin_cover m sz [] x = 0"
  "bin_cover m sz (n # ns) x = within (unat (m n)) sz x + bin_cover m sz ns x"
  "bin_cover m sz (ns @ ks) x = bin_cover m sz ns x + bin_cover m sz ks x"
  by (simp_all add: bin_cover_def)

lemma bin_cover_insert:
  "bin_cover m sz (bin_insert k new ns) x = within (unat (m new)) sz x + bin_cover m sz ns x"
  by (induction k new ns rule: bin_insert.induct) auto

lemma set_bin_insert: "set (bin_insert k new ns) = insert new (set ns)"
  by (induction k new ns rule: bin_insert.induct) auto

lemma length_bin_insert: "length (bin_insert k new ns) = Suc (length ns)"
  by (induction k new ns rule: bin_insert.induct) auto

lemma bin_cover_upd: "n \<notin> set ns \<Longrightarrow> bin_cover (m(n := a)) sz ns x = bin_cover m sz ns x"
  by (induction ns) auto

lemma free_cover_set_bin:
  assumes "b < BINS_MAX_ORDER"
  shows "free_cover (set_bin b ns h) x + bin_cover (hk_fn h) (bin_size b) (bins h b) x =
         free_cover h x + bin_cover (hk_fn h) (bin_size b) ns x"
proof -
  let ?f = "\<lambda>h c. bin_cover (hk_fn h) (bin_size c) (bins h c) x"
  have b: "b \<in> {..<BINS_MAX_ORDER}" using assms by simp
  have "(\<Sum>c\<in>{..<BINS_MAX_ORDER} - {b}. ?f (set_bin b ns h) c)
      = (\<Sum>c\<in>{..<BINS_MAX_ORDER} - {b}. ?f h c)"
    by (rule sum.cong) (auto simp: buddy_simps)
  then show ?thesis
    unfolding free_cover_def sum.remove [OF finite_lessThan b] by (simp add: buddy_simps)
qed

lemma free_cover_set_hk_map:
  "\<forall>b<BINS_MAX_ORDER. n \<notin> set (bins h b) \<Longrightarrow> free_cover (set_hk_map n a h) x = free_cover h x"
  by (simp add: free_cover_def buddy_simps bin_cover_upd)

lemma free_cover_set_count [simp]: "free_cover (set_count b c h) = free_cover h"
  by (simp add: free_cover_def fun_eq_iff buddy_simps)

lemma alloc_cover_frame [simp]:
  "alloc_cover (set_count b c h) = alloc_cover h" "alloc_cover (set_bin b ns h) = alloc_cover h"
  "alloc_cover (set_hk_map n a h) = alloc_cover h"
  by (simp_all add: alloc_cover_def fun_eq_iff buddy_simps)

lemma region_frame [simp]:
  "region (set_count b c h) = region h" "region (set_bin b ns h) = region h"
  "region (set_hk_map n a h) = region h"
  by (simp_all add: region_def fun_eq_iff buddy_simps)

section \<open>Taking a block keeps the invariant\<close>

lemma get_free_hk_node_Some:
  "get_free_hk_node h = Some n \<Longrightarrow> n < hk_fn_count h \<and> hk_fn h n = 0"
  by (auto simp: get_free_hk_node_def find_Some_iff)

lemma get_free_ac_node_Some:
  "get_free_ac_node h = Some n \<Longrightarrow> n < hk_an_count h \<and> a_map (hk_an h n) = 0"
  by (auto simp: get_free_ac_node_def find_Some_iff)

lemma nodes_okD:
  assumes "nodes_ok h"
  shows "b < BINS_MAX_ORDER \<Longrightarrow> n \<in> set (bins h b) \<Longrightarrow> hk_fn h n \<noteq> 0"
    and "b < BINS_MAX_ORDER \<Longrightarrow> n \<in> set (bins h b) \<Longrightarrow> n < hk_fn_count h"
    and "b < BINS_MAX_ORDER \<Longrightarrow> counts h b = length (bins h b)"
    and "a \<in> set (current h) \<Longrightarrow> a_map (hk_an h a) \<noteq> 0"
    and "unat (mem_start h) + unat (mem_size h) \<le> 2 ^ 32"
  using assms by (auto simp: nodes_ok_def)

lemma free_node_on_no_bin:
  "nodes_ok h \<Longrightarrow> hk_fn h n = 0 \<Longrightarrow> \<forall>b<BINS_MAX_ORDER. n \<notin> set (bins h b)"
  using nodes_okD(1) by blast

text \<open>A block that the invariant accounts for lies inside the heap, so its end does not wrap.\<close>

lemma block_in_region:
  assumes inv: "buddy_inv_with h ex" and b: "b < BINS_MAX_ORDER"
    and le: "\<And>x. within (unat a) (bin_size b) x \<le> free_cover h x + alloc_cover h x + ex x"
  shows "unat (mem_start h) \<le> unat a" "unat a + bin_size b \<le> unat (mem_start h) + unat (mem_size h)"
proof -
  have reg: "within (unat a) (bin_size b) x \<le> region h x" for x
    using inv le [of x] unfolding buddy_inv_with_def by (meson le_trans)
  from reg [of "unat a"] reg [of "unat a + bin_size b - 1"] bin_size_pos [of b]
  show "unat (mem_start h) \<le> unat a" "unat a + bin_size b \<le> unat (mem_start h) + unat (mem_size h)"
    by (auto simp: region_def within_def split: if_splits)
qed

lemma upper_half:
  fixes a :: u32
  assumes inv: "buddy_inv_with h ex" and b: "Suc b < BINS_MAX_ORDER" and nz: "a \<noteq> 0"
    and le: "\<And>x. within (unat a) (bin_size (Suc b)) x \<le> free_cover h x + alloc_cover h x + ex x"
  shows "unat (a + of_nat (bin_size b)) = unat a + bin_size b" "a + of_nat (bin_size b) \<noteq> 0"
proof -
  have "unat a + bin_size (Suc b) \<le> 2 ^ 32"
    using block_in_region [OF inv b le] nodes_okD(5) [of h] inv
    by (auto simp: buddy_inv_with_def)
  then have "unat a + bin_size b < 2 ^ 32"
    using bin_size_pos [of b] by (simp add: bin_size_Suc)
  then show u: "unat (a + of_nat (bin_size b)) = unat a + bin_size b"
    using b by (subst unat_plus_lt) (simp_all add: unat_bin_size)
  have "unat (a + of_nat (bin_size b)) \<noteq> 0" using u bin_size_pos [of b] by simp
  then show "a + of_nat (bin_size b) \<noteq> 0" by (metis unat_0)
qed

definition same_allocs :: "sw_heap \<Rightarrow> sw_heap \<Rightarrow> bool" where
  "same_allocs h h' \<longleftrightarrow>
     hk_an h' = hk_an h \<and> hk_an_count h' = hk_an_count h \<and> current h' = current h \<and>
     hk_fn_count h' = hk_fn_count h \<and> mem_start h' = mem_start h \<and> mem_size h' = mem_size h"

lemma same_allocs_refl: "same_allocs h h"
  by (simp add: same_allocs_def)

lemma same_allocs_trans: "same_allocs h h1 \<Longrightarrow> same_allocs h1 h2 \<Longrightarrow> same_allocs h h2"
  by (simp add: same_allocs_def)

lemma same_allocs_set [simp]:
  "same_allocs h (set_count b c h1) = same_allocs h h1" "same_allocs h (set_bin b ns h1) = same_allocs h h1"
  "same_allocs h (set_hk_map n a h1) = same_allocs h h1"
  by (simp_all add: same_allocs_def buddy_simps)

lemma bin_cover_member:
  "n \<in> set ns \<Longrightarrow> within (unat (m n)) sz x \<le> bin_cover m sz ns x"
  by (induction ns) auto

lemma free_cover_member:
  assumes "b < BINS_MAX_ORDER" "n \<in> set (bins h b)"
  shows "within (unat (hk_fn h n)) (bin_size b) x \<le> free_cover h x"
proof -
  have "within (unat (hk_fn h n)) (bin_size b) x \<le> bin_cover (hk_fn h) (bin_size b) (bins h b) x"
    using assms(2) by (rule bin_cover_member)
  also have "\<dots> \<le> free_cover h x"
    unfolding free_cover_def using assms(1) by (intro member_le_sum) simp_all
  finally show ?thesis .
qed

lemma detached_off_bins:
  assumes "buddy_inv_with h (\<lambda>x. ex x + within (unat (hk_fn h n)) (bin_size idx) x)"
  shows "\<forall>b<BINS_MAX_ORDER. n \<notin> set (bins h b)"
proof (intro allI impI notI)
  fix b assume b: "b < BINS_MAX_ORDER" "n \<in> set (bins h b)"
  let ?x = "unat (hk_fn h n)"
  have "1 \<le> free_cover h ?x"
    using free_cover_member [OF b, of ?x] bin_size_pos [of b] by (simp add: within_def)
  moreover have "within ?x (bin_size idx) ?x = 1"
    using bin_size_pos [of idx] by (simp add: within_def)
  moreover have "region h ?x \<le> 1" by (simp add: region_def within_def)
  ultimately show False using assms by (fastforce simp: buddy_inv_with_def dest: spec [of _ ?x])
qed

lemma buddy_inv_with_cong: "buddy_inv_with h ex \<Longrightarrow> ex = ex' \<Longrightarrow> buddy_inv_with h ex'"
  by simp

lemma buddy_inv_with_step:
  assumes "buddy_inv_with h ex" "nodes_ok h'" "region h' = region h"
    and "\<And>x. free_cover h' x + alloc_cover h' x + ex' x \<le> free_cover h x + alloc_cover h x + ex x"
  shows "buddy_inv_with h' ex'"
  using assms unfolding buddy_inv_with_def by (metis order_trans)

lemma buddy_inv_with_drop: "buddy_inv_with h (\<lambda>x. ex x + f x) \<Longrightarrow> buddy_inv_with h ex"
  unfolding buddy_inv_with_def by (auto intro: order_trans [rotated])

lemma pop_block:
  assumes inv: "buddy_inv_with h ex" and b: "b < BINS_MAX_ORDER" and ne: "bins h b \<noteq> []"
    and h': "h' = set_count b (counts h b - 1) (set_bin b (butlast (bins h b)) h)"
    and n: "n = last (bins h b)"
  shows "n < hk_fn_count h' \<and> hk_fn h' n \<noteq> 0 \<and>
    buddy_inv_with h' (\<lambda>x. ex x + within (unat (hk_fn h' n)) (bin_size b) x)"
proof -
  have mem: "n \<in> set (bins h b)" using ne n by simp
  have ok: "nodes_ok h" using inv by (simp add: buddy_inv_with_def)
  have nok: "nodes_ok h'"
    using ok ne unfolding h' by (auto simp: nodes_ok_def buddy_simps dest: in_set_butlastD)
  have fc: "free_cover h' x + within (unat (hk_fn h n)) (bin_size b) x = free_cover h x" for x
  proof -
    have "bin_cover (hk_fn h) (bin_size b) (butlast (bins h b) @ [n]) x =
        bin_cover (hk_fn h) (bin_size b) (bins h b) x"
      using ne n by simp
    then show ?thesis
      using free_cover_set_bin [OF b, of "butlast (bins h b)" h x] by (simp add: h')
  qed
  have "buddy_inv_with h' (\<lambda>x. ex x + within (unat (hk_fn h n)) (bin_size b) x)"
    by (rule buddy_inv_with_step [OF inv nok]) (simp_all add: h' fc [unfolded h', symmetric])
  then show ?thesis using nodes_okD(1,2) [OF ok b mem] by (simp add: h' buddy_simps)
qed

lemma split_block:
  assumes inv: "buddy_inv_with h (\<lambda>x. ex x + within (unat (hk_fn h f)) (bin_size (Suc b)) x)"
    and b: "Suc b < BINS_MAX_ORDER" and f: "f < hk_fn_count h" "hk_fn h f \<noteq> 0"
    and r: "get_free_hk_node h = Some r"
    and h3: "h3 = set_count b (counts h b + 1) (set_bin b (bins h b @ [f]) h)"
    and h': "h' = set_hk_map r (hk_fn h3 f + of_nat (bin_size b)) h3"
  shows "r < hk_fn_count h' \<and> hk_fn h' r \<noteq> 0 \<and>
    buddy_inv_with h' (\<lambda>x. ex x + within (unat (hk_fn h' r)) (bin_size b) x)"
proof -
  have ok: "nodes_ok h" using inv by (simp add: buddy_inv_with_def)
  have r0: "r < hk_fn_count h" "hk_fn h r = 0" using get_free_hk_node_Some [OF r] by auto
  have rf: "r \<noteq> f" using r0 f by auto
  have off: "\<forall>c<BINS_MAX_ORDER. r \<notin> set (bins h c)"
    using ok r0(2) by (rule free_node_on_no_bin)
  have up: "unat (hk_fn h f + of_nat (bin_size b)) = unat (hk_fn h f) + bin_size b"
      "hk_fn h f + of_nat (bin_size b) \<noteq> 0"
    using upper_half [OF inv b f(2)] by auto
  have nok: "nodes_ok h'"
    using ok f off rf unfolding h' h3 by (auto simp: nodes_ok_def buddy_simps)
  have fc: "free_cover h' x = free_cover h x + within (unat (hk_fn h f)) (bin_size b) x" for x
  proof -
    have "free_cover h' x = free_cover h3 x"
      unfolding h' by (rule free_cover_set_hk_map) (use off rf in \<open>auto simp: h3 buddy_simps\<close>)
    then show ?thesis
      using free_cover_set_bin [of b "bins h b @ [f]" h x] b by (simp add: h3)
  qed
  have m: "hk_fn h' r = hk_fn h f + of_nat (bin_size b)"
    by (simp add: h' h3 buddy_simps)
  have "buddy_inv_with h' (\<lambda>x. ex x + within (unat (hk_fn h' r)) (bin_size b) x)"
    by (rule buddy_inv_with_step [OF inv nok])
      (simp_all only: fc m up bin_size_Suc within_split, simp_all add: h' h3)
  then show ?thesis using r0(1) m up(2) by (simp add: h' h3 buddy_simps)
qed

lemma buddy_get_block_spec:
  assumes "buddy_inv_with h ex" "buddy_get_block idx h = (r, h')"
  shows "same_allocs h h' \<and>
    (case r of None \<Rightarrow> buddy_inv_with h' ex
     | Some n \<Rightarrow> idx < BINS_MAX_ORDER \<and> n < hk_fn_count h' \<and> hk_fn h' n \<noteq> 0 \<and>
         buddy_inv_with h' (\<lambda>x. ex x + within (unat (hk_fn h' n)) (bin_size idx) x))"
  using assms
proof (induction "BINS_MAX_ORDER - idx" arbitrary: idx r h')
  case 0
  then show ?case by (simp add: buddy_get_block.simps same_allocs_refl)
next
  case (Suc k)
  then have b: "idx < BINS_MAX_ORDER" by simp
  show ?case
  proof (cases "bins h idx = []")
    case False
    then have "r = Some (last (bins h idx))"
        "h' = set_count idx (counts h idx - 1) (set_bin idx (butlast (bins h idx)) h)"
      using Suc.prems(2) b by (simp_all add: buddy_get_block.simps [of idx])
    then show ?thesis
      using pop_block [OF Suc.prems(1) b False] b by (simp add: same_allocs_refl)
  next
    case empty: True
    obtain q h1 where q: "buddy_get_block (Suc idx) h = (q, h1)" by fastforce
    have IH: "same_allocs h h1 \<and> (case q of None \<Rightarrow> buddy_inv_with h1 ex
        | Some f \<Rightarrow> Suc idx < BINS_MAX_ORDER \<and> f < hk_fn_count h1 \<and> hk_fn h1 f \<noteq> 0 \<and>
            buddy_inv_with h1 (\<lambda>x. ex x + within (unat (hk_fn h1 f)) (bin_size (Suc idx)) x))"
      using Suc.hyps(2) by (intro Suc.hyps(1) [OF _ Suc.prems(1) q]) simp
    show ?thesis
    proof (cases q)
      case None
      with Suc.prems(2) q b empty IH show ?thesis by (simp add: buddy_get_block.simps [of idx])
    next
      case (Some f)
      note f = IH [unfolded Some, simplified]
      show ?thesis
      proof (cases "get_free_hk_node h1")
        case None
        then have "r = None" "h' = h1"
          using Suc.prems(2) q b empty Some by (simp_all add: buddy_get_block.simps [of idx])
        moreover have "buddy_inv_with h1 ex"
          using f by (auto intro: buddy_inv_with_drop)
        ultimately show ?thesis using f by simp
      next
        case r: (Some r')
        let ?h3 = "set_count idx (counts h1 idx + 1) (set_bin idx (bins h1 idx @ [f]) h1)"
        have "r = Some r'" "h' = set_hk_map r' (hk_fn ?h3 f + of_nat (bin_size idx)) ?h3"
          using Suc.prems(2) q b empty Some r
          by (simp_all add: buddy_get_block.simps [of idx] Let_def bin_size_def buddy_simps)
        then show ?thesis
          using f b split_block [of h1 ex f idx r' ?h3] r by simp
      qed
    qed
  qed
qed

section \<open>\<open>sw_buddy_malloc\<close> hands out fresh memory\<close>

lemma alloc_cover_off:
  "a \<notin> set (current h) \<Longrightarrow>
   alloc_cover (h\<lparr>hk_an := (hk_an h)(a := v), current := current h @ [a], current_count := c\<rparr>) x =
   alloc_cover h x + area_cover v x"
  unfolding alloc_cover_def by (auto cong: map_cong intro!: arg_cong [where f = sum_list])

lemma free_cover_frame [simp]:
  "free_cover (h\<lparr>hk_an := an, current := cs, current_count := c\<rparr>) x = free_cover h x"
  by (simp add: free_cover_def)

lemma region_frame2 [simp]:
  "region (h\<lparr>hk_an := an, current := cs, current_count := c\<rparr>) = region h"
  by (simp add: region_def fun_eq_iff)

text \<open>What an allocation promises; \<open>r = 0\<close> is a failed one.\<close>

definition fresh_area :: "sw_heap \<Rightarrow> sw_heap \<Rightarrow> u32 \<Rightarrow> nat \<Rightarrow> bool" where
  "fresh_area h h' r n \<longleftrightarrow>
     (\<exists>a b. current h' = current h @ [a] \<and> a \<notin> set (current h) \<and>
        (\<forall>c. c \<noteq> a \<longrightarrow> hk_an h' c = hk_an h c) \<and>
        a_map (hk_an h' a) = r \<and> bin_num (hk_an h' a) = b \<and>
        n \<le> unat (blk_sz (hk_an h' a)) \<and> unat (blk_sz (hk_an h' a)) \<le> bin_size b)"

definition same_mem :: "sw_heap \<Rightarrow> sw_heap \<Rightarrow> bool" where
  "same_mem h h' \<longleftrightarrow> mem_start h' = mem_start h \<and> mem_size h' = mem_size h"

definition malloc_post :: "sw_heap \<Rightarrow> sw_heap \<Rightarrow> u32 \<Rightarrow> nat \<Rightarrow> bool" where
  "malloc_post h h' r n \<longleftrightarrow> same_mem h h' \<and>
     (if r = 0 then current h' = current h \<and> hk_an h' = hk_an h else fresh_area h h' r n)"

lemma malloc_post_same:
  "same_allocs h h1 \<Longrightarrow> malloc_post h1 h' r n = malloc_post h h' r n"
  by (simp add: same_allocs_def fresh_area_def malloc_post_def same_mem_def)

lemma malloc_post_0: "same_allocs h h' \<Longrightarrow> malloc_post h h' 0 n"
  by (simp add: same_allocs_def malloc_post_def same_mem_def)

lemma commit_alloc_spec:
  assumes inv: "buddy_inv_with h (\<lambda>x. within (unat (hk_fn h n)) (bin_size b) x)"
    and b: "b < BINS_MAX_ORDER" and n: "n < hk_fn_count h" "hk_fn h n \<noteq> 0"
    and a: "get_free_ac_node h = Some a"
    and c: "c \<le> bin_size b" "m \<le> c"
    and h': "commit_alloc n a (of_nat c) b h = (r, h')"
  shows "buddy_inv h' \<and> r \<noteq> 0 \<and> malloc_post h h' r m"
proof -
  have ok: "nodes_ok h" using inv by (simp add: buddy_inv_with_def)
  have a0: "a < hk_an_count h" "a_map (hk_an h a) = 0" using get_free_ac_node_Some [OF a] by auto
  then have off: "a \<notin> set (current h)" using nodes_okD(4) [OF ok] by blast
  have offb: "\<forall>b<BINS_MAX_ORDER. n \<notin> set (bins h b)"
    by (rule detached_off_bins [of h "\<lambda>_. 0"]) (use inv in simp)
  have uc: "unat (of_nat c :: u32) = c"
    using bin_size_bound [OF b] c by (simp add: unsigned_of_nat take_bit_nat_eq_self)
  define v where "v = \<lparr>a_map = hk_fn h n, blk_sz = of_nat c, bin_num = b\<rparr>"
  define h1 where "h1 = h\<lparr>hk_an := (hk_an h)(a := v), current := current h @ [a],
    current_count := current_count h + 1\<rparr>"
  have r: "r = hk_fn h n" and h'1: "h' = set_hk_map n 0 h1"
    using h' by (auto simp: commit_alloc_def v_def h1_def buddy_simps)
  have nok: "nodes_ok h'"
    using ok off offb a0 n b uc c unfolding h'1 h1_def
    by (auto simp: nodes_ok_def buddy_simps v_def)
  have "buddy_inv_with h' (\<lambda>_. 0)"
  proof (rule buddy_inv_with_step [OF inv nok])
    show "region h' = region h" by (simp add: h'1 h1_def)
    fix x
    have "free_cover h' x = free_cover h1 x"
      unfolding h'1 by (rule free_cover_set_hk_map) (use offb in \<open>simp add: h1_def\<close>)
    then show "free_cover h' x + alloc_cover h' x + 0
        \<le> free_cover h x + alloc_cover h x + within (unat (hk_fn h n)) (bin_size b) x"
      by (simp add: h'1 h1_def alloc_cover_off [OF off] area_cover_def v_def)
  qed
  moreover have "fresh_area h h' r m"
    unfolding fresh_area_def r
    by (rule exI [of _ a], rule exI [of _ b])
      (use off c uc in \<open>simp add: h'1 h1_def v_def buddy_simps\<close>)
  moreover have "same_mem h h'" by (simp add: same_mem_def h'1 h1_def buddy_simps)
  ultimately show ?thesis using n r by (simp add: buddy_inv_def malloc_post_def)
qed

lemma malloc_loop_spec:
  assumes "buddy_inv h" "curr_blk \<le> bin_size idx" "malloc_loop idx curr_blk sz h = (r, h')"
  shows "buddy_inv h' \<and> malloc_post h h' r (unat sz)"
  using assms
proof (induction idx curr_blk sz h arbitrary: r h' rule: malloc_loop.induct)
  case (1 idx curr_blk sz h)
  show ?case
  proof (cases "BINS_MAX_ORDER < idx")
    case True
    then show ?thesis
      using 1(3,5) by (auto simp: malloc_loop.simps [of idx] malloc_post_0 same_allocs_refl)
  next
    case le: False
    have dbl: "curr_blk * 2 \<le> bin_size (Suc idx)" "curr_blk \<le> bin_size (Suc idx)"
      using 1(4) by (simp_all add: bin_size_Suc)
    show ?thesis
    proof (cases "curr_blk < unat sz")
      case True
      then show ?thesis
        using 1(1) [OF _ True 1(3)] 1(5) dbl(1) le by (simp add: malloc_loop.simps [of idx])
    next
      case big: False
      obtain q h1 where q: "buddy_get_block idx h = (q, h1)" by fastforce
      note sp = buddy_get_block_spec [OF 1(3) [unfolded buddy_inv_def] q]
      show ?thesis
      proof (cases q)
        case None
        have eq: "malloc_loop idx curr_blk sz h = malloc_loop (idx + 1) curr_blk sz h1"
          using le big q None by (simp add: malloc_loop.simps [of idx])
        have IH: "buddy_inv h' \<and> malloc_post h1 h' r (unat sz)"
          using 1(2) [of None h1] le big q None sp dbl(2) 1(5) eq by (simp add: buddy_inv_def)
        then show ?thesis using sp None malloc_post_same [of h h1] by simp
      next
        case (Some f)
        note f = sp [unfolded Some, simplified]
        show ?thesis
        proof (cases "get_free_ac_node h1")
          case None
          then have "r = 0" "h' = h1"
            using 1(5) le big q Some by (simp_all add: malloc_loop.simps [of idx])
          then show ?thesis
            using f buddy_inv_with_drop [of h1 "\<lambda>_. 0" "within (unat (hk_fn h1 f)) (bin_size idx)"]
            by (simp add: buddy_inv_def malloc_post_0)
        next
          case a: (Some a)
          have "commit_alloc f a (of_nat curr_blk) idx h1 = (r, h')"
            using 1(5) le big q Some a by (simp add: malloc_loop.simps [of idx])
          then have "buddy_inv h' \<and> r \<noteq> 0 \<and> malloc_post h1 h' r (unat sz)"
            using f a big 1(4) by (intro commit_alloc_spec [of h1 f idx a curr_blk]) simp_all
          then show ?thesis using f malloc_post_same [of h h1] by simp
        qed
      qed
    qed
  qed
qed

text \<open>Requests up to one maximal block never take the contiguous path.\<close>

lemma sw_buddy_malloc_spec:
  assumes inv: "buddy_inv h" and sz: "unat sz \<le> MAX_BLOCK_SIZE"
    and m: "sw_buddy_malloc sz h = Inr (r, h')"
  shows "buddy_inv h' \<and> malloc_post h h' r (unat sz)"
proof (cases "heap_size h < sz")
  case True
  then show ?thesis
    using inv m by (auto simp: sw_buddy_malloc_def malloc_post_0 same_allocs_refl)
next
  case False
  then have "malloc_loop 0 MIN_BLOCK_SIZE sz h = (r, h')"
    using m sz by (auto simp: sw_buddy_malloc_def Let_def)
  then show ?thesis
    by (intro malloc_loop_spec [OF inv _]) (simp_all add: bin_size_def)
qed

section \<open>Giving a block back keeps the invariant\<close>

text \<open>
  The free lists on their own: coalescing reads and writes nothing else, and it leaves
  the set of free bytes as it is.
\<close>

definition pool_ok :: "sw_heap \<Rightarrow> bool" where
  "pool_ok h \<longleftrightarrow>
     (\<forall>b<BINS_MAX_ORDER. counts h b = length (bins h b) \<and>
        (\<forall>n\<in>set (bins h b). n < hk_fn_count h \<and> hk_fn h n \<noteq> 0)) \<and>
     unat (mem_start h) + unat (mem_size h) \<le> 2 ^ 32 \<and>
     (\<forall>x. free_cover h x \<le> region h x)"

lemma find_buddies_Some:
  "find_buddies m sz ns = Some (l, c, ns') \<Longrightarrow>
   m l + sz = m c \<and> (\<exists>xs ys. ns = xs @ l # c # ys \<and> ns' = xs @ ys)"
proof (induction m sz ns arbitrary: ns' rule: find_buddies.induct)
  case (1 m sz lfa cfa rest)
  show ?case
  proof (cases "m lfa \<noteq> 0 \<and> m lfa + sz = m cfa")
    case True
    then show ?thesis using 1(2) by (auto intro: exI [of _ "[]"])
  next
    case False
    then obtain ns2 where n: "find_buddies m sz (cfa # rest) = Some (l, c, ns2)" "ns' = lfa # ns2"
      using 1(2) by auto
    from 1(1) [OF False n(1)] n(2) show ?thesis by (metis append_Cons)
  qed
qed simp_all

lemma pool_block_end:
  assumes "pool_ok h" "b < BINS_MAX_ORDER" "n \<in> set (bins h b)"
  shows "unat (hk_fn h n) + bin_size b \<le> 2 ^ 32"
proof -
  let ?x = "unat (hk_fn h n) + bin_size b - 1"
  have "1 \<le> free_cover h ?x"
    using free_cover_member [OF assms(2,3), of ?x] bin_size_pos [of b]
    by (auto simp: within_def split: if_splits)
  then have "1 \<le> region h ?x" using assms(1) by (auto simp: pool_ok_def intro: order_trans)
  then have "?x < unat (mem_start h) + unat (mem_size h)"
    by (simp add: region_def within_def split: if_splits)
  then have "unat (hk_fn h n) + bin_size b \<le> unat (mem_start h) + unat (mem_size h)" by simp
  then show ?thesis using assms(1) by (simp add: pool_ok_def)
qed

lemma covered_once_off_bins:
  assumes "\<And>x. free_cover h x + within (unat (hk_fn h n)) (bin_size idx) x \<le> region h0 x"
  shows "\<forall>b<BINS_MAX_ORDER. n \<notin> set (bins h b)"
proof (intro allI impI notI)
  fix b assume b: "b < BINS_MAX_ORDER" "n \<in> set (bins h b)"
  let ?x = "unat (hk_fn h n)"
  have "1 \<le> free_cover h ?x"
    using free_cover_member [OF b, of ?x] bin_size_pos [of b] by (simp add: within_def)
  moreover have "within ?x (bin_size idx) ?x = 1"
    using bin_size_pos [of idx] by (simp add: within_def)
  moreover have "region h0 ?x \<le> 1" by (simp add: region_def within_def)
  ultimately show False using assms [of ?x] by simp
qed

lemma add_free_area_cover:
  assumes "b < BINS_MAX_ORDER"
  shows "free_cover (add_free_area_to_bin n b h) x =
    free_cover h x + within (unat (hk_fn h n)) (bin_size b) x"
  using free_cover_set_bin [OF assms, of "bin_insert (hk_fn h) n (bins h b)" h x]
  by (simp add: add_free_area_to_bin_def bin_cover_insert)

lemma merge_step:
  assumes ok: "pool_ok h" and b: "Suc b < BINS_MAX_ORDER"
    and fb: "find_buddies (hk_fn h) (of_nat (bin_size b)) (bins h b) = Some (l, c, ns)"
    and h3: "h3 = add_free_area_to_bin l (Suc b) (free_hk_node c (set_bin b ns h))"
    and h': "h' = set_count b (counts h3 b - 2) h3"
  shows "pool_ok h' \<and> same_allocs h h' \<and> free_cover h' = free_cover h"
proof -
  have b': "b < BINS_MAX_ORDER" using b by simp
  obtain xs ys where adj: "hk_fn h l + of_nat (bin_size b) = hk_fn h c"
      and split: "bins h b = xs @ l # c # ys" "ns = xs @ ys"
    using find_buddies_Some [OF fb] by blast
  let ?h1 = "set_bin b ns h"
  have nz: "hk_fn h l \<noteq> 0" "hk_fn h c \<noteq> 0" "l < hk_fn_count h"
    using ok b' split(1) by (auto simp: pool_ok_def)
  have "unat (hk_fn h l) + bin_size b \<noteq> 2 ^ 32"
  proof
    assume "unat (hk_fn h l) + bin_size b = 2 ^ 32"
    then have "unat (hk_fn h l + of_nat (bin_size b)) = 0"
      unfolding unat_word_ariths(1) unat_bin_size [OF b'] by simp
    then show False using adj nz(2) by (simp add: unat_eq_0)
  qed
  then have "unat (hk_fn h l) + bin_size b < 2 ^ 32"
    using pool_block_end [OF ok b', of l] split(1) by simp
  then have up: "unat (hk_fn h c) = unat (hk_fn h l) + bin_size b"
    unfolding adj [symmetric] using b' by (subst unat_plus_lt) (simp_all add: unat_bin_size)
  then have lc: "l \<noteq> c" using bin_size_pos [of b] by auto
  have c1: "free_cover ?h1 x + within (unat (hk_fn h l)) (bin_size (Suc b)) x = free_cover h x" for x
    using free_cover_set_bin [OF b', of ns h x] by (simp add: split up bin_size_Suc within_split)
  have "free_cover ?h1 x + within (unat (hk_fn h c)) (bin_size b) x \<le> region h x" for x
    using c1 [of x] ok unfolding pool_ok_def
    by (auto simp: bin_size_Suc within_split up intro: order_trans [rotated])
  then have off: "\<forall>d<BINS_MAX_ORDER. c \<notin> set (bins ?h1 d)"
    by (intro covered_once_off_bins [of ?h1 c b h]) (simp add: buddy_simps)
  then have offs: "c \<notin> set ns" "\<And>d. d < BINS_MAX_ORDER \<Longrightarrow> d \<noteq> b \<Longrightarrow> c \<notin> set (bins h d)"
    using b' by (auto simp: buddy_simps)
  have fc: "free_cover h' x = free_cover h x" for x
    using free_cover_set_hk_map [OF off, of 0 x] c1 [of x] lc
    by (simp add: h' h3 add_free_area_cover [OF b] buddy_simps)
  have sa: "same_allocs h h'"
    by (simp add: h' h3 add_free_area_to_bin_def buddy_simps same_allocs_refl)
  moreover have "pool_ok h'"
  proof -
    have "counts h' d = length (bins h' d) \<and>
        (\<forall>n\<in>set (bins h' d). n < hk_fn_count h' \<and> hk_fn h' n \<noteq> 0)" if "d < BINS_MAX_ORDER" for d
      using that ok offs nz lc b split
      by (auto simp: pool_ok_def h' h3 add_free_area_to_bin_def buddy_simps set_bin_insert
          length_bin_insert)
    moreover have "region h' = region h" "mem_start h' = mem_start h" "mem_size h' = mem_size h"
      using sa by (simp_all add: same_allocs_def region_def fun_eq_iff)
    ultimately show ?thesis using ok fc by (simp add: pool_ok_def)
  qed
  ultimately show ?thesis using fc by (simp add: fun_eq_iff)
qed

lemma coalesce_buddies_spec:
  "pool_ok h \<Longrightarrow>
   pool_ok (coalesce_buddies b h) \<and> same_allocs h (coalesce_buddies b h) \<and>
   free_cover (coalesce_buddies b h) = free_cover h"
proof (induction b h rule: coalesce_buddies.induct)
  case (1 b h)
  show ?case
  proof (cases "BINS_MAX_ORDER - 1 \<le> b")
    case True
    then show ?thesis
      using 1(3) by (simp add: coalesce_buddies.simps [of b] same_allocs_refl)
  next
    case b: False
    show ?thesis
    proof (cases "find_buddies (hk_fn h) (of_nat (MIN_BLOCK_SIZE * 2 ^ b)) (bins h b)")
      case None
      then have "coalesce_buddies b h = coalesce_buddies (b + 1) h"
        using b by (simp add: coalesce_buddies.simps [of b])
      then show ?thesis using 1(1) [OF b None 1(3)] by simp
    next
      case (Some lcn)
      obtain l c ns where lcn: "lcn = (l, c, ns)" by (cases lcn)
      define h3 where "h3 = add_free_area_to_bin l (Suc b) (free_hk_node c (set_bin b ns h))"
      define h4 where "h4 = set_count b (counts h3 b - 2) h3"
      have eq: "coalesce_buddies b h = coalesce_buddies b h4"
        using b Some lcn by (simp add: coalesce_buddies.simps [of b h] Let_def h3_def h4_def)
      have m: "pool_ok h4 \<and> same_allocs h h4 \<and> free_cover h4 = free_cover h"
        by (rule merge_step [OF 1(3) _ _ h3_def h4_def])
          (use b Some lcn in \<open>simp_all add: bin_size_def\<close>)
      have "pool_ok h4 \<Longrightarrow> pool_ok (coalesce_buddies b h4) \<and>
          same_allocs h4 (coalesce_buddies b h4) \<and> free_cover (coalesce_buddies b h4) = free_cover h4"
        using 1(2) [OF b Some lcn [symmetric] refl refl refl refl refl] by (simp add: h3_def h4_def)
      with m eq show ?thesis by (auto intro: same_allocs_trans)
    qed
  qed
qed

lemma return_to_pool_spec:
  assumes ok: "pool_ok h" and a: "bin_num (hk_an h a) < BINS_MAX_ORDER" "a_map (hk_an h a) \<noteq> 0"
    and room: "\<And>x. free_cover h x + area_cover (hk_an h a) x \<le> region h x"
    and h': "h' = snd (return_to_pool a h)"
  shows "pool_ok h' \<and> same_allocs h h' \<and>
    (\<forall>x. free_cover h' x \<le> free_cover h x + area_cover (hk_an h a) x) \<and>
    (get_free_hk_node h \<noteq> None \<longrightarrow>
      (\<forall>x. free_cover h' x = free_cover h x + area_cover (hk_an h a) x))"
proof (cases "get_free_hk_node h")
  case None
  then show ?thesis using ok h' by (simp add: return_to_pool_def same_allocs_refl)
next
  case (Some n)
  let ?b = "bin_num (hk_an h a)"
  define h1 where "h1 = set_hk_map n (a_map (hk_an h a)) h"
  define h2 where "h2 = add_free_area_to_bin n ?b h1"
  have n0: "n < hk_fn_count h" "hk_fn h n = 0" using get_free_hk_node_Some [OF Some] by auto
  have off: "\<forall>b<BINS_MAX_ORDER. n \<notin> set (bins h b)"
    using ok n0(2) by (auto simp: pool_ok_def)
  have fc: "free_cover h2 x = free_cover h x + area_cover (hk_an h a) x" for x
    using free_cover_set_hk_map [OF off, of "a_map (hk_an h a)" x]
    by (simp add: h2_def h1_def add_free_area_cover [OF a(1)] area_cover_def buddy_simps)
  have sa: "same_allocs h h2"
    by (simp add: h2_def h1_def add_free_area_to_bin_def buddy_simps same_allocs_refl)
  have ok2: "pool_ok h2"
    using ok off n0(1) a(2) room fc
    by (auto simp: pool_ok_def h2_def h1_def add_free_area_to_bin_def buddy_simps set_bin_insert
        length_bin_insert)
  have "h' = (if counts h2 ?b > 1 then coalesce_buddies ?b h2 else h2)"
    using h' Some by (simp add: return_to_pool_def Let_def h1_def h2_def)
  then show ?thesis
    using coalesce_buddies_spec [OF ok2, of ?b] ok2 sa fc by (auto intro: same_allocs_trans)
qed

lemma sum_list_remove1_nat:
  "a \<in> set cs \<Longrightarrow> f a + (\<Sum>c\<leftarrow>remove1 a cs. f c) = (\<Sum>c\<leftarrow>cs. f c :: nat)"
  by (induction cs) auto

lemma alloc_cover_member: "a \<in> set (current h) \<Longrightarrow> area_cover (hk_an h a) x \<le> alloc_cover h x"
  unfolding alloc_cover_def using sum_list_remove1_nat [of a "current h" "\<lambda>c. area_cover (hk_an h c) x"]
  by simp

lemma area_cover_start: "area_cover a (unat (a_map a)) = 1"
  by (simp add: area_cover_def within_def bin_size_pos)

lemma alloced_once:
  assumes inv: "buddy_inv h" and a: "a \<in> set (current h)"
  shows "a \<notin> set (remove1 a (current h))"
proof
  assume again: "a \<in> set (remove1 a (current h))"
  let ?x = "unat (a_map (hk_an h a))" and ?f = "\<lambda>c. area_cover (hk_an h c) (unat (a_map (hk_an h a)))"
  have "?f a + ?f a \<le> alloc_cover h ?x"
    unfolding alloc_cover_def
    using sum_list_remove1_nat [OF a, of ?f] sum_list_remove1_nat [OF again, of ?f] by simp
  moreover have "alloc_cover h ?x \<le> region h ?x"
    using inv unfolding buddy_inv_def buddy_inv_with_def by (metis add.right_neutral add_leD2)
  moreover have "region h ?x \<le> 1" by (simp add: region_def within_def)
  ultimately show False by (simp add: area_cover_start)
qed

lemma search_for_allocated_block_Some:
  "search_for_allocated_block addr h = Some a \<Longrightarrow> a \<in> set (current h) \<and> a_map (hk_an h a) = addr"
  by (auto simp: search_for_allocated_block_def find_Some_iff)

definition free_post :: "sw_heap \<Rightarrow> sw_heap \<Rightarrow> u32 \<Rightarrow> bool" where
  "free_post h h' addr \<longleftrightarrow> same_mem h h' \<and>
     (case search_for_allocated_block addr h of
        None \<Rightarrow> h' = h
      | Some a \<Rightarrow> current h' = remove1 a (current h) \<and> (\<forall>c. c \<noteq> a \<longrightarrow> hk_an h' c = hk_an h c))"

lemma buddy_free_spec:
  assumes inv: "buddy_inv h"
  shows "buddy_inv (buddy_free addr h) \<and> free_post h (buddy_free addr h) addr \<and>
    (get_free_hk_node h \<noteq> None \<longrightarrow> (\<forall>x. free_cover (buddy_free addr h) x
      + alloc_cover (buddy_free addr h) x = free_cover h x + alloc_cover h x))"
proof (cases "search_for_allocated_block addr h")
  case None
  then show ?thesis using inv by (simp add: buddy_free_def free_post_def same_mem_def)
next
  case (Some a)
  have a: "a \<in> set (current h)" using search_for_allocated_block_Some [OF Some] by simp
  have ok: "nodes_ok h" using inv by (simp add: buddy_inv_def buddy_inv_with_def)
  have room: "free_cover h x + alloc_cover h x \<le> region h x" for x
    using inv by (simp add: buddy_inv_def buddy_inv_with_def)
  have room_a: "free_cover h x + area_cover (hk_an h a) x \<le> region h x" for x
    using room [of x] alloc_cover_member [OF a, of x] by linarith
  have pok: "pool_ok h"
    using ok add_leD1 [OF room_a] by (simp add: nodes_ok_def pool_ok_def)
  define h1 where "h1 = snd (return_to_pool a h)"
  define h2 where "h2 = h1\<lparr>current := remove1 a (current h1), hk_an := (hk_an h1)(a := zero_area)\<rparr>"
  have h2: "buddy_free addr h = h2" using Some by (simp add: buddy_free_def Let_def h1_def h2_def)
  have "bin_num (hk_an h a) < BINS_MAX_ORDER" "a_map (hk_an h a) \<noteq> 0"
    using ok a by (auto simp: nodes_ok_def)
  then have rp: "pool_ok h1 \<and> same_allocs h h1 \<and>
      (\<forall>x. free_cover h1 x \<le> free_cover h x + area_cover (hk_an h a) x) \<and>
      (get_free_hk_node h \<noteq> None \<longrightarrow>
        (\<forall>x. free_cover h1 x = free_cover h x + area_cover (hk_an h a) x))"
    by (intro return_to_pool_spec [OF pok _ _ room_a h1_def]) auto
  have once: "a \<notin> set (remove1 a (current h))" by (rule alloced_once [OF inv a])
  have "nodes_ok h2"
    using rp ok once set_remove1_subset [of a "current h"]
    by (auto simp: nodes_ok_def pool_ok_def h2_def same_allocs_def)
  moreover have al: "alloc_cover h2 x + area_cover (hk_an h a) x = alloc_cover h x" for x
  proof -
    have "(\<Sum>c\<leftarrow>remove1 a (current h). area_cover (((hk_an h)(a := zero_area)) c) x)
        = (\<Sum>c\<leftarrow>remove1 a (current h). area_cover (hk_an h c) x)"
      using once by (intro arg_cong [where f = sum_list] map_cong) auto
    then show ?thesis
      using rp sum_list_remove1_nat [OF a, of "\<lambda>c. area_cover (hk_an h c) x"]
      by (simp add: alloc_cover_def h2_def same_allocs_def)
  qed
  moreover have fr: "free_cover h2 = free_cover h1" "region h2 = region h"
    using rp by (auto simp: h2_def free_cover_def region_def same_allocs_def fun_eq_iff)
  moreover have "free_cover h2 x + alloc_cover h2 x \<le> region h2 x" for x
  proof -
    have "free_cover h1 x \<le> free_cover h x + area_cover (hk_an h a) x" using rp by simp
    then show ?thesis using al [of x] room [of x] unfolding fr by linarith
  qed
  ultimately have "buddy_inv h2"
    by (simp add: buddy_inv_def buddy_inv_with_def)
  moreover have "free_post h h2 addr"
    using rp Some by (simp add: free_post_def h2_def same_allocs_def same_mem_def)
  moreover have "free_cover h2 x + alloc_cover h2 x = free_cover h x + alloc_cover h x"
    if "get_free_hk_node h \<noteq> None" for x
    using rp that al [of x] by (simp add: fr add.commute add.left_commute)
  ultimately show ?thesis using h2 by simp
qed

section \<open>A fresh heap\<close>

definition free_nodes :: "sw_heap \<Rightarrow> nat set" where
  "free_nodes h = {n. n < hk_fn_count h \<and> hk_fn h n = 0}"

lemma finite_free_nodes [simp]: "finite (free_nodes h)"
  by (simp add: free_nodes_def)

lemma get_free_hk_node_None: "get_free_hk_node h = None \<longleftrightarrow> free_nodes h = {}"
  by (auto simp: get_free_hk_node_def find_None_iff free_nodes_def)

definition top_bin :: nat where "top_bin = BINS_MAX_ORDER - 1"

lemma top_bin: "top_bin < BINS_MAX_ORDER" "bin_size top_bin = 4096"
  by (simp_all add: top_bin_def BINS_MAX_ORDER_def bin_size_def MIN_BLOCK_SIZE_def)

lemma fill_step:
  assumes n: "get_free_hk_node h = Some n" and start: "start \<noteq> 0"
    and ok: "\<forall>b<BINS_MAX_ORDER. \<forall>n\<in>set (bins h b). n < hk_fn_count h \<and> hk_fn h n \<noteq> 0"
    and h': "h' = set_count top_bin (counts h top_bin + 1)
      (set_bin top_bin (bins h top_bin @ [n]) (set_hk_map n start h))"
  shows "\<forall>b<BINS_MAX_ORDER. \<forall>n\<in>set (bins h' b). n < hk_fn_count h' \<and> hk_fn h' n \<noteq> 0"
    "free_cover h' x = free_cover h x + within (unat start) 4096 x"
    "card (free_nodes h) = Suc (card (free_nodes h'))"
proof -
  have n0: "n < hk_fn_count h" "hk_fn h n = 0" using get_free_hk_node_Some [OF n] by auto
  have off: "\<forall>b<BINS_MAX_ORDER. n \<notin> set (bins h b)" using ok n0 by auto
  show "\<forall>b<BINS_MAX_ORDER. \<forall>n\<in>set (bins h' b). n < hk_fn_count h' \<and> hk_fn h' n \<noteq> 0"
    using ok n0 start by (auto simp: h' buddy_simps)
  show "free_cover h' x = free_cover h x + within (unat start) 4096 x"
    using free_cover_set_bin [OF top_bin(1), of "bins h top_bin @ [n]" "set_hk_map n start h" x]
      free_cover_set_hk_map [OF off, of start x]
    by (simp add: h' buddy_simps top_bin)
  have "free_nodes h = insert n (free_nodes h')" "n \<notin> free_nodes h'"
    using n0 start by (auto simp: h' free_nodes_def buddy_simps)
  then show "card (free_nodes h) = Suc (card (free_nodes h'))" by simp
qed

lemma within_append: "within a (m + n) x = within a m x + within (a + m) n x"
  by (auto simp: within_def)

lemma buddy_fill_spec:
  assumes "k \<le> card (free_nodes h)" "start \<noteq> 0" "unat start + k * 4096 \<le> 2 ^ 32" "k < 2 ^ 20"
    and "\<forall>b<BINS_MAX_ORDER. counts h b = length (bins h b)"
    and "\<forall>b<BINS_MAX_ORDER. \<forall>n\<in>set (bins h b). n < hk_fn_count h \<and> hk_fn h n \<noteq> 0"
  shows "\<exists>h'. buddy_fill start (of_nat (k * 4096)) h = Some (0, h') \<and> same_allocs h h' \<and>
    heap_start h' = heap_start h \<and> heap_size h' = heap_size h \<and>
    (\<forall>b<BINS_MAX_ORDER. counts h' b = length (bins h' b) \<and>
      (\<forall>n\<in>set (bins h' b). n < hk_fn_count h' \<and> hk_fn h' n \<noteq> 0)) \<and>
    (\<forall>x. free_cover h' x = free_cover h x + within (unat start) (k * 4096) x)"
  using assms
proof (induction k arbitrary: start h)
  case 0
  then show ?case by (subst buddy_fill.simps) (simp add: same_allocs_refl within_def)
next
  case (Suc k)
  obtain n where n: "get_free_hk_node h = Some n"
    using Suc.prems(1) get_free_hk_node_None [of h] by (cases "get_free_hk_node h") auto
  define h1 where "h1 = set_count top_bin (counts h top_bin + 1)
      (set_bin top_bin (bins h top_bin @ [n]) (set_hk_map n start h))"
  note st = fill_step [OF n Suc.prems(2) Suc.prems(6) h1_def]
  have "unat (of_nat (Suc k * 4096) :: u32) = Suc k * 4096"
    using Suc.prems(4) by (simp only: unsigned_of_nat of_nat_id, intro take_bit_nat_eq_self) simp
  then have pos: "(of_nat (Suc k * 4096) :: u32) > 0" unfolding word_less_nat_alt by simp
  have eq: "buddy_fill start (of_nat (Suc k * 4096)) h = buddy_fill (start + 4096) (of_nat (k * 4096)) h1"
    using pos n by (subst buddy_fill.simps)
      (simp add: Let_def h1_def top_bin_def MAX_BLOCK_SIZE_def buddy_simps)
  show ?case
  proof (cases "k = 0")
    case True
    then show ?thesis
      using eq st Suc.prems(5) by (subst eq, subst buddy_fill.simps)
        (auto simp: h1_def buddy_simps same_allocs_refl)
  next
    case False
    have up: "unat (start + 4096) = unat start + 4096"
      using Suc.prems(3) False by (subst unat_plus_lt) simp_all
    then have nz: "start + 4096 \<noteq> 0" by (metis add_is_0 unat_0 zero_neq_numeral)
    have pre: "k \<le> card (free_nodes h1)" "unat (start + 4096) + k * 4096 \<le> 2 ^ 32" "k < 2 ^ 20"
        "\<forall>b<BINS_MAX_ORDER. counts h1 b = length (bins h1 b)"
      using st(3) up Suc.prems by (simp_all add: h1_def buddy_simps)
    obtain h' where "buddy_fill (start + 4096) (of_nat (k * 4096)) h1 = Some (0, h')"
        "same_allocs h1 h'" "heap_start h' = heap_start h1" "heap_size h' = heap_size h1"
        "\<forall>b<BINS_MAX_ORDER. counts h' b = length (bins h' b) \<and>
          (\<forall>n\<in>set (bins h' b). n < hk_fn_count h' \<and> hk_fn h' n \<noteq> 0)"
        "\<forall>x. free_cover h' x = free_cover h1 x + within (unat start + 4096) (k * 4096) x"
      using Suc.IH [OF pre(1) nz pre(2-4) st(1)] unfolding up by blast
    moreover have "same_allocs h h1" "heap_start h1 = heap_start h" "heap_size h1 = heap_size h"
      by (simp_all add: h1_def same_allocs_refl buddy_simps)
    ultimately show ?thesis
      using eq st(2) within_append [of "unat start" 4096 "k * 4096"] same_allocs_trans
      by (intro exI [of _ h']) (auto simp: algebra_simps)
  qed
qed

text \<open>
  A heap of \<open>2 ^ k\<close> bytes: a quarter is housekeeping, the rest is split into maximal blocks.
\<close>

lemma heap_sizes:
  assumes "14 \<le> k" "k \<le> 27"
  shows "is_pow_two (2 ^ k) \<and>
    (2 ^ k * HOUSE_KEEPING_PERCENT) div 100 = (2 ^ (k - 2) :: u32) \<and>
    (2 ^ k - 2 ^ (k - 2) :: u32) = of_nat (3 * 2 ^ (k - 14) * 4096) \<and>
    unat (2 ^ (k - 2) div 2 div 16 :: u32) = 2 ^ (k - 7)"
proof -
  have "k = 14 \<or> k = 15 \<or> k = 16 \<or> k = 17 \<or> k = 18 \<or> k = 19 \<or> k = 20 \<or>
    k = 21 \<or> k = 22 \<or> k = 23 \<or> k = 24 \<or> k = 25 \<or> k = 26 \<or> k = 27"
    using assms by presburger
  then show ?thesis
    by (elim disjE) (simp_all add: is_pow_two_def HOUSE_KEEPING_PERCENT_def)
qed

lemma buddy_init_spec:
  assumes k: "14 \<le> k" "k \<le> 27" and start: "unat start + 2 ^ k \<le> 2 ^ 32"
  shows "\<exists>h'. buddy_init start (2 ^ k) h = Some (0, h') \<and> buddy_inv h' \<and> current h' = [] \<and>
    heap_start h' = start \<and> heap_size h' = 2 ^ k \<and>
    unat (mem_start h') = unat start + 2 ^ (k - 2) \<and> unat (mem_size h') = 3 * 2 ^ (k - 2) \<and>
    free_cover h' = region h'"
proof -
  define hk :: u32 where "hk = 2 ^ (k - 2)"
  define m where "m = 3 * 2 ^ (k - 14) * (4096::nat)"
  define h0 where "h0 = \<lparr>hk_fn = (\<lambda>_. 0), hk_fn_count = unat (hk div 2 div 16),
    hk_an = (\<lambda>_. zero_area), hk_an_count = unat (hk div 2 div 24), current = [],
    current_count = current_count h, mem_start = start + hk, mem_size = of_nat m,
    heap_start = start, heap_size = 2 ^ k, bins = (\<lambda>_. []), counts = (\<lambda>_. 0)\<rparr>"
  obtain j where j: "k = 14 + j" using k(1) le_Suc_ex by blast
  have j13: "j \<le> 13" using k(2) j by simp
  have ex: "k - 14 = j" "k - 7 = 7 + j" "k - 2 = 12 + j" using j by simp_all
  have pj: "(2::nat) ^ j \<le> 2 ^ 13" using j13 by (intro power_increasing) simp_all
  have m: "m = 3 * 2 ^ (k - 2)" "m < 2 ^ 32" using pj by (simp_all add: m_def ex power_add)
  have uhk: "unat hk = 2 ^ (k - 2)" unfolding hk_def using k by (intro unat_exp2) simp
  have um: "unat (of_nat m :: u32) = m"
    using m(2) by (simp add: unsigned_of_nat take_bit_nat_eq_self)
  have us: "unat (start + hk) = unat start + 2 ^ (k - 2)"
  proof -
    have "unat start + unat hk < unat start + 2 ^ k" unfolding uhk j by (simp add: power_add)
    then have "unat start + unat hk < 2 ^ 32" using start by linarith
    then show ?thesis using uhk by (simp add: unat_plus_lt)
  qed
  then have nz: "start + hk \<noteq> 0" by (metis add_is_0 power_not_zero unat_0 zero_neq_numeral)
  have eq: "buddy_init start (2 ^ k) h = buddy_fill (start + hk) (of_nat m) h0"
    using heap_sizes [OF k] by (simp add: buddy_init_def Let_def h0_def hk_def m_def)
  have fn: "free_nodes h0 = {..<2 ^ (k - 7)}"
    using heap_sizes [OF k] by (auto simp: free_nodes_def h0_def hk_def)
  have "\<exists>h'. buddy_fill (start + hk) (of_nat (3 * 2 ^ (k - 14) * 4096)) h0 = Some (0, h') \<and>
      same_allocs h0 h' \<and> heap_start h' = heap_start h0 \<and> heap_size h' = heap_size h0 \<and>
      (\<forall>b<BINS_MAX_ORDER. counts h' b = length (bins h' b) \<and>
        (\<forall>n\<in>set (bins h' b). n < hk_fn_count h' \<and> hk_fn h' n \<noteq> 0)) \<and>
      (\<forall>x. free_cover h' x = free_cover h0 x
        + within (unat (start + hk)) (3 * 2 ^ (k - 14) * 4096) x)"
  proof (rule buddy_fill_spec [OF _ nz])
    show "3 * 2 ^ (k - 14) \<le> card (free_nodes h0)" by (simp add: fn ex power_add)
    show "unat (start + hk) + 3 * 2 ^ (k - 14) * 4096 \<le> 2 ^ 32"
      using start us by (simp add: j power_add)
    show "3 * 2 ^ (k - 14) < (2::nat) ^ 20" using pj by (simp add: ex)
  qed (simp_all add: h0_def)
  then obtain h' where h': "buddy_init start (2 ^ k) h = Some (0, h')" "same_allocs h0 h'"
      "heap_start h' = start" "heap_size h' = 2 ^ k"
      "\<forall>b<BINS_MAX_ORDER. counts h' b = length (bins h' b) \<and>
        (\<forall>n\<in>set (bins h' b). n < hk_fn_count h' \<and> hk_fn h' n \<noteq> 0)"
      "\<And>x. free_cover h' x = within (unat (start + hk)) m x"
    unfolding eq m_def by (auto simp: h0_def free_cover_def)
  have f: "current h' = []" "mem_start h' = start + hk" "mem_size h' = of_nat m"
    using h'(2) by (simp_all add: same_allocs_def h0_def)
  have reg: "free_cover h' = region h'"
    by (simp add: h'(6) region_def f um fun_eq_iff)
  have "unat (mem_start h') + unat (mem_size h') \<le> 2 ^ 32"
    unfolding f us um using start by (simp add: m(1) j power_add)
  then have "buddy_inv h'"
    using h'(5) by (simp add: buddy_inv_def buddy_inv_with_def nodes_ok_def f reg alloc_cover_def)
  then show ?thesis using h' f reg us um m by auto
qed

section \<open>The contract of the allocator\<close>

lemma area_disjoint:
  assumes inv: "buddy_inv h" and ab: "a \<in> set (current h)" "b \<in> set (current h)" "a \<noteq> b"
  shows "unat (a_map (hk_an h a)) + bin_size (bin_num (hk_an h a)) \<le> unat (a_map (hk_an h b)) \<or>
    unat (a_map (hk_an h b)) + bin_size (bin_num (hk_an h b)) \<le> unat (a_map (hk_an h a))"
proof (rule ccontr)
  assume no: "\<not> ?thesis"
  define x where "x = max (unat (a_map (hk_an h a))) (unat (a_map (hk_an h b)))"
  let ?f = "\<lambda>c. area_cover (hk_an h c) x"
  have "?f a = 1" "?f b = 1"
    using no bin_size_pos by (auto simp: x_def area_cover_def within_def max_def not_le)
  moreover have "b \<in> set (remove1 a (current h))" using ab by simp
  ultimately have "2 \<le> alloc_cover h x"
    unfolding alloc_cover_def
    using sum_list_remove1_nat [OF ab(1), of ?f]
      sum_list_remove1_nat [of b "remove1 a (current h)" ?f] by simp
  moreover have "alloc_cover h x \<le> region h x"
    using inv unfolding buddy_inv_def buddy_inv_with_def by (metis add.right_neutral add_leD2)
  moreover have "region h x \<le> 1" by (simp add: region_def within_def)
  ultimately show False by simp
qed

lemma area_in_heap:
  assumes inv: "buddy_inv h" and a: "a \<in> set (current h)"
  shows "unat (mem_start h) \<le> unat (a_map (hk_an h a))"
    "unat (a_map (hk_an h a)) + bin_size (bin_num (hk_an h a))
      \<le> unat (mem_start h) + unat (mem_size h)"
proof -
  have b: "bin_num (hk_an h a) < BINS_MAX_ORDER"
    using inv a by (auto simp: buddy_inv_def buddy_inv_with_def nodes_ok_def)
  have "within (unat (a_map (hk_an h a))) (bin_size (bin_num (hk_an h a))) x
      \<le> free_cover h x + alloc_cover h x + 0" for x
    using alloc_cover_member [OF a, of x] by (simp add: area_cover_def)
  from block_in_region [OF inv [unfolded buddy_inv_def] b this]
  show "unat (mem_start h) \<le> unat (a_map (hk_an h a))"
    "unat (a_map (hk_an h a)) + bin_size (bin_num (hk_an h a))
      \<le> unat (mem_start h) + unat (mem_size h)" by auto
qed

text \<open>
  \<open>live s\<close> is the set of (address, size) pairs handed out and not given back. The client
  lemmas are about two calls in a row.
\<close>

locale allocator =
  fixes inv :: "'s \<Rightarrow> bool"
    and live :: "'s \<Rightarrow> (nat \<times> nat) set"
    and mem :: "'s \<Rightarrow> nat \<times> nat"
    and alloc :: "u32 \<Rightarrow> 's \<Rightarrow> panic + (u32 \<times> 's)"
    and release :: "u32 \<Rightarrow> 's \<Rightarrow> 's"
    and ok :: "u32 \<Rightarrow> bool"
  assumes live_disjoint: "inv s \<Longrightarrow> (a, n) \<in> live s \<Longrightarrow> (b, m) \<in> live s \<Longrightarrow> (a, n) \<noteq> (b, m) \<Longrightarrow>
      a \<noteq> b \<and> (a + n \<le> b \<or> b + m \<le> a)"
    and live_inside: "inv s \<Longrightarrow> (a, n) \<in> live s \<Longrightarrow>
      fst (mem s) \<le> a \<and> a + n \<le> fst (mem s) + snd (mem s)"
    and alloc_law: "inv s \<Longrightarrow> ok sz \<Longrightarrow> \<exists>r s'. alloc sz s = Inr (r, s') \<and> inv s' \<and> mem s' = mem s \<and>
      (if r = 0 then live s' = live s
       else \<exists>m\<ge>unat sz. (unat r, m) \<notin> live s \<and> live s' = insert (unat r, m) (live s))"
    and release_law: "inv s \<Longrightarrow> inv (release p s) \<and> mem (release p s) = mem s \<and>
      live (release p s) = {(b, m) \<in> live s. b \<noteq> unat p}"
begin

lemma alloc_fresh:
  assumes "inv s" "ok n" "alloc n s = Inr (r, s')" "r \<noteq> 0"
  shows "fst (mem s) \<le> unat r \<and> unat r + unat n \<le> fst (mem s) + snd (mem s) \<and>
    (\<forall>(b, m) \<in> live s. unat r + unat n \<le> b \<or> b + m \<le> unat r)"
proof -
  obtain m where s': "inv s'" "mem s' = mem s" "unat n \<le> m" "(unat r, m) \<notin> live s"
      "live s' = insert (unat r, m) (live s)"
    using alloc_law [OF assms(1,2)] assms(3,4) by auto
  have "fst (mem s) \<le> unat r \<and> unat r + m \<le> fst (mem s) + snd (mem s)"
    using live_inside [OF s'(1), of "unat r" m] s' by simp
  moreover have "unat r + m \<le> b \<or> b + k \<le> unat r" if "(b, k) \<in> live s" for b k
    using live_disjoint [OF s'(1), of "unat r" m b k] s' that by auto
  ultimately show ?thesis using s'(3) by fastforce
qed

lemma release_alloc:
  assumes "inv s" "ok n" "alloc n s = Inr (r, s')" "r \<noteq> 0"
  shows "inv (release r s') \<and> live (release r s') = live s"
proof -
  obtain m where s': "inv s'" "(unat r, m) \<notin> live s" "live s' = insert (unat r, m) (live s)"
    using alloc_law [OF assms(1,2)] assms(3,4) by auto
  have "b \<noteq> unat r" if "(b, k) \<in> live s" for b k
    using live_disjoint [OF s'(1), of b k "unat r" m] s' that by auto
  then show ?thesis using release_law [OF s'(1), of r] s' by auto
qed

lemma release_unknown:
  "inv s \<Longrightarrow> (\<And>m. (unat a, m) \<notin> live s) \<Longrightarrow> live (release a s) = live s"
  using release_law [of s a] by auto

end

definition buddy_live :: "sw_heap \<Rightarrow> (nat \<times> nat) set" where
  "buddy_live h = (\<lambda>a. (unat (a_map (hk_an h a)), unat (blk_sz (hk_an h a)))) ` set (current h)"

definition buddy_mem :: "sw_heap \<Rightarrow> nat \<times> nat" where
  "buddy_mem h = (unat (mem_start h), unat (mem_size h))"

lemma live_bounds:
  assumes "buddy_inv h" "a \<in> set (current h)"
  shows "unat (blk_sz (hk_an h a)) \<le> bin_size (bin_num (hk_an h a))"
  using assms by (auto simp: buddy_inv_def buddy_inv_with_def nodes_ok_def)

lemma buddy_live_disjoint:
  assumes inv: "buddy_inv h" and ab: "a \<in> set (current h)" "b \<in> set (current h)" "a \<noteq> b"
  shows "a_map (hk_an h a) \<noteq> a_map (hk_an h b) \<and>
    (unat (a_map (hk_an h a)) + unat (blk_sz (hk_an h a)) \<le> unat (a_map (hk_an h b)) \<or>
     unat (a_map (hk_an h b)) + unat (blk_sz (hk_an h b)) \<le> unat (a_map (hk_an h a)))"
  using area_disjoint [OF inv ab] live_bounds [OF inv ab(1)] live_bounds [OF inv ab(2)]
    bin_size_pos [of "bin_num (hk_an h a)"] bin_size_pos [of "bin_num (hk_an h b)"]
  by (auto simp: not_le)

lemma buddy_live_release:
  assumes inv: "buddy_inv h"
  shows "buddy_live (buddy_free p h) = {(b, m) \<in> buddy_live h. b \<noteq> unat p}"
proof (cases "search_for_allocated_block p h")
  case None
  then have "a_map (hk_an h a) \<noteq> p" if "a \<in> set (current h)" for a
    using that by (auto simp: search_for_allocated_block_def find_None_iff)
  then show ?thesis using None by (auto simp: buddy_free_def buddy_live_def unat_inject)
next
  case (Some a)
  have a: "a \<in> set (current h)" "a_map (hk_an h a) = p"
    using search_for_allocated_block_Some [OF Some] by auto
  have cur: "current (buddy_free p h) = remove1 a (current h)"
      "\<And>c. c \<noteq> a \<Longrightarrow> hk_an (buddy_free p h) c = hk_an h c"
    using buddy_free_spec [OF inv, of p] Some by (auto simp: free_post_def)
  have set1: "set (remove1 a (current h)) = set (current h) - {a}"
    using alloced_once [OF inv a(1)] set_remove1_subset [of a "current h"] in_set_remove1 by fastforce
  have "a_map (hk_an h c) \<noteq> p" if "c \<in> set (current h)" "c \<noteq> a" for c
    using buddy_live_disjoint [OF inv that(1) a(1) that(2)] a(2) by simp
  then show ?thesis using cur a(2) by (auto simp: buddy_live_def set1 image_iff unat_inject)
qed

lemma buddy_live_alloc:
  assumes inv: "buddy_inv h" and f: "fresh_area h h' r n" and inv': "buddy_inv h'"
  shows "\<exists>m\<ge>n. (unat r, m) \<notin> buddy_live h \<and> buddy_live h' = insert (unat r, m) (buddy_live h)"
proof -
  obtain a where a: "current h' = current h @ [a]" "a \<notin> set (current h)"
      "\<And>c. c \<noteq> a \<Longrightarrow> hk_an h' c = hk_an h c" "a_map (hk_an h' a) = r"
      "n \<le> unat (blk_sz (hk_an h' a))"
    using f unfolding fresh_area_def by auto
  have old: "hk_an h' c = hk_an h c" if "c \<in> set (current h)" for c using that a(2,3) by metis
  have "a_map (hk_an h c) \<noteq> r" if "c \<in> set (current h)" for c
    using buddy_live_disjoint [OF inv', of c a] that a(1,2,4) old [OF that] by auto
  then have "\<forall>c\<in>set (current h). unat (a_map (hk_an h c)) \<noteq> unat r" by (simp add: unat_inject)
  then have "(unat r, m) \<notin> buddy_live h" for m by (auto simp: buddy_live_def)
  then show ?thesis
    using a old by (intro exI [of _ "unat (blk_sz (hk_an h' a))"]) (auto simp: buddy_live_def)
qed

interpretation sw_buddy: allocator buddy_inv buddy_live buddy_mem sw_buddy_malloc buddy_free
  "\<lambda>sz. unat sz \<le> MAX_BLOCK_SIZE"
proof unfold_locales
  fix s a n b m assume inv: "buddy_inv s" and l: "(a, n) \<in> buddy_live s" "(b, m) \<in> buddy_live s"
    and ne: "(a, n) \<noteq> (b, m)"
  obtain i j where ij: "i \<in> set (current s)" "j \<in> set (current s)"
      "a = unat (a_map (hk_an s i))" "n = unat (blk_sz (hk_an s i))"
      "b = unat (a_map (hk_an s j))" "m = unat (blk_sz (hk_an s j))"
    using l by (auto simp: buddy_live_def)
  then have "i \<noteq> j" using ne by auto
  then show "a \<noteq> b \<and> (a + n \<le> b \<or> b + m \<le> a)"
    using buddy_live_disjoint [OF inv ij(1,2)] by (simp add: ij unat_inject)
next
  fix s a n assume inv: "buddy_inv s" and l: "(a, n) \<in> buddy_live s"
  then show "fst (buddy_mem s) \<le> a \<and> a + n \<le> fst (buddy_mem s) + snd (buddy_mem s)"
    using area_in_heap [OF inv] live_bounds [OF inv]
    by (fastforce simp: buddy_live_def buddy_mem_def)
next
  fix s :: sw_heap and sz :: u32 assume inv: "buddy_inv s" and sz: "unat sz \<le> MAX_BLOCK_SIZE"
  have "sw_buddy_malloc sz s = Inr (if sz > heap_size s then (0, s) else malloc_loop 0 MIN_BLOCK_SIZE sz s)"
    using sz by (simp add: sw_buddy_malloc_def Let_def)
  then obtain r s' where m: "sw_buddy_malloc sz s = Inr (r, s')" by (metis surj_pair)
  show "\<exists>r s'. sw_buddy_malloc sz s = Inr (r, s') \<and> buddy_inv s' \<and> buddy_mem s' = buddy_mem s \<and>
      (if r = 0 then buddy_live s' = buddy_live s
       else \<exists>m\<ge>unat sz. (unat r, m) \<notin> buddy_live s \<and>
         buddy_live s' = insert (unat r, m) (buddy_live s))"
    using sw_buddy_malloc_spec [OF inv sz m] m buddy_live_alloc [OF inv, of s' r "unat sz"]
    by (auto simp: malloc_post_def same_mem_def buddy_mem_def buddy_live_def split: if_splits)
next
  fix s p assume inv: "buddy_inv s"
  then show "buddy_inv (buddy_free p s) \<and> buddy_mem (buddy_free p s) = buddy_mem s \<and>
      buddy_live (buddy_free p s) = {(b, m) \<in> buddy_live s. b \<noteq> unat p}"
    using buddy_free_spec [OF inv, of p] buddy_live_release [OF inv, of p]
    by (simp add: free_post_def same_mem_def buddy_mem_def)
qed

section \<open>Sequences of requests\<close>

datatype buddy_op = Malloc u32 | Free u32

fun buddy_exec :: "sw_heap \<Rightarrow> buddy_op \<Rightarrow> sw_heap" where
  "buddy_exec h (Malloc sz) = (case sw_buddy_malloc sz h of Inl _ \<Rightarrow> h | Inr (r, h') \<Rightarrow> h')"
| "buddy_exec h (Free p) = buddy_free p h"

fun buddy_op_ok :: "sw_heap \<Rightarrow> buddy_op \<Rightarrow> bool" where
  "buddy_op_ok h (Malloc sz) = (unat sz \<le> MAX_BLOCK_SIZE)"
| "buddy_op_ok h (Free p) = True"

interpretation buddy_ops: op_contract buddy_inv buddy_op_ok buddy_exec
proof unfold_locales
  fix s c assume "buddy_inv s" "buddy_op_ok s c"
  then show "buddy_inv (buddy_exec s c)"
    using sw_buddy.alloc_law [of s] sw_buddy.release_law [of s] by (cases c) fastforce+
qed

section \<open>Properties of one heap\<close>

text \<open>A heap with one free block of 256 bytes, for the examples below.\<close>

definition one_block_heap :: sw_heap where
  "one_block_heap = \<lparr>hk_fn = (\<lambda>_. 0)(0 := 0x101000), hk_fn_count = 2,
     hk_an = (\<lambda>_. zero_area), hk_an_count = 2, current = [], current_count = 0,
     mem_start = 0x101000, mem_size = 0x100, heap_start = 0x100000, heap_size = 0x2000,
     bins = (\<lambda>_. [])(6 := [0]), counts = (\<lambda>_. 0)(6 := 1)\<rparr>"

lemma one_block_heap_inv: "buddy_inv one_block_heap"
proof -
  have "free_cover one_block_heap x = within 0x101000 0x100 x" for x
    by (simp add: free_cover_def one_block_heap_def BINS_MAX_ORDER_def lessThan_nat_numeral
        bin_size_def MIN_BLOCK_SIZE_def)
  then show ?thesis
    by (simp add: buddy_inv_def buddy_inv_with_def nodes_ok_def one_block_heap_def
        alloc_cover_def region_def BINS_MAX_ORDER_def)
qed

lemma upt_2: "[0..<2] = [0, 1]"
  by (simp add: upt_rec)

lemma one_block_heap_take: "buddy_get_block 6 one_block_heap =
    (Some 0, one_block_heap\<lparr>bins := (\<lambda>_. []), counts := (\<lambda>_. 0)\<rparr>)"
  by (subst buddy_get_block.simps)
    (simp add: one_block_heap_def BINS_MAX_ORDER_def set_bin_def set_count_def fun_eq_iff)

lemma one_block_heap_split: "buddy_get_block 5 one_block_heap =
    (Some 1, one_block_heap\<lparr>hk_fn := (hk_fn one_block_heap)(1 := 0x101080),
       bins := (\<lambda>_. [])(5 := [0]), counts := (\<lambda>_. 0)(5 := 1)\<rparr>)"
  by (subst buddy_get_block.simps, simp add: one_block_heap_take)
    (simp add: one_block_heap_def get_free_hk_node_def BINS_MAX_ORDER_def MIN_BLOCK_SIZE_def
      set_bin_def set_count_def set_hk_map_def upt_2)

text \<open>The heap after a request for 100 bytes: the upper half is allocated.\<close>

definition one_area_heap :: sw_heap where
  "one_area_heap = \<lparr>hk_fn = (\<lambda>_. 0)(0 := 0x101000), hk_fn_count = 2,
     hk_an = (\<lambda>_. zero_area)(0 := \<lparr>a_map = 0x101080, blk_sz = 128, bin_num = 5\<rparr>),
     hk_an_count = 2, current = [0], current_count = 1,
     mem_start = 0x101000, mem_size = 0x100, heap_start = 0x100000, heap_size = 0x2000,
     bins = (\<lambda>_. [])(5 := [0]), counts = (\<lambda>_. 0)(5 := 1)\<rparr>"

lemma malloc_loop_double:
  "idx \<le> BINS_MAX_ORDER \<Longrightarrow> unat sz > c \<Longrightarrow>
   malloc_loop idx c sz h = malloc_loop (idx + 1) (c * 2) sz h"
  by (simp add: malloc_loop.simps [of idx])

lemma one_block_heap_malloc: "sw_buddy_malloc 100 one_block_heap = Inr (0x101080, one_area_heap)"
proof -
  have five: "Suc (Suc (Suc (Suc (Suc 0)))) = 5" by simp
  have "malloc_loop 0 4 100 one_block_heap = malloc_loop 5 128 100 one_block_heap"
    by (simp add: malloc_loop_double BINS_MAX_ORDER_def five)
  also have "\<dots> = (0x101080, one_area_heap)"
    by (subst malloc_loop.simps)
      (simp add: one_block_heap_split BINS_MAX_ORDER_def, simp add: get_free_ac_node_def
        one_block_heap_def upt_2 zero_area_def commit_alloc_def one_area_heap_def
        free_hk_node_def fun_eq_iff)
  finally show ?thesis
    by (simp add: sw_buddy_malloc_def MIN_BLOCK_SIZE_def MAX_BLOCK_SIZE_def) (simp add: one_block_heap_def)
qed

lemma one_area_heap_inv: "buddy_inv one_area_heap"
  using sw_buddy_malloc_spec [OF one_block_heap_inv _ one_block_heap_malloc]
  by (simp add: MAX_BLOCK_SIZE_def)

text \<open>
  \<open>buddy_init\<close> on \<open>2 ^ k\<close> bytes (the 64 KB task heaps have \<open>k = 16\<close>) succeeds and
  establishes the invariant: no allocation, and every byte behind the housekeeping quarter is
  in exactly one free block.
\<close>

theorem buddy_init_fresh_heap:
  assumes "14 \<le> k" "k \<le> 27" "unat start + 2 ^ k \<le> 2 ^ 32"
  shows "\<exists>h'. buddy_init start (2 ^ k) h = Some (0, h') \<and> buddy_inv h' \<and> buddy_live h' = {} \<and>
    buddy_mem h' = (unat start + 2 ^ (k - 2), 3 * 2 ^ (k - 2)) \<and> free_cover h' = region h'"
  using buddy_init_spec [OF assms, of h] by (auto simp: buddy_live_def buddy_mem_def)

theorem buddy_init_fresh_heap_witness:
  "\<exists>h'. buddy_init 0x100000 0x10000 one_block_heap = Some (0, h') \<and> buddy_inv h' \<and>
    buddy_live h' = {} \<and> buddy_mem h' = (0x104000, 0xC000) \<and> free_cover h' = region h'"
  using buddy_init_fresh_heap [of 16 "0x100000" one_block_heap] by simp

text \<open>
  A request for at most one maximal block always returns, without stopping the kernel, and
  keeps the invariant. A non-zero result is memory inside the heap that overlaps no area
  handed out before, and it is at least as large as requested.
\<close>

theorem sw_buddy_malloc_fresh:
  assumes "buddy_inv h" "unat sz \<le> MAX_BLOCK_SIZE"
  shows "\<exists>r h'. sw_buddy_malloc sz h = Inr (r, h') \<and> buddy_inv h' \<and>
    (r \<noteq> 0 \<longrightarrow> fst (buddy_mem h) \<le> unat r \<and>
      unat r + unat sz \<le> fst (buddy_mem h) + snd (buddy_mem h) \<and>
      (\<forall>(b, m) \<in> buddy_live h. unat r + unat sz \<le> b \<or> b + m \<le> unat r) \<and>
      (\<exists>m\<ge>unat sz. buddy_live h' = insert (unat r, m) (buddy_live h)))"
  using sw_buddy.alloc_law [OF assms] sw_buddy.alloc_fresh [OF assms] by fastforce

theorem sw_buddy_malloc_fresh_witness:
  "sw_buddy_malloc 100 one_block_heap = Inr (0x101080, one_area_heap) \<and> buddy_inv one_area_heap"
  using sw_buddy_malloc_fresh [OF one_block_heap_inv, of 100]
  by (simp add: MAX_BLOCK_SIZE_def one_block_heap_malloc)



text \<open>
  C16. \<open>buddy_free\<close> removes exactly the area that starts at the given address (an address that
  is not allocated changes nothing), keeps the invariant through coalescing, and, as long as a
  housekeeping node is left, loses no byte: what was allocated becomes free.
\<close>

theorem buddy_free_exact:
  assumes "buddy_inv h"
  shows "buddy_inv (buddy_free p h) \<and>
    buddy_live (buddy_free p h) = {(b, m) \<in> buddy_live h. b \<noteq> unat p} \<and>
    (search_for_allocated_block p h = None \<longrightarrow> buddy_free p h = h) \<and>
    (get_free_hk_node h \<noteq> None \<longrightarrow> (\<forall>x. free_cover (buddy_free p h) x
      + alloc_cover (buddy_free p h) x = free_cover h x + alloc_cover h x))"
  using buddy_free_spec [OF assms, of p] sw_buddy.release_law [OF assms, of p]
  by (simp add: buddy_free_def)

theorem buddy_free_exact_witness:
  "buddy_live (buddy_free 0x101080 one_area_heap) = {}"
  using buddy_free_exact [OF one_area_heap_inv, of "0x101080"]
  by (auto simp: buddy_live_def one_area_heap_def)

text \<open>
  C2. Any sequence of allocations of at most one maximal block and of frees, with any
  addresses, leaves the live areas pairwise disjoint and inside the heap.
\<close>

theorem buddy_requests_disjoint:
  assumes "buddy_inv h" "buddy_ops.legal h cs" "(a, n) \<in> buddy_live (buddy_ops.run h cs)"
    "(b, m) \<in> buddy_live (buddy_ops.run h cs)"
  shows "fst (buddy_mem (buddy_ops.run h cs)) \<le> a \<and>
    a + n \<le> fst (buddy_mem (buddy_ops.run h cs)) + snd (buddy_mem (buddy_ops.run h cs)) \<and>
    ((a, n) = (b, m) \<or> a + n \<le> b \<or> b + m \<le> a)"
proof -
  note inv = buddy_ops.run_inv [OF assms(1,2)]
  show ?thesis
    using sw_buddy.live_inside [OF inv assms(3)] sw_buddy.live_disjoint [OF inv assms(3,4)] by blast
qed

theorem buddy_requests_disjoint_witness:
  "fst (buddy_mem one_area_heap) \<le> 0x101080"
  using buddy_requests_disjoint [OF one_block_heap_inv, of "[Malloc 100]" "0x101080" 128 "0x101080" 128]
  by (simp add: MAX_BLOCK_SIZE_def one_block_heap_malloc) (simp add: buddy_live_def one_area_heap_def)

section \<open>Requests larger than one block\<close>

text \<open>
  \<open>contiguous_scan\<close> counts adjacent pairs, not blocks, so a run has to be one block longer
  than the request for the count to be reached.
\<close>

definition consecutive :: "(nat \<Rightarrow> u32) \<Rightarrow> nat list \<Rightarrow> bool" where
  "consecutive m ns \<longleftrightarrow> successively (\<lambda>p c. m p + of_nat MAX_BLOCK_SIZE = m c) ns"

lemma contiguous_scan_run:
  "consecutive m (p # ns) \<Longrightarrow> count < n \<Longrightarrow>
   contiguous_scan m n ns (Some s) (Some p) count =
     (Some s, if n \<le> count + length ns then n else count + length ns)"
  by (induction ns arbitrary: p count) (auto simp: consecutive_def Let_def)

lemma contiguous_scan_start:
  "consecutive m (s # ns) \<Longrightarrow> 0 < n \<Longrightarrow>
   contiguous_scan m n (s # ns) None None 0 = (Some s, min n (length ns))"
  by (simp add: contiguous_scan_run min_def)

text \<open>
  A bin that holds one run of \<open>Suc (length ns)\<close> adjacent blocks from \<open>s\<close> on serves a request for
  \<open>n\<close> of them with the first address of the run. It takes \<open>n\<close> blocks off the bin when the run is longer
  than \<open>n\<close>; when the run has exactly \<open>n\<close> blocks it takes only \<open>n - 1\<close>, and the last block of the
  memory handed out stays on the free list.
\<close>

theorem buddy_get_contiguous_block_run:
  assumes "idx < BINS_MAX_ORDER" "bins h idx = s # ns" "s \<notin> set ns"
    and "consecutive (hk_fn h) (s # ns)" "counts h idx = Suc (length ns)"
    and "1 < n" "n \<le> Suc (length ns)" "get_free_hk_node h = Some c"
  shows "\<exists>h'. buddy_get_contiguous_block n idx h = Inr (Some c, h') \<and>
    hk_fn h' c = hk_fn h s \<and> bins h' idx = drop (min n (length ns)) (s # ns) \<and>
    (n = Suc (length ns) \<longrightarrow> bins h' idx = [last ns])"
proof -
  have scan: "contiguous_scan (hk_fn h) n (s # ns) None None 0 = (Some s, min n (length ns))"
    using assms(4,6) by (intro contiguous_scan_start) simp_all
  have "drop (length ns) (s # ns) = [last (s # ns)]"
    by (induction ns arbitrary: s) auto
  then show ?thesis
    using assms scan
    by (auto simp: buddy_get_contiguous_block_def unlink_run_def buddy_simps Let_def)
qed

text \<open>Two adjacent free blocks: the request for both leaves the second one free.\<close>

definition two_block_heap :: sw_heap where
  "two_block_heap = \<lparr>hk_fn = (\<lambda>_. 0)(0 := 0x101000, 1 := 0x102000), hk_fn_count = 3,
     hk_an = (\<lambda>_. zero_area), hk_an_count = 2, current = [], current_count = 0,
     mem_start = 0x101000, mem_size = 0x2000, heap_start = 0x100000, heap_size = 0x4000,
     bins = (\<lambda>_. [])(10 := [0, 1]), counts = (\<lambda>_. 0)(10 := 2)\<rparr>"

theorem buddy_get_contiguous_block_run_witness:
  "\<exists>h'. buddy_get_contiguous_block 2 10 two_block_heap = Inr (Some 2, h') \<and>
    hk_fn h' 2 = 0x101000 \<and> bins h' 10 = [1]"
proof -
  have "[0..<3] = [0, 1, 2]" by (simp add: upt_rec)
  then show ?thesis
    using buddy_get_contiguous_block_run [of 10 two_block_heap 0 "[1]" 2 2]
    by (auto simp: two_block_heap_def BINS_MAX_ORDER_def consecutive_def MAX_BLOCK_SIZE_def
        get_free_hk_node_def)
qed

section \<open>The heaps of the tasks\<close>

lemma find_heap_Some:
  "find_heap hid s = Some i \<Longrightarrow> i < NUM_OF_HEAPS \<and> heap_id (h_index s i) = hid"
  by (auto simp: find_heap_def find_Some_iff)

lemma int_length_minus: "a \<in> set xs \<Longrightarrow> int (length xs - Suc 0) = int (length xs) - 1"
  by (cases xs) simp_all

text \<open>\<open>num_blocks_alloc\<close> is the number of areas the heap has handed out.\<close>

definition pending_ok :: "buddy_state \<Rightarrow> nat \<Rightarrow> bool" where
  "pending_ok s i \<longleftrightarrow> num_blocks_alloc (h_index s i) = int (length (current (buddy_heap s i)))"

text \<open>
  An allocation or a free of task \<open>hid\<close> touches only the heap that \<open>hid\<close> owns: every other heap,
  and every other owner entry, is as before.
\<close>

theorem private_heaps_isolated:
  assumes "find_heap hid s \<noteq> Some j"
  shows "(case sw_malloc_private hid sz s of Inl e \<Rightarrow> True
      | Inr (r, s') \<Rightarrow> buddy_heap s' j = buddy_heap s j \<and> h_index s' j = h_index s j) \<and>
    buddy_heap (sw_free_private hid p s) j = buddy_heap s j \<and>
    h_index (sw_free_private hid p s) j = h_index s j"
  using assms
  by (auto simp: sw_malloc_private_def sw_free_private_def add_pending_def set_heap_def
      split: option.splits sum.splits prod.splits)

definition one_heap_state :: buddy_state where
  "one_heap_state = \<lparr>buddy_heap = (\<lambda>_. one_block_heap),
     h_index = (\<lambda>_. \<lparr>heap_id = - 1, num_blocks_alloc = 0\<rparr>)(0 := \<lparr>heap_id = 7, num_blocks_alloc = 0\<rparr>)\<rparr>"

lemma one_heap_state_find: "find_heap 7 one_heap_state = Some 0"
  by (simp add: find_heap_def one_heap_state_def NUM_OF_HEAPS_def upt_rec)

theorem private_heaps_isolated_witness:
  "buddy_heap (sw_free_private 7 0x101080 one_heap_state) 1 = one_block_heap"
  using private_heaps_isolated [of 7 one_heap_state 1 100 "0x101080"]
  by (simp add: one_heap_state_find) (simp add: one_heap_state_def)

text \<open>
  The count of outstanding blocks, which decides whether a private heap may be given back, stays
  right over an allocation. It stays right over a free exactly when the pointer is allocated:
  \<open>sw_free\<close> counts down for an unknown pointer too.
\<close>

theorem pending_count_exact:
  assumes "buddy_inv (buddy_heap s i)" "find_heap hid s = Some i" "pending_ok s i"
    and "unat sz \<le> MAX_BLOCK_SIZE"
  shows "(\<exists>r s'. sw_malloc_private hid sz s = Inr (r, s') \<and> pending_ok s' i) \<and>
    (pending_ok (sw_free_private hid p s) i
      \<longleftrightarrow> search_for_allocated_block p (buddy_heap s i) \<noteq> None)"
proof
  obtain r h' where m: "sw_buddy_malloc sz (buddy_heap s i) = Inr (r, h')"
    using sw_buddy.alloc_law [OF assms(1,4)] by auto
  then have "malloc_post (buddy_heap s i) h' r (unat sz)"
    using sw_buddy_malloc_spec [OF assms(1,4)] by simp
  then show "\<exists>r s'. sw_malloc_private hid sz s = Inr (r, s') \<and> pending_ok s' i"
    using assms(2,3) m
    by (auto simp: sw_malloc_private_def pending_ok_def malloc_post_def fresh_area_def set_heap_def
        add_pending_def word_gt_0)
next
  have "free_post (buddy_heap s i) (buddy_free p (buddy_heap s i)) p"
    using buddy_free_spec [OF assms(1)] by simp
  then show "pending_ok (sw_free_private hid p s) i
      \<longleftrightarrow> search_for_allocated_block p (buddy_heap s i) \<noteq> None"
    using assms(2,3) search_for_allocated_block_Some [of p "buddy_heap s i"]
    by (cases "search_for_allocated_block p (buddy_heap s i)")
      (auto simp: sw_free_private_def pending_ok_def free_post_def set_heap_def add_pending_def
        length_remove1 dest: int_length_minus)
qed

theorem pending_count_exact_witness:
  "\<not> pending_ok (sw_free_private 7 0x55 one_heap_state) 0"
proof -
  have "buddy_heap one_heap_state 0 = one_block_heap" "pending_ok one_heap_state 0"
    by (simp_all add: one_heap_state_def pending_ok_def one_block_heap_def)
  then show ?thesis
    using pending_count_exact [of one_heap_state 0 7 100 "0x55"] one_block_heap_inv
    by (simp add: one_heap_state_find MAX_BLOCK_SIZE_def search_for_allocated_block_def)
      (simp add: one_block_heap_def)
qed

section \<open>All heaps\<close>

definition heaps_ok :: "buddy_state \<Rightarrow> bool" where
  "heaps_ok s \<longleftrightarrow> (\<forall>i<NUM_OF_HEAPS. buddy_inv (buddy_heap s i))"

lemma sw_malloc_private_ok:
  assumes ok: "heaps_ok s" and sz: "unat sz \<le> MAX_BLOCK_SIZE"
  shows "\<exists>p s'. sw_malloc_private hid sz s = Inr (p, s') \<and> heaps_ok s'"
proof (cases "find_heap hid s")
  case None
  then show ?thesis using ok by (simp add: sw_malloc_private_def)
next
  case (Some i)
  then have i: "i < NUM_OF_HEAPS" using find_heap_Some by blast
  then obtain r h where "sw_buddy_malloc sz (buddy_heap s i) = Inr (r, h)" "buddy_inv h"
    using sw_buddy.alloc_law [of "buddy_heap s i" sz] ok sz by (auto simp: heaps_ok_def)
  then show ?thesis
    using Some ok by (auto simp: sw_malloc_private_def heaps_ok_def set_heap_def add_pending_def)
qed

lemma sw_free_private_ok: "heaps_ok s \<Longrightarrow> heaps_ok (sw_free_private hid p s)"
  using sw_buddy.release_law
  by (auto simp: sw_free_private_def heaps_ok_def set_heap_def add_pending_def split: option.splits
      dest: find_heap_Some)

end
