(* ===== verification/PageTable.thy ===== *)
theory PageTable
  imports SwBuddyInv
begin

text \<open>
  The secure world's first-level page table (\<open>arch/arm/armv7/page_table.c\<close>).

  The state holds the 4096 descriptors, the reference counts of the shared (non-secure)
  sections and the heaps, because a reference node is allocated on the kernel's common heap.
  A reference is keyed by the address of the descriptor it counts. Loops over address ranges
  are partial functions: they end because the callers check the alignment of the size.
\<close>

section \<open>Constants, descriptors and state\<close>

definition SECTION_SIZE :: u32 where "SECTION_SIZE = 0x100000"
definition SECTION_BASE_MASK :: u32 where "SECTION_BASE_MASK = 0xfff00000"
definition L1_TYPE_MASK :: u32 where "L1_TYPE_MASK = 3"
definition L1_TYPE_FAULT :: u32 where "L1_TYPE_FAULT = 0"
definition L1_TYPE_SECTION :: u32 where "L1_TYPE_SECTION = 2"
definition L1_SECTION_B_SHIFT :: nat where "L1_SECTION_B_SHIFT = 2"
definition L1_SECTION_C_SHIFT :: nat where "L1_SECTION_C_SHIFT = 3"
definition L1_SECTION_XN_SHIFT :: nat where "L1_SECTION_XN_SHIFT = 4"
definition L1_DOMAIN_SHIFT :: nat where "L1_DOMAIN_SHIFT = 5"
definition L1_SECTION_AP_SHIFT :: nat where "L1_SECTION_AP_SHIFT = 10"
definition L1_SECTION_TEX_SHIFT :: nat where "L1_SECTION_TEX_SHIFT = 12"
definition L1_SECTION_AP2_SHIFT :: nat where "L1_SECTION_AP2_SHIFT = 15"
definition L1_SECTION_S_SHIFT :: nat where "L1_SECTION_S_SHIFT = 16"
definition L1_SECTION_NG_SHIFT :: nat where "L1_SECTION_NG_SHIFT = 17"
definition L1_SECTION_NS_SHIFT :: nat where "L1_SECTION_NS_SHIFT = 19"
definition L1_SECTION_NS_IDX_MASK :: u32 where
  "L1_SECTION_NS_IDX_MASK = push_bit L1_SECTION_NS_SHIFT 1"

lemmas l1_shifts = L1_SECTION_B_SHIFT_def L1_SECTION_C_SHIFT_def L1_SECTION_XN_SHIFT_def
  L1_DOMAIN_SHIFT_def L1_SECTION_AP_SHIFT_def L1_SECTION_TEX_SHIFT_def L1_SECTION_AP2_SHIFT_def
  L1_SECTION_S_SHIFT_def L1_SECTION_NG_SHIFT_def L1_SECTION_NS_SHIFT_def

lemmas l1_types = L1_TYPE_MASK_def L1_TYPE_FAULT_def L1_TYPE_SECTION_def

text \<open>\<open>enum mem_access_ctrl\<close>, as the value of the three-bit field \<open>ap\<close>.\<close>

definition PRIV_RW_USR_NO :: "3 word" where "PRIV_RW_USR_NO = 1"
definition PRIV_RW_USR_RW :: "3 word" where "PRIV_RW_USR_RW = 3"

record cpu_section =
  va :: va_t
  pa :: pa_t
  ns :: "1 word"
  ng :: "1 word"
  s_bit :: "1 word"
  tex :: "3 word"
  ap :: "3 word"
  dom :: "4 word"
  xn :: "1 word"
  c_bit :: "1 word"
  b_bit :: "1 word"

record sw_page_ref =
  node :: u32
  l1_pte :: u32
  ref_cnt :: u32

record pt_state =
  pgd :: "nat \<Rightarrow> u32"
  ptd_base :: u32
  page_ref_list :: "sw_page_ref list"
  heap :: buddy_state

definition l1_index :: "va_t \<Rightarrow> nat" where
  "l1_index v = unat (drop_bit 20 v)"

definition pte_addr :: "pt_state \<Rightarrow> nat \<Rightarrow> u32" where
  "pte_addr s i = ptd_base s + of_nat (4 * i)"

definition set_pte :: "nat \<Rightarrow> u32 \<Rightarrow> pt_state \<Rightarrow> pt_state" where
  "set_pte i w s = s\<lparr>pgd := (pgd s)(i := w)\<rparr>"

section \<open>References of shared sections\<close>

definition find_ref :: "u32 \<Rightarrow> pt_state \<Rightarrow> sw_page_ref option" where
  "find_ref k s = find (\<lambda>r. l1_pte r = k) (page_ref_list s)"

fun update_ref :: "u32 \<Rightarrow> u32 \<Rightarrow> sw_page_ref list \<Rightarrow> sw_page_ref list" where
  "update_ref k n [] = []"
| "update_ref k n (r # rs) =
     (if l1_pte r = k then r\<lparr>ref_cnt := n\<rparr> # rs else r # update_ref k n rs)"

definition set_ref :: "u32 \<Rightarrow> u32 \<Rightarrow> pt_state \<Rightarrow> pt_state" where
  "set_ref k n s = s\<lparr>page_ref_list := update_ref k n (page_ref_list s)\<rparr>"

definition SIZEOF_PAGE_REF :: u32 where "SIZEOF_PAGE_REF = 16"

definition page_ref_add :: "u32 \<Rightarrow> pt_state \<Rightarrow> panic + (int \<times> pt_state)" where
  "page_ref_add k s =
     (case find_ref k s of
        Some r \<Rightarrow> Inr (OTZ_OK, set_ref k (ref_cnt r + 1) s)
      | None \<Rightarrow>
          (case sw_malloc_private COMMON_HEAP_ID SIZEOF_PAGE_REF (heap s) of
             Inl e \<Rightarrow> Inl e
           | Inr (p, hs) \<Rightarrow>
               if p = 0 then Inr (OTZ_EFAIL, s\<lparr>heap := hs\<rparr>)
               else Inr (OTZ_OK, s\<lparr>heap := hs, page_ref_list :=
                      page_ref_list s @ [\<lparr>node = p, l1_pte = k, ref_cnt = 0 + 1\<rparr>]\<rparr>)))"

text \<open>The count is read as a signed \<open>int\<close>; a missing reference gives \<open>OTZ_EFAIL\<close>.\<close>

definition page_ref_release :: "u32 \<Rightarrow> pt_state \<Rightarrow> int \<times> pt_state" where
  "page_ref_release k s =
     (case find_ref k s of
        None \<Rightarrow> (OTZ_EFAIL, s)
      | Some r \<Rightarrow>
          let n = ref_cnt r - 1; s1 = set_ref k n s
          in (sint n,
              if n = 0
              then s1\<lparr>page_ref_list := remove1 (r\<lparr>ref_cnt := n\<rparr>) (page_ref_list s1),
                     heap := sw_free_private COMMON_HEAP_ID (node r) (heap s1)\<rparr>
              else s1))"

section \<open>One section\<close>

definition section_desc :: "cpu_section \<Rightarrow> u32" where
  "section_desc e =
     (pa e AND SECTION_BASE_MASK) OR L1_TYPE_SECTION
     OR push_bit L1_DOMAIN_SHIFT (ucast (dom e))
     OR push_bit L1_SECTION_B_SHIFT (ucast (b_bit e))
     OR push_bit L1_SECTION_C_SHIFT (ucast (c_bit e))
     OR push_bit L1_SECTION_TEX_SHIFT (ucast (tex e))
     OR push_bit L1_SECTION_XN_SHIFT (ucast (xn e))
     OR push_bit L1_SECTION_AP_SHIFT (ucast (ap e) AND 3)
     OR push_bit L1_SECTION_AP2_SHIFT (drop_bit 2 (ucast (ap e)) AND 1)
     OR push_bit L1_SECTION_S_SHIFT (ucast (s_bit e))
     OR push_bit L1_SECTION_NG_SHIFT (ucast (ng e))
     OR push_bit L1_SECTION_NS_SHIFT (ucast (ns e))"

definition l1_type :: "u32 \<Rightarrow> u32" where
  "l1_type w = w AND L1_TYPE_MASK"

definition map_section_entry :: "cpu_section \<Rightarrow> pt_state \<Rightarrow> int \<times> pt_state" where
  "map_section_entry e s =
     (let i = l1_index (va e); w = pgd s i
      in if l1_type w = L1_TYPE_FAULT then (0, set_pte i (section_desc e) s)
         else if l1_type w = L1_TYPE_SECTION then (0, s)
         else (- 1, s))"

text \<open>The result of \<open>page_ref_add\<close> is not looked at.\<close>

definition map_ns_section_entry :: "cpu_section \<Rightarrow> pt_state \<Rightarrow> panic + (int \<times> pt_state)" where
  "map_ns_section_entry e s =
     (let i = l1_index (va e); w = pgd s i
      in if l1_type w = L1_TYPE_FAULT
         then map_sum id (\<lambda>(_, s'). (0, s')) (page_ref_add (pte_addr s i) (set_pte i (section_desc e) s))
         else if l1_type w = L1_TYPE_SECTION
         then map_sum id (\<lambda>(_, s'). (0, s')) (page_ref_add (pte_addr s i)
                (if (w AND L1_SECTION_NS_IDX_MASK) = 0
                 then set_pte i (w OR push_bit L1_SECTION_NS_SHIFT 1) s else s))
         else Inr (- 1, s))"

definition unmap_section_entry :: "va_t \<Rightarrow> pt_state \<Rightarrow> int \<times> pt_state" where
  "unmap_section_entry v s =
     (let i = l1_index v
      in if l1_type (pgd s i) = L1_TYPE_SECTION then (0, set_pte i 0 s) else (0, s))"

definition unmap_ns_section_entry :: "va_t \<Rightarrow> pt_state \<Rightarrow> int \<times> pt_state" where
  "unmap_ns_section_entry v s =
     (let i = l1_index v
      in if l1_type (pgd s i) = L1_TYPE_SECTION
         then (case page_ref_release (pte_addr s i) s of
                 (n, s1) \<Rightarrow>
                   (0, if n = 0 \<and> (pgd s1 i AND L1_SECTION_NS_IDX_MASK) \<noteq> 0
                       then set_pte i 0 s1 else s1))
         else (0, s))"

section \<open>Descriptors of the callers\<close>

definition SECURE_ACCESS_DOMAIN :: "4 word" where "SECURE_ACCESS_DOMAIN = 0"
definition L1_EXECUTE_ALLOW :: "1 word" where "L1_EXECUTE_ALLOW = 0"
definition L1_EXECUTE_NEVER :: "1 word" where "L1_EXECUTE_NEVER = 1"

definition map_to_secure :: "pa_t \<Rightarrow> va_t \<Rightarrow> pt_state \<Rightarrow> int \<times> pt_state" where
  "map_to_secure phy_addr va_addr =
     map_section_entry \<lparr>va = va_addr, pa = phy_addr, ns = 0, ng = 1, s_bit = 0, tex = 1,
       ap = PRIV_RW_USR_RW, dom = SECURE_ACCESS_DOMAIN, xn = L1_EXECUTE_ALLOW, c_bit = 1, b_bit = 1\<rparr>"

text \<open>
  \<open>__map_to_ns\<close> maps a non-secure address to itself; \<open>map_to_ns\<close> reaches it through the
  system call of the protected kernel. The result carries \<open>*va_addr\<close>.
\<close>

definition ns_section :: "pa_t \<Rightarrow> cpu_section" where
  "ns_section phy_addr = \<lparr>va = phy_addr, pa = phy_addr, ns = 1, ng = 0, s_bit = 0, tex = 1,
     ap = PRIV_RW_USR_RW, dom = SECURE_ACCESS_DOMAIN, xn = L1_EXECUTE_ALLOW, c_bit = 1, b_bit = 1\<rparr>"

definition map_to_ns :: "pa_t \<Rightarrow> pt_state \<Rightarrow> panic + (int \<times> va_t option \<times> pt_state)" where
  "map_to_ns phy_addr s =
     map_sum id (\<lambda>(r, s'). if r = 0 then (0, Some (va (ns_section phy_addr)), s') else (- 1, None, s'))
       (map_ns_section_entry (ns_section phy_addr) s)"

definition unmap_from_secure :: "va_t \<Rightarrow> pt_state \<Rightarrow> int \<times> pt_state" where
  "unmap_from_secure = unmap_section_entry"

definition unmap_from_ns :: "va_t \<Rightarrow> pt_state \<Rightarrow> int \<times> pt_state" where
  "unmap_from_ns = unmap_ns_section_entry"

section \<open>Ranges\<close>

partial_function (option) map_range ::
  "cpu_section \<Rightarrow> va_t \<Rightarrow> pa_t \<Rightarrow> u32 \<Rightarrow> pt_state \<Rightarrow> pt_state option" where
  "map_range e v p sz s =
     (if sz \<noteq> 0
      then map_range e (v + SECTION_SIZE) (p + SECTION_SIZE) (sz - SECTION_SIZE)
             (snd (map_section_entry (e\<lparr>va := v, pa := p\<rparr>) s))
      else Some s)"

definition section_aligned :: "u32 \<Rightarrow> bool" where
  "section_aligned x = ((x AND (SECTION_SIZE - 1)) = 0)"

definition map_sections ::
  "cpu_section \<Rightarrow> va_t \<Rightarrow> pa_t \<Rightarrow> u32 \<Rightarrow> pt_state \<Rightarrow> (int \<times> pt_state) option" where
  "map_sections e v p sz s =
     (if \<not> section_aligned sz \<or> \<not> section_aligned v \<or> \<not> section_aligned p then Some (- 1, s)
      else map_option (\<lambda>s'. (0, s')) (map_range e v p sz s))"

definition map_device :: "va_t \<Rightarrow> pa_t \<Rightarrow> u32 \<Rightarrow> pt_state \<Rightarrow> (int \<times> pt_state) option" where
  "map_device v p sz = map_sections
     \<lparr>va = v, pa = p, ns = 0, ng = 0, s_bit = 0, tex = 0, ap = PRIV_RW_USR_NO,
      dom = SECURE_ACCESS_DOMAIN, xn = L1_EXECUTE_NEVER, c_bit = 0, b_bit = 1\<rparr> v p sz"

definition map_user_access_device :: "va_t \<Rightarrow> pa_t \<Rightarrow> u32 \<Rightarrow> pt_state \<Rightarrow> (int \<times> pt_state) option" where
  "map_user_access_device v p sz = map_sections
     \<lparr>va = v, pa = p, ns = 0, ng = 0, s_bit = 0, tex = 0, ap = PRIV_RW_USR_RW,
      dom = SECURE_ACCESS_DOMAIN, xn = L1_EXECUTE_NEVER, c_bit = 0, b_bit = 1\<rparr> v p sz"

record devmap =
  dv_va :: va_t
  dv_pa :: pa_t
  dv_size :: u32

text \<open>
  The device tables end at an entry whose first word, the virtual address, is zero. The
  result of each \<open>map_device\<close> is ignored.
\<close>

fun map_table ::
  "(va_t \<Rightarrow> pa_t \<Rightarrow> u32 \<Rightarrow> pt_state \<Rightarrow> (int \<times> pt_state) option) \<Rightarrow> devmap list \<Rightarrow>
   pt_state \<Rightarrow> pt_state option" where
  "map_table f [] s = Some s"
| "map_table f (d # ds) s =
     (if dv_va d \<noteq> 0
      then Option.bind (f (dv_va d) (dv_pa d) (dv_size d) s) (\<lambda>(_, s'). map_table f ds s')
      else Some s)"

definition map_device_table :: "devmap list \<Rightarrow> pt_state \<Rightarrow> pt_state option" where
  "map_device_table = map_table map_device"

definition map_user_access_device_table :: "devmap list \<Rightarrow> pt_state \<Rightarrow> pt_state option" where
  "map_user_access_device_table = map_table map_user_access_device"

definition ptf_to_ap :: "u32 \<Rightarrow> 3 word" where
  "ptf_to_ap x = ucast (x AND 7)"

definition ptf_to_xn :: "u32 \<Rightarrow> 1 word" where
  "ptf_to_xn x = ucast (drop_bit 3 (NOT x AND 8))"

definition map_secure_memory ::
  "va_t \<Rightarrow> pa_t \<Rightarrow> u32 \<Rightarrow> u32 \<Rightarrow> pt_state \<Rightarrow> (int \<times> pt_state) option" where
  "map_secure_memory v p sz ptf = map_sections
     \<lparr>va = v, pa = p, ns = 0, ng = 0, s_bit = 0, tex = 1, ap = ptf_to_ap ptf,
      dom = SECURE_ACCESS_DOMAIN, xn = ptf_to_xn ptf, c_bit = 1, b_bit = 1\<rparr> v p sz"

partial_function (option) unmap_range :: "va_t \<Rightarrow> u32 \<Rightarrow> pt_state \<Rightarrow> pt_state option" where
  "unmap_range v sz s =
     (if sz \<noteq> 0
      then unmap_range (v + SECTION_SIZE) (sz - SECTION_SIZE) (snd (unmap_section_entry v s))
      else Some s)"

definition unmap_secure_memory :: "va_t \<Rightarrow> u32 \<Rightarrow> pt_state \<Rightarrow> (int \<times> pt_state) option" where
  "unmap_secure_memory v sz s =
     (if \<not> section_aligned sz \<or> \<not> section_aligned v then Some (- 1, s)
      else map_option (\<lambda>s'. (0, s')) (unmap_range v sz s))"

partial_function (option) map_ns_range ::
  "cpu_section \<Rightarrow> va_t \<Rightarrow> pa_t \<Rightarrow> u32 \<Rightarrow> pt_state \<Rightarrow> (panic + pt_state) option" where
  "map_ns_range e v p sz s =
     (if sz \<noteq> 0
      then (case map_ns_section_entry (e\<lparr>va := v, pa := p\<rparr>) s of
              Inl x \<Rightarrow> Some (Inl x)
            | Inr (_, s') \<Rightarrow>
                map_ns_range e (v + SECTION_SIZE) (p + SECTION_SIZE) (sz - SECTION_SIZE) s')
      else Some (Inr s))"

definition map_nsmemsect_normal :: "va_t \<Rightarrow> pa_t \<Rightarrow> u32 \<Rightarrow> pt_state \<Rightarrow> (int \<times> pt_state) outcome" where
  "map_nsmemsect_normal v p sz s =
     (if \<not> section_aligned sz \<or> \<not> section_aligned v \<or> \<not> section_aligned p then returns (- 1, s)
      else map_option (map_sum id (\<lambda>s'. (0, s')))
        (map_ns_range \<lparr>va = v, pa = p, ns = 1, ng = 1, s_bit = 0, tex = 1, ap = PRIV_RW_USR_NO,
           dom = SECURE_ACCESS_DOMAIN, xn = L1_EXECUTE_NEVER, c_bit = 1, b_bit = 1\<rparr> v p sz s))"

partial_function (option) unmap_ns_range :: "va_t \<Rightarrow> u32 \<Rightarrow> pt_state \<Rightarrow> pt_state option" where
  "unmap_ns_range v sz s =
     (if sz \<noteq> 0
      then unmap_ns_range (v + SECTION_SIZE) (sz - SECTION_SIZE) (snd (unmap_ns_section_entry v s))
      else Some s)"

definition unmap_nsmemsect_normal :: "va_t \<Rightarrow> u32 \<Rightarrow> pt_state \<Rightarrow> (int \<times> pt_state) option" where
  "unmap_nsmemsect_normal v sz s =
     (if \<not> section_aligned sz \<or> \<not> section_aligned v then Some (- 1, s)
      else map_option (\<lambda>s'. (0, s')) (unmap_ns_range v sz s))"

section \<open>The descriptor holds every field\<close>

lemma base_mask: "SECTION_BASE_MASK = push_bit 20 (mask 12)"
  by (simp add: SECTION_BASE_MASK_def mask_eq_exp_minus_1 push_bit_eq_mult)
lemma l1_index_less: "l1_index v < 4096"
proof -
  have lt: "unat v < 2 ^ 32" using unsigned_less [of v] by simp
  then have "drop_bit 20 (unat v) < 2 ^ 12" unfolding drop_bit_eq_div by simp
  moreover have "take_bit 32 (unat v) = unat v" by (rule take_bit_nat_eq_self) (use lt in simp)
  ultimately show ?thesis unfolding l1_index_def unsigned_drop_bit_eq by simp
qed

lemma bit_field1:
  "k < 32 \<Longrightarrow> bit (push_bit k (ucast (w::1 word)) :: u32) n \<longleftrightarrow> n = k \<and> bit w 0"
  using bit_imp_le_length [of w "n - k"] by (auto simp: bit_simps)
lemma bit_field_dom:
  "bit (push_bit 5 (ucast (w::4 word)) :: u32) n \<longleftrightarrow> 5 \<le> n \<and> n < 9 \<and> bit w (n - 5)"
  using bit_imp_le_length [of w "n - 5"] by (auto simp: bit_simps)

lemma bit_field_tex:
  "bit (push_bit 12 (ucast (w::3 word)) :: u32) n \<longleftrightarrow> 12 \<le> n \<and> n < 15 \<and> bit w (n - 12)"
  using bit_imp_le_length [of w "n - 12"] by (auto simp: bit_simps)

lemma bit_ap_low:
  "bit (push_bit 10 (ucast (w::3 word) AND 3) :: u32) n \<longleftrightarrow> 10 \<le> n \<and> n < 12 \<and> bit w (n - 10)"
proof -
  have m: "(3::u32) = mask 2" by (simp add: mask_eq_exp_minus_1)
  show ?thesis unfolding m by (auto simp: bit_simps)
qed
lemma bit_ap_high:
  "bit (push_bit 15 (drop_bit 2 (ucast (w::3 word)) AND 1) :: u32) n \<longleftrightarrow> n = 15 \<and> bit w 2"
proof -
  have "bit (ucast w :: u32) 2 = bit w 2" by (simp add: bit_unsigned_iff)
  then show ?thesis
    unfolding bit_push_bit_iff bit_and_iff bit_1_iff bit_drop_bit_eq by (auto simp: numeral_2_eq_2)
qed
lemma bit_base: "bit (w AND SECTION_BASE_MASK) n \<longleftrightarrow> 20 \<le> n \<and> bit (w::u32) n"
  unfolding base_mask using bit_imp_le_length [of w n] by (auto simp: bit_simps)
lemma bit_two: "bit (2::u32) n \<longleftrightarrow> n = 1" using bit_exp_iff [where 'a=u32, of 1 n] by auto

lemma bit_section_desc:
  "bit (section_desc e) n \<longleftrightarrow>
     20 \<le> n \<and> bit (pa e) n \<or> n = 1 \<or> 5 \<le> n \<and> n < 9 \<and> bit (dom e) (n - 5) \<or>
     n = 2 \<and> bit (b_bit e) 0 \<or> n = 3 \<and> bit (c_bit e) 0 \<or> 12 \<le> n \<and> n < 15 \<and> bit (tex e) (n - 12) \<or>
     n = 4 \<and> bit (xn e) 0 \<or> 10 \<le> n \<and> n < 12 \<and> bit (ap e) (n - 10) \<or> n = 15 \<and> bit (ap e) 2 \<or>
     n = 16 \<and> bit (s_bit e) 0 \<or> n = 17 \<and> bit (ng e) 0 \<or> n = 19 \<and> bit (ns e) 0"
  unfolding section_desc_def l1_types l1_shifts bit_or_iff bit_base bit_two bit_ap_low bit_ap_high
  by (subst bit_field1, simp)+ (simp only: bit_field_dom bit_field_tex)

lemma bit_three: "bit (3::u32) n \<longleftrightarrow> n < 2"
proof -
  have m: "(3::u32) = mask 2" by (simp add: mask_eq_exp_minus_1)
  show ?thesis unfolding m by (auto simp: bit_simps)
qed

lemma section_type: "l1_type (section_desc e) = L1_TYPE_SECTION"
proof (rule bit_eqI)
  fix n :: nat
  consider "n = 0" | "n = 1" | "2 \<le> n" by linarith
  then show "bit (l1_type (section_desc e)) n = bit L1_TYPE_SECTION n"
    unfolding l1_type_def l1_types bit_and_iff bit_three bit_two
    by cases (simp_all add: bit_section_desc)
qed

lemma section_base: "(section_desc e AND SECTION_BASE_MASK) = (pa e AND SECTION_BASE_MASK)"
  by (rule bit_eqI) (auto simp: bit_base bit_section_desc)

lemma section_fields:
  "ucast (drop_bit 2 (section_desc e)) = b_bit e"
  "ucast (drop_bit 3 (section_desc e)) = c_bit e"
  "ucast (drop_bit 4 (section_desc e)) = xn e"
  "ucast (drop_bit 16 (section_desc e)) = s_bit e"
  "ucast (drop_bit 17 (section_desc e)) = ng e"
  "ucast (drop_bit 19 (section_desc e)) = ns e"
  by (rule bit_eqI, simp add: bit_unsigned_iff bit_drop_bit_eq bit_section_desc)+

lemma section_dom: "ucast (drop_bit 5 (section_desc e)) = dom e"
  by (rule bit_eqI) (auto simp: bit_unsigned_iff bit_drop_bit_eq bit_section_desc)
lemma section_tex: "ucast (drop_bit 12 (section_desc e)) = tex e"
  by (rule bit_eqI) (auto simp: bit_unsigned_iff bit_drop_bit_eq bit_section_desc)
lemma section_ap: "ucast (drop_bit 10 (section_desc e) AND 3 OR push_bit 2 (drop_bit 15 (section_desc e) AND 1)) = ap e"
proof (rule bit_eqI)
  fix n assume "possible_bit TYPE(3 word) n"
  then have "n < 3" by simp
  then consider "n = 0" | "n = 1" | "n = 2" by linarith
  then show "bit (ucast (drop_bit 10 (section_desc e) AND 3 OR push_bit 2 (drop_bit 15 (section_desc e) AND 1)) :: 3 word) n = bit (ap e) n"
    by cases (simp_all add: bit_unsigned_iff bit_drop_bit_eq bit_section_desc bit_or_iff bit_and_iff bit_three bit_push_bit_iff bit_1_iff)
qed

end
