(* ===== verification/PageTableInv.thy ===== *)
theory PageTableInv
  imports PageTable
begin

text \<open>
  Properties of the page table model (\<open>PageTable\<close>): the shared sections are reference
  counted (\<open>refs_of\<close> is the abstract count of a section, \<open>pt_inv\<close> the invariant that ties it to
  the descriptors), and the range operations map and unmap exactly the sections of the range.
\<close>

section \<open>Reference counts\<close>

definition is_ns_section :: "u32 \<Rightarrow> bool" where
  "is_ns_section w \<longleftrightarrow> l1_type w = L1_TYPE_SECTION \<and> (w AND L1_SECTION_NS_IDX_MASK) \<noteq> 0"

definition ref_count :: "u32 \<Rightarrow> sw_page_ref list \<Rightarrow> nat" where
  "ref_count k rs = (case find (\<lambda>r. l1_pte r = k) rs of None \<Rightarrow> 0 | Some r \<Rightarrow> unat (ref_cnt r))"

definition refs_of :: "pt_state \<Rightarrow> nat \<Rightarrow> nat" where
  "refs_of s i = ref_count (pte_addr s i) (page_ref_list s)"

definition no_memory :: "pt_state \<Rightarrow> bool" where
  "no_memory s \<longleftrightarrow>
     (case sw_malloc_private COMMON_HEAP_ID SIZEOF_PAGE_REF (heap s) of
        Inl _ \<Rightarrow> False | Inr (p, _) \<Rightarrow> p = 0)"

definition refs_ok :: "sw_page_ref list \<Rightarrow> bool" where
  "refs_ok rs \<longleftrightarrow> distinct (List.map l1_pte rs) \<and> (\<forall>r\<in>set rs. ref_cnt r \<noteq> 0)"

definition pt_inv :: "pt_state \<Rightarrow> bool" where
  "pt_inv s \<longleftrightarrow> heaps_ok (heap s) \<and> refs_ok (page_ref_list s) \<and>
     (\<forall>i<4096. refs_of s i > 0 \<longrightarrow> is_ns_section (pgd s i))"

lemma l1_pte_update [simp]: "List.map l1_pte (update_ref k n rs) = List.map l1_pte rs"
  by (induction rs) auto

lemma ref_count_Nil [simp]: "ref_count k [] = 0"
  by (simp add: ref_count_def)

lemma ref_count_Cons [simp]:
  "ref_count k (r # rs) = (if l1_pte r = k then unat (ref_cnt r) else ref_count k rs)"
  by (simp add: ref_count_def)

lemma ref_count_update:
  "k \<in> l1_pte ` set rs \<Longrightarrow>
   ref_count j (update_ref k n rs) = (if j = k then unat n else ref_count j rs)"
  by (induction rs) auto

lemma ref_count_append:
  "ref_count j (rs @ [r]) =
     (if j \<in> l1_pte ` set rs then ref_count j rs else if l1_pte r = j then unat (ref_cnt r) else 0)"
  by (induction rs) auto

lemma ref_count_absent: "j \<notin> l1_pte ` set rs \<Longrightarrow> ref_count j rs = 0"
  by (induction rs) auto

lemma find_ref_Some:
  "find (\<lambda>r. l1_pte r = k) rs = Some r \<Longrightarrow> r \<in> set rs \<and> l1_pte r = k"
  by (auto simp: find_Some_iff)

lemma ref_count_pos_iff:
  "refs_ok rs \<Longrightarrow> 0 < ref_count k rs \<longleftrightarrow> k \<in> l1_pte ` set rs"
  by (induction rs) (auto simp: refs_ok_def unat_gt_0)

lemma update_ref_set:
  "distinct (List.map l1_pte rs) \<Longrightarrow> r \<in> set rs \<Longrightarrow> l1_pte r = k \<Longrightarrow>
   set (update_ref k n rs) = insert (r\<lparr>ref_cnt := n\<rparr>) (set rs - {r})"
  by (induction rs) (auto simp: rev_image_eqI)

lemma refs_ok_update:
  assumes "refs_ok rs" "find (\<lambda>r. l1_pte r = k) rs = Some r" "n \<noteq> 0"
  shows "refs_ok (update_ref k n rs)"
  using assms find_ref_Some [OF assms(2)] update_ref_set [of rs r k n]
  by (auto simp: refs_ok_def)

lemma release_last_filter:
  "distinct (List.map l1_pte rs) \<Longrightarrow> find (\<lambda>r. l1_pte r = k) rs = Some r \<Longrightarrow>
   remove1 (r\<lparr>ref_cnt := n\<rparr>) (update_ref k n rs) = List.filter (\<lambda>r. l1_pte r \<noteq> k) rs"
proof (induction rs)
  case (Cons a rs)
  show ?case
  proof (cases "l1_pte a = k")
    case True
    then have "List.filter (\<lambda>r. l1_pte r \<noteq> k) rs = rs"
      using Cons.prems(1) by (intro filter_True) (auto simp: image_iff)
    then show ?thesis using True Cons.prems(2) by simp
  next
    case False
    then have "a \<noteq> r\<lparr>ref_cnt := n\<rparr>" using Cons.prems(2) find_ref_Some by fastforce
    then show ?thesis using False Cons by simp
  qed
qed simp

lemma refs_ok_filter: "refs_ok rs \<Longrightarrow> refs_ok (List.filter P rs)"
  by (simp add: refs_ok_def distinct_map_filter)

lemma ref_count_filter:
  "ref_count j (List.filter (\<lambda>r. l1_pte r \<noteq> k) rs) = (if j = k then 0 else ref_count j rs)"
  by (induction rs) auto

lemma pte_addr_inject:
  assumes "i < 4096" "j < 4096"
  shows "pte_addr s i = pte_addr s j \<longleftrightarrow> i = j"
proof
  assume "pte_addr s i = pte_addr s j"
  then have "unat (of_nat (4 * i) :: u32) = unat (of_nat (4 * j) :: u32)"
    by (simp only: pte_addr_def add_left_cancel)
  moreover have "unat (of_nat (4 * n) :: u32) = 4 * n" if "n < 4096" for n
    using that by (intro unat_of_nat_lt) simp
  ultimately show "i = j" using assms by simp
qed simp

section \<open>Mapping and unmapping one shared section\<close>

lemma page_ref_add_spec:
  assumes heaps: "heaps_ok (heap s)" and ok: "refs_ok (page_ref_list s)"
    and room: "ref_count k (page_ref_list s) < 2 ^ 32 - 1"
  shows "\<exists>r s'. page_ref_add k s = Inr (r, s') \<and> heaps_ok (heap s') \<and> refs_ok (page_ref_list s') \<and>
    pgd s' = pgd s \<and> ptd_base s' = ptd_base s \<and>
    (\<forall>j. ref_count j (page_ref_list s') =
      (if j = k \<and> \<not> (ref_count k (page_ref_list s) = 0 \<and> no_memory s)
       then ref_count k (page_ref_list s) + 1 else ref_count j (page_ref_list s)))"
proof (cases "find_ref k s")
  case (Some r)
  then have f: "find (\<lambda>r. l1_pte r = k) (page_ref_list s) = Some r" by (simp add: find_ref_def)
  then have k: "k \<in> l1_pte ` set (page_ref_list s)" using find_ref_Some by blast
  have c: "ref_count k (page_ref_list s) = unat (ref_cnt r)" using f by (simp add: ref_count_def)
  have u: "unat (ref_cnt r + 1) = unat (ref_cnt r) + 1"
    using room c by (subst unat_plus_lt) simp_all
  then have nz: "ref_cnt r + 1 \<noteq> 0" by (metis add_is_0 unat_0 zero_neq_one)
  have pos: "0 < ref_count k (page_ref_list s)" using ref_count_pos_iff [OF ok] k by simp
  show ?thesis
    using Some heaps refs_ok_update [OF ok f nz] pos
    by (simp add: page_ref_add_def set_ref_def ref_count_update [OF k] u c)
next
  case None
  then have k: "k \<notin> l1_pte ` set (page_ref_list s)"
    by (auto simp: find_ref_def find_None_iff)
  obtain p hs where m: "sw_malloc_private COMMON_HEAP_ID SIZEOF_PAGE_REF (heap s) = Inr (p, hs)"
      "heaps_ok hs"
    using sw_malloc_private_ok [OF heaps, of SIZEOF_PAGE_REF COMMON_HEAP_ID]
    by (auto simp: SIZEOF_PAGE_REF_def MAX_BLOCK_SIZE_def)
  have "refs_ok (page_ref_list s @ [\<lparr>node = p, l1_pte = k, ref_cnt = 1\<rparr>])"
    using ok k by (auto simp: refs_ok_def)
  then show ?thesis
    using None m ok k ref_count_absent [OF k] ref_count_absent [of _ "page_ref_list s"]
    by (auto simp: page_ref_add_def no_memory_def ref_count_append)
qed

lemma page_ref_release_spec:
  assumes ok: "refs_ok (page_ref_list s)" and heaps: "heaps_ok (heap s)"
    and r: "page_ref_release k s = (n, s')"
  shows "heaps_ok (heap s') \<and> refs_ok (page_ref_list s') \<and> pgd s' = pgd s \<and> ptd_base s' = ptd_base s \<and>
    (n = 0 \<longleftrightarrow> ref_count k (page_ref_list s) = 1) \<and>
    (\<forall>j. ref_count j (page_ref_list s') =
      (if j = k then ref_count k (page_ref_list s) - 1 else ref_count j (page_ref_list s)))"
proof (cases "find_ref k s")
  case None
  then have "ref_count k (page_ref_list s) = 0"
    by (simp add: find_ref_def ref_count_def)
  then show ?thesis
    using None r ok heaps by (auto simp: page_ref_release_def OTZ_EFAIL_def)
next
  case (Some x)
  then have f: "find (\<lambda>r. l1_pte r = k) (page_ref_list s) = Some x" by (simp add: find_ref_def)
  then have k: "k \<in> l1_pte ` set (page_ref_list s)" "x \<in> set (page_ref_list s)"
    using find_ref_Some by blast+
  have c: "ref_count k (page_ref_list s) = unat (ref_cnt x)" using f by (simp add: ref_count_def)
  have nz: "ref_cnt x \<noteq> 0" using ok k by (auto simp: refs_ok_def)
  then have u: "unat (ref_cnt x - 1) = unat (ref_cnt x) - 1"
    by (metis One_nat_def unat_minus_one)
  have z: "ref_cnt x - 1 = 0 \<longleftrightarrow> unat (ref_cnt x) = 1"
    using nz u by (metis One_nat_def diff_is_0_eq' diff_self_eq_0 le_refl unat_1 unat_eq_0 word_unat_eq_iff eq_iff_diff_eq_0)
  have d: "distinct (List.map l1_pte (page_ref_list s))" using ok by (simp add: refs_ok_def)
  show ?thesis
  proof (cases "ref_cnt x - 1 = 0")
    case True
    then show ?thesis
      using r Some c z heaps refs_ok_filter [OF ok] sw_free_private_ok
      by (auto simp: page_ref_release_def set_ref_def Let_def release_last_filter [OF d f]
          ref_count_filter)
  next
    case False
    then show ?thesis
      using r Some c z heaps refs_ok_update [OF ok f False] u
      by (auto simp: page_ref_release_def set_ref_def Let_def ref_count_update [OF k(1)] sint_eq_0_iff)
  qed
qed

text \<open>Setting one descriptor leaves the references as they are.\<close>

lemma set_pte_sel [simp]:
  "page_ref_list (set_pte i w s) = page_ref_list s" "heap (set_pte i w s) = heap s"
  "ptd_base (set_pte i w s) = ptd_base s" "pgd (set_pte i w s) = (pgd s)(i := w)"
  "pte_addr (set_pte i w s) = pte_addr s" "no_memory (set_pte i w s) = no_memory s"
  by (simp_all add: set_pte_def pte_addr_def fun_eq_iff no_memory_def)

lemma pte_addr_base: "ptd_base s' = ptd_base s \<Longrightarrow> pte_addr s' = pte_addr s"
  by (simp add: pte_addr_def fun_eq_iff)

lemma bit_ns_mask: "bit (push_bit L1_SECTION_NS_SHIFT (1::u32)) n \<longleftrightarrow> n = 19"
  using bit_exp_iff [where 'a=u32, of 19 n] by (auto simp: l1_shifts push_bit_eq_mult)

lemma bit_nonzero: "bit (w::u32) n \<Longrightarrow> w \<noteq> 0"
  by auto

lemma is_ns_desc: "ns e = 1 \<Longrightarrow> is_ns_section (section_desc e)"
proof -
  assume "ns e = 1"
  then have "bit (section_desc e AND L1_SECTION_NS_IDX_MASK) 19"
    unfolding L1_SECTION_NS_IDX_MASK_def bit_and_iff bit_ns_mask by (simp add: bit_section_desc)
  then show ?thesis unfolding is_ns_section_def section_type by (blast dest: bit_nonzero)
qed

lemma is_ns_or:
  assumes "l1_type w = L1_TYPE_SECTION"
  shows "is_ns_section (w OR push_bit L1_SECTION_NS_SHIFT 1)"
proof -
  let ?w = "w OR push_bit L1_SECTION_NS_SHIFT 1"
  have "bit (?w AND L1_SECTION_NS_IDX_MASK) 19"
    unfolding L1_SECTION_NS_IDX_MASK_def bit_and_iff bit_or_iff bit_ns_mask by simp
  then have "(?w AND L1_SECTION_NS_IDX_MASK) \<noteq> 0" by (rule bit_nonzero)
  moreover have "l1_type ?w = l1_type w"
    unfolding l1_type_def l1_types
    by (rule bit_eqI) (unfold bit_and_iff bit_or_iff bit_ns_mask bit_three, auto)
  ultimately show ?thesis using assms by (simp add: is_ns_section_def)
qed

definition mapped_word :: "cpu_section \<Rightarrow> u32 \<Rightarrow> u32" where
  "mapped_word e w =
     (if l1_type w = L1_TYPE_FAULT then section_desc e
      else if (w AND L1_SECTION_NS_IDX_MASK) = 0 then w OR push_bit L1_SECTION_NS_SHIFT 1 else w)"

lemma mapped_word_ns:
  assumes "l1_type w = L1_TYPE_FAULT \<or> l1_type w = L1_TYPE_SECTION" "ns e = 1"
  shows "is_ns_section (mapped_word e w)"
  using assms is_ns_desc is_ns_or by (auto simp: mapped_word_def is_ns_section_def l1_types)

text \<open>What one map does to the count and the descriptor of its section, and to nothing else.\<close>

definition map_ns_post :: "cpu_section \<Rightarrow> pt_state \<Rightarrow> pt_state \<Rightarrow> bool" where
  "map_ns_post e s s' \<longleftrightarrow> (let i = l1_index (va e) in
     pgd s' = (pgd s)(i := mapped_word e (pgd s i)) \<and> is_ns_section (pgd s' i) \<and>
     (\<forall>j<4096. refs_of s' j =
        (if j = i \<and> \<not> (refs_of s i = 0 \<and> no_memory s) then refs_of s i + 1 else refs_of s j)))"

lemma map_ns_spec:
  assumes inv: "pt_inv s" and ns: "ns e = 1" and room: "refs_of s (l1_index (va e)) < 2 ^ 32 - 1"
    and ty: "l1_type (pgd s (l1_index (va e))) = L1_TYPE_FAULT \<or>
      l1_type (pgd s (l1_index (va e))) = L1_TYPE_SECTION"
  shows "\<exists>s'. map_ns_section_entry e s = Inr (0, s') \<and> pt_inv s' \<and> map_ns_post e s s'"
proof -
  let ?i = "l1_index (va e)"
  let ?s1 = "set_pte ?i (mapped_word e (pgd s ?i)) s"
  have fs: "L1_TYPE_FAULT \<noteq> L1_TYPE_SECTION" by (simp add: l1_types)
  have same: "set_pte ?i (pgd s ?i) s = s" by (simp add: set_pte_def)
  have eq: "map_ns_section_entry e s =
      map_sum id (\<lambda>(_, s'). (0, s')) (page_ref_add (pte_addr s ?i) ?s1)"
    using ty fs by (auto simp: map_ns_section_entry_def mapped_word_def Let_def same)
  have h: "heaps_ok (heap ?s1)" "refs_ok (page_ref_list ?s1)"
      "ref_count (pte_addr s ?i) (page_ref_list ?s1) < 2 ^ 32 - 1"
    using inv room by (simp_all add: pt_inv_def refs_of_def)
  obtain r s' where s': "page_ref_add (pte_addr s ?i) ?s1 = Inr (r, s')" "heaps_ok (heap s')"
      "refs_ok (page_ref_list s')" "pgd s' = pgd ?s1" "ptd_base s' = ptd_base s"
      "\<forall>j. ref_count j (page_ref_list s') =
        (if j = pte_addr s ?i \<and> \<not> (ref_count (pte_addr s ?i) (page_ref_list s) = 0 \<and> no_memory s)
         then ref_count (pte_addr s ?i) (page_ref_list s) + 1 else ref_count j (page_ref_list s))"
    using page_ref_add_spec [OF h] by auto
  have post: "map_ns_post e s s'"
    using s' mapped_word_ns [OF ty ns]
    by (simp add: map_ns_post_def Let_def refs_of_def pte_addr_base [OF s'(5)] pte_addr_inject
        l1_index_less)
  have "is_ns_section (pgd s' j)" if "j < 4096" "0 < refs_of s' j" for j
    using post that inv by (auto simp: map_ns_post_def Let_def pt_inv_def split: if_splits)
  then have "pt_inv s'" using s' by (simp add: pt_inv_def)
  then show ?thesis using eq s'(1) post by simp
qed

definition unmap_ns_post :: "nat \<Rightarrow> pt_state \<Rightarrow> pt_state \<Rightarrow> bool" where
  "unmap_ns_post i s s' \<longleftrightarrow>
     pgd s' = (if refs_of s i = 1 then (pgd s)(i := 0) else pgd s) \<and>
     (\<forall>j<4096. refs_of s' j = (if j = i then refs_of s i - 1 else refs_of s j))"

lemma unmap_ns_spec:
  assumes inv: "pt_inv s"
  shows "\<exists>s'. unmap_ns_section_entry v s = (0, s') \<and> pt_inv s' \<and> unmap_ns_post (l1_index v) s s'"
proof (cases "l1_type (pgd s (l1_index v)) = L1_TYPE_SECTION")
  case False
  then have "refs_of s (l1_index v) = 0"
    using inv l1_index_less [of v] by (auto simp: pt_inv_def is_ns_section_def)
  then show ?thesis
    using False inv by (simp add: unmap_ns_section_entry_def Let_def unmap_ns_post_def)
next
  case True
  let ?i = "l1_index v"
  obtain n s1 where r: "page_ref_release (pte_addr s ?i) s = (n, s1)" by fastforce
  have ok: "refs_ok (page_ref_list s)" "heaps_ok (heap s)" using inv by (simp_all add: pt_inv_def)
  note sp = page_ref_release_spec [OF ok r]
  then have s1: "heaps_ok (heap s1)" "refs_ok (page_ref_list s1)" "pgd s1 = pgd s" "ptd_base s1 = ptd_base s"
      "n = 0 \<longleftrightarrow> refs_of s ?i = 1"
    by (simp_all add: refs_of_def)
  have s1c: "\<forall>j<4096. refs_of s1 j = (if j = ?i then refs_of s ?i - 1 else refs_of s j)"
    using sp by (simp add: refs_of_def pte_addr_base [OF s1(4)] pte_addr_inject l1_index_less)
  have ns: "refs_of s ?i = 1 \<Longrightarrow> (pgd s ?i AND L1_SECTION_NS_IDX_MASK) \<noteq> 0"
    using inv l1_index_less [of v] by (auto simp: pt_inv_def is_ns_section_def)
  define s2 where "s2 = (if refs_of s ?i = 1 then set_pte ?i 0 s1 else s1)"
  have eq: "unmap_ns_section_entry v s = (0, s2)"
    using True r s1 ns by (simp add: unmap_ns_section_entry_def Let_def s2_def)
  have post: "unmap_ns_post ?i s s2"
    using s1 s1c by (simp add: unmap_ns_post_def s2_def refs_of_def)
  have "is_ns_section (pgd s2 j)" if "j < 4096" "0 < refs_of s2 j" for j
    using post that inv by (auto simp: unmap_ns_post_def pt_inv_def split: if_splits)
  then have "pt_inv s2" using s1 by (simp add: pt_inv_def s2_def)
  then show ?thesis using eq post by blast
qed

section \<open>Sequences of map and unmap requests\<close>

datatype pt_op = MapNs pa_t | UnmapNs va_t | MapSecure pa_t va_t | UnmapSecure va_t

fun pt_exec :: "pt_state \<Rightarrow> pt_op \<Rightarrow> pt_state" where
  "pt_exec s (MapNs p) = (case map_to_ns p s of Inl _ \<Rightarrow> s | Inr (_, _, s') \<Rightarrow> s')"
| "pt_exec s (UnmapNs v) = snd (unmap_from_ns v s)"
| "pt_exec s (MapSecure p v) = snd (map_to_secure p v s)"
| "pt_exec s (UnmapSecure v) = snd (unmap_from_secure v s)"

text \<open>
  What the callers do: they never count past 32 bits, they do not share a page-table section,
  and they do not unmap a section as secure while it is shared.
\<close>

fun pt_ok :: "pt_state \<Rightarrow> pt_op \<Rightarrow> bool" where
  "pt_ok s (MapNs p) = (refs_of s (l1_index p) < 2 ^ 32 - 1 \<and>
     (l1_type (pgd s (l1_index p)) = L1_TYPE_FAULT \<or> l1_type (pgd s (l1_index p)) = L1_TYPE_SECTION))"
| "pt_ok s (UnmapNs v) = True"
| "pt_ok s (MapSecure p v) = True"
| "pt_ok s (UnmapSecure v) = (refs_of s (l1_index v) = 0)"

lemma map_to_ns_spec:
  assumes "pt_inv s" "pt_ok s (MapNs p)"
  shows "\<exists>s'. map_to_ns p s = Inr (0, Some p, s') \<and> pt_inv s' \<and> map_ns_post (ns_section p) s s'"
  using map_ns_spec [OF assms(1), of "ns_section p"] assms(2)
  by (auto simp: map_to_ns_def ns_section_def)

lemma refs_of_set_pte [simp]: "refs_of (set_pte i w s) = refs_of s"
  by (simp add: refs_of_def fun_eq_iff)

lemma fault_no_refs:
  "pt_inv s \<Longrightarrow> l1_type (pgd s (l1_index v)) = L1_TYPE_FAULT \<Longrightarrow> refs_of s (l1_index v) = 0"
  using l1_index_less [of v] by (auto simp: pt_inv_def is_ns_section_def l1_types)

lemma set_pte_inv: "pt_inv s \<Longrightarrow> refs_of s i = 0 \<Longrightarrow> pt_inv (set_pte i w s)"
  by (simp add: pt_inv_def)

interpretation pt_ops: op_contract pt_inv pt_ok pt_exec
proof unfold_locales
  fix s c assume inv: "pt_inv s" and ok: "pt_ok s c"
  show "pt_inv (pt_exec s c)"
  proof (cases c)
    case (MapNs p)
    then show ?thesis using map_to_ns_spec [OF inv] ok by fastforce
  next
    case (UnmapNs v)
    then show ?thesis using unmap_ns_spec [OF inv, of v] by (auto simp: unmap_from_ns_def)
  next
    case (MapSecure p v)
    then show ?thesis
      using inv fault_no_refs [OF inv, of v] set_pte_inv [OF inv]
      by (simp add: map_to_secure_def map_section_entry_def Let_def)
  next
    case (UnmapSecure v)
    then show ?thesis
      using inv ok set_pte_inv [OF inv]
      by (simp add: unmap_from_secure_def unmap_section_entry_def Let_def)
  qed
qed

section \<open>Properties of shared sections\<close>

text \<open>An empty page table; the common heap has one free block of 16 bytes.\<close>

definition tiny_heap :: sw_heap where
  "tiny_heap = \<lparr>hk_fn = (\<lambda>_. 0)(0 := 0x101000), hk_fn_count = 2,
     hk_an = (\<lambda>_. zero_area), hk_an_count = 2, current = [], current_count = 0,
     mem_start = 0x101000, mem_size = 16, heap_start = 0x100000, heap_size = 0x2000,
     bins = (\<lambda>_. [])(2 := [0]), counts = (\<lambda>_. 0)(2 := 1)\<rparr>"

lemma tiny_heap_inv: "buddy_inv tiny_heap"
proof -
  have "free_cover tiny_heap x = within 0x101000 16 x" for x
    by (simp add: free_cover_def tiny_heap_def BINS_MAX_ORDER_def lessThan_nat_numeral
        bin_size_def MIN_BLOCK_SIZE_def)
  then show ?thesis
    by (simp add: buddy_inv_def buddy_inv_with_def nodes_ok_def tiny_heap_def
        alloc_cover_def region_def BINS_MAX_ORDER_def)
qed

lemma tiny_heap_malloc: "\<exists>h. sw_buddy_malloc 16 tiny_heap = Inr (0x101000, h)"
proof -
  have two: "Suc (Suc 0) = 2" by simp
  have "malloc_loop 0 4 16 tiny_heap = malloc_loop 2 16 16 tiny_heap"
    by (simp add: malloc_loop_double BINS_MAX_ORDER_def two)
  also have "\<exists>h. \<dots> = (0x101000, h)"
    by (subst malloc_loop.simps, subst buddy_get_block.simps)
      (simp add: tiny_heap_def BINS_MAX_ORDER_def get_free_ac_node_def upt_2 zero_area_def
        commit_alloc_def set_count_def set_bin_def)
  finally show ?thesis
    by (simp add: sw_buddy_malloc_def MIN_BLOCK_SIZE_def MAX_BLOCK_SIZE_def) (simp add: tiny_heap_def)
qed

definition empty_pt :: pt_state where
  "empty_pt = \<lparr>pgd = (\<lambda>_. 0), ptd_base = 0x8000, page_ref_list = [],
     heap = \<lparr>buddy_heap = (\<lambda>_. tiny_heap),
       h_index = (\<lambda>i. \<lparr>heap_id = int i, num_blocks_alloc = 0\<rparr>)\<rparr>\<rparr>"

lemma empty_pt_inv: "pt_inv empty_pt"
  using tiny_heap_inv
  by (simp add: pt_inv_def empty_pt_def heaps_ok_def refs_ok_def refs_of_def)

lemma empty_pt_memory: "\<not> no_memory empty_pt"
proof -
  have "find_heap COMMON_HEAP_ID (heap empty_pt) = Some 0"
    by (simp add: find_heap_def empty_pt_def COMMON_HEAP_ID_def NUM_OF_HEAPS_def upt_rec)
  then show ?thesis
    using tiny_heap_malloc
    by (auto simp: no_memory_def sw_malloc_private_def empty_pt_def SIZEOF_PAGE_REF_def)
qed

lemma empty_pt_ok: "pt_ok empty_pt (MapNs p)"
  by (simp add: empty_pt_def refs_of_def l1_type_def l1_types)

lemma l1_index_ns: "l1_index 0x80000000 = 2048"
  by (simp add: l1_index_def)

text \<open>
  Sharing a non-secure section always succeeds on an unused or section entry. It counts one more
  reference to that section and to no other (unless the first reference finds no memory), the
  entry becomes a non-secure section and no other entry changes.
\<close>

theorem map_to_ns_counts:
  assumes "pt_inv s" "pt_ok s (MapNs p)"
  shows "\<exists>s'. map_to_ns p s = Inr (0, Some p, s') \<and> pt_inv s' \<and>
    pgd s' = (pgd s)(l1_index p := mapped_word (ns_section p) (pgd s (l1_index p))) \<and>
    is_ns_section (pgd s' (l1_index p)) \<and>
    (\<forall>j<4096. refs_of s' j = (if j = l1_index p \<and> \<not> (refs_of s (l1_index p) = 0 \<and> no_memory s)
       then refs_of s (l1_index p) + 1 else refs_of s j))"
  using map_to_ns_spec [OF assms] by (auto simp: map_ns_post_def ns_section_def Let_def)

theorem map_to_ns_counts_witness:
  "\<exists>s'. map_to_ns 0x80000000 empty_pt = Inr (0, Some 0x80000000, s') \<and> pt_inv s' \<and>
    is_ns_section (pgd s' 2048) \<and> refs_of s' 2048 = 1"
  using map_to_ns_counts [OF empty_pt_inv empty_pt_ok, of "0x80000000"] empty_pt_memory
  by (auto simp: l1_index_ns) (simp add: empty_pt_def refs_of_def)

text \<open>
  Unmapping a shared section gives back one reference of that section only; the entry is
  cleared exactly when it was the last one, and no other entry changes.
\<close>

theorem unmap_from_ns_counts:
  assumes "pt_inv s"
  shows "\<exists>s'. unmap_from_ns v s = (0, s') \<and> pt_inv s' \<and>
    pgd s' = (if refs_of s (l1_index v) = 1 then (pgd s)(l1_index v := 0) else pgd s) \<and>
    (\<forall>j<4096. refs_of s' j = (if j = l1_index v then refs_of s (l1_index v) - 1 else refs_of s j))"
  using unmap_ns_spec [OF assms, of v] by (auto simp: unmap_from_ns_def unmap_ns_post_def)

theorem unmap_from_ns_counts_witness:
  "\<exists>s'. unmap_from_ns 0x80000000 empty_pt = (0, s') \<and> pgd s' = pgd empty_pt"
  using unmap_from_ns_counts [OF empty_pt_inv, of "0x80000000"]
  by (auto simp: empty_pt_def refs_of_def)

text \<open>
  C4. In any sequence of requests by callers that never unmap a shared section as secure, a section with
  outstanding references is mapped, as a non-secure section.
\<close>

theorem shared_sections_stay_mapped:
  assumes "pt_inv s" "pt_ops.legal s cs" "i < 4096" "0 < refs_of (pt_ops.run s cs) i"
  shows "is_ns_section (pgd (pt_ops.run s cs) i)"
  using pt_ops.run_inv [OF assms(1,2)] assms(3,4) by (simp add: pt_inv_def)

theorem shared_sections_stay_mapped_witness:
  "is_ns_section (pgd (pt_ops.run empty_pt [MapNs 0x80000000, UnmapNs 0x90000000]) 2048)"
proof -
  obtain s' where s': "map_to_ns 0x80000000 empty_pt = Inr (0, Some 0x80000000, s')"
      "pt_inv s'" "map_ns_post (ns_section 0x80000000) empty_pt s'"
    using map_to_ns_spec [OF empty_pt_inv empty_pt_ok] by blast
  have r: "refs_of s' 2048 = 1"
    using s'(3) empty_pt_memory
    by (simp add: map_ns_post_def ns_section_def l1_index_ns) (simp add: empty_pt_def refs_of_def)
  have "l1_index 0x90000000 = 2304" by (simp add: l1_index_def)
  then have "0 < refs_of (pt_exec s' (UnmapNs 0x90000000)) 2048"
    using unmap_ns_spec [OF s'(2), of "0x90000000"] r
    by (auto simp: unmap_from_ns_def unmap_ns_post_def)
  then show ?thesis
    using shared_sections_stay_mapped [OF empty_pt_inv, of "[MapNs 0x80000000, UnmapNs 0x90000000]" 2048]
      empty_pt_ok s'(1) by simp
qed

text \<open>
  C15. Sharing a section and giving it back restores all counts. If the section was shared before, the
  page table is restored too; otherwise the entry ends up empty, which loses the mapping when it
  was a secure section. Three conditions are needed: the counts and the table agree before
  (\<open>pt_inv\<close>), the entry is empty or a section and its count does not overflow (\<open>pt_ok\<close>), and there is
  memory for a reference (\<open>no_memory\<close> does not hold). Without memory a section that nobody
  shares is mapped uncounted, and giving it back leaves its entry in place.
\<close>

theorem share_then_unshare:
  assumes "pt_inv s" "pt_ok s (MapNs p)" "\<not> no_memory s" "map_to_ns p s = Inr (0, Some p, s1)"
  shows "\<exists>s2. unmap_from_ns p s1 = (0, s2) \<and> pt_inv s2 \<and> (\<forall>j<4096. refs_of s2 j = refs_of s j) \<and>
    pgd s2 = (if refs_of s (l1_index p) = 0 then (pgd s)(l1_index p := 0) else pgd s)"
proof -
  have m: "pt_inv s1" "map_ns_post (ns_section p) s s1"
    using map_to_ns_spec [OF assms(1,2)] assms(4) by auto
  have i: "l1_index (va (ns_section p)) = l1_index p" by (simp add: ns_section_def)
  have r: "refs_of s1 (l1_index p) = refs_of s (l1_index p) + 1"
    using m(2) assms(3) l1_index_less [of p] by (simp add: map_ns_post_def i Let_def)
  have w: "mapped_word e (pgd s (l1_index p)) = pgd s (l1_index p)"
    if "0 < refs_of s (l1_index p)" for e
    using that assms(1) l1_index_less [of p]
    by (auto simp: pt_inv_def mapped_word_def is_ns_section_def l1_types)
  obtain s2 where "unmap_from_ns p s1 = (0, s2)" "pt_inv s2" "unmap_ns_post (l1_index p) s1 s2"
    using unmap_ns_spec [OF m(1), of p] by (auto simp: unmap_from_ns_def)
  then show ?thesis
    using m(2) r w assms(3) by (auto simp: map_ns_post_def unmap_ns_post_def i Let_def)
qed

text \<open>A page table with one secure section mapped.\<close>

definition secure_pt :: pt_state where
  "secure_pt = set_pte 2048 0x80000002 empty_pt"

theorem share_then_unshare_witness:
  "\<exists>s1 s2. map_to_ns 0x80000000 secure_pt = Inr (0, Some 0x80000000, s1) \<and>
    unmap_from_ns 0x80000000 s1 = (0, s2) \<and> pgd s2 2048 = 0 \<and> pgd secure_pt 2048 \<noteq> 0"
proof -
  have inv: "pt_inv secure_pt"
    unfolding secure_pt_def by (rule set_pte_inv [OF empty_pt_inv]) (simp add: empty_pt_def refs_of_def)
  have mem: "\<not> no_memory secure_pt" by (simp add: secure_pt_def empty_pt_memory)
  have ref: "refs_of secure_pt 2048 = 0" by (simp add: secure_pt_def) (simp add: empty_pt_def refs_of_def)
  have ok: "pt_ok secure_pt (MapNs 0x80000000)"
    using ref by (simp add: l1_index_ns) (simp add: secure_pt_def l1_type_def l1_types)
  obtain s1 where "map_to_ns 0x80000000 secure_pt = Inr (0, Some 0x80000000, s1)"
    using map_to_ns_spec [OF inv ok] by auto
  then show ?thesis
    using share_then_unshare [OF inv ok mem, of s1] ref by (auto simp: l1_index_ns secure_pt_def)
qed

section \<open>Ranges of sections\<close>

lemma l1_index_div: "l1_index v = unat v div 2 ^ 20"
proof -
  have "take_bit 32 (unat v) = unat v"
    by (rule take_bit_nat_eq_self) (use unsigned_less [of v] in simp)
  then show ?thesis unfolding l1_index_def unsigned_drop_bit_eq by (simp add: drop_bit_eq_div)
qed

lemma section_desc_va [simp]: "section_desc (e\<lparr>va := v\<rparr>) = section_desc e"
  by (simp add: section_desc_def)

lemma unat_section_size: "unat SECTION_SIZE = 2 ^ 20"
  by (simp add: SECTION_SIZE_def)

lemma next_section:
  "unat v + 2 ^ 20 < 2 ^ 32 \<Longrightarrow> unat (v + SECTION_SIZE) = unat v + 2 ^ 20 \<and>
   l1_index (v + SECTION_SIZE) = Suc (l1_index v)"
  by (simp add: l1_index_div unat_plus_lt unat_section_size)

text \<open>A range of \<open>Suc k\<close> sections is one section and a range of \<open>k\<close> sections.\<close>

lemma range_size:
  assumes "Suc k * 2 ^ 20 + unat (v::u32) \<le> 2 ^ 32"
  shows "of_nat (Suc k * 2 ^ 20) \<noteq> (0::u32) \<or> k = 4095"
    "of_nat (Suc k * 2 ^ 20) - SECTION_SIZE = (of_nat (k * 2 ^ 20) :: u32)"
proof -
  have "k < 4095 \<Longrightarrow> unat (of_nat (Suc k * 2 ^ 20) :: u32) = Suc k * 2 ^ 20"
    by (intro unat_of_nat_lt) simp
  moreover have "k \<le> 4095" using assms by simp
  ultimately show "of_nat (Suc k * 2 ^ 20) \<noteq> (0::u32) \<or> k = 4095"
    by (metis le_neq_implies_less mult_is_0 nat.distinct(1) power_not_zero unat_0 zero_neq_numeral)
  show "of_nat (Suc k * 2 ^ 20) - SECTION_SIZE = (of_nat (k * 2 ^ 20) :: u32)"
    by (simp add: SECTION_SIZE_def algebra_simps)
qed

definition filled :: "cpu_section \<Rightarrow> nat \<Rightarrow> pa_t \<Rightarrow> nat \<Rightarrow> pt_state \<Rightarrow> pt_state" where
  "filled e i0 p k s = s\<lparr>pgd := (\<lambda>i. if i0 \<le> i \<and> i < i0 + k \<and> l1_type (pgd s i) = L1_TYPE_FAULT
     then section_desc (e\<lparr>pa := p + of_nat (i - i0) * SECTION_SIZE\<rparr>) else pgd s i)\<rparr>"

lemma filled_0 [simp]: "filled e i0 p 0 s = s"
proof -
  have "(\<lambda>i. if i0 \<le> i \<and> i < i0 + 0 \<and> P i then f i else pgd s i) = pgd s" for P f
    by (rule ext) auto
  then show ?thesis by (simp add: filled_def)
qed

lemma fault_section: "L1_TYPE_SECTION \<noteq> L1_TYPE_FAULT" "l1_type (section_desc e) \<noteq> L1_TYPE_FAULT"
  unfolding section_type by (simp_all add: l1_types)

lemma section_desc_nz: "section_desc e \<noteq> 0"
  using fault_section(2) [of e] by (auto simp: l1_type_def l1_types)

lemma filled_first:
  assumes "i0 = l1_index v" "ne = e\<lparr>va := v, pa := p\<rparr>"
  shows "filled e (Suc i0) (p + SECTION_SIZE) k (snd (map_section_entry ne s)) = filled e i0 p (Suc k) s"
proof -
  have pgd1: "snd (map_section_entry ne s) =
      (if l1_type (pgd s i0) = L1_TYPE_FAULT then set_pte i0 (section_desc (e\<lparr>pa := p\<rparr>)) s else s)"
    using assms by (simp add: map_section_entry_def Let_def section_desc_def)
  have step: "p + SECTION_SIZE + of_nat (i - Suc i0) * SECTION_SIZE = p + of_nat (i - i0) * SECTION_SIZE"
    if "Suc i0 \<le> i" for i
  proof -
    have "i - i0 = Suc (i - Suc i0)" using that by simp
    then show ?thesis by (simp only: of_nat_Suc distrib_right) (simp add: algebra_simps)
  qed
  have "pgd (filled e (Suc i0) (p + SECTION_SIZE) k (snd (map_section_entry ne s))) i =
      pgd (filled e i0 p (Suc k) s) i" for i
    using step [of i]
    by (cases "i = i0")
      (auto simp: filled_def pgd1 set_pte_def fault_section add.assoc simp del: of_nat_diff)
  then show ?thesis
    by (simp add: filled_def pgd1 set_pte_def fun_eq_iff)
qed

lemma map_range_0: "map_range e v p 0 s = Some s"
  by (subst map_range.simps) simp

lemma map_range_spec:
  "k * 2 ^ 20 + unat v \<le> 2 ^ 32 \<Longrightarrow> k < 4096 \<Longrightarrow>
   map_range e v p (of_nat (k * 2 ^ 20)) s = Some (filled e (l1_index v) p k s)"
proof (induction k arbitrary: v p s)
  case 0
  then show ?case by (simp add: map_range_0)
next
  case (Suc k)
  have nz: "of_nat (Suc k * 2 ^ 20) \<noteq> (0::u32)" using range_size(1) [OF Suc.prems(1)] Suc.prems(2) by auto
  have step: "map_range e v p (of_nat (Suc k * 2 ^ 20)) s =
      map_range e (v + SECTION_SIZE) (p + SECTION_SIZE) (of_nat (k * 2 ^ 20))
        (snd (map_section_entry (e\<lparr>va := v, pa := p\<rparr>) s))"
    by (subst map_range.simps) (simp only: nz range_size(2) [OF Suc.prems(1)] simp_thms if_True)
  show ?case
  proof (cases k)
    case 0
    then show ?thesis
      using step filled_first [OF refl refl, of e v p 0 s] by (simp add: map_range_0)
  next
    case (Suc k')
    then have n: "unat (v + SECTION_SIZE) = unat v + 2 ^ 20"
        "l1_index (v + SECTION_SIZE) = Suc (l1_index v)"
      using Suc.prems next_section [of v] by simp_all
    have "map_range e (v + SECTION_SIZE) (p + SECTION_SIZE) (of_nat (k * 2 ^ 20))
        (snd (map_section_entry (e\<lparr>va := v, pa := p\<rparr>) s)) =
        Some (filled e (Suc (l1_index v)) (p + SECTION_SIZE) k (snd (map_section_entry (e\<lparr>va := v, pa := p\<rparr>) s)))"
      using Suc.IH [of "v + SECTION_SIZE"] Suc.prems n by simp
    then show ?thesis using step filled_first [OF refl refl] by simp
  qed
qed

lemma section_aligned_iff: "section_aligned x \<longleftrightarrow> 2 ^ 20 dvd unat x"
proof -
  have "SECTION_SIZE - 1 = (mask 20 :: u32)" by (simp add: SECTION_SIZE_def mask_eq_exp_minus_1)
  then have "section_aligned x \<longleftrightarrow> take_bit 20 x = 0"
    by (simp add: section_aligned_def take_bit_eq_mask)
  also have "\<dots> \<longleftrightarrow> unat (take_bit 20 x) = 0" by (simp add: unat_eq_0)
  also have "unat (take_bit 20 x) = take_bit 20 (unat x)" by (rule unsigned_take_bit_eq)
  also have "take_bit 20 (unat x) = unat x mod 2 ^ 20" by (rule take_bit_eq_mod)
  finally show ?thesis by (simp add: dvd_eq_mod_eq_0)
qed

lemma map_sections_spec:
  assumes al: "section_aligned sz" "section_aligned v" "section_aligned p"
    and fit: "unat v + unat sz \<le> 2 ^ 32"
  shows "map_sections e v p sz s = Some (0, filled e (l1_index v) p (unat sz div 2 ^ 20) s)"
proof -
  have k: "unat sz = unat sz div 2 ^ 20 * 2 ^ 20" using al(1) by (simp add: section_aligned_iff)
  then have sz: "sz = of_nat (unat sz div 2 ^ 20 * 2 ^ 20)" by (metis of_nat_unat_id)
  have "unat sz < 2 ^ 32" using unsigned_less [of sz] by simp
  then have "unat sz div 2 ^ 20 < 4096" by (simp add: less_mult_imp_div_less)
  then have "map_range e v p (of_nat (unat sz div 2 ^ 20 * 2 ^ 20)) s =
      Some (filled e (l1_index v) p (unat sz div 2 ^ 20) s)"
    using k fit by (intro map_range_spec) simp_all
  then show ?thesis using al sz by (simp add: map_sections_def)
qed

text \<open>
  \<open>map_secure_memory\<close> refuses a range that is not aligned to sections and changes nothing. On an
  aligned range it returns 0 and fills exactly the unused entries of the range, each with the section
  of the physical address at the same offset; sections that were mapped keep their descriptors.
\<close>

theorem map_secure_memory_exact:
  assumes "unat v + unat sz \<le> 2 ^ 32"
  shows "\<exists>r s'. map_secure_memory v p sz ptf s = Some (r, s') \<and>
    (if section_aligned sz \<and> section_aligned v \<and> section_aligned p
     then r = 0 \<and> (\<forall>i. pgd s' i =
       (if l1_index v \<le> i \<and> i < l1_index v + unat sz div 2 ^ 20 \<and> l1_type (pgd s i) = L1_TYPE_FAULT
        then section_desc \<lparr>va = v, pa = p + of_nat (i - l1_index v) * SECTION_SIZE, ns = 0, ng = 0,
          s_bit = 0, tex = 1, ap = ptf_to_ap ptf, dom = SECURE_ACCESS_DOMAIN, xn = ptf_to_xn ptf,
          c_bit = 1, b_bit = 1\<rparr>
        else pgd s i))
     else r = - 1 \<and> s' = s)"
proof (cases "section_aligned sz \<and> section_aligned v \<and> section_aligned p")
  case True
  then show ?thesis
    using map_sections_spec [of sz v p, OF _ _ _ assms] by (simp add: map_secure_memory_def filled_def)
next
  case False
  then show ?thesis by (auto simp: map_secure_memory_def map_sections_def)
qed

theorem map_secure_memory_exact_witness:
  "\<exists>r s'. map_secure_memory 0x80000000 0x90000000 0x200000 0 empty_pt = Some (r, s') \<and> r = 0"
  using map_secure_memory_exact [of "0x80000000" "0x200000" "0x90000000" 0 empty_pt]
  by (auto simp: section_aligned_def SECTION_SIZE_def)

text \<open>
  Device memory is never reachable from user mode: every entry that \<open>map_device\<close> fills is a
  secure section without user access (access bit 11 clear), not executable (bit 4), and not
  shared with the non-secure world (bit 19).
\<close>

theorem map_device_privileged:
  assumes "unat v + unat sz \<le> 2 ^ 32" "map_device v p sz s = Some (r, s')" "pgd s' i \<noteq> pgd s i"
  shows "l1_type (pgd s' i) = L1_TYPE_SECTION \<and> \<not> bit (pgd s' i) 11 \<and> bit (pgd s' i) 4 \<and>
    \<not> bit (pgd s' i) 19 \<and> l1_type (pgd s i) = L1_TYPE_FAULT"
proof -
  have "section_aligned sz \<and> section_aligned v \<and> section_aligned p"
    using assms(2,3) by (auto simp: map_device_def map_sections_def split: if_splits)
  then show ?thesis
    using assms map_sections_spec [of sz v p, OF _ _ _ assms(1)]
    by (auto simp: map_device_def filled_def section_type bit_section_desc PRIV_RW_USR_NO_def
        L1_EXECUTE_NEVER_def SECURE_ACCESS_DOMAIN_def split: if_splits)
qed

theorem map_device_privileged_witness:
  "\<exists>r s'. map_device 0x1C000000 0x1C000000 0x100000 empty_pt = Some (r, s') \<and> \<not> bit (pgd s' 448) 11 \<and>
    l1_type (pgd s' 448) = L1_TYPE_SECTION"
proof -
  have a: "section_aligned 0x1C000000" "section_aligned 0x100000"
    by (simp_all add: section_aligned_def SECTION_SIZE_def)
  obtain s' where s': "map_device 0x1C000000 0x1C000000 0x100000 empty_pt = Some (0, s')"
      "pgd s' 448 \<noteq> pgd empty_pt 448"
    using map_sections_spec [OF a(2) a(1) a(1)] section_desc_nz
    by (auto simp: map_device_def filled_def l1_index_div empty_pt_def l1_type_def l1_types)
  then show ?thesis using map_device_privileged [of "0x1C000000" "0x100000" "0x1C000000" empty_pt 0 s' 448] by auto
qed

text \<open>
  The descriptor that \<open>map_section_entry\<close> builds from a section gives every attribute back: base,
  type, domain, memory attributes, execute-never, the three access bits (split over two places),
  sharing, global and non-secure bits.
\<close>

theorem section_desc_roundtrip:
  "(section_desc e AND SECTION_BASE_MASK) = (pa e AND SECTION_BASE_MASK) \<and>
   l1_type (section_desc e) = L1_TYPE_SECTION \<and>
   ucast (drop_bit L1_DOMAIN_SHIFT (section_desc e)) = dom e \<and>
   ucast (drop_bit L1_SECTION_B_SHIFT (section_desc e)) = b_bit e \<and>
   ucast (drop_bit L1_SECTION_C_SHIFT (section_desc e)) = c_bit e \<and>
   ucast (drop_bit L1_SECTION_TEX_SHIFT (section_desc e)) = tex e \<and>
   ucast (drop_bit L1_SECTION_XN_SHIFT (section_desc e)) = xn e \<and>
   ucast ((drop_bit L1_SECTION_AP_SHIFT (section_desc e) AND 3)
     OR push_bit 2 (drop_bit L1_SECTION_AP2_SHIFT (section_desc e) AND 1)) = ap e \<and>
   ucast (drop_bit L1_SECTION_S_SHIFT (section_desc e)) = s_bit e \<and>
   ucast (drop_bit L1_SECTION_NG_SHIFT (section_desc e)) = ng e \<and>
   ucast (drop_bit L1_SECTION_NS_SHIFT (section_desc e)) = ns e"
  unfolding l1_shifts
  by (intro conjI section_base section_type section_dom section_fields section_tex section_ap)

end
