(* ===== verification/MemMng.thy ===== *)
theory MemMng
  imports PageTable
begin

text \<open>
  The page allocator of the secure world (\<open>core/mem_mng.c\<close>): one bit per 4 KB page, most
  significant bit first, in two bitmaps of 32-bit words (physical and virtual pages).
  Page numbers are natural numbers, addresses and sizes 32-bit words. The boundaries of the
  secure RAM and of the kernel image, and the hardware's address translation, are arguments:
  they come from the linker script and from a coprocessor instruction.
\<close>

section \<open>State\<close>

definition PAGE_SHIFT :: nat where "PAGE_SHIFT = 12"
definition PAGE_SIZE :: u32 where "PAGE_SIZE = 4096"
definition PAGE_OFFSET_MASK :: u32 where "PAGE_OFFSET_MASK = 0xFFF"
definition SECTION_MASK :: u32 where "SECTION_MASK = 0xFFF00000"
definition VIR_ASPACE_SIZE :: u32 where "VIR_ASPACE_SIZE = 0x4000000"

lemmas page_consts = PAGE_SHIFT_def PAGE_SIZE_def PAGE_OFFSET_MASK_def

type_synonym bitmap = "nat \<Rightarrow> u32"

record secure_world_mem_info =
  vir_mem_bmap :: bitmap
  phy_mem_bmap :: bitmap
  vir_mem_bmap_len :: u32
  phy_mem_bmap_len :: u32
  vir_addr_start :: u32
  vir_memregion_size :: u32
  phy_addr_start :: u32
  phy_memregion_size :: u32
  num_phy_pag_free :: int
  num_vir_pag_free :: int

definition page_mask :: "nat \<Rightarrow> u32" where
  "page_mask i = push_bit (31 - i mod 32) 1"

definition page_used :: "bitmap \<Rightarrow> nat \<Rightarrow> bool" where
  "page_used bm i = ((bm (i div 32) AND page_mask i) \<noteq> 0)"

definition set_page :: "nat \<Rightarrow> bitmap \<Rightarrow> bitmap" where
  "set_page i bm = bm(i div 32 := bm (i div 32) OR page_mask i)"

definition clear_page :: "nat \<Rightarrow> bitmap \<Rightarrow> bitmap" where
  "clear_page i bm = bm(i div 32 := bm (i div 32) AND NOT (page_mask i))"

section \<open>Allocation\<close>

text \<open>The inner loop of the search: how many of the \<open>n\<close> pages from \<open>i\<close> on are free before a used one.\<close>

fun count_free :: "bitmap \<Rightarrow> nat \<Rightarrow> nat \<Rightarrow> nat" where
  "count_free bm i 0 = 0"
| "count_free bm i (Suc n) = (if page_used bm i then 0 else Suc (count_free bm (Suc i) n))"

function find_run :: "bitmap \<Rightarrow> nat \<Rightarrow> nat \<Rightarrow> nat \<Rightarrow> nat option" where
  "find_run bm limit req start =
     (if start < limit
      then if count_free bm start req = req then Some start else find_run bm limit req (start + 1)
      else None)"
  by pat_completeness auto
termination
  by (relation "measure (\<lambda>(bm, limit, req, start). limit - start)") auto

declare find_run.simps [simp del]

text \<open>
  The rounding of \<open>sw_phy_page_alloc\<close>: \<open>~PAGE_SIZE - 1\<close> is \<open>(~PAGE_SIZE) - 1\<close>.
  \<open>sw_vir_page_alloc\<close> has the parentheses.
\<close>

definition phy_round :: "u32 \<Rightarrow> u32" where
  "phy_round sz = (if (sz AND (PAGE_SIZE - 1)) \<noteq> 0
     then (sz AND (NOT PAGE_SIZE - 1)) + PAGE_SIZE else sz)"

definition vir_round :: "u32 \<Rightarrow> u32" where
  "vir_round sz = (if (sz AND (PAGE_SIZE - 1)) \<noteq> 0
     then (sz AND NOT (PAGE_SIZE - 1)) + PAGE_SIZE else sz)"

definition page_count :: "u32 \<Rightarrow> nat" where
  "page_count sz = unat (drop_bit PAGE_SHIFT sz)"

definition search_limit :: "u32 \<Rightarrow> nat \<Rightarrow> nat" where
  "search_limit len req = unat (push_bit 3 len - of_nat req)"

definition sw_phy_page_alloc :: "u32 \<Rightarrow> secure_world_mem_info \<Rightarrow> pa_t \<times> secure_world_mem_info" where
  "sw_phy_page_alloc sz m =
     (let req = page_count (phy_round sz)
      in if int req > num_phy_pag_free m then (0, m)
         else case find_run (phy_mem_bmap m) (search_limit (phy_mem_bmap_len m) req) req 0 of
                None \<Rightarrow> (0, m)
              | Some start \<Rightarrow>
                  (push_bit PAGE_SHIFT (of_nat start) + phy_addr_start m,
                   m\<lparr>phy_mem_bmap := fold set_page [start..<start + req] (phy_mem_bmap m),
                     num_phy_pag_free := num_phy_pag_free m - int req\<rparr>))"

text \<open>
  The mapping loop of \<open>sw_vir_page_alloc\<close>, section by section up to the section of the end
  address. The comparison is unsigned, so a range in the last section never leaves the loop.
\<close>

partial_function (option) map_pages ::
  "u32 \<Rightarrow> u32 \<Rightarrow> pa_t \<Rightarrow> va_t \<Rightarrow> pt_state \<Rightarrow> pt_state option" where
  "map_pages end_addr start_addr p v s =
     (if end_addr \<ge> start_addr
      then map_pages end_addr (start_addr + SECTION_SIZE) (p + SECTION_SIZE) (v + SECTION_SIZE)
             (snd (map_to_secure p v s))
      else Some s)"

definition sw_vir_page_alloc ::
  "u32 \<Rightarrow> secure_world_mem_info \<Rightarrow> pt_state \<Rightarrow> (va_t \<times> secure_world_mem_info \<times> pt_state) option" where
  "sw_vir_page_alloc sz0 m s =
     (let sz = vir_round sz0; req = page_count sz
      in if int req > num_vir_pag_free m then Some (0, m, s)
         else case find_run (vir_mem_bmap m) (search_limit (vir_mem_bmap_len m) req) req 0 of
                None \<Rightarrow> Some (0, m, s)
              | Some start \<Rightarrow>
                  (case sw_phy_page_alloc sz m of
                     (phy_addr, m1) \<Rightarrow>
                       if phy_addr = 0 then Some (0, m1, s)
                       else
                         let m2 = m1\<lparr>vir_mem_bmap := fold set_page [start..<start + req] (vir_mem_bmap m1),
                                    num_vir_pag_free := num_vir_pag_free m1 - int req\<rparr>;
                             vir_addr = push_bit PAGE_SHIFT (of_nat start) + vir_addr_start m2
                         in map_option (\<lambda>s'. (vir_addr, m2, s'))
                              (map_pages ((phy_addr + sz) AND SECTION_MASK) (phy_addr AND SECTION_MASK)
                                 phy_addr vir_addr s)))"

section \<open>Reservation and release\<close>

text \<open>
  The marking loop of the reserve functions: it sets the same bit in every round and ends
  when \<open>temp_sz\<close> hits zero exactly.
\<close>

partial_function (option) reserve_loop ::
  "nat \<Rightarrow> u32 \<Rightarrow> bitmap \<Rightarrow> int \<Rightarrow> (bitmap \<times> int) option" where
  "reserve_loop i temp_sz bm free =
     (if temp_sz > 0 then reserve_loop i (temp_sz - PAGE_SIZE) (set_page i bm) (free - 1)
      else Some (bm, free))"

text \<open>The size is an \<open>int\<close>; callers pass sizes below two gigabytes.\<close>

definition sw_phy_addr_reserve :: "pa_t \<Rightarrow> u32 \<Rightarrow> secure_world_mem_info \<Rightarrow> (int \<times> secure_world_mem_info) option" where
  "sw_phy_addr_reserve phy_addr sz m =
     (if phy_addr < phy_addr_start m \<or> phy_addr > phy_addr_start m + phy_memregion_size m
      then Some (- 1, m)
      else
        let pg_cnt = page_count sz;
            res_pa = page_count (phy_addr - phy_addr_start m)
        in if count_free (phy_mem_bmap m) res_pa pg_cnt \<noteq> pg_cnt then Some (- 1, m)
           else map_option (\<lambda>(bm, free). (0, m\<lparr>phy_mem_bmap := bm, num_phy_pag_free := free\<rparr>))
                  (reserve_loop res_pa sz (phy_mem_bmap m) (num_phy_pag_free m)))"

text \<open>
  \<open>sw_vir_addr_reserve\<close> computes with \<open>u32\<close> pointers: the difference of two of them counts
  words, and adding the region size to one advances by four times as many bytes.
\<close>

definition sw_vir_addr_reserve :: "va_t \<Rightarrow> u32 \<Rightarrow> secure_world_mem_info \<Rightarrow> (int \<times> secure_world_mem_info) option" where
  "sw_vir_addr_reserve vir_addr sz m =
     (if vir_addr < vir_addr_start m \<or> vir_addr > vir_addr_start m + 4 * vir_memregion_size m
      then Some (- 1, m)
      else
        let pg_cnt = page_count sz;
            res_va = page_count ((vir_addr - vir_addr_start m) div 4)
        in if count_free (vir_mem_bmap m) res_va pg_cnt \<noteq> pg_cnt then Some (- 1, m)
           else map_option (\<lambda>(bm, free). (0, m\<lparr>vir_mem_bmap := bm, num_vir_pag_free := free\<rparr>))
                  (reserve_loop res_va sz (vir_mem_bmap m) (num_vir_pag_free m)))"

definition sw_phy_addr_free :: "pa_t \<Rightarrow> u32 \<Rightarrow> secure_world_mem_info \<Rightarrow> int \<times> secure_world_mem_info" where
  "sw_phy_addr_free phy_addr sz m =
     (if phy_addr < phy_addr_start m \<or> phy_addr > phy_addr_start m + phy_memregion_size m then (- 1, m)
      else
        let fr_phy = page_count (phy_addr - phy_addr_start m);
            n = page_count sz
        in (0, m\<lparr>phy_mem_bmap := fold clear_page [fr_phy..<fr_phy + n] (phy_mem_bmap m),
                num_phy_pag_free := num_phy_pag_free m + int n\<rparr>))"

text \<open>\<open>va_to_pa\<close> is the hardware translation; the virtual range stays mapped.\<close>

definition sw_vir_addr_free ::
  "(va_t \<Rightarrow> pa_t) \<Rightarrow> va_t \<Rightarrow> u32 \<Rightarrow> secure_world_mem_info \<Rightarrow> int \<times> secure_world_mem_info" where
  "sw_vir_addr_free va_to_pa vir_addr sz m =
     (if vir_addr < vir_addr_start m \<or> vir_addr > vir_addr_start m + vir_memregion_size m then (- 1, m)
      else
        let fr_vir = page_count (vir_addr - vir_addr_start m);
            n = page_count sz;
            m1 = m\<lparr>vir_mem_bmap := fold clear_page [fr_vir..<fr_vir + n] (vir_mem_bmap m),
                  num_vir_pag_free := num_vir_pag_free m + int n\<rparr>
        in (0, snd (sw_phy_addr_free (va_to_pa vir_addr) sz m1)))"

section \<open>Initialisation\<close>

partial_function (option) init_mark ::
  "u32 \<Rightarrow> u32 \<Rightarrow> u32 \<Rightarrow> bitmap \<Rightarrow> int \<Rightarrow> (bitmap \<times> int) option" where
  "init_mark base limit a bm free =
     (if a < limit
      then init_mark base limit (a + PAGE_SIZE) (set_page (page_count (a - base)) bm) (free - 1)
      else Some (bm, free))"

text \<open>
  \<open>sw_meminfo_init\<close> up to the page table it returns. The second correction of the region size
  reads the start address that the first statement has already aligned.
\<close>

definition sw_meminfo_init ::
  "u32 \<Rightarrow> u32 \<Rightarrow> u32 \<Rightarrow> u32 \<Rightarrow> secure_world_mem_info option" where
  "sw_meminfo_init ram_start ram_end code_start code_end =
     (let size0 = ram_end - ram_start + 1;
          off = ram_start AND PAGE_OFFSET_MASK;
          start1 = (if off \<noteq> 0 then ram_start + (PAGE_SIZE - off) else ram_start);
          size1 = (if off \<noteq> 0 then size0 - (PAGE_SIZE - (start1 AND PAGE_OFFSET_MASK)) else size0);
          size2 = (if (size1 AND PAGE_OFFSET_MASK) \<noteq> 0 then size1 - (size1 AND PAGE_OFFSET_MASK) else size1);
          plen0 = drop_bit (PAGE_SHIFT + 3) size2 + 1;
          plen = (if (plen0 AND 3) \<noteq> 0 then plen0 + (4 - (plen0 AND 3)) else plen0);
          vlen = drop_bit (PAGE_SHIFT + 3) VIR_ASPACE_SIZE + 1;
          tot = (code_end - code_start) + plen + vlen
      in case init_mark start1 (start1 + tot) start1 (\<lambda>_. 0) (int (page_count size0)) of
           None \<Rightarrow> None
         | Some (pbm, pfree) \<Rightarrow>
             map_option (\<lambda>(vbm, vfree).
                 \<lparr>vir_mem_bmap = vbm, phy_mem_bmap = pbm, vir_mem_bmap_len = vlen, phy_mem_bmap_len = plen,
                  vir_addr_start = code_start, vir_memregion_size = VIR_ASPACE_SIZE,
                  phy_addr_start = start1, phy_memregion_size = size2,
                  num_phy_pag_free = pfree, num_vir_pag_free = vfree\<rparr>)
               (init_mark code_start (code_start + tot) code_start (\<lambda>_. 0) (int (page_count VIR_ASPACE_SIZE))))"

section \<open>Bits of the bitmap\<close>

lemma page_mask_exp: "page_mask i = 2 ^ (31 - i mod 32)"
  by (simp add: page_mask_def push_bit_eq_mult)

lemma page_used_bit: "page_used bm i \<longleftrightarrow> bit (bm (i div 32)) (31 - i mod 32)"
  unfolding page_used_def page_mask_exp by (subst and_exp2_eq_0) simp_all

lemma page_mask_bit: "bit (page_mask i) n \<longleftrightarrow> n = 31 - i mod 32"
  unfolding page_mask_exp by (subst bit_exp2) simp_all

lemma same_page:
  assumes "i div 32 = j div 32"
  shows "31 - i mod 32 = 31 - j mod 32 \<longleftrightarrow> i = (j::nat)"
proof
  assume "31 - i mod 32 = 31 - j mod 32"
  moreover have "i mod 32 < 32" "j mod 32 < 32" by simp_all
  ultimately have "i mod 32 = j mod 32" by linarith
  then show "i = j" using assms by (metis div_mult_mod_eq)
qed simp

lemma page_used_set: "page_used (set_page i bm) j \<longleftrightarrow> i = j \<or> page_used bm j"
proof (cases "i div 32 = j div 32")
  case True
  then show ?thesis
    using same_page [of j i] by (simp add: page_used_bit set_page_def bit_or_iff page_mask_bit eq_commute disj_commute)
next
  case False
  then show ?thesis by (auto simp: page_used_bit set_page_def)
qed

lemma page_used_clear: "page_used (clear_page i bm) j \<longleftrightarrow> i \<noteq> j \<and> page_used bm j"
proof (cases "i div 32 = j div 32")
  case True
  then show ?thesis
    using same_page [of j i] less_imp_diff_less [of 31 32 "j mod 32"]
    by (simp add: page_used_bit clear_page_def bit_and_iff bit_not_iff page_mask_bit eq_commute conj_commute)
next
  case False
  then show ?thesis by (auto simp: page_used_bit clear_page_def)
qed

lemma page_used_set_range:
  "page_used (fold set_page is bm) j \<longleftrightarrow> j \<in> set is \<or> page_used bm j"
  by (induction "is" arbitrary: bm) (auto simp: page_used_set)

lemma page_used_clear_range:
  "page_used (fold clear_page is bm) j \<longleftrightarrow> j \<notin> set is \<and> page_used bm j"
  by (induction "is" arbitrary: bm) (auto simp: page_used_clear)

lemma bitmap_eqI: "(\<And>i. page_used a i = page_used b i) \<Longrightarrow> a = b"
proof (rule ext, rule bit_eqI)
  fix k n assume eq: "\<And>i. page_used a i = page_used b i" and "possible_bit TYPE(u32) n"
  then have "n < 32" by simp
  then have "(k * 32 + (31 - n)) div 32 = k" "(k * 32 + (31 - n)) mod 32 = 31 - n" "31 - (31 - n) = n"
    by (simp_all only: div_mult_self3 mod_mult_self3 div_less mod_less)
  then show "bit (a k) n = bit (b k) n"
    using eq [of "k * 32 + (31 - n)"] by (simp add: page_used_bit)
qed

section \<open>The search\<close>

lemma count_free_le: "count_free bm i n \<le> n"
  by (induction bm i n rule: count_free.induct) auto

lemma count_free_all: "count_free bm i n = n \<longleftrightarrow> (\<forall>k<n. \<not> page_used bm (i + k))"
proof (induction bm i n rule: count_free.induct)
  case (2 bm i n)
  have "(\<forall>k<Suc n. \<not> page_used bm (i + k)) \<longleftrightarrow>
      \<not> page_used bm i \<and> (\<forall>k<n. \<not> page_used bm (Suc i + k))"
    by (simp add: All_less_Suc2)
  then show ?case using 2 by simp
qed simp

definition run_free :: "bitmap \<Rightarrow> nat \<Rightarrow> nat \<Rightarrow> bool" where
  "run_free bm i n \<longleftrightarrow> (\<forall>k<n. \<not> page_used bm (i + k))"

lemma find_run_spec:
  "(case find_run bm limit req start of
      None \<Rightarrow> \<forall>i. start \<le> i \<and> i < limit \<longrightarrow> \<not> run_free bm i req
    | Some r \<Rightarrow> start \<le> r \<and> r < limit \<and> run_free bm r req \<and>
        (\<forall>i. start \<le> i \<and> i < r \<longrightarrow> \<not> run_free bm i req))"
proof (induction bm limit req start rule: find_run.induct)
  case (1 bm limit req start)
  show ?case
  proof (cases "start < limit \<and> count_free bm start req \<noteq> req")
    case True
    then have n: "\<not> run_free bm start req" by (simp add: count_free_all run_free_def)
    have "find_run bm limit req start = find_run bm limit req (start + 1)"
      using True by (simp add: find_run.simps [of bm limit req start])
    then show ?thesis
      using 1 True n by (auto split: option.splits simp: Suc_le_eq) (metis le_neq_implies_less)+
  next
    case False
    then show ?thesis
      by (auto simp: find_run.simps [of bm limit req start] count_free_all run_free_def)
  qed
qed

section \<open>Properties of the allocator\<close>

text \<open>
  C17. \<open>sw_phy_page_alloc\<close> either takes the first run of free pages that the search can reach, marks
  exactly the pages of the run, which were all free, and counts them off; or it returns 0 and
  changes nothing, and then there are too few free pages or no such run.
\<close>

theorem sw_phy_page_alloc_exact:
  "(let req = page_count (phy_round sz); limit = search_limit (phy_mem_bmap_len m) req;
        bm = phy_mem_bmap m; a = fst (sw_phy_page_alloc sz m); m' = snd (sw_phy_page_alloc sz m)
    in (a = 0 \<and> m' = m \<and> (num_phy_pag_free m < int req \<or> (\<forall>i. i < limit \<longrightarrow> \<not> run_free bm i req))) \<or>
       (\<exists>start. a = push_bit PAGE_SHIFT (of_nat start) + phy_addr_start m \<and> start < limit \<and>
          run_free bm start req \<and> (\<forall>i. i < start \<longrightarrow> \<not> run_free bm i req) \<and>
          (\<forall>j. page_used (phy_mem_bmap m') j = ((start \<le> j \<and> j < start + req) \<or> page_used bm j)) \<and>
          m' = m\<lparr>phy_mem_bmap := phy_mem_bmap m',
                 num_phy_pag_free := num_phy_pag_free m - int req\<rparr>))"
proof -
  let ?req = "page_count (phy_round sz)"
  let ?fr = "find_run (phy_mem_bmap m) (search_limit (phy_mem_bmap_len m) ?req) ?req 0"
  note sp = find_run_spec [where bm = "phy_mem_bmap m" and limit = "search_limit (phy_mem_bmap_len m) ?req"
    and req = ?req and start = 0]
  show ?thesis
  proof (cases "num_phy_pag_free m < int ?req")
    case True
    then show ?thesis by (simp add: sw_phy_page_alloc_def Let_def)
  next
    case False
    then show ?thesis
      using sp by (cases ?fr) (simp_all add: sw_phy_page_alloc_def Let_def page_used_set_range, blast+)
  qed
qed

text \<open>
  The search runs over the bits of the bitmap, which has more bits than the RAM has pages. With
  \<open>n\<close> pages of RAM, if no run of the wanted length is free inside the RAM although enough
  single pages are, the request is served with a range that ends behind the secure RAM.
\<close>

theorem sw_phy_page_alloc_past_end:
  assumes "req = page_count (phy_round sz)" "int req \<le> num_phy_pag_free m"
    and "n < search_limit (phy_mem_bmap_len m) req" "\<And>j. n \<le> j \<Longrightarrow> \<not> page_used (phy_mem_bmap m) j"
    and "\<And>i. i + req \<le> n \<Longrightarrow> \<not> run_free (phy_mem_bmap m) i req"
  shows "\<exists>start. fst (sw_phy_page_alloc sz m) = push_bit PAGE_SHIFT (of_nat start) + phy_addr_start m \<and>
    start \<le> n \<and> n < start + req"
proof -
  let ?fr = "find_run (phy_mem_bmap m) (search_limit (phy_mem_bmap_len m) req) req 0"
  note sp = find_run_spec [where bm = "phy_mem_bmap m" and limit = "search_limit (phy_mem_bmap_len m) req"
    and req = req and start = 0]
  have run: "run_free (phy_mem_bmap m) n req" using assms(4) by (simp add: run_free_def)
  then obtain start where st: "?fr = Some start" "run_free (phy_mem_bmap m) start req" "start \<le> n"
    using sp assms(3) by (cases ?fr) (auto simp: not_less [symmetric])
  moreover have "n < start + req" using assms(5) [of start] st(2) by linarith
  ultimately show ?thesis
    using assms(1,2) by (auto simp: sw_phy_page_alloc_def Let_def)
qed

text \<open>Eight pages of RAM at 0x80000000, pages 0, 2, 4 and 6 in use.\<close>

definition fragmented :: secure_world_mem_info where
  "fragmented = \<lparr>vir_mem_bmap = (\<lambda>_. 0), phy_mem_bmap = (\<lambda>_. 0)(0 := 0xAA000000),
     vir_mem_bmap_len = 0x801, phy_mem_bmap_len = 4, vir_addr_start = 0, vir_memregion_size = VIR_ASPACE_SIZE,
     phy_addr_start = 0x80000000, phy_memregion_size = 0x8000,
     num_phy_pag_free = 4, num_vir_pag_free = 0x4000\<rparr>"

lemma fragmented_used: "page_used (phy_mem_bmap fragmented) j \<longleftrightarrow> j = 0 \<or> j = 2 \<or> j = 4 \<or> j = 6"
proof -
  have "phy_mem_bmap fragmented = fold set_page [0, 2, 4, 6] (\<lambda>_. 0)"
    by (simp add: fragmented_def set_page_def page_mask_exp fun_eq_iff)
  moreover have "\<not> page_used (\<lambda>_. 0) j" by (simp add: page_used_bit)
  ultimately show ?thesis by (simp only: page_used_set_range) auto
qed

theorem sw_phy_page_alloc_past_end_witness:
  "\<exists>start. fst (sw_phy_page_alloc 0x2000 fragmented) = push_bit PAGE_SHIFT (of_nat start) + 0x80000000 \<and>
    start \<le> 8 \<and> 8 < start + 2"
proof -
  have req: "2 = page_count (phy_round 0x2000)"
    by (simp add: page_count_def phy_round_def page_consts)
  have lim: "8 < search_limit (phy_mem_bmap_len fragmented) 2"
    by (simp add: search_limit_def fragmented_def)
  have "\<not> run_free (phy_mem_bmap fragmented) i 2" if "i + 2 \<le> 8" for i
  proof -
    have "i = 0 \<or> i = 1 \<or> i = 2 \<or> i = 3 \<or> i = 4 \<or> i = 5 \<or> i = 6" using that by linarith
    then show ?thesis
      by (auto simp: run_free_def fragmented_used numeral_2_eq_2 All_less_Suc2)
  qed
  then show ?thesis
    using sw_phy_page_alloc_past_end [OF req _ lim] fragmented_used
    by (simp add: fragmented_def)
qed

section \<open>Rounding to pages\<close>

lemma page_count_div: "page_count w = unat w div 4096"
proof -
  have "take_bit 32 (unat w) = unat w"
    by (rule take_bit_nat_eq_self) (use unsigned_less [of w] in simp)
  then show ?thesis
    unfolding page_count_def PAGE_SHIFT_def unsigned_drop_bit_eq by (simp add: drop_bit_eq_div)
qed

lemma unat_and_not: "unat (w AND NOT m) + unat (w AND m) = unat (w :: 'a::len word)"
proof -
  have 1: "w AND NOT m OR w AND m = w"
    by (rule bit_eqI) (auto simp: bit_or_iff bit_and_iff bit_not_iff)
  have 2: "(w AND NOT m) AND (w AND m) = 0"
    by (rule bit_eqI) (auto simp: bit_and_iff bit_not_iff)
  have "unat (w AND NOT m OR w AND m) = unat (w AND NOT m) OR unat (w AND m)"
    by (rule unsigned_or_eq)
  also have "\<dots> = unat (w AND NOT m) + unat (w AND m)"
  proof (rule disjunctive_add [symmetric])
    fix n
    show "\<not> bit (unat (w AND NOT m)) n \<or> \<not> bit (unat (w AND m)) n"
      by (auto simp: bit_unsigned_iff bit_and_iff bit_not_iff)
  qed
  finally show ?thesis using 1 by simp
qed

lemma and_page_offset: "unat (w AND (PAGE_SIZE - 1)) = unat w mod 4096"
proof -
  have "PAGE_SIZE - 1 = mask 12" by (simp add: PAGE_SIZE_def mask_eq_exp_minus_1)
  then have "w AND (PAGE_SIZE - 1) = take_bit 12 w" by (simp add: take_bit_eq_mask)
  also have "unat \<dots> = take_bit 12 (unat w)" by (rule unsigned_take_bit_eq)
  finally show ?thesis by (simp add: take_bit_eq_mod)
qed

lemma offset_zero: "(w AND (PAGE_SIZE - 1)) = 0 \<longleftrightarrow> unat w mod 4096 = 0"
  unfolding and_page_offset [symmetric] by (simp add: unat_eq_0)

lemma bit_0x1000: "bit (0x1000 :: u32) n \<longleftrightarrow> n = 12"
proof -
  have "(0x1000 :: u32) = 2 ^ 12" by simp
  moreover have "bit (2 ^ 12 :: u32) n \<longleftrightarrow> n = 12" by (rule bit_exp2) simp
  ultimately show ?thesis by (simp only:)
qed

lemma bit_0x1001: "bit (0x1001 :: u32) n \<longleftrightarrow> n = 12 \<or> n = 0"
proof -
  have "(0x1001 :: u32) = 0x1000 OR 1" by simp
  then show ?thesis by (simp only: bit_or_iff bit_0x1000 bit_1_iff)
qed

lemma and_0x1001: "unat (w AND 0x1001 :: u32) = (if bit w 12 then 4096 else 0) + (if bit w 0 then 1 else 0)"
proof -
  have "w AND 0x1001 = (if bit w 12 then if bit w 0 then 0x1001 else 0x1000 else if bit w 0 then 1 else 0)"
    by (rule bit_eqI) (auto simp only: bit_and_iff bit_0x1001 bit_0x1000 bit_1_iff bit_0_eq split: if_splits)
  then show ?thesis by simp
qed

lemma phy_round_unaligned:
  "unat (w AND (NOT PAGE_SIZE - 1)) = unat w - ((if bit w 12 then 4096 else 0) + (if bit w 0 then 1 else 0))"
proof -
  have "NOT PAGE_SIZE - 1 = NOT (0x1001 :: u32)" unfolding PAGE_SIZE_def by simp
  then show ?thesis using unat_and_not [of w "0x1001"] and_0x1001 [of w] by (metis add_diff_cancel_right')
qed

lemma ceil_pages: "(x + 4095) div 4096 = x div 4096 + (if x mod 4096 = 0 then 0 else 1 :: nat)"
proof -
  have x: "x + 4095 = x mod 4096 + 4095 + 4096 * (x div 4096)" by simp
  have "(x mod 4096 + 4095) div 4096 = (if x mod 4096 = 0 then 0 else 1 :: nat)"
    by (simp add: div_nat_eqI)
  moreover have "(x mod 4096 + 4095 + 4096 * (x div 4096)) div 4096 = x div 4096 + (x mod 4096 + 4095) div 4096"
    by (rule div_mult_self2) simp
  ultimately show ?thesis unfolding x [symmetric] by simp
qed

lemma floor_pages:
  assumes "b \<le> x mod 4096"
  shows "(x - b) div 4096 = x div (4096::nat)" "(x - b + 4096) div 4096 = x div 4096 + 1"
proof -
  have x: "x - b = x mod 4096 - b + 4096 * (x div 4096)" using assms
    by (metis Nat.add_diff_assoc2 mod_mult_div_eq)
  have "(x mod 4096 - b) div 4096 = 0" by (simp add: less_imp_diff_less)
  then show f: "(x - b) div 4096 = x div 4096" unfolding x by simp
  then show "(x - b + 4096) div 4096 = x div 4096 + 1" by simp
qed

text \<open>
  The rounding of \<open>sw_vir_page_alloc\<close> gives the number of pages that hold the size. The rounding of
  \<open>sw_phy_page_alloc\<close> gives it exactly when the size is page aligned or its page number is even:
  for a size such as 5000 it comes out one page short.
\<close>

theorem phy_round_exact_iff:
  assumes "unat sz + 4096 < 2 ^ 32"
  shows "page_count (vir_round sz) = (unat sz + 4095) div 4096 \<and>
    (page_count (phy_round sz) = (unat sz + 4095) div 4096
      \<longleftrightarrow> unat sz mod 4096 = 0 \<or> even (unat sz div 4096))"
proof (cases "unat sz mod 4096 = 0")
  case True
  then show ?thesis
    by (simp add: vir_round_def phy_round_def offset_zero page_count_div ceil_pages)
next
  case False
  let ?q = "unat sz div 4096" and ?b0 = "if bit sz 0 then 1 else 0 :: nat"
  have b12: "bit sz 12 \<longleftrightarrow> odd ?q"
  proof -
    have "bit (unat sz) 12 = bit sz 12" by (simp add: bit_unsigned_iff)
    then show ?thesis by (simp add: bit_iff_odd [of "unat sz"])
  qed
  have low: "?b0 \<le> unat sz mod 4096" using False by simp
  have lt: "unat sz + 4096 < 4294967296" using assms by simp
  have "unat (sz AND NOT (PAGE_SIZE - 1)) = unat sz - unat sz mod 4096"
    using unat_and_not [of sz "PAGE_SIZE - 1"] and_page_offset [of sz] by linarith
  moreover have nz: "(sz AND (PAGE_SIZE - 1)) \<noteq> 0" using False by (simp only: offset_zero) simp
  have ps: "unat PAGE_SIZE = 4096" by (simp add: PAGE_SIZE_def)
  ultimately have v: "unat (vir_round sz) = unat sz - unat sz mod 4096 + 4096"
    using lt by (simp only: vir_round_def nz if_True not_False_eq_True, subst unat_plus_lt) (simp_all add: ps)
  have p: "unat (phy_round sz) = unat sz - ((if bit sz 12 then 4096 else 0) + ?b0) + 4096"
    using lt phy_round_unaligned [of sz]
    by (simp only: phy_round_def nz if_True not_False_eq_True, subst unat_plus_lt) (simp_all add: ps)
  have vq: "page_count (vir_round sz) = ?q + 1"
    using floor_pages(2) [of "unat sz mod 4096" "unat sz"] by (simp add: page_count_div v)
  have "page_count (phy_round sz) = (if bit sz 12 then ?q else ?q + 1)"
  proof (cases "bit sz 12")
    case True
    then have "1 \<le> ?q" using b12 by (cases ?q) simp_all
    moreover have "4096 * ?q + unat sz mod 4096 = unat sz" by simp
    ultimately have "4096 + ?b0 \<le> unat sz" using low by linarith
    then have "unat (phy_round sz) = unat sz - ?b0" using True p by simp
    then show ?thesis using True floor_pages(1) [OF low] by (simp add: page_count_div)
  next
    case False
    then show ?thesis using floor_pages(2) [OF low] p by (simp add: page_count_div)
  qed
  then show ?thesis using vq b12 False by (simp add: ceil_pages)
qed

theorem phy_round_exact_iff_witness: "page_count (phy_round 5000) \<noteq> 2"
  using phy_round_exact_iff [of 5000] by simp

section \<open>Release and reservation\<close>

lemma unat_page_addr:
  assumes "unat base + 4096 * n < 2 ^ 32"
  shows "unat (push_bit PAGE_SHIFT (of_nat n) + base :: u32) = unat base + 4096 * n"
    "push_bit PAGE_SHIFT (of_nat n) + base - base = (of_nat (4096 * n) :: u32)"
proof -
  have e: "push_bit PAGE_SHIFT (of_nat n) = (of_nat (4096 * n) :: u32)"
    by (simp add: push_bit_eq_mult PAGE_SHIFT_def)
  have "unat (of_nat (4096 * n) :: u32) = 4096 * n"
    using assms by (intro unat_of_nat_lt) simp
  then show "unat (push_bit PAGE_SHIFT (of_nat n) + base :: u32) = unat base + 4096 * n"
    unfolding e using assms by (subst unat_plus_lt) simp_all
  show "push_bit PAGE_SHIFT (of_nat n) + base - base = (of_nat (4096 * n) :: u32)"
    unfolding e by simp
qed

lemma clear_set_range: "run_free bm i n \<Longrightarrow> fold clear_page [i..<i + n] (fold set_page [i..<i + n] bm) = bm"
proof (rule bitmap_eqI)
  fix j assume r: "run_free bm i n"
  have "i \<le> j \<Longrightarrow> j < i + n \<Longrightarrow> \<not> page_used bm j"
    using r by (auto simp: run_free_def dest: spec [of _ "j - i"])
  then show "page_used (fold clear_page [i..<i + n] (fold set_page [i..<i + n] bm)) j = page_used bm j"
    by (auto simp: page_used_clear_range page_used_set_range)
qed

text \<open>
  Freeing what \<open>sw_phy_page_alloc\<close> returned, with the same page-aligned size, restores the bitmap and
  the count exactly, provided the range allocated starts inside the region.
\<close>

theorem phy_alloc_free_roundtrip:
  assumes "unat sz mod 4096 = 0" "sw_phy_page_alloc sz m = (a, m')" "a \<noteq> 0"
    and "unat (phy_addr_start m) + 4096 * (8 * unat (phy_mem_bmap_len m)) < 2 ^ 32"
    and "int (page_count sz) \<le> 8 * int (unat (phy_mem_bmap_len m))"
    and "phy_addr_start m \<le> a" "a \<le> phy_addr_start m + phy_memregion_size m"
  shows "sw_phy_addr_free a sz m' = (0, m)"
proof -
  let ?req = "page_count sz" and ?bm = "phy_mem_bmap m"
  let ?fr = "find_run ?bm (search_limit (phy_mem_bmap_len m) ?req) ?req 0"
  note sp = find_run_spec [where bm = ?bm and limit = "search_limit (phy_mem_bmap_len m) ?req"
      and req = ?req and start = 0]
  have r: "phy_round sz = sz" using assms(1) by (simp add: phy_round_def offset_zero)
  obtain st where st: "?fr = Some st" "a = push_bit PAGE_SHIFT (of_nat st) + phy_addr_start m"
      "m' = m\<lparr>phy_mem_bmap := fold set_page [st..<st + ?req] ?bm,
            num_phy_pag_free := num_phy_pag_free m - int ?req\<rparr>"
    using assms(2,3) by (auto simp: sw_phy_page_alloc_def r Let_def split: if_splits option.splits)
  have lim: "search_limit (phy_mem_bmap_len m) ?req \<le> 8 * unat (phy_mem_bmap_len m)"
  proof -
    have l8: "push_bit 3 (phy_mem_bmap_len m) = of_nat (8 * unat (phy_mem_bmap_len m))"
      by (simp add: push_bit_eq_mult of_nat_unat_id)
    have "push_bit 3 (phy_mem_bmap_len m) - of_nat ?req = (of_nat (8 * unat (phy_mem_bmap_len m) - ?req) :: u32)"
      unfolding l8 by (rule of_nat_diff [symmetric]) (use assms(5) in linarith)
    moreover have "unat (of_nat (8 * unat (phy_mem_bmap_len m) - ?req) :: u32) = 8 * unat (phy_mem_bmap_len m) - ?req"
      using assms(4) by (intro unat_of_nat_lt) simp
    ultimately show ?thesis by (simp add: search_limit_def)
  qed
  have "st < search_limit (phy_mem_bmap_len m) ?req" and run: "run_free ?bm st ?req"
    using sp st(1) by simp_all
  then have fit: "unat (phy_addr_start m) + 4096 * st < 2 ^ 32" using lim assms(4) by linarith
  have pg: "page_count (a - phy_addr_start m) = st"
    unfolding st(2) unat_page_addr(2) [OF fit] page_count_div
    using fit by (subst unat_of_nat_lt) simp_all
  show ?thesis
    using assms(6,7) clear_set_range [OF run] pg st(3)
    by (simp add: sw_phy_addr_free_def Let_def not_less [symmetric])
qed

lemma fragmented_alloc:
  "page_count (phy_round 0x1000) = 1" "search_limit 4 1 = 31"
  "fst (sw_phy_page_alloc 0x1000 fragmented) = 0x80001000"
proof -
  show pc: "page_count (phy_round 0x1000) = 1" "search_limit 4 1 = 31"
    by (simp_all add: page_count_def phy_round_def page_consts search_limit_def)
  have "find_run (phy_mem_bmap fragmented) 31 1 0 = Some 1"
    by (subst find_run.simps, simp add: fragmented_used, subst find_run.simps, simp add: fragmented_used)
  then show "fst (sw_phy_page_alloc 0x1000 fragmented) = 0x80001000"
    using pc by (simp add: sw_phy_page_alloc_def Let_def) (simp add: fragmented_def PAGE_SHIFT_def)
qed

theorem sw_phy_page_alloc_exact_witness:
  "\<exists>start. 0x80001000 = push_bit PAGE_SHIFT (of_nat start) + (0x80000000 :: u32) \<and> start < 31 \<and>
     run_free (phy_mem_bmap fragmented) start 1 \<and> (\<forall>i. i < start \<longrightarrow> \<not> run_free (phy_mem_bmap fragmented) i 1)"
proof -
  have m: "phy_mem_bmap_len fragmented = 4" "phy_addr_start fragmented = 0x80000000"
    by (simp_all add: fragmented_def)
  from sw_phy_page_alloc_exact [of "0x1000" fragmented] show ?thesis
    using fragmented_alloc(2) by (auto simp: Let_def fragmented_alloc m)
qed

theorem phy_alloc_free_roundtrip_witness:
  "\<exists>a m'. sw_phy_page_alloc 0x1000 fragmented = (a, m') \<and> sw_phy_addr_free a 0x1000 m' = (0, fragmented)"
proof -
  obtain m' where "sw_phy_page_alloc 0x1000 fragmented = (0x80001000, m')"
    using fragmented_alloc(3) by (cases "sw_phy_page_alloc 0x1000 fragmented") simp
  then show ?thesis
    using phy_alloc_free_roundtrip [of "0x1000" fragmented "0x80001000" m']
    by (simp add: fragmented_def page_count_div)
qed

lemma page_step_mod: "unat (sz - PAGE_SIZE) mod 4096 = unat sz mod 4096"
proof -
  have "sz - PAGE_SIZE = sz + 0xFFFFF000" by (simp add: PAGE_SIZE_def)
  then have "unat (sz - PAGE_SIZE) = (unat sz + 4294963200) mod 4294967296"
    by (simp only: unat_word_ariths(1)) simp
  then have "unat (sz - PAGE_SIZE) mod 4096 = (unat sz + 4294963200) mod 4096"
    by (simp add: mod_mod_cancel)
  also have "\<dots> = (unat sz + 4096 * 1048575) mod 4096" by simp
  finally show ?thesis by (simp only: mod_mult_self2)
qed

lemma reserve_loop_None:
  assumes "reserve_loop i sz bm free = Some r"
  shows "unat sz mod 4096 = 0"
proof (rule reserve_loop.raw_induct [where P = "\<lambda>i sz bm free r. unat sz mod 4096 = 0", OF _ assms])
  fix rl :: "nat \<Rightarrow> u32 \<Rightarrow> bitmap \<Rightarrow> int \<Rightarrow> (bitmap \<times> int) option" and i sz bm free r
  assume IH: "\<And>i sz bm free y. rl i sz bm free = Some y \<Longrightarrow> unat sz mod 4096 = 0"
    and eq: "(if sz > 0 then rl i (sz - PAGE_SIZE) (set_page i bm) (free - 1) else Some (bm, free)) = Some r"
  show "unat sz mod 4096 = 0"
  proof (cases "sz > 0")
    case True
    then show ?thesis using IH eq page_step_mod [of sz] by simp
  next
    case False
    then show ?thesis by (simp add: word_gt_0)
  qed
qed

lemma reserve_loop_pages:
  "n < 2 ^ 20 \<Longrightarrow> reserve_loop i (of_nat (4096 * n)) bm free =
     Some (if n = 0 then bm else set_page i bm, free - int n)"
proof (induction n arbitrary: bm free)
  case 0
  then show ?case by (subst reserve_loop.simps) simp
next
  case (Suc n)
  have u: "unat (of_nat (4096 * Suc n) :: u32) = 4096 * Suc n"
    using Suc.prems by (intro unat_of_nat_lt) simp
  then have pos: "(of_nat (4096 * Suc n) :: u32) > 0" unfolding word_less_nat_alt by simp
  have d: "of_nat (4096 * Suc n) - PAGE_SIZE = (of_nat (4096 * n) :: u32)"
    by (simp add: PAGE_SIZE_def)
  have "set_page i (set_page i bm) = set_page i bm"
    by (rule bitmap_eqI) (simp add: page_used_set)
  moreover have "reserve_loop i (of_nat (4096 * Suc n)) bm free = reserve_loop i (of_nat (4096 * n)) (set_page i bm) (free - 1)"
    by (subst reserve_loop.simps) (simp only: pos if_True d)
  ultimately show ?case using Suc by simp
qed

text \<open>
  \<open>sw_phy_addr_reserve\<close> on a free range of the region does not do what its name says: for a
  page-aligned size it marks only the first page of the range, although it counts all of them
  off, and for any other size it never returns.
\<close>

theorem sw_phy_addr_reserve_first_page:
  assumes "phy_addr_start m \<le> a" "a \<le> phy_addr_start m + phy_memregion_size m"
    and "i = page_count (a - phy_addr_start m)" "run_free (phy_mem_bmap m) i (page_count sz)"
  shows "sw_phy_addr_reserve a sz m =
    (if unat sz mod 4096 = 0
     then Some (0, m\<lparr>phy_mem_bmap := if sz = 0 then phy_mem_bmap m else set_page i (phy_mem_bmap m),
                    num_phy_pag_free := num_phy_pag_free m - int (page_count sz)\<rparr>)
     else None)"
proof -
  have c: "count_free (phy_mem_bmap m) i (page_count sz) = page_count sz"
    using assms(4) by (simp add: count_free_all run_free_def)
  have eq: "sw_phy_addr_reserve a sz m =
      map_option (\<lambda>(bm, free). (0, m\<lparr>phy_mem_bmap := bm, num_phy_pag_free := free\<rparr>))
        (reserve_loop i sz (phy_mem_bmap m) (num_phy_pag_free m))"
    using assms c by (simp add: sw_phy_addr_reserve_def Let_def not_less [symmetric])
  show ?thesis
  proof (cases "unat sz mod 4096 = 0")
    case True
    then have "unat sz = 4096 * page_count sz"
      using mult_div_mod_eq [of 4096 "unat sz"] by (simp add: page_count_div)
    then have sz: "sz = of_nat (4096 * page_count sz)" by (metis of_nat_unat_id)
    have "page_count sz < 2 ^ 20"
      using unat_lt_2p32 [of sz] by (simp add: page_count_div less_mult_imp_div_less)
    then have "reserve_loop i sz (phy_mem_bmap m) (num_phy_pag_free m) =
        Some (if page_count sz = 0 then phy_mem_bmap m else set_page i (phy_mem_bmap m),
              num_phy_pag_free m - int (page_count sz))"
      using reserve_loop_pages sz by metis
    moreover have "page_count sz = 0 \<longleftrightarrow> sz = 0" using \<open>unat sz = 4096 * page_count sz\<close>
      by (metis mult_eq_0_iff unat_eq_0 zero_neq_numeral)
    ultimately show ?thesis using eq True by simp
  next
    case False
    then show ?thesis using eq reserve_loop_None [of i sz] by (cases "reserve_loop i sz (phy_mem_bmap m) (num_phy_pag_free m)") auto
  qed
qed

theorem sw_phy_addr_reserve_first_page_witness:
  "sw_phy_addr_reserve 0x80000000 0x1800 (fragmented\<lparr>phy_mem_bmap := \<lambda>_. 0\<rparr>) = None"
proof -
  have "run_free (\<lambda>_. 0) 0 n" for n by (simp add: run_free_def page_used_bit)
  then show ?thesis
    using sw_phy_addr_reserve_first_page [of "fragmented\<lparr>phy_mem_bmap := \<lambda>_. 0\<rparr>" "0x80000000" 0 "0x1800"]
    by (simp add: fragmented_def page_count_div)
qed

end
