(* ===== verification/SwTimer.thy ===== *)
theory SwTimer
  imports SwBuddyInv
begin

text \<open>
  Software timers (\<open>core/sw_timer.c\<close>) and the conversions between clock cycles and time
  (\<open>arch/arm/armv7/cpu_api.c\<close>).

  A \<open>timeval_t\<close> is a union of a 64-bit integer and two 32-bit halves, the nanoseconds (low) and
  the seconds (high), both signed; \<open>total\<close> is the time it stands for. The counter of the
  hardware is an argument: a stream of readings. The list of active events is the sequence of
  their addresses (theory \<open>SwList\<close>). The operations work on every extension of the record of the
  timers, so that a handler may also change what another component keeps (theory \<open>SwWait\<close>).
\<close>

section \<open>Time values\<close>

type_synonym timeval = u64

definition tv_nsec :: "timeval \<Rightarrow> u32" where "tv_nsec v = ucast v"
definition tv_sec :: "timeval \<Rightarrow> u32" where "tv_sec v = ucast (drop_bit 32 v)"
definition tv_join :: "u32 \<Rightarrow> u32 \<Rightarrow> timeval" where
  "tv_join sec nsec = push_bit 32 (ucast sec) OR ucast nsec"

definition NSECS_PER_SEC :: u32 where "NSECS_PER_SEC = 1000000000"
definition TIMEVAL_MAX :: timeval where "TIMEVAL_MAX = NOT (push_bit 63 1) AND NOT 0xFFFFFFFF"

definition timeval_add :: "timeval \<Rightarrow> timeval \<Rightarrow> timeval" where
  "timeval_add a b =
     (let sum = a + b
      in if NSECS_PER_SEC - 1 <s tv_nsec sum
         then tv_join (tv_sec sum + 1) (tv_nsec sum - NSECS_PER_SEC) else sum)"

definition timeval_sub :: "timeval \<Rightarrow> timeval \<Rightarrow> timeval" where
  "timeval_sub a b =
     (let diff = a - b
      in if tv_nsec diff <s 0 then tv_join (tv_sec diff) (tv_nsec diff + NSECS_PER_SEC) else diff)"

definition timeval_after :: "timeval \<Rightarrow> timeval \<Rightarrow> bool" where
  "timeval_after a b =
     (let diff = timeval_sub a b
      in 0 <s tv_sec diff \<or> (tv_sec diff = 0 \<and> 1000 <s tv_nsec diff))"

definition timeval_before :: "timeval \<Rightarrow> timeval \<Rightarrow> bool" where
  "timeval_before a b = (\<not> timeval_after a b)"

section \<open>Clock cycles\<close>

definition TIMER_PERIOD_US :: u32 where "TIMER_PERIOD_US = 1"
definition TIMER_COUNT_MAX :: u64 where "TIMER_COUNT_MAX = 0xFFFFFFFF"

text \<open>The shift-and-add division and multiplication by 1000.\<close>

definition div_1000 :: "u64 \<Rightarrow> u64" where
  "div_1000 x = (let y = drop_bit 10 x in y + drop_bit 7 (3 * y) + drop_bit 14 (9 * y))"

definition mul_1000 :: "u64 \<Rightarrow> u64" where
  "mul_1000 x = push_bit 10 x + push_bit 3 x - push_bit 5 x"

definition clockcycles_to_timeval :: "u32 \<Rightarrow> timeval" where
  "clockcycles_to_timeval clockcycles =
     (let usecs = ucast (clockcycles * TIMER_PERIOD_US) :: u64;
          tmp_secs = div_1000 (div_1000 usecs);
          tmp_usecs = usecs - mul_1000 (mul_1000 tmp_secs)
      in tv_join (ucast tmp_secs) (ucast (mul_1000 tmp_usecs)))"

definition timeval_to_clockcycles :: "timeval \<Rightarrow> u64" where
  "timeval_to_clockcycles t =
     (if tv_sec t <s 0 \<or> tv_nsec t <s 0 then 0
      else
        let tmp_sec = (if 0 <s tv_sec t then mul_1000 (mul_1000 (scast (tv_sec t))) else scast (tv_sec t));
            useconds = div_1000 (scast (tv_nsec t)) + tmp_sec;
            clockcycles = ucast (ucast useconds div TIMER_PERIOD_US :: u32)
        in if clockcycles = 0 then ucast TIMER_PERIOD_US else clockcycles)"

section \<open>Events and the state of the timer\<close>

definition TIMER_STATE_INACTIVE :: u32 where "TIMER_STATE_INACTIVE = 0"
definition TIMER_STATE_ACTIVE :: u32 where "TIMER_STATE_ACTIVE = 1"
definition TIMER_STATE_PENDING :: u32 where "TIMER_STATE_PENDING = 2"
definition TIMER_STATE_EXECUTING :: u32 where "TIMER_STATE_EXECUTING = 4"

lemmas timer_states = TIMER_STATE_INACTIVE_def TIMER_STATE_ACTIVE_def TIMER_STATE_PENDING_def
  TIMER_STATE_EXECUTING_def

record timer_event =
  expires :: timeval
  handler :: u32
  te_state :: u32
  te_data :: u32

record sw_timer_info =
  sw_timestamp :: timeval
  abs_cycles_count :: u64
  cycles_count_old :: u64
  cycles_count_new :: u64

text \<open>\<open>tick\<close> is the value last loaded into the one-shot timer; \<open>cntr\<close> the readings to come.\<close>

record timer_state =
  info :: sw_timer_info
  expires_next :: timeval
  num_events :: nat
  active :: "u32 list"
  events :: "u32 \<Rightarrow> timer_event"
  tick :: "u64 option"
  cntr :: "nat \<Rightarrow> u32"
  reads :: nat
  theap :: buddy_state

definition init_sw_timer :: "'a timer_state_scheme \<Rightarrow> 'a timer_state_scheme" where
  "init_sw_timer s = s\<lparr>expires_next := TIMEVAL_MAX, num_events := 0, active := [],
     info := \<lparr>sw_timestamp = 0, abs_cycles_count = 0, cycles_count_old = 0, cycles_count_new = 0\<rparr>\<rparr>"

definition advance :: "u64 \<Rightarrow> sw_timer_info \<Rightarrow> sw_timer_info" where
  "advance tmp_cycles i = i\<lparr>abs_cycles_count := abs_cycles_count i + tmp_cycles,
     sw_timestamp := timeval_add (sw_timestamp i) (clockcycles_to_timeval (ucast tmp_cycles))\<rparr>"

definition free_running_cntr_intr :: "'a timer_state_scheme \<Rightarrow> 'a timer_state_scheme" where
  "free_running_cntr_intr s =
     (let i = info s
      in s\<lparr>info := advance (TIMER_COUNT_MAX - cycles_count_old i)
                    (i\<lparr>cycles_count_new := TIMER_COUNT_MAX, cycles_count_old := 0\<rparr>)\<rparr>)"

definition read_timestamp :: "'a timer_state_scheme \<Rightarrow> timeval \<times> 'a timer_state_scheme" where
  "read_timestamp s =
     (let i = info s; new = ucast (cntr s (reads s));
          i' = advance (new - cycles_count_old i) (i\<lparr>cycles_count_new := new, cycles_count_old := new\<rparr>)
      in (sw_timestamp i', s\<lparr>info := i', reads := reads s + 1\<rparr>))"

section \<open>The queue of active events\<close>

definition upd_event :: "u32 \<Rightarrow> (timer_event \<Rightarrow> timer_event) \<Rightarrow> 'a timer_state_scheme \<Rightarrow> 'a timer_state_scheme" where
  "upd_event e f s = s\<lparr>events := (events s)(e := f (events s e))\<rparr>"

text \<open>The new event goes in front of the first one that expires later (signed comparison).\<close>

fun queue_insert :: "(u32 \<Rightarrow> timer_event) \<Rightarrow> u32 \<Rightarrow> u32 list \<Rightarrow> u32 list" where
  "queue_insert ev new [] = [new]"
| "queue_insert ev new (temp # rest) =
     (if expires (ev new) <s expires (ev temp) then new # temp # rest
      else temp # queue_insert ev new rest)"

definition timer_queue_add :: "u32 \<Rightarrow> 'a timer_state_scheme \<Rightarrow> 'a timer_state_scheme" where
  "timer_queue_add e s =
     upd_event e (\<lambda>v. v\<lparr>te_state := TIMER_STATE_ACTIVE\<rparr>) (s\<lparr>active := queue_insert (events s) e (active s)\<rparr>)"

definition timer_queue_del :: "u32 \<Rightarrow> 'a timer_state_scheme \<Rightarrow> 'a timer_state_scheme" where
  "timer_queue_del e s =
     (if e = 0 then s
      else upd_event e (\<lambda>v. v\<lparr>te_state := TIMER_STATE_INACTIVE\<rparr>) (s\<lparr>active := remove1 e (active s)\<rparr>))"

definition timer_queue_getnext :: "'a timer_state_scheme \<Rightarrow> u32 option" where
  "timer_queue_getnext s = (case active s of [] \<Rightarrow> None | e # _ \<Rightarrow> Some e)"

definition SIZEOF_TIMER_EVENT :: u32 where "SIZEOF_TIMER_EVENT = 48"

definition timer_event_create :: "u32 \<Rightarrow> u32 \<Rightarrow> 'a timer_state_scheme \<Rightarrow> panic + (u32 \<times> 'a timer_state_scheme)" where
  "timer_event_create h priv_data s =
     (case sw_malloc_private COMMON_HEAP_ID SIZEOF_TIMER_EVENT (theap s) of
        Inl e \<Rightarrow> Inl e
      | Inr (p, hs) \<Rightarrow>
          if p = 0 then Inr (0, s\<lparr>theap := hs\<rparr>)
          else Inr (p, upd_event p (\<lambda>_. \<lparr>expires = TIMEVAL_MAX, handler = h,
                 te_state = TIMER_STATE_INACTIVE, te_data = priv_data\<rparr>) (s\<lparr>theap := hs\<rparr>)))"

definition timer_event_destroy :: "u32 \<Rightarrow> 'a timer_state_scheme \<Rightarrow> int \<times> 'a timer_state_scheme" where
  "timer_event_destroy e s =
     (if e = 0 then (- 1, s)
      else if te_state (events s e) = TIMER_STATE_INACTIVE
      then (0, s\<lparr>theap := sw_free_private COMMON_HEAP_ID e (theap s)\<rparr>)
      else (- 1, s))"

definition timer_event_set_expire :: "u32 \<Rightarrow> timeval \<Rightarrow> 'a timer_state_scheme \<Rightarrow> 'a timer_state_scheme" where
  "timer_event_set_expire e t = upd_event e (\<lambda>v. v\<lparr>expires := t\<rparr>)"

definition timer_get_expire :: "u32 \<Rightarrow> 'a timer_state_scheme \<Rightarrow> timeval" where
  "timer_get_expire e s = expires (events s e)"

section \<open>Programming the hardware\<close>

definition trigger_tick :: "u64 \<Rightarrow> 'a timer_state_scheme \<Rightarrow> 'a timer_state_scheme" where
  "trigger_tick usecs s =
     (let u1 = (if usecs > TIMER_COUNT_MAX then TIMER_COUNT_MAX else usecs);
          u2 = (if u1 = 0 then 1 else u1)
      in s\<lparr>tick := Some u2\<rparr>)"

definition program_tick_for_event :: "timeval \<Rightarrow> 'a timer_state_scheme \<Rightarrow> 'a timer_state_scheme" where
  "program_tick_for_event expires_time s =
     (case read_timestamp s of
        (now, s1) \<Rightarrow>
          let left = timeval_sub expires_time now;
              clockcycles = (if tv_sec left <s 0 \<or> tv_nsec left <s 0 then 1 else timeval_to_clockcycles left)
          in trigger_tick clockcycles (s1\<lparr>expires_next := expires_time\<rparr>))"

text \<open>The absolute expiry time is also stored through the caller's pointer.\<close>

definition timer_event_start :: "u32 \<Rightarrow> timeval \<Rightarrow> 'a timer_state_scheme \<Rightarrow> timeval \<times> 'a timer_state_scheme" where
  "timer_event_start e time s =
     (if e = 0 then (time, s)
      else case read_timestamp s of
        (now, s1) \<Rightarrow>
          let t = timeval_add now time;
              s2 = timer_queue_add e (timer_event_set_expire e t s1)
          in (t, if expires (events s2 e) <s expires_next s2
                 then program_tick_for_event (expires (events s2 e)) s2 else s2))"

definition is_timer_event_active :: "u32 \<Rightarrow> 'a timer_state_scheme \<Rightarrow> bool" where
  "is_timer_event_active e s = (e \<noteq> 0 \<and> (te_state (events s e) AND TIMER_STATE_ACTIVE) \<noteq> 0)"

definition is_timer_event_waiting_on_callback :: "u32 \<Rightarrow> 'a timer_state_scheme \<Rightarrow> bool" where
  "is_timer_event_waiting_on_callback e s = (e \<noteq> 0 \<and> (te_state (events s e) AND TIMER_STATE_PENDING) \<noteq> 0)"

definition timer_event_stop :: "u32 \<Rightarrow> 'a timer_state_scheme \<Rightarrow> 'a timer_state_scheme" where
  "timer_event_stop e s =
     (if is_timer_event_waiting_on_callback e s then s
      else if is_timer_event_active e s
      then
        let s1 = (if timer_queue_getnext s = Some e \<and> timer_get_expire e s = expires_next s
                  then let n = (case tl (active s) of [] \<Rightarrow> TIMEVAL_MAX | x # _ \<Rightarrow> expires (events s x))
                       in if n \<noteq> expires_next s then program_tick_for_event n s else s
                  else s)
        in timer_queue_del e s1
      else s)"

text \<open>\<open>hndl p e\<close> runs the handler at \<open>p\<close>; a null pointer is skipped.\<close>

definition run_timer_handler ::
  "(u32 \<Rightarrow> u32 \<Rightarrow> 'a timer_state_scheme \<Rightarrow> 'a timer_state_scheme) \<Rightarrow> u32 \<Rightarrow> 'a timer_state_scheme \<Rightarrow> 'a timer_state_scheme" where
  "run_timer_handler hndl e s =
     (let s1 = timer_queue_del e (s\<lparr>num_events := num_events s + 1\<rparr>)
      in if handler (events s1 e) \<noteq> 0 then hndl (handler (events s1 e)) e s1 else s1)"

partial_function (option) interrupt_loop ::
  "(u32 \<Rightarrow> u32 \<Rightarrow> 'a timer_state_scheme \<Rightarrow> 'a timer_state_scheme) \<Rightarrow> 'a timer_state_scheme \<Rightarrow> 'a timer_state_scheme option" where
  "interrupt_loop hndl s =
     (case timer_queue_getnext s of
        None \<Rightarrow> Some s
      | Some e \<Rightarrow>
          let temp_time = timer_get_expire e s; (now, s1) = read_timestamp s;
              diff = timeval_sub temp_time now
          in if 0 <s tv_sec diff \<or> (tv_sec diff = 0 \<and> 1000 <s tv_nsec diff)
             then Some (program_tick_for_event
                         (if temp_time <s TIMEVAL_MAX then temp_time else TIMEVAL_MAX) s1)
             else interrupt_loop hndl
                    (run_timer_handler hndl e (upd_event e (\<lambda>v. v\<lparr>te_state := TIMER_STATE_EXECUTING\<rparr>) s1)))"

definition timer_interrupt ::
  "(u32 \<Rightarrow> u32 \<Rightarrow> 'a timer_state_scheme \<Rightarrow> 'a timer_state_scheme) \<Rightarrow> 'a timer_state_scheme \<Rightarrow> 'a timer_state_scheme option" where
  "timer_interrupt hndl s = map_option (\<lambda>s'. s'\<lparr>expires_next := TIMEVAL_MAX\<rparr>) (interrupt_loop hndl s)"

end
