(* ===== verification/SwTimerInv.thy ===== *)
theory SwTimerInv
  imports SwTimer "HOL-Library.Multiset"
begin

text \<open>
  Properties of the timers (\<open>SwTimer\<close>): the arithmetic on time values is exact on normalised
  values, the queue of active events stays sorted, and the timer interrupt runs a prefix of it.
\<close>

section \<open>The two halves of a time value\<close>

lemma tv_join_of_nat: "tv_join h l = of_nat (unat h * 2 ^ 32 + unat l)"
proof -
  have "tv_join h l = push_bit 32 (ucast h) + ucast l"
    unfolding tv_join_def
  proof (rule disjunctive_add [symmetric])
    fix n
    show "\<not> bit (push_bit 32 (ucast h) :: u64) n \<or> \<not> bit (ucast l :: u64) n"
      using bit_imp_le_length [of l n] by (auto simp: bit_push_bit_iff bit_unsigned_iff)
  qed
  then show ?thesis by (simp add: push_bit_eq_mult of_nat_unat)
qed

lemma unat_halves_lt: "unat (h::u32) * 2 ^ 32 + unat (l::u32) < 2 ^ 64"
  using unat_lt_2p32 [of h] unat_lt_2p32 [of l] by simp

lemma unat_tv_join: "unat (tv_join h l) = unat h * 2 ^ 32 + unat l"
  unfolding tv_join_of_nat using unat_halves_lt [of h l] by (intro unat_of_nat_lt) simp

lemma unat_tv_nsec: "unat (tv_nsec v) = unat v mod 2 ^ 32"
  unfolding tv_nsec_def unsigned_ucast_eq by (simp add: unsigned_take_bit_eq take_bit_eq_mod)

lemma unat_drop_bit: "unat (drop_bit n (w::'a::len word)) = unat w div 2 ^ n"
proof -
  have "take_bit LENGTH('a) (unat w) = unat w"
    by (rule take_bit_nat_eq_self) (rule unsigned_less)
  then have "unat (drop_bit n w) = drop_bit n (unat w)" by (simp add: unsigned_drop_bit_eq)
  then show ?thesis by (simp only: drop_bit_eq_div)
qed

lemma unat_tv_sec: "unat (tv_sec v) = unat v div 2 ^ 32"
proof -
  have "unat v < 2 ^ 64" using unsigned_less [of v] by simp
  then have "unat v div 2 ^ 32 < 2 ^ 32" by (simp add: less_mult_imp_div_less)
  then show ?thesis
    unfolding tv_sec_def by (subst unat_ucast_small) (simp_all add: unat_drop_bit)
qed

lemma tv_parts [simp]: "tv_sec (tv_join h l) = h" "tv_nsec (tv_join h l) = l"
proof -
  have "unat l < 2 ^ 32" using unat_lt_2p32 [of l] by simp
  then show "tv_sec (tv_join h l) = h" "tv_nsec (tv_join h l) = l"
    by (simp_all add: unat_inject [symmetric] unat_tv_sec unat_tv_nsec unat_tv_join)
qed

lemma tv_join_parts: "tv_join (tv_sec v) (tv_nsec v) = v"
  by (simp add: unat_inject [symmetric] unat_tv_join unat_tv_sec unat_tv_nsec)

lemma of_nat_mod64: "(of_nat (n mod 2 ^ 64) :: u64) = of_nat n"
  by (simp add: word_of_nat_eq_iff take_bit_eq_mod)

lemma tv_join_add:
  "tv_join h1 l1 + tv_join h2 l2 = tv_join (h1 + h2 + of_nat ((unat l1 + unat l2) div 2 ^ 32)) (l1 + l2)"
proof -
  define L where "L = unat l1 + unat l2"
  define H where "H = unat h1 + unat h2 + L div 2 ^ 32"
  have l: "unat (l1 + l2) = L mod 2 ^ 32" by (simp add: unat_word_ariths(1) L_def)
  have "h1 + h2 + of_nat (L div 2 ^ 32) = of_nat H" by (simp add: H_def of_nat_unat_id)
  then have h: "unat (h1 + h2 + of_nat (L div 2 ^ 32)) = H mod 2 ^ 32"
    by (simp add: unsigned_of_nat take_bit_eq_mod)
  have "tv_join h1 l1 + tv_join h2 l2 = of_nat (H * 2 ^ 32 + L mod 2 ^ 32)"
  proof -
    have "unat h1 * 2 ^ 32 + unat l1 + (unat h2 * 2 ^ 32 + unat l2) = H * 2 ^ 32 + L mod 2 ^ 32"
      using div_mult_mod_eq [of L "2 ^ 32"] by (simp add: H_def L_def algebra_simps)
    then show ?thesis unfolding tv_join_of_nat by (metis of_nat_add)
  qed
  also have "\<dots> = of_nat ((H * 2 ^ 32) mod 2 ^ 64) + of_nat (L mod 2 ^ 32)"
    by (simp only: of_nat_add of_nat_mod64)
  also have "(H * 2 ^ 32) mod 2 ^ 64 = H mod 2 ^ 32 * (2 ^ 32)"
    using mod_mult_mult2 [of H "2 ^ 32" "2 ^ 32"] by simp
  also have "of_nat (H mod 2 ^ 32 * 2 ^ 32) + of_nat (L mod 2 ^ 32) = tv_join (of_nat H) (l1 + l2)"
    unfolding tv_join_of_nat l by (simp add: unsigned_of_nat take_bit_eq_mod)
  finally show ?thesis by (simp add: H_def L_def of_nat_unat_id)
qed

lemma tv_join_sub:
  "tv_join h1 l1 - tv_join h2 l2 = tv_join (h1 - h2 - (if unat l1 < unat l2 then 1 else 0)) (l1 - l2)"
proof -
  let ?c = "if unat l1 < unat l2 then 1 else 0 :: u32"
  have "(unat (l1 - l2) + unat l2) div 2 ^ 32 = (if unat l1 < unat l2 then 1 else 0)"
  proof (cases "unat l1 < unat l2")
    case True
    have "unat (l1 - l2) = 2 ^ 32 + unat l1 - unat l2"
      using True unat_lt_2p32 [of l2] by (simp add: unat_sub_if_size word_size)
    then have "unat (l1 - l2) + unat l2 = unat l1 + 2 ^ 32"
      using unat_lt_2p32 [of l2] by simp
    then show ?thesis using True unat_lt_2p32 [of l1] by simp
  next
    case False
    then have "unat (l1 - l2) + unat l2 = unat l1"
      by (subst unat_minus_le) (simp_all add: word_le_nat_alt)
    then show ?thesis using False unat_lt_2p32 [of l1] by simp
  qed
  then have "of_nat ((unat (l1 - l2) + unat l2) div 2 ^ 32) = ?c" by simp
  then have "tv_join (h1 - h2 - ?c) (l1 - l2) + tv_join h2 l2 = tv_join h1 l1"
    unfolding tv_join_add by simp
  then show ?thesis by (metis add_diff_cancel_right')
qed

section \<open>Arithmetic on time values\<close>

definition norm :: "timeval \<Rightarrow> bool" where
  "norm v \<longleftrightarrow> 0 \<le> sint (tv_nsec v) \<and> sint (tv_nsec v) < 1000000000"

definition total :: "timeval \<Rightarrow> int" where
  "total v = sint (tv_sec v) * 1000000000 + sint (tv_nsec v)"

lemma sint_in_range: "- 2147483648 \<le> k \<Longrightarrow> k < 2147483648 \<Longrightarrow> signed_take_bit 31 k = (k::int)"
  by (intro signed_take_bit_int_eq_self) simp_all

lemma sint_plus:
  "- 2147483648 \<le> sint a + sint b \<Longrightarrow> sint a + sint b < 2147483648 \<Longrightarrow> sint (a + b :: u32) = sint a + sint b"
  by (simp add: sint_word_ariths sint_in_range)

lemma sint_minus:
  "- 2147483648 \<le> sint a - sint b \<Longrightarrow> sint a - sint b < 2147483648 \<Longrightarrow> sint (a - b :: u32) = sint a - sint b"
  by (simp add: sint_word_ariths sint_in_range)

lemma uint_of_sint: "0 \<le> sint (w::u32) \<Longrightarrow> uint w = sint w"
proof -
  assume pos: "0 \<le> sint w"
  have s: "sint w = signed_take_bit 31 (uint w)" by (simp add: sint_uint)
  have u: "0 \<le> uint w" "uint w < 4294967296" using uint_lt2p [of w] by simp_all
  show ?thesis
  proof (cases "uint w < 2147483648")
    case True
    then show ?thesis unfolding s using u by (subst sint_in_range) linarith+
  next
    case False
    have "take_bit 32 (uint w) = take_bit 32 (uint w - 4294967296)"
      by (simp add: take_bit_eq_mod)
    then have "signed_take_bit 31 (uint w) = signed_take_bit 31 (uint w - 4294967296)"
      using signed_take_bit_eq_iff_take_bit_eq [of 31 "uint w" "uint w - 4294967296"]
      by (simp add: numeral_eq_Suc)
    also have "\<dots> = uint w - 4294967296" using False u by (subst sint_in_range) linarith+
    finally show ?thesis using pos u s by linarith
  qed
qed

lemma unat_of_sint: "0 \<le> sint (w::u32) \<Longrightarrow> int (unat w) = sint w"
  by (simp add: uint_of_sint)

text \<open>
  \<open>timeval_add\<close> of two normalised times is normalised and stands for exactly their sum, as long
  as the seconds do not overflow.
\<close>

theorem timeval_add_exact:
  assumes "norm a" "norm b"
    and "- 2147483648 \<le> sint (tv_sec a) + sint (tv_sec b)" "sint (tv_sec a) + sint (tv_sec b) < 2147483647"
  shows "norm (timeval_add a b) \<and> total (timeval_add a b) = total a + total b"
proof -
  let ?sa = "tv_sec a" and ?na = "tv_nsec a" and ?sb = "tv_sec b" and ?nb = "tv_nsec b"
  have n: "0 \<le> sint ?na" "sint ?na < 1000000000" "0 \<le> sint ?nb" "sint ?nb < 1000000000"
    using assms by (simp_all add: norm_def)
  have "unat ?na + unat ?nb < 4294967296"
    using n unat_of_sint [of ?na] unat_of_sint [of ?nb] by linarith
  then have "(unat ?na + unat ?nb) div 2 ^ 32 = 0" by simp
  then have sum: "a + b = tv_join (?sa + ?sb) (?na + ?nb)"
    using tv_join_add [of ?sa ?na ?sb ?nb] by (simp add: tv_join_parts)
  have sec: "sint (?sa + ?sb) = sint ?sa + sint ?sb" using assms by (intro sint_plus) simp_all
  have sn: "sint (?na + ?nb) = sint ?na + sint ?nb" using n by (intro sint_plus) linarith+
  have cmp: "NSECS_PER_SEC - 1 <s ?na + ?nb \<longleftrightarrow> 999999999 < sint ?na + sint ?nb"
    by (simp add: NSECS_PER_SEC_def word_sless_alt sn)
  have s1: "sint (?sa + ?sb + 1) = sint ?sa + sint ?sb + 1"
    using assms(3,4) sec by (subst sint_plus) simp_all
  have sN: "sint (?na + ?nb - NSECS_PER_SEC) = sint ?na + sint ?nb - 1000000000"
    using sn n by (subst sint_minus) (simp_all add: NSECS_PER_SEC_def)
  show ?thesis
    using sec sn s1 sN n by (simp add: timeval_add_def Let_def sum cmp norm_def total_def)
qed

theorem timeval_add_exact_witness:
  "total (timeval_add (tv_join 2 600000000) (tv_join 3 700000000)) = 6300000000"
  using timeval_add_exact [of "tv_join 2 600000000" "tv_join 3 700000000"]
  by (simp add: norm_def) (simp add: total_def)

lemma timeval_sub_spec:
  assumes "norm a" "norm b"
    and "- 2147483648 < sint (tv_sec a) - sint (tv_sec b)" "sint (tv_sec a) - sint (tv_sec b) < 2147483648"
  shows "norm (timeval_sub a b) \<and> total (timeval_sub a b) = total a - total b"
proof -
  let ?sa = "tv_sec a" and ?na = "tv_nsec a" and ?sb = "tv_sec b" and ?nb = "tv_nsec b"
  have n: "0 \<le> sint ?na" "sint ?na < 1000000000" "0 \<le> sint ?nb" "sint ?nb < 1000000000"
    using assms by (simp_all add: norm_def)
  have sec: "sint (?sa - ?sb) = sint ?sa - sint ?sb" using assms by (intro sint_minus) simp_all
  have sn: "sint (?na - ?nb) = sint ?na - sint ?nb" using n by (intro sint_minus) linarith+
  have neg: "?na - ?nb <s 0 \<longleftrightarrow> sint ?na < sint ?nb" by (simp add: word_sless_alt sn)
  have bor: "unat ?na < unat ?nb \<longleftrightarrow> sint ?na < sint ?nb"
    using n unat_of_sint [of ?na] unat_of_sint [of ?nb] by linarith
  have diff: "a - b = tv_join (?sa - ?sb - (if sint ?na < sint ?nb then 1 else 0)) (?na - ?nb)"
    using tv_join_sub [of ?sa ?na ?sb ?nb] by (simp add: tv_join_parts bor)
  have s1: "sint (?sa - ?sb - 1) = sint ?sa - sint ?sb - 1"
    using assms(3,4) sec by (subst sint_minus) simp_all
  have sN: "sint (?na - ?nb + NSECS_PER_SEC) = sint ?na - sint ?nb + 1000000000" if "sint ?na < sint ?nb"
    using sn n that by (subst sint_plus) (simp_all add: NSECS_PER_SEC_def)
  show ?thesis
    using sec sn s1 sN n by (simp add: timeval_sub_def Let_def diff neg norm_def total_def)
qed

text \<open>
  \<open>timeval_sub\<close> is exact: the 64-bit subtraction borrows from the seconds, and the correction of a
  negative nanosecond part needs no second borrow. \<open>timeval_after\<close> holds exactly when the first
  time is more than one microsecond after the second.
\<close>

theorem timeval_sub_after_exact:
  assumes "norm a" "norm b"
    and "- 2147483648 < sint (tv_sec a) - sint (tv_sec b)" "sint (tv_sec a) - sint (tv_sec b) < 2147483648"
  shows "norm (timeval_sub a b) \<and> total (timeval_sub a b) = total a - total b \<and>
    timeval_after a b = (1000 < total a - total b) \<and> timeval_before a b = (\<not> timeval_after a b)"
proof -
  note sp = timeval_sub_spec [OF assms]
  let ?d = "timeval_sub a b"
  have d: "0 \<le> sint (tv_nsec ?d)" "sint (tv_nsec ?d) < 1000000000" using sp by (simp_all add: norm_def)
  have z: "tv_sec ?d = 0 \<longleftrightarrow> sint (tv_sec ?d) = 0" by (simp add: sint_eq_0_iff)
  have "timeval_after a b \<longleftrightarrow> 0 < sint (tv_sec ?d) \<or> (sint (tv_sec ?d) = 0 \<and> 1000 < sint (tv_nsec ?d))"
    by (simp add: timeval_after_def Let_def word_sless_alt z)
  also have "\<dots> \<longleftrightarrow> 1000 < total ?d" using d unfolding total_def by linarith
  finally show ?thesis using sp by (simp add: timeval_before_def)
qed

theorem timeval_sub_after_exact_witness:
  "total (timeval_sub (tv_join 3 100000000) (tv_join 2 600000000)) = 500000000 \<and>
   timeval_after (tv_join 3 100000000) (tv_join 2 600000000)"
  using timeval_sub_after_exact [of "tv_join 3 100000000" "tv_join 2 600000000"]
  by (simp add: norm_def) (simp add: total_def)

section \<open>Clock cycles\<close>

lemma mul_1000_eq: "mul_1000 x = 1000 * x"
  unfolding mul_1000_def push_bit_eq_mult by (simp add: algebra_simps)

definition div_1000_nat :: "nat \<Rightarrow> nat" where
  "div_1000_nat n = n div 1024 + 3 * (n div 1024) div 128 + 9 * (n div 1024) div 16384"

lemma unat_div_1000: "unat x < 2 ^ 40 \<Longrightarrow> unat (div_1000 x) = div_1000_nat (unat x)"
proof -
  assume x: "unat x < 2 ^ 40"
  let ?y = "drop_bit 10 x"
  have y: "unat ?y = unat x div 1024" by (simp add: unat_drop_bit)
  then have le: "unat ?y < 2 ^ 30" using x by simp
  have m: "unat (3 * ?y) = 3 * unat ?y" "unat (9 * ?y) = 9 * unat ?y"
    using le by (simp_all add: unat_word_ariths(2))
  have d: "unat (drop_bit 7 (3 * ?y)) = 3 * unat ?y div 128" "unat (drop_bit 14 (9 * ?y)) = 9 * unat ?y div 16384"
    by (simp_all only: unat_drop_bit m) simp_all
  have s1: "unat (?y + drop_bit 7 (3 * ?y)) = unat ?y + 3 * unat ?y div 128"
    using le by (subst unat_plus_lt) (simp_all only: d, simp)
  have "unat (?y + drop_bit 7 (3 * ?y) + drop_bit 14 (9 * ?y)) =
      unat ?y + 3 * unat ?y div 128 + 9 * unat ?y div 16384"
    using le by (subst unat_plus_lt) (simp_all only: d s1, simp)
  then show ?thesis by (simp add: div_1000_def Let_def div_1000_nat_def y)
qed

text \<open>The approximation never exceeds the quotient and is at most a few units short of it.\<close>

lemma div_lower: "k * (n div k) \<le> (n::nat)"
  by (metis div_mult_mod_eq le_add1 mult.commute)

lemma div_upper: "0 < k \<Longrightarrow> n < k * (n div k) + (k::nat)"
  by (metis div_mult_mod_eq mod_less_divisor mult.commute nat_add_left_cancel_less)

lemma div_1000_arith:
  assumes "1024 * y \<le> n" "n < 1024 * y + 1024" "128 * a \<le> 3 * y" "3 * y < 128 * a + 128"
    and "16384 * b \<le> 9 * y" "9 * y < 16384 * b + (16384::nat)"
  shows "1000 * (y + a + b) \<le> n" "n * 16777 \<le> 16777216 * (y + a + b) + 50740000"
  using assms by simp_all

lemma div_1000_nat_le: "1000 * div_1000_nat n \<le> n"
  unfolding div_1000_nat_def by (rule div_1000_arith) (rule div_lower div_upper, simp?)+

lemma div_1000_nat_ge: "n * 16777 \<le> 16777216 * div_1000_nat n + 50740000"
  unfolding div_1000_nat_def by (rule div_1000_arith) (rule div_lower div_upper, simp?)+

lemma div_1000_twice:
  assumes "n < 2 ^ 32"
  shows "1000000 * div_1000_nat (div_1000_nat n) \<le> n"
    and "n \<le> 1000000 * div_1000_nat (div_1000_nat n) + 4000000"
  using assms div_1000_nat_le [of n] div_1000_nat_le [of "div_1000_nat n"]
    div_1000_nat_ge [of n] div_1000_nat_ge [of "div_1000_nat n"] by simp_all

text \<open>
  The seconds that \<open>clockcycles_to_timeval\<close> computes with shifts never exceed the cycles, and
  the result stands for exactly the given number of microseconds if and only if the
  microseconds that are left over, which the approximation may leave above a second, still fit
  in the signed nanoseconds.
\<close>

theorem clockcycles_to_timeval_exact_iff:
  defines "secs \<equiv> (\<lambda>c. unat (div_1000 (div_1000 (ucast c))))"
  shows "1000000 * secs c \<le> unat c \<and>
    (total (clockcycles_to_timeval c) = 1000 * int (unat c)) = (unat c - 1000000 * secs c \<le> 2147483)"
proof -
  let ?u = "ucast c :: u64" and ?s = "div_1000 (div_1000 (ucast c)) :: u64"
  have c: "unat ?u = unat c" using unat_lt_2p32 [of c] by (subst unat_ucast_small) simp_all
  have lt: "unat c < 2 ^ 32" using unat_lt_2p32 [of c] by simp
  have d1: "unat (div_1000 ?u) = div_1000_nat (unat c)"
    using lt by (subst unat_div_1000) (simp_all only: c, simp_all)
  have s: "unat ?s = div_1000_nat (div_1000_nat (unat c))"
    using lt div_1000_nat_le [of "unat c"] by (subst unat_div_1000) (simp_all only: d1, simp_all)
  define S where "S = unat ?s"
  define R where "R = unat c - 1000000 * S"
  have S: "1000000 * S \<le> unat c" "unat c \<le> 1000000 * S + 4000000"
    unfolding S_def s using div_1000_twice [OF lt] by simp_all
  have mul: "unat (mul_1000 (mul_1000 ?s)) = 1000000 * S"
    using S lt by (simp add: mul_1000_eq unat_word_ariths(2) S_def)
  have rem: "unat (?u - mul_1000 (mul_1000 ?s)) = R"
    using S by (subst unat_minus_le) (simp_all only: word_le_nat_alt mul c R_def)
  have R: "R \<le> 4000000" using S by (simp add: R_def)
  have m3: "unat (mul_1000 (?u - mul_1000 (mul_1000 ?s))) = 1000 * R"
    unfolding mul_1000_eq [of "?u - _"] unat_word_ariths(2) rem using R by simp
  let ?ns = "ucast (mul_1000 (?u - mul_1000 (mul_1000 ?s))) :: u32"
  have ns: "unat ?ns = 1000 * R"
    using R by (subst unat_ucast_small) (simp_all only: m3, simp_all)
  have sc: "unat (ucast ?s :: u32) = S"
    using S lt by (subst unat_ucast_small) (simp_all add: S_def [symmetric])
  have sint_sc: "sint (ucast ?s :: u32) = int S"
    using S lt by (simp add: sint_uint uint_nat sc sint_in_range)
  have v: "clockcycles_to_timeval c = tv_join (ucast ?s) ?ns"
    by (simp add: clockcycles_to_timeval_def Let_def TIMER_PERIOD_US_def)
  have small: "sint ?ns = int (1000 * R)" if "R \<le> 2147483"
    using that by (simp add: sint_uint uint_nat ns sint_in_range)
  have big: "sint ?ns \<noteq> int (1000 * R)" if "\<not> R \<le> 2147483"
    using sint_lt [of ?ns] that by simp
  have "total (clockcycles_to_timeval c) = 1000 * int (unat c) \<longleftrightarrow> sint ?ns = int (1000 * R)"
    using S(1) unfolding total_def v tv_parts sint_sc R_def by linarith
  then show ?thesis using small big S(1) by (auto simp: secs_def S_def [symmetric] R_def [symmetric])
qed

end
