(* ===== verification/SwTimerQueue.thy ===== *)
theory SwTimerQueue
  imports SwTimerInv
begin

text \<open>
  The queue of active events: it stays sorted by expiry, without repetitions, and holds exactly
  the events in the active state; what one timer interrupt runs; and what starting and stopping
  an event does to the queue and to the programmed tick.
\<close>

section \<open>The invariant\<close>

definition due :: "(u32 \<Rightarrow> timer_event) \<Rightarrow> u32 \<Rightarrow> int" where
  "due ev e = sint (expires (ev e))"

definition timer_ok :: "'a timer_state_scheme \<Rightarrow> bool" where
  "timer_ok s \<longleftrightarrow> sorted (List.map (due (events s)) (active s)) \<and> distinct (active s) \<and>
     0 \<notin> set (active s) \<and>
     (\<forall>e. te_state (events s e) = (if e \<in> set (active s) then TIMER_STATE_ACTIVE else TIMER_STATE_INACTIVE))"

lemma set_queue_insert [simp]: "set (queue_insert ev e q) = insert e (set q)"
  by (induction q) auto

lemma distinct_queue_insert: "distinct (queue_insert ev e q) \<longleftrightarrow> e \<notin> set q \<and> distinct q"
  by (induction q) auto

lemma sorted_queue_insert:
  "sorted (List.map (due ev) q) \<Longrightarrow> sorted (List.map (due ev) (queue_insert ev e q))"
  by (induction q) (auto simp: due_def word_sless_alt)

lemma remove1_queue_insert: "e \<notin> set q \<Longrightarrow> remove1 e (queue_insert ev e q) = q"
  by (induction q) auto

lemma queue_insert_cong:
  "(\<And>x. x \<in> insert e (set q) \<Longrightarrow> expires (ev x) = expires (ev' x)) \<Longrightarrow> queue_insert ev e q = queue_insert ev' e q"
  by (induction q) auto

lemma sorted_remove1_due: "sorted (List.map f q) \<Longrightarrow> sorted (List.map f (remove1 e q))"
  by (induction q) (auto dest: in_set_remove1 [THEN iffD1, rotated] notin_set_remove1 set_remove1_subset [THEN subsetD])

lemma due_cong: "(\<And>x. x \<in> set q \<Longrightarrow> expires (ev x) = expires (ev' x)) \<Longrightarrow> List.map (due ev) q = List.map (due ev') q"
  by (auto simp: due_def)

lemma read_timestamp_frame [simp]:
  "active (snd (read_timestamp s)) = active s" "events (snd (read_timestamp s)) = events s"
  "theap (snd (read_timestamp s)) = theap s" "expires_next (snd (read_timestamp s)) = expires_next s"
  "num_events (snd (read_timestamp s)) = num_events s" "tick (snd (read_timestamp s)) = tick s"
  "cntr (snd (read_timestamp s)) = cntr s" "timer_state.more (snd (read_timestamp s)) = timer_state.more s"
  by (simp_all add: read_timestamp_def Let_def)

lemma program_tick_frame [simp]:
  "active (program_tick_for_event t s) = active s" "events (program_tick_for_event t s) = events s"
  "theap (program_tick_for_event t s) = theap s" "num_events (program_tick_for_event t s) = num_events s"
  "expires_next (program_tick_for_event t s) = t" "timer_state.more (program_tick_for_event t s) = timer_state.more s"
  by (simp_all add: program_tick_for_event_def trigger_tick_def Let_def split: prod.split)
    (metis read_timestamp_frame snd_conv)+

lemma timer_ok_cong:
  "active s' = active s \<Longrightarrow> events s' = events s \<Longrightarrow> timer_ok s' = timer_ok s"
  by (simp add: timer_ok_def)

lemma timer_ok_frame [simp]:
  "timer_ok (snd (read_timestamp s)) = timer_ok s" "timer_ok (program_tick_for_event t s) = timer_ok s"
  "timer_ok (s\<lparr>expires_next := t\<rparr>) = timer_ok s" "timer_ok (s\<lparr>num_events := n\<rparr>) = timer_ok s"
  "timer_ok (s\<lparr>theap := hs\<rparr>) = timer_ok s" "timer_ok (free_running_cntr_intr s) = timer_ok s"
  by (simp_all add: timer_ok_def free_running_cntr_intr_def Let_def)

section \<open>Starting and stopping\<close>

definition started :: "u32 \<Rightarrow> timeval \<Rightarrow> 'a timer_state_scheme \<Rightarrow> 'a timer_state_scheme" where
  "started e t s = timer_queue_add e (timer_event_set_expire e t (snd (read_timestamp s)))"

lemma timer_event_start_eq:
  assumes "e \<noteq> 0"
  shows "timer_event_start e time s =
    (let t = timeval_add (fst (read_timestamp s)) time; s2 = started e t s
     in (t, if t <s expires_next s then program_tick_for_event t s2 else s2))"
proof -
  obtain now s1 where r: "read_timestamp s = (now, s1)" by (cases "read_timestamp s")
  then have "expires_next s1 = expires_next s" using read_timestamp_frame(4) [of s] by simp
  then show ?thesis
    using assms by (simp add: timer_event_start_def started_def timer_queue_add_def
        timer_event_set_expire_def upd_event_def Let_def r)
qed

lemma started_ok:
  assumes "timer_ok s" "e \<noteq> 0" "e \<notin> set (active s)"
  shows "timer_ok (started e t s)"
proof -
  let ?ev = "(events s)(e := (events s e)\<lparr>expires := t\<rparr>)"
  have "List.map (due ?ev) (active s) = List.map (due (events s)) (active s)"
    using assms(3) by (intro due_cong) auto
  then have "sorted (List.map (due ?ev) (active s))" using assms(1) by (metis timer_ok_def)
  then have "sorted (List.map (due ?ev) (queue_insert ?ev e (active s)))" by (rule sorted_queue_insert)
  moreover have "List.map (due (events (started e t s))) (queue_insert ?ev e (active s)) =
      List.map (due ?ev) (queue_insert ?ev e (active s))"
    by (rule due_cong) (simp add: started_def timer_queue_add_def timer_event_set_expire_def upd_event_def)
  moreover have "active (started e t s) = queue_insert ?ev e (active s)"
    by (simp add: started_def timer_queue_add_def timer_event_set_expire_def upd_event_def)
  ultimately have "sorted (List.map (due (events (started e t s))) (active (started e t s)))" by metis
  then show ?thesis unfolding timer_ok_def
    using assms by (intro conjI) (assumption, simp_all add: timer_ok_def started_def timer_queue_add_def timer_event_set_expire_def
        upd_event_def distinct_queue_insert)
qed

lemma timer_event_start_ok:
  "timer_ok s \<Longrightarrow> e \<notin> set (active s) \<Longrightarrow> timer_ok (snd (timer_event_start e time s))"
  by (cases "e = 0") (auto simp: timer_event_start_eq Let_def started_ok, simp add: timer_event_start_def)

lemma timer_queue_del_ok:
  assumes "sorted (List.map (due (events s)) (active s))" "distinct (active s)" "0 \<notin> set (active s)" "e \<noteq> 0"
    and "\<forall>x. x \<noteq> e \<longrightarrow> te_state (events s x) = (if x \<in> set (active s) then TIMER_STATE_ACTIVE else TIMER_STATE_INACTIVE)"
  shows "timer_ok (timer_queue_del e s)"
proof -
  have "List.map (due (events (timer_queue_del e s))) (remove1 e (active s)) = List.map (due (events s)) (remove1 e (active s))"
    using assms(4) by (intro due_cong) (simp add: timer_queue_del_def upd_event_def)
  moreover have "active (timer_queue_del e s) = remove1 e (active s)"
    using assms(4) by (simp add: timer_queue_del_def upd_event_def)
  ultimately have "sorted (List.map (due (events (timer_queue_del e s))) (active (timer_queue_del e s)))"
    using sorted_remove1_due [OF assms(1), of e] by metis
  then show ?thesis unfolding timer_ok_def
    using assms by (intro conjI) (assumption, auto simp: timer_queue_del_def upd_event_def)
qed

lemma timer_ok_flags:
  assumes "timer_ok s"
  shows "is_timer_event_waiting_on_callback e s = False" "is_timer_event_active e s = (e \<in> set (active s))"
  using assms by (auto simp: timer_ok_def is_timer_event_waiting_on_callback_def is_timer_event_active_def timer_states)

lemma timer_event_stop_parts:
  assumes "timer_ok s" "e \<in> set (active s)"
  shows "\<exists>s1. active s1 = active s \<and> events s1 = events s \<and> timer_event_stop e s = timer_queue_del e s1"
  unfolding timer_event_stop_def timer_ok_flags [OF assms(1)] Let_def
  by (simp add: assms(2)) (metis program_tick_frame(1,2))

lemma timer_event_stop_ok: "timer_ok s \<Longrightarrow> timer_ok (timer_event_stop e s)"
proof (cases "e \<in> set (active s)")
  case True
  assume ok: "timer_ok s"
  obtain s1 where "active s1 = active s" "events s1 = events s" "timer_event_stop e s = timer_queue_del e s1"
    using timer_event_stop_parts [OF ok True] by blast
  moreover have "timer_ok (timer_queue_del e s1)"
    by (rule timer_queue_del_ok) (use calculation ok True in \<open>auto simp: timer_ok_def\<close>)
  ultimately show ?thesis by simp
next
  case False
  assume "timer_ok s"
  then show ?thesis using False by (simp add: timer_event_stop_def timer_ok_flags)
qed

section \<open>The timer interrupt\<close>

definition run_head :: "(u32 \<Rightarrow> u32 \<Rightarrow> 'a timer_state_scheme \<Rightarrow> 'a timer_state_scheme) \<Rightarrow> u32 \<Rightarrow> 'a timer_state_scheme \<Rightarrow> 'a timer_state_scheme" where
  "run_head hndl e s = run_timer_handler hndl e
     (upd_event e (\<lambda>v. v\<lparr>te_state := TIMER_STATE_EXECUTING\<rparr>) (snd (read_timestamp s)))"

lemma interrupt_loop_step:
  "interrupt_loop hndl s =
    (case active s of
       [] \<Rightarrow> Some s
     | e # _ \<Rightarrow>
         if timeval_after (expires (events s e)) (fst (read_timestamp s))
         then Some (program_tick_for_event
                (if expires (events s e) <s TIMEVAL_MAX then expires (events s e) else TIMEVAL_MAX)
                (snd (read_timestamp s)))
         else interrupt_loop hndl (run_head hndl e s))"
proof -
  obtain now s1 where "read_timestamp s = (now, s1)" by (cases "read_timestamp s")
  then show ?thesis
    by (subst interrupt_loop.simps) (cases "active s", auto simp: timer_queue_getnext_def
        timer_get_expire_def run_head_def timeval_after_def Let_def)
qed

text \<open>A handler runs after its event has been taken out of the queue.\<close>

definition handler_ok :: "(u32 \<Rightarrow> u32 \<Rightarrow> 'a timer_state_scheme \<Rightarrow> 'a timer_state_scheme) \<Rightarrow> bool" where
  "handler_ok hndl \<longleftrightarrow> (\<forall>p e s. timer_ok s \<longrightarrow> e \<notin> set (active s) \<longrightarrow> timer_ok (hndl p e s))"

lemma run_head_ok:
  assumes "handler_ok hndl" "timer_ok s" "e \<in> set (active s)"
  shows "timer_ok (run_head hndl e s)"
proof -
  let ?s = "upd_event e (\<lambda>v. v\<lparr>te_state := TIMER_STATE_EXECUTING\<rparr>) (snd (read_timestamp s))"
  have "List.map (due (events ?s)) (active s) = List.map (due (events s)) (active s)"
    by (rule due_cong) (simp add: upd_event_def)
  then have "sorted (List.map (due (events ?s)) (active s))" using assms(2) by (metis timer_ok_def)
  then have "timer_ok (timer_queue_del e (?s\<lparr>num_events := num_events ?s + 1\<rparr>))"
    using assms(2,3) by (intro timer_queue_del_ok) (auto simp: timer_ok_def upd_event_def)
  then show ?thesis
    using assms(1,2,3) by (auto simp: run_head_def run_timer_handler_def handler_ok_def Let_def
        timer_queue_del_def upd_event_def timer_ok_def)
qed

lemma interrupt_loop_ok:
  assumes "handler_ok hndl" "timer_ok s" "interrupt_loop hndl s = Some s'"
  shows "timer_ok s'"
proof -
  have "handler_ok hndl \<longrightarrow> timer_ok s \<longrightarrow> timer_ok s'"
  proof (rule interrupt_loop.raw_induct [where P = "\<lambda>h s s'. handler_ok h \<longrightarrow> timer_ok s \<longrightarrow> timer_ok s'", OF _ assms(3)], intro impI)
    fix loop h s s'
    assume IH: "\<And>h s s'. loop h s = Some s' \<Longrightarrow> handler_ok h \<longrightarrow> timer_ok s \<longrightarrow> timer_ok s'"
      and step: "(case timer_queue_getnext s of None \<Rightarrow> Some s
        | Some e \<Rightarrow> let temp_time = timer_get_expire e s; (now, s1) = read_timestamp s;
              diff = timeval_sub temp_time now
          in if 0 <s tv_sec diff \<or> (tv_sec diff = 0 \<and> 1000 <s tv_nsec diff)
             then Some (program_tick_for_event (if temp_time <s TIMEVAL_MAX then temp_time else TIMEVAL_MAX) s1)
             else loop h (run_timer_handler h e (upd_event e (\<lambda>v. v\<lparr>te_state := TIMER_STATE_EXECUTING\<rparr>) s1))) = Some s'"
      and h: "handler_ok h" and ok: "timer_ok s"
    obtain now s1 where r: "read_timestamp s = (now, s1)" by (cases "read_timestamp s")
    then have s1: "s1 = snd (read_timestamp s)" by simp
    show "timer_ok s'"
    proof (cases "active s")
      case (Cons e q)
      have "timer_ok (run_head h e s)" using run_head_ok [OF h ok] Cons by simp
      then show ?thesis
        using step ok h IH [of h "run_head h e s" s'] timer_ok_frame(1) [of s]
        by (auto simp: timer_queue_getnext_def Cons r Let_def run_head_def split: if_splits)
    qed (use step ok in \<open>simp add: timer_queue_getnext_def\<close>)
  qed
  then show ?thesis using assms by simp
qed

text \<open>
  What the kernel may do with the timers: single calls, an overflow of the counter, or an interrupt
  whose handlers are themselves sequences of calls, chosen by handler address, event and state.
  No call may start an event that is in the queue; an interrupt must return.
\<close>

datatype timer_call = Start u32 timeval | Stop u32 | Destroy u32

fun call_exec :: "timer_state \<Rightarrow> timer_call \<Rightarrow> timer_state" where
  "call_exec s (Start e t) = snd (timer_event_start e t s)"
| "call_exec s (Stop e) = timer_event_stop e s"
| "call_exec s (Destroy e) = snd (timer_event_destroy e s)"

fun call_legal :: "timer_state \<Rightarrow> timer_call \<Rightarrow> bool" where
  "call_legal s (Start e t) = (e \<notin> set (active s))"
| "call_legal s _ = True"

interpretation timer_calls: op_contract timer_ok call_legal call_exec
proof unfold_locales
  fix s c assume "timer_ok s" "call_legal s c"
  then show "timer_ok (call_exec s c)"
    by (cases c) (auto simp: timer_event_start_ok timer_event_stop_ok timer_event_destroy_def)
qed

type_synonym handler_code = "u32 \<Rightarrow> u32 \<Rightarrow> timer_state \<Rightarrow> timer_call list"

definition handler_of :: "handler_code \<Rightarrow> u32 \<Rightarrow> u32 \<Rightarrow> timer_state \<Rightarrow> timer_state" where
  "handler_of h p e s = timer_calls.run s (h p e s)"

definition starts_no_running_event :: "handler_code \<Rightarrow> bool" where
  "starts_no_running_event h \<longleftrightarrow>
     (\<forall>p e s. timer_ok s \<longrightarrow> e \<notin> set (active s) \<longrightarrow> timer_calls.legal s (h p e s))"

lemma handler_of_ok: "starts_no_running_event h \<Longrightarrow> handler_ok (handler_of h)"
  by (simp add: handler_ok_def handler_of_def starts_no_running_event_def timer_calls.run_inv)

datatype timer_op = Call timer_call | CounterWrap | Interrupt handler_code

fun timer_exec :: "timer_state \<Rightarrow> timer_op \<Rightarrow> timer_state" where
  "timer_exec s (Call c) = call_exec s c"
| "timer_exec s CounterWrap = free_running_cntr_intr s"
| "timer_exec s (Interrupt h) = (case timer_interrupt (handler_of h) s of None \<Rightarrow> s | Some s' \<Rightarrow> s')"

fun timer_legal :: "timer_state \<Rightarrow> timer_op \<Rightarrow> bool" where
  "timer_legal s (Call c) = call_legal s c"
| "timer_legal s (Interrupt h) = (starts_no_running_event h \<and> timer_interrupt (handler_of h) s \<noteq> None)"
| "timer_legal s CounterWrap = True"

interpretation timer_ops: op_contract timer_ok timer_legal timer_exec
proof unfold_locales
  fix s c assume "timer_ok s" "timer_legal s c"
  then show "timer_ok (timer_exec s c)"
    using timer_calls.step_inv
    by (cases c) (auto simp: timer_interrupt_def interrupt_loop_ok [OF handler_of_ok] split: option.splits)
qed

lemma init_sw_timer_ok:
  "\<forall>e. te_state (events s e) = TIMER_STATE_INACTIVE \<Longrightarrow> timer_ok (init_sw_timer s)"
  by (simp add: timer_ok_def init_sw_timer_def)

text \<open>
  C14. After any sequence of starts, stops, destroys, counter overflows and timer interrupts from
  initialisation (with all events inactive), in which no event of the queue is started again,
  neither by the kernel nor by a handler, and in which every interrupt returns, the queue is sorted
  by expiry (as a signed 64-bit number), holds no event twice, and holds exactly the events in the
  active state. A handler may make any sequence of such calls, which may depend on its event and on
  the state.
\<close>

theorem timer_queue_stays_sorted:
  assumes "\<forall>e. te_state (events s e) = TIMER_STATE_INACTIVE"
    and "timer_ops.legal (init_sw_timer s) ops" and "s' = timer_ops.run (init_sw_timer s) ops"
  shows "sorted (List.map (\<lambda>e. sint (expires (events s' e))) (active s')) \<and> distinct (active s') \<and>
    (\<forall>e. is_timer_event_active e s' = (e \<in> set (active s')))"
proof -
  have "timer_ok s'" using timer_ops.run_inv [OF init_sw_timer_ok [OF assms(1)] assms(2)] assms(3) by simp
  moreover have "due (events s') = (\<lambda>e. sint (expires (events s' e)))" by (simp add: due_def fun_eq_iff)
  ultimately show ?thesis using timer_ok_flags(2) [of s'] by (simp add: timer_ok_def)
qed

definition idle_timer :: "u32 \<Rightarrow> timer_state" where
  "idle_timer period = \<lparr>info = \<lparr>sw_timestamp = 0, abs_cycles_count = 0, cycles_count_old = 0, cycles_count_new = 0\<rparr>,
     expires_next = 0, num_events = 0, active = [],
     events = (\<lambda>_. \<lparr>expires = 0, handler = 0, te_state = 0, te_data = 0\<rparr>), tick = None,
     cntr = (\<lambda>n. of_nat n * period), reads = 0,
     theap = \<lparr>buddy_heap = (\<lambda>_. one_block_heap), h_index = (\<lambda>_. \<lparr>heap_id = 0, num_blocks_alloc = 0\<rparr>)\<rparr>\<rparr>"

lemma idle_timer_inactive: "\<forall>e. te_state (events (idle_timer p) e) = TIMER_STATE_INACTIVE"
  by (simp add: idle_timer_def timer_states)

section \<open>What starting and stopping does\<close>

lemma started_proj:
  "events (started e t s) = (events s)(e := (events s e)\<lparr>expires := t, te_state := TIMER_STATE_ACTIVE\<rparr>)"
  "active (started e t s) = queue_insert ((events s)(e := (events s e)\<lparr>expires := t\<rparr>)) e (active s)"
  "expires_next (started e t s) = expires_next s"
  by (simp_all add: started_def timer_queue_add_def timer_event_set_expire_def upd_event_def fun_eq_iff)

lemma timer_event_start_proj:
  assumes "e \<noteq> 0"
  shows "events (snd (timer_event_start e time s)) = events (started e (fst (timer_event_start e time s)) s)"
    "active (snd (timer_event_start e time s)) = active (started e (fst (timer_event_start e time s)) s)"
    "fst (timer_event_start e time s) = timeval_add (fst (read_timestamp s)) time"
  using assms by (simp_all add: timer_event_start_eq Let_def)

text \<open>
  Starting an event that is not running puts it, and no other event, into the queue, to expire
  at the time read plus the interval; stopping it afterwards takes exactly that event out again, so
  that the queue is the one before and only the expiry of that event has changed.
\<close>

theorem start_stop_restores_queue:
  assumes "timer_ok s" "e \<noteq> 0" "e \<notin> set (active s)"
    and "s1 = snd (timer_event_start e time s)" "s2 = timer_event_stop e s1"
  shows "set (active s1) = insert e (set (active s)) \<and>
    expires (events s1 e) = timeval_add (fst (read_timestamp s)) time \<and>
    active s2 = active s \<and>
    events s2 = (events s)(e := (events s e)\<lparr>expires := timeval_add (fst (read_timestamp s)) time\<rparr>)"
proof -
  note pr = timer_event_start_proj [OF assms(2), of time s]
  have ok1: "timer_ok s1" unfolding assms(4) using assms by (intro timer_event_start_ok)
  have mem: "e \<in> set (active s1)" by (simp add: assms(4) pr started_proj)
  obtain s3 where s3: "active s3 = active s1" "events s3 = events s1" "s2 = timer_queue_del e s3"
    unfolding assms(5) using timer_event_stop_parts [OF ok1 mem] by blast
  have st: "te_state (events s e) = TIMER_STATE_INACTIVE" using assms(1,3) by (simp add: timer_ok_def)
  have "(events s e)\<lparr>expires := t, te_state := TIMER_STATE_INACTIVE\<rparr> = (events s e)\<lparr>expires := t\<rparr>" for t
    using st by (cases "events s e") simp
  then show ?thesis
    using assms(2,3) by (simp add: s3 timer_queue_del_def upd_event_def assms(4) pr started_proj
        remove1_queue_insert fun_upd_twist)
qed

theorem start_stop_restores_queue_witness:
  "active (timer_event_stop 64 (snd (timer_event_start 64 (tv_join 1 0) (init_sw_timer (idle_timer 1000))))) = []"
proof -
  have q: "active (init_sw_timer (idle_timer 1000)) = []" by (simp add: init_sw_timer_def)
  have "(64::u32) \<noteq> 0" "64 \<notin> set (active (init_sw_timer (idle_timer 1000)))" by (simp_all add: q)
  note start_stop_restores_queue [OF init_sw_timer_ok [OF idle_timer_inactive] this refl refl]
  then show ?thesis unfolding q by blast
qed

section \<open>What one interrupt runs\<close>

text \<open>The clock as the loop reads it, and handlers that leave the timers alone.\<close>

primrec after_reads :: "nat \<Rightarrow> 'a timer_state_scheme \<Rightarrow> 'a timer_state_scheme" where
  "after_reads 0 s = s"
| "after_reads (Suc n) s = after_reads n (snd (read_timestamp s))"

definition clock_at :: "nat \<Rightarrow> 'a timer_state_scheme \<Rightarrow> timeval" where
  "clock_at n s = fst (read_timestamp (after_reads n s))"

definition quiet :: "(u32 \<Rightarrow> u32 \<Rightarrow> 'a timer_state_scheme \<Rightarrow> 'a timer_state_scheme) \<Rightarrow> bool" where
  "quiet hndl \<longleftrightarrow> (\<forall>p e s. active (hndl p e s) = active s \<and> events (hndl p e s) = events s \<and>
     info (hndl p e s) = info s \<and> cntr (hndl p e s) = cntr s \<and> reads (hndl p e s) = reads s \<and>
     num_events (hndl p e s) = num_events s)"

lemma read_timestamp_cong:
  assumes "info s' = info s" "cntr s' = cntr s" "reads s' = reads s"
  shows "fst (read_timestamp s') = fst (read_timestamp s)"
    "info (snd (read_timestamp s')) = info (snd (read_timestamp s))"
    "reads (snd (read_timestamp s')) = reads (snd (read_timestamp s))"
  using assms by (simp_all add: read_timestamp_def Let_def)

lemma clock_at_cong:
  "info s' = info s \<Longrightarrow> cntr s' = cntr s \<Longrightarrow> reads s' = reads s \<Longrightarrow> clock_at n s' = clock_at n s"
  unfolding clock_at_def
proof (induction n arbitrary: s s')
  case (Suc n)
  have "cntr (snd (read_timestamp s')) = cntr (snd (read_timestamp s))" by (simp add: Suc.prems(2))
  from Suc.IH [OF read_timestamp_cong(2) [OF Suc.prems] this read_timestamp_cong(3) [OF Suc.prems]]
  show ?case by simp
next
  case 0
  then show ?case unfolding after_reads.simps by (rule read_timestamp_cong(1))
qed

lemma run_head_quiet:
  assumes "quiet hndl" "active s = e # q" "e \<noteq> 0"
  shows "active (run_head hndl e s) = q" "clock_at n (run_head hndl e s) = clock_at (Suc n) s"
    "num_events (run_head hndl e s) = num_events s + 1"
    "\<And>x. expires (events (run_head hndl e s) x) = expires (events s x)"
proof -
  let ?s = "snd (read_timestamp s)"
  have fr: "active (run_head hndl e s) = remove1 e (active ?s)" "info (run_head hndl e s) = info ?s"
      "cntr (run_head hndl e s) = cntr ?s" "reads (run_head hndl e s) = reads ?s"
      "num_events (run_head hndl e s) = num_events ?s + 1"
      "\<And>x. expires (events (run_head hndl e s) x) = expires (events ?s x)"
    using assms(1,3) by (simp_all add: run_head_def run_timer_handler_def timer_queue_del_def
        upd_event_def quiet_def Let_def)
  show "active (run_head hndl e s) = q" using fr(1) assms(2) by simp
  show "clock_at n (run_head hndl e s) = clock_at (Suc n) s"
    using clock_at_cong [OF fr(2,3,4)] by (simp add: clock_at_def)
qed (use assms(1,3) in \<open>simp_all add: run_head_def run_timer_handler_def timer_queue_del_def
        upd_event_def quiet_def Let_def\<close>)

text \<open>
  What running one due event means: the clock is read, the event leaves the queue as inactive and is
  counted, and its handler, if it has one, is called on the state that results. The tick for an
  event that lies ahead is the time left in clock cycles, at least 1 and at most the longest the
  one-shot timer counts.
\<close>

definition handled :: "(u32 \<Rightarrow> u32 \<Rightarrow> 'a timer_state_scheme \<Rightarrow> 'a timer_state_scheme) \<Rightarrow> u32 \<Rightarrow> 'a timer_state_scheme \<Rightarrow> 'a timer_state_scheme" where
  "handled hndl e s =
     (let s1 = snd (read_timestamp s);
          s2 = s1\<lparr>num_events := num_events s + 1, active := remove1 e (active s),
                  events := (events s)(e := (events s e)\<lparr>te_state := TIMER_STATE_INACTIVE\<rparr>)\<rparr>
      in if handler (events s e) = 0 then s2 else hndl (handler (events s e)) e s2)"

definition cycles_until :: "timeval \<Rightarrow> timeval \<Rightarrow> u64" where
  "cycles_until t now =
     (let left = timeval_sub t now
      in if tv_sec left <s 0 \<or> tv_nsec left <s 0 then 1
         else max 1 (min TIMER_COUNT_MAX (timeval_to_clockcycles left)))"

definition capped :: "timeval \<Rightarrow> timeval" where
  "capped t = (if t <s TIMEVAL_MAX then t else TIMEVAL_MAX)"

lemma run_head_handled: "e \<noteq> 0 \<Longrightarrow> run_head hndl e s = handled hndl e s"
  by (simp add: run_head_def run_timer_handler_def handled_def timer_queue_del_def upd_event_def Let_def)

lemma program_tick_cycles: "tick (program_tick_for_event t s) = Some (cycles_until t (fst (read_timestamp s)))"
proof -
  have "TIMER_COUNT_MAX \<noteq> 0" "(1::u64) \<le> TIMER_COUNT_MAX" by (simp_all add: TIMER_COUNT_MAX_def)
  moreover have "1 \<le> x" if "x \<noteq> 0" for x :: u64 using that by (metis word_le_sub1 word_zero_le linorder_not_le word_less_1 not_le)
  ultimately show ?thesis
    by (auto simp: program_tick_for_event_def trigger_tick_def cycles_until_def Let_def max_def min_def
        split: prod.split)
qed

lemma interrupt_loop_quiet:
  assumes "quiet hndl" "0 \<notin> set (active s)"
  shows "\<exists>n q. n \<le> length (active s) \<and> q = fold (handled hndl) (take n (active s)) s \<and>
    interrupt_loop hndl s = Some (if n < length (active s)
      then program_tick_for_event (capped (expires (events s (active s ! n)))) (snd (read_timestamp q)) else q) \<and>
    active q = drop n (active s) \<and> num_events q = num_events s + n \<and> (\<forall>m. clock_at m q = clock_at (n + m) s) \<and>
    (\<forall>i<n. \<not> timeval_after (expires (events s (active s ! i))) (clock_at i s)) \<and>
    (n < length (active s) \<longrightarrow> timeval_after (expires (events s (active s ! n))) (clock_at n s))"
  using assms(2)
proof (induction "active s" arbitrary: s)
  case Nil
  then show ?case by (intro exI [of _ 0]) (subst interrupt_loop_step, simp)
next
  case (Cons e q)
  have act: "active s = e # q" using Cons.hyps(2) by simp
  show ?case
  proof (cases "timeval_after (expires (events s e)) (clock_at 0 s)")
    case True
    have "interrupt_loop hndl s = Some (program_tick_for_event (capped (expires (events s e))) (snd (read_timestamp s)))"
      using True by (subst interrupt_loop_step) (simp add: act clock_at_def capped_def)
    then show ?thesis using True act by (intro exI [of _ 0] exI [of _ s]) simp
  next
    case False
    have e: "e \<noteq> 0" using act Cons.prems by auto
    note rh = run_head_quiet [OF assms(1) act e]
    have loop: "interrupt_loop hndl s = interrupt_loop hndl (run_head hndl e s)"
      using False by (subst interrupt_loop_step) (simp add: act clock_at_def)
    obtain n r where IH: "n \<le> length q" "r = fold (handled hndl) (take n q) (run_head hndl e s)"
        "interrupt_loop hndl (run_head hndl e s) = Some (if n < length q
          then program_tick_for_event (capped (expires (events s (q ! n)))) (snd (read_timestamp r)) else r)"
        "active r = drop n q" "num_events r = num_events s + 1 + n" "\<forall>m. clock_at m r = clock_at (Suc (n + m)) s"
        "\<forall>i<n. \<not> timeval_after (expires (events s (q ! i))) (clock_at (Suc i) s)"
        "n < length q \<longrightarrow> timeval_after (expires (events s (q ! n))) (clock_at (Suc n) s)"
      using Cons.hyps(1) [of "run_head hndl e s"] Cons.prems by (auto simp: rh act)
    have "\<forall>i<Suc n. \<not> timeval_after (expires (events s (active s ! i))) (clock_at i s)"
      using IH(7) False by (auto simp: less_Suc_eq_0_disj act)
    then show ?thesis
      using IH by (intro exI [of _ "Suc n"] exI [of _ r]) (simp add: loop act run_head_handled [OF e])
  qed
qed

text \<open>
  C6. With handlers that leave the timers alone (they change neither queue, events, clock nor the count
  of events), the interrupt returns after serving exactly the longest prefix of the queue whose events
  have expired at the time read for them: one after the other, each event leaves the queue, is
  counted, and its handler is called with it. If an event remains, it lies in the future, what the
  handlers did to the rest of the state is kept, and the one-shot timer is loaded with the cycles
  left until that event.
\<close>

theorem timer_interrupt_runs_due:
  assumes "quiet hndl" "0 \<notin> set (active s)"
  shows "\<exists>s' n q. timer_interrupt hndl s = Some s' \<and> n \<le> length (active s) \<and>
    q = fold (handled hndl) (take n (active s)) s \<and>
    active s' = drop n (active s) \<and> num_events s' = num_events s + n \<and>
    events s' = events q \<and> theap s' = theap q \<and> timer_state.more s' = timer_state.more q \<and>
    (\<forall>i<n. \<not> timeval_after (expires (events s (active s ! i))) (clock_at i s)) \<and>
    (if n < length (active s)
     then timeval_after (expires (events s (active s ! n))) (clock_at n s) \<and>
       tick s' = Some (cycles_until (capped (expires (events s (active s ! n)))) (clock_at (n + 1) s))
     else tick s' = tick q)"
proof -
  obtain n q where nq: "n \<le> length (active s)" "q = fold (handled hndl) (take n (active s)) s"
      "interrupt_loop hndl s = Some (if n < length (active s)
        then program_tick_for_event (capped (expires (events s (active s ! n)))) (snd (read_timestamp q)) else q)"
      "active q = drop n (active s)" "num_events q = num_events s + n" "\<forall>m. clock_at m q = clock_at (n + m) s"
      "\<forall>i<n. \<not> timeval_after (expires (events s (active s ! i))) (clock_at i s)"
      "n < length (active s) \<longrightarrow> timeval_after (expires (events s (active s ! n))) (clock_at n s)"
    using interrupt_loop_quiet [OF assms] by blast
  have "fst (read_timestamp (snd (read_timestamp q))) = clock_at (n + 1) s"
    using nq(6) [rule_format, of 1] by (simp add: clock_at_def)
  then show ?thesis
    using nq by (intro exI [of _ "the (timer_interrupt hndl s)"] exI [of _ n] exI [of _ q])
      (cases "n < length (active s)"; simp add: timer_interrupt_def program_tick_cycles)
qed

text \<open>
  A timer with two events, one due and one ten seconds ahead, both with a handler that does what the
  wake-up of a sleeping task does to the timers: it destroys its event.
\<close>

definition loaded_timer :: timer_state where
  "loaded_timer =
     snd (timer_event_start 64 (tv_join 0 0) (snd (timer_event_start 128 (tv_join 10 0)
       (init_sw_timer ((idle_timer 0)\<lparr>events := (\<lambda>_. \<lparr>expires = 0, handler = 0x4000, te_state = 0, te_data = 0\<rparr>)\<rparr>)))))"

definition destroying :: handler_code where
  "destroying p e s = [Destroy e]"

lemma destroying_quiet: "quiet (handler_of destroying)"
  by (simp add: quiet_def handler_of_def destroying_def timer_event_destroy_def)

text \<open>A timer whose hardware counter stands still always reads the time 0.\<close>

definition stopped :: "'a timer_state_scheme \<Rightarrow> bool" where
  "stopped s \<longleftrightarrow> cntr s = (\<lambda>_. 0) \<and>
     info s = \<lparr>sw_timestamp = 0, abs_cycles_count = 0, cycles_count_old = 0, cycles_count_new = 0\<rparr>"

lemma stopped_read: "stopped s \<Longrightarrow> fst (read_timestamp s) = 0 \<and> stopped (snd (read_timestamp s))"
proof -
  have "timeval_add 0 (clockcycles_to_timeval 0) = 0" by code_simp
  then show "stopped s \<Longrightarrow> fst (read_timestamp s) = 0 \<and> stopped (snd (read_timestamp s))"
    by (simp add: stopped_def read_timestamp_def advance_def Let_def)
qed

lemma stopped_clock: "stopped s \<Longrightarrow> clock_at n s = 0"
proof -
  have "stopped s \<Longrightarrow> stopped (after_reads n s)" by (induction n arbitrary: s) (simp_all add: stopped_read)
  then show "stopped s \<Longrightarrow> clock_at n s = 0" by (simp add: clock_at_def stopped_read)
qed

lemma stopped_start:
  fixes s :: "'a timer_state_scheme"
  assumes s: "stopped s" and e: "e \<noteq> 0"
  shows "stopped (snd (timer_event_start e t s))"
proof -
  have st: "stopped (started e x s)" for x
    using stopped_read [OF s] by (simp add: started_def timer_queue_add_def timer_event_set_expire_def upd_event_def stopped_def)
  have "stopped (program_tick_for_event x s')" if "stopped s'" for x and s' :: "'a timer_state_scheme"
    using stopped_read [OF that]
    by (cases "read_timestamp s'") (simp add: program_tick_for_event_def trigger_tick_def Let_def stopped_def)
  then show ?thesis using st e by (simp add: timer_event_start_eq Let_def)
qed

lemma timer_event_start_count: "num_events (snd (timer_event_start e x s)) = num_events s"
  by (cases "e = 0") (auto simp: timer_event_start_eq Let_def started_def timer_queue_add_def
      timer_event_set_expire_def upd_event_def, simp add: timer_event_start_def)

lemma loaded_timer_facts:
  "active loaded_timer = [64, 128]" "expires (events loaded_timer 64) = 0" "expires (events loaded_timer 128) = tv_join 10 0"
  "handler (events loaded_timer 64) = 0x4000" "clock_at n loaded_timer = 0" "num_events loaded_timer = 0"
proof -
  let ?s0 = "init_sw_timer ((idle_timer 0)\<lparr>events := (\<lambda>_. \<lparr>expires = 0, handler = 0x4000, te_state = 0, te_data = 0\<rparr>)\<rparr>)"
  have s0: "stopped ?s0" by (simp add: stopped_def init_sw_timer_def idle_timer_def)
  note s1 = stopped_start [OF s0, of 128 "tv_join 10 0"]
  have t: "timeval_add 0 (tv_join 10 0) = tv_join 10 0" "timeval_add 0 (tv_join 0 0) = 0" "(0::u64) <s tv_join 10 0"
    by code_simp+
  show "num_events loaded_timer = 0" by (simp add: loaded_timer_def init_sw_timer_def timer_event_start_count)
  have "active ?s0 = []" "handler (events ?s0 e) = 0x4000" for e by (simp_all add: init_sw_timer_def)
  then show "active loaded_timer = [64, 128]" "expires (events loaded_timer 64) = 0"
      "expires (events loaded_timer 128) = tv_join 10 0" "handler (events loaded_timer 64) = 0x4000"
    using stopped_read [OF s0] stopped_read [OF s1]
    by (simp_all add: loaded_timer_def timer_event_start_proj started_proj t)
  show "clock_at n loaded_timer = 0"
    unfolding loaded_timer_def by (intro stopped_clock stopped_start s0) simp_all
qed

lemma loaded_timer_len: "0 \<notin> set (active loaded_timer)" "length [64::u32, 128] = 2"
  by (simp_all add: loaded_timer_facts(1))

lemma due_prefix_is_one:
  assumes "n \<le> 2" "\<forall>i<n. \<not> timeval_after (expires (events loaded_timer ([64, 128] ! i))) (clock_at i loaded_timer)"
    and "if n < 2 then timeval_after (expires (events loaded_timer ([64, 128] ! n))) (clock_at n loaded_timer) \<and> A else B"
  shows "n = 1"
proof -
  have after: "\<not> timeval_after 0 0" "timeval_after (tv_join 10 0) 0" by code_simp+
  have "n \<noteq> 0"
  proof
    assume "n = 0"
    then show False using assms(3) after by (simp add: loaded_timer_facts)
  qed
  moreover have "n \<noteq> 2"
  proof
    assume "n = 2"
    then show False using assms(2) [rule_format, of 1] after by (simp add: loaded_timer_facts)
  qed
  ultimately show ?thesis using assms(1) by simp
qed

theorem timer_interrupt_runs_due_witness:
  "\<exists>s'. timer_interrupt (handler_of destroying) loaded_timer = Some s' \<and> active s' = [128] \<and> num_events s' = 1 \<and>
     theap s' = sw_free_private COMMON_HEAP_ID 64 (theap loaded_timer) \<and> tick s' = Some 10000000"
proof -
  obtain s' n q where *: "timer_interrupt (handler_of destroying) loaded_timer = Some s'" "n \<le> 2"
      "q = fold (handled (handler_of destroying)) (take n [64, 128]) loaded_timer"
      "active s' = drop n [64, 128]" "num_events s' = num_events loaded_timer + n" "theap s' = theap q"
      "\<forall>i<n. \<not> timeval_after (expires (events loaded_timer ([64, 128] ! i))) (clock_at i loaded_timer)"
      "if n < 2 then timeval_after (expires (events loaded_timer ([64, 128] ! n))) (clock_at n loaded_timer) \<and>
         tick s' = Some (cycles_until (capped (expires (events loaded_timer ([64, 128] ! n)))) (clock_at (n + 1) loaded_timer))
       else tick s' = tick q"
    using timer_interrupt_runs_due [OF destroying_quiet loaded_timer_len(1), unfolded loaded_timer_facts(1) loaded_timer_len(2)]
    by blast
  have n: "n = 1" by (rule due_prefix_is_one [OF *(2,7,8)])
  have "cycles_until (capped (tv_join 10 0)) 0 = 10000000" by code_simp
  moreover have "theap q = sw_free_private COMMON_HEAP_ID 64 (theap loaded_timer)"
    by (simp add: *(3) n handled_def loaded_timer_facts handler_of_def destroying_def timer_event_destroy_def)
  ultimately show ?thesis using * n loaded_timer_facts by (intro exI [of _ s']) (simp add: numeral_2_eq_2)
qed

theorem timer_queue_stays_sorted_witness:
  "\<exists>s'. timer_interrupt (handler_of destroying) loaded_timer = Some s' \<and> active s' = [128] \<and>
     is_timer_event_active 128 s' \<and> \<not> is_timer_event_active 64 s'"
proof -
  let ?s0 = "(idle_timer 0)\<lparr>events := (\<lambda>_. \<lparr>expires = 0, handler = 0x4000, te_state = 0, te_data = 0\<rparr>)\<rparr>"
  let ?ops = "[Call (Start 128 (tv_join 10 0)), Call (Start 64 (tv_join 0 0)), Interrupt destroying]"
  obtain n q where loop: "n \<le> 2" "active q = drop n [64, 128]" "interrupt_loop (handler_of destroying) loaded_timer =
        Some (if n < 2 then program_tick_for_event (capped (expires (events loaded_timer ([64, 128] ! n))))
          (snd (read_timestamp q)) else q)"
      "\<forall>i<n. \<not> timeval_after (expires (events loaded_timer ([64, 128] ! i))) (clock_at i loaded_timer)"
      "n < 2 \<longrightarrow> timeval_after (expires (events loaded_timer ([64, 128] ! n))) (clock_at n loaded_timer)"
    using interrupt_loop_quiet [OF destroying_quiet loaded_timer_len(1), unfolded loaded_timer_facts(1) loaded_timer_len(2)]
    by blast
  have "n = 1" by (rule due_prefix_is_one [OF loop(1,4), where A = True and B = True]) (use loop(5) in simp)
  then obtain s' where s': "timer_interrupt (handler_of destroying) loaded_timer = Some s'" "active s' = [128]"
    using loop by (auto simp: timer_interrupt_def)
  have run: "timer_ops.run (init_sw_timer ?s0) ?ops = s'"
    using s'(1) by (simp add: loaded_timer_def)
  have "active (init_sw_timer ?s0) = []" by (simp add: init_sw_timer_def)
  moreover have "active (snd (timer_event_start 128 (tv_join 10 0) (init_sw_timer ?s0))) = [128]" by code_simp
  moreover have "starts_no_running_event destroying" by (simp add: starts_no_running_event_def destroying_def)
  ultimately have "timer_ops.legal (init_sw_timer ?s0) ?ops"
    using s'(1) by (simp add: loaded_timer_def)
  from timer_queue_stays_sorted [OF _ this refl] show ?thesis
    using s' unfolding run by (auto simp: timer_states)
qed

text \<open>
  The interrupt ends by forgetting the expiry it has programmed the tick for: the next start of
  any event that expires before the end of time programs the tick for that event,
  also when an event that is still queued expires earlier.
\<close>

theorem start_after_interrupt_overrides_tick:
  assumes "timer_interrupt hndl s = Some s'" "e \<noteq> 0" "timer_event_start e time s' = (t, s'')"
    and "t <s TIMEVAL_MAX"
  shows "expires_next s' = TIMEVAL_MAX \<and> expires_next s'' = t \<and>
    s'' = program_tick_for_event t (started e t s')"
proof -
  have "expires_next s' = TIMEVAL_MAX" using assms(1) by (auto simp: timer_interrupt_def)
  then show ?thesis using assms(2-4) by (auto simp: timer_event_start_eq Let_def)
qed

definition busy_timer :: timer_state where
  "busy_timer = snd (timer_event_start 64 (tv_join 10 0) (init_sw_timer (idle_timer 0)))"

lemma busy_timer_reading: "read_timestamp busy_timer = (0, snd (read_timestamp busy_timer))"
  by (simp add: prod_eq_iff) code_simp

lemma busy_timer_queue: "active busy_timer = [64]" "expires (events busy_timer 64) = tv_join 10 0"
  by code_simp+

lemma busy_timer_interrupt:
  "timer_interrupt (\<lambda>p e s. s) busy_timer =
    Some ((program_tick_for_event (tv_join 10 0) (snd (read_timestamp busy_timer)))\<lparr>expires_next := TIMEVAL_MAX\<rparr>)"
proof -
  have "timeval_after (tv_join 10 0) 0" "tv_join 10 0 <s TIMEVAL_MAX" by code_simp+
  then show ?thesis
    unfolding timer_interrupt_def
    by (subst interrupt_loop_step) (simp add: busy_timer_queue busy_timer_reading [THEN arg_cong, of fst, simplified])
qed

theorem start_after_interrupt_overrides_tick_witness:
  "\<exists>s' s''. timer_interrupt (\<lambda>p e s. s) busy_timer = Some s' \<and>
     timer_event_start 128 (tv_join 100 0) s' = (tv_join 100 0, s'') \<and> expires_next s'' = tv_join 100 0 \<and>
     hd (active s'') = 64 \<and> expires (events s'' 64) <s expires_next s''"
proof -
  define s' where "s' = (program_tick_for_event (tv_join 10 0) (snd (read_timestamp busy_timer)))\<lparr>expires_next := TIMEVAL_MAX\<rparr>"
  have int: "timer_interrupt (\<lambda>p e s. s) busy_timer = Some s'" by (simp add: busy_timer_interrupt s'_def)
  have t: "fst (timer_event_start 128 (tv_join 100 0) s') = tv_join 100 0" unfolding s'_def by code_simp
  have q: "hd (active (snd (timer_event_start 128 (tv_join 100 0) s'))) = 64" unfolding s'_def by code_simp
  have x: "expires (events (snd (timer_event_start 128 (tv_join 100 0) s')) 64) <s tv_join 100 0"
    unfolding s'_def by code_simp
  have "tv_join 100 0 <s TIMEVAL_MAX" by code_simp
  moreover obtain s'' where st: "timer_event_start 128 (tv_join 100 0) s' = (tv_join 100 0, s'')"
    using t by (cases "timer_event_start 128 (tv_join 100 0) s'") simp
  ultimately have "expires_next s'' = tv_join 100 0"
    using start_after_interrupt_overrides_tick [OF int _ st] by simp
  then show ?thesis using int st q x by (intro exI [of _ s'] exI [of _ s'']) simp
qed

end
