(* ===== verification/Tasks.thy ===== *)
theory Tasks
  imports SwBuddyInv
begin

text \<open>
  Tasks, the global state and the scheduler (\<open>core/task.c\<close>, \<open>core/global.c\<close>,
  \<open>core/scheduler.c\<close>, \<open>arch/arm/armv7/cpu_task.c\<close>) and the access control list
  (\<open>lib/sw_user_mgmt.c\<close>).

  Task structures and task local storage live at addresses: \<open>task_mem\<close> and \<open>tls_mem\<close> are the
  contents of the memory read as such structures, so that freshly allocated memory has some
  unknown content. The linked lists are the sequences of the addresses they link (theory
  \<open>SwList\<close>). A null address is 0. Saving and restoring registers, assembly in the source,
  copies the register record between \<open>cpu\<close> and the task.
\<close>

section \<open>Data\<close>

definition TASK_STATE_SUSPEND :: u32 where "TASK_STATE_SUSPEND = 0"
definition TASK_STATE_WAIT :: u32 where "TASK_STATE_WAIT = 1"
definition TASK_STATE_READY_TO_RUN :: u32 where "TASK_STATE_READY_TO_RUN = 2"
definition TASK_STATE_RUNNING :: u32 where "TASK_STATE_RUNNING = 3"

lemmas task_states = TASK_STATE_SUSPEND_def TASK_STATE_WAIT_def TASK_STATE_READY_TO_RUN_def
  TASK_STATE_RUNNING_def

definition TASK_ID_START :: u32 where "TASK_ID_START = 0x111"
definition NO_OF_INTERRUPTS_IMPLEMENTED :: u32 where "NO_OF_INTERRUPTS_IMPLEMENTED = 96"

definition OTZ_SVC_GLOBAL :: u32 where "OTZ_SVC_GLOBAL = 1"
definition OTZ_SVC_ECHO :: u32 where "OTZ_SVC_ECHO = 2"
definition OTZ_SVC_DRM :: u32 where "OTZ_SVC_DRM = 3"
definition OTZ_SVC_CRYPT :: u32 where "OTZ_SVC_CRYPT = 4"
definition OTZ_SVC_MUTEX_TEST :: u32 where "OTZ_SVC_MUTEX_TEST = 5"
definition OTZ_SVC_VIRTUAL_KEYBOARD :: u32 where "OTZ_SVC_VIRTUAL_KEYBOARD = 6"

record sw_task_cpu_regs =
  regs :: "u32 list"
  sp :: u32
  lr :: u32
  spsr :: u32
  pc :: u32

record sw_tls =
  params :: "u32 list"
  ret_val :: u32
  ipi_ret_val :: u32
  tls_elf_flag :: u32
  tls_process :: u32
  private_data :: u32

record acl_t =
  username :: string
  uid :: u32
  gid :: u32

record sw_task =
  task_id :: u32
  service_id :: u32
  entry_addr :: u32
  name :: string
  state :: u32
  task_sp :: u32
  task_sp_size :: u32
  tls :: u32
  task_regs :: sw_task_cpu_regs
  acl :: acl_t

record sa_config =
  service_uuid :: u32
  service_name :: string
  stack_size :: u32
  entry_point :: u32
  elf_flag :: u32
  process :: u32
  sa_data :: u32

text \<open>An entry of the access control list: a device with its groups, each with its users.\<close>

type_synonym acl_list = "(u32 \<times> (u32 \<times> u32 list) list) list"

record sw_global =
  next_task_id :: u32
  task_list :: "u32 list"
  ready_to_run_list :: "u32 list"
  current_task_id :: u32
  task_irq_handler :: "nat \<Rightarrow> u32"
  task_irq_handler_data :: "nat \<Rightarrow> u32"
  device_acl_list :: acl_list
  exec_mode :: u32
  task_mem :: "u32 \<Rightarrow> sw_task"
  tls_mem :: "u32 \<Rightarrow> sw_tls"
  kheap :: buddy_state
  cpu :: sw_task_cpu_regs
  timer_enabled :: bool

definition upd_task :: "u32 \<Rightarrow> (sw_task \<Rightarrow> sw_task) \<Rightarrow> sw_global \<Rightarrow> sw_global" where
  "upd_task p f g = g\<lparr>task_mem := (task_mem g)(p := f (task_mem g p))\<rparr>"

definition upd_tls :: "u32 \<Rightarrow> (sw_tls \<Rightarrow> sw_tls) \<Rightarrow> sw_global \<Rightarrow> sw_global" where
  "upd_tls p f g = g\<lparr>tls_mem := (tls_mem g)(p := f (tls_mem g p))\<rparr>"

section \<open>Looking tasks up\<close>

definition get_task :: "u32 \<Rightarrow> sw_global \<Rightarrow> u32 option" where
  "get_task i g = find (\<lambda>p. task_id (task_mem g p) = i) (task_list g)"

definition get_task_state :: "u32 \<Rightarrow> sw_global \<Rightarrow> u32" where
  "get_task_state i g =
     (case get_task i g of None \<Rightarrow> TASK_STATE_SUSPEND | Some p \<Rightarrow> state (task_mem g p))"

definition get_task_tls :: "u32 \<Rightarrow> sw_global \<Rightarrow> u32 option" where
  "get_task_tls i g = map_option (\<lambda>p. tls (task_mem g p)) (get_task i g)"

definition get_current_task :: "sw_global \<Rightarrow> u32 option" where
  "get_current_task g = get_task (current_task_id g) g"

definition update_current_task :: "u32 \<Rightarrow> sw_global \<Rightarrow> sw_global" where
  "update_current_task p g = g\<lparr>current_task_id := task_id (task_mem g p)\<rparr>"

section \<open>The ready list and the scheduler\<close>

text \<open>
  The sequence stands for the linked list as long as no task in it is added again. Nothing in the code
  prevents that: \<open>__list_add\<close> of a linked node cuts off the nodes behind it, and makes the node
  point to itself if it is the last one. The theorems about the ready list exclude this case, where the appended sequence means
  nothing.
\<close>

definition schedule_task :: "u32 \<Rightarrow> sw_global \<Rightarrow> sw_global" where
  "schedule_task p g = g\<lparr>ready_to_run_list := ready_to_run_list g @ [p]\<rparr>"

definition schedule_task_next :: "u32 \<Rightarrow> sw_global \<Rightarrow> sw_global" where
  "schedule_task_next p g = g\<lparr>ready_to_run_list := p # ready_to_run_list g\<rparr>"

definition schedule_task_id :: "u32 \<Rightarrow> sw_global \<Rightarrow> sw_global" where
  "schedule_task_id i g =
     (case get_task i g of
        None \<Rightarrow> g
      | Some p \<Rightarrow> schedule_task p (upd_task p (\<lambda>t. t\<lparr>state := TASK_STATE_READY_TO_RUN\<rparr>) g))"

definition suspend_task :: "u32 \<Rightarrow> u32 \<Rightarrow> sw_global \<Rightarrow> sw_global" where
  "suspend_task i st g =
     (case get_task i g of
        None \<Rightarrow> g
      | Some p \<Rightarrow>
          let g1 = upd_task p (\<lambda>t. t\<lparr>state := st\<rparr>) g
          in if current_task_id g1 = i \<and> state (task_mem g1 p) = TASK_STATE_SUSPEND
             then g1\<lparr>current_task_id := - 1\<rparr> else g1)"

definition runnable :: "u32 \<Rightarrow> sw_global \<Rightarrow> bool" where
  "runnable p g = (state (task_mem g p) \<noteq> TASK_STATE_WAIT \<and> state (task_mem g p) \<noteq> TASK_STATE_SUSPEND)"

definition get_next_task :: "sw_global \<Rightarrow> u32 option \<times> sw_global" where
  "get_next_task g =
     (let current_task = get_current_task g
      in case ready_to_run_list g of
           [] \<Rightarrow>
             (case current_task of
                Some c \<Rightarrow> if runnable c g then (Some c, g) else (None, g)
              | None \<Rightarrow> (None, g))
         | next_task # rest \<Rightarrow>
             let g1 = g\<lparr>ready_to_run_list := rest\<rparr>
             in (Some next_task,
                 case current_task of
                   None \<Rightarrow> g1
                 | Some c \<Rightarrow> if c \<in> set rest then g1 else if runnable c g1 then schedule_task c g1 else g1))"

definition task_context_switch :: "u32 option \<Rightarrow> u32 option \<Rightarrow> sw_global \<Rightarrow> sw_global" where
  "task_context_switch new_task old_task g =
     (let g1 = (case old_task of None \<Rightarrow> g | Some p \<Rightarrow> upd_task p (\<lambda>t. t\<lparr>task_regs := cpu g\<rparr>) g)
      in case new_task of None \<Rightarrow> g1 | Some p \<Rightarrow> g1\<lparr>cpu := task_regs (task_mem g1 p)\<rparr>)"

definition disable_timer :: "sw_global \<Rightarrow> sw_global" where
  "disable_timer g = g\<lparr>timer_enabled := False\<rparr>"

definition scheduler :: "sw_global \<Rightarrow> sw_global" where
  "scheduler g =
     (let current_task = get_current_task g
      in case get_next_task g of
           (next_task, g1) \<Rightarrow>
             let g2 = (if current_task \<noteq> next_task
                       then task_context_switch next_task current_task
                              (case next_task of
                                 None \<Rightarrow> g1
                               | Some p \<Rightarrow> update_current_task p (upd_task p (\<lambda>t. t\<lparr>state := TASK_STATE_RUNNING\<rparr>) g1))
                       else g1)
             in if next_task = None then disable_timer g2 else g2)"

section \<open>Access control\<close>

fun has_user :: "u32 \<Rightarrow> u32 \<Rightarrow> (u32 \<times> u32 list) list \<Rightarrow> bool" where
  "has_user g_id u_id [] = False"
| "has_user g_id u_id ((gid', us) # gs) = (if gid' = g_id then u_id \<in> set us else has_user g_id u_id gs)"

fun allowed :: "u32 \<Rightarrow> u32 \<Rightarrow> u32 \<Rightarrow> acl_list \<Rightarrow> bool" where
  "allowed d_id g_id u_id [] = False"
| "allowed d_id g_id u_id ((did, gs) # ds) =
     (if did = d_id then has_user g_id u_id gs else allowed d_id g_id u_id ds)"

text \<open>
  Without a running task the search dereferences a null pointer as soon as it compares a group.
\<close>

definition getPermission :: "u32 \<Rightarrow> sw_global \<Rightarrow> panic + int" where
  "getPermission d_id g =
     (if exec_mode g = 1 then
        (case get_current_task g of
           Some p \<Rightarrow>
             Inr (if allowed d_id (gid (acl (task_mem g p))) (uid (acl (task_mem g p))) (device_acl_list g)
                  then 1 else - 1)
         | None \<Rightarrow>
             (case find (\<lambda>(did, gs). did = d_id) (device_acl_list g) of
                Some (did, x # xs) \<Rightarrow> Inl CORRUPTED
              | _ \<Rightarrow> Inr (- 1)))
      else Inr 1)"

text \<open>How far the search for an entry gets: the device, the group, the user.\<close>

fun group_found :: "u32 \<Rightarrow> u32 \<Rightarrow> (u32 \<times> u32 list) list \<Rightarrow> int" where
  "group_found g_id u_id [] = 1"
| "group_found g_id u_id ((gid', us) # gs) =
     (if gid' = g_id then (if u_id \<in> set us then 3 else 2) else group_found g_id u_id gs)"

fun acl_found :: "u32 \<Rightarrow> u32 \<Rightarrow> u32 \<Rightarrow> acl_list \<Rightarrow> int" where
  "acl_found d_id g_id u_id [] = - 1"
| "acl_found d_id g_id u_id ((did, gs) # ds) =
     (if did = d_id then group_found g_id u_id gs else acl_found d_id g_id u_id ds)"

fun add_user :: "u32 \<Rightarrow> u32 \<Rightarrow> (u32 \<times> u32 list) list \<Rightarrow> (u32 \<times> u32 list) list" where
  "add_user g_id u_id [] = []"
| "add_user g_id u_id ((gid', us) # gs) =
     (if gid' = g_id then (gid', us @ [u_id]) # gs else (gid', us) # add_user g_id u_id gs)"

fun upd_device :: "u32 \<Rightarrow> ((u32 \<times> u32 list) list \<Rightarrow> (u32 \<times> u32 list) list) \<Rightarrow> acl_list \<Rightarrow> acl_list" where
  "upd_device d_id f [] = []"
| "upd_device d_id f ((did, gs) # ds) =
     (if did = d_id then (did, f gs) # ds else (did, gs) # upd_device d_id f ds)"

definition acl_insert :: "u32 \<Rightarrow> u32 \<Rightarrow> u32 \<Rightarrow> acl_list \<Rightarrow> acl_list" where
  "acl_insert d_id g_id u_id l =
     (let found = acl_found d_id g_id u_id l
      in if found = 3 then l
         else if found = 2 then upd_device d_id (add_user g_id u_id) l
         else if found = 1 then upd_device d_id (\<lambda>gs. gs @ [(g_id, [u_id])]) l
         else l @ [(d_id, [(g_id, [u_id])])])"

definition SIZEOF_ACL_USER :: u32 where "SIZEOF_ACL_USER = 12"
definition SIZEOF_ACL_GROUP :: u32 where "SIZEOF_ACL_GROUP = 20"
definition SIZEOF_ACL_DEVICE :: u32 where "SIZEOF_ACL_DEVICE = 20"

text \<open>An allocation from the common heap that must succeed.\<close>

definition alloc_or_die :: "bool \<Rightarrow> u32 \<Rightarrow> buddy_state \<Rightarrow> panic + buddy_state" where
  "alloc_or_die needed sz s =
     (if \<not> needed then Inr s
      else case sw_malloc_private COMMON_HEAP_ID sz s of
             Inl e \<Rightarrow> Inl e
           | Inr (p, s') \<Rightarrow> if p = 0 then Inl DIE_NOW else Inr s')"

definition updateGlobalACL :: "u32 \<Rightarrow> u32 \<Rightarrow> u32 \<Rightarrow> sw_global \<Rightarrow> panic + sw_global" where
  "updateGlobalACL d_id g_id u_id g =
     (let found = acl_found d_id g_id u_id (device_acl_list g)
      in case alloc_or_die (found < 3) SIZEOF_ACL_USER (kheap g) of
           Inl e \<Rightarrow> Inl e
         | Inr h1 \<Rightarrow>
             (case alloc_or_die (found < 2) SIZEOF_ACL_GROUP h1 of
                Inl e \<Rightarrow> Inl e
              | Inr h2 \<Rightarrow>
                  (case alloc_or_die (found < 1) SIZEOF_ACL_DEVICE h2 of
                     Inl e \<Rightarrow> Inl e
                   | Inr h3 \<Rightarrow>
                       Inr (g\<lparr>kheap := h3, device_acl_list := acl_insert d_id g_id u_id (device_acl_list g)\<rparr>))))"

fun update_all :: "u32 list \<Rightarrow> u32 \<Rightarrow> sw_global \<Rightarrow> panic + sw_global" where
  "update_all [] u_id g = Inr g"
| "update_all (d # ds) u_id g =
     (case updateGlobalACL d 1 u_id g of Inl e \<Rightarrow> Inl e | Inr g1 \<Rightarrow> update_all ds u_id g1)"

text \<open>The user name, the group and the devices that a service is registered with.\<close>

definition permission_table :: "u32 \<Rightarrow> (string \<times> u32 list) option" where
  "permission_table sid =
     (if sid = OTZ_SVC_GLOBAL then Some (''OTZ_GLOBAL'',
        [OTZ_SVC_GLOBAL, OTZ_SVC_ECHO, OTZ_SVC_DRM, OTZ_SVC_CRYPT, OTZ_SVC_MUTEX_TEST, OTZ_SVC_VIRTUAL_KEYBOARD])
      else if sid = OTZ_SVC_ECHO then Some (''OTZ_ECHO'', [])
      else if sid = OTZ_SVC_DRM then Some (''OTZ_DRM'', [2])
      else if sid = OTZ_SVC_CRYPT then Some (''OTZ_CRYPT'', [])
      else if sid = OTZ_SVC_MUTEX_TEST then Some (''OTZ_MUTEX'', [2])
      else if sid = OTZ_SVC_VIRTUAL_KEYBOARD then Some (''OTZ_KEYBOARD'', [2])
      else None)"

definition setPermission :: "u32 \<Rightarrow> sw_global \<Rightarrow> panic + (int \<times> sw_global)" where
  "setPermission p g =
     (let sid = service_id (task_mem g p)
      in case permission_table sid of
           Some (n, ds) \<Rightarrow>
             (case update_all ds sid (upd_task p (\<lambda>t. t\<lparr>acl := \<lparr>username = n, uid = sid, gid = 1\<rparr>\<rparr>) g) of
                Inl e \<Rightarrow> Inl e
              | Inr g1 \<Rightarrow> Inr (1, g1))
         | None \<Rightarrow> Inr (- 1, upd_task p (\<lambda>t. t\<lparr>acl := \<lparr>username = ''UN-DEF'', uid = sid, gid = 0\<rparr>\<rparr>) g))"

section \<open>Creating, starting and destroying tasks\<close>

definition SIZEOF_SW_TASK :: u32 where "SIZEOF_SW_TASK = 180"
definition SIZEOF_SW_TLS :: u32 where "SIZEOF_SW_TLS = 36"

definition with_heap :: "(buddy_state \<Rightarrow> buddy_state) \<Rightarrow> sw_global \<Rightarrow> sw_global" where
  "with_heap f g = g\<lparr>kheap := f (kheap g)\<rparr>"

definition free_opt :: "int \<Rightarrow> u32 \<Rightarrow> sw_global \<Rightarrow> sw_global" where
  "free_opt hid p g = (if p \<noteq> 0 then with_heap (sw_free_private hid p) g else g)"

text \<open>The label \<open>handle_err1\<close>.\<close>

definition create_cleanup :: "sa_config \<Rightarrow> u32 \<Rightarrow> u32 \<Rightarrow> sw_global \<Rightarrow> sw_global" where
  "create_cleanup c tid p g =
     (let g1 = (if sa_data c \<noteq> 0
                then with_heap (if service_name c = ''dispatcher'' then sw_free_private COMMON_HEAP_ID (sa_data c)
                                else sw_free (sint (current_task_id g)) (sa_data c)) g
                else g);
          g2 = free_opt (sint tid) (tls (task_mem g1 p)) g1;
          g3 = free_opt (sint tid) (task_sp (task_mem g2 p)) g2
      in free_opt (sint tid) p g3)"

definition create_commit :: "sa_config \<Rightarrow> u32 \<Rightarrow> u32 \<Rightarrow> u32 \<Rightarrow> sw_global \<Rightarrow> panic + (int \<times> u32 \<times> sw_global)" where
  "create_commit c tid p stack g =
     (let g1 = upd_task p (\<lambda>t. t\<lparr>task_sp := stack, task_sp_size := stack_size c, state := TASK_STATE_SUSPEND\<rparr>)
                 (g\<lparr>task_list := task_list g @ [p]\<rparr>)
      in case setPermission p g1 of
           Inl e \<Rightarrow> Inl e
         | Inr (r, g2) \<Rightarrow>
             Inr (OTZ_OK, tid, if service_uuid c = 1 then g2\<lparr>exec_mode := 1\<rparr> else g2))"

text \<open>The name is copied without a bound; what a name longer than the array overwrites is not modelled.\<close>

definition create_in_heap :: "sa_config \<Rightarrow> u32 \<Rightarrow> sw_global \<Rightarrow> panic + (int \<times> u32 \<times> sw_global)" where
  "create_in_heap c tid g =
     (case sw_malloc_private (sint tid) SIZEOF_SW_TASK (kheap g) of
        Inl e \<Rightarrow> Inl e
      | Inr (p, h1) \<Rightarrow>
          if p = 0 then Inr (OTZ_ENOMEM, - 1, g\<lparr>kheap := h1\<rparr>)
          else
            let g1 = upd_task p (\<lambda>t. t\<lparr>task_id := tid, service_id := service_uuid c,
                       entry_addr := entry_point c, name := service_name c\<rparr>) (g\<lparr>kheap := h1\<rparr>)
            in case sw_malloc_private (sint tid) SIZEOF_SW_TLS (kheap g1) of
                 Inl e \<Rightarrow> Inl e
               | Inr (q, h2) \<Rightarrow>
                   let g2 = upd_task p (\<lambda>t. t\<lparr>tls := q\<rparr>) (g1\<lparr>kheap := h2\<rparr>)
                   in if q = 0 then Inr (OTZ_ENOMEM, - 1, create_cleanup c tid p g2)
                      else
                        let g3 = upd_tls q (\<lambda>l. l\<lparr>private_data := sa_data c, tls_elf_flag := elf_flag c,
                                   tls_process := process c\<rparr>) g2
                        in case sw_malloc_private (sint tid) (stack_size c) (kheap g3) of
                             Inl e \<Rightarrow> Inl e
                           | Inr (stack, h3) \<Rightarrow>
                               let g4 = g3\<lparr>kheap := h3\<rparr>
                               in if stack = 0
                                  then Inr (OTZ_ENOMEM, - 1, create_cleanup c tid p
                                              (upd_task p (\<lambda>t. t\<lparr>task_sp := stack\<rparr>) g4))
                                  else create_commit c tid p stack g4)"

definition create_task :: "sa_config \<Rightarrow> sw_global \<Rightarrow> panic + (int \<times> u32 \<times> sw_global)" where
  "create_task c g =
     (case (if exec_mode g = 1 then getPermission (service_uuid c) g else Inr 1) of
        Inl e \<Rightarrow> Inl e
      | Inr perm \<Rightarrow>
          if perm = - 1 then Inr (OTZ_ENOMEM, - 1, g)
          else
            let tid = next_task_id g; g1 = g\<lparr>next_task_id := tid + 1\<rparr>
            in case alloc_private_heap (sint tid) (kheap g1) of
                 (r, h) \<Rightarrow>
                   if r = - 1 then Inr (OTZ_ENOMEM, - 1, g1\<lparr>kheap := h\<rparr>)
                   else create_in_heap c tid (g1\<lparr>kheap := h\<rparr>))"

definition destroy_task :: "u32 \<Rightarrow> sw_global \<Rightarrow> int \<times> sw_global" where
  "destroy_task i g =
     (case get_task i g of
        None \<Rightarrow> (OTZ_EFAIL, g)
      | Some p \<Rightarrow>
          let g1 = g\<lparr>task_list := remove1 p (task_list g)\<rparr>;
              g2 = (case find (\<lambda>q. task_id (task_mem g q) = i) (ready_to_run_list g) of
                      None \<Rightarrow> g1
                    | Some q \<Rightarrow> g1\<lparr>ready_to_run_list := remove1 q (ready_to_run_list g1)\<rparr>);
              g3 = free_opt (sint i) (tls (task_mem g p)) g2;
              g4 = with_heap (sw_free_private (sint i) (task_sp (task_mem g p))) g3;
              g5 = with_heap (sw_free_private (sint i) p) g4
          in (OTZ_OK, with_heap (\<lambda>h. snd (free_private_heap (sint i) h)) g5))"

text \<open>\<open>spsr0\<close> is the initial status register: user or system mode, as the kernel is configured.\<close>

definition cpu_task_regs_init :: "u32 \<Rightarrow> sw_task \<Rightarrow> sw_task_cpu_regs" where
  "cpu_task_regs_init spsr0 t =
     \<lparr>regs = [task_id t, tls t] @ replicate 11 0, sp = task_sp t + task_sp_size t, lr = 0,
      spsr = spsr0, pc = entry_addr t\<rparr>"

definition cpu_task_init :: "u32 \<Rightarrow> u32 \<Rightarrow> sw_global \<Rightarrow> sw_global" where
  "cpu_task_init spsr0 p g = upd_task p (\<lambda>t. t\<lparr>task_regs := cpu_task_regs_init spsr0 t\<rparr>) g"

definition start_task :: "u32 \<Rightarrow> u32 \<Rightarrow> u32 list option \<Rightarrow> sw_global \<Rightarrow> int \<times> sw_global" where
  "start_task spsr0 i ps g =
     (case get_task i g of
        None \<Rightarrow> (OTZ_EFAIL, g)
      | Some p \<Rightarrow>
          let g1 = cpu_task_init spsr0 p g;
              vals = (case ps of Some xs \<Rightarrow> take 4 xs | None \<Rightarrow> replicate 4 0);
              g2 = upd_tls (tls (task_mem g1 p)) (\<lambda>l. l\<lparr>params := vals\<rparr>) g1
          in (OTZ_OK, schedule_task p g2))"

definition global_init :: "sw_global \<Rightarrow> panic + sw_global" where
  "global_init g =
     (case alloc_private_heap COMMON_HEAP_ID (kheap g) of
        (r, h) \<Rightarrow>
          if r = - 1 then Inl DIE_NOW
          else Inr (g\<lparr>task_list := [], ready_to_run_list := [], device_acl_list := [], current_task_id := 0,
                 exec_mode := 0, next_task_id := TASK_ID_START, kheap := h\<rparr>))"

section \<open>Interrupt handlers\<close>

text \<open>The tables have \<open>NO_OF_INTERRUPTS_IMPLEMENTED\<close> entries; one more index passes the check.\<close>

definition register_irq :: "u32 \<Rightarrow> u32 \<Rightarrow> u32 \<Rightarrow> sw_global \<Rightarrow> panic + sw_global" where
  "register_irq interrupt h d g =
     (if interrupt > NO_OF_INTERRUPTS_IMPLEMENTED then Inr g
      else if unat interrupt < unat NO_OF_INTERRUPTS_IMPLEMENTED
      then Inr (g\<lparr>task_irq_handler := (task_irq_handler g)(unat interrupt := h),
                  task_irq_handler_data := (task_irq_handler_data g)(unat interrupt := d)\<rparr>)
      else Inl CORRUPTED)"

end
