(* ===== verification/TasksInv.thy ===== *)
theory TasksInv
  imports Tasks
begin

text \<open>
  Properties of the tasks: what is granted in the access control list, that the scheduler is a
  rotation of the running queue which gives every task its registers back, the invariant of
  the two task lists, and what \<open>create_task\<close> does when it succeeds and when it fails.
\<close>

section \<open>Access control\<close>

lemma has_user_add:
  "group_found g u gs = 2 \<Longrightarrow>
    has_user g' u' (add_user g u gs) = (has_user g' u' gs \<or> (g' = g \<and> u' = u))"
  by (induction gs) (auto split: if_splits)

lemma has_user_new_group:
  "group_found g u gs = 1 \<Longrightarrow>
    has_user g' u' (gs @ [(g, [u])]) = (has_user g' u' gs \<or> (g' = g \<and> u' = u))"
  by (induction gs) (auto split: if_splits)

lemma group_found_3: "group_found g u gs = 3 \<Longrightarrow> has_user g u gs"
  by (induction gs) (auto split: if_splits)

lemma group_found_cases: "group_found g u gs \<in> {1, 2, 3}"
  by (induction gs) (auto split: if_splits)

lemma allowed_upd_device:
  assumes "acl_found d g u l = k" "k \<noteq> - 1"
    and "\<And>gs. group_found g u gs = k \<Longrightarrow> has_user g' u' (f gs) = (has_user g' u' gs \<or> (g' = g \<and> u' = u))"
  shows "allowed d' g' u' (upd_device d f l) = (allowed d' g' u' l \<or> (d' = d \<and> g' = g \<and> u' = u))"
  using assms(1,2)
proof (induction l)
  case (Cons x l)
  then show ?case using assms(3) by (cases x) (auto split: if_splits)
qed simp

lemma allowed_new_device:
  "acl_found d g u l = - 1 \<Longrightarrow>
    allowed d' g' u' (l @ [(d, [(g, [u])])]) = (allowed d' g' u' l \<or> (d' = d \<and> g' = g \<and> u' = u))"
proof (induction l)
  case (Cons x l)
  then show ?case using group_found_cases [of g u "snd x"] by (cases x) (auto split: if_splits)
qed simp

lemma acl_found_3: "acl_found d g u l = 3 \<Longrightarrow> allowed d g u l"
  by (induction l) (auto split: if_splits dest: group_found_3)

lemma acl_found_cases: "acl_found d g u l \<in> {- 1, 1, 2, 3}"
  proof (induction l)
  case (Cons x l)
  then show ?case using group_found_cases [of g u "snd x"] by (cases x) (auto split: if_splits)
qed simp

lemma allowed_acl_insert:
  "allowed d' g' u' (acl_insert d g u l) = (allowed d' g' u' l \<or> (d' = d \<and> g' = g \<and> u' = u))"
proof -
  consider "acl_found d g u l = 3" | "acl_found d g u l = 2" | "acl_found d g u l = 1" | "acl_found d g u l = - 1"
    using acl_found_cases [of d g u l] by auto
  then show ?thesis
  proof cases
    case 1
    then show ?thesis using acl_found_3 [OF 1] by (auto simp: acl_insert_def)
  next
    case 2
    then show ?thesis using allowed_upd_device [OF 2 _ has_user_add] by (simp add: acl_insert_def)
  next
    case 3
    then show ?thesis using allowed_upd_device [OF 3 _ has_user_new_group] by (simp add: acl_insert_def)
  next
    case 4
    then show ?thesis using allowed_new_device [OF 4] by (simp add: acl_insert_def)
  qed
qed

lemma updateGlobalACL_frame:
  "updateGlobalACL d gr u g = Inr g' \<Longrightarrow>
    \<exists>h. g' = g\<lparr>kheap := h, device_acl_list := acl_insert d gr u (device_acl_list g)\<rparr>"
  by (auto simp: updateGlobalACL_def Let_def split: sum.splits)

text \<open>
  Registering a device, a group and a user grants exactly that access: whatever was allowed
  before stays allowed, nothing else becomes allowed, and nothing but the list and the heap
  changes.
\<close>

theorem updateGlobalACL_grants_exactly:
  assumes "updateGlobalACL d gr u g = Inr g'"
  shows "allowed d' gr' u' (device_acl_list g') =
      (allowed d' gr' u' (device_acl_list g) \<or> (d' = d \<and> gr' = gr \<and> u' = u)) \<and>
    g' = g\<lparr>kheap := kheap g', device_acl_list := device_acl_list g'\<rparr>"
  using updateGlobalACL_frame [OF assms] by (auto simp: allowed_acl_insert)

section \<open>The task lists\<close>

definition sched_ok :: "sw_global \<Rightarrow> bool" where
  "sched_ok g \<longleftrightarrow> distinct (task_list g) \<and> inj_on (\<lambda>p. task_id (task_mem g p)) (set (task_list g)) \<and>
     distinct (ready_to_run_list g) \<and> set (ready_to_run_list g) \<subseteq> set (task_list g) \<and>
     (\<forall>p\<in>set (task_list g). task_id (task_mem g p) < next_task_id g)"

lemma find_SomeD: "find P xs = Some x \<Longrightarrow> x \<in> set xs \<and> P x"
  by (induction xs) (auto split: if_splits)

lemma find_unique: "x \<in> set xs \<Longrightarrow> P x \<Longrightarrow> (\<And>y. y \<in> set xs \<Longrightarrow> P y \<Longrightarrow> y = x) \<Longrightarrow> find P xs = Some x"
  by (metis find_None_iff find_SomeD not_None_eq)

lemma get_task_iff:
  "sched_ok g \<Longrightarrow> get_task i g = Some p \<longleftrightarrow> p \<in> set (task_list g) \<and> task_id (task_mem g p) = i"
proof
  assume "sched_ok g" "p \<in> set (task_list g) \<and> task_id (task_mem g p) = i"
  then show "get_task i g = Some p"
    unfolding get_task_def by (intro find_unique) (auto simp: sched_ok_def inj_on_def)
qed (auto simp: get_task_def dest: find_SomeD)

lemma get_task_self: "sched_ok g \<Longrightarrow> p \<in> set (task_list g) \<Longrightarrow> get_task (task_id (task_mem g p)) g = Some p"
  by (rule get_task_iff [THEN iffD2]) simp_all

text \<open>The lists of a state do not depend on the other fields of the tasks.\<close>

lemma sched_ok_cong:
  assumes "task_list g' = task_list g" "ready_to_run_list g' = ready_to_run_list g" "next_task_id g' = next_task_id g"
    and "\<And>p. task_id (task_mem g' p) = task_id (task_mem g p)"
  shows "sched_ok g' = sched_ok g"
  using assms by (simp add: sched_ok_def)

lemma get_task_cong:
  assumes "task_list g' = task_list g" "\<And>p. task_id (task_mem g' p) = task_id (task_mem g p)"
  shows "get_task i g' = get_task i g"
  using assms by (simp add: get_task_def)

lemma upd_task_proj [simp]:
  "task_list (upd_task p f g) = task_list g" "ready_to_run_list (upd_task p f g) = ready_to_run_list g"
  "next_task_id (upd_task p f g) = next_task_id g" "current_task_id (upd_task p f g) = current_task_id g"
  "cpu (upd_task p f g) = cpu g" "kheap (upd_task p f g) = kheap g" "exec_mode (upd_task p f g) = exec_mode g"
  "device_acl_list (upd_task p f g) = device_acl_list g"
  "task_mem (upd_task p f g) = (task_mem g)(p := f (task_mem g p))"
  by (simp_all add: upd_task_def)

lemma upd_tls_proj [simp]:
  "task_list (upd_tls p f' g) = task_list g" "ready_to_run_list (upd_tls p f' g) = ready_to_run_list g"
  "next_task_id (upd_tls p f' g) = next_task_id g" "current_task_id (upd_tls p f' g) = current_task_id g"
  "task_mem (upd_tls p f' g) = task_mem g" "kheap (upd_tls p f' g) = kheap g" "exec_mode (upd_tls p f' g) = exec_mode g"
  "device_acl_list (upd_tls p f' g) = device_acl_list g"
  by (simp_all add: upd_tls_def)

lemma with_heap_proj [simp]:
  "task_list (with_heap f g) = task_list g" "ready_to_run_list (with_heap f g) = ready_to_run_list g"
  "next_task_id (with_heap f g) = next_task_id g" "current_task_id (with_heap f g) = current_task_id g"
  "task_mem (with_heap f g) = task_mem g" "tls_mem (with_heap f g) = tls_mem g" "exec_mode (with_heap f g) = exec_mode g"
  "device_acl_list (with_heap f g) = device_acl_list g" "kheap (with_heap f g) = f (kheap g)"
  by (simp_all add: with_heap_def)

lemma free_opt_proj [simp]:
  "task_list (free_opt i p g) = task_list g" "ready_to_run_list (free_opt i p g) = ready_to_run_list g"
  "next_task_id (free_opt i p g) = next_task_id g" "current_task_id (free_opt i p g) = current_task_id g"
  "task_mem (free_opt i p g) = task_mem g" "tls_mem (free_opt i p g) = tls_mem g" "exec_mode (free_opt i p g) = exec_mode g"
  "device_acl_list (free_opt i p g) = device_acl_list g"
  by (simp_all add: free_opt_def)

section \<open>The scheduler\<close>

text \<open>The registers of a task: in the processor while it is current, else in its structure.\<close>

definition context_of :: "sw_global \<Rightarrow> u32 \<Rightarrow> sw_task_cpu_regs" where
  "context_of g p = (if get_current_task g = Some p then cpu g else task_regs (task_mem g p))"

definition run_queue :: "sw_global \<Rightarrow> u32 list" where
  "run_queue g = (case get_current_task g of None \<Rightarrow> [] | Some c \<Rightarrow> [c]) @ ready_to_run_list g"

lemma scheduler_idle:
  assumes "ready_to_run_list g = []"
  shows "scheduler g =
    (case get_current_task g of
       None \<Rightarrow> disable_timer g
     | Some c \<Rightarrow> if runnable c g then g else disable_timer (upd_task c (\<lambda>t. t\<lparr>task_regs := cpu g\<rparr>) g))"
  using assms
  by (cases "get_current_task g") (simp_all add: scheduler_def get_next_task_def task_context_switch_def Let_def)

definition switch_to :: "u32 \<Rightarrow> u32 option \<Rightarrow> sw_global \<Rightarrow> sw_global" where
  "switch_to t old g = task_context_switch (Some t) old
     (update_current_task t (upd_task t (\<lambda>x. x\<lparr>state := TASK_STATE_RUNNING\<rparr>) g))"

definition requeue :: "u32 option \<Rightarrow> u32 list \<Rightarrow> sw_global \<Rightarrow> sw_global" where
  "requeue old rest g = g\<lparr>ready_to_run_list := rest @
     (case old of None \<Rightarrow> [] | Some c \<Rightarrow> if c \<in> set rest \<or> \<not> runnable c g then [] else [c])\<rparr>"

lemma get_next_task_ready:
  assumes "ready_to_run_list g = t # rest"
  shows "get_next_task g = (Some t, requeue (get_current_task g) rest g)"
  using assms
  by (cases "get_current_task g")
    (simp_all add: get_next_task_def requeue_def schedule_task_def runnable_def Let_def)

lemma scheduler_switch:
  assumes "ready_to_run_list g = t # rest"
  shows "scheduler g =
    (if get_current_task g = Some t then requeue (Some t) rest g
     else switch_to t (get_current_task g) (requeue (get_current_task g) rest g))"
  by (simp add: scheduler_def get_next_task_ready [OF assms] switch_to_def Let_def)

lemma get_current_task_mem: "get_current_task g = Some p \<Longrightarrow> p \<in> set (task_list g) \<and> task_id (task_mem g p) = current_task_id g"
  by (auto simp: get_current_task_def get_task_def dest: find_SomeD)

lemma requeue_proj [simp]:
  "task_list (requeue c r g) = task_list g" "next_task_id (requeue c r g) = next_task_id g"
  "current_task_id (requeue c r g) = current_task_id g" "task_mem (requeue c r g) = task_mem g"
  "cpu (requeue c r g) = cpu g" "kheap (requeue c r g) = kheap g" "tls_mem (requeue c r g) = tls_mem g"
  "device_acl_list (requeue c r g) = device_acl_list g" "exec_mode (requeue c r g) = exec_mode g"
  by (simp_all add: requeue_def)

lemma switch_to_proj [simp]:
  "task_list (switch_to t old g) = task_list g" "ready_to_run_list (switch_to t old g) = ready_to_run_list g"
  "next_task_id (switch_to t old g) = next_task_id g" "kheap (switch_to t old g) = kheap g"
  "current_task_id (switch_to t old g) = task_id (task_mem g t)"
  "task_id (task_mem (switch_to t old g) p) = task_id (task_mem g p)"
  "tls (task_mem (switch_to t old g) p) = tls (task_mem g p)"
  "state (task_mem (switch_to t old g) p) = (if p = t then TASK_STATE_RUNNING else state (task_mem g p))"
  by (cases old; simp add: switch_to_def task_context_switch_def update_current_task_def Let_def)+

lemma switch_to_regs:
  "old \<noteq> Some t \<Longrightarrow> cpu (switch_to t old g) = task_regs (task_mem g t)"
  "task_regs (task_mem (switch_to t old g) p) = (if old = Some p then cpu g else task_regs (task_mem g p))"
  by (cases old; simp add: switch_to_def task_context_switch_def update_current_task_def Let_def)+

lemma get_current_task_switch:
  assumes "sched_ok g" "t \<in> set (task_list g)"
  shows "get_current_task (switch_to t old (requeue c r g)) = Some t"
proof -
  have "get_current_task (switch_to t old (requeue c r g)) = get_task (task_id (task_mem g t)) (switch_to t old (requeue c r g))"
    by (simp add: get_current_task_def)
  also have "\<dots> = get_task (task_id (task_mem g t)) g" by (rule get_task_cong) simp_all
  also have "\<dots> = Some t" using assms by (rule get_task_self)
  finally show ?thesis .
qed

lemma get_current_task_cong:
  assumes "task_list g' = task_list g" "\<And>p. task_id (task_mem g' p) = task_id (task_mem g p)"
    and "current_task_id g' = current_task_id g"
  shows "get_current_task g' = get_current_task g"
  unfolding get_current_task_def assms(3) by (rule get_task_cong [OF assms(1,2)])

lemma scheduler_proj [simp]:
  "task_list (scheduler g) = task_list g" "next_task_id (scheduler g) = next_task_id g"
  "task_id (task_mem (scheduler g) p) = task_id (task_mem g p)"
  "tls (task_mem (scheduler g) p) = tls (task_mem g p)" "kheap (scheduler g) = kheap g"
  by (cases "ready_to_run_list g"; simp add: scheduler_idle scheduler_switch disable_timer_def split: option.split)+

lemma scheduler_ready:
  "ready_to_run_list (scheduler g) =
    (case ready_to_run_list g of [] \<Rightarrow> []
     | t # rest \<Rightarrow> rest @ (case get_current_task g of None \<Rightarrow> []
         | Some c \<Rightarrow> if c \<in> set rest \<or> \<not> runnable c g then [] else [c]))"
  by (cases "ready_to_run_list g")
    (auto simp: scheduler_idle scheduler_switch disable_timer_def requeue_def split: option.split)

text \<open>
  C3. A context switch loses no registers: after the scheduler has run, every task has the registers
  it had before, in the processor if it is now the running task and in its structure otherwise.
\<close>

theorem scheduler_preserves_contexts:
  assumes "sched_ok g" "p \<in> set (task_list g)"
  shows "context_of (scheduler g) p = context_of g p"
proof (cases "ready_to_run_list g")
  case Nil
  have "get_current_task (scheduler g) = get_current_task g"
    by (rule get_current_task_cong)
      (auto simp: scheduler_idle [OF Nil] disable_timer_def split: option.split)
  then show ?thesis
    by (auto simp: context_of_def scheduler_idle [OF Nil] disable_timer_def split: option.split)
next
  case (Cons t rest)
  have t: "t \<in> set (task_list g)" using assms(1) Cons by (auto simp: sched_ok_def)
  show ?thesis
  proof (cases "get_current_task g = Some t")
    case True
    then have "get_current_task (requeue (Some t) rest g) = Some t"
      by (subst get_current_task_cong [of _ g]) simp_all
    then show ?thesis using True by (simp add: context_of_def scheduler_switch [OF Cons])
  next
    case False
    then show ?thesis
      using get_current_task_switch [OF assms(1) t]
      by (auto simp: context_of_def scheduler_switch [OF Cons] switch_to_regs)
  qed
qed

text \<open>
  With a running task that stays runnable, the scheduler rotates the queue of tasks.
\<close>

lemma scheduler_rotates:
  assumes "sched_ok g" "get_current_task g = Some c" "runnable c g" "c \<notin> set (ready_to_run_list g)"
  shows "run_queue (scheduler g) = rotate1 (run_queue g) \<and>
    (\<exists>c'. get_current_task (scheduler g) = Some c' \<and> runnable c' (scheduler g) \<and> c' \<notin> set (ready_to_run_list (scheduler g)))"
proof (cases "ready_to_run_list g")
  case Nil
  then show ?thesis using assms by (simp add: scheduler_idle run_queue_def)
next
  case (Cons t rest)
  have t: "t \<in> set (task_list g)" "t \<notin> set rest" "t \<noteq> c" using assms Cons by (auto simp: sched_ok_def)
  have "scheduler g = switch_to t (Some c) (requeue (Some c) rest g)"
    using assms t Cons by (auto simp: scheduler_switch)
  moreover have "ready_to_run_list (requeue (Some c) rest g) = rest @ [c]"
    using assms Cons by (simp add: requeue_def)
  ultimately show ?thesis
    using get_current_task_switch [OF assms(1) t(1)] t assms(2) Cons
    by (simp add: run_queue_def runnable_def task_states)
qed

lemma scheduler_ok: "sched_ok g \<Longrightarrow> sched_ok (scheduler g)"
proof -
  assume ok: "sched_ok g"
  have cur: "get_current_task g = Some c \<Longrightarrow> c \<in> set (task_list g)" for c using get_current_task_mem by blast
  have "distinct (ready_to_run_list (scheduler g)) \<and> set (ready_to_run_list (scheduler g)) \<subseteq> set (task_list g)"
    using ok cur unfolding sched_ok_def scheduler_ready
    by (cases "ready_to_run_list g"; cases "get_current_task g") auto
  then show ?thesis using ok by (simp add: sched_ok_def)
qed

lemma scheduler_rotates_n:
  assumes "sched_ok g" "get_current_task g = Some c" "runnable c g" "c \<notin> set (ready_to_run_list g)"
  shows "run_queue ((scheduler ^^ n) g) = rotate n (run_queue g) \<and> get_current_task ((scheduler ^^ n) g) \<noteq> None"
  using assms
proof (induction n arbitrary: g c)
  case (Suc n)
  obtain c' where "get_current_task (scheduler g) = Some c'" "runnable c' (scheduler g)"
      "c' \<notin> set (ready_to_run_list (scheduler g))"
    using scheduler_rotates [OF Suc.prems] by blast
  from Suc.IH [OF scheduler_ok [OF Suc.prems(1)] this] scheduler_rotates [OF Suc.prems] show ?case
    by (simp only: funpow_Suc_right o_apply rotate_Suc rotate1_rotate_swap) simp
qed simp

text \<open>
  C5. The scheduler is a round robin: while the tasks stay runnable, \<open>n\<close> calls rotate the queue of
  the running task and the ready tasks by \<open>n\<close>, so every ready task runs after as many calls as its
  position in the queue.
\<close>

theorem scheduler_round_robin:
  assumes "sched_ok g" "get_current_task g = Some c" "runnable c g" "c \<notin> set (ready_to_run_list g)"
  shows "run_queue ((scheduler ^^ n) g) = rotate n (c # ready_to_run_list g) \<and>
    (\<forall>i<length (ready_to_run_list g). get_current_task ((scheduler ^^ Suc i) g) = Some (ready_to_run_list g ! i))"
proof -
  have rq: "run_queue g = c # ready_to_run_list g" using assms(2) by (simp add: run_queue_def)
  have rot: "run_queue ((scheduler ^^ k) g) = rotate k (c # ready_to_run_list g)"
    and cur: "get_current_task ((scheduler ^^ k) g) \<noteq> None" for k
    using scheduler_rotates_n [OF assms, of k] rq by simp_all
  have "get_current_task ((scheduler ^^ Suc i) g) = Some (ready_to_run_list g ! i)"
    if i: "i < length (ready_to_run_list g)" for i
  proof -
    have "hd (run_queue ((scheduler ^^ Suc i) g)) = ready_to_run_list g ! i"
      unfolding rot using i hd_rotate_conv_nth [of "c # ready_to_run_list g" "Suc i"] by simp
    then show ?thesis using cur [of "Suc i"] by (auto simp: run_queue_def)
  qed
  then show ?thesis using rot by blast
qed

section \<open>The invariant of the task lists\<close>

datatype task_op = Create sa_config | Destroy u32 | StartTask u32 u32 "u32 list option" | Suspend u32 u32
  | ScheduleId u32 | Schedule

fun task_exec :: "sw_global \<Rightarrow> task_op \<Rightarrow> sw_global" where
  "task_exec g (Create c) = (case create_task c g of Inl e \<Rightarrow> g | Inr (r, i, g') \<Rightarrow> g')"
| "task_exec g (Destroy i) = snd (destroy_task i g)"
| "task_exec g (StartTask m i ps) = snd (start_task m i ps g)"
| "task_exec g (Suspend i st) = suspend_task i st g"
| "task_exec g (ScheduleId i) = schedule_task_id i g"
| "task_exec g Schedule = scheduler g"

text \<open>
  What the callers and the allocator ensure: no task is put into the ready list while it is
  there, the task numbers do not wrap, and the memory of a new task structure is not that of
  an existing task.
\<close>

definition handed_out :: "sw_global \<Rightarrow> u32 \<Rightarrow> bool" where
  "handed_out g p \<longleftrightarrow> (\<exists>hid h h'. buddy_heap h = buddy_heap (kheap g) \<and>
     sw_malloc_private hid SIZEOF_SW_TASK h = Inr (p, h'))"

fun task_legal :: "sw_global \<Rightarrow> task_op \<Rightarrow> bool" where
  "task_legal g (Create c) = (next_task_id g \<noteq> - 1 \<and> (\<forall>p\<in>set (task_list g). \<not> handed_out g p))"
| "task_legal g (StartTask m i ps) = (get_task i g \<notin> Some ` set (ready_to_run_list g))"
| "task_legal g (ScheduleId i) = (get_task i g \<notin> Some ` set (ready_to_run_list g))"
| "task_legal g _ = True"

lemma schedule_task_ok:
  assumes "sched_ok g" "p \<in> set (task_list g)" "p \<notin> set (ready_to_run_list g)"
  shows "sched_ok (schedule_task p g)"
  using assms by (simp add: sched_ok_def schedule_task_def)

lemma sched_ok_upd_task [simp]:
  "(\<And>t. task_id (f t) = task_id t) \<Longrightarrow> sched_ok (upd_task p f g) = sched_ok g"
  by (rule sched_ok_cong) simp_all

lemma sched_ok_frame [simp]:
  "sched_ok (upd_tls p f' g) = sched_ok g" "sched_ok (with_heap k g) = sched_ok g"
  "sched_ok (free_opt i p g) = sched_ok g" "sched_ok (g\<lparr>kheap := h\<rparr>) = sched_ok g"
  "sched_ok (g\<lparr>current_task_id := j\<rparr>) = sched_ok g" "sched_ok (g\<lparr>device_acl_list := l\<rparr>) = sched_ok g"
  "sched_ok (g\<lparr>exec_mode := m\<rparr>) = sched_ok g"
  by (rule sched_ok_cong; simp)+

lemma get_task_Some: "get_task i g = Some p \<Longrightarrow> p \<in> set (task_list g) \<and> task_id (task_mem g p) = i"
  by (auto simp: get_task_def dest: find_SomeD)

lemma start_task_ok:
  "sched_ok g \<Longrightarrow> get_task i g \<notin> Some ` set (ready_to_run_list g) \<Longrightarrow> sched_ok (snd (start_task m i ps g))"
  by (cases "get_task i g")
    (auto simp: start_task_def Let_def cpu_task_init_def intro!: schedule_task_ok dest: get_task_Some)

lemma schedule_task_id_ok:
  "sched_ok g \<Longrightarrow> get_task i g \<notin> Some ` set (ready_to_run_list g) \<Longrightarrow> sched_ok (schedule_task_id i g)"
  by (cases "get_task i g")
    (auto simp: schedule_task_id_def intro!: schedule_task_ok dest: get_task_Some)

lemma suspend_task_ok: "sched_ok g \<Longrightarrow> sched_ok (suspend_task i st g)"
  by (auto simp: suspend_task_def Let_def split: option.split)

lemma destroy_task_lists:
  assumes "sched_ok g" "get_task i g = Some p" "destroy_task i g = (r, g')"
  shows "r = OTZ_OK" "task_list g' = remove1 p (task_list g)" "ready_to_run_list g' = remove1 p (ready_to_run_list g)"
    "task_mem g' = task_mem g" "next_task_id g' = next_task_id g" "current_task_id g' = current_task_id g"
proof -
  have p: "p \<in> set (task_list g)" "task_id (task_mem g p) = i" using get_task_Some [OF assms(2)] by auto
  have "find (\<lambda>q. task_id (task_mem g q) = i) (ready_to_run_list g) =
      (if p \<in> set (ready_to_run_list g) then Some p else None)"
    using assms(1) p
    by (auto simp: sched_ok_def inj_on_def find_None_iff intro!: find_unique)
  then show "r = OTZ_OK" "task_list g' = remove1 p (task_list g)" "ready_to_run_list g' = remove1 p (ready_to_run_list g)"
    "task_mem g' = task_mem g" "next_task_id g' = next_task_id g" "current_task_id g' = current_task_id g"
    using assms(2,3) by (auto simp: destroy_task_def Let_def remove1_idem split: if_splits)
qed

lemma destroy_task_ok: "sched_ok g \<Longrightarrow> sched_ok (snd (destroy_task i g))"
proof (cases "get_task i g")
  case (Some p)
  assume ok: "sched_ok g"
  obtain r g' where d: "destroy_task i g = (r, g')" by (cases "destroy_task i g")
  show ?thesis
    using ok destroy_task_lists [OF ok Some d] set_remove1_subset [of p]
    by (auto simp: d sched_ok_def distinct_remove1 inj_on_def set_remove1_eq)
qed (simp add: destroy_task_def)

section \<open>Creating a task\<close>

lemma update_all_frame:
  "update_all ds u g = Inr g' \<Longrightarrow> \<exists>h l. g' = g\<lparr>kheap := h, device_acl_list := l\<rparr>"
proof (induction ds arbitrary: g)
  case Nil
  then show ?case by (intro exI [of _ "kheap g"] exI [of _ "device_acl_list g"]) simp
next
  case (Cons d ds)
  then obtain g1 where g1: "updateGlobalACL d 1 u g = Inr g1" "update_all ds u g1 = Inr g'"
    by (auto split: sum.splits)
  then obtain h l where "g' = g1\<lparr>kheap := h, device_acl_list := l\<rparr>" using Cons.IH by blast
  then have "g' = g\<lparr>kheap := h, device_acl_list := l\<rparr>" using updateGlobalACL_frame [OF g1(1)] by auto
  then show ?case by blast
qed

lemma setPermission_frame:
  assumes "setPermission p g = Inr (r, g')"
  shows "\<exists>a h l. g' = (upd_task p (\<lambda>t. t\<lparr>acl := a\<rparr>) g)\<lparr>kheap := h, device_acl_list := l\<rparr> \<and>
    uid a = service_id (task_mem g p)"
proof (cases "permission_table (service_id (task_mem g p))")
  case None
  let ?g = "upd_task p (\<lambda>t. t\<lparr>acl := \<lparr>username = ''UN-DEF'', uid = service_id (task_mem g p), gid = 0\<rparr>\<rparr>) g"
  have "g' = ?g\<lparr>kheap := kheap ?g, device_acl_list := device_acl_list ?g\<rparr>"
    using assms None by (simp add: setPermission_def Let_def)
  then show ?thesis by (metis acl_t.select_convs(2))
next
  case (Some nd)
  then obtain n ds where nd: "permission_table (service_id (task_mem g p)) = Some (n, ds)" by (cases nd) auto
  let ?a = "\<lparr>username = n, uid = service_id (task_mem g p), gid = 1\<rparr>"
  have "update_all ds (service_id (task_mem g p)) (upd_task p (\<lambda>t. t\<lparr>acl := ?a\<rparr>) g) = Inr g'"
    using assms nd by (auto simp: setPermission_def Let_def split: sum.splits)
  then show ?thesis using update_all_frame by (metis acl_t.select_convs(2))
qed

lemma create_cleanup_proj [simp]:
  "task_list (create_cleanup c i p g) = task_list g" "ready_to_run_list (create_cleanup c i p g) = ready_to_run_list g"
  "next_task_id (create_cleanup c i p g) = next_task_id g" "current_task_id (create_cleanup c i p g) = current_task_id g"
  "task_mem (create_cleanup c i p g) = task_mem g" "device_acl_list (create_cleanup c i p g) = device_acl_list g"
  "exec_mode (create_cleanup c i p g) = exec_mode g"
  by (simp_all add: create_cleanup_def Let_def)

text \<open>A task structure as \<open>create_task\<close> leaves it.\<close>

definition created :: "sa_config \<Rightarrow> u32 \<Rightarrow> sw_task \<Rightarrow> bool" where
  "created c i t \<longleftrightarrow> task_id t = i \<and> service_id t = service_uuid c \<and> entry_addr t = entry_point c \<and>
     name t = service_name c \<and> state t = TASK_STATE_SUSPEND \<and> tls t \<noteq> 0 \<and> task_sp t \<noteq> 0 \<and>
     task_sp_size t = stack_size c \<and> uid (acl t) = service_uuid c"

text \<open>The two ways in which creation ends, with the address of the structure.\<close>

definition create_result :: "sa_config \<Rightarrow> u32 \<Rightarrow> u32 \<Rightarrow> sw_global \<Rightarrow> int \<times> u32 \<times> sw_global \<Rightarrow> bool" where
  "create_result c tid p g res \<longleftrightarrow> (case res of (r, i, g') \<Rightarrow>
     ready_to_run_list g' = ready_to_run_list g \<and> current_task_id g' = current_task_id g \<and>
     next_task_id g' = next_task_id g \<and> (\<forall>q. q \<noteq> p \<longrightarrow> task_mem g' q = task_mem g q) \<and>
     (if r = OTZ_OK
      then i = tid \<and> p \<noteq> 0 \<and> task_list g' = task_list g @ [p] \<and> created c tid (task_mem g' p) \<and>
        exec_mode g' = (if service_uuid c = 1 then 1 else exec_mode g)
      else r = OTZ_ENOMEM \<and> i = - 1 \<and> task_list g' = task_list g \<and> device_acl_list g' = device_acl_list g \<and>
        exec_mode g' = exec_mode g))"

lemma create_commit_result:
  assumes "create_commit c tid p stack g = Inr res" "stack \<noteq> 0" "p \<noteq> 0" "tls (task_mem g p) \<noteq> 0"
    and "task_id (task_mem g p) = tid" "service_id (task_mem g p) = service_uuid c"
    and "entry_addr (task_mem g p) = entry_point c" "name (task_mem g p) = service_name c"
  shows "create_result c tid p g res"
proof -
  define g1 where "g1 = upd_task p (\<lambda>t. t\<lparr>task_sp := stack, task_sp_size := stack_size c, state := TASK_STATE_SUSPEND\<rparr>)
      (g\<lparr>task_list := task_list g @ [p]\<rparr>)"
  obtain r g2 where sp: "setPermission p g1 = Inr (r, g2)"
    using assms(1) by (auto simp: create_commit_def g1_def Let_def split: sum.splits)
  obtain a h l where g2: "g2 = (upd_task p (\<lambda>t. t\<lparr>acl := a\<rparr>) g1)\<lparr>kheap := h, device_acl_list := l\<rparr>"
      "uid a = service_id (task_mem g1 p)"
    using setPermission_frame [OF sp] by blast
  have "res = (OTZ_OK, tid, if service_uuid c = 1 then g2\<lparr>exec_mode := 1\<rparr> else g2)"
    using assms(1) sp by (simp add: create_commit_def g1_def [symmetric] Let_def)
  then show ?thesis
    using assms(2-8) g2 by (auto simp: create_result_def created_def g1_def)
qed

lemma create_in_heap_result:
  assumes "create_in_heap c tid g = Inr res"
  shows "\<exists>p h. sw_malloc_private (sint tid) SIZEOF_SW_TASK (kheap g) = Inr (p, h) \<and> create_result c tid p g res"
proof -
  obtain p h1 where m1: "sw_malloc_private (sint tid) SIZEOF_SW_TASK (kheap g) = Inr (p, h1)"
    using assms by (auto simp: create_in_heap_def split: sum.splits)
  define g1 where "g1 = upd_task p (\<lambda>t. t\<lparr>task_id := tid, service_id := service_uuid c,
      entry_addr := entry_point c, name := service_name c\<rparr>) (g\<lparr>kheap := h1\<rparr>)"
  show ?thesis
  proof (cases "p = 0")
    case True
    then have "res = (OTZ_ENOMEM, - 1, g\<lparr>kheap := h1\<rparr>)" using assms m1 by (simp add: create_in_heap_def)
    then show ?thesis using m1 by (auto simp: create_result_def otz_codes)
  next
    case p: False
    obtain q h2 where m2: "sw_malloc_private (sint tid) SIZEOF_SW_TLS (kheap g1) = Inr (q, h2)"
      using assms m1 p by (auto simp: create_in_heap_def g1_def Let_def split: sum.splits)
    have k: "kheap g1 = h1" by (simp add: g1_def)
    define g2 where "g2 = upd_task p (\<lambda>t. t\<lparr>tls := q\<rparr>) (g1\<lparr>kheap := h2\<rparr>)"
    define g3 where "g3 = upd_tls q (\<lambda>l. l\<lparr>private_data := sa_data c, tls_elf_flag := elf_flag c, tls_process := process c\<rparr>) g2"
    have step: "create_in_heap c tid g =
        (if q = 0 then Inr (OTZ_ENOMEM, - 1, create_cleanup c tid p g2)
         else case sw_malloc_private (sint tid) (stack_size c) (kheap g3) of
           Inl e \<Rightarrow> Inl e
         | Inr (stack, h3) \<Rightarrow>
             if stack = 0
             then Inr (OTZ_ENOMEM, - 1, create_cleanup c tid p (upd_task p (\<lambda>t. t\<lparr>task_sp := stack\<rparr>) (g3\<lparr>kheap := h3\<rparr>)))
             else create_commit c tid p stack (g3\<lparr>kheap := h3\<rparr>))"
      using m1 m2 [unfolded k] p
      by (simp add: create_in_heap_def g1_def g2_def g3_def Let_def split: sum.split prod.split)
    have frame: "create_result c tid p g res" if "create_result c tid p (g3\<lparr>kheap := h3\<rparr>) res" for h3
      using that by (auto simp: create_result_def g3_def g2_def g1_def split: if_splits)
    show ?thesis
    proof (cases "q = 0")
      case True
      then have "res = (OTZ_ENOMEM, - 1, create_cleanup c tid p g2)" using assms step by simp
      then show ?thesis using m1 by (auto simp: create_result_def otz_codes g2_def g1_def)
    next
      case q: False
      then obtain stack h3 where m3: "sw_malloc_private (sint tid) (stack_size c) (kheap g3) = Inr (stack, h3)"
        using assms step by (auto split: sum.splits)
      show ?thesis
      proof (cases "stack = 0")
        case True
        then have "res = (OTZ_ENOMEM, - 1, create_cleanup c tid p (upd_task p (\<lambda>t. t\<lparr>task_sp := stack\<rparr>) (g3\<lparr>kheap := h3\<rparr>)))"
          using assms step m3 q by simp
        then show ?thesis using m1 by (auto simp: create_result_def otz_codes g3_def g2_def g1_def)
      next
        case False
        then have "create_commit c tid p stack (g3\<lparr>kheap := h3\<rparr>) = Inr res" using assms step m3 q by simp
        then have "create_result c tid p (g3\<lparr>kheap := h3\<rparr>) res"
          by (rule create_commit_result) (use False p q in \<open>simp_all add: g3_def g2_def g1_def\<close>)
        then show ?thesis using m1 frame by blast
      qed
    qed
  qed
qed

lemma alloc_private_heap_mem [simp]: "buddy_heap (snd (alloc_private_heap hid h)) = buddy_heap h"
  by (simp add: alloc_private_heap_def split: option.split)

text \<open>The three ends of \<open>create_task\<close>: no permission, no private heap, and creation in the new heap.\<close>

lemma create_task_cases:
  assumes "create_task c g = Inr res"
  obtains (denied) "exec_mode g = 1" "getPermission (service_uuid c) g = Inr (- 1)" "res = (OTZ_ENOMEM, - 1, g)"
  | (no_heap) h where "alloc_private_heap (sint (next_task_id g)) (kheap g) = (- 1, h)"
      "res = (OTZ_ENOMEM, - 1, g\<lparr>next_task_id := next_task_id g + 1, kheap := h\<rparr>)"
  | (in_heap) k h where "alloc_private_heap (sint (next_task_id g)) (kheap g) = (k, h)" "k \<noteq> - 1"
      "create_in_heap c (next_task_id g) (g\<lparr>next_task_id := next_task_id g + 1, kheap := h\<rparr>) = Inr res"
  using assms
  by (cases "alloc_private_heap (sint (next_task_id g)) (kheap g)")
    (auto simp: create_task_def Let_def split: sum.splits if_splits)

lemma create_task_result:
  assumes "create_task c g = Inr (r, i, g')"
  shows "ready_to_run_list g' = ready_to_run_list g \<and> current_task_id g' = current_task_id g \<and>
    (if r = OTZ_OK
     then i = next_task_id g \<and> next_task_id g' = next_task_id g + 1 \<and>
       (\<exists>p. handed_out g p \<and> p \<noteq> 0 \<and> task_list g' = task_list g @ [p] \<and> created c i (task_mem g' p) \<and>
         (\<forall>q. q \<noteq> p \<longrightarrow> task_mem g' q = task_mem g q))
     else r = OTZ_ENOMEM \<and> i = - 1 \<and> next_task_id g' \<in> {next_task_id g, next_task_id g + 1} \<and>
       task_list g' = task_list g \<and> device_acl_list g' = device_acl_list g \<and> exec_mode g' = exec_mode g \<and>
       (\<forall>q. \<not> handed_out g q \<longrightarrow> task_mem g' q = task_mem g q))"
  using assms
proof (cases rule: create_task_cases)
  case (in_heap k h)
  let ?g = "g\<lparr>next_task_id := next_task_id g + 1, kheap := h\<rparr>"
  obtain p h' where p: "sw_malloc_private (sint (next_task_id g)) SIZEOF_SW_TASK h = Inr (p, h')"
      "create_result c (next_task_id g) p ?g (r, i, g')"
    using create_in_heap_result [OF in_heap(3)] by auto
  have "buddy_heap h = buddy_heap (kheap g)"
    using in_heap(1) alloc_private_heap_mem [of "sint (next_task_id g)" "kheap g"] by simp
  then have "handed_out g p" using p(1) by (auto simp: handed_out_def)
  then show ?thesis
    using p(2) unfolding create_result_def by (cases "r = OTZ_OK") auto
qed (auto simp: otz_codes)

lemma word_less_Suc: "(w::u32) \<noteq> - 1 \<Longrightarrow> w < w + 1"
proof (cases "unat w + 1 < 2 ^ 32")
  case True
  then show ?thesis using unat_plus_lt [of w 1] by (simp add: word_less_nat_alt)
next
  case False
  assume "w \<noteq> - 1"
  moreover have "unat w = unat (- 1 :: u32)" using False unat_lt_2p32 [of w] by (simp add: unsigned_minus_1_eq_mask mask_eq_exp_minus_1)
  ultimately show ?thesis unfolding unat_inject by simp
qed

lemma create_task_ok:
  assumes ok: "sched_ok g" and lg: "task_legal g (Create c)" and res: "create_task c g = Inr (r, i, g')"
  shows "sched_ok g'"
proof -
  note cr = create_task_result [OF res]
  have lt: "next_task_id g < next_task_id g + 1" using lg by (intro word_less_Suc) simp
  have ready: "ready_to_run_list g' = ready_to_run_list g" using cr by simp
  show ?thesis
  proof (cases "r = OTZ_OK")
    case True
    obtain p where p: "handed_out g p" "task_list g' = task_list g @ [p]" "task_id (task_mem g' p) = next_task_id g"
        "\<And>q. q \<noteq> p \<Longrightarrow> task_mem g' q = task_mem g q" "next_task_id g' = next_task_id g + 1"
      using cr True by (auto simp: created_def)
    have new: "p \<notin> set (task_list g)" using lg p(1) by auto
    then have same: "q \<in> set (task_list g) \<Longrightarrow> task_mem g' q = task_mem g q" for q using p(4) by metis
    have old: "q \<in> set (task_list g) \<Longrightarrow> task_id (task_mem g q) < next_task_id g" for q
      using ok by (simp add: sched_ok_def)
    have "inj_on (\<lambda>q. task_id (task_mem g' q)) (set (task_list g))"
      using ok same by (simp add: sched_ok_def inj_on_def)
    then have "inj_on (\<lambda>q. task_id (task_mem g' q)) (insert p (set (task_list g)))"
      using new same old p(3) by (auto simp: inj_on_insert dest!: old)
    moreover have "\<forall>q\<in>insert p (set (task_list g)). task_id (task_mem g' q) < next_task_id g + 1"
      using old same p(3) lt by (auto intro: less_trans)
    ultimately show ?thesis
      using ok new ready p(2,5) by (auto simp: sched_ok_def)
  next
    case False
    then have f: "task_list g' = task_list g" "next_task_id g' \<in> {next_task_id g, next_task_id g + 1}"
        "\<And>q. q \<in> set (task_list g) \<Longrightarrow> task_mem g' q = task_mem g q"
      using cr lg by auto
    have "\<forall>q\<in>set (task_list g). task_id (task_mem g q) < next_task_id g'"
      using ok lt f(2) by (auto simp: sched_ok_def intro: less_trans)
    then show ?thesis using ok f(1,3) ready by (simp add: sched_ok_def inj_on_def)
  qed
qed

lemma getPermission_values: "getPermission d g = Inr v \<Longrightarrow> v = 1 \<or> v = - 1"
  by (auto simp: getPermission_def split: if_splits option.splits list.splits prod.splits)

interpretation task_ops: op_contract sched_ok task_legal task_exec
proof unfold_locales
  fix g c assume ok: "sched_ok g" and lg: "task_legal g c"
  show "sched_ok (task_exec g c)"
  proof (cases c)
    case (Create x)
    then show ?thesis using ok lg create_task_ok by (auto split: sum.split)
  qed (use ok lg in \<open>auto simp: destroy_task_ok start_task_ok suspend_task_ok schedule_task_id_ok scheduler_ok\<close>)
qed

lemma global_init_ok: "global_init g = Inr g' \<Longrightarrow> sched_ok g'"
  by (auto simp: global_init_def sched_ok_def split: prod.splits if_splits)

text \<open>
  C12. After initialisation and any sequence of creations, destructions, starts, suspensions and
  schedules, task numbers identify the tasks, the ready list holds no task twice, and every ready
  task is a task of the task list. The sequence must keep three conditions (\<open>task_legal\<close>): no task
  is made ready while it is ready, no task is created at the address of a task still listed (what
  the allocator owes its callers; C2 is that property of the allocator), and the 32-bit
  task numbers do not wrap around.
\<close>

theorem task_lists_stay_consistent:
  assumes "global_init g0 = Inr g" "task_ops.legal g ops" "g' = task_ops.run g ops"
  shows "distinct (task_list g') \<and> inj_on (\<lambda>p. task_id (task_mem g' p)) (set (task_list g')) \<and>
    distinct (ready_to_run_list g') \<and> set (ready_to_run_list g') \<subseteq> set (task_list g') \<and>
    (\<forall>p\<in>set (task_list g'). get_task (task_id (task_mem g' p)) g' = Some p)"
proof -
  have ok: "sched_ok g'" using task_ops.run_inv [OF global_init_ok [OF assms(1)] assms(2)] assms(3) by simp
  then show ?thesis using get_task_self [OF ok] by (simp add: sched_ok_def)
qed

text \<open>
  C13. \<open>create_task\<close> called without permission in the mode that checks it (1) reports \<open>OTZ_ENOMEM\<close> and
  the number -1 and changes nothing. Otherwise it either makes one new suspended task with the next
  number, an own stack and local storage, and keeps all others as they were; or it reports
  \<open>OTZ_ENOMEM\<close> and the number -1 and leaves the task list, the ready list, the access control list
  and the mode unchanged.
\<close>

theorem create_task_all_or_nothing:
  assumes "create_task c g = Inr (r, i, g')"
  shows "if exec_mode g = 1 \<and> getPermission (service_uuid c) g \<noteq> Inr 1
    then r = OTZ_ENOMEM \<and> i = - 1 \<and> g' = g
    else (r = OTZ_OK \<and> i = next_task_id g \<and> next_task_id g' = next_task_id g + 1 \<and>
        ready_to_run_list g' = ready_to_run_list g \<and>
        (\<exists>p. p \<noteq> 0 \<and> task_list g' = task_list g @ [p] \<and> created c i (task_mem g' p) \<and>
          (\<forall>q. q \<noteq> p \<longrightarrow> task_mem g' q = task_mem g q))) \<or>
      (r = OTZ_ENOMEM \<and> i = - 1 \<and> task_list g' = task_list g \<and> ready_to_run_list g' = ready_to_run_list g \<and>
        device_acl_list g' = device_acl_list g \<and> exec_mode g' = exec_mode g)"
proof -
  have "(r, i, g') = (OTZ_ENOMEM, - 1, g)" if "exec_mode g = 1" "getPermission (service_uuid c) g \<noteq> Inr 1"
    using assms that getPermission_values [of "service_uuid c" g]
    by (cases "getPermission (service_uuid c) g") (auto simp: create_task_def)
  then show ?thesis using create_task_result [OF assms] by (cases "r = OTZ_OK") auto
qed

section \<open>The heap of a task that could not be created\<close>

lemma find_heap_cong:
  "(\<And>k. heap_id (h_index h' k) = heap_id (h_index h k)) \<Longrightarrow> find_heap hid h' = find_heap hid h"
  by (simp add: find_heap_def)

lemma malloc_heap_ids: "sw_malloc_private hid sz h = Inr (p, h') \<Longrightarrow> heap_id (h_index h' k) = heap_id (h_index h k)"
  by (auto simp: sw_malloc_private_def add_pending_def set_heap_def split: option.splits sum.splits)

lemma free_heap_ids: "heap_id (h_index (sw_free_private hid p h) k) = heap_id (h_index h k)"
  by (simp add: sw_free_private_def add_pending_def set_heap_def split: option.split)

lemma free_opt_heap_ids [simp]: "heap_id (h_index (kheap (free_opt hid p g)) k) = heap_id (h_index (kheap g) k)"
  by (simp add: free_opt_def free_heap_ids)

lemma create_cleanup_heap_ids [simp]:
  "heap_id (h_index (kheap (create_cleanup c i p g)) k) = heap_id (h_index (kheap g) k)"
  by (simp add: create_cleanup_def Let_def free_heap_ids sw_free_def)

lemma create_in_heap_failed_ids:
  assumes "create_in_heap c tid g = Inr (r, i, g')" "r \<noteq> OTZ_OK"
  shows "heap_id (h_index (kheap g') k) = heap_id (h_index (kheap g) k)"
  using assms
  by (auto simp: create_in_heap_def create_commit_def Let_def split: sum.splits if_splits prod.splits
      dest!: malloc_heap_ids [of _ _ _ _ _ k])

lemma find_heap_alloc: "alloc_private_heap hid h = (r, h') \<Longrightarrow> r \<noteq> - 1 \<Longrightarrow> find_heap hid h' \<noteq> None"
proof -
  assume a: "alloc_private_heap hid h = (r, h')" "r \<noteq> - 1"
  show ?thesis
  proof (cases "find_heap hid h")
    case None
    then obtain k where k: "find_heap (- 1) h = Some k" "heap_id (h_index h' k) = hid"
      using a by (auto simp: alloc_private_heap_def split: option.splits)
    then have "k \<in> set [0..<NUM_OF_HEAPS]" by (auto simp: find_heap_def dest: find_SomeD)
    then show ?thesis using k(2) by (auto simp: find_heap_def find_None_iff)
  qed (use a in \<open>auto simp: alloc_private_heap_def\<close>)
qed

text \<open>
  A creation that fails after the private heap has been reserved gives the memory back, but not
  the heap: it stays assigned to a task number that no task will ever have.
\<close>

theorem failed_create_keeps_heap:
  assumes "create_task c g = Inr (r, i, g')" "r \<noteq> OTZ_OK"
    and "exec_mode g \<noteq> 1" "fst (alloc_private_heap (sint (next_task_id g)) (kheap g)) \<noteq> - 1"
  shows "find_heap (sint (next_task_id g)) (kheap g') \<noteq> None \<and> task_list g' = task_list g"
  using assms(1)
proof (cases rule: create_task_cases)
  case (in_heap k h)
  have "find_heap (sint (next_task_id g)) (kheap g') = find_heap (sint (next_task_id g)) h"
    using create_in_heap_failed_ids [OF in_heap(3) assms(2)] by (intro find_heap_cong) simp
  then show ?thesis
    using find_heap_alloc [OF in_heap(1,2)] create_task_result [OF assms(1)] assms(2) by simp
qed (use assms in auto)

section \<open>Witnesses\<close>

text \<open>
  Two tasks, the first one running and the second one ready. The common heap has one free block of
  16 bytes; the other heaps have a block of 256 bytes and two of 64 bytes.
\<close>

definition witness_heap :: "nat \<Rightarrow> sw_heap" where
  "witness_heap i =
     (if i = 0 then one_block_heap\<lparr>bins := (\<lambda>_. [])(2 := [0]), counts := (\<lambda>_. 0)(2 := 1)\<rparr>
      else one_block_heap\<lparr>hk_fn := (\<lambda>_. 0)(0 := 0x101000, 1 := 0x101100, 2 := 0x101140), hk_fn_count := 4,
        hk_an_count := 4, bins := (\<lambda>_. [])(6 := [0], 4 := [1, 2]), counts := (\<lambda>_. 0)(6 := 1, 4 := 2)\<rparr>)"

definition witness_task :: "u32 \<Rightarrow> sw_task" where
  "witness_task i = \<lparr>task_id = i, service_id = 3, entry_addr = 0x8000, name = ''drm'', state = TASK_STATE_RUNNING,
     task_sp = 0, task_sp_size = 0, tls = 0,
     task_regs = \<lparr>regs = [], sp = 0, lr = 0, spsr = 0, pc = i\<rparr>, acl = \<lparr>username = ''OTZ_DRM'', uid = 3, gid = 1\<rparr>\<rparr>"

definition two_tasks :: sw_global where
  "two_tasks = \<lparr>next_task_id = 0x113, task_list = [0x1000, 0x2000], ready_to_run_list = [0x2000],
     current_task_id = 0x111, task_irq_handler = (\<lambda>_. 0), task_irq_handler_data = (\<lambda>_. 0),
     device_acl_list = [(2, [(1, [5])])], exec_mode = 0,
     task_mem = (\<lambda>_. witness_task 0)(0x1000 := witness_task 0x111, 0x2000 := witness_task 0x112),
     tls_mem = (\<lambda>_. \<lparr>params = [], ret_val = 0, ipi_ret_val = 0, tls_elf_flag = 0, tls_process = 0, private_data = 0\<rparr>),
     kheap = \<lparr>buddy_heap = witness_heap,
       h_index = (\<lambda>i. \<lparr>heap_id = (if i = 0 then 0 else - 1), num_blocks_alloc = 0\<rparr>)\<rparr>,
     cpu = \<lparr>regs = [], sp = 0, lr = 0, spsr = 0, pc = 0x8004\<rparr>, timer_enabled = True\<rparr>"

definition echo_config :: "u32 \<Rightarrow> sa_config" where
  "echo_config sz = \<lparr>service_uuid = 2, service_name = ''echo'', stack_size = sz, entry_point = 0x8000,
     elf_flag = 0, process = 0, sa_data = 0\<rparr>"

lemma two_tasks_ok: "sched_ok two_tasks"
  by (simp add: sched_ok_def two_tasks_def witness_task_def)

lemma two_tasks_current: "get_current_task two_tasks = Some 0x1000"
  by (simp add: two_tasks_def get_current_task_def get_task_def witness_task_def)

theorem scheduler_preserves_contexts_witness: "context_of (scheduler two_tasks) 0x1000 = cpu two_tasks"
  using scheduler_preserves_contexts [OF two_tasks_ok, of "0x1000"]
  by (simp add: two_tasks_current context_of_def [of two_tasks]) (simp add: two_tasks_def)

theorem scheduler_round_robin_witness: "get_current_task ((scheduler ^^ 1) two_tasks) = Some 0x2000"
proof -
  have "runnable 0x1000 two_tasks" "0x1000 \<notin> set (ready_to_run_list two_tasks)"
    by (simp_all add: runnable_def two_tasks_def witness_task_def task_states)
  from scheduler_round_robin [OF two_tasks_ok two_tasks_current this, of 0] show ?thesis
    by (simp add: two_tasks_def)
qed

theorem updateGlobalACL_grants_exactly_witness:
  "\<exists>g. updateGlobalACL 2 1 3 two_tasks = Inr g \<and> allowed 2 1 3 (device_acl_list g) \<and> allowed 2 1 5 (device_acl_list g)"
proof -
  have "\<not> isl (updateGlobalACL 2 1 3 two_tasks)" by code_simp
  then obtain g where g: "updateGlobalACL 2 1 3 two_tasks = Inr g" by (cases "updateGlobalACL 2 1 3 two_tasks") auto
  have "allowed 2 1 5 (device_acl_list two_tasks)" by code_simp
  then show ?thesis
    using g updateGlobalACL_grants_exactly [OF g, of 2 1 3] updateGlobalACL_grants_exactly [OF g, of 2 1 5] by auto
qed

theorem create_task_all_or_nothing_witness:
  "\<exists>g p. create_task (echo_config 64) two_tasks = Inr (OTZ_OK, 0x113, g) \<and> task_list g = [0x1000, 0x2000, p] \<and>
     created (echo_config 64) 0x113 (task_mem g p)"
proof -
  have "map_sum id (\<lambda>(r, i, g). (r, i)) (create_task (echo_config 64) two_tasks) = Inr (OTZ_OK, 0x113)" by code_simp
  then obtain g where g: "create_task (echo_config 64) two_tasks = Inr (OTZ_OK, 0x113, g)"
    by (cases "create_task (echo_config 64) two_tasks") auto
  have "task_list two_tasks = [0x1000, 0x2000]" "exec_mode two_tasks \<noteq> 1" by (simp_all add: two_tasks_def)
  then show ?thesis using g create_task_all_or_nothing [OF g] by (auto simp: otz_codes)
qed

theorem failed_create_keeps_heap_witness:
  "\<exists>r i g. create_task (echo_config 4096) two_tasks = Inr (r, i, g) \<and> find_heap 0x113 (kheap g) \<noteq> None"
proof -
  have "map_sum id fst (create_task (echo_config 4096) two_tasks) = Inr OTZ_ENOMEM" by code_simp
  then obtain i g where g: "create_task (echo_config 4096) two_tasks = Inr (OTZ_ENOMEM, i, g)"
    by (cases "create_task (echo_config 4096) two_tasks") auto
  have "fst (alloc_private_heap (sint (next_task_id two_tasks)) (kheap two_tasks)) \<noteq> - 1"
    "exec_mode two_tasks \<noteq> 1" "sint (next_task_id two_tasks) = 0x113" by code_simp+
  then show ?thesis using failed_create_keeps_heap [OF g] g by (auto simp: otz_codes)
qed

theorem task_lists_stay_consistent_witness:
  "\<exists>g. global_init two_tasks = Inr g \<and> distinct (task_list (task_exec (task_exec g (Create (echo_config 64))) (StartTask 0 0x111 None)))"
proof -
  have "\<not> isl (global_init two_tasks)" by code_simp
  then obtain g where g: "global_init two_tasks = Inr g" by (cases "global_init two_tasks") auto
  have emp: "task_list g = []" "next_task_id g = 0x111" "ready_to_run_list g = []"
    using g by (auto simp: global_init_def TASK_ID_START_def split: prod.splits if_splits)
  have "get_task 0x111 g1 \<notin> Some ` set (ready_to_run_list g1)" if "ready_to_run_list g1 = []" for g1
    using that by simp
  moreover have "ready_to_run_list (task_exec g (Create (echo_config 64))) = []"
  proof (cases "create_task (echo_config 64) g")
    case (Inr x)
    then obtain r i g1 where "create_task (echo_config 64) g = Inr (r, i, g1)" by (cases x) auto
    then show ?thesis using create_task_result [of "echo_config 64" g r i g1] emp by simp
  qed (use emp in simp)
  ultimately have "task_ops.legal g [Create (echo_config 64), StartTask 0 0x111 None]"
    using emp by simp
  then show ?thesis using task_lists_stay_consistent [OF g _ refl] g by fastforce
qed

end
