(* ===== verification/SecureCodec.thy ===== *)
theory SecureCodec
  imports Tasks PageTableInv
begin

text \<open>
  Encoding and decoding of the parameters of a secure service (\<open>otz_encode_data\<close>,
  \<open>otz_release_data\<close>, \<open>decode_data\<close>, \<open>decode_ipi_out_data\<close> and \<open>update_response_len\<close> of
  \<open>core/secure_api.c\<close>).

  \<open>words\<close> is the memory read in 32-bit words at byte addresses; encoder contexts and arrays of
  meta data live at addresses of their own maps. In C \<open>*((u32*)p + k)\<close> is the word at byte
  address \<open>p + 4 * k\<close>, while \<open>(void*)p + k\<close> is the byte address \<open>p + k\<close>.
\<close>

section \<open>Data\<close>

definition OTZ_ENC_UINT32 :: u32 where "OTZ_ENC_UINT32 = 1"
definition OTZ_ENC_ARRAY :: u32 where "OTZ_ENC_ARRAY = 2"
definition OTZ_MEM_REF :: u32 where "OTZ_MEM_REF = 3"
definition OTZ_SECURE_MEM_REF :: u32 where "OTZ_SECURE_MEM_REF = 4"

definition OTZC_PARAM_IN :: u32 where "OTZC_PARAM_IN = 0"
definition OTZC_PARAM_OUT :: u32 where "OTZC_PARAM_OUT = 1"

definition OTZ_MAX_REQ_PARAMS :: u32 where "OTZ_MAX_REQ_PARAMS = 12"
definition OTZ_MAX_RES_PARAMS :: u32 where "OTZ_MAX_RES_PARAMS = 4"
definition OTZ_1K_SIZE :: u32 where "OTZ_1K_SIZE = 1024"

lemmas enc_consts = OTZ_ENC_UINT32_def OTZ_ENC_ARRAY_def OTZ_MEM_REF_def OTZ_SECURE_MEM_REF_def
  OTZC_PARAM_IN_def OTZC_PARAM_OUT_def OTZ_MAX_REQ_PARAMS_def OTZ_MAX_RES_PARAMS_def OTZ_1K_SIZE_def

record otzc_encode_meta =
  m_type :: u32
  m_len :: u32
  usr_addr :: u32
  ret_len :: u32

record otz_secure_encode_cmd =
  enc_len :: u32
  enc_data :: u32
  param_type :: u32

record otz_secure_encode_ctx =
  req_addr :: u32
  res_addr :: u32
  enc_req_offset :: u32
  enc_res_offset :: u32
  enc_req_pos :: u32
  enc_res_pos :: u32

record enc_state =
  eheap :: buddy_state
  words :: "u32 \<Rightarrow> u32"
  ctx_mem :: "u32 \<Rightarrow> otz_secure_encode_ctx"
  meta_mem :: "u32 \<Rightarrow> nat \<Rightarrow> otzc_encode_meta"

definition blank_ctx :: otz_secure_encode_ctx where
  "blank_ctx = \<lparr>req_addr = 0, res_addr = 0, enc_req_offset = 0, enc_res_offset = 0,
     enc_req_pos = 0, enc_res_pos = 0\<rparr>"

definition blank_meta :: otzc_encode_meta where
  "blank_meta = \<lparr>m_type = 0, m_len = 0, usr_addr = 0, ret_len = 0\<rparr>"

definition SIZEOF_ENCODE_CTX :: u32 where "SIZEOF_ENCODE_CTX = 32"
definition SIZEOF_ENCODE_META :: u32 where "SIZEOF_ENCODE_META = 16"

definition upd_ctx :: "u32 \<Rightarrow> (otz_secure_encode_ctx \<Rightarrow> otz_secure_encode_ctx) \<Rightarrow> enc_state \<Rightarrow> enc_state" where
  "upd_ctx c f s = s\<lparr>ctx_mem := (ctx_mem s)(c := f (ctx_mem s c))\<rparr>"

definition upd_meta :: "u32 \<Rightarrow> u32 \<Rightarrow> (otzc_encode_meta \<Rightarrow> otzc_encode_meta) \<Rightarrow> enc_state \<Rightarrow> enc_state" where
  "upd_meta m i f s = s\<lparr>meta_mem := (meta_mem s)(m := (meta_mem s m)(unat i := f (meta_mem s m (unat i))))\<rparr>"

definition set_word :: "u32 \<Rightarrow> u32 \<Rightarrow> enc_state \<Rightarrow> enc_state" where
  "set_word a v s = s\<lparr>words := (words s)(a := v)\<rparr>"

section \<open>Encoding\<close>

definition enc_malloc :: "int \<Rightarrow> u32 \<Rightarrow> enc_state \<Rightarrow> panic + (u32 \<times> enc_state)" where
  "enc_malloc cur sz s = map_sum id (\<lambda>(p, h). (p, s\<lparr>eheap := h\<rparr>)) (sw_malloc cur sz (eheap s))"

definition enc_free :: "int \<Rightarrow> u32 \<Rightarrow> enc_state \<Rightarrow> enc_state" where
  "enc_free cur p s = s\<lparr>eheap := sw_free cur p (eheap s)\<rparr>"

definition otz_release_data :: "int \<Rightarrow> u32 \<Rightarrow> u32 \<Rightarrow> enc_state \<Rightarrow> enc_state" where
  "otz_release_data cur c m s =
     (let s1 = (if c \<noteq> 0 then
                  let sa = (if req_addr (ctx_mem s c) \<noteq> 0
                            then upd_ctx c (\<lambda>x. x\<lparr>req_addr := 0\<rparr>) (enc_free cur (req_addr (ctx_mem s c)) s) else s);
                      sb = (if res_addr (ctx_mem sa c) \<noteq> 0
                            then upd_ctx c (\<lambda>x. x\<lparr>res_addr := 0\<rparr>) (enc_free cur (res_addr (ctx_mem sa c)) sa) else sa)
                  in enc_free cur c sb
                else s)
      in if m \<noteq> 0 then enc_free cur m s1 else s1)"

text \<open>Every exit of \<open>otz_encode_data\<close>; the pointers of the caller are only set where they were null.\<close>

definition enc_return :: "u32 \<Rightarrow> u32 \<Rightarrow> int \<Rightarrow> u32 \<Rightarrow> u32 \<Rightarrow> enc_state \<Rightarrow> int \<times> u32 \<times> u32 \<times> enc_state" where
  "enc_return pmeta pctx r m c s = (r, if pmeta = 0 then m else pmeta, if pctx = 0 then c else pctx, s)"

definition enc_ctx_or_new :: "int \<Rightarrow> u32 \<Rightarrow> enc_state \<Rightarrow> panic + (u32 \<times> enc_state)" where
  "enc_ctx_or_new cur c s =
     (if c \<noteq> 0 then Inr (c, s)
      else map_sum id (\<lambda>(p, s'). (p, if p \<noteq> 0 then upd_ctx p (\<lambda>_. blank_ctx) s' else s'))
             (enc_malloc cur SIZEOF_ENCODE_CTX s))"

definition enc_meta_or_new :: "int \<Rightarrow> u32 \<Rightarrow> enc_state \<Rightarrow> panic + (u32 \<times> enc_state)" where
  "enc_meta_or_new cur m s =
     (if m \<noteq> 0 then Inr (m, s)
      else map_sum id (\<lambda>(p, s'). (p, if p \<noteq> 0 then s'\<lparr>meta_mem := (meta_mem s')(p := (\<lambda>_. blank_meta))\<rparr> else s'))
             (enc_malloc cur (SIZEOF_ENCODE_META * (OTZ_MAX_RES_PARAMS + OTZ_MAX_REQ_PARAMS)) s))"

text \<open>The request buffer; the result is false where it cannot be allocated.\<close>

definition enc_req_or_new :: "int \<Rightarrow> u32 \<Rightarrow> enc_state \<Rightarrow> panic + (bool \<times> enc_state)" where
  "enc_req_or_new cur c s =
     (if req_addr (ctx_mem s c) \<noteq> 0 then Inr (True, s)
      else map_sum id (\<lambda>(p, s'). let s1 = upd_ctx c (\<lambda>x. x\<lparr>req_addr := p\<rparr>) s'
               in if p = 0 then (False, s1)
                  else (True, upd_ctx c (\<lambda>x. x\<lparr>enc_req_offset := 0, enc_req_pos := 0\<rparr>) s1))
             (enc_malloc cur OTZ_1K_SIZE s))"

definition enc_res_or_new :: "int \<Rightarrow> u32 \<Rightarrow> enc_state \<Rightarrow> panic + (bool \<times> enc_state)" where
  "enc_res_or_new cur c s =
     (if res_addr (ctx_mem s c) \<noteq> 0 then Inr (True, s)
      else map_sum id (\<lambda>(p, s'). let s1 = upd_ctx c (\<lambda>x. x\<lparr>res_addr := p\<rparr>) s'
               in if p = 0 then (False, s1)
                  else (True, upd_ctx c (\<lambda>x. x\<lparr>enc_res_pos := OTZ_MAX_REQ_PARAMS, enc_res_offset := 0\<rparr>) s1))
             (enc_malloc cur OTZ_1K_SIZE s))"

definition req_room :: "otz_secure_encode_ctx \<Rightarrow> bool" where
  "req_room x \<longleftrightarrow> enc_req_offset x + 4 \<le> OTZ_1K_SIZE \<and> enc_req_pos x < OTZ_MAX_REQ_PARAMS"

definition res_room :: "otz_secure_encode_ctx \<Rightarrow> bool" where
  "res_room x \<longleftrightarrow> enc_res_offset x + 4 \<le> OTZ_1K_SIZE \<and> enc_res_pos x < OTZ_MAX_RES_PARAMS + OTZ_MAX_REQ_PARAMS"

definition put_req :: "otz_secure_encode_cmd \<Rightarrow> u32 \<Rightarrow> u32 \<Rightarrow> u32 \<Rightarrow> enc_state \<Rightarrow> enc_state" where
  "put_req enc ty m c s =
     (let x = ctx_mem s c
      in upd_ctx c (\<lambda>x. x\<lparr>enc_req_offset := enc_req_offset x + 4, enc_req_pos := enc_req_pos x + 1\<rparr>)
           (upd_meta m (enc_req_pos x) (\<lambda>d. d\<lparr>m_type := ty, m_len := enc_len enc\<rparr>)
             (set_word (req_addr x + 4 * enc_req_offset x) (enc_data enc) s)))"

definition put_res :: "otz_secure_encode_cmd \<Rightarrow> u32 \<Rightarrow> u32 \<Rightarrow> u32 \<Rightarrow> enc_state \<Rightarrow> enc_state" where
  "put_res enc ty m c s =
     (let x = ctx_mem s c
      in upd_ctx c (\<lambda>x. x\<lparr>enc_res_offset := enc_res_offset x + 4, enc_res_pos := enc_res_pos x + 1\<rparr>)
           (upd_meta m (enc_res_pos x) (\<lambda>d. d\<lparr>m_type := ty, m_len := enc_len enc\<rparr>)
             (set_word (res_addr x + 4 * enc_res_offset x) (enc_data enc) s)))"

definition otz_encode_data ::
  "int \<Rightarrow> otz_secure_encode_cmd option \<Rightarrow> u32 \<Rightarrow> u32 \<Rightarrow> u32 \<Rightarrow> enc_state \<Rightarrow> panic + (int \<times> u32 \<times> u32 \<times> enc_state)" where
  "otz_encode_data cur penc pmeta pctx ty s0 =
     (case penc of
        None \<Rightarrow> Inr (enc_return pmeta pctx OTZ_ILLEGAL_ARGUMENT pmeta pctx s0)
      | Some enc \<Rightarrow>
          if ty \<noteq> OTZ_ENC_UINT32 \<and> ty \<noteq> OTZ_SECURE_MEM_REF
          then Inr (enc_return pmeta pctx OTZ_ILLEGAL_ARGUMENT pmeta pctx s0)
          else case enc_ctx_or_new cur pctx s0 of
            Inl e \<Rightarrow> Inl e
          | Inr (c, s1) \<Rightarrow>
              if c = 0 then Inr (enc_return pmeta pctx OTZ_ENOMEM pmeta c (otz_release_data cur c pmeta s1))
              else case enc_meta_or_new cur pmeta s1 of
                Inl e \<Rightarrow> Inl e
              | Inr (m, s2) \<Rightarrow>
                  let no_memory = (\<lambda>s. Inr (enc_return pmeta pctx OTZ_ENOMEM m c (otz_release_data cur c m s)))
                  in if m = 0 then no_memory s2
                     else if param_type enc = OTZC_PARAM_IN then
                       (case enc_req_or_new cur c s2 of
                          Inl e \<Rightarrow> Inl e
                        | Inr (ok, s3) \<Rightarrow>
                            if \<not> ok \<or> \<not> req_room (ctx_mem s3 c) then no_memory s3
                            else Inr (enc_return pmeta pctx OTZ_OK m c (put_req enc ty m c s3)))
                     else if param_type enc = OTZC_PARAM_OUT then
                       (case enc_res_or_new cur c s2 of
                          Inl e \<Rightarrow> Inl e
                        | Inr (ok, s3) \<Rightarrow>
                            if \<not> ok \<or> \<not> res_room (ctx_mem s3 c) then no_memory s3
                            else Inr (enc_return pmeta pctx OTZ_OK m c (put_res enc ty m c s3)))
                     else Inr (enc_return pmeta pctx OTZ_ILLEGAL_ARGUMENT m c s2))"

section \<open>Decoding\<close>

record decoded =
  d_type :: u32
  d_offset :: u32
  d_pos :: u32
  d_mapped :: bool
  d_data :: u32
  d_len :: u32

text \<open>A decoder either fails with -1 or sets all its output parameters.\<close>

definition decode_data ::
  "(u32 \<Rightarrow> u32) \<Rightarrow> u32 \<Rightarrow> (nat \<Rightarrow> otzc_encode_meta) \<Rightarrow> u32 \<Rightarrow> u32 \<Rightarrow> pt_state \<Rightarrow> panic + (decoded option \<times> pt_state)" where
  "decode_data mem data meta offset pos s =
     (let d = meta (unat pos)
      in if m_type d = OTZ_ENC_UINT32
         then Inr (Some \<lparr>d_type = OTZ_ENC_UINT32, d_offset = offset + 4, d_pos = pos + 1, d_mapped = False,
                         d_data = data + offset, d_len = m_len d\<rparr>, s)
         else if m_type d = OTZ_ENC_ARRAY
         then Inr (Some \<lparr>d_type = OTZ_ENC_ARRAY, d_offset = offset + m_len d, d_pos = pos + 1, d_mapped = False,
                         d_data = data + offset, d_len = m_len d\<rparr>, s)
         else if m_type d = OTZ_MEM_REF
         then (case map_to_ns (mem (data + 4 * offset)) s of
                 Inl e \<Rightarrow> Inl e
               | Inr (r, v, s') \<Rightarrow>
                   if r \<noteq> 0 then Inr (None, s')
                   else Inr (Some \<lparr>d_type = OTZ_MEM_REF, d_offset = offset + 4, d_pos = pos + 1, d_mapped = True,
                                   d_data = (case v of Some a \<Rightarrow> a | None \<Rightarrow> 0), d_len = m_len d\<rparr>, s'))
         else if m_type d = OTZ_SECURE_MEM_REF
         then Inr (Some \<lparr>d_type = OTZ_MEM_REF, d_offset = offset + 4, d_pos = pos + 1, d_mapped = False,
                         d_data = mem (data + 4 * offset), d_len = m_len d\<rparr>, s)
         else Inr (None, s))"

definition decode_ipi_out_data ::
  "(u32 \<Rightarrow> u32) \<Rightarrow> u32 \<Rightarrow> (nat \<Rightarrow> otzc_encode_meta) \<Rightarrow> u32 \<Rightarrow> u32 \<Rightarrow> decoded option" where
  "decode_ipi_out_data mem data meta offset pos =
     (let d = meta (unat pos)
      in if m_type d = OTZ_ENC_UINT32
         then Some \<lparr>d_type = OTZ_ENC_UINT32, d_offset = offset + 4, d_pos = pos + 1, d_mapped = False,
                    d_data = data + offset, d_len = m_len d\<rparr>
         else if m_type d = OTZ_SECURE_MEM_REF
         then Some \<lparr>d_type = OTZ_MEM_REF, d_offset = offset + 4, d_pos = pos + 1, d_mapped = False,
                    d_data = mem (data + 4 * offset), d_len = ret_len d\<rparr>
         else None)"

text \<open>
  \<open>pos\<close> is a signed integer and is not checked from below, so \<open>meta_data[pos - 1]\<close> may be an
  entry in front of the array.
\<close>

definition update_response_len :: "int \<Rightarrow> u32 \<Rightarrow> (nat \<Rightarrow> otzc_encode_meta) \<Rightarrow> panic + (int \<times> (nat \<Rightarrow> otzc_encode_meta))" where
  "update_response_len pos len meta =
     (if pos \<le> uint OTZ_MAX_REQ_PARAMS + uint OTZ_MAX_RES_PARAMS
      then if 1 \<le> pos then Inr (0, meta(nat (pos - 1) := (meta (nat (pos - 1)))\<lparr>ret_len := len\<rparr>)) else Inl CORRUPTED
      else Inr (- 1, meta))"

section \<open>Encoding a list of parameters\<close>

text \<open>What a client does: encode the request parameters one by one and stop at the first error.\<close>

record enc_param =
  p_type :: u32
  p_data :: u32
  p_len :: u32

fun encode_all :: "int \<Rightarrow> enc_param list \<Rightarrow> u32 \<Rightarrow> u32 \<Rightarrow> enc_state \<Rightarrow> panic + (int \<times> u32 \<times> u32 \<times> enc_state)" where
  "encode_all cur [] pmeta pctx s = Inr (OTZ_OK, pmeta, pctx, s)"
| "encode_all cur (x # xs) pmeta pctx s =
     (case otz_encode_data cur (Some \<lparr>enc_len = p_len x, enc_data = p_data x, param_type = OTZC_PARAM_IN\<rparr>) pmeta pctx (p_type x) s of
        Inl e \<Rightarrow> Inl e
      | Inr (r, m, c, s') \<Rightarrow> if r \<noteq> OTZ_OK then Inr (r, m, c, s') else encode_all cur xs m c s')"

section \<open>The stream that the encoder leaves behind\<close>

definition slot :: "u32 \<Rightarrow> nat \<Rightarrow> u32" where "slot req i = req + of_nat (16 * i)"

definition enc_inv :: "enc_param list \<Rightarrow> u32 \<Rightarrow> u32 \<Rightarrow> (u32 \<Rightarrow> u32) \<Rightarrow> enc_state \<Rightarrow> bool" where
  "enc_inv xs m c w s \<longleftrightarrow> (let x = ctx_mem s c; n = length xs in
     m \<noteq> 0 \<and> c \<noteq> 0 \<and> req_addr x \<noteq> 0 \<and> n \<le> 12 \<and> enc_req_offset x = of_nat (4 * n) \<and> enc_req_pos x = of_nat n \<and>
     (\<forall>i<n. m_type (meta_mem s m i) = p_type (xs ! i) \<and> m_len (meta_mem s m i) = p_len (xs ! i) \<and>
        words s (slot (req_addr x) i) = p_data (xs ! i)) \<and>
     (\<forall>a. (\<forall>i<n. a \<noteq> slot (req_addr x) i) \<longrightarrow> words s a = w a))"

lemma slot_inj: "i \<le> 12 \<Longrightarrow> j \<le> 12 \<Longrightarrow> slot req i = slot req j \<longleftrightarrow> i = j"
proof
  assume ij: "i \<le> 12" "j \<le> 12" and "slot req i = slot req j"
  then have "unat (of_nat (16 * i) :: u32) = unat (of_nat (16 * j) :: u32)" by (simp add: slot_def)
  moreover have "unat (of_nat (16 * i) :: u32) = 16 * i" "unat (of_nat (16 * j) :: u32) = 16 * j"
    using ij by (intro unat_of_nat_lt; simp)+
  ultimately show "i = j" by linarith
qed simp

lemma enc_inv_put:
  assumes inv: "enc_inv xs m c w0 s" and room: "req_room (ctx_mem s c)"
    and e: "e = \<lparr>enc_len = p_len x, enc_data = p_data x, param_type = t\<rparr>"
  shows "enc_inv (xs @ [x]) m c w0 (put_req e (p_type x) m c s)"
proof -
  let ?n = "length xs" and ?r = "req_addr (ctx_mem s c)"
  have f: "m \<noteq> 0" "c \<noteq> 0" "?r \<noteq> 0" "?n \<le> 12" "enc_req_offset (ctx_mem s c) = of_nat (4 * ?n)"
      "enc_req_pos (ctx_mem s c) = of_nat ?n"
    using inv by (simp_all add: enc_inv_def Let_def)
  have "unat (of_nat ?n :: u32) = ?n" using f(4) by (intro unat_of_nat_lt) simp
  then have n: "unat (enc_req_pos (ctx_mem s c)) = ?n" "?n < 12"
    using room f(6) by (simp_all add: req_room_def OTZ_MAX_REQ_PARAMS_def word_less_nat_alt)
  have a: "?r + 4 * enc_req_offset (ctx_mem s c) = slot ?r ?n" by (simp add: slot_def f(5))
  have old: "slot ?r i \<noteq> slot ?r ?n" if "i < ?n" for i using that n(2) by (subst slot_inj) simp_all
  define s' where "s' = put_req e (p_type x) m c s"
  have ctx: "ctx_mem s' c = (ctx_mem s c)\<lparr>enc_req_offset := of_nat (4 * Suc ?n), enc_req_pos := of_nat (Suc ?n)\<rparr>"
    and w: "words s' = (words s)(slot ?r ?n := p_data x)"
    and mt: "meta_mem s' m = (meta_mem s m)(?n := (meta_mem s m ?n)\<lparr>m_type := p_type x, m_len := p_len x\<rparr>)"
    unfolding s'_def using n(1) a
    by (simp_all add: put_req_def Let_def upd_ctx_def upd_meta_def set_word_def e f(5,6))
  have "\<forall>i<Suc ?n. m_type (meta_mem s' m i) = p_type ((xs @ [x]) ! i) \<and>
      m_len (meta_mem s' m i) = p_len ((xs @ [x]) ! i) \<and> words s' (slot ?r i) = p_data ((xs @ [x]) ! i)"
    using inv old by (auto simp: w mt less_Suc_eq nth_append enc_inv_def Let_def)
  moreover have "words s' b = w0 b" if "\<forall>i<Suc ?n. b \<noteq> slot ?r i" for b
    using inv that by (simp add: w less_Suc_eq enc_inv_def Let_def)
  ultimately have "enc_inv (xs @ [x]) m c w0 s'" using f n(2) by (simp add: enc_inv_def Let_def ctx)
  then show ?thesis by (simp add: s'_def)
qed

lemma enc_malloc_frame:
  "enc_malloc cur sz s = Inr (p, s') \<Longrightarrow> words s' = words s \<and> ctx_mem s' = ctx_mem s \<and> meta_mem s' = meta_mem s"
  by (auto simp: enc_malloc_def map_sum_def split: sum.splits)

lemma encode_next:
  assumes inv: "enc_inv xs m c w s" and ok: "p_type x \<in> {OTZ_ENC_UINT32, OTZ_SECURE_MEM_REF}"
    and res: "otz_encode_data cur (Some \<lparr>enc_len = p_len x, enc_data = p_data x, param_type = OTZC_PARAM_IN\<rparr>) m c (p_type x) s =
      Inr (OTZ_OK, m', c', s')"
  shows "m' = m \<and> c' = c \<and> enc_inv (xs @ [x]) m c w s'"
proof -
  have "m \<noteq> 0" "c \<noteq> 0" "req_addr (ctx_mem s c) \<noteq> 0" using inv by (simp_all add: enc_inv_def Let_def)
  then have "req_room (ctx_mem s c) \<and> m' = m \<and> c' = c \<and>
      s' = put_req \<lparr>enc_len = p_len x, enc_data = p_data x, param_type = OTZC_PARAM_IN\<rparr> (p_type x) m c s"
    using res ok
    by (auto simp: otz_encode_data_def enc_ctx_or_new_def enc_meta_or_new_def enc_req_or_new_def enc_return_def
        otz_codes split: if_splits)
  then show ?thesis using enc_inv_put [OF inv] by auto
qed

lemma encode_first:
  assumes ok: "p_type x \<in> {OTZ_ENC_UINT32, OTZ_SECURE_MEM_REF}"
    and res: "otz_encode_data cur (Some \<lparr>enc_len = p_len x, enc_data = p_data x, param_type = OTZC_PARAM_IN\<rparr>) 0 0 (p_type x) s =
      Inr (OTZ_OK, m, c, s')"
  shows "enc_inv [x] m c (words s) s'"
proof -
  let ?e = "\<lparr>enc_len = p_len x, enc_data = p_data x, param_type = OTZC_PARAM_IN\<rparr>"
  obtain c1 s1 where 1: "enc_ctx_or_new cur 0 s = Inr (c1, s1)" "c1 \<noteq> 0"
    using res ok by (auto simp: otz_encode_data_def enc_return_def otz_codes split: sum.splits if_splits prod.splits)
  obtain m1 s2 where 2: "enc_meta_or_new cur 0 s1 = Inr (m1, s2)" "m1 \<noteq> 0"
    using res ok 1 by (auto simp: otz_encode_data_def enc_return_def otz_codes Let_def split: sum.splits if_splits prod.splits)
  obtain s3 where 3: "enc_req_or_new cur c1 s2 = Inr (True, s3)" "req_room (ctx_mem s3 c1)"
      "m = m1" "c = c1" "s' = put_req ?e (p_type x) m1 c1 s3"
  proof -
    have "otz_encode_data cur (Some ?e) 0 0 (p_type x) s =
        (case enc_req_or_new cur c1 s2 of Inl e \<Rightarrow> Inl e
         | Inr (ok, s3) \<Rightarrow>
             if \<not> ok \<or> \<not> req_room (ctx_mem s3 c1)
             then Inr (enc_return 0 0 OTZ_ENOMEM m1 c1 (otz_release_data cur c1 m1 s3))
             else Inr (enc_return 0 0 OTZ_OK m1 c1 (put_req ?e (p_type x) m1 c1 s3)))"
      using ok by (auto simp: otz_encode_data_def 1 2 Let_def)
    then show ?thesis
      using res that by (auto simp: enc_return_def otz_codes split: sum.splits if_splits)
  qed
  have s1: "words s1 = words s" "ctx_mem s1 c1 = blank_ctx"
    using 1 by (auto simp: enc_ctx_or_new_def upd_ctx_def map_sum_def dest: enc_malloc_frame split: sum.splits)
  have s2: "words s2 = words s" "ctx_mem s2 c1 = blank_ctx"
    using 2 s1 by (auto simp: enc_meta_or_new_def map_sum_def dest!: enc_malloc_frame split: sum.splits)
  have "words s3 = words s \<and> req_addr (ctx_mem s3 c1) \<noteq> 0 \<and> enc_req_offset (ctx_mem s3 c1) = 0 \<and> enc_req_pos (ctx_mem s3 c1) = 0"
    using 3(1) s2 by (auto simp: enc_req_or_new_def blank_ctx_def upd_ctx_def map_sum_def Let_def dest!: enc_malloc_frame
        split: sum.splits if_splits)
  then have "enc_inv [] m1 c1 (words s) s3" using 1(2) 2(2) by (simp add: enc_inv_def Let_def)
  from enc_inv_put [OF this 3(2) refl] show ?thesis by (simp add: 3(3,4,5))
qed

lemma encode_all_inv:
  assumes "enc_inv xs m c w s" "\<forall>y\<in>set ys. p_type y \<in> {OTZ_ENC_UINT32, OTZ_SECURE_MEM_REF}"
    and "encode_all cur ys m c s = Inr (OTZ_OK, m', c', s')"
  shows "m' = m \<and> c' = c \<and> enc_inv (xs @ ys) m c w s'"
  using assms
proof (induction ys arbitrary: xs s)
  case (Cons y ys)
  obtain m1 c1 s1 where st: "otz_encode_data cur (Some \<lparr>enc_len = p_len y, enc_data = p_data y, param_type = OTZC_PARAM_IN\<rparr>)
      m c (p_type y) s = Inr (OTZ_OK, m1, c1, s1)" "encode_all cur ys m1 c1 s1 = Inr (OTZ_OK, m', c', s')"
    using Cons.prems(3) by (auto split: sum.splits if_splits)
  have nx: "m1 = m" "c1 = c" "enc_inv (xs @ [y]) m c w s1"
    using encode_next [OF Cons.prems(1) _ st(1)] Cons.prems(2) by auto
  then show ?case using Cons.IH [OF nx(3)] Cons.prems(2) st(2) by auto
qed simp

lemma encode_all_stream:
  assumes "xs \<noteq> []" "\<forall>x\<in>set xs. p_type x \<in> {OTZ_ENC_UINT32, OTZ_SECURE_MEM_REF}"
    and "encode_all cur xs 0 0 s = Inr (OTZ_OK, m, c, s')"
  shows "enc_inv xs m c (words s) s'"
proof -
  obtain x ys where xs: "xs = x # ys" using assms(1) by (cases xs) auto
  obtain m1 c1 s1 where st: "otz_encode_data cur (Some \<lparr>enc_len = p_len x, enc_data = p_data x, param_type = OTZC_PARAM_IN\<rparr>)
      0 0 (p_type x) s = Inr (OTZ_OK, m1, c1, s1)" "encode_all cur ys m1 c1 s1 = Inr (OTZ_OK, m, c, s')"
    using assms(3) by (auto simp: xs split: sum.splits if_splits)
  have "enc_inv [x] m1 c1 (words s) s1" using encode_first [OF _ st(1)] assms(2) by (simp add: xs)
  from encode_all_inv [OF this _ st(2)] show ?thesis using assms(2) by (simp add: xs)
qed

lemma word_param_slot:
  assumes inv: "enc_inv xs m c w s" and i: "i < length xs"
  shows "words s (req_addr (ctx_mem s c) + of_nat (4 * i)) =
    (if i mod 4 = 0 then p_data (xs ! (i div 4)) else w (req_addr (ctx_mem s c) + of_nat (4 * i)))"
proof (cases "i mod 4 = 0")
  case True
  then have "16 * (i div 4) = 4 * i" by presburger
  then have "req_addr (ctx_mem s c) + of_nat (4 * i) = slot (req_addr (ctx_mem s c)) (i div 4)" by (simp only: slot_def)
  then show ?thesis using inv i True by (simp add: enc_inv_def Let_def)
next
  case False
  have n: "length xs \<le> 12" using inv by (simp add: enc_inv_def Let_def)
  have "req_addr (ctx_mem s c) + of_nat (4 * i) \<noteq> slot (req_addr (ctx_mem s c)) j" if j: "j < length xs" for j
  proof
    assume "req_addr (ctx_mem s c) + of_nat (4 * i) = slot (req_addr (ctx_mem s c)) j"
    then have "unat (of_nat (4 * i) :: u32) = unat (of_nat (16 * j) :: u32)" by (simp add: slot_def)
    moreover have "unat (of_nat (4 * i) :: u32) = 4 * i" "unat (of_nat (16 * j) :: u32) = 16 * j"
      using i j n by (intro unat_of_nat_lt; simp)+
    ultimately have "i = 4 * j" by linarith
    then show False using False by simp
  qed
  then show ?thesis using inv False by (simp add: enc_inv_def Let_def)
qed

text \<open>
  C9. What \<open>otz_encode_data\<close> encodes as references to secure memory, at most twelve of them, \<open>decode_data\<close>
  gives back in order, with the lengths. A parameter encoded as a number is not decoded at the
  word it was written to: the encoder advances by four words, the decoder by four bytes, so the
  decoder of the parameter at position \<open>i\<close> finds the parameter at \<open>i / 4\<close> if \<open>i\<close> is a multiple of
  four, and memory the encoder never wrote otherwise. Only the first number is decoded right.
\<close>

theorem encode_decode_stream:
  assumes "xs \<noteq> []" "\<forall>x\<in>set xs. p_type x \<in> {OTZ_ENC_UINT32, OTZ_SECURE_MEM_REF}"
    and "encode_all cur xs 0 0 s = Inr (OTZ_OK, m, c, s')" "i < length xs"
  shows "length xs \<le> 12 \<and>
    (\<exists>d. decode_data (words s') (req_addr (ctx_mem s' c)) (meta_mem s' m) (of_nat (4 * i)) (of_nat i) t = Inr (Some d, t) \<and>
      d_offset d = of_nat (4 * Suc i) \<and> d_pos d = of_nat (Suc i) \<and> d_len d = p_len (xs ! i) \<and>
      (p_type (xs ! i) = OTZ_SECURE_MEM_REF \<longrightarrow> d_data d = p_data (xs ! i)) \<and>
      (p_type (xs ! i) = OTZ_ENC_UINT32 \<longrightarrow> words s' (d_data d) =
        (if i mod 4 = 0 then p_data (xs ! (i div 4)) else words s (d_data d))))"
proof -
  have inv: "enc_inv xs m c (words s) s'" by (rule encode_all_stream [OF assms(1-3)])
  have n: "length xs \<le> 12" using inv by (simp add: enc_inv_def Let_def)
  have "unat (of_nat i :: u32) = i" using assms(4) n by (intro unat_of_nat_lt) simp
  moreover have "m_type (meta_mem s' m i) = p_type (xs ! i)" "m_len (meta_mem s' m i) = p_len (xs ! i)"
      "words s' (slot (req_addr (ctx_mem s' c)) i) = p_data (xs ! i)"
    using inv assms(4) by (simp_all add: enc_inv_def Let_def)
  moreover have "req_addr (ctx_mem s' c) + 4 * of_nat (4 * i) = slot (req_addr (ctx_mem s' c)) i"
    by (simp add: slot_def)
  moreover have "p_type (xs ! i) = OTZ_ENC_UINT32 \<or> p_type (xs ! i) = OTZ_SECURE_MEM_REF"
    using assms(2,4) nth_mem by blast
  ultimately show ?thesis
    using n word_param_slot [OF inv assms(4)]
    by (auto simp: decode_data_def Let_def enc_consts)
qed

definition enc_witness :: enc_state where
  "enc_witness = \<lparr>eheap = \<lparr>buddy_heap = (\<lambda>_. one_block_heap\<lparr>hk_fn := (\<lambda>_. 0)(0 := 0x101000, 1 := 0x101100, 2 := 0x101400),
       hk_fn_count := 4, hk_an_count := 4, bins := (\<lambda>_. [])(3 := [0], 6 := [1], 8 := [2]), counts := (\<lambda>_. 0)(3 := 1, 6 := 1, 8 := 1)\<rparr>),
     h_index = (\<lambda>_. \<lparr>heap_id = 0x111, num_blocks_alloc = 0\<rparr>)\<rparr>,
     words = (\<lambda>_. 0xdead), ctx_mem = (\<lambda>_. blank_ctx), meta_mem = (\<lambda>_ _. blank_meta)\<rparr>"

definition enc_witness_params :: "enc_param list" where
  "enc_witness_params = [\<lparr>p_type = OTZ_SECURE_MEM_REF, p_data = 0x5000, p_len = 44\<rparr>,
     \<lparr>p_type = OTZ_ENC_UINT32, p_data = 45, p_len = 4\<rparr>]"

theorem encode_decode_stream_witness:
  "\<exists>m c s' d. encode_all 0x111 enc_witness_params 0 0 enc_witness = Inr (OTZ_OK, m, c, s') \<and>
     decode_data (words s') (req_addr (ctx_mem s' c)) (meta_mem s' m) 4 1 empty_pt = Inr (Some d, empty_pt) \<and>
     words s' (d_data d) = 0xdead"
proof -
  have "map_sum id fst (encode_all 0x111 enc_witness_params 0 0 enc_witness) = Inr OTZ_OK" by code_simp
  then obtain m c s' where e: "encode_all 0x111 enc_witness_params 0 0 enc_witness = Inr (OTZ_OK, m, c, s')"
    by (cases "encode_all 0x111 enc_witness_params 0 0 enc_witness") auto
  have "enc_witness_params \<noteq> []" "\<forall>x\<in>set enc_witness_params. p_type x \<in> {OTZ_ENC_UINT32, OTZ_SECURE_MEM_REF}"
      "1 < length enc_witness_params" "p_type (enc_witness_params ! 1) = OTZ_ENC_UINT32"
    by (simp_all add: enc_witness_params_def)
  moreover have "words enc_witness a = 0xdead" for a by (simp add: enc_witness_def)
  ultimately show ?thesis
    using e encode_decode_stream [OF _ _ e, of 1 empty_pt] by auto
qed

end
