(* ===== verification/SwMem.thy ===== *)
theory SwMem
  imports OtzPrelude
begin

text \<open>
  Memory and string functions (\<open>lib/sw_mem_functions.c\<close>, \<open>lib/sw_string_functions.c\<close>).

  Memory is a function from addresses to bytes; addresses wrap around, words are little endian.
  Loops that count down are structural recursions, loops that look for a terminator are partial
  functions (memory without a terminator gives \<open>None\<close>). A pointer result is the address that
  the function returns.
\<close>

section \<open>Memory\<close>

type_synonym mem = "u32 \<Rightarrow> u8"

definition read32 :: "mem \<Rightarrow> u32 \<Rightarrow> u32" where
  "read32 m a = ucast (m a) OR push_bit 8 (ucast (m (a + 1))) OR push_bit 16 (ucast (m (a + 2)))
     OR push_bit 24 (ucast (m (a + 3)))"

definition write32 :: "u32 \<Rightarrow> u32 \<Rightarrow> mem \<Rightarrow> mem" where
  "write32 a v m = m(a := ucast v, a + 1 := ucast (drop_bit 8 v), a + 2 := ucast (drop_bit 16 v),
     a + 3 := ucast (drop_bit 24 v))"

section \<open>Memory functions\<close>

fun copy_up :: "nat \<Rightarrow> u32 \<Rightarrow> u32 \<Rightarrow> mem \<Rightarrow> mem" where
  "copy_up 0 d s m = m"
| "copy_up (Suc n) d s m = copy_up n (d + 1) (s + 1) (m(d := m s))"

fun copy_down :: "nat \<Rightarrow> u32 \<Rightarrow> u32 \<Rightarrow> mem \<Rightarrow> mem" where
  "copy_down 0 d s m = m"
| "copy_down (Suc n) d s m = copy_down n (d - 1) (s - 1) (m(d - 1 := m (s - 1)))"

definition sw_memmove :: "u32 \<Rightarrow> u32 \<Rightarrow> u32 \<Rightarrow> mem \<Rightarrow> u32 \<times> mem" where
  "sw_memmove dest src count m =
     (dest, if dest \<le> src then copy_up (unat count) dest src m
            else copy_down (unat count) (dest + count) (src + count) m)"

fun set_bytes :: "nat \<Rightarrow> u32 \<Rightarrow> u8 \<Rightarrow> mem \<Rightarrow> mem" where
  "set_bytes 0 d c m = m"
| "set_bytes (Suc n) d c m = set_bytes n (d + 1) c (m(d := c))"

definition sw_memset :: "u32 \<Rightarrow> u32 \<Rightarrow> u32 \<Rightarrow> mem \<Rightarrow> u32 \<times> mem" where
  "sw_memset dest c count m = (dest, set_bytes (unat count) dest (ucast c) m)"

text \<open>
  The word loop of \<open>sw_memcpy\<close>; \<open>i\<close> stays below \<open>count\<close>, so neither \<open>i + 3\<close> nor \<open>count - 1\<close> wraps
  where they are compared. The result is the index, both pointers and the memory at the exit.
\<close>

function copy_words :: "nat \<Rightarrow> nat \<Rightarrow> u32 \<Rightarrow> u32 \<Rightarrow> mem \<Rightarrow> nat \<times> u32 \<times> u32 \<times> mem" where
  "copy_words count i d s m =
     (if i < count
      then if i + 3 > count - 1 then (i, d, s, m)
           else copy_words count (i + 4) (d + 4) (s + 4) (write32 d (read32 m s) m)
      else (i, d, s, m))"
  by pat_completeness auto
termination by (relation "measure (\<lambda>(count, i, _). count - i)") auto

declare copy_words.simps [simp del]

text \<open>The alignment test looks at bits 2 and 3 of the addresses.\<close>

definition sw_memcpy :: "u32 \<Rightarrow> u32 \<Rightarrow> u32 \<Rightarrow> mem \<Rightarrow> u32 \<times> mem" where
  "sw_memcpy dst src count m =
     (dst,
      if (src AND 0xC) = 0 \<and> (dst AND 0xC) = 0
      then case copy_words (unat count) 0 dst src m of
             (i, d, s, m') \<Rightarrow> if of_nat i \<le> count - 1 then copy_up (unat count - i) d s m' else m'
      else copy_up (unat count) dst src m)"

definition sw_memncpy :: "u32 \<Rightarrow> u32 \<Rightarrow> u32 \<Rightarrow> u32 \<Rightarrow> u32 \<Rightarrow> mem \<Rightarrow> u32 \<times> mem" where
  "sw_memncpy dst src count dstLen srcLen m =
     (if count \<le> dstLen \<or> count \<le> srcLen then sw_memcpy dst src count m else (0, m))"

text \<open>The first index from \<open>i\<close> on at which the bytes differ, or \<open>length\<close>.\<close>

function memcmp_stop :: "mem \<Rightarrow> u32 \<Rightarrow> u32 \<Rightarrow> nat \<Rightarrow> nat \<Rightarrow> nat" where
  "memcmp_stop m src dest len i =
     (if i < len \<and> m (src + of_nat i) = m (dest + of_nat i) then memcmp_stop m src dest len (i + 1) else i)"
  by pat_completeness auto
termination by (relation "measure (\<lambda>(_, _, _, len, i). len - i)") auto

declare memcmp_stop.simps [simp del]

definition sw_memcmp :: "u32 \<Rightarrow> u32 \<Rightarrow> u32 \<Rightarrow> mem \<Rightarrow> int" where
  "sw_memcmp src dest len m =
     (let counter = of_nat (memcmp_stop m src dest (unat len) 0)
      in if counter = len then uint (m (src + (counter - 1))) - uint (m (dest + (counter - 1)))
         else uint (m (src + counter)) - uint (m (dest + counter)))"

section \<open>String functions\<close>

text \<open>The comparison of \<open>sw_strncmp\<close> does not stop at a terminator.\<close>

function strncmp_loop :: "mem \<Rightarrow> u32 \<Rightarrow> u32 \<Rightarrow> int \<Rightarrow> int \<Rightarrow> int" where
  "strncmp_loop m str1 str2 n index =
     (if index < n
      then if m (str1 + of_int index) \<noteq> m (str2 + of_int index) then - 1 else strncmp_loop m str1 str2 n (index + 1)
      else 0)"
  by pat_completeness auto
termination by (relation "measure (\<lambda>(_, _, _, n, index). nat (n - index))") auto

declare strncmp_loop.simps [simp del]

definition sw_strncmp :: "u32 \<Rightarrow> u32 \<Rightarrow> int \<Rightarrow> mem \<Rightarrow> int" where
  "sw_strncmp str1 str2 n m = strncmp_loop m str1 str2 n 0"

fun strtoi_loop :: "mem \<Rightarrow> u32 \<Rightarrow> nat \<Rightarrow> nat \<Rightarrow> u32 \<Rightarrow> u32 \<Rightarrow> u32" where
  "strtoi_loop m str 0 index digit_int ret_val = ret_val"
| "strtoi_loop m str (Suc n) index digit_int ret_val =
     (let digit_char = m (str + of_nat index)
      in if digit_char < 0x30 \<or> digit_char > 0x39 then - 1
         else let d = push_bit (32 - (index + 1) * 4) (digit_int OR ucast (digit_char - 0x30))
              in strtoi_loop m str n (index + 1) d (ret_val OR d))"

definition sw_strtoi :: "u32 \<Rightarrow> mem \<Rightarrow> u32" where
  "sw_strtoi str m = strtoi_loop m str 8 0 0 0"

partial_function (option) find_nul :: "mem \<Rightarrow> u32 \<Rightarrow> u32 option" where
  "find_nul m sc = (if m sc \<noteq> 0 then find_nul m (sc + 1) else Some sc)"

definition sw_strlen :: "u32 \<Rightarrow> mem \<Rightarrow> u32 option" where
  "sw_strlen s m = map_option (\<lambda>sc. sc - s) (find_nul m s)"

partial_function (option) strcpy_loop :: "u32 \<Rightarrow> u32 \<Rightarrow> mem \<Rightarrow> mem option" where
  "strcpy_loop dest src m =
     (let m' = m(dest := m src) in if m' dest \<noteq> 0 then strcpy_loop (dest + 1) (src + 1) m' else Some m')"

definition sw_strcpy :: "u32 \<Rightarrow> u32 \<Rightarrow> mem \<Rightarrow> (u32 \<times> mem) option" where
  "sw_strcpy dest src m = map_option (Pair dest) (strcpy_loop dest src m)"

fun strncpy_loop :: "nat \<Rightarrow> u32 \<Rightarrow> u32 \<Rightarrow> mem \<Rightarrow> mem" where
  "strncpy_loop 0 d s m = m"
| "strncpy_loop (Suc n) d s m =
     (let m' = m(d := m s) in if m s = 0 then set_bytes n (d + 1) 0 m' else strncpy_loop n (d + 1) (s + 1) m')"

definition sw_strncpy :: "u32 \<Rightarrow> u32 \<Rightarrow> u32 \<Rightarrow> mem \<Rightarrow> u32 \<times> mem" where
  "sw_strncpy dest src n m = (dest, strncpy_loop (unat n) dest src m)"

partial_function (option) sw_strcmp :: "u32 \<Rightarrow> u32 \<Rightarrow> mem \<Rightarrow> int option" where
  "sw_strcmp s1 s2 m =
     (if m s1 = m s2
      then if m s1 = 0 then Some 0 else sw_strcmp (s1 + 1) (s2 + 1) m
      else Some (if m s1 < m s2 then - 1 else 1))"

definition sw_strcat :: "u32 \<Rightarrow> u32 \<Rightarrow> mem \<Rightarrow> (u32 \<times> mem) option" where
  "sw_strcat dest src m =
     Option.bind (find_nul m dest) (\<lambda>d. map_option (Pair dest) (strcpy_loop d src m))"

fun strncat_loop :: "nat \<Rightarrow> u32 \<Rightarrow> u32 \<Rightarrow> mem \<Rightarrow> mem" where
  "strncat_loop 0 d s m = m(d := 0)"
| "strncat_loop (Suc n) d s m =
     (let m' = m(d := m s) in if m s = 0 then m'(d := 0) else strncat_loop n (d + 1) (s + 1) m')"

definition sw_strncat :: "u32 \<Rightarrow> u32 \<Rightarrow> u32 \<Rightarrow> mem \<Rightarrow> (u32 \<times> mem) option" where
  "sw_strncat dest src n m =
     (if n \<noteq> 0 then Option.bind (find_nul m dest) (\<lambda>d. Some (dest, strncat_loop (unat n) d src m))
      else Some (dest, m))"

partial_function (option) sw_strchr :: "u32 \<Rightarrow> u8 \<Rightarrow> mem \<Rightarrow> u32 option" where
  "sw_strchr p c m = (if m p \<noteq> c then if m p = 0 then Some 0 else sw_strchr (p + 1) c m else Some p)"

definition sw_maxstrncpy :: "u32 \<Rightarrow> u32 \<Rightarrow> u32 \<Rightarrow> u32 \<Rightarrow> u32 \<Rightarrow> mem \<Rightarrow> u32 \<times> mem" where
  "sw_maxstrncpy dest src n destLen srcLen m =
     (if n \<le> destLen \<or> n \<le> srcLen then sw_strncpy dest src n m else (0, m))"

section \<open>Copying is copying\<close>

text \<open>The reference: every byte of the target range is the byte the source range had before.\<close>

definition copied :: "nat \<Rightarrow> u32 \<Rightarrow> u32 \<Rightarrow> mem \<Rightarrow> mem" where
  "copied n d s m = (\<lambda>a. if unat (a - d) < n then m (s + (a - d)) else m a)"

lemma offset_iff: "unat (a - d) < n \<longleftrightarrow> (\<exists>k<n. k < 2 ^ 32 \<and> a = d + of_nat k)" for a d :: u32
proof
  assume "unat (a - d) < n"
  then show "\<exists>k<n. k < 2 ^ 32 \<and> a = d + of_nat k"
    using unat_lt_2p32 [of "a - d"] by (intro exI [of _ "unat (a - d)"]) (simp add: of_nat_unat_id)
next
  assume "\<exists>k<n. k < 2 ^ 32 \<and> a = d + of_nat k"
  then obtain k where "k < n" "k < 2 ^ 32" "a = d + of_nat k" by blast
  then show "unat (a - d) < n" using unat_of_nat_lt [where 'a=32, of k] by simp
qed

lemma copied_unique:
  assumes n: "n \<le> 2 ^ 32" and at: "\<And>k. k < n \<Longrightarrow> f (d + of_nat k) = m (s + of_nat k)"
    and off: "\<And>a. (\<And>k. k < n \<Longrightarrow> a \<noteq> d + of_nat k) \<Longrightarrow> f a = m a"
  shows "f = copied n d s m"
proof
  fix a show "f a = copied n d s m a"
  proof (cases "unat (a - d) < n")
    case True
    then have "f (d + of_nat (unat (a - d))) = m (s + of_nat (unat (a - d)))" by (rule at)
    then show ?thesis using True by (simp add: copied_def of_nat_unat_id)
  next
    case False
    then have "a \<noteq> d + of_nat k" if "k < n" for k using that n offset_iff [of a d n] by auto
    then show ?thesis using False off by (simp add: copied_def)
  qed
qed

lemma of_nat_inj32: "i < 2 ^ 32 \<Longrightarrow> j < 2 ^ 32 \<Longrightarrow> (of_nat i :: u32) = of_nat j \<longleftrightarrow> i = j"
proof
  assume ij: "i < 2 ^ 32" "j < 2 ^ 32" and e: "(of_nat i :: u32) = of_nat j"
  have "unat (of_nat i :: u32) = i" "unat (of_nat j :: u32) = j" 
    using ij by (intro unat_of_nat_lt; simp)+
  then show "i = j" using e by metis
qed simp

lemma copied_Suc:
  assumes n: "Suc n < 2 ^ 32" and safe: "\<And>j. j < n \<Longrightarrow> d \<noteq> s + of_nat (Suc j)"
  shows "copied n (d + 1) (s + 1) (m(d := m s)) = copied (Suc n) d s m"
proof (rule copied_unique)
  show "Suc n \<le> 2 ^ 32" using n by simp
next
  fix k assume k: "k < Suc n"
  show "copied n (d + 1) (s + 1) (m(d := m s)) (d + of_nat k) = m (s + of_nat k)"
  proof (cases k)
    case 0
    have "\<not> unat (d - (d + 1)) < n" using n by (simp add: unsigned_minus_1_eq_mask mask_eq_exp_minus_1)
    then show ?thesis using 0 by (simp add: copied_def)
  next
    case (Suc j)
    then have "unat (of_nat j :: u32) = j" using k n by (intro unat_of_nat_lt) simp
    then show ?thesis using Suc k safe [of j] by (simp add: copied_def algebra_simps)
  qed
next
  fix a assume a: "\<And>k. k < Suc n \<Longrightarrow> a \<noteq> d + of_nat k"
  have "a \<noteq> d" using a [of 0] by simp
  moreover have "\<not> unat (a - (d + 1)) < n"
  proof
    assume "unat (a - (d + 1)) < n"
    then obtain k where "k < n" "a = d + 1 + of_nat k" using offset_iff by blast
    then show False using a [of "Suc k"] by (simp add: algebra_simps)
  qed
  ultimately show "copied n (d + 1) (s + 1) (m(d := m s)) a = m a" by (simp add: copied_def)
qed

lemma copied_0 [simp]: "copied 0 d s m = m"
  by (simp add: copied_def)

lemma copy_up_copied:
  assumes "n < 2 ^ 32" "\<And>i j. i < j \<Longrightarrow> j < n \<Longrightarrow> d + of_nat i \<noteq> s + of_nat j"
  shows "copy_up n d s m = copied n d s m"
  using assms
proof (induction n arbitrary: d s m)
  case (Suc n)
  have "d + 1 + of_nat i \<noteq> s + 1 + of_nat j" if "i < j" "j < n" for i j
    using Suc.prems(2) [of "Suc i" "Suc j"] that by (simp add: algebra_simps)
  then have "copy_up n (d + 1) (s + 1) (m(d := m s)) = copied n (d + 1) (s + 1) (m(d := m s))"
    using Suc.prems(1) by (intro Suc.IH) simp_all
  also have "\<dots> = copied (Suc n) d s m"
  proof (rule copied_Suc)
    show "d \<noteq> s + of_nat (Suc j)" if "j < n" for j using Suc.prems(2) [of 0 "Suc j"] that by simp
  qed (use Suc.prems(1) in simp)
  finally show ?case by simp
qed simp

lemma copied_last:
  assumes n: "Suc n < 2 ^ 32" and safe: "\<And>j. j < n \<Longrightarrow> d + of_nat n \<noteq> s + of_nat j"
  shows "copied n d s (m(d + of_nat n := m (s + of_nat n))) = copied (Suc n) d s m"
proof (rule copied_unique)
  show "Suc n \<le> 2 ^ 32" using n by simp
next
  fix k assume k: "k < Suc n"
  have u: "unat (of_nat k :: u32) = k" using k n by (intro unat_of_nat_lt) simp
  show "copied n d s (m(d + of_nat n := m (s + of_nat n))) (d + of_nat k) = m (s + of_nat k)"
    using k safe [of k] u by (cases "k = n") (simp_all add: copied_def)
next
  fix a assume a: "\<And>k. k < Suc n \<Longrightarrow> a \<noteq> d + of_nat k"
  then have "\<not> unat (a - d) < n" using offset_iff [of a d n] by auto
  then show "copied n d s (m(d + of_nat n := m (s + of_nat n))) a = m a"
    using a [of n] by (simp add: copied_def)
qed

lemma copy_down_copied:
  assumes "n < 2 ^ 32" "\<And>i j. j < i \<Longrightarrow> i < n \<Longrightarrow> d + of_nat i \<noteq> s + of_nat j"
  shows "copy_down n (d + of_nat n) (s + of_nat n) m = copied n d s m"
  using assms
proof (induction n arbitrary: m)
  case (Suc n)
  have "copy_down (Suc n) (d + of_nat (Suc n)) (s + of_nat (Suc n)) m =
      copy_down n (d + of_nat n) (s + of_nat n) (m(d + of_nat n := m (s + of_nat n)))"
    by (simp add: algebra_simps)
  also have "\<dots> = copied n d s (m(d + of_nat n := m (s + of_nat n)))"
    using Suc.prems by (intro Suc.IH) simp_all
  also have "\<dots> = copied (Suc n) d s m"
    using Suc.prems by (intro copied_last) simp_all
  finally show ?case .
qed simp


text \<open>A range that does not wrap around the end of the address space.\<close>

definition in_memory :: "u32 \<Rightarrow> u32 \<Rightarrow> bool" where
  "in_memory a n \<longleftrightarrow> unat a + unat n \<le> 2 ^ 32"

lemma unat_offset: "in_memory a n \<Longrightarrow> i < unat n \<Longrightarrow> unat (a + of_nat i) = unat a + i"
  using unat_lt_2p32 [of n] unat_of_nat_lt [where 'a=32, of i]
  by (subst unat_plus_lt) (simp_all add: in_memory_def)

text \<open>\<open>sw_memmove\<close> is the reference copy, also where source and target overlap.\<close>

theorem sw_memmove_copies:
  assumes "in_memory dest count" "in_memory src count"
  shows "sw_memmove dest src count m = (dest, copied (unat count) dest src m)"
proof (cases "dest \<le> src")
  case True
  have "dest + of_nat i \<noteq> src + of_nat j" if "i < j" "j < unat count" for i j
  proof
    assume "dest + of_nat i = src + of_nat j"
    then have "unat (dest + of_nat i) = unat (src + of_nat j)" by simp
    then show False using that True assms by (simp add: unat_offset word_le_nat_alt)
  qed
  then have "copy_up (unat count) dest src m = copied (unat count) dest src m"
    using unat_lt_2p32 [of count] by (intro copy_up_copied) simp_all
  then show ?thesis using True by (simp add: sw_memmove_def)
next
  case False
  have "dest + of_nat i \<noteq> src + of_nat j" if "j < i" "i < unat count" for i j
  proof
    assume "dest + of_nat i = src + of_nat j"
    then have "unat (dest + of_nat i) = unat (src + of_nat j)" by simp
    then show False using that False assms by (simp add: unat_offset word_le_nat_alt)
  qed
  then have "copy_down (unat count) (dest + of_nat (unat count)) (src + of_nat (unat count)) m =
      copied (unat count) dest src m"
    using unat_lt_2p32 [of count] by (intro copy_down_copied) simp_all
  then show ?thesis using False by (simp add: sw_memmove_def of_nat_unat_id)
qed

theorem sw_memmove_copies_witness:
  "snd (sw_memmove 0x101 0x100 3 (\<lambda>a. ucast a)) 0x103 = 2"
  using sw_memmove_copies [of "0x101" 3 "0x100" "\<lambda>a. ucast a"] by (simp add: in_memory_def copied_def)

definition disjoint :: "nat \<Rightarrow> u32 \<Rightarrow> u32 \<Rightarrow> bool" where
  "disjoint n d s \<longleftrightarrow> (\<forall>i<n. \<forall>j<n. d + of_nat i \<noteq> s + of_nat j)"

lemma disjointI:
  assumes "in_memory d c" "in_memory s c" "unat d + unat c \<le> unat s \<or> unat s + unat c \<le> unat d"
  shows "disjoint (unat c) d s"
  unfolding disjoint_def
proof (intro allI impI notI)
  fix i j assume ij: "i < unat c" "j < unat c" and "d + of_nat i = s + of_nat j"
  then have "unat (d + of_nat i) = unat (s + of_nat j)" by simp
  then show False using ij assms by (auto simp: unat_offset)
qed

lemma copied_append:
  assumes "disjoint (i + k) d s" "i + k \<le> 2 ^ 32"
  shows "copied k (d + of_nat i) (s + of_nat i) (copied i d s m) = copied (i + k) d s m"
proof (rule copied_unique [OF assms(2)])
  have u: "unat (of_nat l :: u32) = l" if "l < i + k" for l
    using that assms(2) by (intro unat_of_nat_lt) simp
  have out: "\<not> unat (s + of_nat l - d) < i" if l: "l < i + k" for l
  proof
    assume "unat (s + of_nat l - d) < i"
    then obtain j where "j < i" "s + of_nat l = d + of_nat j" using offset_iff by blast
    then show False using assms(1) l unfolding disjoint_def by (metis trans_less_add1)
  qed
  fix l assume l: "l < i + k"
  show "copied k (d + of_nat i) (s + of_nat i) (copied i d s m) (d + of_nat l) = m (s + of_nat l)"
  proof (cases "l < i")
    case True
    have "\<not> unat (d + of_nat l - (d + of_nat i)) < k"
    proof
      assume "unat (d + of_nat l - (d + of_nat i)) < k"
      then obtain j where "j < k" "d + of_nat l = d + of_nat i + of_nat j" using offset_iff by blast
      then have "(of_nat l :: u32) = of_nat (i + j)" by (simp add: algebra_simps)
      then show False using of_nat_inj32 [of l "i + j"] \<open>j < k\<close> True assms(2) by simp
    qed
    then show ?thesis using True u [OF l] by (simp add: copied_def)
  next
    case False
    then obtain j where j: "l = i + j" "j < k" using l by (metis add_less_cancel_left le_Suc_ex not_less)
    have "unat (of_nat j :: u32) = j" using u [of j] j by simp
    then show ?thesis using j out [OF l] by (simp add: copied_def algebra_simps)
  qed
next
  fix a assume a: "\<And>l. l < i + k \<Longrightarrow> a \<noteq> d + of_nat l"
  have "\<not> unat (a - d) < i" using a offset_iff [of a d i] by auto
  moreover have "\<not> unat (a - (d + of_nat i)) < k"
  proof
    assume "unat (a - (d + of_nat i)) < k"
    then obtain j where "j < k" "a = d + of_nat i + of_nat j" using offset_iff by blast
    then show False using a [of "i + j"] by (simp add: algebra_simps)
  qed
  ultimately show "copied k (d + of_nat i) (s + of_nat i) (copied i d s m) a = m a" by (simp add: copied_def)
qed

lemma byte_of_read32:
  "ucast (read32 m a) = m a" "ucast (drop_bit 8 (read32 m a)) = m (a + 1)"
  "ucast (drop_bit 16 (read32 m a)) = m (a + 2)" "ucast (drop_bit 24 (read32 m a)) = m (a + 3)"
  by (rule bit_eqI, auto simp: read32_def bit_simps dest: bit_imp_le_length)+

lemma read_write_same: "read32 (write32 a v m) a = v"
proof (rule bit_word_eqI)
  fix n assume "n < LENGTH(32)"
  then consider "n < 8" | "8 \<le> n" "n < 16" | "16 \<le> n" "n < 24" | "24 \<le> n" "n < 32" by fastforce
  then show "bit (read32 (write32 a v m) a) n = bit v n"
    by cases (auto simp: read32_def write32_def bit_simps)
qed

lemma read_write_other:
  "3 < b - a \<Longrightarrow> 3 < a - b \<Longrightarrow> read32 (write32 a v m) b = read32 m b"
proof -
  assume d: "3 < b - a" "3 < a - b"
  have ne: "b + i \<noteq> a + j" if "i \<in> {0, 1, 2, 3}" "j \<in> {0, 1, 2, 3}" for i j
  proof
    assume "b + i = a + j"
    then have "b - a = j - i" "a - b = i - j" by (simp_all add: algebra_simps)
    then show False using d that by auto
  qed
  show ?thesis
    using ne [of 0 0] ne [of 0 1] ne [of 0 2] ne [of 0 3] ne [of 1 0] ne [of 1 1] ne [of 1 2] ne [of 1 3]
      ne [of 2 0] ne [of 2 1] ne [of 2 2] ne [of 2 3] ne [of 3 0] ne [of 3 1] ne [of 3 2] ne [of 3 3]
    by (simp add: read32_def write32_def)
qed

lemma write32_copied: "write32 d (read32 m s) m = copied 4 d s m"
proof (rule copied_unique)
  fix k :: nat assume "k < 4"
  then consider "k = 0" | "k = 1" | "k = 2" | "k = 3" by linarith
  then show "write32 d (read32 m s) m (d + of_nat k) = m (s + of_nat k)"
    by cases (simp_all add: write32_def byte_of_read32)
next
  fix a assume a: "\<And>k. k < 4 \<Longrightarrow> a \<noteq> d + of_nat k"
  show "write32 d (read32 m s) m a = m a"
    using a [of 0] a [of 1] a [of 2] a [of 3] by (simp add: write32_def)
qed simp

lemma disjoint_mono: "disjoint n d s \<Longrightarrow> k \<le> n \<Longrightarrow> disjoint k d s"
  by (auto simp: disjoint_def)

lemma copy_words_copied:
  assumes "disjoint n d s" "n < 2 ^ 32" "i \<le> n"
  shows "\<exists>i'. i \<le> i' \<and> i' \<le> n \<and> copy_words n i (d + of_nat i) (s + of_nat i) (copied i d s m) =
    (i', d + of_nat i', s + of_nat i', copied i' d s m)"
  using assms
proof (induction "n - i" arbitrary: i rule: less_induct)
  case less
  show ?case
  proof (cases "i < n \<and> \<not> n - 1 < i + 3")
    case True
    then have le: "i + 4 \<le> n" by linarith
    have "copied 4 (d + of_nat i) (s + of_nat i) (copied i d s m) = copied (i + 4) d s m"
      using less.prems le by (intro copied_append) (auto intro: disjoint_mono)
    then have "copy_words n i (d + of_nat i) (s + of_nat i) (copied i d s m) =
        copy_words n (i + 4) (d + of_nat (i + 4)) (s + of_nat (i + 4)) (copied (i + 4) d s m)"
      using True by (subst copy_words.simps) (simp add: write32_copied algebra_simps)
    then show ?thesis using less.hyps [of "i + 4"] less.prems le True by fastforce
  next
    case False
    then show ?thesis using less.prems by (intro exI [of _ i], subst copy_words.simps) auto
  qed
qed

lemma sw_memcpy_reference:
  assumes "disjoint (unat count) dst src"
  shows "sw_memcpy dst src count m = (dst, copied (unat count) dst src m)"
proof -
  let ?n = "unat count"
  have n: "?n < 2 ^ 32" using unat_lt_2p32 [of count] by simp
  have bytes: "copy_up k (dst + of_nat i) (src + of_nat i) (copied i dst src m) = copied (i + k) dst src m"
    if "i + k = ?n" for i k
  proof -
    have "dst + of_nat i + of_nat a \<noteq> src + of_nat i + of_nat b" if "a < b" "b < k" for a b
    proof -
      have "dst + of_nat (i + a) \<noteq> src + of_nat (i + b)"
        using assms that \<open>i + k = ?n\<close> unfolding disjoint_def by simp
      then show ?thesis by (simp add: algebra_simps)
    qed
    then have "copy_up k (dst + of_nat i) (src + of_nat i) (copied i dst src m) =
        copied k (dst + of_nat i) (src + of_nat i) (copied i dst src m)"
      using that n by (intro copy_up_copied) simp_all
    then show ?thesis using copied_append [of i k dst src m] that assms n by simp
  qed
  obtain i where i: "i \<le> ?n" "copy_words ?n 0 dst src m = (i, dst + of_nat i, src + of_nat i, copied i dst src m)"
    using copy_words_copied [OF assms n, of 0 m] by auto
  have "of_nat i \<le> count - 1" if "i < ?n"
  proof -
    have "unat (count - 1) = ?n - 1" using that by (subst unat_minus_le) (simp_all add: word_le_nat_alt)
    moreover have "unat (of_nat i :: u32) = i" using that n by (intro unat_of_nat_lt) simp
    ultimately show ?thesis using that by (simp add: word_le_nat_alt)
  qed
  then show ?thesis
    using i bytes [of i "?n - i"] bytes [of 0 ?n]
    by (cases "i < ?n") (simp_all add: sw_memcpy_def)
qed

text \<open>
  \<open>sw_memcpy\<close>, word by word or byte by byte, is the reference copy where source and target
  do not overlap.
\<close>

theorem sw_memcpy_copies:
  assumes "disjoint (unat count) dst src"
  shows "sw_memcpy dst src count m = (dst, copied (unat count) dst src m)"
  using assms by (rule sw_memcpy_reference)

theorem sw_memcpy_copies_witness:
  "snd (sw_memcpy 0x200 0x100 6 (\<lambda>a. ucast a)) 0x205 = 5"
proof -
  have "disjoint (unat (6::u32)) 0x200 0x100" by (rule disjointI) (simp_all add: in_memory_def)
  then show ?thesis by (simp add: sw_memcpy_copies copied_def)
qed


section \<open>Comparing\<close>

lemma memcmp_stop_spec:
  assumes "i \<le> len"
  shows "i \<le> memcmp_stop m src dest len i \<and> memcmp_stop m src dest len i \<le> len \<and>
    (\<forall>k. i \<le> k \<longrightarrow> k < memcmp_stop m src dest len i \<longrightarrow> m (src + of_nat k) = m (dest + of_nat k)) \<and>
    (memcmp_stop m src dest len i < len \<longrightarrow>
      m (src + of_nat (memcmp_stop m src dest len i)) \<noteq> m (dest + of_nat (memcmp_stop m src dest len i)))"
  using assms
proof (induction "len - i" arbitrary: i rule: less_induct)
  case less
  show ?case
  proof (cases "i < len \<and> m (src + of_nat i) = m (dest + of_nat i)")
    case True
    have "memcmp_stop m src dest len i = memcmp_stop m src dest len (i + 1)"
      using True by (subst memcmp_stop.simps) simp
    moreover have "len - (i + 1) < len - i" "i + 1 \<le> len" using True by auto
    ultimately show ?thesis using less.hyps [of "i + 1"] True by (auto simp: Suc_le_eq dest: le_neq_implies_less)
  next
    case False
    then have "memcmp_stop m src dest len i = i" by (subst memcmp_stop.simps) auto
    then show ?thesis using False less.prems by auto
  qed
qed

text \<open>
  \<open>sw_memcmp\<close> decides equality of two non-empty ranges, and where they differ it is the
  difference of the first two bytes that differ. For an empty range it compares the bytes in
  front of the ranges instead.
\<close>

theorem sw_memcmp_first_difference:
  "(len = 0 \<longrightarrow> sw_memcmp src dest len m = uint (m (src - 1)) - uint (m (dest - 1))) \<and>
   (len \<noteq> 0 \<and> (\<forall>k<unat len. m (src + of_nat k) = m (dest + of_nat k)) \<longrightarrow> sw_memcmp src dest len m = 0) \<and>
   (\<forall>k<unat len. m (src + of_nat k) \<noteq> m (dest + of_nat k) \<and> (\<forall>j<k. m (src + of_nat j) = m (dest + of_nat j)) \<longrightarrow>
      sw_memcmp src dest len m = uint (m (src + of_nat k)) - uint (m (dest + of_nat k)) \<and> sw_memcmp src dest len m \<noteq> 0)"
  (is "?empty \<and> ?equal \<and> ?differ")
proof (intro conjI)
  let ?c = "memcmp_stop m src dest (unat len) 0"
  note sp = memcmp_stop_spec [of 0 "unat len" m src dest]
  have n: "unat len < 2 ^ 32" using unat_lt_2p32 [of len] by simp
  show ?empty by (simp add: sw_memcmp_def memcmp_stop.simps)
  show ?equal
  proof
    assume a: "len \<noteq> 0 \<and> (\<forall>k<unat len. m (src + of_nat k) = m (dest + of_nat k))"
    then have c: "?c = unat len" using sp by (meson le_neq_implies_less le0)
    have pos: "0 < unat len" using a by (simp add: unat_gt_0)
    then have "unat len - 1 < unat len" by simp
    then have "m (src + of_nat (unat len - 1)) = m (dest + of_nat (unat len - 1))" using a by blast
    moreover have "of_nat (unat len - 1) = len - 1" using pos by (simp add: of_nat_diff of_nat_unat_id)
    ultimately show "sw_memcmp src dest len m = 0" by (simp add: sw_memcmp_def c of_nat_unat_id)
  qed
  show ?differ
  proof (intro allI impI)
    fix k assume k: "k < unat len"
      and d: "m (src + of_nat k) \<noteq> m (dest + of_nat k) \<and> (\<forall>j<k. m (src + of_nat j) = m (dest + of_nat j))"
    have "?c = k" using sp k d by (metis le0 le_neq_implies_less linorder_neqE_nat)
    moreover have "(of_nat k :: u32) \<noteq> len"
    proof
      assume "of_nat k = len"
      moreover have "unat (of_nat k :: u32) = k" using k n by (intro unat_of_nat_lt) simp
      ultimately show False using k by (metis less_irrefl)
    qed
    ultimately show "sw_memcmp src dest len m = uint (m (src + of_nat k)) - uint (m (dest + of_nat k)) \<and> sw_memcmp src dest len m \<noteq> 0"
      using d by (auto simp: sw_memcmp_def Let_def dest: unsigned_word_eqI)
  qed
qed


theorem sw_memcmp_first_difference_witness: "sw_memcmp 0 8 2 ((\<lambda>_. 7)(1 := 3)) = - 4"
  using sw_memcmp_first_difference [of 2 0 8 "(\<lambda>_. 7)(1 := 3)"] by (auto dest!: spec [where x=1])

section \<open>Strings\<close>

text \<open>The bytes \<open>xs\<close>, none of them zero, followed by the terminator.\<close>

fun str_at :: "mem \<Rightarrow> u32 \<Rightarrow> u8 list \<Rightarrow> bool" where
  "str_at m a [] = (m a = 0)"
| "str_at m a (x # xs) = (m a = x \<and> x \<noteq> 0 \<and> str_at m (a + 1) xs)"

lemma str_at_cong:
  "(\<And>i. i \<le> length xs \<Longrightarrow> m' (a' + of_nat i) = m (a + of_nat i)) \<Longrightarrow> str_at m' a' xs = str_at m a xs"
proof (induction xs arbitrary: a a')
  case Nil
  show ?case using Nil [of 0] by simp
next
  case (Cons x xs)
  have "str_at m' (a' + 1) xs = str_at m (a + 1) xs"
    using Cons.prems [of "Suc i" for i] by (intro Cons.IH) (simp add: algebra_simps)
  then show ?case using Cons.prems [of 0] by simp
qed

lemma find_nul_str: "str_at m a xs \<Longrightarrow> find_nul m a = Some (a + of_nat (length xs))"
  by (induction xs arbitrary: a) (subst find_nul.simps, simp add: algebra_simps)+

lemma strcpy_loop_copied:
  assumes "str_at m s xs" "disjoint (Suc (length xs)) d s" "Suc (length xs) < 2 ^ 32"
  shows "strcpy_loop d s m = Some (copied (Suc (length xs)) d s m)"
  using assms
proof (induction xs arbitrary: d s m)
  case Nil
  moreover have "copied (Suc 0) d s m = m(d := m s)" using copied_Suc [of 0 d s m] by simp
  ultimately show ?case by (subst strcpy_loop.simps) (simp add: Let_def)
next
  case (Cons x xs)
  have apart: "d + of_nat i \<noteq> s + of_nat j" if "i < Suc (Suc (length xs))" "j < Suc (Suc (length xs))" for i j
    using Cons.prems(2) that by (simp add: disjoint_def)
  have d: "d \<noteq> s + of_nat (Suc j)" if "j < Suc (length xs)" for j using apart [of 0 "Suc j"] that by simp
  have "str_at (m(d := m s)) (s + 1) xs = str_at m (s + 1) xs"
  proof (rule str_at_cong)
    fix i assume "i \<le> length xs"
    then have "d \<noteq> s + 1 + of_nat i" using d [of i] by (simp add: algebra_simps)
    then show "(m(d := m s)) (s + 1 + of_nat i) = m (s + 1 + of_nat i)" by (simp add: fun_upd_def)
  qed
  then have st: "str_at (m(d := m s)) (s + 1) xs" using Cons.prems(1) by simp
  have dj: "disjoint (Suc (length xs)) (d + 1) (s + 1)"
    using apart [of "Suc i" "Suc j" for i j] by (simp add: disjoint_def algebra_simps)
  have "strcpy_loop d s m = strcpy_loop (d + 1) (s + 1) (m(d := m s))"
    using Cons.prems(1) by (subst strcpy_loop.simps) (simp add: Let_def)
  also have "\<dots> = Some (copied (Suc (length xs)) (d + 1) (s + 1) (m(d := m s)))"
    using Cons.prems(3) by (intro Cons.IH [OF st dj]) simp
  also have "copied (Suc (length xs)) (d + 1) (s + 1) (m(d := m s)) = copied (Suc (Suc (length xs))) d s m"
    using Cons.prems(3) d by (intro copied_Suc) simp_all
  finally show ?case by simp
qed

lemma copied_at: "k < n \<Longrightarrow> n \<le> 2 ^ 32 \<Longrightarrow> copied n d s m (d + of_nat k) = m (s + of_nat k)"
proof -
  assume "k < n" "n \<le> 2 ^ 32"
  moreover from this have "unat (of_nat k :: u32) = k" by (intro unat_of_nat_lt) simp
  ultimately show ?thesis by (simp add: copied_def)
qed

lemma copied_source:
  assumes "disjoint n d s" "k < n"
  shows "copied n d s m (s + of_nat k) = m (s + of_nat k)"
proof -
  have "\<not> unat (s + of_nat k - d) < n"
  proof
    assume "unat (s + of_nat k - d) < n"
    then obtain i where "i < n" "s + of_nat k = d + of_nat i" using offset_iff by blast
    then show False using assms unfolding disjoint_def by metis
  qed
  then show ?thesis by (simp add: copied_def)
qed

text \<open>The reference comparison: the sign of the first difference, a prefix is smaller.\<close>

fun lexcmp :: "u8 list \<Rightarrow> u8 list \<Rightarrow> int" where
  "lexcmp [] [] = 0"
| "lexcmp [] (y # ys) = - 1"
| "lexcmp (x # xs) [] = 1"
| "lexcmp (x # xs) (y # ys) = (if x = y then lexcmp xs ys else if x < y then - 1 else 1)"

lemma lexcmp_eq_0: "lexcmp xs ys = 0 \<longleftrightarrow> xs = ys"
  by (induction xs ys rule: lexcmp.induct) auto

lemma strcmp_lexcmp: "str_at m a xs \<Longrightarrow> str_at m b ys \<Longrightarrow> sw_strcmp a b m = Some (lexcmp xs ys)"
proof (induction xs ys arbitrary: a b rule: lexcmp.induct)
  case (2 y ys)
  then show ?case by (subst sw_strcmp.simps) (auto simp: word_gt_0)
next
  case (3 x xs)
  then show ?case by (subst sw_strcmp.simps) auto
next
  case (4 x xs y ys)
  then show ?case by (subst sw_strcmp.simps) auto
qed (subst sw_strcmp.simps, simp)

text \<open>
  \<open>sw_strcmp\<close> terminates on strings and is the lexicographic comparison of their bytes; in
  particular it is zero exactly for equal strings.
\<close>

theorem sw_strcmp_lexicographic:
  assumes "str_at m a xs" "str_at m b ys"
  shows "sw_strcmp a b m = Some (lexcmp xs ys) \<and> (sw_strcmp a b m = Some 0 \<longleftrightarrow> xs = ys)"
  using strcmp_lexcmp [OF assms] by (simp add: lexcmp_eq_0)

theorem sw_strcmp_lexicographic_witness:
  "sw_strcmp 0 4 ((\<lambda>_. 0)(0 := 65, 1 := 66, 4 := 65, 5 := 200)) = Some (- 1)"
  using sw_strcmp_lexicographic [of "(\<lambda>_. 0)(0 := 65, 1 := 66, 4 := 65, 5 := 200)" 0 "[65, 66]" 4 "[65, 200]"] by simp

text \<open>
  \<open>sw_strcpy\<close> and \<open>sw_strcat\<close> terminate. Copying a string gives an equal string of the same
  length and keeps the source and every byte outside the target; appending a string to a string
  gives the concatenation.
\<close>

theorem sw_strcpy_strcat_strings:
  assumes "str_at m src ys" "str_at m dest xs" "length xs + length ys + 1 < 2 ^ 32"
    and "disjoint (Suc (length ys)) dest src" "disjoint (Suc (length ys)) (dest + of_nat (length xs)) src"
  shows "(\<exists>m'. sw_strcpy dest src m = Some (dest, m') \<and> str_at m' dest ys \<and> str_at m' src ys \<and>
      sw_strlen dest m' = Some (of_nat (length ys)) \<and> sw_strcmp dest src m' = Some 0 \<and>
      (\<forall>a. unat (a - dest) > length ys \<longrightarrow> m' a = m a)) \<and>
    (\<exists>m'. sw_strcat dest src m = Some (dest, m') \<and> str_at m' dest (xs @ ys))"
proof (intro conjI)
  let ?n = "Suc (length ys)"
  let ?m = "copied ?n dest src m"
  have n: "?n < 2 ^ 32" using assms(3) by simp
  have copy: "sw_strcpy dest src m = Some (dest, ?m)"
    using strcpy_loop_copied [OF assms(1,4) n] by (simp add: sw_strcpy_def)
  have d: "str_at ?m dest ys = str_at m src ys" using n by (intro str_at_cong copied_at) simp_all
  have s: "str_at ?m src ys = str_at m src ys" using assms(4) by (intro str_at_cong copied_source) simp_all
  have "sw_strlen dest ?m = Some (of_nat (length ys))"
    using d assms(1) by (simp add: sw_strlen_def find_nul_str)
  moreover have "sw_strcmp dest src ?m = Some 0"
    using d s assms(1) by (simp add: strcmp_lexcmp [of ?m dest ys src ys] lexcmp_eq_0)
  moreover have "\<forall>a. unat (a - dest) > length ys \<longrightarrow> ?m a = m a" by (simp add: copied_def)
  ultimately show "\<exists>m'. sw_strcpy dest src m = Some (dest, m') \<and> str_at m' dest ys \<and> str_at m' src ys \<and>
      sw_strlen dest m' = Some (of_nat (length ys)) \<and> sw_strcmp dest src m' = Some 0 \<and>
      (\<forall>a. unat (a - dest) > length ys \<longrightarrow> m' a = m a)"
    using copy d s assms(1) by blast
next
  let ?n = "Suc (length ys)" and ?e = "dest + of_nat (length xs)"
  have n: "?n < 2 ^ 32" using assms(3) by simp
  have cat: "sw_strcat dest src m = Some (dest, copied ?n ?e src m)"
    using find_nul_str [OF assms(2)] strcpy_loop_copied [OF assms(1,5) n] by (simp add: sw_strcat_def)
  have "str_at (copied ?n ?e src m) ?e ys = str_at m src ys" using n by (intro str_at_cong copied_at) simp_all
  then have tail: "str_at (copied ?n ?e src m) ?e ys" using assms(1) by simp
  have head: "copied ?n ?e src m (dest + of_nat i) = m (dest + of_nat i)" if i: "i < length xs" for i
  proof -
    have "\<not> unat (dest + of_nat i - ?e) < ?n"
    proof
      assume "unat (dest + of_nat i - ?e) < ?n"
      then obtain k where "k < ?n" "dest + of_nat i = ?e + of_nat k" using offset_iff by blast
      then have "k < ?n" "(of_nat i :: u32) = of_nat (length xs + k)" by (simp_all add: algebra_simps)
      then show False using of_nat_inj32 [of i "length xs + k"] i assms(3) by simp
    qed
    then show ?thesis by (simp add: copied_def)
  qed
  have "str_at (copied ?n ?e src m) a (zs @ ys)"
    if "str_at m a zs" "str_at (copied ?n ?e src m) (a + of_nat (length zs)) ys"
      "\<And>i. i < length zs \<Longrightarrow> copied ?n ?e src m (a + of_nat i) = m (a + of_nat i)" for a zs
    using that
  proof (induction zs arbitrary: a)
    case (Cons z zs)
    have "str_at (copied ?n ?e src m) (a + 1) (zs @ ys)"
      using Cons.prems(1,2) Cons.prems(3) [of "Suc i" for i] by (intro Cons.IH) (simp_all add: algebra_simps)
    then show ?case using Cons.prems(1) Cons.prems(3) [of 0] by simp
  qed simp
  then show "\<exists>m'. sw_strcat dest src m = Some (dest, m') \<and> str_at m' dest (xs @ ys)"
    using cat assms(2) tail head by blast
qed

theorem sw_strcpy_strcat_strings_witness:
  "\<exists>m'. sw_strcat 0x10 0x20 ((\<lambda>_. 0)(0x10 := 65, 0x20 := 66)) = Some (0x10, m') \<and> str_at m' 0x10 [65, 66]"
proof -
  let ?m = "(\<lambda>_. 0)(0x10 := 65, 0x20 := 66) :: mem"
  have two: "unat (2::u32) = Suc (length [66::u8])" by simp
  have "disjoint (unat (2::u32)) 0x10 0x20" by (rule disjointI) (simp_all add: in_memory_def)
  then have d1: "disjoint (Suc (length [66::u8])) 0x10 0x20" unfolding two .
  have "disjoint (unat (2::u32)) 0x11 0x20" by (rule disjointI) (simp_all add: in_memory_def)
  then have d2: "disjoint (Suc (length [66::u8])) (0x10 + of_nat (length [65::u8])) 0x20" unfolding two by simp
  have st: "str_at ?m 0x20 [66]" "str_at ?m 0x10 [65]" "length [65::u8] + length [66::u8] + 1 < 2 ^ 32" by simp_all
  show ?thesis using sw_strcpy_strcat_strings [OF st d1 d2] by simp
qed

section \<open>Defects\<close>

lemma sw_memncpy_overflows:
  "dstLen < count \<Longrightarrow> count \<le> srcLen \<Longrightarrow> sw_memncpy dst src count dstLen srcLen m = sw_memcpy dst src count m"
  by (simp add: sw_memncpy_def)

lemma sw_strtoi_mixes_digits: "sw_strtoi 0 ((\<lambda>_. 0x30)(3 := 0x31)) = 0x10010000"
  by code_simp

end
