(* ===== verification/SwWait.thy ===== *)
theory SwWait
  imports TasksInv SwTimerQueue
begin

text \<open>
  Wait queues and sleeping (\<open>lib/sw_wait.c\<close>, \<open>lib/include/sw_wait.h\<close>, \<open>lib/sw_timer_functions.c\<close>).

  Queue heads and queue elements live at addresses; the list of a head is the sequence of its
  elements (theory \<open>SwList\<close>), an element knows whether its own node is linked to itself
  (\<open>list_empty\<close>). Deleting a node that was deleted before follows poisoned pointers. The wake
  function of an element is the default one or one of a driver, which is a parameter. Locks
  only mask interrupts and are left out.
\<close>

section \<open>Data\<close>

definition WAKE_UP :: u32 where "WAKE_UP = 0"
definition WAKE_UP_IMMEDIATE :: u32 where "WAKE_UP_IMMEDIATE = 1"

record wait_queue =
  wq_self :: bool
  wq_data :: u32
  wq_func :: u32

record wait_queue_head =
  elements_count :: int
  elements_list :: "u32 list"

record wait_state =
  wglob :: sw_global
  wqs :: "u32 \<Rightarrow> wait_queue"
  heads :: "u32 \<Rightarrow> wait_queue_head"

definition upd_wq :: "u32 \<Rightarrow> (wait_queue \<Rightarrow> wait_queue) \<Rightarrow> wait_state \<Rightarrow> wait_state" where
  "upd_wq q f s = s\<lparr>wqs := (wqs s)(q := f (wqs s q))\<rparr>"

definition upd_head :: "u32 \<Rightarrow> (wait_queue_head \<Rightarrow> wait_queue_head) \<Rightarrow> wait_state \<Rightarrow> wait_state" where
  "upd_head h f s = s\<lparr>heads := (heads s)(h := f (heads s h))\<rparr>"

definition upd_glob :: "(sw_global \<Rightarrow> sw_global) \<Rightarrow> wait_state \<Rightarrow> wait_state" where
  "upd_glob f s = s\<lparr>wglob := f (wglob s)\<rparr>"

section \<open>Operations\<close>

definition add_to_waitqueue :: "u32 \<Rightarrow> u32 \<Rightarrow> wait_state \<Rightarrow> wait_state" where
  "add_to_waitqueue h q s =
     upd_head h (\<lambda>x. x\<lparr>elements_list := q # elements_list x, elements_count := elements_count x + 1\<rparr>)
       (upd_wq q (\<lambda>x. x\<lparr>wq_self := False\<rparr>) s)"

definition sw_add_to_waitqueue :: "u32 \<Rightarrow> u32 \<Rightarrow> wait_state \<Rightarrow> wait_state" where
  "sw_add_to_waitqueue = add_to_waitqueue"

definition unlink :: "u32 \<Rightarrow> u32 \<Rightarrow> wait_state \<Rightarrow> panic + wait_state" where
  "unlink h q s =
     (if q \<in> set (elements_list (heads s h)) then Inr (upd_head h (\<lambda>x. x\<lparr>elements_list := remove1 q (elements_list x)\<rparr>) s)
      else if wq_self (wqs s q) then Inr (upd_wq q (\<lambda>x. x\<lparr>wq_self := False\<rparr>) s)
      else Inl CORRUPTED)"

definition sw_remove_from_waitqueue :: "u32 \<Rightarrow> u32 \<Rightarrow> wait_state \<Rightarrow> panic + wait_state" where
  "sw_remove_from_waitqueue h q s =
     map_sum id (upd_head h (\<lambda>x. x\<lparr>elements_count := elements_count x - 1\<rparr>)) (unlink h q s)"

definition current_or_null :: "sw_global \<Rightarrow> u32" where
  "current_or_null g = (case get_current_task g of Some p \<Rightarrow> p | None \<Rightarrow> 0)"

definition sw_init_waitqueue_entry_func :: "u32 \<Rightarrow> u32 \<Rightarrow> wait_state \<Rightarrow> wait_state" where
  "sw_init_waitqueue_entry_func q f s =
     (if q \<noteq> 0 then upd_wq q (\<lambda>x. x\<lparr>wq_data := current_or_null (wglob s), wq_func := f\<rparr>) s else s)"

definition sw_init_waitqueue_entry :: "u32 \<Rightarrow> u32 \<Rightarrow> wait_state \<Rightarrow> wait_state" where
  "sw_init_waitqueue_entry dflt q = sw_init_waitqueue_entry_func q dflt"

definition sw_set_task_state :: "u32 \<Rightarrow> wait_state \<Rightarrow> wait_state" where
  "sw_set_task_state st s = upd_glob (suspend_task (current_task_id (wglob s)) st) s"

definition sw_prepare_for_wait :: "u32 \<Rightarrow> u32 \<Rightarrow> u32 \<Rightarrow> wait_state \<Rightarrow> wait_state" where
  "sw_prepare_for_wait h q st s =
     sw_set_task_state st (if wq_self (wqs s q) then add_to_waitqueue h q s else s)"

definition sw_complete_wait :: "u32 \<Rightarrow> u32 \<Rightarrow> wait_state \<Rightarrow> panic + wait_state" where
  "sw_complete_wait h q s =
     (if wq_self (wqs s q) then Inr s
      else map_sum id (\<lambda>s'. upd_head h (\<lambda>x. x\<lparr>elements_count := elements_count x - 1\<rparr>)
             (upd_wq q (\<lambda>x. x\<lparr>wq_self := True\<rparr>) s')) (unlink h q s))"

definition sw_default_wake_function :: "u32 \<Rightarrow> u32 \<Rightarrow> wait_state \<Rightarrow> wait_state" where
  "sw_default_wake_function q flag s =
     (let task = wq_data (wqs s q);
          s1 = upd_glob (\<lambda>g. (if flag = WAKE_UP_IMMEDIATE then schedule_task_next else schedule_task) task
                 (upd_task task (\<lambda>t. t\<lparr>state := TASK_STATE_READY_TO_RUN\<rparr>) g)) s
      in if flag = WAKE_UP_IMMEDIATE then upd_glob scheduler s1 else s1)"

definition call_wake :: "u32 \<Rightarrow> (u32 \<Rightarrow> u32 \<Rightarrow> u32 \<Rightarrow> wait_state \<Rightarrow> wait_state) \<Rightarrow> u32 \<Rightarrow> u32 \<Rightarrow> wait_state \<Rightarrow> wait_state" where
  "call_wake dflt driver q flag s =
     (if wq_func (wqs s q) = dflt then sw_default_wake_function q flag s else driver (wq_func (wqs s q)) q flag s)"

definition sw_wakeup ::
  "u32 \<Rightarrow> (u32 \<Rightarrow> u32 \<Rightarrow> u32 \<Rightarrow> wait_state \<Rightarrow> wait_state) \<Rightarrow> u32 \<Rightarrow> u32 \<Rightarrow> wait_state \<Rightarrow> wait_state" where
  "sw_wakeup dflt driver h flag s =
     (case elements_list (heads s h) of [] \<Rightarrow> s | q # _ \<Rightarrow> call_wake dflt driver q flag s)"

text \<open>The loop follows the list while the wake functions run; none of the default ones changes it.\<close>

definition sw_wakeup_all ::
  "u32 \<Rightarrow> (u32 \<Rightarrow> u32 \<Rightarrow> u32 \<Rightarrow> wait_state \<Rightarrow> wait_state) \<Rightarrow> u32 \<Rightarrow> u32 \<Rightarrow> wait_state \<Rightarrow> wait_state" where
  "sw_wakeup_all dflt driver h flag s =
     fold (\<lambda>q. call_wake dflt driver q flag) (elements_list (heads s h)) s"

text \<open>
  The macro \<open>sw_wait_event\<close>: \<open>wait_event_enter\<close> is what happens before its loop, \<open>wait_event_round\<close>
  one round of the loop for the running task, up to the point where the task runs again. The
  result says whether the loop is left.
\<close>

definition wait_event_enter :: "u32 \<Rightarrow> u32 \<Rightarrow> wait_state \<Rightarrow> wait_state" where
  "wait_event_enter dflt q s =
     upd_wq q (\<lambda>_. \<lparr>wq_self = True, wq_data = current_or_null (wglob s), wq_func = dflt\<rparr>) s"

definition wait_event_round :: "bool \<Rightarrow> u32 \<Rightarrow> u32 \<Rightarrow> wait_state \<Rightarrow> panic + (bool \<times> wait_state)" where
  "wait_event_round condition h q s =
     (if condition then map_sum id (Pair True) (sw_complete_wait h q s)
      else Inr (False, upd_glob scheduler (sw_prepare_for_wait h q TASK_STATE_WAIT s)))"

definition resume_async_task ::
  "u32 \<Rightarrow> (u32 \<Rightarrow> u32 \<Rightarrow> u32 \<Rightarrow> wait_state \<Rightarrow> wait_state) \<Rightarrow> (u32 \<Rightarrow> u32) \<Rightarrow> u32 \<Rightarrow> wait_state \<Rightarrow> panic + wait_state" where
  "resume_async_task dflt driver wq_head_of i s =
     (case get_task i (wglob s) of
        None \<Rightarrow> Inl CORRUPTED
      | Some p \<Rightarrow> Inr (sw_wakeup dflt driver (wq_head_of p) WAKE_UP_IMMEDIATE s))"

section \<open>The queues stay consistent\<close>

definition wait_inv :: "wait_state \<Rightarrow> bool" where
  "wait_inv s \<longleftrightarrow>
     (\<forall>h. elements_count (heads s h) = int (length (elements_list (heads s h))) \<and> distinct (elements_list (heads s h)) \<and>
        (\<forall>q\<in>set (elements_list (heads s h)). \<not> wq_self (wqs s q))) \<and>
     (\<forall>h h' q. q \<in> set (elements_list (heads s h)) \<longrightarrow> q \<in> set (elements_list (heads s h')) \<longrightarrow> h = h')"

definition waiting :: "u32 \<Rightarrow> wait_state \<Rightarrow> bool" where
  "waiting q s \<longleftrightarrow> (\<exists>h. q \<in> set (elements_list (heads s h)))"

datatype wait_op = Enter u32 | Prepare u32 u32 u32 | Complete u32 u32 | Add u32 u32 | Remove u32 u32 |
  Wake u32 u32 | WakeAll u32 u32 | Init u32 u32

text \<open>
  A new element is not in a queue, an element completes a wait at the queue it waits on, and
  only elements of a queue are removed from it.
\<close>

fun wait_exec :: "u32 \<Rightarrow> wait_state \<Rightarrow> wait_op \<Rightarrow> wait_state" where
  "wait_exec dflt s (Enter q) = wait_event_enter dflt q s"
| "wait_exec dflt s (Prepare h q st) = sw_prepare_for_wait h q st s"
| "wait_exec dflt s (Complete h q) = (case sw_complete_wait h q s of Inl _ \<Rightarrow> s | Inr s' \<Rightarrow> s')"
| "wait_exec dflt s (Add h q) = sw_add_to_waitqueue h q s"
| "wait_exec dflt s (Remove h q) = (case sw_remove_from_waitqueue h q s of Inl _ \<Rightarrow> s | Inr s' \<Rightarrow> s')"
| "wait_exec dflt s (Wake h flag) = sw_wakeup dflt (\<lambda>_ _ _ s. s) h flag s"
| "wait_exec dflt s (WakeAll h flag) = sw_wakeup_all dflt (\<lambda>_ _ _ s. s) h flag s"
| "wait_exec dflt s (Init q f) = sw_init_waitqueue_entry_func q f s"

fun wait_legal :: "wait_state \<Rightarrow> wait_op \<Rightarrow> bool" where
  "wait_legal s (Enter q) = (\<not> waiting q s)"
| "wait_legal s (Prepare h q st) = True"
| "wait_legal s (Complete h q) = (wq_self (wqs s q) \<or> q \<in> set (elements_list (heads s h)))"
| "wait_legal s (Add h q) = (\<not> waiting q s)"
| "wait_legal s (Remove h q) = (q \<in> set (elements_list (heads s h)))"
| "wait_legal s _ = True"

lemma upd_proj [simp]:
  "wqs (upd_glob f s) = wqs s" "heads (upd_glob f s) = heads s" "wglob (upd_glob f s) = f (wglob s)"
  "wqs (upd_head h k s) = wqs s" "heads (upd_head h k s) = (heads s)(h := k (heads s h))" "wglob (upd_head h k s) = wglob s"
  "wqs (upd_wq q l s) = (wqs s)(q := l (wqs s q))" "heads (upd_wq q l s) = heads s" "wglob (upd_wq q l s) = wglob s"
  by (simp_all add: upd_glob_def upd_head_def upd_wq_def)

lemma wake_queues [simp]:
  "wqs (sw_default_wake_function q flag s) = wqs s" "heads (sw_default_wake_function q flag s) = heads s"
  by (simp_all add: sw_default_wake_function_def Let_def)

lemma call_wake_queues [simp]:
  "wqs (call_wake dflt (\<lambda>_ _ _ s. s) q flag s) = wqs s" "heads (call_wake dflt (\<lambda>_ _ _ s. s) q flag s) = heads s"
  by (simp_all add: call_wake_def)

lemma wakeup_queues [simp]:
  "wqs (sw_wakeup dflt (\<lambda>_ _ _ s. s) h flag s) = wqs s" "heads (sw_wakeup dflt (\<lambda>_ _ _ s. s) h flag s) = heads s"
  by (simp_all add: sw_wakeup_def split: list.split)

lemma wakeup_all_queues [simp]:
  "wqs (sw_wakeup_all dflt (\<lambda>_ _ _ s. s) h flag s) = wqs s" "heads (sw_wakeup_all dflt (\<lambda>_ _ _ s. s) h flag s) = heads s"
proof -
  have "wqs (fold (\<lambda>q. call_wake dflt (\<lambda>_ _ _ s. s) q flag) qs t) = wqs t \<and>
      heads (fold (\<lambda>q. call_wake dflt (\<lambda>_ _ _ s. s) q flag) qs t) = heads t" for qs t
    by (induction qs arbitrary: t) simp_all
  then show "wqs (sw_wakeup_all dflt (\<lambda>_ _ _ s. s) h flag s) = wqs s" "heads (sw_wakeup_all dflt (\<lambda>_ _ _ s. s) h flag s) = heads s"
    by (simp_all add: sw_wakeup_all_def)
qed

lemma wait_inv_cong: "wqs s' = wqs s \<Longrightarrow> heads s' = heads s \<Longrightarrow> wait_inv s' = wait_inv s"
  by (simp add: wait_inv_def)

lemma add_inv: "wait_inv s \<Longrightarrow> \<not> waiting q s \<Longrightarrow> wait_inv (add_to_waitqueue h q s)"
  unfolding wait_inv_def waiting_def add_to_waitqueue_def by auto

lemma self_not_waiting: "wait_inv s \<Longrightarrow> wq_self (wqs s q) \<Longrightarrow> \<not> waiting q s"
  by (auto simp: wait_inv_def waiting_def)

lemma upd_wq_inv:
  "wait_inv s \<Longrightarrow> \<not> waiting q s \<or> (\<not> wq_self (f (wqs s q))) \<Longrightarrow> wait_inv (upd_wq q f s)"
  unfolding wait_inv_def waiting_def by auto

lemma removed_inv:
  assumes "wait_inv s" "q \<in> set (elements_list (heads s h))"
  shows "wait_inv (upd_head h (\<lambda>x. x\<lparr>elements_list := remove1 q (elements_list x), elements_count := elements_count x - 1\<rparr>) s)"
    and "\<not> waiting q (upd_head h (\<lambda>x. x\<lparr>elements_list := remove1 q (elements_list x), elements_count := elements_count x - 1\<rparr>) s)"
  using assms unfolding wait_inv_def waiting_def
  by (auto simp: length_remove1 Suc_le_eq dest: length_pos_if_in_set)

lemma remove_eq:
  "q \<in> set (elements_list (heads s h)) \<Longrightarrow> sw_remove_from_waitqueue h q s =
     Inr (upd_head h (\<lambda>x. x\<lparr>elements_list := remove1 q (elements_list x), elements_count := elements_count x - 1\<rparr>) s)"
  by (simp add: sw_remove_from_waitqueue_def unlink_def upd_head_def)

lemma complete_eq:
  "wait_inv s \<Longrightarrow> q \<in> set (elements_list (heads s h)) \<Longrightarrow> sw_complete_wait h q s =
     Inr (upd_wq q (\<lambda>x. x\<lparr>wq_self := True\<rparr>)
       (upd_head h (\<lambda>x. x\<lparr>elements_list := remove1 q (elements_list x), elements_count := elements_count x - 1\<rparr>) s))"
  by (auto simp: sw_complete_wait_def unlink_def upd_head_def upd_wq_def wait_inv_def)

interpretation wait_ops: op_contract wait_inv wait_legal "wait_exec dflt" for dflt
proof
  fix s c assume inv: "wait_inv s" and ok: "wait_legal s c"
  show "wait_inv (wait_exec dflt s c)"
  proof (cases c)
    case (Complete h q)
    then show ?thesis
      using inv ok complete_eq [OF inv, of q h] removed_inv [OF inv, of q h]
      by (cases "wq_self (wqs s q)") (auto simp: sw_complete_wait_def intro!: upd_wq_inv)
  next
    case (Prepare h q st)
    then show ?thesis using inv add_inv self_not_waiting
      by (auto simp: sw_prepare_for_wait_def sw_set_task_state_def wait_inv_cong [of "upd_glob f t" t for f t])
  next
    case (Remove h q)
    then show ?thesis using inv ok removed_inv(1) by (simp add: remove_eq)
  next
    case (Init q f)
    have "wait_inv (upd_wq q (\<lambda>x. x\<lparr>wq_data := d, wq_func := f\<rparr>) s)" for d
      using inv by (cases "waiting q s") (auto intro!: upd_wq_inv simp: waiting_def wait_inv_def)
    then show ?thesis using inv Init by (simp add: sw_init_waitqueue_entry_func_def)
  qed (use inv ok in \<open>auto simp: wait_event_enter_def sw_add_to_waitqueue_def intro!: upd_wq_inv add_inv
        intro: wait_inv_cong [THEN iffD2]\<close>)
qed


text \<open>
  Over any sequence of queue operations by callers that keep to the rules above, the count of
  every wait queue is the length of its list, no element is in a queue twice or in two queues.
\<close>

theorem wait_queues_stay_consistent:
  assumes "wait_inv s" "wait_ops.legal dflt s cs"
  shows "let s' = wait_ops.run dflt s cs in
    elements_count (heads s' h) = int (length (elements_list (heads s' h))) \<and> distinct (elements_list (heads s' h)) \<and>
    (q \<in> set (elements_list (heads s' h)) \<longrightarrow> q \<in> set (elements_list (heads s' h')) \<longrightarrow> h = h')"
  using wait_ops.run_inv [OF assms] by (auto simp: wait_inv_def Let_def)

section \<open>Waiting and waking\<close>

lemma suspend_current:
  assumes "sched_ok g" "get_current_task g = Some c" "st \<noteq> TASK_STATE_SUSPEND"
  shows "suspend_task (current_task_id g) st g = upd_task c (\<lambda>t. t\<lparr>state := st\<rparr>) g"
  using assms by (simp add: suspend_task_def get_current_task_def Let_def)

lemma get_current_upd_state [simp]: "get_current_task (upd_task p (\<lambda>t. t\<lparr>state := st\<rparr>) g) = get_current_task g"
  by (rule get_current_task_cong) simp_all

lemma wait_switches:
  assumes "sched_ok g" "get_current_task g = Some c" "ready_to_run_list g = n # rest" "c \<notin> set (n # rest)"
  defines "g' \<equiv> scheduler (upd_task c (\<lambda>t. t\<lparr>state := TASK_STATE_WAIT\<rparr>) g)"
  shows "get_current_task g' = Some n" "ready_to_run_list g' = rest" "state (task_mem g' c) = TASK_STATE_WAIT"
    and "task_list g' = task_list g" "sched_ok g'"
proof -
  let ?g = "upd_task c (\<lambda>t. t\<lparr>state := TASK_STATE_WAIT\<rparr>) g"
  have nr: "\<not> runnable c ?g" by (simp add: runnable_def)
  have n: "n \<in> set (task_list ?g)" "n \<noteq> c" using assms(1,3,4) by (auto simp: sched_ok_def)
  have ok: "sched_ok ?g" using assms(1) by (simp add: sched_ok_cong [of ?g g])
  have g': "g' = switch_to n (Some c) (requeue (Some c) rest ?g)"
    unfolding g'_def using assms(2,3) n by (subst scheduler_switch [of _ n rest]) auto
  show "get_current_task g' = Some n" unfolding g' by (rule get_current_task_switch [OF ok n(1)])
  show "ready_to_run_list g' = rest" unfolding g' using nr by (simp add: requeue_def)
  show "state (task_mem g' c) = TASK_STATE_WAIT" unfolding g' using n by simp
  show "task_list g' = task_list g" by (simp add: g'_def)
  show "sched_ok g'" unfolding g'_def by (rule scheduler_ok [OF ok])
qed

text \<open>
  C20. A task that waits for an event (\<open>sw_wait_event\<close>) gives up the processor to the next ready task,
  takes it out of the ready list and is in the state of waiting; a wake-up of the queue by an
  ordinary element makes it ready again, behind all tasks that are ready, and leaves the running task
  as it is; when it then finds the condition true it leaves the wait and the queue is the one before.
  The theorem is for a task that is not in the ready list itself while another one is ready.
\<close>

theorem wait_then_wakeup:
  assumes "wait_inv s" "\<not> waiting q s" "sched_ok (wglob s)" "get_current_task (wglob s) = Some c"
    and "ready_to_run_list (wglob s) = n # rest" "c \<notin> set (n # rest)"
  shows "\<exists>s1 s2. wait_event_round False h q (wait_event_enter dflt q s) = Inr (False, s1) \<and>
    get_current_task (wglob s1) = Some n \<and> ready_to_run_list (wglob s1) = rest \<and>
    state (task_mem (wglob s1) c) = TASK_STATE_WAIT \<and>
    s2 = sw_wakeup dflt driver h WAKE_UP s1 \<and>
    get_current_task (wglob s2) = Some n \<and> ready_to_run_list (wglob s2) = rest @ [c] \<and>
    state (task_mem (wglob s2) c) = TASK_STATE_READY_TO_RUN \<and>
    (\<exists>s3. wait_event_round True h q s2 = Inr (True, s3) \<and> heads s3 h = heads s h)"
proof -
  let ?s0 = "wait_event_enter dflt q s"
  let ?sa = "add_to_waitqueue h q ?s0"
  have cur: "current_or_null (wglob s) = c" using assms(4) by (simp add: current_or_null_def)
  have s0: "wglob ?s0 = wglob s" "heads ?s0 = heads s"
      "wqs ?s0 q = \<lparr>wq_self = True, wq_data = c, wq_func = dflt\<rparr>"
    by (simp_all add: wait_event_enter_def cur)
  define g1 where "g1 = scheduler (upd_task c (\<lambda>t. t\<lparr>state := TASK_STATE_WAIT\<rparr>) (wglob s))"
  define s1 where "s1 = upd_glob (\<lambda>_. g1) ?sa"
  have susp: "suspend_task (current_task_id (wglob s)) TASK_STATE_WAIT (wglob s) =
      upd_task c (\<lambda>t. t\<lparr>state := TASK_STATE_WAIT\<rparr>) (wglob s)"
    using suspend_current [OF assms(3,4)] by (simp add: task_states)
  have ga: "wglob ?sa = wglob s" by (simp add: add_to_waitqueue_def s0)
  have "upd_glob scheduler (sw_prepare_for_wait h q TASK_STATE_WAIT ?s0) = s1"
    by (simp add: sw_prepare_for_wait_def sw_set_task_state_def s0 s1_def g1_def upd_glob_def ga susp)
  then have r1: "wait_event_round False h q ?s0 = Inr (False, s1)" by (simp add: wait_event_round_def)
  note sw = wait_switches [OF assms(3-6), folded g1_def]
  have q1: "elements_list (heads s1 h) = q # elements_list (heads s h)" "wqs s1 q = \<lparr>wq_self = False, wq_data = c, wq_func = dflt\<rparr>"
      "elements_count (heads s1 h) = elements_count (heads s h) + 1" "wglob s1 = g1"
    by (simp_all add: s1_def add_to_waitqueue_def s0)
  have wake: "sw_wakeup dflt driver h WAKE_UP t = upd_glob (\<lambda>g. schedule_task c (upd_task c (\<lambda>t. t\<lparr>state := TASK_STATE_READY_TO_RUN\<rparr>) g)) t"
    if "elements_list (heads t h) = q # elements_list (heads s h)" "wqs t q = wqs s1 q" for t
    using that q1(2) by (simp add: sw_wakeup_def call_wake_def sw_default_wake_function_def WAKE_UP_def WAKE_UP_IMMEDIATE_def)
  define s2 where "s2 = sw_wakeup dflt driver h WAKE_UP s1"
  have s2: "s2 = upd_glob (\<lambda>g. schedule_task c (upd_task c (\<lambda>t. t\<lparr>state := TASK_STATE_READY_TO_RUN\<rparr>) g)) s1"
    unfolding s2_def using q1(1) by (rule wake) simp
  have "get_current_task (wglob s2) = get_current_task g1"
    by (rule get_current_task_cong) (simp_all add: s2 schedule_task_def q1(4))
  moreover have "ready_to_run_list (wglob s2) = rest @ [c]" "state (task_mem (wglob s2) c) = TASK_STATE_READY_TO_RUN"
    using sw by (simp_all add: s2 schedule_task_def q1(4))
  moreover have "\<exists>s3. wait_event_round True h q s2 = Inr (True, s3) \<and> heads s3 h = heads s h"
    using q1 by (simp add: wait_event_round_def sw_complete_wait_def unlink_def s2)
  ultimately show ?thesis
    using r1 sw q1(4) by (intro exI [of _ s1] exI [of _ s2]) (simp add: s2_def [symmetric])
qed

section \<open>Sleeping\<close>

text \<open>
  Both functions without emulated interrupts. \<open>frame\<close> is the address of the local variable
  \<open>current_context\<close>, \<open>wake\<close> the address of \<open>wake_up_from_sleep\<close>. The state extends that of the timers
  by the tasks, so that the timer interrupt can call \<open>wake_up_from_sleep\<close> as one of its handlers. The
  timers and the tasks share the heaps. \<open>get_current_task_id\<close> is the number of the running task.
\<close>

record sleep_state = timer_state +
  sl_glob :: sw_global
  sl_frame :: "u32 \<Rightarrow> u32"

definition sleep_create :: "u32 \<Rightarrow> u32 \<Rightarrow> sleep_state \<Rightarrow> panic + (u32 \<times> sleep_state)" where
  "sleep_create wake frame s =
     (case timer_event_create wake frame (s\<lparr>theap := kheap (sl_glob s)\<rparr>) of
        Inl e \<Rightarrow> Inl e
      | Inr (ev, t) \<Rightarrow> Inr (ev, t\<lparr>sl_glob := (sl_glob s)\<lparr>kheap := theap t\<rparr>,
          sl_frame := (sl_frame s)(frame := current_task_id (sl_glob s))\<rparr>))"

definition on_tasks :: "(sw_global \<Rightarrow> sw_global) \<Rightarrow> sleep_state \<Rightarrow> sleep_state" where
  "on_tasks f s = s\<lparr>sl_glob := f (sl_glob s)\<rparr>"


definition sw_usleep :: "u32 \<Rightarrow> u32 \<Rightarrow> u32 \<Rightarrow> sleep_state \<Rightarrow> panic + sleep_state" where
  "sw_usleep wake frame usecs s =
     (case sleep_create wake frame s of
        Inl e \<Rightarrow> Inl e
      | Inr (ev, s1) \<Rightarrow>
          if ev = 0 then Inr s1
          else
            let s2 = on_tasks (suspend_task (sl_frame s1 frame) TASK_STATE_WAIT) s1;
                s3 = snd (timer_event_start ev (tv_join 0 (usecs * 1000)) s2)
            in Inr (on_tasks scheduler s3))"


lemma sleep_proj [simp]:
  "sl_glob (on_tasks f s) = f (sl_glob s)" "sl_frame (on_tasks f s) = sl_frame s" "active (on_tasks f s) = active s"
  "events (on_tasks f s) = events s" "stopped (on_tasks f s) = stopped s"
  by (simp_all add: on_tasks_def stopped_def)

lemma timer_sleep_proj [simp]:
  "sl_glob (snd (timer_event_start e t s)) = sl_glob s" "sl_frame (snd (timer_event_start e t s)) = sl_frame s"
  "sl_glob (snd (read_timestamp s)) = sl_glob s" "sl_frame (snd (read_timestamp s)) = sl_frame s"
  by (auto simp: timer_event_start_def program_tick_for_event_def trigger_tick_def timer_queue_add_def
      timer_event_set_expire_def upd_event_def read_timestamp_def Let_def split: prod.split)

lemma program_tick_sleep [simp]: "sl_glob (program_tick_for_event t s) = sl_glob s"
  by (auto simp: program_tick_for_event_def trigger_tick_def Let_def split: prod.split)
    (metis timer_sleep_proj(3) snd_conv)




section \<open>Instances\<close>

definition idle_queues :: wait_state where
  "idle_queues = \<lparr>wglob = two_tasks, wqs = (\<lambda>_. \<lparr>wq_self = True, wq_data = 0, wq_func = 0\<rparr>),
     heads = (\<lambda>_. \<lparr>elements_count = 0, elements_list = []\<rparr>)\<rparr>"

lemma idle_queues_inv: "wait_inv idle_queues" "\<not> waiting q idle_queues"
  by (simp_all add: wait_inv_def waiting_def idle_queues_def)

lemma two_tasks_lists:
  "ready_to_run_list two_tasks = 0x2000 # []" "0x1000 \<notin> set ((0x2000 :: u32) # [])"
  by (simp_all add: two_tasks_def)

theorem wait_queues_stay_consistent_witness:
  "elements_count (heads (wait_ops.run 0x9000 idle_queues [Enter 0x40, Prepare 0x80 0x40 1, Complete 0x80 0x40]) 0x80) = 0"
proof -
  let ?cs = "[Enter 0x40, Prepare 0x80 0x40 1, Complete 0x80 0x40]"
  have "wait_ops.legal 0x9000 idle_queues ?cs"
    using idle_queues_inv(2) by (simp add: sw_prepare_for_wait_def sw_set_task_state_def wait_event_enter_def add_to_waitqueue_def)
  moreover have "elements_list (heads (wait_ops.run 0x9000 idle_queues ?cs) 0x80) = []"
    by (simp add: sw_prepare_for_wait_def sw_set_task_state_def wait_event_enter_def add_to_waitqueue_def
        sw_complete_wait_def unlink_def) (simp add: idle_queues_def)
  ultimately show ?thesis
    using wait_queues_stay_consistent [OF idle_queues_inv(1), of "0x9000" ?cs "0x80" 0 "0x80"] unfolding Let_def
    by (simp del: wait_ops.run.simps)
qed

theorem wait_then_wakeup_witness:
  "\<exists>s1. wait_event_round False 0x80 0x40 (wait_event_enter 0x9000 0x40 idle_queues) = Inr (False, s1) \<and>
     ready_to_run_list (wglob (sw_wakeup 0x9000 (\<lambda>_ _ _ s. s) 0x80 WAKE_UP s1)) = [0x1000]"
proof -
  have "sched_ok (wglob idle_queues)" "get_current_task (wglob idle_queues) = Some 0x1000"
      "ready_to_run_list (wglob idle_queues) = 0x2000 # []"
    using two_tasks_ok two_tasks_current two_tasks_lists by (simp_all add: idle_queues_def)
  from wait_then_wakeup [OF idle_queues_inv this two_tasks_lists(2), of "0x80" "0x40" "0x9000" "\<lambda>_ _ _ s. s"]
  show ?thesis by auto
qed




end
