(* ===== verification/SecureApi.thy ===== *)
theory SecureApi
  imports SecureCodec SwMem SwWait
begin

text \<open>
  Sessions and commands (\<open>core/secure_api.c\<close>, \<open>apps/dispatcher_task.c\<close>, \<open>apps/task_control.c\<close>,
  \<open>arch/arm/armv7/cpu_ipi.c\<close> and the init and exit functions of the services).

  The world is what these functions share: the task and heap state (\<open>Tasks\<close>), the page table
  (\<open>PageTable\<close>, on the same heaps) and the memory. The normal world runs beside the secure
  kernel: \<open>ns_writes n\<close> are the bytes it stores between the reads number \<open>n - 1\<close> and \<open>n\<close> of the
  memory, so that two reads of one shared word may differ. A statement \<open>M\<close> of the C code is a
  function from the world to a panic or a result and a world; \<open>andthen\<close> runs two of them in
  order.

  Not under verification here and therefore a parameter: the addresses the linker gives to
  the entry points, the ELF loader, the hypervisor's boot event, wake functions of drivers and
  the functions the services process commands with (\<open>kernel_image\<close>; theory \<open>EchoTask\<close> gives the
  latter for two services). Local variables that the code fetches without having set them are
  arguments named \<open>junk\<close>.
\<close>

section \<open>The world\<close>

record sw_world =
  glob :: sw_global
  ptab :: pt_state
  dram :: mem
  fetches :: nat
  ns_writes :: "nat \<Rightarrow> u32 \<Rightarrow> u8 option"
  params_stack :: "u32 list"
  valid_params_flag :: bool
  g_dispatch_data :: u32
  secure_api_set :: bool
  secure_api_ret_val :: u32
  secure_interrupt_set :: bool
  notify_data :: u32
  wq_elems :: "u32 \<Rightarrow> wait_queue"
  wq_heads :: "u32 \<Rightarrow> wait_queue_head"
  returned :: "u32 list"

type_synonym 'a wm = "sw_world \<Rightarrow> panic + ('a \<times> sw_world)"

definition ret :: "'a \<Rightarrow> 'a wm" where "ret x w = Inr (x, w)"

definition andthen :: "'a wm \<Rightarrow> ('a \<Rightarrow> 'b wm) \<Rightarrow> 'b wm" where
  "andthen f g w = (case f w of Inl e \<Rightarrow> Inl e | Inr (x, w') \<Rightarrow> g x w')"

definition crash :: "'a wm" where "crash w = Inl CORRUPTED"

text \<open>The page table works on the kernel's heaps.\<close>

definition pt_of :: "sw_world \<Rightarrow> pt_state" where
  "pt_of w = (ptab w)\<lparr>heap := kheap (glob w)\<rparr>"

definition put_pt :: "pt_state \<Rightarrow> sw_world \<Rightarrow> sw_world" where
  "put_pt s w = w\<lparr>ptab := s, glob := (glob w)\<lparr>kheap := heap s\<rparr>\<rparr>"

definition seen :: "sw_world \<Rightarrow> mem" where
  "seen w = (\<lambda>x. case ns_writes w (fetches w) x of Some b \<Rightarrow> b | None \<Rightarrow> dram w x)"

definition fetch32 :: "u32 \<Rightarrow> u32 wm" where
  "fetch32 a w = Inr (read32 (seen w) a, w\<lparr>dram := seen w, fetches := fetches w + 1\<rparr>)"

definition store32 :: "u32 \<Rightarrow> u32 \<Rightarrow> unit wm" where
  "store32 a v w = Inr ((), w\<lparr>dram := write32 a v (dram w)\<rparr>)"

text \<open>The result code of \<open>map_to_ns\<close> and the pointer, still null if it was not set.\<close>

definition map_ptr :: "u32 \<Rightarrow> (int \<times> u32) wm" where
  "map_ptr p w =
     (case map_to_ns p (pt_of w) of
        Inl e \<Rightarrow> Inl e
      | Inr (r, v, s) \<Rightarrow> Inr ((r, case v of Some a \<Rightarrow> a | None \<Rightarrow> 0), put_pt s w))"

definition unmap_ptr :: "u32 \<Rightarrow> unit wm" where
  "unmap_ptr v w = Inr ((), put_pt (snd (unmap_from_ns v (pt_of w))) w)"

definition unmap_if :: "u32 \<Rightarrow> unit wm" where
  "unmap_if v = (if v \<noteq> 0 then unmap_ptr v else ret ())"

definition malloc_here :: "u32 \<Rightarrow> u32 wm" where
  "malloc_here sz w =
     (case sw_malloc (sint (current_task_id (glob w))) sz (kheap (glob w)) of
        Inl e \<Rightarrow> Inl e
      | Inr (p, h) \<Rightarrow> Inr (p, w\<lparr>glob := (glob w)\<lparr>kheap := h\<rparr>\<rparr>))"

definition malloc_common :: "u32 \<Rightarrow> u32 wm" where
  "malloc_common sz w =
     (case sw_malloc_private COMMON_HEAP_ID sz (kheap (glob w)) of
        Inl e \<Rightarrow> Inl e
      | Inr (p, h) \<Rightarrow> Inr (p, w\<lparr>glob := (glob w)\<lparr>kheap := h\<rparr>\<rparr>))"

definition free_here :: "u32 \<Rightarrow> unit wm" where
  "free_here p w = Inr ((), w\<lparr>glob := with_heap (sw_free (sint (current_task_id (glob w))) p) (glob w)\<rparr>)"

definition memset_at :: "u32 \<Rightarrow> u32 \<Rightarrow> u32 \<Rightarrow> unit wm" where
  "memset_at p c n w = Inr ((), w\<lparr>dram := snd (sw_memset p c n (dram w))\<rparr>)"

section \<open>The services\<close>

definition OTZ_SVC_INVALID :: u32 where "OTZ_SVC_INVALID = 0"
definition TASK_STACK_SIZE :: u32 where "TASK_STACK_SIZE = 2048"
definition ELF_FLAG :: u32 where "ELF_FLAG = 0x7245"
definition ELF_FLAG_MAP :: u32 where "ELF_FLAG_MAP = 0x5859"
definition SIZEOF_ECHO_GLOBAL :: u32 where "SIZEOF_ECHO_GLOBAL = 4"
definition SIZEOF_DRM_GLOBAL :: u32 where "SIZEOF_DRM_GLOBAL = 4"
definition SIZEOF_CRYPTO_GLOBAL :: u32 where "SIZEOF_CRYPTO_GLOBAL = 0"
definition SIZEOF_DISPATCH_GLOBAL :: u32 where "SIZEOF_DISPATCH_GLOBAL = 8"

record kernel_image =
  at_dispatch_task :: u32
  at_echo_task :: u32
  at_echo_svc :: u32
  at_drm_task :: u32
  at_drm_svc :: u32
  at_crypto_task :: u32
  at_crypto_svc :: u32
  elf_load :: "sa_config \<Rightarrow> (int \<times> sa_config) wm"
  elf_loader_cleanup :: "unit wm"
  boot_ack :: "unit wm"
  spsr_init :: u32
  at_default_wake :: u32
  driver_wake :: "u32 \<Rightarrow> u32 \<Rightarrow> u32 \<Rightarrow> wait_state \<Rightarrow> wait_state"
  services :: "u32 \<Rightarrow> u32 \<Rightarrow> u32 \<Rightarrow> u32 \<Rightarrow> u32 \<Rightarrow> u32 \<Rightarrow> u32 \<Rightarrow> u32 \<Rightarrow> u32 wm"

definition blank_config :: sa_config where
  "blank_config = \<lparr>service_uuid = 0, service_name = [], stack_size = 0, entry_point = 0, elf_flag = 0,
     process = 0, sa_data = 0\<rparr>"

definition dispatch_task_init :: "kernel_image \<Rightarrow> (int \<times> sa_config) wm" where
  "dispatch_task_init img =
     andthen (malloc_common SIZEOF_DISPATCH_GLOBAL) (\<lambda>p.
       let cfg = blank_config\<lparr>service_uuid := OTZ_SVC_GLOBAL, service_name := ''dispatcher'',
             stack_size := TASK_STACK_SIZE, entry_point := at_dispatch_task img, sa_data := p\<rparr>
       in if p = 0 then ret (OTZ_ENOMEM, cfg)
          else andthen (memset_at p 0 SIZEOF_DISPATCH_GLOBAL) (\<lambda>_ w.
            Inr ((OTZ_OK, cfg), w\<lparr>g_dispatch_data := p, secure_api_set := False, secure_api_ret_val := 0\<rparr>)))"

text \<open>\<open>echo_task_init\<close> sets the entry points only after the allocation has succeeded.\<close>

definition echo_task_init :: "kernel_image \<Rightarrow> (int \<times> sa_config) wm" where
  "echo_task_init img =
     andthen (malloc_here SIZEOF_ECHO_GLOBAL) (\<lambda>p.
       let cfg = blank_config\<lparr>service_uuid := OTZ_SVC_ECHO, service_name := ''echo'',
             stack_size := TASK_STACK_SIZE, sa_data := p\<rparr>
       in if p = 0 then ret (OTZ_ENOMEM, cfg)
          else andthen (memset_at p 0 SIZEOF_ECHO_GLOBAL) (\<lambda>_.
            ret (OTZ_OK, cfg\<lparr>entry_point := at_echo_task img, process := at_echo_svc img\<rparr>)))"

definition drm_task_init :: "kernel_image \<Rightarrow> (int \<times> sa_config) wm" where
  "drm_task_init img =
     andthen (malloc_here SIZEOF_DRM_GLOBAL) (\<lambda>p.
       let cfg = blank_config\<lparr>service_uuid := OTZ_SVC_DRM, service_name := ''drm'', stack_size := TASK_STACK_SIZE,
             entry_point := at_drm_task img, process := at_drm_svc img, sa_data := p\<rparr>
       in if p = 0 then ret (OTZ_ENOMEM, cfg)
          else andthen (memset_at p 0 SIZEOF_DRM_GLOBAL) (\<lambda>_. ret (OTZ_OK, cfg)))"

definition crypto_task_init :: "kernel_image \<Rightarrow> (int \<times> sa_config) wm" where
  "crypto_task_init img =
     andthen (malloc_here SIZEOF_CRYPTO_GLOBAL) (\<lambda>p.
       let cfg = blank_config\<lparr>service_uuid := OTZ_SVC_CRYPT, service_name := ''crypto'', stack_size := TASK_STACK_SIZE,
             entry_point := at_crypto_task img, process := at_crypto_svc img, sa_data := p\<rparr>
       in ret (if p = 0 then OTZ_ENOMEM else OTZ_OK, cfg))"

text \<open>The last two services are ELF files; their entry points are set when they are loaded.\<close>

definition mutex_test_task_init :: "(int \<times> sa_config) wm" where
  "mutex_test_task_init = ret (OTZ_OK, blank_config\<lparr>service_uuid := OTZ_SVC_MUTEX_TEST,
     service_name := ''otz_mutex_test'', stack_size := TASK_STACK_SIZE, elf_flag := ELF_FLAG\<rparr>)"

definition virtual_keyboard_task_init :: "(int \<times> sa_config) wm" where
  "virtual_keyboard_task_init = ret (OTZ_OK, blank_config\<lparr>service_uuid := OTZ_SVC_VIRTUAL_KEYBOARD,
     service_name := ''virtual_keyboard'', stack_size := TASK_STACK_SIZE, elf_flag := ELF_FLAG\<rparr>)"

text \<open>All exit functions have the same body.\<close>

definition task_exit :: "u32 \<Rightarrow> int wm" where
  "task_exit d = (if d \<noteq> 0 then andthen (free_here d) (\<lambda>_. ret OTZ_OK) else ret OTZ_OK)"

text \<open>
  As built with the display (\<open>CONFIG_GUI_SUPPORT\<close>) and the ELF loader. Without the display an unknown service
  falls through to a test of the configuration, which has not been set.
\<close>

definition sa_create_entry_point :: "kernel_image \<Rightarrow> sa_config \<Rightarrow> u32 \<Rightarrow> (int \<times> sa_config) wm" where
  "sa_create_entry_point img junk svc_id =
     (let loaded = (\<lambda>init. andthen init (\<lambda>(r, cfg).
            if r \<noteq> OTZ_OK then ret (- 1, cfg)
            else if elf_flag cfg = ELF_FLAG then elf_load img cfg else ret (OTZ_OK, cfg)))
      in if svc_id = OTZ_SVC_ECHO then loaded (echo_task_init img)
         else if svc_id = OTZ_SVC_DRM then loaded (drm_task_init img)
         else if svc_id = OTZ_SVC_CRYPT then loaded (crypto_task_init img)
         else if svc_id = OTZ_SVC_MUTEX_TEST then loaded mutex_test_task_init
         else if svc_id = OTZ_SVC_GLOBAL then dispatch_task_init img
         else if svc_id = OTZ_SVC_VIRTUAL_KEYBOARD then loaded virtual_keyboard_task_init
         else ret (- 1, junk))"

definition sa_destroy_entry_point :: "kernel_image \<Rightarrow> u32 \<Rightarrow> u32 \<Rightarrow> u32 \<Rightarrow> int wm" where
  "sa_destroy_entry_point img svc_id d flag =
     andthen (if flag = ELF_FLAG_MAP then elf_loader_cleanup img else ret ()) (\<lambda>_.
       if svc_id = OTZ_SVC_ECHO \<or> svc_id = OTZ_SVC_DRM \<or> svc_id = OTZ_SVC_CRYPT \<or> svc_id = OTZ_SVC_MUTEX_TEST \<or>
          svc_id = OTZ_SVC_GLOBAL \<or> svc_id = OTZ_SVC_VIRTUAL_KEYBOARD
       then task_exit d else ret OTZ_EFAIL)"

section \<open>Sessions\<close>

text \<open>The number of the new task, or -1, is stored before and after the creation.\<close>

definition sa_open_session :: "sa_config \<Rightarrow> u32 \<Rightarrow> int wm" where
  "sa_open_session cfg session_context w =
     (case create_task cfg (glob w) of
        Inl e \<Rightarrow> Inl e
      | Inr (r, i, g) \<Rightarrow> Inr (r, w\<lparr>glob := g, dram := write32 session_context i (dram w)\<rparr>))"

definition sa_close_session :: "u32 \<Rightarrow> int wm" where
  "sa_close_session session_id w = (case destroy_task session_id (glob w) of (r, g) \<Rightarrow> Inr (r, w\<lparr>glob := g\<rparr>))"

text \<open>\<open>struct otz_smc_cmd\<close>, all fields 32 bits wide.\<close>

datatype smc_field = Id | Context | Enc_id | Src_id | Src_context | Req_buf_len | Resp_buf_len |
  Ret_resp_buf_len | Cmd_status | Req_buf_phys | Resp_buf_phys | Meta_data_phys | Dev_file_id

fun smc_off :: "smc_field \<Rightarrow> u32" where
  "smc_off Id = 0" | "smc_off Context = 4" | "smc_off Enc_id = 8" | "smc_off Src_id = 12"
| "smc_off Src_context = 16" | "smc_off Req_buf_len = 20" | "smc_off Resp_buf_len = 24"
| "smc_off Ret_resp_buf_len = 28" | "smc_off Cmd_status = 32" | "smc_off Req_buf_phys = 36"
| "smc_off Resp_buf_phys = 40" | "smc_off Meta_data_phys = 44" | "smc_off Dev_file_id = 48"

definition get_field :: "smc_field \<Rightarrow> u32 \<Rightarrow> u32 wm" where "get_field f cmd = fetch32 (cmd + smc_off f)"
definition set_field :: "smc_field \<Rightarrow> u32 \<Rightarrow> u32 \<Rightarrow> unit wm" where "set_field f cmd v = store32 (cmd + smc_off f) v"

definition OTZ_STATUS_INCOMPLETE :: u32 where "OTZ_STATUS_INCOMPLETE = 0"
definition OTZ_STATUS_COMPLETE :: u32 where "OTZ_STATUS_COMPLETE = 1"

text \<open>The label \<open>ret_func\<close> of both session functions.\<close>

definition release_session :: "u32 \<Rightarrow> u32 \<Rightarrow> u32 \<Rightarrow> int \<Rightarrow> int wm" where
  "release_session svc_id session_context cmd r =
     andthen (unmap_if svc_id) (\<lambda>_. andthen (unmap_if session_context) (\<lambda>_. andthen (unmap_if cmd) (\<lambda>_. ret r)))"

definition open_session_body :: "kernel_image \<Rightarrow> sa_config \<Rightarrow> u32 \<Rightarrow> u32 \<Rightarrow> u32 \<Rightarrow> int wm" where
  "open_session_body img junk svc_id session_context cmd =
     andthen (fetch32 svc_id) (\<lambda>svc. andthen (sa_create_entry_point img junk svc) (\<lambda>(r, cfg).
       andthen (if r = OTZ_OK then sa_open_session cfg session_context else ret r) (\<lambda>r.
         andthen (if r \<noteq> OTZ_OK
                  then andthen (fetch32 svc_id) (\<lambda>svc. andthen (sa_destroy_entry_point img svc (sa_data cfg) (elf_flag cfg)) (\<lambda>_.
                         set_field Cmd_status cmd OTZ_STATUS_INCOMPLETE))
                  else andthen (fetch32 session_context) (\<lambda>_. andthen (set_field Ret_resp_buf_len cmd 4) (\<lambda>_.
                         set_field Cmd_status cmd OTZ_STATUS_COMPLETE))) (\<lambda>_. ret r))))"

definition open_session_from_ns :: "kernel_image \<Rightarrow> sa_config \<Rightarrow> u32 \<Rightarrow> int wm" where
  "open_session_from_ns img junk param =
     andthen (map_ptr param) (\<lambda>(r, cmd).
       if r \<noteq> 0 then release_session 0 0 cmd OTZ_ENOMEM
       else andthen (get_field Resp_buf_len cmd) (\<lambda>len.
         if len = 0 then release_session 0 0 cmd OTZ_EFAIL
         else andthen (get_field Resp_buf_phys cmd) (\<lambda>resp. andthen (map_ptr resp) (\<lambda>(r, session_context).
           if r \<noteq> 0 then release_session 0 session_context cmd OTZ_ENOMEM
           else andthen (get_field Req_buf_phys cmd) (\<lambda>req. andthen (map_ptr req) (\<lambda>(r, svc_id).
             if r \<noteq> 0 then release_session svc_id session_context cmd OTZ_ENOMEM
             else andthen (fetch32 svc_id) (\<lambda>svc.
               if svc = OTZ_SVC_INVALID then release_session svc_id session_context cmd OTZ_EFAIL
               else andthen (open_session_body img junk svc_id session_context cmd)
                      (release_session svc_id session_context cmd))))))))"

text \<open>A session that does not exist has no local storage: the code then reads from address zero.\<close>

definition close_session_body :: "kernel_image \<Rightarrow> u32 \<Rightarrow> u32 \<Rightarrow> u32 \<Rightarrow> unit wm" where
  "close_session_body img svc_id session_context cmd =
     andthen (fetch32 session_context) (\<lambda>session w.
       case get_task_tls session (glob w) of
         None \<Rightarrow> crash w
       | Some t \<Rightarrow>
           andthen (fetch32 svc_id) (\<lambda>svc. andthen (\<lambda>w. sa_destroy_entry_point img svc (private_data (tls_mem (glob w) t))
               (tls_elf_flag (tls_mem (glob w) t)) w) (\<lambda>_.
             andthen (fetch32 session_context) (\<lambda>session. andthen (sa_close_session session) (\<lambda>_.
               set_field Cmd_status cmd OTZ_STATUS_COMPLETE)))) w)"

text \<open>On success the result is the uninitialised \<open>ret_val\<close>.\<close>

definition close_session_from_ns :: "kernel_image \<Rightarrow> int \<Rightarrow> u32 \<Rightarrow> int wm" where
  "close_session_from_ns img junk param =
     andthen (map_ptr param) (\<lambda>(r, cmd).
       if r \<noteq> 0 then release_session 0 0 cmd OTZ_ENOMEM
       else andthen (get_field Req_buf_len cmd) (\<lambda>len.
         if len = 0 then release_session 0 0 cmd OTZ_EFAIL
         else andthen (get_field Req_buf_phys cmd) (\<lambda>req. andthen (map_ptr req) (\<lambda>(r, svc_id).
           if r \<noteq> 0 then release_session svc_id 0 cmd OTZ_ENOMEM
           else andthen (get_field Resp_buf_phys cmd) (\<lambda>resp. andthen (map_ptr resp) (\<lambda>(r, session_context).
             if r \<noteq> 0 then release_session svc_id session_context cmd OTZ_ENOMEM
             else andthen (close_session_body img svc_id session_context cmd)
                    (\<lambda>_. release_session svc_id session_context cmd junk)))))))"

definition open_session_from_secure :: "kernel_image \<Rightarrow> sa_config \<Rightarrow> u32 \<Rightarrow> u32 \<Rightarrow> int wm" where
  "open_session_from_secure img junk svc_id session_id =
     (if svc_id = OTZ_SVC_INVALID then ret OTZ_EFAIL
      else andthen (sa_create_entry_point img junk svc_id) (\<lambda>(r, cfg).
        andthen (if r = OTZ_OK then sa_open_session cfg session_id else ret r) (\<lambda>r.
          if r = OTZ_OK then ret r
          else andthen (sa_destroy_entry_point img svc_id (sa_data cfg) (elf_flag cfg)) (\<lambda>_. ret r))))"

definition close_session_from_secure :: "kernel_image \<Rightarrow> u32 \<Rightarrow> u32 \<Rightarrow> int wm" where
  "close_session_from_secure img svc_id session_id w =
     (case get_task_tls session_id (glob w) of
        None \<Rightarrow> crash w
      | Some t \<Rightarrow>
          andthen (sa_destroy_entry_point img svc_id (private_data (tls_mem (glob w) t)) (tls_elf_flag (tls_mem (glob w) t))) (\<lambda>_.
            andthen (sa_close_session session_id) (\<lambda>_. ret OTZ_OK)) w)"

definition ipc_connect :: "kernel_image \<Rightarrow> sa_config \<Rightarrow> u32 \<Rightarrow> u32 \<Rightarrow> int wm" where
  "ipc_connect = open_session_from_secure"

definition ipc_disconnect :: "kernel_image \<Rightarrow> u32 \<Rightarrow> u32 \<Rightarrow> int wm" where
  "ipc_disconnect = close_session_from_secure"


section \<open>Commands\<close>

definition SMC_SUCCESS :: u32 where "SMC_SUCCESS = 0"
definition SMC_PENDING :: u32 where "SMC_PENDING = 1"
definition SMC_ERROR :: u32 where "SMC_ERROR = 3"
definition SMC_EINVAL_ARG :: u32 where "SMC_EINVAL_ARG = 4"
definition SMC_EOPNOTSUPP :: u32 where "SMC_EOPNOTSUPP = 6"
definition SMC_ENOMEM :: u32 where "SMC_ENOMEM = 7"

definition OTZ_CMD_TYPE_NS_TO_SECURE :: u32 where "OTZ_CMD_TYPE_NS_TO_SECURE = 1"
definition OTZ_CMD_TYPE_SECURE_TO_SECURE :: u32 where "OTZ_CMD_TYPE_SECURE_TO_SECURE = 3"
definition CALL_TRUSTZONE_API :: u32 where "CALL_TRUSTZONE_API = 1"

definition OTZ_GLOBAL_CMD_ID_INVALID :: u32 where "OTZ_GLOBAL_CMD_ID_INVALID = 0"
definition OTZ_GLOBAL_CMD_ID_BOOT_ACK :: u32 where "OTZ_GLOBAL_CMD_ID_BOOT_ACK = 1"
definition OTZ_GLOBAL_CMD_ID_OPEN_SESSION :: u32 where "OTZ_GLOBAL_CMD_ID_OPEN_SESSION = 2"
definition OTZ_GLOBAL_CMD_ID_CLOSE_SESSION :: u32 where "OTZ_GLOBAL_CMD_ID_CLOSE_SESSION = 3"
definition OTZ_GLOBAL_CMD_ID_REGISTER_NOTIFY_MEMORY :: u32 where "OTZ_GLOBAL_CMD_ID_REGISTER_NOTIFY_MEMORY = 4"
definition OTZ_GLOBAL_CMD_ID_UNREGISTER_NOTIFY_MEMORY :: u32 where "OTZ_GLOBAL_CMD_ID_UNREGISTER_NOTIFY_MEMORY = 5"
definition OTZ_GLOBAL_CMD_ID_RESUME_ASYNC_TASK :: u32 where "OTZ_GLOBAL_CMD_ID_RESUME_ASYNC_TASK = 6"

lemmas smc_consts = SMC_SUCCESS_def SMC_PENDING_def SMC_ERROR_def SMC_EINVAL_ARG_def SMC_EOPNOTSUPP_def SMC_ENOMEM_def
  OTZ_CMD_TYPE_NS_TO_SECURE_def OTZ_CMD_TYPE_SECURE_TO_SECURE_def CALL_TRUSTZONE_API_def
lemmas global_cmds = OTZ_GLOBAL_CMD_ID_INVALID_def OTZ_GLOBAL_CMD_ID_BOOT_ACK_def OTZ_GLOBAL_CMD_ID_OPEN_SESSION_def
  OTZ_GLOBAL_CMD_ID_CLOSE_SESSION_def OTZ_GLOBAL_CMD_ID_REGISTER_NOTIFY_MEMORY_def
  OTZ_GLOBAL_CMD_ID_UNREGISTER_NOTIFY_MEMORY_def OTZ_GLOBAL_CMD_ID_RESUME_ASYNC_TASK_def

definition on_glob :: "(sw_global \<Rightarrow> sw_global) \<Rightarrow> unit wm" where
  "on_glob f w = Inr ((), w\<lparr>glob := f (glob w)\<rparr>)"

definition svc_of :: "u32 \<Rightarrow> u32" where "svc_of i = drop_bit 10 i AND 0x3ff"
definition cmd_of :: "u32 \<Rightarrow> u32" where "cmd_of i = i AND 0x3ff"

text \<open>The results are the service, the session, the command and the type of the command.\<close>

definition get_api_context :: "(u32 \<times> u32 \<times> u32 \<times> u32) wm" where
  "get_api_context w =
     (let cmd_type = params_stack w ! 2;
          decode = (\<lambda>cmd. andthen (get_field Id cmd) (\<lambda>i. andthen (get_field Id cmd) (\<lambda>j. andthen (get_field Context cmd) (\<lambda>c.
            ret (svc_of i, c, cmd_of j, cmd_type)))))
      in if cmd_type = OTZ_CMD_TYPE_NS_TO_SECURE
         then andthen (map_ptr (params_stack w ! 1)) (\<lambda>(r, cmd).
                if r \<noteq> 0 then ret (OTZ_SVC_INVALID, 0, OTZ_GLOBAL_CMD_ID_INVALID, cmd_type)
                else andthen (decode cmd) (\<lambda>x. andthen (unmap_ptr cmd) (\<lambda>_. ret x))) w
         else decode (params_stack w ! 1) w)"

definition set_secure_api_ret :: "u32 \<Rightarrow> unit wm" where
  "set_secure_api_ret r w = Inr ((), w\<lparr>secure_api_set := True, secure_api_ret_val := r\<rparr>)"

definition register_notify_data :: "u32 \<Rightarrow> int wm" where
  "register_notify_data phys =
     andthen (map_ptr phys) (\<lambda>(r, d) w. if r \<noteq> 0 then Inr (OTZ_ENOMEM, w) else Inr (OTZ_OK, w\<lparr>notify_data := d\<rparr>))"

definition unregister_notify_data :: "unit wm" where
  "unregister_notify_data = andthen (\<lambda>w. unmap_if (notify_data w) w) (\<lambda>_ w. Inr ((), w\<lparr>notify_data := 0\<rparr>))"

definition register_notify_data_api :: "u32 \<Rightarrow> int wm" where
  "register_notify_data_api param =
     andthen (map_ptr param) (\<lambda>(r, cmd).
       andthen (if r \<noteq> 0 then ret OTZ_ENOMEM else andthen (get_field Req_buf_phys cmd) register_notify_data) (\<lambda>r.
         andthen (unmap_if cmd) (\<lambda>_. ret r)))"

definition unregister_notify_data_api :: "int wm" where
  "unregister_notify_data_api = andthen unregister_notify_data (\<lambda>_. ret OTZ_OK)"

text \<open>\<open>struct otzc_notify_data\<close> holds the file, the service, the process, the session and the context.\<close>

definition set_notify_data :: "u32 \<Rightarrow> u32 \<Rightarrow> u32 \<Rightarrow> u32 \<Rightarrow> u32 \<Rightarrow> unit wm" where
  "set_notify_data svc_id session_id enc_id client_pid dev_file_id w =
     (let p = notify_data w
      in if p \<noteq> 0
         then andthen (store32 (p + 4) svc_id) (\<lambda>_. andthen (store32 (p + 12) session_id) (\<lambda>_.
                andthen (store32 (p + 16) enc_id) (\<lambda>_. andthen (store32 (p + 8) client_pid) (\<lambda>_. store32 p dev_file_id)))) w
         else Inr ((), w))"

definition wait_of :: "sw_world \<Rightarrow> wait_state" where
  "wait_of w = \<lparr>wglob = glob w, wqs = wq_elems w, heads = wq_heads w\<rparr>"

text \<open>The wait queue inside the task structure at \<open>p\<close> is the one with address \<open>p\<close>.\<close>

definition resume_task :: "kernel_image \<Rightarrow> u32 \<Rightarrow> unit wm" where
  "resume_task img i w =
     (case resume_async_task (at_default_wake img) (driver_wake img) id i (wait_of w) of
        Inl e \<Rightarrow> Inl e
      | Inr s \<Rightarrow> Inr ((), w\<lparr>glob := wglob s, wq_elems := wqs s, wq_heads := heads s\<rparr>))"

definition reply_code :: "int \<Rightarrow> u32" where
  "reply_code r = (if r = OTZ_ENOMEM then SMC_ENOMEM else if r = OTZ_EFAIL then SMC_ERROR else 0)"

definition return_secure_api :: "u32 \<Rightarrow> unit wm" where
  "return_secure_api r w = Inr ((), w\<lparr>returned := returned w @ [r]\<rparr>)"

text \<open>
  One round of the dispatcher's loop up to \<open>schedule()\<close>, and the rest of the round. \<open>ns_only\<close> is
  the inner test of the branches for the global service.
\<close>

definition dispatch_command :: "kernel_image \<Rightarrow> sa_config \<Rightarrow> int \<Rightarrow> unit wm" where
  "dispatch_command img junk junk_ret w =
     (let ps = params_stack w
      in if secure_interrupt_set w then return_secure_api 0 (w\<lparr>secure_interrupt_set := False\<rparr>)
         else if valid_params_flag w \<and> ps ! 0 = CALL_TRUSTZONE_API
         then andthen get_api_context (\<lambda>(svc_id, tid, cmd_id, cmd_type).
                let ns_only = (\<lambda>f. if cmd_type = OTZ_CMD_TYPE_NS_TO_SECURE then f else ret ());
                    reply = (\<lambda>r. set_secure_api_ret (reply_code r))
                in if svc_id = OTZ_SVC_GLOBAL \<and> cmd_id = OTZ_GLOBAL_CMD_ID_BOOT_ACK
                   then andthen (ns_only (boot_ack img)) (\<lambda>_. set_secure_api_ret 0)
                   else if svc_id = OTZ_SVC_GLOBAL \<and> cmd_id = OTZ_GLOBAL_CMD_ID_OPEN_SESSION
                   then ns_only (andthen (open_session_from_ns img junk (ps ! 1)) reply)
                   else if svc_id = OTZ_SVC_GLOBAL \<and> cmd_id = OTZ_GLOBAL_CMD_ID_CLOSE_SESSION
                   then ns_only (andthen (close_session_from_ns img junk_ret (ps ! 1)) reply)
                   else if svc_id = OTZ_SVC_GLOBAL \<and> cmd_id = OTZ_GLOBAL_CMD_ID_REGISTER_NOTIFY_MEMORY
                   then ns_only (andthen (register_notify_data_api (ps ! 1)) reply)
                   else if svc_id = OTZ_SVC_GLOBAL \<and> cmd_id = OTZ_GLOBAL_CMD_ID_UNREGISTER_NOTIFY_MEMORY
                   then ns_only (andthen unregister_notify_data_api reply)
                   else if svc_id = OTZ_SVC_GLOBAL \<and> cmd_id = OTZ_GLOBAL_CMD_ID_RESUME_ASYNC_TASK
                   then ns_only (if tid \<noteq> 0 then resume_task img tid else ret ())
                   else if svc_id \<noteq> OTZ_SVC_INVALID \<and> tid \<noteq> 0 \<and> cmd_id \<noteq> OTZ_GLOBAL_CMD_ID_INVALID
                   then on_glob (\<lambda>g. snd (start_task (spsr_init img) tid (Some ps) g))
                   else set_secure_api_ret 0) (w\<lparr>valid_params_flag := False\<rparr>)
         else Inr ((), w))"

definition dispatch_reply :: "unit wm" where
  "dispatch_reply w =
     (if secure_api_set w
      then andthen (return_secure_api (secure_api_ret_val w)) (\<lambda>_ w. Inr ((), w\<lparr>secure_api_set := False\<rparr>)) w
      else Inr ((), w))"

text \<open>
  The whole round. \<open>schedule()\<close> lets other tasks run before the dispatcher goes on; what they do
  until then is the argument \<open>others\<close>.
\<close>

definition dispatch_round :: "kernel_image \<Rightarrow> sa_config \<Rightarrow> int \<Rightarrow> unit wm \<Rightarrow> unit wm" where
  "dispatch_round img junk junk_ret others =
     andthen (dispatch_command img junk junk_ret) (\<lambda>_. andthen others (\<lambda>_. dispatch_reply))"

section \<open>The task of a service\<close>

text \<open>The labels \<open>handle_err2\<close> and \<open>handle_err1\<close> of \<open>process_otzapi\<close>.\<close>

definition release_buffers :: "bool \<Rightarrow> u32 \<Rightarrow> u32 \<Rightarrow> u32 \<Rightarrow> u32 \<Rightarrow> u32 \<Rightarrow> u32 wm" where
  "release_buffers from_ns req_buf res_buf meta_data cmd r =
     (if from_ns then andthen (unmap_if req_buf) (\<lambda>_. andthen (unmap_if res_buf) (\<lambda>_. andthen (unmap_if meta_data) (\<lambda>_.
        andthen (unmap_ptr cmd) (\<lambda>_. ret r)))) else ret r)"

definition process_command :: "kernel_image \<Rightarrow> u32 \<Rightarrow> u32 \<Rightarrow> u32 \<Rightarrow> bool \<Rightarrow> u32 \<Rightarrow> u32 \<Rightarrow> u32 \<Rightarrow> u32 \<Rightarrow> u32 wm" where
  "process_command img junk session_id t from_ns cmd req_buf res_buf meta_data =
     andthen (get_field Context cmd) (\<lambda>c.
       if c \<noteq> session_id
       then andthen (set_field Cmd_status cmd OTZ_STATUS_COMPLETE) (\<lambda>_. ret SMC_EINVAL_ARG)
       else andthen (get_field Id cmd) (\<lambda>_. andthen (get_field Id cmd) (\<lambda>i w.
         let p = tls_process (tls_mem (glob w) t)
         in andthen (if p \<noteq> 0
                     then andthen (get_field Req_buf_len cmd) (\<lambda>n. andthen (get_field Resp_buf_len cmd) (\<lambda>k.
                            services img p (cmd_of i) req_buf n res_buf k meta_data (cmd + smc_off Ret_resp_buf_len)))
                     else ret junk) (\<lambda>r.
              andthen (if r = 0 then set_field Cmd_status cmd OTZ_STATUS_COMPLETE else ret ()) (\<lambda>_.
                release_buffers from_ns req_buf res_buf meta_data cmd r)) w)))"

definition map_if_len :: "u32 \<Rightarrow> smc_field \<Rightarrow> smc_field \<Rightarrow> (int \<times> u32) wm" where
  "map_if_len cmd len phys =
     andthen (get_field len cmd) (\<lambda>n. if n > 0 then andthen (get_field phys cmd) map_ptr else ret (0, 0))"

definition process_otzapi :: "kernel_image \<Rightarrow> u32 \<Rightarrow> u32 \<Rightarrow> u32 \<Rightarrow> u32 wm" where
  "process_otzapi img junk session_id t w =
     (let ps = params (tls_mem (glob w) t)
      in if ps ! 2 = OTZ_CMD_TYPE_NS_TO_SECURE
         then andthen (map_ptr (ps ! 1)) (\<lambda>(r, cmd).
                if r \<noteq> 0 then ret SMC_ENOMEM
                else andthen (map_if_len cmd Req_buf_len Req_buf_phys) (\<lambda>(r, req_buf).
                  if r \<noteq> 0 then andthen (unmap_ptr cmd) (\<lambda>_. ret SMC_ENOMEM)
                  else andthen (map_if_len cmd Resp_buf_len Resp_buf_phys) (\<lambda>(r, res_buf).
                    if r \<noteq> 0 then release_buffers True req_buf res_buf 0 cmd SMC_ENOMEM
                    else andthen (get_field Meta_data_phys cmd) (\<lambda>m. andthen (map_ptr m) (\<lambda>(r, meta_data).
                      if r \<noteq> 0 then release_buffers True req_buf res_buf meta_data cmd SMC_ENOMEM
                      else process_command img junk session_id t True cmd req_buf res_buf meta_data))))) w
         else let cmd = ps ! 1
              in andthen (get_field Req_buf_phys cmd) (\<lambda>req_buf. andthen (get_field Resp_buf_phys cmd) (\<lambda>res_buf.
                   andthen (get_field Meta_data_phys cmd) (\<lambda>meta_data.
                     process_command img junk session_id t False cmd req_buf res_buf meta_data))) w)"

definition otz_ipi_return :: "u32 \<Rightarrow> u32 \<Rightarrow> unit wm" where
  "otz_ipi_return smc_cmd r =
     andthen (get_field Src_context smc_cmd) (\<lambda>i.
       on_glob (\<lambda>g. case get_task i g of
                       None \<Rightarrow> g
                     | Some p \<Rightarrow> schedule_task p (upd_tls (tls (task_mem g p)) (\<lambda>l. l\<lparr>ipi_ret_val := r\<rparr>) g)))"

definition handle_task_return :: "u32 \<Rightarrow> u32 \<Rightarrow> unit wm" where
  "handle_task_return tid t =
     andthen (on_glob (suspend_task tid TASK_STATE_SUSPEND)) (\<lambda>_. andthen (\<lambda>w.
       let l = tls_mem (glob w) t
       in (if params l ! 2 = OTZ_CMD_TYPE_NS_TO_SECURE then set_secure_api_ret (ret_val l)
           else if params l ! 2 = OTZ_CMD_TYPE_SECURE_TO_SECURE then otz_ipi_return (params l ! 1) (ret_val l)
           else ret ()) w) (\<lambda>_. on_glob scheduler))"

text \<open>\<open>echo_task\<close> and \<open>drm_task\<close>, without the optional tests.\<close>

definition service_task :: "kernel_image \<Rightarrow> u32 \<Rightarrow> u32 \<Rightarrow> u32 \<Rightarrow> unit wm" where
  "service_task img junk tid t =
     andthen (on_glob (upd_tls t (\<lambda>l. l\<lparr>ret_val := 0\<rparr>))) (\<lambda>_. andthen (process_otzapi img junk tid t) (\<lambda>r.
       andthen (on_glob (upd_tls t (\<lambda>l. l\<lparr>ret_val := r\<rparr>))) (\<lambda>_. handle_task_return tid t)))"

section \<open>Commands between tasks\<close>

text \<open>The software interrupt enters the scheduler.\<close>

definition otz_ipi :: "u32 \<Rightarrow> unit wm" where
  "otz_ipi smc_cmd w =
     andthen (get_field Src_context smc_cmd) (\<lambda>i. andthen (on_glob (suspend_task i TASK_STATE_WAIT)) (\<lambda>_. on_glob scheduler))
       (w\<lparr>params_stack := [CALL_TRUSTZONE_API, smc_cmd, OTZ_CMD_TYPE_SECURE_TO_SECURE, 0], valid_params_flag := True\<rparr>)"

text \<open>\<open>smc_cmd\<close> is the address of the structure on the caller's stack; three fields are not set.\<close>

definition ipc_send :: "u32 \<Rightarrow> u32 \<Rightarrow> u32 \<Rightarrow> u32 \<Rightarrow> u32 \<Rightarrow> u32 \<Rightarrow> otz_secure_encode_ctx \<Rightarrow> u32 \<Rightarrow> int wm" where
  "ipc_send smc_cmd src_svc_id src_context svc_id session_id cmd_id enc_ctx meta_data =
     andthen (set_field Src_id smc_cmd (push_bit 10 src_svc_id)) (\<lambda>_.
     andthen (set_field Src_context smc_cmd src_context) (\<lambda>_.
     andthen (set_field Id smc_cmd (push_bit 10 svc_id OR cmd_id)) (\<lambda>_.
     andthen (set_field Context smc_cmd session_id) (\<lambda>_.
     andthen (set_field Req_buf_len smc_cmd (enc_req_offset enc_ctx)) (\<lambda>_.
     andthen (set_field Resp_buf_len smc_cmd (enc_res_offset enc_ctx)) (\<lambda>_.
     andthen (set_field Ret_resp_buf_len smc_cmd 0) (\<lambda>_.
     andthen (set_field Req_buf_phys smc_cmd (req_addr enc_ctx)) (\<lambda>_.
     andthen (set_field Resp_buf_phys smc_cmd (res_addr enc_ctx)) (\<lambda>_.
     andthen (set_field Meta_data_phys smc_cmd meta_data) (\<lambda>_.
     andthen (otz_ipi smc_cmd) (\<lambda>_. ret OTZ_OK)))))))))))"

end
