(* ===== verification/EchoTask.thy ===== *)
theory EchoTask
  imports SecureApi
begin

text \<open>
  The functions with which the echo and the DRM service process commands (\<open>apps/echo_task.c\<close>,
  \<open>apps/drm_task.c\<close>). \<open>frame\<close> is the address of the local structure (a length, 1024 bytes of data,
  1024 bytes that are not used) on the stack of the task; the memory above it is not checked.
  One call of \<open>decode_data\<close> reads the memory at one moment. The loops of the source leave at the end
  of their first round. The asynchronous echo command, which waits for a timer, is left out.
\<close>

section \<open>Decoding from memory\<close>

text \<open>The entries of an array of \<open>struct otzc_encode_meta\<close>.\<close>

definition meta_at :: "mem \<Rightarrow> u32 \<Rightarrow> nat \<Rightarrow> otzc_encode_meta" where
  "meta_at m a i =
     (let p = a + of_nat (16 * i)
      in \<lparr>m_type = read32 m p, m_len = read32 m (p + 4), usr_addr = read32 m (p + 8), ret_len = read32 m (p + 12)\<rparr>)"

definition decode_at :: "u32 \<Rightarrow> u32 \<Rightarrow> u32 \<Rightarrow> u32 \<Rightarrow> decoded option wm" where
  "decode_at data meta_data offset pos w =
     (let m = seen w
      in case decode_data (read32 m) data (meta_at m meta_data) offset pos (pt_of w) of
           Inl e \<Rightarrow> Inl e
         | Inr (d, s) \<Rightarrow> Inr (d, put_pt s (w\<lparr>dram := m, fetches := fetches w + 1\<rparr>)))"

definition update_len_at :: "u32 \<Rightarrow> u32 \<Rightarrow> u32 \<Rightarrow> bool wm" where
  "update_len_at meta_data pos len =
     (if sint pos \<le> uint OTZ_MAX_REQ_PARAMS + uint OTZ_MAX_RES_PARAMS
      then andthen (store32 (meta_data + 16 * (pos - 1) + 12) len) (\<lambda>_. ret True) else ret False)"

definition memcpy_at :: "u32 \<Rightarrow> u32 \<Rightarrow> u32 \<Rightarrow> unit wm" where
  "memcpy_at d s n w = Inr ((), w\<lparr>dram := snd (sw_memcpy d s n (dram w))\<rparr>)"

section \<open>The commands\<close>

text \<open>
  The request of \<open>send_cmd\<close> and \<open>send_cmd_shared_buf\<close>: a length and, of type \<open>ty\<close>, the data. The
  result is false where the source returns \<open>SMC_EINVAL_ARG\<close>.
\<close>

definition read_request :: "u32 \<Rightarrow> u32 \<Rightarrow> u32 \<Rightarrow> u32 \<Rightarrow> bool wm" where
  "read_request ty frame req_buf meta_data =
     andthen (decode_at req_buf meta_data 0 0) (\<lambda>d. case d of None \<Rightarrow> ret False | Some d \<Rightarrow>
       if d_type d \<noteq> OTZ_ENC_UINT32 then ret False
       else andthen (fetch32 (d_data d)) (\<lambda>len. andthen (store32 frame len) (\<lambda>_.
         andthen (decode_at req_buf meta_data (d_offset d) (d_pos d)) (\<lambda>e. case e of None \<Rightarrow> ret False | Some e \<Rightarrow>
           if d_type e \<noteq> ty then ret False
           else andthen (fetch32 frame) (\<lambda>len. andthen (memcpy_at (frame + 4) (d_data e) len) (\<lambda>_.
             if ty = OTZ_MEM_REF \<and> d_mapped e then andthen (unmap_ptr (d_data e)) (\<lambda>_. ret True) else ret True))))))"

definition write_response :: "u32 \<Rightarrow> bool \<Rightarrow> u32 \<Rightarrow> u32 \<Rightarrow> u32 \<Rightarrow> bool wm" where
  "write_response ty unmaps frame res_buf meta_data =
     andthen (decode_at res_buf meta_data 0 OTZ_MAX_REQ_PARAMS) (\<lambda>d. case d of None \<Rightarrow> ret False | Some d \<Rightarrow>
       if d_type d \<noteq> ty then ret False
       else andthen (fetch32 frame) (\<lambda>len. andthen (memcpy_at (d_data d) (frame + 4) len) (\<lambda>_.
         andthen (update_len_at meta_data (d_pos d) len) (\<lambda>ok.
           if \<not> ok then ret False
           else if unmaps \<and> d_mapped d then andthen (unmap_ptr (d_data d)) (\<lambda>_. ret True) else ret True))))"

text \<open>All commands: the request if there is one, then the response if one is wanted.\<close>

definition process_cmd :: "bool wm \<Rightarrow> bool wm \<Rightarrow> u32 \<Rightarrow> u32 \<Rightarrow> u32 \<Rightarrow> u32 \<Rightarrow> u32 wm" where
  "process_cmd request response frame req_buf_len res_buf_len ret_res_buf_len =
     andthen (if req_buf_len > 0 then request else ret True) (\<lambda>ok.
       if \<not> ok then ret SMC_EINVAL_ARG
       else if res_buf_len > 0
       then andthen response (\<lambda>ok.
              if \<not> ok then ret SMC_EINVAL_ARG
              else andthen (fetch32 frame) (\<lambda>len. andthen (store32 ret_res_buf_len len) (\<lambda>_. ret 0)))
       else ret 0)"

definition process_otz_echo_send_cmd :: "u32 \<Rightarrow> u32 \<Rightarrow> u32 \<Rightarrow> u32 \<Rightarrow> u32 \<Rightarrow> u32 \<Rightarrow> u32 \<Rightarrow> u32 wm" where
  "process_otz_echo_send_cmd frame req_buf req_buf_len res_buf res_buf_len meta_data ret_res_buf_len =
     process_cmd (read_request OTZ_ENC_ARRAY frame req_buf meta_data) (write_response OTZ_ENC_ARRAY False frame res_buf meta_data)
       frame req_buf_len res_buf_len ret_res_buf_len"

definition process_otz_echo_send_cmd_shared_buf :: "u32 \<Rightarrow> u32 \<Rightarrow> u32 \<Rightarrow> u32 \<Rightarrow> u32 \<Rightarrow> u32 \<Rightarrow> u32 \<Rightarrow> u32 wm" where
  "process_otz_echo_send_cmd_shared_buf frame req_buf req_buf_len res_buf res_buf_len meta_data ret_res_buf_len =
     process_cmd (read_request OTZ_MEM_REF frame req_buf meta_data) (write_response OTZ_MEM_REF True frame res_buf meta_data)
       frame req_buf_len res_buf_len ret_res_buf_len"

definition read_ipi_request :: "u32 \<Rightarrow> u32 \<Rightarrow> u32 \<Rightarrow> bool wm" where
  "read_ipi_request frame req_buf meta_data =
     andthen (decode_at req_buf meta_data 0 0) (\<lambda>d. case d of None \<Rightarrow> ret False | Some d \<Rightarrow>
       if d_type d \<noteq> OTZ_MEM_REF then ret False
       else andthen (memcpy_at (frame + 4) (d_data d) (d_len d)) (\<lambda>_. andthen (store32 frame (d_len d)) (\<lambda>_. ret True)))"

definition process_otz_echo_ipi_send_cmd :: "u32 \<Rightarrow> u32 \<Rightarrow> u32 \<Rightarrow> u32 \<Rightarrow> u32 \<Rightarrow> u32 \<Rightarrow> u32 \<Rightarrow> u32 wm" where
  "process_otz_echo_ipi_send_cmd frame req_buf req_buf_len res_buf res_buf_len meta_data ret_res_buf_len =
     process_cmd (read_ipi_request frame req_buf meta_data) (write_response OTZ_MEM_REF False frame res_buf meta_data)
       frame req_buf_len res_buf_len ret_res_buf_len"

definition OTZ_ECHO_CMD_ID_SEND_CMD :: u32 where "OTZ_ECHO_CMD_ID_SEND_CMD = 1"
definition OTZ_ECHO_CMD_ID_SEND_CMD_SHARED_BUF :: u32 where "OTZ_ECHO_CMD_ID_SEND_CMD_SHARED_BUF = 2"
definition OTZ_ECHO_CMD_ID_SEND_CMD_ARRAY_SPACE :: u32 where "OTZ_ECHO_CMD_ID_SEND_CMD_ARRAY_SPACE = 3"
definition OTZ_ECHO_CMD_ID_IPI_SEND_CMD :: u32 where "OTZ_ECHO_CMD_ID_IPI_SEND_CMD = 4"
definition OTZ_ECHO_CMD_ID_TEST_ASYNC_SEND_CMD :: u32 where "OTZ_ECHO_CMD_ID_TEST_ASYNC_SEND_CMD = 5"
definition OTZ_DRM_CMD_ID_SEND_CMD :: u32 where "OTZ_DRM_CMD_ID_SEND_CMD = 1"
definition OTZ_DRM_CMD_ID_SEND_CMD_SHARED_BUF :: u32 where "OTZ_DRM_CMD_ID_SEND_CMD_SHARED_BUF = 2"

lemmas echo_cmds = OTZ_ECHO_CMD_ID_SEND_CMD_def OTZ_ECHO_CMD_ID_SEND_CMD_SHARED_BUF_def
  OTZ_ECHO_CMD_ID_SEND_CMD_ARRAY_SPACE_def OTZ_ECHO_CMD_ID_IPI_SEND_CMD_def OTZ_ECHO_CMD_ID_TEST_ASYNC_SEND_CMD_def
  OTZ_DRM_CMD_ID_SEND_CMD_def OTZ_DRM_CMD_ID_SEND_CMD_SHARED_BUF_def

text \<open>The asynchronous command is the parameter \<open>async\<close>.\<close>

definition process_otz_echo_svc ::
  "(u32 \<Rightarrow> u32 \<Rightarrow> u32 \<Rightarrow> u32 \<Rightarrow> u32 \<Rightarrow> u32 \<Rightarrow> u32 \<Rightarrow> u32 wm) \<Rightarrow> u32 \<Rightarrow>
   u32 \<Rightarrow> u32 \<Rightarrow> u32 \<Rightarrow> u32 \<Rightarrow> u32 \<Rightarrow> u32 \<Rightarrow> u32 \<Rightarrow> u32 wm" where
  "process_otz_echo_svc async frame svc_cmd_id req_buf req_buf_len resp_buf res_buf_len meta_data ret_res_buf_len =
     (if svc_cmd_id = OTZ_ECHO_CMD_ID_SEND_CMD
      then process_otz_echo_send_cmd frame req_buf req_buf_len resp_buf res_buf_len meta_data ret_res_buf_len
      else if svc_cmd_id = OTZ_ECHO_CMD_ID_SEND_CMD_SHARED_BUF \<or> svc_cmd_id = OTZ_ECHO_CMD_ID_SEND_CMD_ARRAY_SPACE
      then process_otz_echo_send_cmd_shared_buf frame req_buf req_buf_len resp_buf res_buf_len meta_data ret_res_buf_len
      else if svc_cmd_id = OTZ_ECHO_CMD_ID_IPI_SEND_CMD
      then process_otz_echo_ipi_send_cmd frame req_buf req_buf_len resp_buf res_buf_len meta_data ret_res_buf_len
      else if svc_cmd_id = OTZ_ECHO_CMD_ID_TEST_ASYNC_SEND_CMD
      then async frame req_buf req_buf_len resp_buf res_buf_len meta_data ret_res_buf_len
      else ret SMC_EOPNOTSUPP)"

text \<open>The DRM service has the same two commands.\<close>

definition process_otz_drm_send_cmd :: "u32 \<Rightarrow> u32 \<Rightarrow> u32 \<Rightarrow> u32 \<Rightarrow> u32 \<Rightarrow> u32 \<Rightarrow> u32 \<Rightarrow> u32 wm" where
  "process_otz_drm_send_cmd = process_otz_echo_send_cmd"

definition process_otz_drm_send_cmd_shared_buf :: "u32 \<Rightarrow> u32 \<Rightarrow> u32 \<Rightarrow> u32 \<Rightarrow> u32 \<Rightarrow> u32 \<Rightarrow> u32 \<Rightarrow> u32 wm" where
  "process_otz_drm_send_cmd_shared_buf = process_otz_echo_send_cmd_shared_buf"

definition process_otz_drm_svc :: "u32 \<Rightarrow> u32 \<Rightarrow> u32 \<Rightarrow> u32 \<Rightarrow> u32 \<Rightarrow> u32 \<Rightarrow> u32 \<Rightarrow> u32 \<Rightarrow> u32 wm" where
  "process_otz_drm_svc frame svc_cmd_id req_buf req_buf_len resp_buf res_buf_len meta_data ret_res_buf_len =
     (if svc_cmd_id = OTZ_DRM_CMD_ID_SEND_CMD
      then process_otz_drm_send_cmd frame req_buf req_buf_len resp_buf res_buf_len meta_data ret_res_buf_len
      else if svc_cmd_id = OTZ_DRM_CMD_ID_SEND_CMD_SHARED_BUF
      then process_otz_drm_send_cmd_shared_buf frame req_buf req_buf_len resp_buf res_buf_len meta_data ret_res_buf_len
      else ret SMC_EOPNOTSUPP)"

end
