(* ===== verification/SecureApiInv.thy ===== *)
theory SecureApiInv
  imports EchoTask
begin

text \<open>
  Properties of sessions and commands (\<open>SecureApi\<close>, \<open>EchoTask\<close>): how the references of shared
  sections that they take are given back, whatever the normal world writes meanwhile, and the
  defects of the session and service functions.

  \<open>triple P f Q\<close>: run from a world with \<open>P\<close>, the statement \<open>f\<close> stops the kernel or ends with a
  result and a world with \<open>Q\<close>. \<open>owes R as w\<close>: compared with the counts \<open>R\<close>, the references of the
  addresses \<open>as\<close> are still held. A section whose count could not be recorded, because the common heap was full, may
  count less, but only if it was not shared before.
\<close>

section \<open>A logic for statements\<close>

definition triple :: "(sw_world \<Rightarrow> bool) \<Rightarrow> 'a wm \<Rightarrow> ('a \<Rightarrow> sw_world \<Rightarrow> bool) \<Rightarrow> bool" where
  "triple P f Q \<longleftrightarrow> (\<forall>w. P w \<longrightarrow> (case f w of Inl _ \<Rightarrow> True | Inr (x, w') \<Rightarrow> Q x w'))"

lemma tripleI: "(\<And>w x w'. P w \<Longrightarrow> f w = Inr (x, w') \<Longrightarrow> Q x w') \<Longrightarrow> triple P f Q"
  by (auto simp: triple_def split: sum.split)

lemma tripleD: "triple P f Q \<Longrightarrow> P w \<Longrightarrow> f w = Inr (x, w') \<Longrightarrow> Q x w'"
  unfolding triple_def by force

lemma triple_ret: "(\<And>w. P w \<Longrightarrow> Q x w) \<Longrightarrow> triple P (ret x) Q"
  by (simp add: triple_def ret_def)

lemma triple_andthen:
  assumes "triple P f R" "\<And>x. triple (R x) (g x) Q"
  shows "triple P (andthen f g) Q"
proof (rule tripleI)
  fix w y w'' assume "P w" "andthen f g w = Inr (y, w'')"
  then obtain x w' where "f w = Inr (x, w')" "g x w' = Inr (y, w'')"
    by (auto simp: andthen_def split: sum.splits)
  then show "Q y w''" using tripleD [OF assms(1) \<open>P w\<close>] tripleD [OF assms(2)] by blast
qed

lemma triple_weaken: "triple P' f Q' \<Longrightarrow> (\<And>w. P w \<Longrightarrow> P' w) \<Longrightarrow> (\<And>x w. Q' x w \<Longrightarrow> Q x w) \<Longrightarrow> triple P f Q"
  by (fastforce simp: triple_def split: sum.splits)

lemma triple_if: "(b \<Longrightarrow> triple P f Q) \<Longrightarrow> (\<not> b \<Longrightarrow> triple P g Q) \<Longrightarrow> triple P (if b then f else g) Q"
  by simp

lemma triple_at: "(\<And>w. P w \<Longrightarrow> triple P (f w) Q) \<Longrightarrow> triple P (\<lambda>w. f w w) Q"
  by (auto simp: triple_def)

lemma triple_pure: "(b \<Longrightarrow> triple P f Q) \<Longrightarrow> triple (\<lambda>w. P w \<and> b) f Q"
  by (auto simp: triple_def)

section \<open>References\<close>

definition sections_only :: "pt_state \<Rightarrow> bool" where
  "sections_only s \<longleftrightarrow> (\<forall>i<4096. l1_type (pgd s i) = L1_TYPE_FAULT \<or> l1_type (pgd s i) = L1_TYPE_SECTION)"

definition in_section :: "nat \<Rightarrow> u32 list \<Rightarrow> nat" where
  "in_section j as = length (filter (\<lambda>a. l1_index a = j) as)"

definition owes :: "(nat \<Rightarrow> nat) \<Rightarrow> u32 list \<Rightarrow> sw_world \<Rightarrow> bool" where
  "owes R as w \<longleftrightarrow> pt_inv (pt_of w) \<and> sections_only (ptab w) \<and>
     (\<forall>j<4096. R j < 2 ^ 31 \<and> refs_of (pt_of w) j \<le> R j + in_section j as \<and>
        (0 < R j \<longrightarrow> refs_of (pt_of w) j = R j + in_section j as))"

lemma refs_of_heap [simp]: "refs_of (s\<lparr>heap := h\<rparr>) = refs_of s"
  by (simp add: refs_of_def fun_eq_iff pte_addr_def)

lemma pt_of_put [simp]: "pt_of (put_pt s w) = s" "ptab (put_pt s w) = s" "glob (put_pt s w) = (glob w)\<lparr>kheap := heap s\<rparr>"
  by (simp_all add: pt_of_def put_pt_def)

lemma pgd_pt_of [simp]: "pgd (pt_of w) = pgd (ptab w)"
  by (simp add: pt_of_def)

lemma pt_inv_heap: "pt_inv s \<Longrightarrow> heaps_ok h \<Longrightarrow> pt_inv (s\<lparr>heap := h\<rparr>)"
  by (simp add: pt_inv_def)

lemma pt_inv_heaps: "pt_inv (pt_of w) \<Longrightarrow> heaps_ok (kheap (glob w))"
  by (simp add: pt_inv_def pt_of_def)

lemma owes_cong:
  assumes "owes R as w" "ptab w' = ptab w" "heaps_ok (kheap (glob w'))"
  shows "owes R as w'"
proof -
  have e: "pt_of w' = (pt_of w)\<lparr>heap := kheap (glob w')\<rparr>" using assms(2) by (simp add: pt_of_def)
  show ?thesis using assms pt_inv_heap [of "pt_of w"] unfolding owes_def e by (simp add: sections_only_def)
qed

lemma owes_heaps: "owes R as w \<Longrightarrow> heaps_ok (kheap (glob w))"
  unfolding owes_def by (blast intro: pt_inv_heaps)

lemma in_section_simps [simp]:
  "in_section j [] = 0" "in_section j (a # as) = (if l1_index a = j then 1 else 0) + in_section j as"
  by (simp_all add: in_section_def)

lemma in_section_le: "in_section j as \<le> length as"
  by (simp add: in_section_def)

lemma in_section_remove1:
  "a \<in> set as \<Longrightarrow> in_section j as = (if l1_index a = j then 1 else 0) + in_section j (remove1 a as)"
  by (induction as) auto

lemma map_ptr_owes:
  assumes "length as \<le> 20"
  shows "triple (owes R as) (map_ptr p) (\<lambda>(r, v) w. r = 0 \<and> v = p \<and> owes R (p # as) w)"
proof (rule tripleI)
  fix w x w' assume o: "owes R as w" and m: "map_ptr p w = Inr (x, w')"
  let ?i = "l1_index p"
  have i: "?i < 4096" by (rule l1_index_less)
  have inv: "pt_inv (pt_of w)" using o by (simp add: owes_def)
  have R: "R j < 2 ^ 31" "refs_of (pt_of w) j \<le> R j + in_section j as"
      "0 < R j \<longrightarrow> refs_of (pt_of w) j = R j + in_section j as" if "j < 4096" for j
    using o that by (auto simp: owes_def)
  have "pt_ok (pt_of w) (MapNs p)"
  proof -
    have "refs_of (pt_of w) ?i < 2 ^ 31 + 21" using R(1,2) [OF i] in_section_le [of ?i as] assms by linarith
    then show ?thesis using o i by (simp add: owes_def sections_only_def)
  qed
  then obtain s where s: "map_to_ns p (pt_of w) = Inr (0, Some p, s)" "pt_inv s" "map_ns_post (ns_section p) (pt_of w) s"
    using map_to_ns_spec [OF inv] by blast
  have x: "x = (0, p)" "w' = put_pt s w" using m s(1) by (auto simp: map_ptr_def)
  have v: "va (ns_section p) = p" by (simp add: ns_section_def)
  note P = s(3) [unfolded map_ns_post_def Let_def v]
  have post: "pgd s = (pgd (ptab w))(?i := mapped_word (ns_section p) (pgd (ptab w) ?i))" using P by simp
  have sec: "l1_type (pgd s ?i) = L1_TYPE_SECTION"
    using P [THEN conjunct2, THEN conjunct1] by (simp add: is_ns_section_def)
  have cnt: "refs_of s j = (if j = ?i \<and> \<not> (refs_of (pt_of w) ?i = 0 \<and> no_memory (pt_of w))
        then refs_of (pt_of w) ?i + 1 else refs_of (pt_of w) j)" if "j < 4096" for j
    using P [THEN conjunct2, THEN conjunct2, rule_format, OF that] .
  have "sections_only s"
    unfolding sections_only_def
  proof (intro allI impI)
    fix j :: nat assume "j < 4096"
    then show "l1_type (pgd s j) = L1_TYPE_FAULT \<or> l1_type (pgd s j) = L1_TYPE_SECTION"
      using o sec by (cases "j = ?i") (simp_all add: owes_def sections_only_def post)
  qed
  moreover have "refs_of s j \<le> R j + in_section j (p # as) \<and> (0 < R j \<longrightarrow> refs_of s j = R j + in_section j (p # as))"
    if j: "j < 4096" for j using R(2,3) [OF j] cnt [OF j] by (auto split: if_splits)
  ultimately show "(case x of (r, v) \<Rightarrow> \<lambda>w. r = 0 \<and> v = p \<and> owes R (p # as) w) w'"
    using s(2) R(1) by (auto simp: x owes_def)
qed

lemma unmap_ptr_owes: "p \<in> set as \<Longrightarrow> triple (owes R as) (unmap_ptr p) (\<lambda>_. owes R (remove1 p as))"
proof (rule tripleI)
  fix w x w' assume p: "p \<in> set as" and o: "owes R as w" and m: "unmap_ptr p w = Inr (x, w')"
  let ?i = "l1_index p"
  have inv: "pt_inv (pt_of w)" using o by (simp add: owes_def)
  obtain s where s: "unmap_from_ns p (pt_of w) = (0, s)" "pt_inv s" "unmap_ns_post ?i (pt_of w) s"
    using unmap_ns_spec [OF inv, of p] by (auto simp: unmap_from_ns_def)
  have w': "w' = put_pt s w" using m s(1) by (simp add: unmap_ptr_def)
  have "sections_only s"
    using s(3) o by (auto simp: owes_def sections_only_def unmap_ns_post_def l1_type_def l1_types split: if_splits)
  moreover have "refs_of s j \<le> R j + in_section j (remove1 p as) \<and> (0 < R j \<longrightarrow> refs_of s j = R j + in_section j (remove1 p as))"
    if j: "j < 4096" for j
  proof -
    have "refs_of s j = (if j = ?i then refs_of (pt_of w) j - 1 else refs_of (pt_of w) j)"
      using s(3) j by (simp add: unmap_ns_post_def)
    moreover have "refs_of (pt_of w) j \<le> R j + in_section j as" "0 < R j \<longrightarrow> refs_of (pt_of w) j = R j + in_section j as"
      using o j by (auto simp: owes_def)
    ultimately show ?thesis using in_section_remove1 [OF p, of j] by auto
  qed
  ultimately show "owes R (remove1 p as) w'" using s(2) o by (auto simp: w' owes_def)
qed

text \<open>A null pointer is never given back.\<close>

definition given_back :: "u32 \<Rightarrow> u32 list \<Rightarrow> u32 list" where
  "given_back p as = (if p = 0 then as else remove1 p as)"

lemma unmap_if_owes: "p = 0 \<or> p \<in> set as \<Longrightarrow> triple (owes R as) (unmap_if p) (\<lambda>_. owes R (given_back p as))"
  unfolding unmap_if_def given_back_def using unmap_ptr_owes [of p as R] by (auto intro: triple_ret)

section \<open>Statements that leave the references alone\<close>

text \<open>A statement that changes neither the page table nor breaks the heaps.\<close>

definition frames :: "'a wm \<Rightarrow> bool" where
  "frames f \<longleftrightarrow> (\<forall>w x w'. f w = Inr (x, w') \<longrightarrow> heaps_ok (kheap (glob w)) \<longrightarrow>
     ptab w' = ptab w \<and> heaps_ok (kheap (glob w')))"

lemma framesI:
  "(\<And>w x w'. f w = Inr (x, w') \<Longrightarrow> heaps_ok (kheap (glob w)) \<Longrightarrow> ptab w' = ptab w \<and> heaps_ok (kheap (glob w'))) \<Longrightarrow> frames f"
  by (simp add: frames_def)

lemma frames_owes: "frames f \<Longrightarrow> triple (owes R as) f (\<lambda>_. owes R as)"
  by (rule tripleI) (metis frames_def owes_cong owes_heaps)

lemma frames_ret [intro]: "frames (ret x)"
  by (simp add: frames_def ret_def)

lemma frames_andthen [intro]: "frames f \<Longrightarrow> (\<And>x. frames (g x)) \<Longrightarrow> frames (andthen f g)"
  unfolding frames_def andthen_def by (fastforce split: sum.splits)

lemma frames_if [intro]: "(b \<Longrightarrow> frames f) \<Longrightarrow> (\<not> b \<Longrightarrow> frames g) \<Longrightarrow> frames (if b then f else g)"
  by simp

lemma frames_basic [intro]:
  "frames (fetch32 a)" "frames (store32 a v)" "frames (memset_at p c n)" "frames (get_field f cmd)" "frames (set_field f cmd v)"
  "frames (set_secure_api_ret r)" "frames (return_secure_api r)" "frames (memcpy_at d s n)"
  by (simp_all add: frames_def fetch32_def store32_def memset_at_def get_field_def set_field_def set_secure_api_ret_def
      return_secure_api_def memcpy_at_def)

lemma frames_on_glob: "(\<And>g. heaps_ok (kheap g) \<Longrightarrow> heaps_ok (kheap (f g))) \<Longrightarrow> frames (on_glob f)"
  by (simp add: frames_def on_glob_def)

lemma malloc_heaps:
  "sw_malloc_private hid sz h = Inr (p, h') \<Longrightarrow> heaps_ok h \<Longrightarrow> unat sz \<le> MAX_BLOCK_SIZE \<Longrightarrow> heaps_ok h'"
  using sw_malloc_private_ok [of h sz hid] by auto

lemma frames_malloc:
  assumes "unat sz \<le> MAX_BLOCK_SIZE"
  shows "frames (malloc_here sz)" "frames (malloc_common sz)"
  using assms by (auto simp: frames_def malloc_here_def malloc_common_def sw_malloc_def split: sum.splits dest: malloc_heaps)

lemma frames_free [intro]: "frames (free_here p)"
  by (simp add: frames_def free_here_def sw_free_def sw_free_private_ok)

lemma frames_task_exit [intro]: "frames (task_exit d)"
  by (auto simp: task_exit_def)


section \<open>Task operations keep the heaps\<close>

lemma heaps_ok_cong: "buddy_heap h' = buddy_heap h \<Longrightarrow> heaps_ok h' = heaps_ok h"
  by (simp add: heaps_ok_def)

lemma alloc_heap_heaps [simp]: "heaps_ok (snd (alloc_private_heap hid h)) = heaps_ok h"
  by (rule heaps_ok_cong) simp

lemma free_heap_heaps [simp]: "heaps_ok (snd (free_private_heap hid h)) = heaps_ok h"
  by (rule heaps_ok_cong) (simp add: free_private_heap_def split: option.split)

lemma free_opt_heaps: "heaps_ok (kheap g) \<Longrightarrow> heaps_ok (kheap (free_opt hid p g))"
  by (simp add: free_opt_def sw_free_private_ok)

lemma create_cleanup_heaps: "heaps_ok (kheap g) \<Longrightarrow> heaps_ok (kheap (create_cleanup c tid p g))"
  unfolding create_cleanup_def Let_def by (intro free_opt_heaps) (simp add: sw_free_private_ok sw_free_def)

lemma alloc_or_die_heaps: "alloc_or_die b sz h = Inr h' \<Longrightarrow> heaps_ok h \<Longrightarrow> unat sz \<le> MAX_BLOCK_SIZE \<Longrightarrow> heaps_ok h'"
  by (auto simp: alloc_or_die_def split: if_splits sum.splits dest: malloc_heaps)

lemma acl_sizes: "unat SIZEOF_ACL_USER \<le> MAX_BLOCK_SIZE" "unat SIZEOF_ACL_GROUP \<le> MAX_BLOCK_SIZE"
  "unat SIZEOF_ACL_DEVICE \<le> MAX_BLOCK_SIZE" "unat SIZEOF_SW_TASK \<le> MAX_BLOCK_SIZE" "unat SIZEOF_SW_TLS \<le> MAX_BLOCK_SIZE"
  by (simp_all add: SIZEOF_ACL_USER_def SIZEOF_ACL_GROUP_def SIZEOF_ACL_DEVICE_def SIZEOF_SW_TASK_def SIZEOF_SW_TLS_def MAX_BLOCK_SIZE_def)

lemma updateGlobalACL_heaps: "updateGlobalACL d gr u g = Inr g' \<Longrightarrow> heaps_ok (kheap g) \<Longrightarrow> heaps_ok (kheap g')"
  by (auto simp: updateGlobalACL_def Let_def split: sum.splits dest!: alloc_or_die_heaps intro: acl_sizes)

lemma update_all_heaps: "update_all ds u g = Inr g' \<Longrightarrow> heaps_ok (kheap g) \<Longrightarrow> heaps_ok (kheap g')"
  by (induction ds arbitrary: g) (auto split: sum.splits dest: updateGlobalACL_heaps)

lemma setPermission_heaps: "setPermission p g = Inr (r, g') \<Longrightarrow> heaps_ok (kheap g) \<Longrightarrow> heaps_ok (kheap g')"
  by (auto simp: setPermission_def Let_def split: option.splits sum.splits intro: update_all_heaps)

lemma create_commit_heaps:
  "create_commit c tid p st g = Inr (r, i, g') \<Longrightarrow> heaps_ok (kheap g) \<Longrightarrow> heaps_ok (kheap g')"
  by (auto simp: create_commit_def Let_def split: sum.splits if_splits dest!: setPermission_heaps)

lemma create_in_heap_heaps:
  assumes "create_in_heap c tid g = Inr (r, i, g')" "heaps_ok (kheap g)" "unat (stack_size c) \<le> MAX_BLOCK_SIZE"
  shows "heaps_ok (kheap g')"
proof -
  obtain p h1 where 1: "sw_malloc_private (sint tid) SIZEOF_SW_TASK (kheap g) = Inr (p, h1)"
    using assms(1) by (auto simp: create_in_heap_def split: sum.splits)
  have h1: "heaps_ok h1" using malloc_heaps [OF 1 assms(2)] acl_sizes by simp
  show ?thesis
  proof (cases "p = 0")
    case True
    then show ?thesis using assms(1) 1 h1 by (auto simp: create_in_heap_def)
  next
    case False
    obtain q h2 where 2: "sw_malloc_private (sint tid) SIZEOF_SW_TLS h1 = Inr (q, h2)"
      using assms(1) 1 False by (auto simp: create_in_heap_def Let_def split: sum.splits)
    have h2: "heaps_ok h2" using malloc_heaps [OF 2 h1] acl_sizes by simp
    show ?thesis
    proof (cases "q = 0")
      case True
      then show ?thesis using assms(1) 1 2 False h2 by (auto simp: create_in_heap_def Let_def intro: create_cleanup_heaps)
    next
      case q: False
      obtain st h3 where 3: "sw_malloc_private (sint tid) (stack_size c) h2 = Inr (st, h3)"
        using assms(1) 1 2 False q by (auto simp: create_in_heap_def Let_def split: sum.splits)
      have "heaps_ok h3" by (rule malloc_heaps [OF 3 h2 assms(3)])
      then show ?thesis using assms(1) 1 2 3 False q
        by (cases "st = 0") (auto simp: create_in_heap_def Let_def intro: create_cleanup_heaps create_commit_heaps)
    qed
  qed
qed

lemma create_task_heaps:
  assumes "create_task c g = Inr (r, i, g')" "heaps_ok (kheap g)" "unat (stack_size c) \<le> MAX_BLOCK_SIZE"
  shows "heaps_ok (kheap g')"
proof -
  obtain perm where perm: "(if exec_mode g = 1 then getPermission (service_uuid c) g else Inr 1) = Inr perm"
    using assms(1) by (auto simp: create_task_def split: sum.splits)
  obtain r0 h where a: "alloc_private_heap (sint (next_task_id g)) (kheap g) = (r0, h)" by fastforce
  then have h: "heaps_ok h" using alloc_heap_heaps [of "sint (next_task_id g)" "kheap g"] assms(2) by simp
  show ?thesis
    using assms(1,2) h a perm create_in_heap_heaps [OF _ _ assms(3)]
    by (cases "perm = - 1"; cases "r0 = - 1") (auto simp: create_task_def Let_def simp del: alloc_heap_heaps)
qed

lemma destroy_task_heaps: "heaps_ok (kheap g) \<Longrightarrow> heaps_ok (kheap (snd (destroy_task i g)))"
  by (simp add: destroy_task_def Let_def free_opt_heaps sw_free_private_ok split: option.split)

lemma frames_close [intro]: "frames (sa_close_session i)"
  by (rule framesI) (auto simp: sa_close_session_def dest: destroy_task_heaps [where i=i] split: prod.splits)

lemma frames_open: "unat (stack_size cfg) \<le> MAX_BLOCK_SIZE \<Longrightarrow> frames (sa_open_session cfg ctx)"
  by (rule framesI) (auto simp: sa_open_session_def dest: create_task_heaps split: sum.splits)


section \<open>Sessions\<close>

text \<open>What the kernel relies on: the ELF loader and the boot event leave the references as they are.\<close>

definition loader_ok :: "kernel_image \<Rightarrow> bool" where
  "loader_ok img \<longleftrightarrow>
     (\<forall>R as cfg. triple (owes R as) (elf_load img cfg) (\<lambda>(r, cfg') w. stack_size cfg' = stack_size cfg \<and> owes R as w)) \<and>
     (\<forall>R as. triple (owes R as) (elf_loader_cleanup img) (\<lambda>_. owes R as)) \<and>
     (\<forall>R as. triple (owes R as) (boot_ack img) (\<lambda>_. owes R as))"

lemma frames_result:
  assumes "frames f" "\<And>w x w'. f w = Inr (x, w') \<Longrightarrow> S x"
  shows "triple (owes R as) f (\<lambda>x w. S x \<and> owes R as w)"
  using frames_owes [OF assms(1), of R as] assms(2) by (auto simp: triple_def split: sum.splits)

lemma service_sizes:
  "unat SIZEOF_ECHO_GLOBAL \<le> MAX_BLOCK_SIZE" "unat SIZEOF_DRM_GLOBAL \<le> MAX_BLOCK_SIZE"
  "unat SIZEOF_CRYPTO_GLOBAL \<le> MAX_BLOCK_SIZE" "unat SIZEOF_DISPATCH_GLOBAL \<le> MAX_BLOCK_SIZE"
  "unat TASK_STACK_SIZE \<le> MAX_BLOCK_SIZE"
  by (simp_all add: SIZEOF_ECHO_GLOBAL_def SIZEOF_DRM_GLOBAL_def SIZEOF_CRYPTO_GLOBAL_def SIZEOF_DISPATCH_GLOBAL_def
      TASK_STACK_SIZE_def MAX_BLOCK_SIZE_def)

lemma frames_inits:
  "frames (echo_task_init img)" "frames (drm_task_init img)" "frames (crypto_task_init img)"
  "frames mutex_test_task_init" "frames virtual_keyboard_task_init"
  unfolding echo_task_init_def drm_task_init_def crypto_task_init_def mutex_test_task_init_def virtual_keyboard_task_init_def Let_def
  by (auto intro!: frames_malloc service_sizes)

lemma frames_dispatch_init: "frames (dispatch_task_init img)"
  unfolding dispatch_task_init_def Let_def
  by (intro frames_andthen frames_malloc frames_if frames_ret service_sizes frames_basic) (auto simp: frames_def)

lemma init_stacks:
  "echo_task_init img w = Inr (x, w') \<Longrightarrow> stack_size (snd x) = TASK_STACK_SIZE"
  "drm_task_init img w = Inr (x, w') \<Longrightarrow> stack_size (snd x) = TASK_STACK_SIZE"
  "crypto_task_init img w = Inr (x, w') \<Longrightarrow> stack_size (snd x) = TASK_STACK_SIZE"
  "mutex_test_task_init w = Inr (x, w') \<Longrightarrow> stack_size (snd x) = TASK_STACK_SIZE"
  "virtual_keyboard_task_init w = Inr (x, w') \<Longrightarrow> stack_size (snd x) = TASK_STACK_SIZE"
  "dispatch_task_init img w = Inr (x, w') \<Longrightarrow> stack_size (snd x) = TASK_STACK_SIZE"
  by (auto simp: echo_task_init_def drm_task_init_def crypto_task_init_def mutex_test_task_init_def
      virtual_keyboard_task_init_def dispatch_task_init_def andthen_def ret_def Let_def split: sum.splits if_splits)

lemma loaded_owes:
  assumes "loader_ok img" "frames init" "\<And>w x w'. init w = Inr (x, w') \<Longrightarrow> stack_size (snd x) = TASK_STACK_SIZE"
  shows "triple (owes R as) (andthen init (\<lambda>(r, cfg). if r \<noteq> OTZ_OK then ret (- 1, cfg)
      else if elf_flag cfg = ELF_FLAG then elf_load img cfg else ret (OTZ_OK, cfg)))
    (\<lambda>(r, cfg) w. stack_size cfg = TASK_STACK_SIZE \<and> owes R as w)"
proof (rule triple_andthen [OF frames_result [OF assms(2), of "\<lambda>x. stack_size (snd x) = TASK_STACK_SIZE"]])
  fix x :: "int \<times> sa_config"
  obtain r cfg where x: "x = (r, cfg)" by fastforce
  have "triple (owes R as) (if r \<noteq> OTZ_OK then ret (- 1, cfg) else if elf_flag cfg = ELF_FLAG then elf_load img cfg else ret (OTZ_OK, cfg))
      (\<lambda>(r, cfg) w. stack_size cfg = TASK_STACK_SIZE \<and> owes R as w)" if "stack_size cfg = TASK_STACK_SIZE"
  proof (intro triple_if)
    have "triple (owes R as) (elf_load img cfg) (\<lambda>(r, cfg') w. stack_size cfg' = stack_size cfg \<and> owes R as w)"
      using assms(1) by (simp add: loader_ok_def)
    then show "triple (owes R as) (elf_load img cfg) (\<lambda>(r, cfg) w. stack_size cfg = TASK_STACK_SIZE \<and> owes R as w)"
      using that by simp
  qed (simp_all add: triple_ret that)
  then show "triple (\<lambda>w. stack_size (snd x) = TASK_STACK_SIZE \<and> owes R as w)
      (case x of (r, cfg) \<Rightarrow> if r \<noteq> OTZ_OK then ret (- 1, cfg)
        else if elf_flag cfg = ELF_FLAG then elf_load img cfg else ret (OTZ_OK, cfg))
      (\<lambda>(r, cfg) w. stack_size cfg = TASK_STACK_SIZE \<and> owes R as w)"
    unfolding x by (auto simp: triple_def)
qed (rule assms(3))

lemma sa_create_owes:
  assumes "loader_ok img"
  shows "triple (owes R as) (sa_create_entry_point img junk svc)
    (\<lambda>(r, cfg) w. (r = OTZ_OK \<longrightarrow> unat (stack_size cfg) \<le> MAX_BLOCK_SIZE) \<and> owes R as w)"
proof -
  have "triple (owes R as) (ret (- 1, junk)) (\<lambda>(r, cfg) w. (r = OTZ_OK \<longrightarrow> unat (stack_size cfg) \<le> MAX_BLOCK_SIZE) \<and> owes R as w)"
    by (rule triple_ret) (simp add: otz_codes)
  moreover have "triple (owes R as) (dispatch_task_init img)
      (\<lambda>(r, cfg) w. (r = OTZ_OK \<longrightarrow> unat (stack_size cfg) \<le> MAX_BLOCK_SIZE) \<and> owes R as w)"
    using service_sizes
    by (intro triple_weaken [OF frames_result [OF frames_dispatch_init, where S="\<lambda>x. stack_size (snd x) = TASK_STACK_SIZE"]])
      (auto dest: init_stacks(6))
  moreover have "triple (owes R as) (andthen init (\<lambda>(r, cfg). if r \<noteq> OTZ_OK then ret (- 1, cfg)
        else if elf_flag cfg = ELF_FLAG then elf_load img cfg else ret (OTZ_OK, cfg)))
      (\<lambda>(r, cfg) w. (r = OTZ_OK \<longrightarrow> unat (stack_size cfg) \<le> MAX_BLOCK_SIZE) \<and> owes R as w)"
    if "frames init" "\<And>w x w'. init w = Inr (x, w') \<Longrightarrow> stack_size (snd x) = TASK_STACK_SIZE" for init
    using service_sizes by (intro triple_weaken [OF loaded_owes [OF assms that]]) auto
  ultimately show ?thesis
    unfolding sa_create_entry_point_def Let_def using frames_inits
    by (intro triple_if) (auto dest: init_stacks)
qed

lemma sa_destroy_owes:
  assumes "loader_ok img"
  shows "triple (owes R as) (sa_destroy_entry_point img svc d flag) (\<lambda>_. owes R as)"
  unfolding sa_destroy_entry_point_def
proof (rule triple_andthen [where R="\<lambda>_. owes R as"])
  show "triple (owes R as) (if flag = ELF_FLAG_MAP then elf_loader_cleanup img else ret ()) (\<lambda>_. owes R as)"
    using assms by (auto simp: loader_ok_def intro: triple_ret)
qed (auto intro!: frames_owes)

text \<open>Only null pointers may be left over.\<close>

definition settled :: "(nat \<Rightarrow> nat) \<Rightarrow> sw_world \<Rightarrow> bool" where
  "settled R w \<longleftrightarrow> (\<exists>zs. set zs \<subseteq> {0} \<and> owes R zs w)"

lemma settled_refs:
  assumes "settled (refs_of (pt_of w)) w'" "0 < j" "j < 4096"
  shows "refs_of (pt_of w') j = refs_of (pt_of w) j"
proof -
  obtain zs where z: "set zs \<subseteq> {0}" "owes (refs_of (pt_of w)) zs w'" using assms(1) by (auto simp: settled_def)
  have "l1_index 0 = 0" by (simp add: l1_index_def)
  then have "in_section j zs = 0" using z(1) assms(2) by (induction zs) auto
  then show ?thesis using z(2) assms(3) by (fastforce simp: owes_def)
qed

lemma owes_settled: "owes R zs w \<Longrightarrow> set zs \<subseteq> {0} \<Longrightarrow> settled R w"
  by (auto simp: settled_def)

lemma release_three:
  assumes "as = [svc, ctx, cmd] \<or> as = [ctx, svc, cmd]"
  shows "triple (owes R as) (release_session svc ctx cmd r) (\<lambda>_. settled R)"
  unfolding release_session_def
  by (rule triple_andthen [OF unmap_if_owes] triple_andthen [OF unmap_if_owes] triple_andthen [OF unmap_if_owes] triple_ret owes_settled
    | use assms in \<open>auto simp: given_back_def\<close>)+

lemma release_two:
  "triple (owes R [ctx, cmd]) (release_session 0 ctx cmd r) (\<lambda>_. settled R)"
  unfolding release_session_def
  by (rule triple_andthen [OF unmap_if_owes] triple_ret owes_settled | auto simp: given_back_def)+

lemma release_one:
  "triple (owes R [cmd]) (release_session 0 0 cmd r) (\<lambda>_. settled R)"
  unfolding release_session_def
  by (rule triple_andthen [OF unmap_if_owes] triple_ret owes_settled | auto simp: given_back_def)+


lemma frames_then: "frames f \<Longrightarrow> (\<And>x. triple (owes R as) (g x) Q) \<Longrightarrow> triple (owes R as) (andthen f g) Q"
  by (rule triple_andthen [OF frames_owes])

lemma map_then:
  assumes "length as \<le> 20" "triple (owes R (p # as)) (g p) Q"
  shows "triple (owes R as) (andthen (map_ptr p) (\<lambda>(r, v). if r \<noteq> 0 then e r v else g v)) Q"
proof (rule triple_andthen [OF map_ptr_owes [OF assms(1)]])
  show "triple ((case x of (r, v) \<Rightarrow> \<lambda>w. r = 0 \<and> v = p \<and> owes R (p # as) w)) (case x of (r, v) \<Rightarrow> if r \<noteq> 0 then e r v else g v) Q" for x
    using assms(2) by (cases x) (auto simp: triple_def)
qed

text \<open>Statements after which exactly the same references are held.\<close>

definition keeps :: "'a wm \<Rightarrow> bool" where
  "keeps f \<longleftrightarrow> (\<forall>R as. triple (owes R as) f (\<lambda>_. owes R as))"

named_theorems keeping \<open>statements that keep all references\<close>

lemma keepsI: "(\<And>R as. triple (owes R as) f (\<lambda>_. owes R as)) \<Longrightarrow> keeps f"
  by (simp add: keeps_def)

lemma keepsD: "keeps f \<Longrightarrow> triple (owes R as) f (\<lambda>_. owes R as)"
  by (simp add: keeps_def)

lemma keeps_then: "keeps f \<Longrightarrow> (\<And>x. triple (owes R as) (g x) Q) \<Longrightarrow> triple (owes R as) (andthen f g) Q"
  by (rule triple_andthen [OF keepsD])

lemma keeps_andthen [keeping]: "keeps f \<Longrightarrow> (\<And>x. keeps (g x)) \<Longrightarrow> keeps (andthen f g)"
  by (rule keepsI) (auto intro: keeps_then keepsD)

lemma keeps_if [keeping]: "(b \<Longrightarrow> keeps f) \<Longrightarrow> (\<not> b \<Longrightarrow> keeps g) \<Longrightarrow> keeps (if b then f else g)"
  by simp

lemma keeps_frames: "frames f \<Longrightarrow> keeps f"
  by (rule keepsI) (rule frames_owes)

lemmas keeps_basic [keeping] = frames_basic [THEN keeps_frames] frames_ret [THEN keeps_frames] frames_close [THEN keeps_frames]
  frames_task_exit [THEN keeps_frames] frames_free [THEN keeps_frames]

lemma keeps_at: "(\<And>w. keeps (f w)) \<Longrightarrow> keeps (\<lambda>w. f w w)"
  by (rule keepsI) (auto intro: triple_at keepsD)

lemma keeps_pure: "(b \<Longrightarrow> keeps f) \<Longrightarrow> triple (\<lambda>w. b \<and> owes R as w) f (\<lambda>_. owes R as)"
  by (auto simp: keeps_def triple_def)

lemma keeps_crash [keeping]: "keeps crash"
  by (simp add: keeps_def triple_def crash_def)

lemma keeps_destroy: "loader_ok img \<Longrightarrow> keeps (sa_destroy_entry_point img svc d flag)"
  by (rule keepsI) (rule sa_destroy_owes)

lemma open_body_keeps:
  assumes "loader_ok img"
  shows "keeps (open_session_body img junk svc ctx cmd)"
proof (rule keepsI)
  fix R as
  have rest: "keeps (andthen (if r = OTZ_OK then sa_open_session cfg ctx else ret r) (\<lambda>r.
         andthen (if r \<noteq> OTZ_OK
                  then andthen (fetch32 svc) (\<lambda>svc. andthen (sa_destroy_entry_point img svc (sa_data cfg) (elf_flag cfg)) (\<lambda>_.
                         set_field Cmd_status cmd OTZ_STATUS_INCOMPLETE))
                  else andthen (fetch32 ctx) (\<lambda>_. andthen (set_field Ret_resp_buf_len cmd 4) (\<lambda>_.
                         set_field Cmd_status cmd OTZ_STATUS_COMPLETE))) (\<lambda>_. ret r)))"
    if "r = OTZ_OK \<longrightarrow> unat (stack_size cfg) \<le> MAX_BLOCK_SIZE" for r cfg
    using that by (intro keeping keeps_frames frames_open keeps_destroy assms) auto
  show "triple (owes R as) (open_session_body img junk svc ctx cmd) (\<lambda>_. owes R as)"
    unfolding open_session_body_def
  proof (rule frames_then [OF frames_basic(1)], rule triple_andthen [OF sa_create_owes [OF assms]], goal_cases)
    case (1 s x)
    obtain r cfg where x: "x = (r, cfg)" by fastforce
    show ?case unfolding x prod.case by (rule keeps_pure) (rule rest)
  qed
qed

lemma open_session_settles:
  assumes "loader_ok img"
  shows "triple (owes R []) (open_session_from_ns img junk param) (\<lambda>_. settled R)"
  unfolding open_session_from_ns_def
  by (intro map_then frames_then frames_basic triple_if release_one release_three keeps_then open_body_keeps assms) auto

lemma close_body_keeps:
  assumes "loader_ok img"
  shows "keeps (close_session_body img svc ctx cmd)"
  unfolding close_session_body_def
proof (intro keeping)
  fix i
  have "keeps (\<lambda>w. sa_destroy_entry_point img s (private_data (tls_mem (glob w) t)) (tls_elf_flag (tls_mem (glob w) t)) w)" for s t
    by (rule keeps_at) (rule keeps_destroy [OF assms])
  then have "keeps (andthen (fetch32 svc) (\<lambda>s. andthen (\<lambda>w. sa_destroy_entry_point img s (private_data (tls_mem (glob w) t))
               (tls_elf_flag (tls_mem (glob w) t)) w) (\<lambda>_.
             andthen (fetch32 ctx) (\<lambda>session. andthen (sa_close_session session) (\<lambda>_.
               set_field Cmd_status cmd OTZ_STATUS_COMPLETE)))))" for t
    by (intro keeping) auto
  then show "keeps (\<lambda>w. case get_task_tls i (glob w) of None \<Rightarrow> crash w
       | Some t \<Rightarrow> andthen (fetch32 svc) (\<lambda>s. andthen (\<lambda>w. sa_destroy_entry_point img s (private_data (tls_mem (glob w) t))
               (tls_elf_flag (tls_mem (glob w) t)) w) (\<lambda>_.
             andthen (fetch32 ctx) (\<lambda>session. andthen (sa_close_session session) (\<lambda>_.
               set_field Cmd_status cmd OTZ_STATUS_COMPLETE)))) w)"
    by (auto simp: keeps_def triple_def crash_def split: option.split)
qed

lemma close_session_settles:
  assumes "loader_ok img"
  shows "triple (owes R []) (close_session_from_ns img junk param) (\<lambda>_. settled R)"
  unfolding close_session_from_ns_def
  by (intro map_then frames_then frames_basic triple_if release_one release_three keeps_then close_body_keeps assms) auto


section \<open>Commands of services\<close>

text \<open>What the command loop expects of a service: if it succeeds it has given back what it mapped.\<close>

definition service_ok :: "(u32 \<Rightarrow> u32 \<Rightarrow> u32 \<Rightarrow> u32 \<Rightarrow> u32 \<Rightarrow> u32 \<Rightarrow> u32 \<Rightarrow> u32 wm) \<Rightarrow> bool" where
  "service_ok f \<longleftrightarrow> (\<forall>R as c req n res k m p. length as \<le> 8 \<longrightarrow>
     triple (owes R as) (f c req n res k m p) (\<lambda>r w. r = 0 \<longrightarrow> owes R as w))"

lemma map_if_then:
  assumes "length as \<le> 20" "\<And>v. triple (owes R (v # as)) (g v) Q" "triple (owes R as) (g 0) Q"
  shows "triple (owes R as) (andthen (map_if_len cmd len phys) (\<lambda>(r, v). if r \<noteq> 0 then e r v else g v)) Q"
proof -
  have "triple (owes R as) (map_if_len cmd len phys)
      (\<lambda>(r, v) w. r = 0 \<and> (owes R (v # as) w \<or> v = 0 \<and> owes R as w))"
    unfolding map_if_len_def
    by (intro frames_then frames_basic triple_if)
      (auto intro!: triple_ret triple_weaken [OF map_ptr_owes [OF assms(1)]])
  then show ?thesis
  proof (rule triple_andthen)
    show "triple (case x of (r, v) \<Rightarrow> \<lambda>w. r = 0 \<and> (owes R (v # as) w \<or> v = 0 \<and> owes R as w))
        (case x of (r, v) \<Rightarrow> if r \<noteq> 0 then e r v else g v) Q" for x
      using assms(2,3) by (cases x) (auto simp: triple_def)
  qed
qed

lemma release_buffers_result: "triple (\<lambda>_. True) (release_buffers b req res m cmd r) (\<lambda>r' _. r' = r)"
  by (auto simp: triple_def release_buffers_def andthen_def ret_def unmap_if_def unmap_ptr_def split: sum.split if_splits)

lemma process_command_settles:
  assumes f: "\<And>p. service_ok (services img p)" and as: "length as \<le> 8"
    and rel: "\<And>r. triple (owes R as) (release_buffers b req res m cmd r) (\<lambda>_. settled R)"
  shows "triple (owes R as) (process_command img junk sid t b cmd req res m) (\<lambda>r w. r = 0 \<longrightarrow> settled R w)"
proof -
  have last: "triple (\<lambda>w. r = 0 \<longrightarrow> owes R as w) (andthen (if r = 0 then set_field Cmd_status cmd OTZ_STATUS_COMPLETE else ret ()) (\<lambda>_.
      release_buffers b req res m cmd r)) (\<lambda>r w. r = 0 \<longrightarrow> settled R w)" for r
  proof (cases "r = 0")
    case True
    then have "triple (owes R as) (andthen (set_field Cmd_status cmd OTZ_STATUS_COMPLETE) (\<lambda>_. release_buffers b req res m cmd 0)) (\<lambda>_. settled R)"
      using rel by (intro frames_then frames_basic)
    then have "triple (owes R as) (andthen (set_field Cmd_status cmd OTZ_STATUS_COMPLETE) (\<lambda>_. release_buffers b req res m cmd 0))
        (\<lambda>r w. r = 0 \<longrightarrow> settled R w)" by (rule triple_weaken) simp_all
    then show ?thesis using True by simp
  next
    case False
    have "triple (\<lambda>_. True) (andthen (ret ()) (\<lambda>_. release_buffers b req res m cmd r)) (\<lambda>r' _. r' = r)"
      by (rule triple_andthen [of _ _ "\<lambda>_ _. True", OF triple_ret release_buffers_result]) simp
    then show ?thesis using False by (simp only: if_False) (erule triple_weaken, simp_all)
  qed
  have svc: "triple (owes R as) (if p \<noteq> 0 then andthen (get_field Req_buf_len cmd) (\<lambda>n. andthen (get_field Resp_buf_len cmd) (\<lambda>k.
      services img p c req n res k m q)) else ret junk) (\<lambda>r w. r = 0 \<longrightarrow> owes R as w)" for p c q
    using f as by (intro triple_if frames_then frames_basic) (auto simp: service_ok_def intro: triple_ret)
  show ?thesis
    unfolding process_command_def Let_def
  proof (intro frames_then frames_basic triple_if, goal_cases)
    case (1 c)
    show ?case
      by (rule triple_weaken [of "owes R as" _ "\<lambda>r _. r = SMC_EINVAL_ARG"])
        (auto simp: triple_def andthen_def set_field_def store32_def ret_def smc_consts)
  next
    case (2 c i j)
    show ?case by (rule triple_at) (rule triple_andthen [OF svc last])
  qed
qed

lemma release_buffers_settles:
  "triple (owes R [m, res, req, cmd]) (release_buffers True req res m cmd r) (\<lambda>_. settled R)"
  "triple (owes R [m, res, cmd]) (release_buffers True 0 res m cmd r) (\<lambda>_. settled R)"
  "triple (owes R [m, req, cmd]) (release_buffers True req 0 m cmd r) (\<lambda>_. settled R)"
  "triple (owes R [m, cmd]) (release_buffers True 0 0 m cmd r) (\<lambda>_. settled R)"
  unfolding release_buffers_def if_True
  by (rule triple_andthen [OF unmap_if_owes] triple_andthen [OF unmap_ptr_owes] triple_ret owes_settled | auto simp: given_back_def)+

lemma process_otzapi_settles:
  assumes f: "\<And>p. service_ok (services img p)"
  shows "triple (owes R []) (process_otzapi img junk sid t) (\<lambda>r w. r = 0 \<longrightarrow> settled R w)"
proof -
  note pc = process_command_settles [OF f]
  have "triple (owes R []) (andthen (map_ptr p) (\<lambda>(r, cmd).
      if r \<noteq> 0 then ret SMC_ENOMEM
      else andthen (map_if_len cmd Req_buf_len Req_buf_phys) (\<lambda>(r, req_buf).
        if r \<noteq> 0 then andthen (unmap_ptr cmd) (\<lambda>_. ret SMC_ENOMEM)
        else andthen (map_if_len cmd Resp_buf_len Resp_buf_phys) (\<lambda>(r, res_buf).
          if r \<noteq> 0 then release_buffers True req_buf res_buf 0 cmd SMC_ENOMEM
          else andthen (get_field Meta_data_phys cmd) (\<lambda>m. andthen (map_ptr m) (\<lambda>(r, meta_data).
            if r \<noteq> 0 then release_buffers True req_buf res_buf meta_data cmd SMC_ENOMEM
            else process_command img junk sid t True cmd req_buf res_buf meta_data))))))
      (\<lambda>r w. r = 0 \<longrightarrow> settled R w)" for p
    by (intro map_then map_if_then frames_then frames_basic pc release_buffers_settles) simp_all
  moreover have "triple (owes R []) (andthen (get_field Req_buf_phys cmd) (\<lambda>req_buf. andthen (get_field Resp_buf_phys cmd) (\<lambda>res_buf.
      andthen (get_field Meta_data_phys cmd) (\<lambda>meta_data. process_command img junk sid t False cmd req_buf res_buf meta_data))))
      (\<lambda>r w. r = 0 \<longrightarrow> settled R w)" for cmd
    by (intro frames_then frames_basic pc) (auto simp: release_buffers_def intro!: triple_ret owes_settled)
  ultimately show ?thesis unfolding triple_def process_otzapi_def Let_def by simp
qed

section \<open>The DRM service keeps the contract\<close>

lemma decode_at_owes:
  assumes "length as \<le> 20"
  shows "triple (owes R as) (decode_at d m off pos)
    (\<lambda>x w. \<forall>e. x = Some e \<longrightarrow> (if d_mapped e then d_type e = OTZ_MEM_REF \<and> owes R (d_data e # as) w else owes R as w))"
proof (rule tripleI, intro allI impI)
  fix w x w' e
  assume o: "owes R as w" and dec: "decode_at d m off pos w = Inr (x, w')" and x: "x = Some e"
  define v where "v = w\<lparr>dram := seen w, fetches := fetches w + 1\<rparr>"
  have pv: "pt_of v = pt_of w" by (simp add: v_def pt_of_def)
  have ov: "owes R as v" using o by (rule owes_cong) (use owes_heaps [OF o] in \<open>simp_all add: v_def\<close>)
  obtain s where s: "decode_data (read32 (seen w)) d (meta_at (seen w) m) off pos (pt_of v) = Inr (Some e, s)" "w' = put_pt s v"
    unfolding pv using dec by (auto simp: decode_at_def Let_def x v_def split: sum.splits)
  have same: "owes R as (put_pt (pt_of v) v)" using ov by (simp add: owes_def sections_only_def)
  show "if d_mapped e then d_type e = OTZ_MEM_REF \<and> owes R (d_data e # as) w' else owes R as w'"
  proof (cases "d_mapped e")
    case True
    let ?p = "read32 (seen w) (d + 4 * off)"
    obtain r a where map: "map_to_ns ?p (pt_of v) = Inr (r, a, s)" "r = 0" "d_type e = OTZ_MEM_REF"
        "d_data e = (case a of Some a \<Rightarrow> a | None \<Rightarrow> 0)"
      using s(1) True by (auto simp: decode_data_def Let_def split: if_splits sum.splits prod.splits)
    then have "map_ptr ?p v = Inr ((0, d_data e), w')" using s(2) by (simp add: map_ptr_def)
    from tripleD [OF map_ptr_owes [OF assms] ov this] show ?thesis using True map(3) by simp
  next
    case False
    then have "s = pt_of v"
      using s(1) by (auto simp: decode_data_def Let_def split: if_splits sum.splits prod.splits)
    then show ?thesis using False same s(2) by simp
  qed
qed

lemma read_request_keeps:
  assumes "length as \<le> 8" "ty = OTZ_ENC_ARRAY \<or> ty = OTZ_MEM_REF"
  shows "triple (owes R as) (read_request ty frame req m) (\<lambda>ok w. ok \<longrightarrow> owes R as w)"
  unfolding read_request_def
proof (rule triple_andthen [OF decode_at_owes], use assms(1) in simp, goal_cases)
  case (1 x)
  have snd_part: "triple (\<lambda>w. \<forall>e. (y :: decoded option) = Some e \<longrightarrow> (if d_mapped e then d_type e = OTZ_MEM_REF \<and> owes R (d_data e # as) w else owes R as w))
      (case y of None \<Rightarrow> ret False | Some e \<Rightarrow>
         if d_type e \<noteq> ty then ret False
         else andthen (fetch32 frame) (\<lambda>len. andthen (memcpy_at (frame + 4) (d_data e) len) (\<lambda>_.
           if ty = OTZ_MEM_REF \<and> d_mapped e then andthen (unmap_ptr (d_data e)) (\<lambda>_. ret True) else ret True)))
      (\<lambda>ok w. ok \<longrightarrow> owes R as w)" for y
  proof (cases y)
    case (Some e)
    have "triple (owes R (d_data e # as)) (andthen (fetch32 frame) (\<lambda>len. andthen (memcpy_at (frame + 4) (d_data e) len) (\<lambda>_.
        andthen (unmap_ptr (d_data e)) (\<lambda>_. ret True)))) (\<lambda>ok w. ok \<longrightarrow> owes R as w)"
      by (rule frames_then [OF frames_basic(1)], rule frames_then [OF frames_basic(8)],
          rule triple_andthen [OF unmap_ptr_owes]) (auto intro: triple_ret)
    moreover have "triple (owes R as) (andthen (fetch32 frame) (\<lambda>len. andthen (memcpy_at (frame + 4) (d_data e) len) (\<lambda>_. ret True)))
        (\<lambda>ok w. ok \<longrightarrow> owes R as w)"
      by (intro frames_then frames_basic triple_ret) simp
    ultimately show ?thesis using Some assms(2)
      by (cases "d_mapped e") (auto simp: enc_consts triple_def ret_def)
  qed (simp add: triple_ret)
  show ?case
  proof (cases x)
    case (Some e)
    have "triple (owes R as) (andthen (fetch32 (d_data e)) (\<lambda>len. andthen (store32 frame len) (\<lambda>_.
         andthen (decode_at req m (d_offset e) (d_pos e)) (\<lambda>e. case e of None \<Rightarrow> ret False | Some e \<Rightarrow>
           if d_type e \<noteq> ty then ret False
           else andthen (fetch32 frame) (\<lambda>len. andthen (memcpy_at (frame + 4) (d_data e) len) (\<lambda>_.
             if ty = OTZ_MEM_REF \<and> d_mapped e then andthen (unmap_ptr (d_data e)) (\<lambda>_. ret True) else ret True))))))
        (\<lambda>ok w. ok \<longrightarrow> owes R as w)"
      using assms(1) by (intro frames_then frames_basic triple_andthen [OF decode_at_owes snd_part]) simp
    then show ?thesis using Some
      by (cases "d_type e = OTZ_ENC_UINT32"; cases "d_mapped e") (auto simp: enc_consts triple_def ret_def)
  qed (simp add: triple_ret)
qed


lemma write_response_keeps:
  assumes "length as \<le> 8" "ty = OTZ_ENC_ARRAY \<or> ty = OTZ_MEM_REF \<and> unmaps"
  shows "triple (owes R as) (write_response ty unmaps frame res m) (\<lambda>ok w. ok \<longrightarrow> owes R as w)"
  unfolding write_response_def
proof (rule triple_andthen [OF decode_at_owes], use assms(1) in simp, goal_cases)
  case (1 x)
  show ?case
  proof (cases x)
    case (Some e)
    have len: "frames (update_len_at m (d_pos e) n)" for n unfolding update_len_at_def by auto
    have "triple (owes R (d_data e # as)) (andthen (fetch32 frame) (\<lambda>len. andthen (memcpy_at (d_data e) (frame + 4) len) (\<lambda>_.
        andthen (update_len_at m (d_pos e) len) (\<lambda>ok.
          if \<not> ok then ret False else andthen (unmap_ptr (d_data e)) (\<lambda>_. ret True))))) (\<lambda>ok w. ok \<longrightarrow> owes R as w)"
      by (rule frames_then [OF frames_basic(1)], rule frames_then [OF frames_basic(8)], rule frames_then [OF len],
          rule triple_if, rule triple_ret, simp, rule triple_andthen [OF unmap_ptr_owes]) (auto intro: triple_ret)
    moreover have "triple (owes R as) (andthen (fetch32 frame) (\<lambda>len. andthen (memcpy_at (d_data e) (frame + 4) len) (\<lambda>_.
        andthen (update_len_at m (d_pos e) len) (\<lambda>ok. if \<not> ok then ret False else ret True)))) (\<lambda>ok w. ok \<longrightarrow> owes R as w)"
      by (intro frames_then frames_basic len triple_if triple_ret) simp_all
    ultimately show ?thesis using Some assms(2)
      by (cases "d_mapped e") (auto simp: enc_consts triple_def ret_def)
  qed (simp add: triple_ret)
qed

lemma process_cmd_keeps:
  assumes "triple (owes R as) rq (\<lambda>ok w. ok \<longrightarrow> owes R as w)" "triple (owes R as) rs (\<lambda>ok w. ok \<longrightarrow> owes R as w)"
  shows "triple (owes R as) (process_cmd rq rs frame n k p) (\<lambda>r w. r = 0 \<longrightarrow> owes R as w)"
proof -
  have fin: "triple (\<lambda>w. ok \<longrightarrow> owes R as w) (if \<not> ok then ret SMC_EINVAL_ARG else f) (\<lambda>r w. r = 0 \<longrightarrow> owes R as w)"
    if "triple (owes R as) f (\<lambda>r w. r = 0 \<longrightarrow> owes R as w)" for ok f
    using that by (auto simp: triple_def ret_def smc_consts)
  have "triple (owes R as) (andthen rs (\<lambda>ok. if \<not> ok then ret SMC_EINVAL_ARG
      else andthen (fetch32 frame) (\<lambda>len. andthen (store32 p len) (\<lambda>_. ret 0)))) (\<lambda>r w. r = 0 \<longrightarrow> owes R as w)"
    by (rule triple_andthen [OF assms(2) fin]) (intro frames_then frames_basic triple_ret, simp)
  then have rest: "triple (owes R as) (if k > 0 then andthen rs (\<lambda>ok. if \<not> ok then ret SMC_EINVAL_ARG
      else andthen (fetch32 frame) (\<lambda>len. andthen (store32 p len) (\<lambda>_. ret 0))) else ret 0) (\<lambda>r w. r = 0 \<longrightarrow> owes R as w)"
    by (auto intro: triple_ret)
  have "triple (owes R as) (if n > 0 then rq else ret True) (\<lambda>ok w. ok \<longrightarrow> owes R as w)"
    using assms(1) by (auto intro: triple_ret)
  then show ?thesis unfolding process_cmd_def by (rule triple_andthen [OF _ fin [OF rest]])
qed

lemma drm_service_ok: "service_ok (process_otz_drm_svc frame)"
  unfolding service_ok_def process_otz_drm_svc_def process_otz_drm_send_cmd_def process_otz_drm_send_cmd_shared_buf_def
    process_otz_echo_send_cmd_def process_otz_echo_send_cmd_shared_buf_def
  by (auto intro!: process_cmd_keeps read_request_keeps write_response_keeps triple_ret simp: smc_consts)

section \<open>The kernel with its parameters\<close>

text \<open>
  The interface between the command loop and the code it calls: the loader and the services keep
  their contracts. The settlement of sessions and commands is proved once for all such images.
\<close>

locale kernel =
  fixes img :: kernel_image
  assumes loader: "loader_ok img" and services: "service_ok (services img p)"
begin

lemma open_settles: "owes R [] w \<Longrightarrow> open_session_from_ns img junk param w = Inr (r, w') \<Longrightarrow> settled R w'"
  using tripleD [OF open_session_settles [OF loader]] .

lemma close_settles: "owes R [] w \<Longrightarrow> close_session_from_ns img junk' param w = Inr (r, w') \<Longrightarrow> settled R w'"
  using tripleD [OF close_session_settles [OF loader]] .

lemma process_settles: "owes R [] w \<Longrightarrow> process_otzapi img junk'' sid t w = Inr (0, w') \<Longrightarrow> settled R w'"
  using tripleD [OF process_otzapi_settles [OF services]] by blast

end

text \<open>An image without ELF files, whose services are all handled by the DRM service.\<close>

definition drm_image :: "u32 \<Rightarrow> kernel_image" where
  "drm_image frame = \<lparr>at_dispatch_task = 0x8000, at_echo_task = 0x8100, at_echo_svc = 0x8200, at_drm_task = 0x8300,
     at_drm_svc = 0x8400, at_crypto_task = 0x8500, at_crypto_svc = 0x8600, elf_load = (\<lambda>cfg. ret (OTZ_EFAIL, cfg)),
     elf_loader_cleanup = ret (), boot_ack = ret (), spsr_init = 0x1f, at_default_wake = 0x8700,
     driver_wake = (\<lambda>_ _ _ s. s), services = (\<lambda>_. process_otz_drm_svc frame)\<rparr>"

lemma drm_loader_ok: "loader_ok (drm_image frame)"
  by (simp add: loader_ok_def drm_image_def triple_def ret_def)

interpretation drm_kernel: kernel "drm_image frame" for frame
  by unfold_locales (rule drm_loader_ok, simp add: drm_image_def drm_service_ok)

end
