(* ===== verification/SecureApiProps.thy ===== *)
theory SecureApiProps
  imports SecureApiInv
begin

text \<open>
  The properties of sessions, commands and services: what holds whatever the normal world writes
  while the secure kernel reads, and what the functions do in the cases they do not handle.
\<close>

section \<open>References of shared memory\<close>

lemma settled_same:
  assumes "settled (refs_of (pt_of w)) w'"
  shows "pt_inv (pt_of w') \<and> (\<forall>j. 0 < j \<and> j < 4096 \<longrightarrow> refs_of (pt_of w') j = refs_of (pt_of w) j)"
proof -
  obtain zs where "owes (refs_of (pt_of w)) zs w'" using assms by (auto simp: settled_def)
  then have "pt_inv (pt_of w')" by (simp add: owes_def)
  then show ?thesis using settled_refs [OF assms] by simp
qed

text \<open>
  C1. Whatever the normal world writes meanwhile, opening or closing a session for it gives back every
  reference of a shared section that it takes, on success and on every error. The lowest section is
  the exception: a mapping at address zero is taken for a failed one and kept.
\<close>

theorem session_references_balanced:
  assumes "loader_ok img" "pt_inv (pt_of w)" "sections_only (ptab w)" "\<forall>j<4096. refs_of (pt_of w) j < 2 ^ 31"
    and "open_session_from_ns img junk param w = Inr (r, w') \<or> close_session_from_ns img junk_ret param w = Inr (r, w')"
  shows "pt_inv (pt_of w') \<and> (\<forall>j. 0 < j \<and> j < 4096 \<longrightarrow> refs_of (pt_of w') j = refs_of (pt_of w) j)"
proof -
  have "owes (refs_of (pt_of w)) [] w" using assms(2-4) by (simp add: owes_def)
  then have "settled (refs_of (pt_of w)) w'"
    using assms(5) tripleD [OF open_session_settles [OF assms(1)]] tripleD [OF close_session_settles [OF assms(1)]] by metis
  then show ?thesis by (rule settled_same)
qed

text \<open>
  C11. A command of the normal world that succeeds leaves the references of all shared sections as they were,
  again but for mappings at address zero, provided that the service which processes it gives back what it
  maps when it succeeds. The DRM service does.
\<close>

theorem process_otzapi_balanced:
  assumes "\<And>p. service_ok (services img p)" "pt_inv (pt_of w)" "sections_only (ptab w)" "\<forall>j<4096. refs_of (pt_of w) j < 2 ^ 31"
    and "process_otzapi img junk sid t w = Inr (0, w')"
  shows "pt_inv (pt_of w') \<and> (\<forall>j. 0 < j \<and> j < 4096 \<longrightarrow> refs_of (pt_of w') j = refs_of (pt_of w) j)"
proof -
  have "owes (refs_of (pt_of w)) [] w" using assms(2-4) by (simp add: owes_def)
  from tripleD [OF process_otzapi_settles [OF assms(1)] this assms(5)]
  have "settled (refs_of (pt_of w)) w'" by simp
  then show ?thesis by (rule settled_same)
qed

section \<open>Stepping through the functions\<close>

definition quiet :: "sw_world \<Rightarrow> bool" where
  "quiet w \<longleftrightarrow> ns_writes w = (\<lambda>_ _. None)"

lemma seen_quiet: "quiet w \<Longrightarrow> seen w = dram w"
  by (simp add: quiet_def seen_def)

lemma andthen_Inr: "f w = Inr (x, w') \<Longrightarrow> andthen f g w = g x w'"
  by (simp add: andthen_def)

text \<open>Mapping changes nothing besides the page table and the heaps; reading only counts.\<close>

definition same_but_pt :: "sw_world \<Rightarrow> sw_world \<Rightarrow> bool" where
  "same_but_pt w w' \<longleftrightarrow> dram w' = dram w \<and> ns_writes w' = ns_writes w \<and> tls_mem (glob w') = tls_mem (glob w) \<and>
     task_list (glob w') = task_list (glob w) \<and> task_mem (glob w') = task_mem (glob w)"

lemma map_ptr_step:
  assumes "owes R as w" "length as \<le> 20"
  shows "\<exists>w1. map_ptr p w = Inr ((0, p), w1) \<and> owes R (p # as) w1 \<and> same_but_pt w w1"
proof -
  have i: "l1_index p < 4096" by (rule l1_index_less)
  have "refs_of (pt_of w) (l1_index p) < 2 ^ 31 + 21"
    using assms in_section_le [of "l1_index p" as] i by (fastforce simp: owes_def)
  then have "pt_ok (pt_of w) (MapNs p)" using assms(1) i by (simp add: owes_def sections_only_def)
  then obtain s where s: "map_to_ns p (pt_of w) = Inr (0, Some p, s)"
    using map_to_ns_spec [of "pt_of w" p] assms(1) by (auto simp: owes_def)
  then have m: "map_ptr p w = Inr ((0, p), put_pt s w)" by (simp add: map_ptr_def)
  moreover have "owes R (p # as) (put_pt s w)" using tripleD [OF map_ptr_owes [OF assms(2)] assms(1) m] by simp
  ultimately show ?thesis by (simp add: put_pt_def same_but_pt_def)
qed

lemma fetch_quiet: "quiet w \<Longrightarrow> fetch32 a w = Inr (read32 (dram w) a, w\<lparr>fetches := Suc (fetches w)\<rparr>)"
  by (simp add: fetch32_def seen_quiet)

lemma field_quiet: "quiet w \<Longrightarrow> get_field f cmd w = Inr (read32 (dram w) (cmd + smc_off f), w\<lparr>fetches := Suc (fetches w)\<rparr>)"
  by (simp add: get_field_def fetch_quiet)

lemma owes_fetches [simp]: "owes R as (w\<lparr>fetches := n\<rparr>) = owes R as w" "quiet (w\<lparr>fetches := n\<rparr>) = quiet w"
  by (simp_all add: owes_def pt_of_def quiet_def)

text \<open>
  A command of the normal world for another session than that of the task is refused before the
  mapped buffers are given back: the section of the command keeps a reference for ever.
\<close>

theorem session_mismatch_leaks:
  assumes "pt_inv (pt_of w)" "sections_only (ptab w)" "\<forall>j<4096. refs_of (pt_of w) j < 2 ^ 31" "quiet w"
    and "params (tls_mem (glob w) t) = [k, cmd, OTZ_CMD_TYPE_NS_TO_SECURE, x]"
    and "read32 (dram w) (cmd + smc_off Req_buf_len) = 0" "read32 (dram w) (cmd + smc_off Resp_buf_len) = 0"
    and "read32 (dram w) (cmd + smc_off Context) \<noteq> sid" "0 < refs_of (pt_of w) (l1_index cmd)"
  shows "\<exists>w'. process_otzapi img junk sid t w = Inr (SMC_EINVAL_ARG, w') \<and>
    refs_of (pt_of w') (l1_index cmd) > refs_of (pt_of w) (l1_index cmd)"
proof -
  let ?R = "refs_of (pt_of w)"
  have o: "owes ?R [] w" using assms(1-3) by (simp add: owes_def)
  obtain w1 where w1: "map_ptr cmd w = Inr ((0, cmd), w1)" "owes ?R [cmd] w1" "dram w1 = dram w" "ns_writes w1 = ns_writes w"
    using map_ptr_step [OF o] by (auto simp: same_but_pt_def)
  have q1: "quiet w1" using w1 assms(4) by (simp add: quiet_def)
  let ?m = "read32 (dram w) (cmd + smc_off Meta_data_phys)"
  obtain w2 where w2: "map_ptr ?m (w1\<lparr>fetches := Suc (Suc (Suc (fetches w1)))\<rparr>) = Inr ((0, ?m), w2)" "owes ?R [?m, cmd] w2" "dram w2 = dram w"
      "ns_writes w2 = ns_writes w"
    using map_ptr_step [of ?R "[cmd]" "w1\<lparr>fetches := Suc (Suc (Suc (fetches w1)))\<rparr>" ?m] w1 by (auto simp: same_but_pt_def)
  have q2: "quiet w2" using w2 assms(4) by (simp add: quiet_def)
  define w' where "w' = w2\<lparr>fetches := Suc (fetches w2), dram := write32 (cmd + smc_off Cmd_status) OTZ_STATUS_COMPLETE (dram w)\<rparr>"
  have "process_otzapi img junk sid t w = Inr (SMC_EINVAL_ARG, w')"
    using assms(5-8) w1(1,3) w2(1,3)
    by (simp add: process_otzapi_def map_if_len_def andthen_def field_quiet q1 q2 ret_def
        process_command_def set_field_def store32_def w'_def)
  moreover have "owes ?R [?m, cmd] w'"
    using w2(2) owes_heaps [OF w2(2)] by (elim owes_cong) (simp_all add: w'_def)
  then have "refs_of (pt_of w') (l1_index cmd) = ?R (l1_index cmd) + in_section (l1_index cmd) [?m, cmd]"
    using assms(9) l1_index_less [of cmd] by (simp add: owes_def)
  ultimately show ?thesis by auto
qed

text \<open>
  C21. Closing a session that does not exist makes the kernel read through a null pointer: the
  local storage of the task is used without a test.
\<close>

theorem close_unknown_session_crashes:
  assumes "pt_inv (pt_of w)" "sections_only (ptab w)" "\<forall>j<4096. refs_of (pt_of w) j < 2 ^ 31" "quiet w"
    and "read32 (dram w) (cmd + smc_off Req_buf_len) \<noteq> 0"
    and "get_task (read32 (dram w) (read32 (dram w) (cmd + smc_off Resp_buf_phys))) (glob w) = None"
  shows "close_session_from_ns img junk cmd w = Inl CORRUPTED"
proof -
  let ?R = "refs_of (pt_of w)"
  have o: "owes ?R [] w" using assms(1-3) by (simp add: owes_def)
  obtain w1 where w1: "map_ptr cmd w = Inr ((0, cmd), w1)" "owes ?R [cmd] w1" "same_but_pt w w1"
    using map_ptr_step [OF o] by auto
  let ?f = "\<lambda>w. w\<lparr>fetches := Suc (fetches w)\<rparr>" and ?req = "read32 (dram w) (cmd + smc_off Req_buf_phys)"
    and ?resp = "read32 (dram w) (cmd + smc_off Resp_buf_phys)"
  obtain w2 where w2: "map_ptr ?req (?f (?f w1)) = Inr ((0, ?req), w2)" "owes ?R [?req, cmd] w2" "same_but_pt w w2"
    using map_ptr_step [of ?R "[cmd]" "?f (?f w1)" ?req] w1 by (auto simp: same_but_pt_def)
  obtain w3 where w3: "map_ptr ?resp (?f w2) = Inr ((0, ?resp), w3)" "same_but_pt w w3"
    using map_ptr_step [of ?R "[?req, cmd]" "?f w2" ?resp] w2 by (auto simp: same_but_pt_def)
  have q: "quiet w1" "quiet w2" "quiet w3" "dram w1 = dram w" "dram w2 = dram w" "dram w3 = dram w"
    using w1(3) w2(3) w3(2) assms(4) by (auto simp: same_but_pt_def quiet_def)
  have "get_task_tls (read32 (dram w) ?resp) (glob w3) = None"
    using w3(2) assms(6) by (simp add: same_but_pt_def get_task_tls_def get_task_def)
  then show ?thesis
    using w1(1) w2(1) w3(1) assms(5) q
    by (simp add: close_session_from_ns_def close_session_body_def andthen_def field_quiet fetch_quiet crash_def)
qed

section \<open>The dispatcher\<close>

text \<open>A statement that answers nothing to the normal world.\<close>

definition silent :: "'a wm \<Rightarrow> bool" where
  "silent f \<longleftrightarrow> (\<forall>w x w'. f w = Inr (x, w') \<longrightarrow> returned w' = returned w)"

lemma silentD: "silent f \<Longrightarrow> f w = Inr (x, w') \<Longrightarrow> returned w' = returned w"
  unfolding silent_def by blast

lemma silent_ret [intro]: "silent (ret x)"
  by (simp add: silent_def ret_def)

lemma silent_andthen [intro]: "silent f \<Longrightarrow> (\<And>x. silent (g x)) \<Longrightarrow> silent (andthen f g)"
  unfolding silent_def andthen_def by (fastforce split: sum.splits)

lemma silent_if [intro]: "(b \<Longrightarrow> silent f) \<Longrightarrow> (\<not> b \<Longrightarrow> silent g) \<Longrightarrow> silent (if b then f else g)"
  by simp

lemma silent_pair [intro]: "(\<And>a b. silent (f a b)) \<Longrightarrow> silent (case x of (a, b) \<Rightarrow> f a b)"
  by (cases x) simp

lemma silent_basic [intro]:
  "silent (fetch32 a)" "silent (store32 a v)" "silent (memset_at p c n)" "silent (get_field f cmd)" "silent (set_field f cmd v)"
  "silent (set_secure_api_ret r)" "silent (on_glob h)" "silent (free_here p)" "silent (unmap_ptr p)" "silent (sa_close_session i)"
  by (auto simp: silent_def fetch32_def store32_def memset_at_def get_field_def set_field_def set_secure_api_ret_def
      on_glob_def free_here_def unmap_ptr_def put_pt_def sa_close_session_def split: prod.splits)

lemma silent_partial [intro]:
  "silent (map_ptr p)" "silent (malloc_here n)" "silent (malloc_common n)" "silent (sa_open_session cfg p)"
  by (auto simp: silent_def map_ptr_def malloc_here_def malloc_common_def sa_open_session_def put_pt_def split: sum.splits)

lemma silent_unmap_if [intro]: "silent (unmap_if p)"
  unfolding unmap_if_def by auto

text \<open>The loader and the boot event do not answer either.\<close>

definition loader_silent :: "kernel_image \<Rightarrow> bool" where
  "loader_silent img \<longleftrightarrow> (\<forall>cfg. silent (elf_load img cfg)) \<and> silent (elf_loader_cleanup img) \<and> silent (boot_ack img)"

lemma silent_release [intro]: "silent (release_session svc ctx cmd r)"
  unfolding release_session_def by auto

lemma silent_at: "(\<And>w. silent (f w)) \<Longrightarrow> silent (\<lambda>w. f w w)"
  by (simp add: silent_def)

lemma silent_destroy: "loader_silent img \<Longrightarrow> silent (sa_destroy_entry_point img svc d flag)"
  unfolding sa_destroy_entry_point_def loader_silent_def task_exit_def by auto

lemma silent_create: "loader_silent img \<Longrightarrow> silent (sa_create_entry_point img junk svc)"
  unfolding sa_create_entry_point_def loader_silent_def Let_def dispatch_task_init_def echo_task_init_def drm_task_init_def
    crypto_task_init_def mutex_test_task_init_def virtual_keyboard_task_init_def
  by (intro silent_if silent_andthen silent_pair silent_ret silent_basic silent_partial) (auto simp: silent_def)

lemma silent_open: "loader_silent img \<Longrightarrow> silent (open_session_from_ns img junk param)"
  unfolding open_session_from_ns_def open_session_body_def
  by (intro silent_if silent_andthen silent_pair silent_ret silent_basic silent_partial silent_release silent_create silent_destroy)

lemma silent_case_at: "(\<And>t. silent (g t)) \<Longrightarrow> silent (\<lambda>w. case h w of None \<Rightarrow> crash w | Some t \<Rightarrow> g t w)"
  by (auto simp: silent_def crash_def split: option.splits)

lemma silent_close: "loader_silent img \<Longrightarrow> silent (close_session_from_ns img junk param)"
  unfolding close_session_from_ns_def
proof (intro silent_if silent_andthen silent_pair silent_basic silent_partial silent_release)
  assume l: "loader_silent img"
  have d: "silent (\<lambda>w. sa_destroy_entry_point img s (private_data (tls_mem (glob w) t)) (tls_elf_flag (tls_mem (glob w) t)) w)" for s t
    by (rule silent_at [OF silent_destroy [OF l]])
  show "silent (close_session_body img svc ctx cmd)" for svc ctx cmd
    unfolding close_session_body_def
    by (rule silent_andthen, rule silent_basic, rule silent_case_at) (intro silent_andthen silent_basic d)
qed

lemma silent_notify: "silent (register_notify_data_api param)" "silent unregister_notify_data_api"
proof -
  have "silent (andthen (map_ptr p) (\<lambda>(r, d) w. if r \<noteq> 0 then Inr (OTZ_ENOMEM, w) else Inr (OTZ_OK, w\<lparr>notify_data := d\<rparr>)))" for p
    by (intro silent_andthen silent_partial silent_pair) (simp add: silent_def)
  then have "silent (register_notify_data p)" for p by (simp only: register_notify_data_def)
  then show "silent (register_notify_data_api param)"
    unfolding register_notify_data_api_def
    by (intro silent_andthen silent_pair silent_if silent_partial silent_basic silent_unmap_if silent_ret)
  have "silent (\<lambda>w. unmap_if (notify_data w) w)" by (rule silent_at [OF silent_unmap_if])
  then show "silent unregister_notify_data_api"
    unfolding unregister_notify_data_api_def unregister_notify_data_def
    by (intro silent_andthen silent_ret) (simp_all add: silent_def)
qed

text \<open>
  What the normal world asks for with a command of the global service, and what the tasks that run
  between a reply and its delivery must leave to the dispatcher: the answers to the normal world
  and the clearing of the flag of a reply. They may overwrite the reply itself.
\<close>

definition global_call :: "kernel_image \<Rightarrow> sa_config \<Rightarrow> int \<Rightarrow> u32 \<Rightarrow> u32 \<Rightarrow> int wm" where
  "global_call img junk junk_ret cmd param =
     (if cmd = OTZ_GLOBAL_CMD_ID_BOOT_ACK then andthen (boot_ack img) (\<lambda>_. ret OTZ_OK)
      else if cmd = OTZ_GLOBAL_CMD_ID_OPEN_SESSION then open_session_from_ns img junk param
      else if cmd = OTZ_GLOBAL_CMD_ID_CLOSE_SESSION then close_session_from_ns img junk_ret param
      else if cmd = OTZ_GLOBAL_CMD_ID_REGISTER_NOTIFY_MEMORY then register_notify_data_api param
      else unregister_notify_data_api)"

definition leaves_replies :: "unit wm \<Rightarrow> bool" where
  "leaves_replies others \<longleftrightarrow> (\<forall>u u'. others u = Inr ((), u') \<longrightarrow>
     returned u' = returned u \<and> (secure_api_set u \<longrightarrow> secure_api_set u'))"

lemma silent_global_call:
  assumes "loader_silent img"
  shows "silent (global_call img junk junk_ret cmd param)"
  unfolding global_call_def
  using assms silent_open [OF assms] silent_close [OF assms] silent_notify
  by (auto simp: loader_silent_def)

lemma dispatch_global:
  assumes "valid_params_flag w" "\<not> secure_interrupt_set w" "params_stack w ! 0 = CALL_TRUSTZONE_API"
    and "get_api_context (w\<lparr>valid_params_flag := False\<rparr>) = Inr ((OTZ_SVC_GLOBAL, tid, cmd, OTZ_CMD_TYPE_NS_TO_SECURE), w0)"
    and "cmd \<in> {OTZ_GLOBAL_CMD_ID_BOOT_ACK, OTZ_GLOBAL_CMD_ID_OPEN_SESSION, OTZ_GLOBAL_CMD_ID_CLOSE_SESSION,
      OTZ_GLOBAL_CMD_ID_REGISTER_NOTIFY_MEMORY, OTZ_GLOBAL_CMD_ID_UNREGISTER_NOTIFY_MEMORY}"
  shows "dispatch_command img junk junk_ret w =
    andthen (global_call img junk junk_ret cmd (params_stack w ! 1)) (\<lambda>r. set_secure_api_ret (reply_code r)) w0"
proof -
  have d: "dispatch_command img junk junk_ret w =
      (if cmd = OTZ_GLOBAL_CMD_ID_BOOT_ACK then andthen (boot_ack img) (\<lambda>_. set_secure_api_ret 0)
       else andthen (global_call img junk junk_ret cmd (params_stack w ! 1)) (\<lambda>r. set_secure_api_ret (reply_code r))) w0"
    using assms by (auto simp: dispatch_command_def Let_def andthen_def [of get_api_context] global_call_def global_cmds)
  have "andthen (andthen (boot_ack img) (\<lambda>_. ret OTZ_OK)) (\<lambda>r. set_secure_api_ret (reply_code r)) w0 =
      andthen (boot_ack img) (\<lambda>_. set_secure_api_ret 0) w0"
    by (simp add: andthen_def ret_def reply_code_def otz_codes split: sum.split)
  then show ?thesis using d by (simp add: global_call_def)
qed

lemma silent_context: "silent get_api_context"
proof -
  have d: "silent (andthen (get_field Id cmd) (\<lambda>i. andthen (get_field Id cmd) (\<lambda>j. andthen (get_field Context cmd) (\<lambda>c.
      ret (svc_of i, c, cmd_of j, ty)))))" for cmd ty
    by (intro silent_andthen silent_basic silent_ret)
  have m: "silent (andthen (map_ptr p) (\<lambda>(r, cmd). if r \<noteq> 0 then ret (OTZ_SVC_INVALID, 0, OTZ_GLOBAL_CMD_ID_INVALID, ty)
      else andthen (andthen (get_field Id cmd) (\<lambda>i. andthen (get_field Id cmd) (\<lambda>j. andthen (get_field Context cmd) (\<lambda>c.
        ret (svc_of i, c, cmd_of j, ty))))) (\<lambda>x. andthen (unmap_ptr cmd) (\<lambda>_. ret x))))" for p ty
    by (intro silent_andthen silent_pair silent_if silent_partial silent_basic silent_ret)
  show ?thesis
    unfolding silent_def
  proof (intro allI impI)
    fix w x w' assume g: "get_api_context w = Inr (x, w')"
    show "returned w' = returned w"
    proof (cases "params_stack w ! 2 = OTZ_CMD_TYPE_NS_TO_SECURE")
      case True
      show ?thesis using g unfolding get_api_context_def Let_def if_P [OF True] by (rule silentD [OF m])
    next
      case False
      show ?thesis using g unfolding get_api_context_def Let_def if_not_P [OF False] by (rule silentD [OF d])
    qed
  qed
qed

text \<open>
  C8. A command of the normal world for the global service that opens or closes a session, acknowledges
  the boot or registers or forgets the notification memory is answered exactly once in the round of the
  dispatcher that reads it, provided that the round comes to its end (nothing in it stops the kernel).
  Before other tasks are scheduled the reply is set to \<open>SMC_ENOMEM\<close> or \<open>SMC_ERROR\<close> where the
  operation failed with \<open>OTZ_ENOMEM\<close> or \<open>OTZ_EFAIL\<close>, and to 0 otherwise. What the normal world receives is
  the reply that stands when the dispatcher runs again: this one, unless a task that was scheduled in
  between has set its own, which then takes its place. The other tasks are any that neither answer
  the normal world nor clear the flag of a reply, and so are the loader and the boot event.
\<close>

theorem dispatcher_answers_once:
  assumes "loader_silent img" "leaves_replies others"
    and "valid_params_flag w" "\<not> secure_interrupt_set w" "params_stack w ! 0 = CALL_TRUSTZONE_API"
    and "get_api_context (w\<lparr>valid_params_flag := False\<rparr>) = Inr ((OTZ_SVC_GLOBAL, tid, cmd, OTZ_CMD_TYPE_NS_TO_SECURE), w0)"
    and "cmd \<in> {OTZ_GLOBAL_CMD_ID_BOOT_ACK, OTZ_GLOBAL_CMD_ID_OPEN_SESSION, OTZ_GLOBAL_CMD_ID_CLOSE_SESSION,
      OTZ_GLOBAL_CMD_ID_REGISTER_NOTIFY_MEMORY, OTZ_GLOBAL_CMD_ID_UNREGISTER_NOTIFY_MEMORY}"
    and "dispatch_round img junk junk_ret others w = Inr ((), w')"
  shows "\<exists>r code w1 w2. global_call img junk junk_ret cmd (params_stack w ! 1) w0 = Inr (r, w1) \<and>
    code = (if r = OTZ_ENOMEM then SMC_ENOMEM else if r = OTZ_EFAIL then SMC_ERROR else 0) \<and>
    others (w1\<lparr>secure_api_set := True, secure_api_ret_val := code\<rparr>) = Inr ((), w2) \<and>
    returned w' = returned w @ [secure_api_ret_val w2] \<and> \<not> secure_api_set w'"
proof -
  have r0: "returned w0 = returned w" using silentD [OF silent_context assms(6)] by simp
  obtain r w1 where g: "global_call img junk junk_ret cmd (params_stack w ! 1) w0 = Inr (r, w1)"
    using assms(8) dispatch_global [OF assms(3-7), of img junk junk_ret]
    by (auto simp: dispatch_round_def andthen_def split: sum.splits)
  let ?u = "w1\<lparr>secure_api_set := True, secure_api_ret_val := reply_code r\<rparr>"
  have "dispatch_command img junk junk_ret w = Inr ((), ?u)"
    using g dispatch_global [OF assms(3-7), of img junk junk_ret] by (simp add: andthen_def set_secure_api_ret_def)
  then obtain w2 where o: "others ?u = Inr ((), w2)" "dispatch_reply w2 = Inr ((), w')"
    using assms(8) by (auto simp: dispatch_round_def andthen_def split: sum.splits)
  have "returned w2 = returned ?u \<and> (secure_api_set ?u \<longrightarrow> secure_api_set w2)"
    using assms(2) o(1) unfolding leaves_replies_def by blast
  moreover have "returned w1 = returned w" using silentD [OF silent_global_call [OF assms(1)] g] r0 by simp
  ultimately show ?thesis
    using g o by (intro exI [of _ r] exI [of _ "reply_code r"] exI [of _ w1] exI [of _ w2])
      (auto simp: reply_code_def dispatch_reply_def andthen_def return_secure_api_def)
qed

text \<open>
  A command for a session that does not exist is not answered: the dispatcher has consumed the
  parameters, no task was started and no reply is set, so that, unless another task sets a reply,
  the normal world waits for ever.
\<close>

theorem unknown_session_unanswered:
  assumes "valid_params_flag w" "\<not> secure_interrupt_set w" "\<not> secure_api_set w" "params_stack w ! 0 = CALL_TRUSTZONE_API"
    and "get_api_context (w\<lparr>valid_params_flag := False\<rparr>) = Inr ((svc, tid, cmd, ty), w0)"
    and "svc \<noteq> OTZ_SVC_INVALID" "svc \<noteq> OTZ_SVC_GLOBAL" "tid \<noteq> 0" "cmd \<noteq> OTZ_GLOBAL_CMD_ID_INVALID"
    and "get_task tid (glob w0) = None" "\<not> secure_api_set w0"
  shows "dispatch_command img junk junk_ret w = Inr ((), w0) \<and> dispatch_reply w0 = Inr ((), w0) \<and> returned w0 = returned w"
proof -
  have "returned w0 = returned w" using silentD [OF silent_context assms(5)] by simp
  then show ?thesis using assms
    by (simp add: dispatch_command_def Let_def andthen_def on_glob_def start_task_def dispatch_reply_def)
qed

section \<open>Commands between tasks\<close>

lemma field_apart: "f \<noteq> g \<Longrightarrow> 3 < smc_off f - smc_off g"
  by (cases f; cases g) simp_all

lemma read_write_field:
  "read32 (write32 (c + smc_off f) v m) (c + smc_off g) = (if f = g then v else read32 m (c + smc_off g))"
  using field_apart [of f g] field_apart [of g f] by (auto simp: read_write_same read_write_other)

text \<open>The normal world cannot write the structure at \<open>c\<close>.\<close>

definition unshared :: "sw_world \<Rightarrow> u32 \<Rightarrow> bool" where
  "unshared w c \<longleftrightarrow> (\<forall>n f i. i < 4 \<longrightarrow> ns_writes w n (c + smc_off f + i) = None)"

lemma seen_field: "unshared w c \<Longrightarrow> read32 (seen w) (c + smc_off f) = read32 (dram w) (c + smc_off f)"
  unfolding unshared_def
proof -
  assume u: "\<forall>n f i. i < 4 \<longrightarrow> ns_writes w n (c + smc_off f + i) = None"
  have "seen w (c + smc_off f + i) = dram w (c + smc_off f + i)" if "i < 4" for i
    using u that by (simp add: seen_def)
  from this [of 0] this [of 1] this [of 2] this [of 3] show ?thesis by (simp add: read32_def)
qed

lemma unshared_field:
  assumes "unshared w c"
  shows "\<exists>w'. get_field f c w = Inr (read32 (dram w) (c + smc_off f), w') \<and> unshared w' c \<and> glob w' = glob w \<and>
    params_stack w' = params_stack w \<and> valid_params_flag w' = valid_params_flag w \<and>
    (\<forall>g. read32 (dram w') (c + smc_off g) = read32 (dram w) (c + smc_off g))"
  using assms by (simp add: get_field_def fetch32_def seen_field) (simp add: unshared_def)

lemma svc_cmd_of:
  assumes "svc < 1024" "cmd < 1024"
  shows "svc_of (push_bit 10 svc OR cmd) = svc" "cmd_of (push_bit 10 svc OR cmd) = cmd"
proof -
  have m: "svc AND mask 10 = svc" "cmd AND mask 10 = cmd"
    using assms by (simp_all add: and_mask_bintr take_bit_int_eq_self word_less_def)
  have "(0x3ff :: u32) = mask 10" by (simp add: mask_eq_exp_minus_1)
  have b: "bit svc n \<Longrightarrow> n < 10" "bit cmd n \<Longrightarrow> n < 10" for n
    using m by (metis bit_and_iff bit_mask_iff)+
  show "svc_of (push_bit 10 svc OR cmd) = svc" "cmd_of (push_bit 10 svc OR cmd) = cmd"
    unfolding svc_of_def cmd_of_def \<open>0x3ff = mask 10\<close>
    by (rule bit_word_eqI, fastforce simp: bit_simps dest: b)+
qed

text \<open>
  C18. A command that one task sends to another arrives: \<open>ipc_send\<close> stores it, marks the parameters as
  valid, lets the sender wait and enters the scheduler, and the dispatcher then reads back the
  service, the session and the command, as long as the service and the command fit their ten bits and
  the normal world cannot write the structure that carries them (\<open>unshared\<close>).
\<close>

theorem ipc_send_delivers:
  assumes "unshared w c" "svc < 1024" "cmd < 1024"
  shows "\<exists>w' w''. ipc_send c src_svc src svc session cmd enc meta w = Inr (OTZ_OK, w') \<and>
    valid_params_flag w' \<and> params_stack w' = [CALL_TRUSTZONE_API, c, OTZ_CMD_TYPE_SECURE_TO_SECURE, 0] \<and>
    glob w' = scheduler (suspend_task src TASK_STATE_WAIT (glob w)) \<and>
    get_api_context w' = Inr ((svc, session, cmd, OTZ_CMD_TYPE_SECURE_TO_SECURE), w'') \<and> glob w'' = glob w'"
proof -
  define m where "m = write32 (c + smc_off Meta_data_phys) meta (write32 (c + smc_off Resp_buf_phys) (res_addr enc)
    (write32 (c + smc_off Req_buf_phys) (req_addr enc) (write32 (c + smc_off Ret_resp_buf_len) 0
    (write32 (c + smc_off Resp_buf_len) (enc_res_offset enc) (write32 (c + smc_off Req_buf_len) (enc_req_offset enc)
    (write32 (c + smc_off Context) session (write32 (c + smc_off Id) (push_bit 10 svc OR cmd)
    (write32 (c + smc_off Src_context) src (write32 (c + smc_off Src_id) (push_bit 10 src_svc) (dram w))))))))))"
  define v where "v = w\<lparr>dram := m, params_stack := [CALL_TRUSTZONE_API, c, OTZ_CMD_TYPE_SECURE_TO_SECURE, 0], valid_params_flag := True\<rparr>"
  have dv: "dram v = m" by (simp add: v_def)
  have f: "read32 (dram v) (c + smc_off Id) = push_bit 10 svc OR cmd" "read32 (dram v) (c + smc_off Context) = session"
      "read32 (dram v) (c + smc_off Src_context) = src"
    unfolding dv m_def by (simp_all only: read_write_field smc_field.distinct if_True if_False simp_thms)
  have u: "unshared v c" using assms(1) by (simp add: unshared_def v_def)
  obtain v1 where v1: "get_field Src_context c v = Inr (src, v1)" "unshared v1 c" "glob v1 = glob w" "params_stack v1 = params_stack v"
      "valid_params_flag v1" "\<And>g. read32 (dram v1) (c + smc_off g) = read32 (dram v) (c + smc_off g)"
    using unshared_field [OF u, of Src_context] f(3) by (auto simp: v_def)
  define w' where "w' = v1\<lparr>glob := scheduler (suspend_task src TASK_STATE_WAIT (glob w))\<rparr>"
  have "ipc_send c src_svc src svc session cmd enc meta w = Inr (OTZ_OK, w')"
    using v1(1,3) by (simp add: ipc_send_def andthen_def set_field_def store32_def otz_ipi_def on_glob_def ret_def w'_def v_def m_def)
  moreover have u': "unshared w' c" "\<And>g. read32 (dram w') (c + smc_off g) = read32 (dram v) (c + smc_off g)"
    using v1(2,6) by (simp_all add: w'_def unshared_def)
  obtain w1 where w1: "get_field Id c w' = Inr (push_bit 10 svc OR cmd, w1)" "unshared w1 c" "glob w1 = glob w'"
      "\<And>g. read32 (dram w1) (c + smc_off g) = read32 (dram v) (c + smc_off g)"
    using unshared_field [OF u'(1), of Id, unfolded u'(2) f] by auto
  obtain w2 where w2: "get_field Id c w1 = Inr (push_bit 10 svc OR cmd, w2)" "unshared w2 c" "glob w2 = glob w'"
      "\<And>g. read32 (dram w2) (c + smc_off g) = read32 (dram v) (c + smc_off g)"
    using unshared_field [OF w1(2), of Id, unfolded w1(4) f] w1(3) by auto
  obtain w3 where w3: "get_field Context c w2 = Inr (session, w3)" "glob w3 = glob w'"
    using unshared_field [OF w2(2), of Context, unfolded w2(4) f] w2(3) by auto
  have "get_api_context w' = Inr ((svc, session, cmd, OTZ_CMD_TYPE_SECURE_TO_SECURE), w3)"
    using w1(1) w2(1) w3(1) v1(4) svc_cmd_of [OF assms(2,3)]
    by (simp add: get_api_context_def Let_def andthen_def ret_def w'_def v_def smc_consts)
  ultimately show ?thesis using w3(2) v1(4,5) by (intro exI [of _ w'] exI [of _ w3]) (simp add: w'_def v_def)
qed

section \<open>The properties at concrete inputs\<close>

definition word_mem :: "(u32 \<times> u32) list \<Rightarrow> mem" where
  "word_mem xs = foldr (\<lambda>(a, v) m. write32 a v m) xs (\<lambda>_. 0)"

text \<open>Two tasks, an empty page table, and a command of the normal world at \<open>0x80000000\<close>.\<close>

definition small_world :: "(u32 \<times> u32) list \<Rightarrow> sw_world" where
  "small_world xs = \<lparr>glob = two_tasks\<lparr>kheap := heap empty_pt\<rparr>, ptab = empty_pt, dram = word_mem xs, fetches = 0,
     ns_writes = (\<lambda>_ _. None), params_stack = [CALL_TRUSTZONE_API, 0x80000000, OTZ_CMD_TYPE_NS_TO_SECURE, 0],
     valid_params_flag = True, g_dispatch_data = 0, secure_api_set = False, secure_api_ret_val = 0,
     secure_interrupt_set = False, notify_data = 0, wq_elems = wqs idle_queues, wq_heads = heads idle_queues, returned = []\<rparr>"

lemma small_world_pt [simp]: "pt_of (small_world xs) = empty_pt" "ptab (small_world xs) = empty_pt"
  by (simp_all add: small_world_def pt_of_def)

lemma empty_pt_facts: "sections_only empty_pt" "refs_of empty_pt j = 0"
  by (simp_all add: sections_only_def empty_pt_def refs_of_def l1_type_def l1_types)

lemmas small_world_ok = empty_pt_inv empty_pt_facts(1)

definition closing :: sw_world where
  "closing = small_world [(0x80000014, 4), (0x80000024, 0x80000100), (0x80000028, 0x80000200),
     (0x80000100, OTZ_SVC_DRM), (0x80000200, 0x112)]"

lemma closing_ends: "\<exists>r w. close_session_from_ns (drm_image 0x2000) 7 0x80000000 closing = Inr (r, w) \<and> task_list (glob w) = [0x1000]"
proof -
  have "case close_session_from_ns (drm_image 0x2000) 7 0x80000000 closing of Inr (r, w) \<Rightarrow> task_list (glob w) = [0x1000] | Inl _ \<Rightarrow> False"
    by code_simp
  then show ?thesis by (auto split: sum.splits)
qed

theorem session_references_balanced_witness:
  "\<exists>r w. close_session_from_ns (drm_image 0x2000) 7 0x80000000 closing = Inr (r, w) \<and> task_list (glob w) = [0x1000] \<and>
     refs_of (pt_of w) 2048 = 0"
proof -
  obtain r w where w: "close_session_from_ns (drm_image 0x2000) 7 0x80000000 closing = Inr (r, w)" "task_list (glob w) = [0x1000]"
    using closing_ends by blast
  have "pt_inv (pt_of closing)" "sections_only (ptab closing)" "\<forall>j<4096. refs_of (pt_of closing) j < 2 ^ 31"
    using small_world_ok by (simp_all add: closing_def empty_pt_facts)
  from session_references_balanced [OF drm_loader_ok this disjI2 [OF w(1)]]
  have "refs_of (pt_of w) 2048 = refs_of (pt_of closing) 2048" by simp
  with w show ?thesis by (auto simp: closing_def empty_pt_facts)
qed

definition asking :: sw_world where
  "asking = (small_world [(0x80000000, 0xc01), (0x80000004, 0x112), (0x8000002c, 0x80000100)])
     \<lparr>glob := two_tasks\<lparr>kheap := heap empty_pt, tls_mem := (\<lambda>_. \<lparr>params = [CALL_TRUSTZONE_API, 0x80000000, OTZ_CMD_TYPE_NS_TO_SECURE, 0],
        ret_val = 0, ipi_ret_val = 0, tls_elf_flag = 0, tls_process = 0x8400, private_data = 0\<rparr>)\<rparr>\<rparr>"

lemma asking_ok: "pt_inv (pt_of asking)" "sections_only (ptab asking)" "\<forall>j<4096. refs_of (pt_of asking) j < 2 ^ 31"
proof -
  have "pt_of asking = empty_pt" "ptab asking = empty_pt" by (simp_all add: asking_def pt_of_def small_world_def)
  then show "pt_inv (pt_of asking)" "sections_only (ptab asking)" "\<forall>j<4096. refs_of (pt_of asking) j < 2 ^ 31"
    using small_world_ok by (simp_all add: empty_pt_facts)
qed

theorem process_otzapi_balanced_witness:
  "\<exists>w. process_otzapi (drm_image 0x2000) 7 0x112 0 asking = Inr (0, w) \<and> pt_inv (pt_of w)"
proof -
  have "case process_otzapi (drm_image 0x2000) 7 0x112 0 asking of Inr (r, w) \<Rightarrow> r = 0 | Inl _ \<Rightarrow> False"
    by code_simp
  then obtain w where w: "process_otzapi (drm_image 0x2000) 7 0x112 0 asking = Inr (0, w)" by (auto split: sum.splits)
  have "service_ok (services (drm_image 0x2000) p)" for p by (simp add: drm_image_def drm_service_ok)
  from process_otzapi_balanced [OF this asking_ok w] w show ?thesis by blast
qed

lemma asking_fields: "read32 (dram asking) 0x80000014 = 0" "read32 (dram asking) 0x80000018 = 0" "read32 (dram asking) 0x80000004 = 0x112"
  by code_simp+

theorem session_mismatch_leaks_witness:
  "\<exists>w w'. refs_of (pt_of w) 2048 = 1 \<and> process_otzapi (drm_image 0x2000) 7 0x113 0 w = Inr (SMC_EINVAL_ARG, w') \<and>
     refs_of (pt_of w') 2048 > 1"
proof -
  obtain s where s: "map_to_ns 0x80000000 empty_pt = Inr (0, Some 0x80000000, s)" "pt_inv s"
      "map_ns_post (ns_section 0x80000000) empty_pt s"
    using map_to_ns_spec [OF empty_pt_inv empty_pt_ok] by blast
  have v: "va (ns_section p) = p" for p by (simp add: ns_section_def)
  note post = s(3) [unfolded map_ns_post_def Let_def v l1_index_ns]
  have c: "refs_of s j = (if j = 2048 then 1 else 0)" if "j < 4096" for j
    using post [THEN conjunct2, THEN conjunct2, rule_format, OF that] empty_pt_memory by (simp add: empty_pt_facts)
  have "l1_type (pgd s 2048) = L1_TYPE_SECTION"
    using post [THEN conjunct2, THEN conjunct1] by (simp add: is_ns_section_def)
  then have sec: "sections_only s" using empty_pt_facts(1) post [THEN conjunct1] by (simp add: sections_only_def)
  let ?w = "put_pt s asking"
  have h: "pt_inv (pt_of ?w)" "sections_only (ptab ?w)" "\<forall>j<4096. refs_of (pt_of ?w) j < 2 ^ 31"
    using s(2) sec c by simp_all
  have g: "quiet ?w" "params (tls_mem (glob ?w) 0) = [CALL_TRUSTZONE_API, 0x80000000, OTZ_CMD_TYPE_NS_TO_SECURE, 0]" "dram ?w = dram asking"
    by (simp_all add: asking_def quiet_def put_pt_def small_world_def)
  have f: "read32 (dram ?w) (0x80000000 + smc_off Req_buf_len) = 0" "read32 (dram ?w) (0x80000000 + smc_off Resp_buf_len) = 0"
      "read32 (dram ?w) (0x80000000 + smc_off Context) \<noteq> 0x113" "0 < refs_of (pt_of ?w) (l1_index 0x80000000)"
    using asking_fields c by (simp_all add: g(3) l1_index_ns)
  from session_mismatch_leaks [OF h g(1,2) f, of "drm_image 0x2000" 7] obtain w'
    where w': "process_otzapi (drm_image 0x2000) 7 0x113 0 ?w = Inr (SMC_EINVAL_ARG, w')" "refs_of (pt_of w') 2048 > 1"
    using c [of 2048] by (auto simp: l1_index_ns)
  moreover have "refs_of (pt_of ?w) 2048 = 1" using c by simp
  ultimately show ?thesis by blast
qed

definition closing_unknown :: sw_world where
  "closing_unknown = small_world [(0x80000014, 4), (0x80000024, 0x80000100), (0x80000028, 0x80000200),
     (0x80000100, OTZ_SVC_DRM), (0x80000200, 0x999)]"

theorem close_unknown_session_crashes_witness:
  "close_session_from_ns (drm_image 0x2000) 7 0x80000000 closing_unknown = Inl CORRUPTED"
proof -
  have f: "read32 (dram closing_unknown) 0x80000014 = 4" "read32 (dram closing_unknown) 0x80000028 = 0x80000200"
      "read32 (dram closing_unknown) 0x80000200 = 0x999"
    by code_simp+
  have "get_task 0x999 (glob closing_unknown) = None"
    by (simp add: closing_unknown_def small_world_def get_task_def two_tasks_def witness_task_def)
  moreover have "quiet closing_unknown" by (simp add: quiet_def closing_unknown_def small_world_def)
  moreover have "pt_inv (pt_of closing_unknown)" "sections_only (ptab closing_unknown)" "\<forall>j<4096. refs_of (pt_of closing_unknown) j < 2 ^ 31"
    using small_world_ok by (simp_all add: closing_unknown_def empty_pt_facts)
  ultimately show ?thesis using f by (intro close_unknown_session_crashes) simp_all
qed

theorem ipc_send_delivers_witness:
  "\<exists>w'. ipc_send 0x3000 OTZ_SVC_ECHO 0x111 OTZ_SVC_DRM 0x112 1 blank_ctx 0x4000 asking = Inr (OTZ_OK, w') \<and> valid_params_flag w'"
proof -
  have "unshared asking 0x3000" by (simp add: unshared_def asking_def small_world_def)
  from ipc_send_delivers [OF this, of OTZ_SVC_DRM 1 OTZ_SVC_ECHO "0x111" "0x112" blank_ctx "0x4000"]
  show ?thesis by (auto simp: OTZ_SVC_DRM_def)
qed

text \<open>
  The notification memory is forgotten twice: once no other task runs before the answer, once a service
  that was still running finishes in between with the result 5, which replaces the answer.
\<close>

definition forgetting :: sw_world where
  "forgetting = small_world [(0x80000000, 0x405)]"

theorem dispatcher_answers_once_witness:
  "(\<exists>w'. dispatch_round (drm_image 0x2000) blank_config 7 (ret ()) forgetting = Inr ((), w') \<and> returned w' = [0]) \<and>
   (\<exists>w'. dispatch_round (drm_image 0x2000) blank_config 7 (set_secure_api_ret 5) forgetting = Inr ((), w') \<and> returned w' = [5])"
proof -
  have l: "loader_silent (drm_image 0x2000)" by (simp add: loader_silent_def drm_image_def silent_ret)
  have "case get_api_context (forgetting\<lparr>valid_params_flag := False\<rparr>) of Inr ((s, t, c, ty), w) \<Rightarrow> s = OTZ_SVC_GLOBAL \<and> t = 0 \<and>
      c = OTZ_GLOBAL_CMD_ID_UNREGISTER_NOTIFY_MEMORY \<and> ty = OTZ_CMD_TYPE_NS_TO_SECURE | Inl _ \<Rightarrow> False" by code_simp
  then obtain w0 where w0: "get_api_context (forgetting\<lparr>valid_params_flag := False\<rparr>) =
      Inr ((OTZ_SVC_GLOBAL, 0, OTZ_GLOBAL_CMD_ID_UNREGISTER_NOTIFY_MEMORY, OTZ_CMD_TYPE_NS_TO_SECURE), w0)"
    by (auto split: sum.splits)
  have p: "valid_params_flag forgetting" "\<not> secure_interrupt_set forgetting" "params_stack forgetting ! 0 = CALL_TRUSTZONE_API"
      "returned forgetting = []" by (simp_all add: forgetting_def small_world_def)
  have "\<not> isl (dispatch_round (drm_image 0x2000) blank_config 7 (ret ()) forgetting)"
      "\<not> isl (dispatch_round (drm_image 0x2000) blank_config 7 (set_secure_api_ret 5) forgetting)" by code_simp+
  moreover have "\<exists>u. x = Inr ((), u)" if "\<not> isl x" for x :: "panic + (unit \<times> sw_world)"
    using that by (cases x) auto
  ultimately obtain w1 w2 where d: "dispatch_round (drm_image 0x2000) blank_config 7 (ret ()) forgetting = Inr ((), w1)"
      "dispatch_round (drm_image 0x2000) blank_config 7 (set_secure_api_ret 5) forgetting = Inr ((), w2)"
    by blast
  have r: "r = OTZ_OK" if "global_call (drm_image 0x2000) blank_config 7 OTZ_GLOBAL_CMD_ID_UNREGISTER_NOTIFY_MEMORY q u = Inr (r, v)" for q u r v
    using that by (auto simp: global_call_def unregister_notify_data_api_def andthen_def ret_def global_cmds split: sum.splits)
  have lv: "leaves_replies (ret ())" "leaves_replies (set_secure_api_ret 5)"
    by (simp_all add: leaves_replies_def ret_def set_secure_api_ret_def)
  note a = dispatcher_answers_once [OF l _ p(1-3) w0]
  obtain q v code where "global_call (drm_image 0x2000) blank_config 7 OTZ_GLOBAL_CMD_ID_UNREGISTER_NOTIFY_MEMORY
        (params_stack forgetting ! 1) w0 = Inr (q, v)" "returned w1 = [code]"
      "code = (if q = OTZ_ENOMEM then SMC_ENOMEM else if q = OTZ_EFAIL then SMC_ERROR else 0)"
    using a [OF lv(1) _ d(1)] p(4) by (auto simp: ret_def)
  moreover have "q = OTZ_OK" using calculation(1) by (rule r)
  ultimately have "returned w1 = [0]" by (simp add: otz_codes)
  moreover have "returned w2 = [5]" using a [OF lv(2) _ d(2)] p(4) by (auto simp: set_secure_api_ret_def)
  ultimately show ?thesis using d by blast
qed

definition asking_unknown :: sw_world where
  "asking_unknown = small_world [(0x80000000, 0xc01), (0x80000004, 0x999)]"

theorem unknown_session_unanswered_witness:
  "\<exists>w. dispatch_command (drm_image 0x2000) blank_config 7 asking_unknown = Inr ((), w) \<and> dispatch_reply w = Inr ((), w) \<and> returned w = []"
proof -
  have "case get_api_context (asking_unknown\<lparr>valid_params_flag := False\<rparr>) of Inr ((s, t, c, ty), w) \<Rightarrow> s = OTZ_SVC_DRM \<and> t = 0x999 \<and>
      c = 1 \<and> \<not> secure_api_set w \<and> get_task 0x999 (glob w) = None | Inl _ \<Rightarrow> False" by code_simp
  then obtain ty w0 where w0: "get_api_context (asking_unknown\<lparr>valid_params_flag := False\<rparr>) = Inr ((OTZ_SVC_DRM, 0x999, 1, ty), w0)"
      "\<not> secure_api_set w0" "get_task 0x999 (glob w0) = None"
    by (auto split: sum.splits)
  have p: "valid_params_flag asking_unknown" "\<not> secure_interrupt_set asking_unknown" "\<not> secure_api_set asking_unknown"
      "params_stack asking_unknown ! 0 = CALL_TRUSTZONE_API" "returned asking_unknown = []"
    by (simp_all add: asking_unknown_def small_world_def)
  from unknown_session_unanswered [OF p(1-4) w0(1) _ _ _ _ w0(3,2), of "drm_image 0x2000" blank_config 7] p(5) show ?thesis
    by (auto simp: OTZ_SVC_DRM_def OTZ_SVC_INVALID_def OTZ_SVC_GLOBAL_def global_cmds)
qed

end
