(* ===== verification/TeeArith.thy ===== *)
theory TeeArith
  imports OtzPrelude
begin

text \<open>
  The arithmetic of the TEE internal interface (\<open>lib/otz_tee_arith_api.c\<close>).

  A number is an array of \<open>BIG_LEN\<close> words, the most significant one first. The arrays live in one
  store of words, so that a result may overwrite an operand as in the C code and an access behind
  an array reaches the next one; addresses count words and do not wrap. \<open>buffers\<close> holds the buffers
  that the next calls of \<open>TEE_Malloc\<close> get, zeroed by it; when it is empty the call returns a null pointer,
  which the code uses without a test: this is the result \<open>None\<close>. \<open>None\<close> is also a shift by more bits
  than a number has, whose negative byte count runs over the memory. Buffers given to \<open>TEE_Free\<close> are not
  used again. The functions that only return ``not implemented'' are left out.
\<close>

section \<open>Numbers in a store\<close>

type_synonym cells = "nat \<Rightarrow> u32"

record big_store =
  cells :: cells
  buffers :: "nat list"

definition TEE_BigIntNumberOfBits :: nat where "TEE_BigIntNumberOfBits = 2048"

definition TEE_BigIntSizeInU32 :: "nat \<Rightarrow> nat" where
  "TEE_BigIntSizeInU32 n = (n + 31) div 32 + 2"

definition BIG_LEN :: nat where "BIG_LEN = TEE_BigIntSizeInU32 TEE_BigIntNumberOfBits"

definition TEE_MemMove :: "nat \<Rightarrow> nat \<Rightarrow> nat \<Rightarrow> cells \<Rightarrow> cells" where
  "TEE_MemMove d s n m = (\<lambda>x. if d \<le> x \<and> x < d + n then m (s + (x - d)) else m x)"

definition TEE_MemFill :: "nat \<Rightarrow> u32 \<Rightarrow> nat \<Rightarrow> cells \<Rightarrow> cells" where
  "TEE_MemFill d v n m = (\<lambda>x. if d \<le> x \<and> x < d + n then v else m x)"

definition TEE_Malloc :: "nat \<Rightarrow> big_store \<Rightarrow> (nat \<times> big_store) option" where
  "TEE_Malloc n s =
     (case buffers s of
        [] \<Rightarrow> None
      | p # ps \<Rightarrow> Some (p, s\<lparr>cells := TEE_MemFill p 0 n (cells s), buffers := ps\<rparr>))"

definition on_cells :: "(cells \<Rightarrow> cells) \<Rightarrow> big_store \<Rightarrow> big_store" where
  "on_cells f s = s\<lparr>cells := f (cells s)\<rparr>"

section \<open>Conversions\<close>

definition TEE_BigIntInit :: "nat \<Rightarrow> nat \<Rightarrow> cells \<Rightarrow> cells" where
  "TEE_BigIntInit p len = TEE_MemFill p 0 len"

definition TEE_BigIntFMMInit :: "nat \<Rightarrow> nat \<Rightarrow> cells \<Rightarrow> cells" where
  "TEE_BigIntFMMInit p len = TEE_MemFill p 0 len"

text \<open>
  Both pointers are moved to the ends of the arrays and then indexed upwards, once per byte of the
  length: the words are read and written behind the arrays. The sign is not reached.
\<close>

fun octet_loop :: "nat \<Rightarrow> nat \<Rightarrow> nat \<Rightarrow> cells \<Rightarrow> cells" where
  "octet_loop 0 p q m = m"
| "octet_loop (Suc i) p q m = octet_loop i p q (m(p + Suc i := m (q + Suc i)))"

definition TEE_BigIntSetFromOctetString :: "nat \<Rightarrow> nat \<Rightarrow> nat \<Rightarrow> cells \<Rightarrow> bool \<times> cells" where
  "TEE_BigIntSetFromOctetString dest buffer bufferLen m =
     (if bufferLen div 4 > BIG_LEN - 1 then (False, m)
      else (True, octet_loop bufferLen (dest + BIG_LEN - 1) (buffer + bufferLen div 4) m))"

fun copy_loop :: "nat \<Rightarrow> nat \<Rightarrow> nat \<Rightarrow> nat \<Rightarrow> cells \<Rightarrow> cells" where
  "copy_loop 0 i d s m = m"
| "copy_loop (Suc k) i d s m = copy_loop k (i + 1) d s (m(d + i := m (s + i)))"

text \<open>The length in bytes is used as a number of words.\<close>

definition TEE_BigIntConvertToOctetString :: "nat \<Rightarrow> nat \<Rightarrow> nat \<Rightarrow> cells \<Rightarrow> bool \<times> cells" where
  "TEE_BigIntConvertToOctetString buffer bufferLen p m =
     (if bufferLen div 4 < BIG_LEN then (False, m) else (True, copy_loop bufferLen 0 buffer p m))"

definition TEE_BigIntConvertFromS32 :: "nat \<Rightarrow> u32 \<Rightarrow> cells \<Rightarrow> cells" where
  "TEE_BigIntConvertFromS32 dest v m = (TEE_MemFill dest 0 BIG_LEN m)(dest + BIG_LEN - 1 := v)"

text \<open>The source is not read: the word comes from behind the result.\<close>

definition TEE_BigIntConvertToS32 :: "nat \<Rightarrow> nat \<Rightarrow> cells \<Rightarrow> cells" where
  "TEE_BigIntConvertToS32 dest src m = m(dest := m (dest + BIG_LEN - 1))"

definition TEE_BigIntCmpS32 :: "nat \<Rightarrow> u32 \<Rightarrow> cells \<Rightarrow> int" where
  "TEE_BigIntCmpS32 p v m =
     (let r = (if \<exists>i\<in>set [0..<BIG_LEN - 2]. m (p + i) \<noteq> 0 then 1 else 0);
          w = m (p + (BIG_LEN - 1));
          r1 = (if w < v then - 1 else r)
      in if w > v then 1 else r1)"

definition TEE_BigIntNeg :: "nat \<Rightarrow> nat \<Rightarrow> cells \<Rightarrow> cells" where
  "TEE_BigIntNeg dest src m = copy_loop (BIG_LEN - 2) 1 dest src (m(dest := m src OR push_bit 31 1))"

section \<open>Addition and subtraction\<close>

fun add_loop :: "nat \<Rightarrow> nat \<Rightarrow> nat \<Rightarrow> nat \<Rightarrow> u32 \<Rightarrow> cells \<Rightarrow> cells" where
  "add_loop 0 dest op1 op2 carry m = m"
| "add_loop (Suc i) dest op1 op2 carry m =
     (let sum = m (op1 + i) + m (op2 + i) + carry;
          carry = (if sum < m (op1 + i) \<or> sum < m (op2 + i) then 1 else 0)
      in add_loop i dest op1 op2 carry (m(dest + i := sum)))"

definition TEE_BigIntAdd :: "nat \<Rightarrow> nat \<Rightarrow> nat \<Rightarrow> cells \<Rightarrow> cells" where
  "TEE_BigIntAdd dest op1 op2 = add_loop BIG_LEN dest op1 op2 0"

definition TEE_BigIntAddMult :: "nat \<Rightarrow> nat \<Rightarrow> nat \<Rightarrow> cells \<Rightarrow> cells" where
  "TEE_BigIntAddMult dest op1 op2 = add_loop (BIG_LEN * 2) dest op1 op2 0"

fun sub_loop :: "nat \<Rightarrow> nat \<Rightarrow> nat \<Rightarrow> nat \<Rightarrow> u32 \<Rightarrow> cells \<Rightarrow> cells" where
  "sub_loop 0 dest op1 op2 carry m = m"
| "sub_loop (Suc i) dest op1 op2 carry m =
     (let diff = (m (op1 + i) - carry) - m (op2 + i);
          carry = (if diff > m (op1 + i) then 1 else 0)
      in sub_loop i dest op1 op2 carry (m(dest + i := diff)))"

definition TEE_BigIntSub :: "nat \<Rightarrow> nat \<Rightarrow> nat \<Rightarrow> cells \<Rightarrow> cells" where
  "TEE_BigIntSub dest op1 op2 = sub_loop BIG_LEN dest op1 op2 0"

fun increment_loop :: "nat \<Rightarrow> nat \<Rightarrow> cells \<Rightarrow> cells" where
  "increment_loop 0 dest m = m"
| "increment_loop (Suc i) dest m =
     (let sum = m (dest + i) + 1; m1 = m(dest + i := sum)
      in if sum < m (dest + i) then increment_loop i dest m1 else m1)"

definition incrementBigInt :: "nat \<Rightarrow> cells \<Rightarrow> cells" where
  "incrementBigInt dest = increment_loop BIG_LEN dest"

section \<open>Bits\<close>

definition MaxBitPos :: "nat \<Rightarrow> cells \<Rightarrow> nat" where
  "MaxBitPos src m =
     (case find (\<lambda>i. m (src + i) \<noteq> 0) [0..<BIG_LEN] of
        None \<Rightarrow> 0
      | Some i \<Rightarrow> (case find (\<lambda>j. bit (m (src + i)) j) (rev [0..<32]) of
                    None \<Rightarrow> 0 | Some j \<Rightarrow> (BIG_LEN - i - 1) * 32 + j))"

definition TEE_BigIntGetBit :: "nat \<Rightarrow> nat \<Rightarrow> cells \<Rightarrow> bool" where
  "TEE_BigIntGetBit src bitIndex m = bit (m (src + (BIG_LEN - 1) - bitIndex div 32)) (bitIndex mod 32)"

text \<open>The inner loops collect the bits that leave a word.\<close>

fun low_bits :: "nat \<Rightarrow> u32 \<Rightarrow> u32 \<Rightarrow> u32" where
  "low_bits 0 v g = g"
| "low_bits (Suc j) v g = (if j = 0 then g else low_bits j v (push_bit 1 g OR (drop_bit j v AND 1)))"

text \<open>When the inner loop has no round, \<open>value\<close> is not set to the word; it keeps its last content, at first \<open>junk\<close>.\<close>

fun shr_loop :: "nat \<Rightarrow> nat \<Rightarrow> nat \<Rightarrow> nat \<Rightarrow> nat \<Rightarrow> u32 \<Rightarrow> u32 \<Rightarrow> cells \<Rightarrow> cells" where
  "shr_loop 0 i dest src bits put junk m = m"
| "shr_loop (Suc k) i dest src bits put junk m =
     (let got = low_bits bits (m (src + i)) 0;
          v = (if bits \<ge> 2 then m (src + i) else junk);
          v1 = drop_bit bits v OR put
      in shr_loop k (i + 1) dest src bits (push_bit 31 got) v1 (m(dest + i := v1)))"

definition TEE_BigIntRightShift :: "u32 \<Rightarrow> nat \<Rightarrow> nat \<Rightarrow> nat \<Rightarrow> cells \<Rightarrow> cells" where
  "TEE_BigIntRightShift junk dest src bits = shr_loop BIG_LEN 0 dest src bits 0 junk"

fun top_bits :: "nat \<Rightarrow> u32 \<Rightarrow> u32" where
  "top_bits 0 v = 0"
| "top_bits (Suc j) v = push_bit 1 (top_bits j v) OR (drop_bit (31 - j) v AND 1)"

fun shl_loop :: "nat \<Rightarrow> nat \<Rightarrow> nat \<Rightarrow> nat \<Rightarrow> u32 \<Rightarrow> cells \<Rightarrow> cells" where
  "shl_loop 0 dest src bits put m = m"
| "shl_loop (Suc i) dest src bits put m =
     shl_loop i dest src bits (top_bits bits (m (src + i)))
       (m(dest + i := push_bit bits (m (src + i)) OR put))"

definition TEE_BigIntLeftShift :: "nat \<Rightarrow> nat \<Rightarrow> nat \<Rightarrow> cells \<Rightarrow> cells option" where
  "TEE_BigIntLeftShift dest src bits m =
     (let w = bits div 32
      in if w > BIG_LEN then None
         else let m1 = (if bits \<ge> 32
                        then TEE_MemFill (src + BIG_LEN - w) 0 w (TEE_MemMove src (src + w) (BIG_LEN - w) m)
                        else m)
              in Some (shl_loop BIG_LEN dest src (bits mod 32) 0 m1))"

section \<open>Comparison\<close>

fun cmp_loop :: "nat \<Rightarrow> nat \<Rightarrow> nat \<Rightarrow> nat \<Rightarrow> cells \<Rightarrow> int" where
  "cmp_loop 0 i op1 op2 m = 0"
| "cmp_loop (Suc k) i op1 op2 m =
     (if m (op1 + i) < m (op2 + i) then - 1
      else if m (op1 + i) > m (op2 + i) then 1 else cmp_loop k (i + 1) op1 op2 m)"

text \<open>The mask of the sign is \<open>(1 << 31) != 0\<close>, that is 1.\<close>

definition TEE_BigIntCmp :: "nat \<Rightarrow> nat \<Rightarrow> cells \<Rightarrow> int" where
  "TEE_BigIntCmp op1 op2 m =
     (if m op1 = m op2 then cmp_loop BIG_LEN 0 op1 op2 m
      else if m op1 AND 1 \<noteq> 0 then - 1 else 1)"

section \<open>Multiplication\<close>

fun mult_loop :: "nat \<Rightarrow> nat \<Rightarrow> nat \<Rightarrow> nat \<Rightarrow> nat \<Rightarrow> cells \<Rightarrow> cells" where
  "mult_loop 0 x dest temp op2 m = m"
| "mult_loop (Suc k) x dest temp op2 m =
     (let m1 = (if x \<noteq> 0 then TEE_BigIntAddMult temp temp temp m else m);
          m2 = (if TEE_BigIntGetBit op2 x m1 then TEE_BigIntAddMult dest dest temp m1 else m1)
      in mult_loop k (x + 1) dest temp op2 m2)"

definition TEE_BigIntMult :: "nat \<Rightarrow> nat \<Rightarrow> nat \<Rightarrow> big_store \<Rightarrow> big_store option" where
  "TEE_BigIntMult dest op1 op2 s =
     (case TEE_Malloc (BIG_LEN * 2) s of
        None \<Rightarrow> None
      | Some (temp, s1) \<Rightarrow>
          let maxBit = MaxBitPos op2 (cells s1)
          in Some (on_cells (\<lambda>m. mult_loop (Suc maxBit) 0 dest temp op2 (TEE_MemMove (temp + BIG_LEN) op1 BIG_LEN m)) s1))"

definition TEE_BigIntSquare :: "nat \<Rightarrow> nat \<Rightarrow> big_store \<Rightarrow> big_store option" where
  "TEE_BigIntSquare dest src = TEE_BigIntMult dest src src"

section \<open>Division\<close>

fun power_loop :: "nat \<Rightarrow> u32 \<Rightarrow> u32 \<Rightarrow> u32" where
  "power_loop 0 x result = result"
| "power_loop (Suc y) x result = power_loop y x (result * x)"

definition XPowerY :: "u32 \<Rightarrow> u32 \<Rightarrow> u32" where
  "XPowerY x y = power_loop (unat y) x 1"

text \<open>
  One round of the loop. \<open>d\<close> is \<open>diffBit\<close>; a negative one becomes a large unsigned number of bits.
  The second branch shifts the divisor, which is already shifted, once more.
\<close>

definition divide_step :: "nat \<Rightarrow> nat \<Rightarrow> nat \<Rightarrow> nat \<Rightarrow> big_store \<Rightarrow> big_store option" where
  "divide_step dest_q tmp1 shifted op2 s0 =
     (let d = int (MaxBitPos tmp1 (cells s0)) - int (MaxBitPos op2 (cells s0));
          s = on_cells (TEE_MemMove shifted op2 BIG_LEN) s0;
          by_one = (\<lambda>m. incrementBigInt dest_q (TEE_BigIntSub tmp1 tmp1 op2 m));
          put = (\<lambda>adder k v m. TEE_BigIntSub tmp1 tmp1 shifted
                   (TEE_BigIntAdd dest_q dest_q adder (m(adder + (BIG_LEN - 1) - k := v))))
      in if d = 0 then Some (on_cells by_one s)
         else if d < 0 then None
         else (case TEE_BigIntLeftShift shifted shifted (nat d) (cells s) of
            None \<Rightarrow> None
          | Some m \<Rightarrow>
              (case TEE_Malloc BIG_LEN (s\<lparr>cells := m\<rparr>) of
                 None \<Rightarrow> None
               | Some (adder, s1) \<Rightarrow>
                   if TEE_BigIntCmp tmp1 shifted (cells s1) \<ge> 0
                   then Some (on_cells (put adder (nat d div 32) (XPowerY 2 (of_int (d mod 32)))) s1)
                   else if d \<noteq> 1
                   then map_option (\<lambda>m. s1\<lparr>cells := put adder (nat d div 31) (XPowerY 2 (of_int (d mod 31) - 1)) m\<rparr>)
                          (TEE_BigIntLeftShift shifted shifted (nat d - 1) (cells s1))
                   else Some (on_cells by_one s1))))"

partial_function (option) divide_loop :: "nat \<Rightarrow> nat \<Rightarrow> nat \<Rightarrow> nat \<Rightarrow> big_store \<Rightarrow> big_store option" where
  "divide_loop dest_q tmp1 shifted op2 s =
     (if TEE_BigIntCmp tmp1 op2 (cells s) \<ge> 0
      then (case divide_step dest_q tmp1 shifted op2 s of
              None \<Rightarrow> None
            | Some s' \<Rightarrow> divide_loop dest_q tmp1 shifted op2 s')
      else Some s)"

definition TEE_BigIntDivide :: "nat \<Rightarrow> nat \<Rightarrow> nat \<Rightarrow> nat \<Rightarrow> big_store \<Rightarrow> big_store option" where
  "TEE_BigIntDivide dest_q dest_r op1 op2 s =
     (case TEE_Malloc BIG_LEN s of
        None \<Rightarrow> None
      | Some (tmp1, s1) \<Rightarrow>
          (case TEE_Malloc BIG_LEN s1 of
             None \<Rightarrow> None
           | Some (shifted, s2) \<Rightarrow>
               map_option (on_cells (TEE_MemMove dest_r tmp1 BIG_LEN))
                 (divide_loop dest_q tmp1 shifted op2 (on_cells (TEE_MemMove tmp1 op1 BIG_LEN) s2))))"

definition with_temp :: "(nat \<Rightarrow> big_store \<Rightarrow> big_store option) \<Rightarrow> big_store \<Rightarrow> big_store option" where
  "with_temp f s = (case TEE_Malloc BIG_LEN s of None \<Rightarrow> None | Some (temp, s1) \<Rightarrow> f temp s1)"

definition TEE_BigIntReduceMod :: "nat \<Rightarrow> nat \<Rightarrow> nat \<Rightarrow> big_store \<Rightarrow> big_store option" where
  "TEE_BigIntReduceMod dest op1 n = with_temp (\<lambda>temp. TEE_BigIntDivide temp dest op1 n)"

definition TEE_BigIntAddMod :: "nat \<Rightarrow> nat \<Rightarrow> nat \<Rightarrow> nat \<Rightarrow> big_store \<Rightarrow> big_store option" where
  "TEE_BigIntAddMod dest op1 op2 n =
     with_temp (\<lambda>temp s. TEE_BigIntDivide temp dest temp n (on_cells (TEE_BigIntAdd temp op1 op2) s))"

definition TEE_BigIntSubMod :: "nat \<Rightarrow> nat \<Rightarrow> nat \<Rightarrow> nat \<Rightarrow> big_store \<Rightarrow> big_store option" where
  "TEE_BigIntSubMod dest op1 op2 n =
     with_temp (\<lambda>temp s. TEE_BigIntDivide temp dest temp n (on_cells (TEE_BigIntSub temp op1 op2) s))"

text \<open>The product has twice the length of \<open>temp\<close>; the rest is written behind it.\<close>

definition TEE_BigIntMultMod :: "nat \<Rightarrow> nat \<Rightarrow> nat \<Rightarrow> nat \<Rightarrow> big_store \<Rightarrow> big_store option" where
  "TEE_BigIntMultMod dest op1 src n =
     with_temp (\<lambda>temp s. case TEE_BigIntMult temp op1 src s of None \<Rightarrow> None | Some s1 \<Rightarrow> TEE_BigIntDivide temp dest temp n s1)"

definition TEE_BigIntSquareMod :: "nat \<Rightarrow> nat \<Rightarrow> nat \<Rightarrow> big_store \<Rightarrow> big_store option" where
  "TEE_BigIntSquareMod dest src n =
     with_temp (\<lambda>temp s. case TEE_BigIntSquare temp src s of None \<Rightarrow> None | Some s1 \<Rightarrow> TEE_BigIntDivide temp dest temp n s1)"

end
