(* ===== verification/TeeArithProps.thy ===== *)
theory TeeArithProps
  imports TeeArith
begin

text \<open>
  What the arithmetic of \<open>TeeArith\<close> computes: the value of a number, the exact results of addition,
  subtraction, increment and left shift, and where carries are lost and the division goes wrong.
\<close>

section \<open>Values\<close>

fun big_val :: "cells \<Rightarrow> nat \<Rightarrow> nat \<Rightarrow> nat" where
  "big_val m p 0 = 0"
| "big_val m p (Suc n) = big_val m p n * 2 ^ 32 + unat (m (p + n))"

lemma unat_less: "unat (w :: u32) < 2 ^ 32"
  using unsigned_less [of w] by simp

lemma unat_all_ones: "unat (- 1 :: u32) = 2 ^ 32 - 1"
  by (simp add: unsigned_minus_1_eq_mask mask_eq_exp_minus_1)

lemma big_val_less: "big_val m p n < 2 ^ (32 * n)"
proof (induction n)
  case (Suc n)
  have "big_val m p n * 2 ^ 32 + unat (m (p + n)) < (big_val m p n + 1) * 2 ^ 32"
    using unat_less [of "m (p + n)"] by (simp add: algebra_simps)
  also have "\<dots> \<le> 2 ^ (32 * n) * 2 ^ 32" using Suc by (intro mult_right_mono) simp_all
  finally show ?case by (simp add: power_add mult.commute)
qed simp

lemma big_val_cong: "(\<And>i. i < n \<Longrightarrow> m (p + i) = m' (q + i)) \<Longrightarrow> big_val m p n = big_val m' q n"
  by (induction n) auto

lemma big_val_upd [simp]: "x < p \<or> p + n \<le> x \<Longrightarrow> big_val (m(x := v)) p n = big_val m p n"
  by (rule big_val_cong) auto

text \<open>A loop from the last word to the first may overwrite an operand that starts at the result or before it.\<close>

definition operand_ok :: "nat \<Rightarrow> nat \<Rightarrow> nat \<Rightarrow> bool" where
  "operand_ok n dest p \<longleftrightarrow> p \<le> dest \<or> dest + n \<le> p"

lemma operand_ok_Suc: "operand_ok (Suc n) dest p \<Longrightarrow> operand_ok n dest p \<and> (dest + n < p \<or> p + n \<le> dest + n)"
  by (auto simp: operand_ok_def)

lemma mod_step:
  fixes x s M :: nat
  assumes "0 < M" "s < 2 ^ 32"
  shows "(x mod M) * 2 ^ 32 + s = (x * 2 ^ 32 + s) mod (2 ^ 32 * M)"
proof -
  have "x mod M + 1 \<le> M" using assms(1) by (simp add: Suc_leI)
  then have "(x mod M + 1) * 2 ^ 32 \<le> M * 2 ^ 32" by (rule mult_right_mono) simp
  then have "x mod M * 2 ^ 32 + s < 2 ^ 32 * M" using assms(2) by (simp add: algebra_simps)
  moreover have "(x * 2 ^ 32 + s) mod (2 ^ 32 * M) = (x mod M * 2 ^ 32 + s) mod (2 ^ 32 * M)"
    by (metis mod_add_left_eq mod_mult_mult2 mult.commute)
  ultimately show ?thesis by simp
qed

section \<open>Addition\<close>

lemma add_loop_above: "x < d \<or> d + n \<le> x \<Longrightarrow> add_loop n d a b c m x = m x"
  by (induction n arbitrary: c m) (auto simp: Let_def)

lemma carry_exact:
  fixes a b c :: u32
  assumes "c = 0 \<or> c = 1" "\<not> (a = - 1 \<and> b = - 1)"
  shows "unat a + unat b + unat c = unat (a + b + c) + 2 ^ 32 * (if a + b + c < a \<or> a + b + c < b then 1 else 0)"
proof -
  have A: "unat a < 2 ^ 32" "unat b < 2 ^ 32" by (rule unat_less)+
  have C: "unat c \<le> 1" using assms(1) by auto
  have "a = - 1 \<longleftrightarrow> unat a = 2 ^ 32 - 1" "b = - 1 \<longleftrightarrow> unat b = 2 ^ 32 - 1"
    by (simp_all add: word_unat_eq_iff unat_all_ones)
  then have n: "\<not> (unat a = 2 ^ 32 - 1 \<and> unat b = 2 ^ 32 - 1)" using assms(2) by simp
  have s: "unat (a + b + c) = (unat a + unat b + unat c) mod 2 ^ 32"
    by (simp add: unat_word_ariths mod_simps)
  show ?thesis
  proof (cases "unat a + unat b + unat c < 2 ^ 32")
    case True
    then have "unat (a + b + c) = unat a + unat b + unat c" using s by simp
    then show ?thesis by (simp add: word_less_nat_alt)
  next
    case False
    then have e: "unat (a + b + c) = unat a + unat b + unat c - 2 ^ 32"
      using A C s by (simp add: mod_if)
    then have "unat (a + b + c) < unat a \<or> unat (a + b + c) < unat b" using A C n False by linarith
    then show ?thesis using e False by (simp add: word_less_nat_alt)
  qed
qed

lemma add_loop_exact:
  assumes "operand_ok n d a" "operand_ok n d b" "c = 0 \<or> c = 1" "\<forall>i<n. \<not> (m (a + i) = - 1 \<and> m (b + i) = - 1)"
  shows "big_val (add_loop n d a b c m) d n = (big_val m a n + big_val m b n + unat c) mod 2 ^ (32 * n)"
  using assms
proof (induction n arbitrary: c m)
  case (Suc n)
  define s where "s = m (a + n) + m (b + n) + c"
  define c' :: u32 where "c' = (if s < m (a + n) \<or> s < m (b + n) then 1 else 0)"
  let ?m = "m(d + n := s)"
  have ok: "operand_ok n d a" "operand_ok n d b" "d + n < a \<or> a + n \<le> d + n" "d + n < b \<or> b + n \<le> d + n"
    using Suc.prems(1,2) operand_ok_Suc by blast+
  have same: "big_val ?m a n = big_val m a n" "big_val ?m b n = big_val m b n" "?m (a + i) = m (a + i)" "?m (b + i) = m (b + i)" if "i < n" for i
    using ok(3,4) that by auto
  have c: "c' = 0 \<or> c' = 1" by (simp add: c'_def)
  have IH: "big_val (add_loop n d a b c' ?m) d n = (big_val m a n + big_val m b n + unat c') mod 2 ^ (32 * n)"
  proof -
    have "\<forall>i<n. \<not> (?m (a + i) = - 1 \<and> ?m (b + i) = - 1)" using Suc.prems(4) same by simp
    moreover have "big_val ?m a n = big_val m a n" "big_val ?m b n = big_val m b n" using ok(3,4) by auto
    ultimately show ?thesis using Suc.IH [OF ok(1,2) c] by metis
  qed
  have e: "unat (m (a + n)) + unat (m (b + n)) + unat c = unat s + 2 ^ 32 * unat c'"
    using carry_exact [OF Suc.prems(3), of "m (a + n)" "m (b + n)"] Suc.prems(4) by (simp add: s_def c'_def)
  have "big_val (add_loop (Suc n) d a b c m) d (Suc n) = (big_val m a n + big_val m b n + unat c') mod 2 ^ (32 * n) * 2 ^ 32 + unat s"
    using IH add_loop_above [of "d + n" d n a b c' ?m] by (simp add: Let_def s_def c'_def)
  also have "\<dots> = ((big_val m a n + big_val m b n + unat c') * 2 ^ 32 + unat s) mod (2 ^ 32 * 2 ^ (32 * n))"
    by (rule mod_step) (simp, rule unat_less)
  also have "(big_val m a n + big_val m b n + unat c') * 2 ^ 32 + unat s = big_val m a (Suc n) + big_val m b (Suc n) + unat c"
    using e by (simp add: algebra_simps)
  finally show ?case by (simp add: power_add mult.commute)
qed simp

lemmas BIG_LEN_66 = BIG_LEN_def TEE_BigIntSizeInU32_def TEE_BigIntNumberOfBits_def

lemma BIG_LEN [simp]: "BIG_LEN = 66"
  by (simp add: BIG_LEN_66)

text \<open>Two words of all ones with an incoming carry: the sum is not below either word and the carry is lost.\<close>

lemma add_loses_carry:
  assumes "operand_ok (Suc (Suc n)) d a" "operand_ok (Suc (Suc n)) d b" "\<forall>i<n. \<not> (m (a + i) = - 1 \<and> m (b + i) = - 1)"
    and "m (a + n) = - 1" "m (b + n) = - 1" "m (a + Suc n) = - 1" "m (b + Suc n) = - 1"
  shows "big_val (add_loop (Suc (Suc n)) d a b 0 m) d n = (big_val m a n + big_val m b n) mod 2 ^ (32 * n)"
proof -
  let ?m = "m(d + Suc n := - 2, d + n := - 1)"
  have ok: "operand_ok n d a" "operand_ok n d b" "a \<le> d \<or> d + Suc (Suc n) \<le> a" "b \<le> d \<or> d + Suc (Suc n) \<le> b"
    using assms(1,2) by (auto simp: operand_ok_def)
  have away: "a + i \<noteq> d + Suc n" "b + i \<noteq> d + Suc n" if "i < Suc n" for i using ok(3,4) that by linarith+
  have away': "a + i \<noteq> d + n" "b + i \<noteq> d + n" if "i < n" for i using ok(3,4) that by linarith+
  have step: "add_loop (Suc (Suc n)) d a b 0 m = add_loop n d a b 0 ?m"
    using assms(4-7) away [of n] by (simp add: Let_def)
  have "big_val ?m a n = big_val m a n" "big_val ?m b n = big_val m b n"
    using away away' by (intro big_val_cong; simp)+
  moreover have "\<forall>i<n. \<not> (?m (a + i) = - 1 \<and> ?m (b + i) = - 1)" using assms(3) away away' by simp
  ultimately have "big_val (add_loop n d a b 0 ?m) d n = (big_val m a n + big_val m b n) mod 2 ^ (32 * n)"
    using add_loop_exact [OF ok(1,2), of 0 ?m] by simp
  then show ?thesis unfolding step .
qed

section \<open>Subtraction and increment\<close>

lemma sub_loop_above: "x < d \<or> d + n \<le> x \<Longrightarrow> sub_loop n d a b c m x = m x"
  by (induction n arbitrary: c m) (auto simp: Let_def)

lemma borrow_exact:
  fixes a b c :: u32
  assumes "c = 0 \<or> c = 1" "b \<noteq> - 1"
  shows "unat a + 2 ^ 32 * (if a - c - b > a then 1 else 0) = unat (a - c - b) + unat b + unat c"
proof -
  have A: "unat a < 2 ^ 32" "unat b < 2 ^ 32" by (rule unat_less)+
  have C: "unat c \<le> 1" using assms(1) by auto
  have n: "unat b \<noteq> 2 ^ 32 - 1" using assms(2) by (metis unat_all_ones word_unat_eq_iff)
  have bc: "unat (b + c) = unat b + unat c" using A C n by (simp add: unat_word_ariths)
  have d: "a - c - b = a - (b + c)" by (simp add: algebra_simps)
  show ?thesis
  proof (cases "unat b + unat c \<le> unat a")
    case True
    then have "unat (a - c - b) = unat a - (unat b + unat c)"
      unfolding d using bc by (simp add: unat_sub word_le_nat_alt)
    then show ?thesis using True by (simp add: word_less_nat_alt)
  next
    case False
    then have "unat (a - c - b) = 2 ^ 32 + unat a - (unat b + unat c)"
      unfolding d using bc A by (simp add: unat_sub_if_size word_size word_le_nat_alt)
    then show ?thesis using False A C n by (simp add: word_less_nat_alt)
  qed
qed

lemma sub_loop_exact:
  assumes "operand_ok n d a" "operand_ok n d b" "c = 0 \<or> c = 1" "\<forall>i<n. m (b + i) \<noteq> - 1"
  shows "(big_val (sub_loop n d a b c m) d n + big_val m b n + unat c) mod 2 ^ (32 * n) = big_val m a n"
  using assms
proof (induction n arbitrary: c m)
  case (Suc n)
  define s where "s = m (a + n) - c - m (b + n)"
  define c' :: u32 where "c' = (if s > m (a + n) then 1 else 0)"
  let ?m = "m(d + n := s)"
  have ok: "operand_ok n d a" "operand_ok n d b" "d + n < a \<or> a + n \<le> d + n" "d + n < b \<or> b + n \<le> d + n"
    using Suc.prems(1,2) operand_ok_Suc by blast+
  have c: "c' = 0 \<or> c' = 1" by (simp add: c'_def)
  let ?r = "sub_loop n d a b c' ?m"
  have IH: "(big_val ?r d n + big_val m b n + unat c') mod 2 ^ (32 * n) = big_val m a n"
  proof -
    have "\<forall>i<n. ?m (b + i) \<noteq> - 1" using Suc.prems(4) ok(4) by auto
    moreover have "big_val ?m a n = big_val m a n" "big_val ?m b n = big_val m b n" using ok(3,4) by auto
    ultimately show ?thesis using Suc.IH [OF ok(1,2) c] by metis
  qed
  have e: "unat (m (a + n)) + 2 ^ 32 * unat c' = unat s + unat (m (b + n)) + unat c"
    using borrow_exact [OF Suc.prems(3), of "m (b + n)" "m (a + n)"] Suc.prems(4) by (simp add: s_def c'_def split: if_splits)
  have "big_val (sub_loop (Suc n) d a b c m) d (Suc n) = big_val ?r d n * 2 ^ 32 + unat s"
    using sub_loop_above [of "d + n" d n a b c' ?m] by (simp add: Let_def s_def c'_def)
  then have "big_val (sub_loop (Suc n) d a b c m) d (Suc n) + big_val m b (Suc n) + unat c =
      (big_val ?r d n + big_val m b n + unat c') * 2 ^ 32 + unat (m (a + n))"
    using e by (simp add: algebra_simps)
  moreover have "((big_val ?r d n + big_val m b n + unat c') * 2 ^ 32 + unat (m (a + n))) mod (2 ^ 32 * 2 ^ (32 * n)) =
      (big_val ?r d n + big_val m b n + unat c') mod 2 ^ (32 * n) * 2 ^ 32 + unat (m (a + n))"
    by (rule mod_step [symmetric]) (simp, rule unat_less)
  moreover have "(2 :: nat) ^ (32 * Suc n) = 2 ^ 32 * 2 ^ (32 * n)" by (simp add: power_add)
  ultimately show ?case unfolding big_val.simps(2) [of m a] by (simp only: IH)
qed simp

lemma increment_loop_above: "x < d \<or> d + n \<le> x \<Longrightarrow> increment_loop n d m x = m x"
  by (induction n arbitrary: m) (auto simp: Let_def)

lemma unat_next: "w \<noteq> - 1 \<Longrightarrow> unat (w + 1 :: u32) = unat w + 1"
  using unat_less [of w] unat_all_ones word_unat_eq_iff [of w "- 1"] by (simp add: unat_word_ariths)

lemma increment_loop_exact: "big_val (increment_loop n d m) d n = (big_val m d n + 1) mod 2 ^ (32 * n)"
proof (induction n arbitrary: m)
  case (Suc n)
  let ?w = "m (d + n)"
  have p: "(2 :: nat) ^ (32 * Suc n) = 2 ^ 32 * 2 ^ (32 * n)" by (simp add: power_add)
  show ?case
  proof (cases "?w = - 1")
    case True
    let ?m = "m(d + n := 0)"
    have "(0 :: u32) < - 1" by (simp add: word_less_nat_alt unat_all_ones)
    moreover have "big_val ?m d n = big_val m d n" by simp
    ultimately have "big_val (increment_loop (Suc n) d m) d (Suc n) = (big_val m d n + 1) mod 2 ^ (32 * n) * 2 ^ 32 + 0"
      using True Suc.IH [of ?m] increment_loop_above [of "d + n" d n ?m] by (simp add: Let_def fun_upd_same del: fun_upd_apply)
    also have "\<dots> = ((big_val m d n + 1) * 2 ^ 32 + 0) mod (2 ^ 32 * 2 ^ (32 * n))" by (rule mod_step) simp_all
    also have "(big_val m d n + 1) * 2 ^ 32 + 0 = big_val m d (Suc n) + 1" using True unat_all_ones by simp
    finally show ?thesis unfolding p .
  next
    case False
    then have w: "unat (?w + 1) = unat ?w + 1" by (rule unat_next)
    then have "big_val m d (Suc n) + 1 < 2 ^ (32 * Suc n)"
      using big_val_less [of "m(d + n := ?w + 1)" d "Suc n"] by simp
    moreover have "\<not> ?w + 1 < ?w" using w by (simp add: word_less_nat_alt)
    ultimately show ?thesis using w by (simp add: Let_def fun_upd_same del: fun_upd_apply)
  qed
qed simp

section \<open>Shifting\<close>

lemma big_val_append: "big_val m p (a + b) = big_val m p a * 2 ^ (32 * b) + big_val m (p + a) b"
  by (induction b) (simp_all add: algebra_simps power_add)

lemma big_val_zero: "(\<And>i. i < n \<Longrightarrow> m (p + i) = 0) \<Longrightarrow> big_val m p n = 0"
  by (induction n) auto

lemma bit_push_word: "bit (push_bit k (x :: u32)) n \<longleftrightarrow> k \<le> n \<and> n < 32 \<and> bit x (n - k)"
  by (auto simp: bit_simps)

lemma top_bits_drop: "k \<le> 32 \<Longrightarrow> top_bits k v = drop_bit (32 - k) v"
proof (induction k)
  case 0
  then show ?case by (simp add: bit_eq_iff bit_simps)
next
  case (Suc k)
  show ?case
  proof (rule bit_word_eqI)
    fix n assume "n < LENGTH(32)"
    have "31 - k + n = 32 - Suc k + n" "0 < n \<Longrightarrow> 32 - k + (n - 1) = 32 - Suc k + n" using Suc.prems by linarith+
    then show "bit (top_bits (Suc k) v) n = bit (drop_bit (32 - Suc k) v) n"
      using Suc \<open>n < LENGTH(32)\<close> unfolding top_bits.simps bit_or_iff bit_push_word
      by (cases "n = 0") (auto simp: bit_simps)
  qed
qed

lemma unat_top_bits: "k < 32 \<Longrightarrow> unat (top_bits k v) = unat v * 2 ^ k div 2 ^ 32"
proof -
  assume k: "k < 32"
  have "unat v * 2 ^ k div 2 ^ 32 = unat v * 2 ^ k div (2 ^ k * 2 ^ (32 - k))" using k by (simp flip: power_add)
  also have "\<dots> = unat v div 2 ^ (32 - k)" by (simp add: mult.commute)
  also have "\<dots> = drop_bit (32 - k) (unat v)" by (simp only: drop_bit_eq_div)
  also have "\<dots> = unat (drop_bit (32 - k) v)" by (rule unat_drop_bit_eq [symmetric])
  also have "\<dots> = unat (top_bits k v)" using k by (simp only: top_bits_drop)
  finally show ?thesis by (rule sym)
qed

lemma unat_push_or:
  assumes "k < 32" "unat put < 2 ^ k"
  shows "unat (push_bit k w OR put :: u32) = unat w * 2 ^ k mod 2 ^ 32 + unat put"
proof -
  have b: "n < k" if "bit put n" for n
  proof (rule ccontr)
    assume "\<not> n < k"
    then have "(2 :: nat) ^ k \<le> 2 ^ n" by simp
    with assms(2) have "unat put < 2 ^ n" by (rule less_le_trans)
    then have "unat put div 2 ^ n = 0" by (rule div_less)
    moreover have "bit (unat put) n" using that by (simp add: bit_unsigned_iff)
    ultimately show False by (simp add: bit_iff_odd)
  qed
  have "push_bit k w OR put = push_bit k w + put"
    by (rule disjunctive_add_eq_or [symmetric], rule bit_word_eqI) (auto simp: bit_simps dest: b)
  moreover have u: "unat (push_bit k w) = unat w * 2 ^ k mod 2 ^ 32"
    by (simp only: unsigned_push_bit_eq) (simp add: take_bit_eq_mod push_bit_eq_mult)
  moreover have "unat w * 2 ^ k mod 2 ^ 32 + unat put < 2 ^ 32"
  proof -
    have e: "(2 :: nat) ^ 32 = 2 ^ k * 2 ^ (32 - k)" using assms(1) by (simp flip: power_add)
    have "unat w * 2 ^ k mod 2 ^ 32 = (unat w mod 2 ^ (32 - k)) * 2 ^ k"
      unfolding e by (simp add: mult.commute)
    moreover have "(unat w mod 2 ^ (32 - k) + 1) * 2 ^ k \<le> 2 ^ (32 - k) * 2 ^ k"
      by (rule mult_right_mono) (simp_all add: Suc_leI)
    ultimately show ?thesis using assms(2) unfolding e by (simp add: algebra_simps)
  qed
  ultimately show ?thesis by (simp add: unat_word_ariths)
qed

lemma shl_loop_above: "x < d \<or> d + n \<le> x \<Longrightarrow> shl_loop n d a k c m x = m x"
  by (induction n arbitrary: c m) auto

lemma shl_loop_exact:
  assumes "operand_ok n d a" "k < 32" "unat put < 2 ^ k"
  shows "big_val (shl_loop n d a k put m) d n = (big_val m a n * 2 ^ k + unat put) mod 2 ^ (32 * n)"
  using assms
proof (induction n arbitrary: put m)
  case (Suc n)
  let ?w = "m (a + n)" let ?v = "push_bit k ?w OR put" let ?m = "m(d + n := ?v)"
  have ok: "operand_ok n d a" "d + n < a \<or> a + n \<le> d + n" using operand_ok_Suc [OF Suc.prems(1)] by blast+
  have t: "unat (top_bits k ?w) = unat ?w * 2 ^ k div 2 ^ 32" by (rule unat_top_bits [OF Suc.prems(2)])
  have "unat ?w * 2 ^ k < 2 ^ k * 2 ^ 32" using unat_less [of ?w] by simp
  then have "unat (top_bits k ?w) < 2 ^ k" unfolding t by (simp add: less_mult_imp_div_less)
  from Suc.IH [OF ok(1) Suc.prems(2) this, of ?m]
  have IH: "big_val (shl_loop n d a k (top_bits k ?w) ?m) d n = (big_val m a n * 2 ^ k + unat (top_bits k ?w)) mod 2 ^ (32 * n)"
    using ok(2) by (auto simp del: fun_upd_apply)
  have "big_val (shl_loop (Suc n) d a k put m) d (Suc n) =
      (big_val m a n * 2 ^ k + unat (top_bits k ?w)) mod 2 ^ (32 * n) * 2 ^ 32 + unat ?v"
    using IH shl_loop_above [of "d + n" d n a k "top_bits k ?w" ?m] by (simp add: fun_upd_same del: fun_upd_apply)
  also have "\<dots> = ((big_val m a n * 2 ^ k + unat (top_bits k ?w)) * 2 ^ 32 + unat ?v) mod (2 ^ 32 * 2 ^ (32 * n))"
    by (rule mod_step) (simp, rule unat_less)
  also have "(big_val m a n * 2 ^ k + unat (top_bits k ?w)) * 2 ^ 32 + unat ?v = big_val m a (Suc n) * 2 ^ k + unat put"
    unfolding t unat_push_or [OF Suc.prems(2,3)]
    using div_mult_mod_eq [of "unat ?w * 2 ^ k" "2 ^ 32"] by (simp add: algebra_simps)
  finally show ?case by (simp add: power_add mult.commute)
qed simp

text \<open>The words moved before the loop: the number shifted by whole words.\<close>

definition shift_words :: "nat \<Rightarrow> nat \<Rightarrow> cells \<Rightarrow> cells" where
  "shift_words p w m = TEE_MemFill (p + BIG_LEN - w) 0 w (TEE_MemMove p (p + w) (BIG_LEN - w) m)"

lemma shift_words_val:
  assumes "w \<le> 66"
  shows "big_val (shift_words p w m) p 66 = big_val m p 66 * 2 ^ (32 * w) mod 2 ^ (32 * 66)"
proof -
  let ?m = "shift_words p w m"
  have e: "66 = (66 - w) + w" "66 = w + (66 - w)" using assms by simp_all
  have "big_val ?m p (66 - w) = big_val m (p + w) (66 - w)"
    by (rule big_val_cong) (use assms in \<open>auto simp: shift_words_def TEE_MemFill_def TEE_MemMove_def add.assoc\<close>)
  moreover have "big_val ?m (p + (66 - w)) w = 0"
    by (rule big_val_zero) (use assms in \<open>auto simp: shift_words_def TEE_MemFill_def\<close>)
  ultimately have l: "big_val ?m p 66 = big_val m (p + w) (66 - w) * 2 ^ (32 * w)"
    using big_val_append [of ?m p "66 - w" w] assms by simp
  have p: "(2 :: nat) ^ (32 * 66) = 2 ^ (32 * (66 - w)) * 2 ^ (32 * w)"
    using assms by (simp flip: power_add add: algebra_simps)
  have "big_val m p 66 = big_val m p w * 2 ^ (32 * (66 - w)) + big_val m (p + w) (66 - w)"
    using big_val_append [of m p w "66 - w"] assms by simp
  then have "big_val m p 66 * 2 ^ (32 * w) mod 2 ^ (32 * 66) = big_val m (p + w) (66 - w) mod 2 ^ (32 * (66 - w)) * 2 ^ (32 * w)"
    unfolding p mod_mult_mult2 by simp
  then show ?thesis using l big_val_less [of m "p + w" "66 - w"] by simp
qed

lemma left_shift_cases:
  "bits < 2112 \<Longrightarrow> TEE_BigIntLeftShift d a bits m =
     Some (shl_loop 66 d a (bits mod 32) 0 (if bits \<ge> 32 then shift_words a (bits div 32) m else m))"
  using less_mult_imp_div_less [of bits 66 32] by (simp add: TEE_BigIntLeftShift_def Let_def shift_words_def)

lemma left_shift_spec:
  assumes "bits < 32 * BIG_LEN" "operand_ok BIG_LEN d a"
  shows "\<exists>m'. TEE_BigIntLeftShift d a bits m = Some m' \<and>
    big_val m' d BIG_LEN = big_val m a BIG_LEN * 2 ^ bits mod 2 ^ (32 * BIG_LEN) \<and>
    (bits < 32 \<longrightarrow> (\<forall>x. x < d \<or> d + BIG_LEN \<le> x \<longrightarrow> m' x = m x))"
proof -
  let ?m = "if bits \<ge> 32 then shift_words a (bits div 32) m else m"
  let ?k = "bits mod 32" let ?M = "2 ^ (32 * 66) :: nat"
  have "big_val ?m a 66 = big_val m a 66 * 2 ^ (32 * (bits div 32)) mod ?M"
  proof (cases "bits \<ge> 32")
    case True
    have "bits div 32 \<le> 66" using assms(1) by simp
    then show ?thesis unfolding if_P [OF True] by (rule shift_words_val)
  next
    case False
    have "big_val m a 66 mod ?M = big_val m a 66" by (rule mod_less [OF big_val_less])
    then show ?thesis using False by simp
  qed
  moreover have "big_val (shl_loop 66 d a ?k 0 ?m) d 66 = (big_val ?m a 66 * 2 ^ ?k + unat (0 :: u32)) mod ?M"
    by (rule shl_loop_exact) (use assms(2) in simp_all)
  ultimately have "big_val (shl_loop 66 d a ?k 0 ?m) d 66 = big_val m a 66 * 2 ^ (32 * (bits div 32)) mod ?M * 2 ^ ?k mod ?M"
    by (simp only: unsigned_0 add_0_right)
  also have "\<dots> = big_val m a 66 * (2 ^ (32 * (bits div 32)) * 2 ^ ?k) mod ?M"
    by (simp only: mod_mult_left_eq mult.assoc)
  also have "(2 :: nat) ^ (32 * (bits div 32)) * 2 ^ ?k = 2 ^ bits"
    by (simp flip: power_add)
  finally have v: "big_val (shl_loop 66 d a ?k 0 ?m) d 66 = big_val m a 66 * 2 ^ bits mod ?M" .
  moreover have "bits < 32 \<Longrightarrow> x < d \<or> d + 66 \<le> x \<Longrightarrow> shl_loop 66 d a ?k 0 ?m x = m x" for x
    using shl_loop_above [of x d 66] by simp
  moreover have "TEE_BigIntLeftShift d a bits m = Some (shl_loop 66 d a ?k 0 ?m)"
    using assms(1) by (simp add: left_shift_cases)
  ultimately show ?thesis unfolding BIG_LEN by blast
qed

section \<open>Comparison and the highest bit\<close>

lemma sgn_less: "x < y \<Longrightarrow> sgn (int x - int y) = - 1" "y < x \<Longrightarrow> sgn (int x - int y) = 1"
  by (simp_all add: sgn_if)

lemma cmp_loop_exact:
  "cmp_loop k i a b m = sgn (int (big_val m (a + i) k) - int (big_val m (b + i) k))"
proof (induction k arbitrary: i)
  case (Suc k)
  let ?x = "m (a + i)" let ?y = "m (b + i)" let ?p = "2 ^ (32 * k) :: nat"
  have v: "big_val m (q + i) (Suc k) = unat (m (q + i)) * ?p + big_val m (q + (i + 1)) k" for q
    using big_val_append [of m "q + i" 1 k] by (simp add: algebra_simps)
  have l: "big_val m (q + (i + 1)) k < ?p" for q by (rule big_val_less)
  have lt: "unat ?x * ?p + big_val m (a + (i + 1)) k < unat ?y * ?p + big_val m (b + (i + 1)) k" if "unat ?x < unat ?y"
  proof -
    have "unat ?x * ?p + big_val m (a + (i + 1)) k < (unat ?x + 1) * ?p" using l [of a] by simp
    also have "\<dots> \<le> unat ?y * ?p" using that by (intro mult_right_mono) simp_all
    finally show ?thesis by simp
  qed
  have gt: "unat ?y * ?p + big_val m (b + (i + 1)) k < unat ?x * ?p + big_val m (a + (i + 1)) k" if "unat ?y < unat ?x"
  proof -
    have "unat ?y * ?p + big_val m (b + (i + 1)) k < (unat ?y + 1) * ?p" using l [of b] by simp
    also have "\<dots> \<le> unat ?x * ?p" using that by (intro mult_right_mono) simp_all
    finally show ?thesis by simp
  qed
  consider "unat ?x < unat ?y" | "unat ?y < unat ?x" | "?x = ?y" by (metis linorder_neqE_nat word_unat_eq_iff)
  then show ?case
  proof cases
    case 1
    then show ?thesis using sgn_less(1) [OF lt [OF 1]] unfolding v by (simp add: word_less_nat_alt)
  next
    case 2
    then show ?thesis using sgn_less(2) [OF gt [OF 2]] unfolding v by (simp add: word_less_nat_alt)
  next
    case 3
    then show ?thesis using Suc.IH [of "i + 1"] unfolding v by simp
  qed
qed simp

lemma TEE_BigIntCmp_same_top: "m a = m b \<Longrightarrow> TEE_BigIntCmp a b m = sgn (int (big_val m a 66) - int (big_val m b 66))"
  using cmp_loop_exact [of 66 0 a b m] by (simp add: TEE_BigIntCmp_def)

text \<open>With different highest words only the lowest bit of the first one decides.\<close>

lemma TEE_BigIntCmp_other_top: "m a \<noteq> m b \<Longrightarrow> TEE_BigIntCmp a b m = (if odd (m a) then - 1 else 1)"
  by (simp add: TEE_BigIntCmp_def and_one_eq odd_iff_mod_2_eq_one)

lemma top_bit_bounds:
  fixes w :: u32
  assumes "bit w j" "\<forall>k. j < k \<longrightarrow> \<not> bit w k"
  shows "2 ^ j \<le> unat w" "unat w < 2 ^ (j + 1)"
proof -
  have no: "\<not> bit w (j + n)" if "0 < n" for n using assms(2) that by simp
  have "drop_bit j w = 1"
  proof (rule bit_word_eqI)
    fix n show "bit (drop_bit j w) n = bit 1 n"
      using assms(1) no [of n] by (cases n) (simp_all add: bit_simps bit_1_iff)
  qed
  then have d: "unat w div 2 ^ j = 1"
    by (metis drop_bit_eq_div unat_drop_bit_eq unat_1)
  have "unat w = 2 ^ j + unat w mod 2 ^ j" using div_mult_mod_eq [of "unat w" "2 ^ j"] by (simp add: d)
  moreover have "unat w mod 2 ^ j < 2 ^ j" by simp
  ultimately show "2 ^ j \<le> unat w" "unat w < 2 ^ (j + 1)" unfolding power_add power_one_right by linarith+
qed

lemma find_top_bit:
  fixes w :: u32
  assumes "w \<noteq> 0"
  shows "\<exists>j<32. find (\<lambda>j. bit w j) (rev [0..<32]) = Some j \<and> 2 ^ j \<le> unat w \<and> unat w < 2 ^ (j + 1)"
proof -
  obtain n where "n < 32" "bit w n" using assms bit_word_eqI [of w 0] by auto
  then have "find (\<lambda>j. bit w j) (rev [0..<32]) \<noteq> None" by (auto simp: find_None_iff)
  then obtain j where j: "find (\<lambda>j. bit w j) (rev [0..<32]) = Some j" by blast
  then obtain i where i: "i < 32" "bit w j" "j = 31 - i" "\<forall>k<i. \<not> bit w (31 - k)"
    by (auto simp: find_Some_iff rev_nth)
  have "\<not> bit w k" if "j < k" for k
  proof (cases "k < 32")
    case True
    then have "31 - k < i" "31 - (31 - k) = k" using i(3) that by linarith+
    then show ?thesis using i(4) by metis
  next
    case False
    then show ?thesis by (auto dest: bit_imp_le_length)
  qed
  then have "2 ^ j \<le> unat w" "unat w < 2 ^ (j + 1)" using top_bit_bounds [OF i(2)] by blast+
  moreover have "j < 32" using i(3) by simp
  ultimately show ?thesis using j by blast
qed

lemma MaxBitPos_bounds:
  assumes "big_val m p 66 \<noteq> 0"
  shows "2 ^ MaxBitPos p m \<le> big_val m p 66" "big_val m p 66 < 2 ^ (MaxBitPos p m + 1)"
proof -
  have "\<exists>i<66. m (p + i) \<noteq> 0" using assms big_val_zero [of 66 m p] by fastforce
  then have "find (\<lambda>i. m (p + i) \<noteq> 0) [0..<66] \<noteq> None" by (auto simp: find_None_iff)
  then obtain i where i: "find (\<lambda>i. m (p + i) \<noteq> 0) [0..<66] = Some i" by blast
  then have i': "i < 66" "m (p + i) \<noteq> 0" "\<forall>k<i. m (p + k) = 0" by (auto simp: find_Some_iff)
  obtain j where j: "find (\<lambda>j. bit (m (p + i)) j) (rev [0..<32]) = Some j" "2 ^ j \<le> unat (m (p + i))" "unat (m (p + i)) < 2 ^ (j + 1)"
    using find_top_bit [OF i'(2)] by blast
  let ?n = "65 - i" let ?r = "big_val m (p + i + 1) ?n"
  have b: "MaxBitPos p m = 32 * ?n + j" using i j(1) by (simp add: MaxBitPos_def)
  have "big_val m p 66 = big_val m p i * 2 ^ (32 * (66 - i)) + big_val m (p + i) (66 - i)"
    using big_val_append [of m p i "66 - i"] i'(1) by simp
  also have "big_val m p i = 0" using i'(3) by (intro big_val_zero) blast
  also have "big_val m (p + i) (66 - i) = unat (m (p + i)) * 2 ^ (32 * ?n) + ?r"
  proof -
    have "66 - i = 1 + ?n" using i'(1) by simp
    then show ?thesis using big_val_append [of m "p + i" 1 ?n] by simp
  qed
  finally have v: "big_val m p 66 = unat (m (p + i)) * 2 ^ (32 * ?n) + ?r" by simp
  have r: "?r < 2 ^ (32 * ?n)" by (rule big_val_less)
  have pb: "(2 :: nat) ^ MaxBitPos p m = 2 ^ j * 2 ^ (32 * ?n)" by (simp add: b power_add mult.commute)
  have "2 ^ j * 2 ^ (32 * ?n) \<le> unat (m (p + i)) * 2 ^ (32 * ?n)" by (rule mult_right_mono [OF j(2)]) simp
  then show "2 ^ MaxBitPos p m \<le> big_val m p 66" unfolding v pb by (rule trans_le_add1)
  have "(unat (m (p + i)) + 1) * 2 ^ (32 * ?n) \<le> 2 ^ (j + 1) * 2 ^ (32 * ?n)"
    using j(3) by (intro mult_right_mono) simp_all
  then have "unat (m (p + i)) * 2 ^ (32 * ?n) + ?r < 2 ^ (j + 1) * 2 ^ (32 * ?n)" using r by simp
  then show "big_val m p 66 < 2 ^ (MaxBitPos p m + 1)" unfolding v power_add pb by (simp add: mult.commute mult.left_commute)
qed

lemma MaxBitPos_zero: "big_val m p 66 = 0 \<Longrightarrow> MaxBitPos p m = 0"
proof -
  assume z: "big_val m p 66 = 0"
  have "m (p + i) = 0" if "i < 66" for i
  proof -
    have "big_val m p 66 = big_val m p (Suc i) * 2 ^ (32 * (66 - Suc i)) + big_val m (p + Suc i) (66 - Suc i)"
      using big_val_append [of m p "Suc i" "66 - Suc i"] that by simp
    then have "big_val m p (Suc i) = 0" using z by simp
    then show ?thesis by (simp add: unat_eq_zero)
  qed
  then have "find (\<lambda>i. m (p + i) \<noteq> 0) [0..<66] = None" by (simp add: find_None_iff)
  then show ?thesis by (simp add: MaxBitPos_def)
qed

section \<open>Properties\<close>

text \<open>
  C23. Addition is exact modulo the length of a number, also in place, as long as no two words that meet are both
  all ones; such words would swallow an incoming carry.
\<close>

theorem TEE_BigIntAdd_exact:
  assumes "operand_ok BIG_LEN d a" "operand_ok BIG_LEN d b" "\<forall>i<BIG_LEN. \<not> (m (a + i) = - 1 \<and> m (b + i) = - 1)"
  shows "big_val (TEE_BigIntAdd d a b m) d BIG_LEN = (big_val m a BIG_LEN + big_val m b BIG_LEN) mod 2 ^ (32 * BIG_LEN)"
  unfolding TEE_BigIntAdd_def using add_loop_exact [OF assms(1,2), of 0 m] assms(3) by (simp only: unsigned_0 add_0_right simp_thms)

theorem TEE_BigIntAdd_exact_witness:
  "big_val (TEE_BigIntAdd 0 100 200 ((\<lambda>_. 0)(165 := 0xffffffff, 265 := 1))) 0 BIG_LEN = 0x100000000"
proof -
  let ?m = "(\<lambda>_. 0)(165 := 0xffffffff, 265 := 1) :: cells"
  have v: "big_val ?m p BIG_LEN = unat (?m (p + 65))" if "p \<in> {100, 200}" for p
  proof -
    have "big_val ?m p 65 = 0" using that by (intro big_val_zero) auto
    then show ?thesis using big_val.simps(2) [of ?m p 65] by simp
  qed
  have "big_val (TEE_BigIntAdd 0 100 200 ?m) 0 BIG_LEN = (big_val ?m 100 BIG_LEN + big_val ?m 200 BIG_LEN) mod 2 ^ (32 * BIG_LEN)"
    by (rule TEE_BigIntAdd_exact) (auto simp: operand_ok_def)
  then show ?thesis using v [of 100] v [of 200] by simp
qed

text \<open>
  A left shift by fewer bits than a number has is exact modulo the length of a number, also in
  place; a shift by 32 bits or more also changes its source.
\<close>

theorem TEE_BigIntLeftShift_exact:
  assumes "bits < 32 * BIG_LEN" "operand_ok BIG_LEN d a"
  shows "\<exists>m'. TEE_BigIntLeftShift d a bits m = Some m' \<and>
    big_val m' d BIG_LEN = big_val m a BIG_LEN * 2 ^ bits mod 2 ^ (32 * BIG_LEN) \<and>
    (bits < 32 \<longrightarrow> (\<forall>x. x < d \<or> d + BIG_LEN \<le> x \<longrightarrow> m' x = m x))"
  using assms by (rule left_shift_spec)

theorem TEE_BigIntLeftShift_exact_witness:
  "\<exists>m'. TEE_BigIntLeftShift 0 0 100 ((\<lambda>_. 0)(65 := 3)) = Some m' \<and> big_val m' 0 BIG_LEN = 3 * 2 ^ 100"
proof -
  let ?m = "(\<lambda>_. 0)(65 := 3) :: cells"
  have "big_val ?m 0 65 = 0" by (intro big_val_zero) auto
  then have v: "big_val ?m 0 BIG_LEN = 3" using big_val.simps(2) [of ?m 0 65] by simp
  have "(3 * 2 ^ 100) mod 2 ^ (32 * BIG_LEN) = (3 * 2 ^ 100 :: nat)" by simp
  then show ?thesis using TEE_BigIntLeftShift_exact [of 100 0 0 ?m] v by (auto simp: operand_ok_def)
qed

end
