(* ===== verification/TeeDivide.thy ===== *)
theory TeeDivide
  imports TeeArithProps
begin

text \<open>
  The division of \<open>TeeArith\<close>: right for a divisor that is a power of two, wrong as soon as the aligned divisor
  exceeds the remainder by more than one bit, and without end for the divisor zero.
\<close>

section \<open>Arrays apart from each other\<close>

definition apart :: "nat \<Rightarrow> nat \<Rightarrow> bool" where
  "apart p q \<longleftrightarrow> p + 66 \<le> q \<or> q + 66 \<le> p"

lemma apart_sym: "apart p q \<Longrightarrow> apart q p"
  by (auto simp: apart_def)

definition frame :: "nat \<Rightarrow> cells \<Rightarrow> cells \<Rightarrow> bool" where
  "frame d m m' \<longleftrightarrow> (\<forall>x. x < d \<or> d + 66 \<le> x \<longrightarrow> m' x = m x)"

lemma frame_word: "frame d m m' \<Longrightarrow> apart p d \<Longrightarrow> i < 66 \<Longrightarrow> m' (p + i) = m (p + i)"
proof -
  assume f: "frame d m m'" and a: "apart p d" "i < 66"
  have "p + i < d \<or> d + 66 \<le> p + i" using a unfolding apart_def by linarith
  then show ?thesis using f unfolding frame_def by blast
qed

lemma frame_val: "frame d m m' \<Longrightarrow> apart p d \<Longrightarrow> big_val m' p 66 = big_val m p 66"
  by (rule big_val_cong) (rule frame_word)

lemma frames:
  "frame d m (TEE_BigIntAdd d a b m)" "frame d m (TEE_BigIntSub d a b m)" "frame d m (incrementBigInt d m)"
  "frame d m (TEE_MemMove d a 66 m)" "frame d m (TEE_MemFill d v 66 m)" "frame d m (shl_loop 66 d a k c m)"
  by (auto simp: frame_def TEE_BigIntAdd_def TEE_BigIntSub_def incrementBigInt_def TEE_MemMove_def TEE_MemFill_def
      add_loop_above sub_loop_above increment_loop_above shl_loop_above)

lemma move_val: "big_val (TEE_MemMove d a 66 m) d 66 = big_val m a 66"
  by (rule big_val_cong) (simp add: TEE_MemMove_def)

section \<open>Words of a number\<close>

lemma word_of_val:
  assumes "i < 66"
  shows "unat (m (p + i)) = big_val m p 66 div 2 ^ (32 * (65 - i)) mod 2 ^ 32"
proof -
  have "big_val m p 66 = big_val m p (Suc i) * 2 ^ (32 * (65 - i)) + big_val m (p + Suc i) (65 - i)"
    using big_val_append [of m p "Suc i" "65 - i"] assms by simp
  then have "big_val m p 66 div 2 ^ (32 * (65 - i)) = big_val m p (Suc i)"
    using big_val_less [of m "p + Suc i" "65 - i"] by simp
  then show ?thesis using unat_less [of "m (p + i)"] by simp
qed

lemma top_zero: "big_val m p 66 < 2 ^ 2080 \<Longrightarrow> m p = 0"
  using word_of_val [of 0 m p] by (simp add: unat_eq_zero)

lemma power_not_full:
  assumes "big_val m p 66 = 2 ^ j" "i < 66"
  shows "m (p + i) \<noteq> - 1"
proof
  assume "m (p + i) = - 1"
  then have f: "(2 :: nat) ^ 32 - 1 = 2 ^ j div 2 ^ (32 * (65 - i)) mod 2 ^ 32"
    using word_of_val [OF assms(2), of m p] unat_all_ones assms(1) by simp
  have o: "odd ((2 :: nat) ^ 32 - 1)" by simp
  show False
  proof (cases "32 * (65 - i) \<le> j")
    case True
    then have d: "(2 :: nat) ^ j div 2 ^ (32 * (65 - i)) = 2 ^ (j - 32 * (65 - i))" by (simp add: power_diff)
    show False
    proof (cases "j - 32 * (65 - i) = 0")
      case True
      then show False using f d by simp
    next
      case False
      then have "even ((2 :: nat) ^ (j - 32 * (65 - i)) mod 2 ^ 32)" by (intro dvd_mod) simp_all
      then show False using f d o by simp
    qed
  next
    case False
    then have "(2 :: nat) ^ j div 2 ^ (32 * (65 - i)) = 0" by simp
    then show False using f by simp
  qed
qed

lemma MaxBitPos_unique:
  assumes "2 ^ n \<le> big_val m p 66" "big_val m p 66 < 2 ^ (n + 1)"
  shows "MaxBitPos p m = n"
proof -
  have "0 < (2 :: nat) ^ n" by simp
  then have "big_val m p 66 \<noteq> 0" using assms(1) by linarith
  note b = MaxBitPos_bounds [OF this]
  have "(2 :: nat) ^ n < 2 ^ (MaxBitPos p m + 1)" "(2 :: nat) ^ MaxBitPos p m < 2 ^ (n + 1)"
    using b assms by (blast intro: le_less_trans)+
  then have "n < MaxBitPos p m + 1" "MaxBitPos p m < n + 1" by (simp_all only: power_strict_increasing_iff [of "2 :: nat"])
  then show ?thesis by simp
qed

lemma unat_push_bit_one: "k < 32 \<Longrightarrow> unat (push_bit k (1 :: u32)) = 2 ^ k"
  using power_strict_increasing [of k 32 "2 :: nat"]
  by (simp only: unsigned_push_bit_eq) (simp add: push_bit_eq_mult take_bit_eq_mod)

lemma power_loop_power: "power_loop n x r = r * x ^ n"
  by (induction n arbitrary: r) (simp_all add: mult.assoc)

lemma XPowerY_two: "k < 32 \<Longrightarrow> XPowerY 2 (of_nat k) = push_bit k 1"
  by (simp add: XPowerY_def power_loop_power unat_of_nat push_bit_eq_mult)

text \<open>A number with one word.\<close>

lemma one_word_val:
  assumes "\<forall>i<66. m (p + i) = 0" "k < 66"
  shows "big_val (m(p + 65 - k := v)) p 66 = unat v * 2 ^ (32 * k)"
proof -
  let ?m = "m(p + (65 - k) := v)"
  have e: "66 = Suc (65 - k) + k" "p + 65 - k = p + (65 - k)" using assms(2) by simp_all
  have "big_val ?m p (65 - k) = 0" using assms by (auto intro!: big_val_zero)
  moreover have "big_val ?m (p + Suc (65 - k)) k = 0"
  proof (rule big_val_zero)
    fix i assume i: "i < k"
    then have "Suc (65 - k) + i < 66" using assms(2) by linarith
    then have "m (p + Suc (65 - k) + i) = 0" using assms(1) by (simp only: add.assoc)
    moreover have "p + Suc (65 - k) + i \<noteq> p + (65 - k)" by simp
    ultimately show "?m (p + Suc (65 - k) + i) = 0" by (metis fun_upd_other)
  qed
  ultimately show ?thesis using big_val_append [of ?m p "Suc (65 - k)" k] assms(2) unfolding e(2) by simp
qed

lemma adder_val:
  assumes "\<forall>i<66. m (p + i) = 0" "n < 2112"
  shows "big_val (m(p + 65 - n div 32 := XPowerY 2 (of_nat (n mod 32)))) p 66 = 2 ^ n"
proof -
  have "unat (XPowerY 2 (of_nat (n mod 32))) = 2 ^ (n mod 32)"
  proof -
    have l: "n mod 32 < 32" by simp
    show ?thesis unfolding XPowerY_two [OF l] by (rule unat_push_bit_one [OF l])
  qed
  moreover have "n div 32 < 66" using assms(2) by (simp add: less_mult_imp_div_less)
  ultimately have "big_val (m(p + 65 - n div 32 := XPowerY 2 (of_nat (n mod 32)))) p 66 = 2 ^ (n mod 32) * 2 ^ (32 * (n div 32))"
    using one_word_val [OF assms(1)] by metis
  also have "\<dots> = 2 ^ n" by (simp flip: power_add)
  finally show ?thesis .
qed

lemma cmp_small:
  assumes "big_val m a 66 < 2 ^ 2080" "big_val m b 66 < 2 ^ 2080"
  shows "0 \<le> TEE_BigIntCmp a b m \<longleftrightarrow> big_val m b 66 \<le> big_val m a 66"
  using TEE_BigIntCmp_same_top [of m a b] top_zero [OF assms(1)] top_zero [OF assms(2)] by (simp add: sgn_if)

section \<open>One round\<close>

text \<open>The arrays of a division and the buffers it still gets.\<close>

definition arrays_ok :: "nat \<Rightarrow> nat \<Rightarrow> nat \<Rightarrow> nat \<Rightarrow> nat list \<Rightarrow> bool" where
  "arrays_ok q t sh b ps \<longleftrightarrow> sorted_wrt apart (q # t # sh # b # ps)"

lemma arrays_okD:
  assumes "arrays_ok q t sh b ps"
  shows "apart q t" "apart q sh" "apart q b" "apart t sh" "apart t b" "apart sh b" "apart t q" "apart sh q" "apart b q" "apart sh t" "apart b t" "apart b sh"
    and "p \<in> set ps \<Longrightarrow> apart q p \<and> apart t p \<and> apart sh p \<and> apart b p \<and> apart p q \<and> apart p t \<and> apart p sh \<and> apart p b"
  using assms by (auto simp: arrays_ok_def intro: apart_sym)

lemma operand_self: "operand_ok 66 p p" "apart p q \<Longrightarrow> operand_ok 66 p q"
  by (auto simp: operand_ok_def apart_def)

lemma sub_mod: "(r + x) mod M = t \<Longrightarrow> r < M \<Longrightarrow> x < M \<Longrightarrow> x \<le> t \<Longrightarrow> r = t - (x :: nat)"
proof (cases "r + x < M")
  case False
  assume h: "(r + x) mod M = t" "r < M" "x < M" "x \<le> t"
  have "(r + x) mod M = (r + x - M) mod M" using False by (simp add: mod_if)
  also have "\<dots> = r + x - M" by (rule mod_less) (use h False in linarith)
  finally show ?thesis using h False by linarith
qed simp

lemma sub_val:
  assumes "apart t x" "\<forall>i<66. m (x + i) \<noteq> - 1" "big_val m x 66 \<le> big_val m t 66"
  shows "big_val (TEE_BigIntSub t t x m) t 66 = big_val m t 66 - big_val m x 66"
proof -
  let ?r = "big_val (TEE_BigIntSub t t x m) t 66" let ?M = "2 ^ (32 * 66) :: nat"
  have "(?r + big_val m x 66 + unat (0 :: u32)) mod ?M = big_val m t 66"
    unfolding TEE_BigIntSub_def BIG_LEN by (rule sub_loop_exact) (use assms operand_self in simp_all)
  then have e: "(?r + big_val m x 66) mod ?M = big_val m t 66" by (simp only: unsigned_0 add_0_right)
  have l: "?r < ?M" "big_val m x 66 < ?M" "big_val m t 66 < ?M" by (rule big_val_less)+
  show ?thesis by (rule sub_mod [OF e l(1,2) assms(3)])
qed

lemma add_val:
  assumes "apart q x" "\<forall>i<66. m (x + i) \<noteq> - 1"
  shows "big_val (TEE_BigIntAdd q q x m) q 66 = (big_val m q 66 + big_val m x 66) mod 2 ^ (32 * 66)"
proof -
  have "big_val (TEE_BigIntAdd q q x m) q 66 = (big_val m q 66 + big_val m x 66 + unat (0 :: u32)) mod 2 ^ (32 * 66)"
    unfolding TEE_BigIntAdd_def BIG_LEN by (rule add_loop_exact) (use assms operand_self in simp_all)
  then show ?thesis by (simp only: unsigned_0 add_0_right)
qed

lemma increment_val: "big_val (incrementBigInt q m) q 66 = (big_val m q 66 + 1) mod 2 ^ (32 * 66)"
  by (simp only: incrementBigInt_def BIG_LEN increment_loop_exact)

lemma shift_in_place:
  assumes "bits < 2112" "big_val m p 66 * 2 ^ bits < 2 ^ (32 * 66)"
  shows "\<exists>m'. TEE_BigIntLeftShift p p bits m = Some m' \<and> big_val m' p 66 = big_val m p 66 * 2 ^ bits \<and> frame p m m'"
proof -
  let ?m = "if bits \<ge> 32 then shift_words p (bits div 32) m else m"
  have l: "TEE_BigIntLeftShift p p bits m = Some (shl_loop 66 p p (bits mod 32) 0 ?m)" by (rule left_shift_cases [OF assms(1)])
  obtain m' where m': "TEE_BigIntLeftShift p p bits m = Some m'" "big_val m' p 66 = big_val m p 66 * 2 ^ bits mod 2 ^ (32 * 66)"
  proof -
    have "bits < 32 * 66" using assms(1) by simp
    from left_shift_spec [unfolded BIG_LEN, OF this operand_self(1), of p m] that show ?thesis by blast
  qed
  have w: "bits div 32 \<le> 66" using assms(1) by simp
  have "frame p m ?m"
    using w by (auto simp: frame_def shift_words_def TEE_MemFill_def TEE_MemMove_def)
  then have "frame p m m'" using frames(6) [of p ?m p "bits mod 32" 0] l m'(1) by (simp add: frame_def)
  then show ?thesis using m' mod_less [OF assms(2)] by metis
qed

lemma of_int_mod_32: "of_int (int n mod 32) = (of_nat (n mod 32) :: u32)"
proof -
  have "int n mod 32 = int (n mod 32)" by (simp add: zmod_int)
  then show ?thesis by (simp only: of_int_of_nat_eq)
qed

lemma of_int_mod_31: "of_int (int n mod 31) = (of_nat (n mod 31) :: u32)"
proof -
  have "int n mod 31 = int (n mod 31)" by (simp add: zmod_int)
  then show ?thesis by (simp only: of_int_of_nat_eq)
qed

text \<open>The second half of a round with an adder.\<close>

definition put :: "nat \<Rightarrow> nat \<Rightarrow> nat \<Rightarrow> nat \<Rightarrow> nat \<Rightarrow> u32 \<Rightarrow> cells \<Rightarrow> cells" where
  "put q t sh p i v m = TEE_BigIntSub t t sh (TEE_BigIntAdd q q p (m(p + 65 - i := v)))"

text \<open>The rest of a round once the divisor is aligned, with the adder \<open>p\<close>.\<close>

definition aligned_round :: "nat \<Rightarrow> nat \<Rightarrow> nat \<Rightarrow> nat \<Rightarrow> nat \<Rightarrow> nat list \<Rightarrow> nat \<Rightarrow> big_store \<Rightarrow> cells \<Rightarrow> big_store option" where
  "aligned_round q t sh b p ps n s m =
    (if 0 \<le> TEE_BigIntCmp t sh m
     then Some (s\<lparr>buffers := ps, cells := put q t sh p (n div 32) (XPowerY 2 (of_nat (n mod 32))) m\<rparr>)
     else if n \<noteq> 1
     then map_option (\<lambda>m. s\<lparr>buffers := ps, cells := put q t sh p (n div 31) (XPowerY 2 (of_nat (n mod 31) - 1)) m\<rparr>)
            (TEE_BigIntLeftShift sh sh (n - 1) m)
     else Some (s\<lparr>buffers := ps, cells := incrementBigInt q (TEE_BigIntSub t t b m)\<rparr>))"

text \<open>A round with a shift, up to the comparison: the divisor is aligned and an empty adder is at hand.\<close>

lemma step_front:
  assumes ok: "arrays_ok q t sh b (buffers s)" and p: "buffers s = p # ps"
    and n: "0 < n" "n < 2112" "MaxBitPos t (cells s) = MaxBitPos b (cells s) + n" "big_val (cells s) b 66 * 2 ^ n < 2 ^ (32 * 66)"
  shows "\<exists>m. divide_step q t sh b s = aligned_round q t sh b p ps n s m \<and>
    big_val m sh 66 = big_val (cells s) b 66 * 2 ^ n \<and> (\<forall>i<66. m (p + i) = 0) \<and>
    (\<forall>x\<in>{q, t, b}. big_val m x 66 = big_val (cells s) x 66)"
proof -
  let ?m1 = "TEE_MemMove sh b 66 (cells s)"
  note ap = arrays_okD [OF ok]
  have app: "apart q p" "apart t p" "apart b p" "apart sh p" using ap(13) [of p] p by simp_all
  have sh: "big_val ?m1 sh 66 = big_val (cells s) b 66" by (rule move_val)
  have "big_val ?m1 sh 66 * 2 ^ n < 2 ^ (32 * 66)" unfolding sh by (rule n(4))
  then obtain m2 where m2: "TEE_BigIntLeftShift sh sh n ?m1 = Some m2" "big_val m2 sh 66 = big_val (cells s) b 66 * 2 ^ n" "frame sh ?m1 m2"
    using shift_in_place [OF n(2), of ?m1 sh] unfolding sh by blast
  let ?m3 = "TEE_MemFill p 0 66 m2"
  have d: "int (MaxBitPos t (cells s)) - int (MaxBitPos b (cells s)) = int n" using n(3) by simp
  have "0 < int n" "nat (int n) = n" "int n \<noteq> 0" "\<not> int n < 0" using n(1) by simp_all
  then have "divide_step q t sh b s = aligned_round q t sh b p ps n s ?m3"
    using m2(1) p by (simp add: divide_step_def aligned_round_def Let_def d on_cells_def TEE_Malloc_def of_int_mod_32 of_int_mod_31 put_def)
  moreover have "big_val ?m3 x 66 = big_val (cells s) x 66" if "x \<in> {q, t, b}" for x
  proof -
    have x: "apart x p" "apart x sh" using that ap(2,4,12) app apart_sym by blast+
    show ?thesis using frame_val [OF frames(5) x(1)] frame_val [OF m2(3) x(2)] frame_val [OF frames(4) x(2)] by metis
  qed
  moreover have "big_val ?m3 sh 66 = big_val (cells s) b 66 * 2 ^ n" using frame_val [OF frames(5) app(4)] m2(2) by metis
  moreover have "\<forall>i<66. ?m3 (p + i) = 0" by (simp add: TEE_MemFill_def)
  ultimately show ?thesis by blast
qed

text \<open>What \<open>put\<close> computes: the difference, and the sum when the adder holds \<open>2 ^ n\<close>.\<close>

lemma put_rest:
  assumes ap: "apart q t" "apart q sh" "apart t sh" "apart q p" "apart t p" "apart sh p" "apart x q" "apart x t" "apart x p"
    and i: "i < 66" and sh: "\<forall>i<66. m (sh + i) \<noteq> - 1"
  shows "(big_val (put q t sh p i v m) t 66 + big_val m sh 66) mod 2 ^ (32 * 66) = big_val m t 66"
    and "big_val (put q t sh p i v m) x 66 = big_val m x 66"
proof -
  let ?m4 = "m(p + 65 - i := v)" let ?m5 = "TEE_BigIntAdd q q p ?m4"
  have f4: "frame p m ?m4" using i by (auto simp: frame_def)
  have v5: "big_val ?m5 y 66 = big_val m y 66" if "apart y q" "apart y p" for y
    using frame_val [OF frames(1) that(1)] frame_val [OF f4 that(2)] by metis
  have "\<forall>i<66. ?m5 (sh + i) \<noteq> - 1"
    using sh frame_word [OF frames(1) apart_sym [OF ap(2)]] frame_word [OF f4 ap(6)] by metis
  then have "(big_val (put q t sh p i v m) t 66 + big_val ?m5 sh 66 + unat (0 :: u32)) mod 2 ^ (32 * 66) = big_val ?m5 t 66"
    unfolding put_def TEE_BigIntSub_def BIG_LEN by (intro sub_loop_exact) (use ap(3) operand_self in simp_all)
  then show "(big_val (put q t sh p i v m) t 66 + big_val m sh 66) mod 2 ^ (32 * 66) = big_val m t 66"
    unfolding v5 [OF apart_sym [OF ap(2)] ap(6)] v5 [OF apart_sym [OF ap(1)] ap(5)] by (simp only: unsigned_0 add_0_right)
  show "big_val (put q t sh p i v m) x 66 = big_val m x 66"
    unfolding put_def using frame_val [OF frames(2) ap(8)] v5 [OF ap(7,9)] by metis
qed

lemma put_sum:
  assumes ap: "apart q t" "apart q p" and p: "big_val (m(p + 65 - i := v)) p 66 = 2 ^ n" "i < 66"
  shows "big_val (put q t sh p i v m) q 66 = (big_val m q 66 + 2 ^ n) mod 2 ^ (32 * 66)"
proof -
  let ?m4 = "m(p + 65 - i := v)"
  have f4: "frame p m ?m4" using p(2) by (auto simp: frame_def)
  have "big_val (TEE_BigIntAdd q q p ?m4) q 66 = (big_val m q 66 + 2 ^ n) mod 2 ^ (32 * 66)"
    using add_val [OF ap(2), of ?m4] power_not_full [OF p(1)] p(1) frame_val [OF f4 ap(2)] by metis
  then show ?thesis unfolding put_def using frame_val [OF frames(2) ap(1)] by metis
qed

lemma divide_step_power:
  assumes ok: "arrays_ok q t sh b (buffers s)" and b: "big_val (cells s) b 66 = 2 ^ j"
    and t: "2 ^ k \<le> big_val (cells s) t 66" "big_val (cells s) t 66 < 2 ^ (k + 1)" and k: "j \<le> k" "k < 2079" and buf: "k = j \<or> buffers s \<noteq> []"
  shows "\<exists>s'. divide_step q t sh b s = Some s' \<and> big_val (cells s') t 66 = big_val (cells s) t 66 - 2 ^ k \<and>
    big_val (cells s') q 66 = (big_val (cells s) q 66 + 2 ^ (k - j)) mod 2 ^ (32 * 66) \<and>
    big_val (cells s') b 66 = 2 ^ j \<and> buffers s' = (if k = j then buffers s else tl (buffers s))"
proof -
  let ?m = "cells s" let ?m1 = "TEE_MemMove sh b 66 ?m"
  note ap = arrays_okD [OF ok]
  have mb: "MaxBitPos t ?m = k" "MaxBitPos b ?m = j"
    by (rule MaxBitPos_unique, use t b in simp_all)+
  have v1: "big_val ?m1 p 66 = big_val ?m p 66" if "apart p sh" for p by (rule frame_val [OF frames(4) that])
  have v1sh: "big_val ?m1 sh 66 = 2 ^ j" using b by (simp only: move_val)
  show ?thesis
  proof (cases "k = j")
    case True
    let ?m2 = "TEE_BigIntSub t t b ?m1" let ?m3 = "incrementBigInt q ?m2"
    have step: "divide_step q t sh b s = Some (s\<lparr>cells := ?m3\<rparr>)"
      using True by (simp add: divide_step_def Let_def mb on_cells_def)
    have f: "\<forall>i<66. ?m1 (b + i) \<noteq> - 1"
      using power_not_full [of ?m1 b j] v1 [of b] ap(12) apart_sym b by (metis ap(6))
    have "big_val ?m2 t 66 = big_val ?m1 t 66 - big_val ?m1 b 66"
      using v1 ap t(1) True b by (intro sub_val [OF ap(5) f]) simp
    then have "big_val ?m3 t 66 = big_val ?m t 66 - 2 ^ k"
      using frame_val [OF frames(3) ap(7)] v1 ap b True apart_sym by metis
    moreover have "big_val ?m3 q 66 = (big_val ?m q 66 + 1) mod 2 ^ (32 * 66)"
      unfolding increment_val using frame_val [OF frames(2) ap(1)] v1 [OF ap(2)] by metis
    moreover have "big_val ?m3 b 66 = 2 ^ j"
      using frame_val [OF frames(3) ap(9)] frame_val [OF frames(2) ap(11)] v1 [OF ap(12)] b by metis
    ultimately show ?thesis using step True by simp
  next
    case False
    define n where "n = k - j"
    have n: "0 < n" "n < 2112" "int k - int j = int n" "k = j + n" using False k by (auto simp: n_def)
    obtain p ps where p: "buffers s = p # ps" using buf False by (cases "buffers s") auto
    have app: "apart q p" "apart t p" "apart sh p" "apart b p" "apart p q" "apart p t" "apart p sh" "apart p b"
      using ap(13) [of p] p by simp_all
    have sk: "big_val ?m b 66 * 2 ^ n = 2 ^ k" unfolding b n(4) by (simp add: power_add)
    have "(2 :: nat) ^ k < 2 ^ (32 * 66)" using k(2) by (intro power_strict_increasing) simp_all
    then have "big_val ?m b 66 * 2 ^ n < 2 ^ (32 * 66)" unfolding sk .
    moreover have "MaxBitPos t ?m = MaxBitPos b ?m + n" using mb n(4) by simp
    ultimately obtain m where h: "divide_step q t sh b s = aligned_round q t sh b p ps n s m"
        "big_val m sh 66 = big_val ?m b 66 * 2 ^ n" "\<forall>i<66. m (p + i) = 0" "\<forall>x\<in>{q, t, b}. big_val m x 66 = big_val ?m x 66"
      using step_front [OF ok p n(1,2)] by blast
    note mp = h(3)
    have msh: "big_val m sh 66 = 2 ^ k" unfolding h(2) sk ..
    have m: "big_val m q 66 = big_val ?m q 66" "big_val m t 66 = big_val ?m t 66" "big_val m b 66 = 2 ^ j"
      using h(4) b by simp_all
    have lim: "big_val m t 66 < 2 ^ 2080" "big_val m sh 66 < 2 ^ 2080"
    proof -
      have e: "(2 :: nat) ^ (k + 1) \<le> 2 ^ 2080" "(2 :: nat) ^ k < 2 ^ 2080"
        using k(2) by (intro power_increasing power_strict_increasing; simp)+
      show "big_val m t 66 < 2 ^ 2080" using e(1) t(2) m(2) by linarith
      show "big_val m sh 66 < 2 ^ 2080" using e(2) msh by linarith
    qed
    have c: "0 \<le> TEE_BigIntCmp t sh m" using cmp_small [OF lim] t(1) m(2) msh by simp
    let ?m6 = "put q t sh p (n div 32) (XPowerY 2 (of_nat (n mod 32))) m"
    have n32: "n div 32 < 66" using n(2) by (simp add: less_mult_imp_div_less)
    have full: "\<forall>i<66. m (sh + i) \<noteq> - 1" using power_not_full [OF msh] by blast
    note pv = put_sum [OF ap(1) app(1) adder_val [OF mp n(2)] n32] put_rest [OF ap(1,2,4) app(1,2,3) ap(9,11) app(4) n32 full]
    have "big_val ?m6 t 66 = big_val ?m t 66 - 2 ^ k"
      using sub_mod [OF pv(2) big_val_less big_val_less] t(1) unfolding m(2) msh by blast
    moreover have "big_val ?m6 q 66 = (big_val ?m q 66 + 2 ^ n) mod 2 ^ (32 * 66)" using pv(1) m(1) by metis
    moreover have "big_val ?m6 b 66 = 2 ^ j" using pv(3) m(3) by metis
    moreover have "divide_step q t sh b s = Some (s\<lparr>buffers := ps, cells := ?m6\<rparr>)" using h(1) c by (simp add: aligned_round_def)
    ultimately show ?thesis using False p n_def by simp
  qed
qed

section \<open>Division by a power of two\<close>

lemma highest_power: "(x :: nat) \<noteq> 0 \<Longrightarrow> \<exists>k. 2 ^ k \<le> x \<and> x < 2 ^ (k + 1)"
  using ex_power_ivl1 [of 2 x] by simp

lemma div_mod_part:
  fixes x :: nat
  assumes "2 ^ k \<le> x" "j \<le> k"
  shows "(x - 2 ^ k) mod 2 ^ j = x mod 2 ^ j" "(x - 2 ^ k) div 2 ^ j + 2 ^ (k - j) = x div 2 ^ j"
proof -
  have "x = (x - 2 ^ k) + 2 ^ (k - j) * 2 ^ j" using assms by (simp flip: power_add)
  then have "x mod 2 ^ j = ((x - 2 ^ k) + 2 ^ (k - j) * 2 ^ j) mod 2 ^ j" "x div 2 ^ j = ((x - 2 ^ k) + 2 ^ (k - j) * 2 ^ j) div 2 ^ j"
    by (rule arg_cong)+
  then show "(x - 2 ^ k) mod 2 ^ j = x mod 2 ^ j" "(x - 2 ^ k) div 2 ^ j + 2 ^ (k - j) = x div 2 ^ j" by simp_all
qed

lemma divide_loop_power:
  assumes "arrays_ok q t sh b (buffers s)" "big_val (cells s) b 66 = 2 ^ j" "big_val (cells s) t 66 < 2 ^ 2079" "j < 2079"
    and "big_val (cells s) t 66 < 2 ^ (j + length (buffers s) + 1)"
  shows "\<exists>s'. divide_loop q t sh b s = Some s' \<and> big_val (cells s') t 66 = big_val (cells s) t 66 mod 2 ^ j \<and>
    big_val (cells s') q 66 = (big_val (cells s) q 66 + big_val (cells s) t 66 div 2 ^ j) mod 2 ^ (32 * 66)"
  using assms
proof (induction "big_val (cells s) t 66" arbitrary: s rule: less_induct)
  case less
  let ?A = "big_val (cells s) t 66" let ?Q = "big_val (cells s) q 66" let ?M = "2 ^ (32 * 66) :: nat"
  have lim: "?A < 2 ^ 2080" "big_val (cells s) b 66 < 2 ^ 2080"
  proof -
    have "(2 :: nat) ^ 2079 < 2 ^ 2080" by (intro power_strict_increasing) simp_all
    then show "?A < 2 ^ 2080" using less.prems(3) by (rule less_trans [rotated])
    show "big_val (cells s) b 66 < 2 ^ 2080" unfolding less.prems(2) using less.prems(4) by (intro power_strict_increasing) simp_all
  qed
  note c = cmp_small [OF lim]
  show ?case
  proof (cases "?A < 2 ^ j")
    case True
    then have "divide_loop q t sh b s = Some s" using c less.prems(2) by (simp add: divide_loop.simps)
    moreover have "?A = ?A mod 2 ^ j" by (rule mod_less [symmetric, OF True])
    moreover have "?Q = (?Q + ?A div 2 ^ j) mod ?M"
      unfolding div_less [OF True] add_0_right by (rule mod_less [symmetric, OF big_val_less])
    ultimately show ?thesis by (intro exI [of _ s] conjI)
  next
    case False
    then have "?A \<noteq> 0" by (metis not_less_zero zero_less_numeral zero_less_power)
    then obtain k where k: "2 ^ k \<le> ?A" "?A < 2 ^ (k + 1)" using highest_power by blast
    have lt: "x < y" if "(2 :: nat) ^ x < 2 ^ y" for x y using that by (simp only: power_strict_increasing_iff)
    have "(2 :: nat) ^ j < 2 ^ (k + 1)" using False k(2) by linarith
    then have "j < k + 1" by (rule lt)
    then have jk: "j \<le> k" by simp
    have "(2 :: nat) ^ k < 2 ^ 2079" using less.prems(3) k(1) by linarith
    then have k2: "k < 2079" by (rule lt)
    have "(2 :: nat) ^ k < 2 ^ (j + length (buffers s) + 1)" using less.prems(5) k(1) by linarith
    then have kb: "k < j + length (buffers s) + 1" by (rule lt)
    then have buf: "k = j \<or> buffers s \<noteq> []" using jk by auto
    obtain s1 where s1: "divide_step q t sh b s = Some s1" "big_val (cells s1) t 66 = ?A - 2 ^ k"
        "big_val (cells s1) q 66 = (?Q + 2 ^ (k - j)) mod ?M" "big_val (cells s1) b 66 = 2 ^ j"
        "buffers s1 = (if k = j then buffers s else tl (buffers s))"
      using divide_step_power [OF less.prems(1,2) k jk k2 buf] by blast
    have ok: "arrays_ok q t sh b (buffers s1)"
      using less.prems(1) unfolding s1(5) by (cases "buffers s") (auto simp: arrays_ok_def)
    have small: "big_val (cells s1) t 66 < 2 ^ k" unfolding s1(2) using k by simp
    have "big_val (cells s1) t 66 < ?A" unfolding s1(2) using k(1) \<open>?A \<noteq> 0\<close> by simp
    moreover have "big_val (cells s1) t 66 < 2 ^ 2079" using calculation less.prems(3) by (rule less_trans)
    moreover have "big_val (cells s1) t 66 < 2 ^ (j + length (buffers s1) + 1)"
    proof -
      have "k \<le> j + length (buffers s1) + 1" using kb unfolding s1(5) by auto
      then have "(2 :: nat) ^ k \<le> 2 ^ (j + length (buffers s1) + 1)" by (intro power_increasing) simp_all
      then show ?thesis using small by (rule less_le_trans [rotated])
    qed
    ultimately obtain s' where s': "divide_loop q t sh b s1 = Some s'" "big_val (cells s') t 66 = big_val (cells s1) t 66 mod 2 ^ j"
        "big_val (cells s') q 66 = (big_val (cells s1) q 66 + big_val (cells s1) t 66 div 2 ^ j) mod ?M"
      using less.hyps [of s1] ok s1(4) less.prems(4) by blast
    have "divide_loop q t sh b s = Some s'"
      using s1(1) s'(1) c less.prems(2) False by (subst divide_loop.simps) simp
    moreover have "big_val (cells s') t 66 = ?A mod 2 ^ j" unfolding s'(2) s1(2) by (rule div_mod_part(1) [OF k(1) jk])
    moreover have "big_val (cells s') q 66 = (?Q + ?A div 2 ^ j) mod ?M"
    proof -
      have "?Q + 2 ^ (k - j) + (?A - 2 ^ k) div 2 ^ j = ?Q + ?A div 2 ^ j" using div_mod_part(2) [OF k(1) jk] by linarith
      then show ?thesis unfolding s'(3) s1(2,3) mod_add_left_eq by (rule arg_cong)
    qed
    ultimately show ?thesis by blast
  qed
qed

text \<open>What the division does before its loop.\<close>

lemma divide_front:
  assumes "buffers s = t # sh # ps" "arrays_ok q t sh b ps" "apart a t" "apart a sh"
  shows "\<exists>s1. TEE_BigIntDivide q r a b s = map_option (on_cells (TEE_MemMove r t 66)) (divide_loop q t sh b s1) \<and> buffers s1 = ps \<and>
    big_val (cells s1) t 66 = big_val (cells s) a 66 \<and> (\<forall>x\<in>{q, b}. big_val (cells s1) x 66 = big_val (cells s) x 66)"
proof -
  note ap = arrays_okD [OF assms(2)]
  let ?m = "TEE_MemFill sh 0 66 (TEE_MemFill t 0 66 (cells s))" let ?m1 = "TEE_MemMove t a 66 ?m"
  have v: "big_val ?m x 66 = big_val (cells s) x 66" if "apart x t" "apart x sh" for x
    using frame_val [OF frames(5) that(2)] frame_val [OF frames(5) that(1)] by metis
  have v1: "big_val ?m1 x 66 = big_val (cells s) x 66" if "apart x t" "apart x sh" for x
    using frame_val [OF frames(4) that(1)] v [OF that] by metis
  have "big_val ?m1 t 66 = big_val (cells s) a 66" using move_val v [OF assms(3,4)] by metis
  moreover have "\<forall>x\<in>{q, b}. big_val ?m1 x 66 = big_val (cells s) x 66" using v1 ap by blast
  moreover have "TEE_BigIntDivide q r a b s =
      map_option (on_cells (TEE_MemMove r t 66)) (divide_loop q t sh b (s\<lparr>buffers := ps, cells := ?m1\<rparr>))"
    using assms(1) by (simp add: TEE_BigIntDivide_def TEE_Malloc_def on_cells_def)
  ultimately show ?thesis by (intro exI [of _ "s\<lparr>buffers := ps, cells := ?m1\<rparr>"]) simp
qed

text \<open>
  C24. Division by a power of two returns and is right, given enough buffers: one for each bit by which the
  dividend is longer than the divisor, none of which is given back. The quotient is added to what its array holds.
\<close>

theorem TEE_BigIntDivide_power_of_two:
  assumes "buffers s = t # sh # ps" "arrays_ok q t sh b ps" "apart a t" "apart a sh" "apart q r"
    and "big_val (cells s) b BIG_LEN = 2 ^ j" "j < 2048" "big_val (cells s) a BIG_LEN < 2 ^ 2048"
    and "big_val (cells s) a BIG_LEN < 2 ^ (j + length ps + 1)"
  shows "\<exists>s'. TEE_BigIntDivide q r a b s = Some s' \<and> big_val (cells s') r BIG_LEN = big_val (cells s) a BIG_LEN mod 2 ^ j \<and>
    big_val (cells s') q BIG_LEN = (big_val (cells s) q BIG_LEN + big_val (cells s) a BIG_LEN div 2 ^ j) mod 2 ^ (32 * BIG_LEN)"
proof -
  obtain s1 where s1: "TEE_BigIntDivide q r a b s = map_option (on_cells (TEE_MemMove r t 66)) (divide_loop q t sh b s1)" "buffers s1 = ps"
      "big_val (cells s1) t 66 = big_val (cells s) a 66" "big_val (cells s1) q 66 = big_val (cells s) q 66" "big_val (cells s1) b 66 = 2 ^ j"
    using divide_front [OF assms(1-4), of r] assms(6) by auto
  have "big_val (cells s1) t 66 < 2 ^ 2079"
  proof -
    have "(2 :: nat) ^ 2048 < 2 ^ 2079" by (intro power_strict_increasing) simp_all
    with assms(8) show ?thesis unfolding s1(3) BIG_LEN by (rule less_trans)
  qed
  moreover have "arrays_ok q t sh b (buffers s1)" "big_val (cells s1) t 66 < 2 ^ (j + length (buffers s1) + 1)" "j < 2079"
    using assms(2,7,9) unfolding s1(2,3) by simp_all
  ultimately obtain s' where s': "divide_loop q t sh b s1 = Some s'" "big_val (cells s') t 66 = big_val (cells s) a 66 mod 2 ^ j"
      "big_val (cells s') q 66 = (big_val (cells s) q 66 + big_val (cells s) a 66 div 2 ^ j) mod 2 ^ (32 * 66)"
    using divide_loop_power [of q t sh b s1 j] s1(5) unfolding s1(3,4) by blast
  have "TEE_BigIntDivide q r a b s = Some (on_cells (TEE_MemMove r t 66) s')"
    using s1(1) s'(1) by simp
  moreover have "big_val (TEE_MemMove r t 66 (cells s')) r 66 = big_val (cells s) a 66 mod 2 ^ j"
    using move_val s'(2) by metis
  moreover have "big_val (TEE_MemMove r t 66 (cells s')) q 66 = big_val (cells s') q 66"
    by (rule frame_val [OF frames(4) assms(5)])
  moreover have "cells (on_cells f s') = f (cells s')" for f by (simp add: on_cells_def)
  ultimately show ?thesis using s'(3) unfolding BIG_LEN by (intro exI [of _ "on_cells (TEE_MemMove r t 66) s'"] conjI) (simp_all only:)
qed

section \<open>Where it goes wrong\<close>

lemma small_not_full:
  assumes "big_val m p 66 < 2 ^ 32 - 1"
  shows "\<forall>i<66. m (p + i) \<noteq> - 1"
proof (intro allI impI notI)
  fix i assume "i < (66 :: nat)" "m (p + i) = - 1"
  then have "2 ^ 32 - 1 = big_val m p 66 div 2 ^ (32 * (65 - i)) mod 2 ^ 32" using word_of_val [of i m p] unat_all_ones by simp
  also have "\<dots> \<le> big_val m p 66" by (rule order_trans [OF mod_less_eq_dividend div_le_dividend])
  finally show False using assms by simp
qed

text \<open>The round that subtracts too much.\<close>

lemma divide_step_overshoots:
  assumes ok: "arrays_ok q t sh b (p # ps)" "buffers s = p # ps"
    and t: "2 ^ (j + n) \<le> big_val (cells s) t 66" "big_val (cells s) t 66 < 2 ^ (j + n + 1)"
    and b: "2 ^ j \<le> big_val (cells s) b 66" "big_val (cells s) b 66 < 2 ^ (j + 1)"
    and n: "2 \<le> n" "big_val (cells s) t 66 < big_val (cells s) b 66 * 2 ^ n"
    and fit: "big_val (cells s) b 66 * 2 ^ (n + (n - 1)) < 2 ^ 32 - 1"
  shows "\<exists>s'. divide_step q t sh b s = Some s' \<and> big_val (cells s') b 66 = big_val (cells s) b 66 \<and>
    (big_val (cells s') t 66 + big_val (cells s) b 66 * 2 ^ (n + (n - 1))) mod 2 ^ (32 * 66) = big_val (cells s) t 66"
proof -
  let ?x = "big_val (cells s) t 66" let ?y = "big_val (cells s) b 66"
  have ok': "arrays_ok q t sh b (buffers s)" using ok by simp
  note ap = arrays_okD [OF ok']
  have app: "apart q p" "apart t p" "apart sh p" "apart b p" using ap(13) [of p] ok(2) by simp_all
  have pos: "0 < ?y" using b(1) by (metis less_le_trans zero_less_numeral zero_less_power)
  have le: "?y * 2 ^ i \<le> ?y * 2 ^ (n + (n - 1))" if "i \<le> n + (n - 1)" for i using that by (intro mult_left_mono power_increasing) simp_all
  have "2 ^ n \<le> ?y * 2 ^ n" using pos by simp
  also have "\<dots> \<le> ?y * 2 ^ (n + (n - 1))" by (rule le) simp
  also have "\<dots> < 2 ^ 32" using fit by linarith
  finally have n32: "n < 32" by (simp only: power_strict_increasing_iff)
  have big: "(2 :: nat) ^ 32 < 2 ^ 2080" "(2 :: nat) ^ 2080 < 2 ^ (32 * 66)" by (intro power_strict_increasing; simp)+
  have yn: "?y * 2 ^ n < 2 ^ 2080" using le [of n] fit big(1) n(1) by linarith
  have "MaxBitPos t (cells s) = j + n" "MaxBitPos b (cells s) = j"
    by (rule MaxBitPos_unique [OF t], rule MaxBitPos_unique [OF b])
  then obtain m where m: "divide_step q t sh b s = aligned_round q t sh b p ps n s m" "big_val m sh 66 = ?y * 2 ^ n"
      "\<forall>x\<in>{q, t, b}. big_val m x 66 = big_val (cells s) x 66"
    using step_front [OF ok' ok(2), of n] n(1) n32 less_trans [OF yn big(2)] by auto
  have "\<not> 0 \<le> TEE_BigIntCmp t sh m"
    using cmp_small [of m t sh] n(2) m(2,3) yn by simp
  have s2: "big_val m sh 66 * 2 ^ (n - 1) = ?y * 2 ^ (n + (n - 1))" unfolding m(2) by (simp add: power_add)
  then have "big_val m sh 66 * 2 ^ (n - 1) < 2 ^ (32 * 66)" using fit big by linarith
  then obtain m' where m': "TEE_BigIntLeftShift sh sh (n - 1) m = Some m'" "big_val m' sh 66 = ?y * 2 ^ (n + (n - 1))" "frame sh m m'"
  proof -
    have "n - 1 < 2112" using n32 by simp
    from shift_in_place [OF this, of m sh] that \<open>big_val m sh 66 * 2 ^ (n - 1) < 2 ^ (32 * 66)\<close> show ?thesis unfolding s2 by blast
  qed
  let ?m = "put q t sh p (n div 31) (XPowerY 2 (of_nat (n mod 31) - 1)) m'"
  have st: "divide_step q t sh b s = Some (s\<lparr>buffers := ps, cells := ?m\<rparr>)"
    using m(1) m'(1) n(1) \<open>\<not> 0 \<le> TEE_BigIntCmp t sh m\<close> by (simp add: aligned_round_def)
  have "n div 31 < 66" using n32 by simp
  moreover have "\<forall>i<66. m' (sh + i) \<noteq> - 1" by (rule small_not_full) (use m'(2) fit in simp)
  ultimately have "(big_val ?m t 66 + big_val m' sh 66) mod 2 ^ (32 * 66) = big_val m' t 66" "big_val ?m b 66 = big_val m' b 66"
    using put_rest [OF ap(1,2,4) app(1,2,3) ap(9,11) app(4)] by blast+
  moreover have "big_val m' t 66 = ?x" "big_val m' b 66 = ?y"
    using frame_val [OF m'(3) ap(4)] frame_val [OF m'(3) ap(12)] m(3) by simp_all
  ultimately show ?thesis using st m'(2) by simp
qed

lemma top_all_ones:
  fixes v P :: nat
  assumes "v < P * 2 ^ 32" "P * 2 ^ 32 < v + 2 ^ 32" "2 ^ 32 \<le> P"
  shows "v div P mod 2 ^ 32 = 2 ^ 32 - 1"
proof -
  have "v div P = 2 ^ 32 - 1"
    by (rule div_nat_eqI) (use assms in simp_all)
  then show ?thesis by simp
qed

lemma sub_below: "(r + y) mod M = x \<Longrightarrow> r < M \<Longrightarrow> y < M \<Longrightarrow> x < y \<Longrightarrow> r = M + x - (y :: nat)"
proof (cases "r + y < M")
  case False
  assume h: "(r + y) mod M = x" "r < M" "y < M" "x < y"
  have "(r + y) mod M = (r + y - M) mod M" using False by (simp add: mod_if)
  also have "\<dots> = r + y - M" by (rule mod_less) (use h False in linarith)
  finally show ?thesis using h False by linarith
qed simp

text \<open>
  When the divisor is at least two bits shorter than the dividend and, aligned to it, is larger, the first round shifts
  it once more and subtracts too much: the division of such numbers of one word returns a
  negative remainder.
\<close>

theorem TEE_BigIntDivide_overshoots:
  assumes "buffers s = t # sh # p # ps" "arrays_ok q t sh b (p # ps)" "apart a t" "apart a sh"
    and "big_val (cells s) a BIG_LEN = x" "2 ^ (j + n) \<le> x" "x < 2 ^ (j + n + 1)"
    and "big_val (cells s) b BIG_LEN = y" "2 ^ j \<le> y" "y < 2 ^ (j + 1)"
    and "2 \<le> n" "x < y * 2 ^ n" "y * 2 ^ (n + (n - 1)) < 2 ^ 32 - 1"
  shows "\<exists>s'. TEE_BigIntDivide q r a b s = Some s' \<and>
    big_val (cells s') r BIG_LEN = 2 ^ (32 * BIG_LEN) + x - y * 2 ^ (n + (n - 1))"
proof -
  let ?Y = "y * 2 ^ (n + (n - 1))" let ?M = "2 ^ (32 * 66) :: nat"
  obtain s1 where s1: "TEE_BigIntDivide q r a b s = map_option (on_cells (TEE_MemMove r t 66)) (divide_loop q t sh b s1)" "buffers s1 = p # ps"
      "big_val (cells s1) t 66 = x" "big_val (cells s1) b 66 = y"
    using divide_front [OF assms(1-4), of r] assms(5,8) by auto
  obtain s2 where s2: "divide_step q t sh b s1 = Some s2" "big_val (cells s2) b 66 = y" "(big_val (cells s2) t 66 + ?Y) mod ?M = x"
    using divide_step_overshoots [OF assms(2) s1(2), of j n] assms(6,7,9-13) unfolding s1(3,4) by blast
  have big: "(2 :: nat) ^ 32 < 2 ^ 2080" "?M = 2 ^ 2080 * 2 ^ 32" "(2 :: nat) ^ 2080 < ?M"
    by (rule power_strict_increasing, simp, simp, simp only: power_add [symmetric] refl, simp, rule power_strict_increasing, simp, simp)
  have "y * 2 ^ n \<le> ?Y" using assms(11) by (intro mult_left_mono power_increasing) simp_all
  then have xy: "x < ?Y" "?Y < 2 ^ 32" "x < 2 ^ 32" using assms(12,13) by linarith+
  have "y * 1 \<le> ?Y" by (intro mult_left_mono) simp_all
  then have lim: "big_val (cells s1) t 66 < 2 ^ 2080" "big_val (cells s1) b 66 < 2 ^ 2080" "big_val (cells s2) b 66 < 2 ^ 2080"
    using xy big(1) unfolding s1(3,4) s2(2) by linarith+
  have "?Y < ?M" using xy(2) big by linarith
  then have r: "big_val (cells s2) t 66 = ?M + x - ?Y" using sub_below [OF s2(3) big_val_less _ xy(1)] by blast
  have "unat (cells s2 t) = big_val (cells s2) t 66 div 2 ^ 2080 mod 2 ^ 32"
    using word_of_val [of 0 "cells s2" t] by simp
  also have "\<dots> = 2 ^ 32 - 1"
    by (rule top_all_ones) (use r xy \<open>?Y < ?M\<close> big in linarith)+
  finally have "cells s2 t = - 1" using unat_all_ones by (metis word_unat_eq_iff)
  then have "TEE_BigIntCmp t b (cells s2) = - 1"
    using TEE_BigIntCmp_other_top [of "cells s2" t b] top_zero [OF lim(3)] by simp
  then have "divide_loop q t sh b s2 = Some s2" by (simp add: divide_loop.simps)
  moreover have "y \<le> x"
  proof -
    have "(2 :: nat) ^ (j + 1) \<le> 2 ^ (j + n)" using assms(11) by (intro power_increasing) simp_all
    then show ?thesis using assms(6,10) by linarith
  qed
  then have "0 \<le> TEE_BigIntCmp t b (cells s1)" using cmp_small [OF lim(1,2)] s1(3,4) by simp
  ultimately have "divide_loop q t sh b s1 = Some s2" using s2(1) by (subst divide_loop.simps) simp
  then have "TEE_BigIntDivide q r a b s = Some (on_cells (TEE_MemMove r t 66) s2)" using s1(1) by simp
  moreover have "cells (on_cells f s2) = f (cells s2)" for f by (simp add: on_cells_def)
  then have "big_val (cells (on_cells (TEE_MemMove r t 66) s2)) r 66 = ?M + x - ?Y"
    using r by (simp only: move_val)
  ultimately show ?thesis unfolding BIG_LEN by blast
qed

section \<open>Division by zero\<close>

lemma divide_step_zero:
  assumes ok: "arrays_ok q t sh b (buffers s)" and b: "big_val (cells s) b 66 = 0" and t: "big_val (cells s) t 66 < 2 ^ 2080"
    and st: "divide_step q t sh b s = Some s'"
  shows "arrays_ok q t sh b (buffers s') \<and> big_val (cells s') b 66 = 0 \<and> big_val (cells s') t 66 = big_val (cells s) t 66"
proof -
  note ap = arrays_okD [OF ok]
  let ?n = "MaxBitPos t (cells s)"
  have mb: "MaxBitPos b (cells s) = 0" by (rule MaxBitPos_zero [OF b])
  show ?thesis
  proof (cases "?n = 0")
    case True
    let ?m1 = "TEE_MemMove sh b 66 (cells s)" let ?m2 = "TEE_BigIntSub t t b ?m1" let ?m3 = "incrementBigInt q ?m2"
    have s': "s' = s\<lparr>cells := ?m3\<rparr>"
      using True st by (simp add: divide_step_def Let_def mb on_cells_def)
    have v1: "big_val ?m1 x 66 = big_val (cells s) x 66" if "apart x sh" for x by (rule frame_val [OF frames(4) that])
    have "\<forall>i<66. ?m1 (b + i) \<noteq> - 1" by (rule small_not_full) (use v1 [OF ap(12)] b in simp)
    then have "big_val ?m2 t 66 = big_val (cells s) t 66"
      using sub_val [OF ap(5), of ?m1] v1 [OF ap(4)] v1 [OF ap(12)] b by simp
    then have "big_val ?m3 t 66 = big_val (cells s) t 66" using frame_val [OF frames(3) ap(7)] by metis
    moreover have "big_val ?m3 b 66 = 0"
      using frame_val [OF frames(3) ap(9)] frame_val [OF frames(2) ap(11)] v1 [OF ap(12)] b by metis
    ultimately show ?thesis using ok by (simp add: s')
  next
    case False
    then have nz: "big_val (cells s) t 66 \<noteq> 0" by (metis MaxBitPos_zero)
    have "(2 :: nat) ^ ?n < 2 ^ 2080" using MaxBitPos_bounds(1) [OF nz] t by linarith
    then have "?n < 2080" by (simp only: power_strict_increasing_iff)
    then have n: "0 < ?n" "?n < 2112" "?n = MaxBitPos b (cells s) + ?n" "big_val (cells s) b 66 * 2 ^ ?n < 2 ^ (32 * 66)"
      using False mb b by simp_all
    obtain p ps where p: "buffers s = p # ps"
    proof (cases "buffers s")
      case Nil
      have "divide_step q t sh b s = None"
        using Nil n(1) False by (auto simp: divide_step_def Let_def mb on_cells_def TEE_Malloc_def split: option.splits)
      then show ?thesis using st by simp
    qed
    have app: "apart q p" "apart t p" "apart sh p" "apart b p" using ap(13) [of p] p by simp_all
    obtain m where m: "divide_step q t sh b s = aligned_round q t sh b p ps ?n s m" "big_val m sh 66 = 0"
        "\<forall>x\<in>{q, t, b}. big_val m x 66 = big_val (cells s) x 66"
      using step_front [OF ok p n] b by auto
    have "0 \<le> TEE_BigIntCmp t sh m" using cmp_small [of m t sh] m(2,3) t by simp
    then have s': "s' = s\<lparr>buffers := ps, cells := put q t sh p (?n div 32) (XPowerY 2 (of_nat (?n mod 32))) m\<rparr>"
      using st m(1) by (simp add: aligned_round_def)
    have i: "?n div 32 < 66" using n(2) by (simp add: less_mult_imp_div_less)
    have f: "\<forall>i<66. m (sh + i) \<noteq> - 1" by (rule small_not_full) (simp add: m(2))
    note pr = put_rest [OF ap(1,2,4) app(1,2,3) ap(9,11) app(4) i f, of "XPowerY 2 (of_nat (?n mod 32))"]
    have "big_val (cells s') t 66 = big_val (cells s) t 66"
      using sub_mod [OF pr(1) big_val_less big_val_less] m(2,3) by (simp add: s')
    moreover have "big_val (cells s') b 66 = 0" using pr(2) m(3) b by (simp add: s')
    moreover have "arrays_ok q t sh b (buffers s')" using ok p by (simp add: s' arrays_ok_def)
    ultimately show ?thesis by blast
  qed
qed

lemma divide_loop_zero:
  assumes "divide_loop q t sh b s = Some s'"
  shows "\<not> (arrays_ok q t sh b (buffers s) \<and> big_val (cells s) b 66 = 0 \<and> big_val (cells s) t 66 < 2 ^ 2080)"
proof (rule divide_loop.raw_induct [where P = "\<lambda>q t sh b s y. \<not> (arrays_ok q t sh b (buffers s) \<and> big_val (cells s) b 66 = 0 \<and>
    big_val (cells s) t 66 < 2 ^ 2080)", OF _ assms])
  fix loop q t sh b s s'
  assume IH: "\<And>q t sh b s y. loop q t sh b s = Some y \<Longrightarrow>
      \<not> (arrays_ok q t sh b (buffers s) \<and> big_val (cells s) b 66 = 0 \<and> big_val (cells s) t 66 < 2 ^ 2080)"
    and run: "(if 0 \<le> TEE_BigIntCmp t b (cells s)
      then case divide_step q t sh b s of None \<Rightarrow> None | Some s' \<Rightarrow> loop q t sh b s' else Some s) = Some s'"
  show "\<not> (arrays_ok q t sh b (buffers s) \<and> big_val (cells s) b 66 = 0 \<and> big_val (cells s) t 66 < 2 ^ 2080)"
  proof
    assume h: "arrays_ok q t sh b (buffers s) \<and> big_val (cells s) b 66 = 0 \<and> big_val (cells s) t 66 < 2 ^ 2080"
    then have "0 \<le> TEE_BigIntCmp t b (cells s)" using cmp_small [of "cells s" t b] by simp
    then obtain s1 where s1: "divide_step q t sh b s = Some s1" "loop q t sh b s1 = Some s'"
      using run by (auto split: option.splits)
    show False using IH [OF s1(2)] divide_step_zero [OF _ _ _ s1(1)] h by simp
  qed
qed

text \<open>
  Division by zero never returns: the loop runs for ever or, when it has used up the memory, writes through a null pointer.
\<close>

theorem TEE_BigIntDivide_zero_never_returns:
  assumes "buffers s = t # sh # ps" "arrays_ok q t sh b ps" "apart a t" "apart a sh"
    and "big_val (cells s) b BIG_LEN = 0" "big_val (cells s) a BIG_LEN < 2 ^ 2048"
  shows "TEE_BigIntDivide q r a b s = None"
proof -
  obtain s1 where s1: "TEE_BigIntDivide q r a b s = map_option (on_cells (TEE_MemMove r t 66)) (divide_loop q t sh b s1)" "buffers s1 = ps"
      "big_val (cells s1) t 66 = big_val (cells s) a 66" "big_val (cells s1) b 66 = 0"
    using divide_front [OF assms(1-4), of r] assms(5) by auto
  have "(2 :: nat) ^ 2048 < 2 ^ 2080" by (intro power_strict_increasing) simp_all
  then have "big_val (cells s1) t 66 < 2 ^ 2080" using assms(6) s1(3) by simp
  then have "divide_loop q t sh b s1 = None"
    using divide_loop_zero [of q t sh b s1] assms(2) s1(2,4) by (cases "divide_loop q t sh b s1") auto
  then show ?thesis using s1(1) by simp
qed

section \<open>The properties at concrete inputs\<close>

text \<open>Quotient, remainder, dividend and divisor at 0, 100, 200 and 300, and three buffers.\<close>

definition small_numbers :: "u32 \<Rightarrow> u32 \<Rightarrow> big_store" where
  "small_numbers x y = \<lparr>cells = (\<lambda>_. 0)(265 := x, 365 := y), buffers = [400, 500, 600]\<rparr>"

lemma small_numbers_val:
  "big_val (cells (small_numbers x y)) 200 66 = unat x" "big_val (cells (small_numbers x y)) 300 66 = unat y"
  "big_val (cells (small_numbers x y)) 0 66 = 0"
proof -
  let ?m = "cells (small_numbers x y)"
  have "big_val ?m 200 65 = 0" "big_val ?m 300 65 = 0" "big_val ?m 0 66 = 0"
    by (rule big_val_zero, simp add: small_numbers_def)+
  then show "big_val ?m 200 66 = unat x" "big_val ?m 300 66 = unat y" "big_val ?m 0 66 = 0"
    using big_val.simps(2) [of ?m 200 65] big_val.simps(2) [of ?m 300 65] by (simp_all add: small_numbers_def)
qed

lemma small_arrays:
  "buffers (small_numbers x y) = [400, 500, 600]" "arrays_ok 0 400 500 300 [600]" "apart 200 400" "apart 200 500" "apart 0 100"
  by (simp_all add: small_numbers_def arrays_ok_def apart_def)

theorem TEE_BigIntDivide_power_of_two_witness:
  "\<exists>s'. TEE_BigIntDivide 0 100 200 300 (small_numbers 13 4) = Some s' \<and> big_val (cells s') 100 BIG_LEN = 1 \<and> big_val (cells s') 0 BIG_LEN = 3"
proof -
  have v: "big_val (cells (small_numbers 13 4)) 300 BIG_LEN = 2 ^ 2" "(2 :: nat) < 2048" "big_val (cells (small_numbers 13 4)) 200 BIG_LEN < 2 ^ 2048"
      "big_val (cells (small_numbers 13 4)) 200 BIG_LEN < 2 ^ (2 + length [600 :: nat] + 1)"
    by (simp_all add: small_numbers_val)
  from TEE_BigIntDivide_power_of_two [OF small_arrays v] show ?thesis by (simp add: small_numbers_val)
qed

theorem TEE_BigIntDivide_overshoots_witness:
  "\<exists>s'. TEE_BigIntDivide 0 100 200 300 (small_numbers 8 3) = Some s' \<and> big_val (cells s') 100 BIG_LEN = 2 ^ 2112 - 16"
proof -
  have v: "big_val (cells (small_numbers 8 3)) 200 BIG_LEN = 8" "2 ^ (1 + 2) \<le> (8 :: nat)" "8 < (2 :: nat) ^ (1 + 2 + 1)"
      "big_val (cells (small_numbers 8 3)) 300 BIG_LEN = 3" "2 ^ 1 \<le> (3 :: nat)" "3 < (2 :: nat) ^ (1 + 1)"
      "(2 :: nat) \<le> 2" "8 < 3 * (2 :: nat) ^ 2" "3 * (2 :: nat) ^ (2 + (2 - 1)) < 2 ^ 32 - 1"
    by (simp_all add: small_numbers_val)
  from TEE_BigIntDivide_overshoots [OF small_arrays(1-4) v, of 100] show ?thesis by simp
qed

theorem TEE_BigIntDivide_zero_never_returns_witness:
  "TEE_BigIntDivide 0 100 200 300 (small_numbers 8 0) = None"
  by (rule TEE_BigIntDivide_zero_never_returns [OF small_arrays(1-4)]) (simp_all add: small_numbers_val)

end
