(* ===== verification/SwSem.thy ===== *)
theory SwSem
  imports OtzPrelude
begin

text \<open>
  Mutexes and semaphores (\<open>lib/sw_semaphores.c\<close>) and the assembly routines under them
  (\<open>arch/arm/armv7/sw_semaphores_asm.S\<close>).

  The routines are programs of a machine whose processors share one word and, for it, the
  exclusive tags that \<open>LDREX\<close> sets and that a store of anyone clears; a tag may be lost at any
  time. \<open>LDREX\<close> up to the next branch is one step, \<open>STREX\<close> up to the next branch another,
  which is exact because everything between touches registers only. \<open>WFE\<close> may end at any time and
  is no step. \<open>None\<close> stands for a null pointer.
\<close>

section \<open>The C functions\<close>

definition OTZ_INVALID :: int where "OTZ_INVALID = 1"
definition OTZ_BUSY :: int where "OTZ_BUSY = 2"
definition OTZ_FREE :: u32 where "OTZ_FREE = 0"

record sw_mutex_t =
  init_param :: u32
  lock_param :: u32

record sw_sem_t =
  sem_init_param :: u32
  counter_param :: u32

text \<open>The five assembly routines.\<close>

datatype routine = SPINLOCK | SPINUNLOCK | TRYLOCK | SEM_WAIT | SEM_POST

text \<open>\<open>Inl\<close> is a result, \<open>Inr\<close> enters a routine.\<close>

definition sw_mutex_init :: "sw_mutex_t option \<Rightarrow> int \<times> sw_mutex_t option" where
  "sw_mutex_init m = (case m of None \<Rightarrow> (OTZ_INVALID, None) | Some x \<Rightarrow> (OTZ_OK, Some (x\<lparr>lock_param := OTZ_FREE, init_param := 1\<rparr>)))"

definition sw_mutex_destroy :: "sw_mutex_t option \<Rightarrow> int \<times> sw_mutex_t option" where
  "sw_mutex_destroy m =
     (case m of
        None \<Rightarrow> (OTZ_INVALID, None)
      | Some x \<Rightarrow> if lock_param x \<noteq> OTZ_FREE then (OTZ_BUSY, m) else (OTZ_OK, Some (x\<lparr>init_param := 0\<rparr>)))"

definition mutex_call :: "routine \<Rightarrow> sw_mutex_t option \<Rightarrow> int + routine" where
  "mutex_call r m = (case m of None \<Rightarrow> Inl OTZ_INVALID | Some x \<Rightarrow> if init_param x = 0 then Inl OTZ_INVALID else Inr r)"

definition sw_mutex_lock :: "sw_mutex_t option \<Rightarrow> int + routine" where
  "sw_mutex_lock = mutex_call SPINLOCK"

definition sw_mutex_unlock :: "sw_mutex_t option \<Rightarrow> int + routine" where
  "sw_mutex_unlock = mutex_call SPINUNLOCK"

definition sw_mutex_trylock :: "sw_mutex_t option \<Rightarrow> int + routine" where
  "sw_mutex_trylock = mutex_call TRYLOCK"

definition trylock_result :: "u32 \<Rightarrow> int" where
  "trylock_result lock_state = (if lock_state \<noteq> OTZ_FREE then OTZ_BUSY else OTZ_OK)"

definition sw_sem_init :: "u32 \<Rightarrow> sw_sem_t option \<Rightarrow> int \<times> sw_sem_t option" where
  "sw_sem_init v sem = (case sem of None \<Rightarrow> (OTZ_INVALID, None) | Some x \<Rightarrow> (OTZ_OK, Some (x\<lparr>sem_init_param := 1, counter_param := v\<rparr>)))"

definition sem_call :: "routine \<Rightarrow> sw_sem_t option \<Rightarrow> int + routine" where
  "sem_call r sem = (case sem of None \<Rightarrow> Inl OTZ_INVALID | Some x \<Rightarrow> if sem_init_param x = 0 then Inl OTZ_INVALID else Inr r)"

definition sw_sem_wait :: "sw_sem_t option \<Rightarrow> int + routine" where
  "sw_sem_wait = sem_call SEM_WAIT"

definition sw_sem_post :: "sw_sem_t option \<Rightarrow> int + routine" where
  "sw_sem_post = sem_call SEM_POST"

text \<open>The counter is unsigned: the test for waiting tasks never holds.\<close>

definition sw_sem_destroy :: "sw_sem_t option \<Rightarrow> int \<times> sw_sem_t option" where
  "sw_sem_destroy sem =
     (case sem of
        None \<Rightarrow> (OTZ_INVALID, None)
      | Some x \<Rightarrow> if counter_param x < 0 then (OTZ_BUSY, sem) else (OTZ_OK, Some (x\<lparr>counter_param := 0, sem_init_param := 0\<rparr>)))"

definition sw_sem_getvalue :: "sw_sem_t option \<Rightarrow> bool \<Rightarrow> int \<times> u32 option" where
  "sw_sem_getvalue sem value_given =
     (case sem of
        None \<Rightarrow> (OTZ_INVALID, None)
      | Some x \<Rightarrow> if sem_init_param x = 0 \<or> \<not> value_given then (OTZ_INVALID, None) else (OTZ_OK, Some (counter_param x)))"

section \<open>The assembly routines\<close>

datatype pc = Idle | At routine | Loaded routine u32 | Returned routine u32

text \<open>Where a routine is after \<open>LDREX\<close> gave it \<open>v\<close>; the branch \<open>BMI\<close> tests bit 31 of the decremented value.\<close>

fun after_load :: "routine \<Rightarrow> u32 \<Rightarrow> pc" where
  "after_load SPINLOCK v = (if v = 0 then Loaded SPINLOCK v else At SPINLOCK)"
| "after_load TRYLOCK v = (if v = 0 then Loaded TRYLOCK v else Returned TRYLOCK v)"
| "after_load SEM_WAIT v = (if bit (v - 1) 31 then At SEM_WAIT else Loaded SEM_WAIT v)"
| "after_load SEM_POST v = Loaded SEM_POST v"
| "after_load SPINUNLOCK v = At SPINUNLOCK"

fun new_word :: "routine \<Rightarrow> u32 \<Rightarrow> u32" where
  "new_word SEM_WAIT v = v - 1"
| "new_word SEM_POST v = v + 1"
| "new_word SPINUNLOCK v = 0"
| "new_word _ v = 1"

text \<open>After a \<open>STREX\<close> with the given status.\<close>

definition after_store :: "routine \<Rightarrow> u32 \<Rightarrow> pc" where
  "after_store r status = (if status = 0 \<or> r = TRYLOCK then Returned r status else At r)"

record machine =
  shared :: u32
  tags :: "nat set"
  pcs :: "nat \<Rightarrow> pc"

definition set_pc :: "nat \<Rightarrow> pc \<Rightarrow> machine \<Rightarrow> machine" where
  "set_pc t p s = s\<lparr>pcs := (pcs s)(t := p)\<rparr>"

definition ldrex :: "nat \<Rightarrow> routine \<Rightarrow> machine \<Rightarrow> machine" where
  "ldrex t r s = set_pc t (after_load r (shared s)) (s\<lparr>tags := insert t (tags s)\<rparr>)"

definition strex :: "nat \<Rightarrow> routine \<Rightarrow> u32 \<Rightarrow> machine \<Rightarrow> machine" where
  "strex t r v s =
     (if t \<in> tags s then set_pc t (after_store r 0) (s\<lparr>shared := new_word r v, tags := {}\<rparr>)
      else set_pc t (after_store r 1) s)"

definition str_free :: "nat \<Rightarrow> machine \<Rightarrow> machine" where
  "str_free t s = set_pc t (Returned SPINUNLOCK 0) (s\<lparr>shared := 0, tags := {}\<rparr>)"

inductive instruction :: "nat \<Rightarrow> machine \<Rightarrow> machine \<Rightarrow> bool" where
  load: "pcs s t = At r \<Longrightarrow> r \<noteq> SPINUNLOCK \<Longrightarrow> instruction t s (ldrex t r s)"
| store: "pcs s t = Loaded r v \<Longrightarrow> instruction t s (strex t r v s)"
| release: "pcs s t = At SPINUNLOCK \<Longrightarrow> instruction t s (str_free t s)"
| lose_tag: "instruction t s (s\<lparr>tags := tags s - {t}\<rparr>)"

inductive_cases instructionE: "instruction t s s'"

text \<open>
  Clients of a mutex: they lock when they have nothing to do with it, and unlock when they hold it. The
  second half is what a mutex asks of its users: \<open>sw_mutex_unlock\<close> does not compare the caller with an owner.
\<close>

definition holds :: "pc \<Rightarrow> bool" where
  "holds p \<longleftrightarrow> p \<in> {Returned SPINLOCK 0, Returned TRYLOCK 0, At SPINUNLOCK}"

inductive mutex_step :: "machine \<Rightarrow> machine \<Rightarrow> bool" where
  run: "instruction t s s' \<Longrightarrow> mutex_step s s'"
| lock: "pcs s t = Idle \<Longrightarrow> r \<in> {SPINLOCK, TRYLOCK} \<Longrightarrow> mutex_step s (set_pc t (At r) s)"
| unlock: "pcs s t \<in> {Returned SPINLOCK 0, Returned TRYLOCK 0} \<Longrightarrow> mutex_step s (set_pc t (At SPINUNLOCK) s)"
| leave: "pcs s t = Returned r v \<Longrightarrow> \<not> holds (pcs s t) \<Longrightarrow> mutex_step s (set_pc t Idle s)"

inductive_cases mutex_stepE: "mutex_step s s'"

text \<open>Clients of a semaphore, with the numbers of waits and posts that have taken effect.\<close>

fun returned :: "routine \<Rightarrow> pc \<Rightarrow> bool" where
  "returned r (Returned q v) = (q = r)"
| "returned r p = False"

definition completes :: "routine \<Rightarrow> nat \<Rightarrow> machine \<Rightarrow> machine \<Rightarrow> nat" where
  "completes r t s s' = (if \<not> returned r (pcs s t) \<and> returned r (pcs s' t) then 1 else 0)"

inductive sem_step :: "machine \<times> nat \<times> nat \<Rightarrow> machine \<times> nat \<times> nat \<Rightarrow> bool" where
  run: "instruction t s s' \<Longrightarrow> sem_step (s, w, p) (s', w + completes SEM_WAIT t s s', p + completes SEM_POST t s s')"
| enter: "pcs s t = Idle \<Longrightarrow> r \<in> {SEM_WAIT, SEM_POST} \<Longrightarrow> sem_step (s, w, p) (set_pc t (At r) s, w, p)"
| leave: "pcs s t = Returned r x \<Longrightarrow> sem_step (s, w, p) (set_pc t Idle s, w, p)"

inductive_cases sem_stepE: "sem_step (s, w, p) s'"

section \<open>Invariants\<close>

definition fresh :: "u32 \<Rightarrow> machine" where
  "fresh n = \<lparr>shared = n, tags = {}, pcs = \<lambda>_. Idle\<rparr>"

text \<open>A tag that is still set has watched the word since it was loaded.\<close>

definition tags_ok :: "machine \<Rightarrow> bool" where
  "tags_ok s \<longleftrightarrow> (\<forall>t\<in>tags s. \<forall>r v. pcs s t = Loaded r v \<longrightarrow> v = shared s)"

lemma set_pc_simps [simp]:
  "shared (set_pc t p s) = shared s" "tags (set_pc t p s) = tags s" "pcs (set_pc t p s) = (pcs s)(t := p)"
  by (simp_all add: set_pc_def)

lemma after_load_Loaded: "after_load r w = Loaded q v \<Longrightarrow> q = r \<and> v = w"
  by (cases r) (auto split: if_splits)

lemma after_store_not_Loaded [simp]: "after_store r x \<noteq> Loaded q v"
  by (simp add: after_store_def)

lemma tags_ok_instruction: "instruction t s s' \<Longrightarrow> tags_ok s \<Longrightarrow> tags_ok s'"
  by (erule instructionE) (auto simp: tags_ok_def ldrex_def strex_def str_free_def dest: after_load_Loaded split: if_splits)

lemma tags_ok_set_pc: "tags_ok s \<Longrightarrow> (\<And>r v. p \<noteq> Loaded r v) \<Longrightarrow> tags_ok (set_pc t p s)"
  by (auto simp: tags_ok_def)

subsection \<open>Mutexes\<close>

fun mutex_pc :: "pc \<Rightarrow> bool" where
  "mutex_pc Idle = True"
| "mutex_pc (At r) = (r \<in> {SPINLOCK, TRYLOCK, SPINUNLOCK})"
| "mutex_pc (Loaded r v) = (r \<in> {SPINLOCK, TRYLOCK} \<and> v = 0)"
| "mutex_pc (Returned r v) = (r \<in> {SPINLOCK, TRYLOCK, SPINUNLOCK})"

definition mutex_inv :: "machine \<Rightarrow> bool" where
  "mutex_inv s \<longleftrightarrow> tags_ok s \<and> (\<forall>t. mutex_pc (pcs s t)) \<and> shared s \<in> {0, 1} \<and>
     (shared s = 0 \<longrightarrow> (\<forall>t. \<not> holds (pcs s t))) \<and> (shared s = 1 \<longrightarrow> (\<exists>!t. holds (pcs s t)))"

lemma mutex_inv_move:
  assumes "mutex_inv s" "tags_ok s'" "pcs s' = (pcs s)(t := p)" "mutex_pc p" "holds p = holds (pcs s t)" "shared s' = shared s"
  shows "mutex_inv s'"
proof -
  have "holds (pcs s' u) = holds (pcs s u)" for u using assms(3,5) by simp
  then show ?thesis using assms(1,2,3,4,6) by (simp add: mutex_inv_def)
qed

lemma mutex_inv_set_pc:
  assumes "mutex_inv s" "mutex_pc p" "holds p = holds (pcs s t)" "\<And>r v. p \<noteq> Loaded r v"
  shows "mutex_inv (set_pc t p s)"
  by (rule mutex_inv_move [OF assms(1), where t=t and p=p])
    (use assms in \<open>simp_all add: tags_ok_set_pc mutex_inv_def\<close>)

lemma mutex_inv_instruction:
  assumes "instruction t s s'" "mutex_inv s"
  shows "mutex_inv s'"
  using assms(1)
proof (cases rule: instruction.cases)
  case (load r)
  have "mutex_pc (At r)" using assms(2) load(2) by (metis mutex_inv_def)
  then have r: "r \<in> {SPINLOCK, TRYLOCK}" using load(3) by auto
  have "shared s \<in> {0, 1}" using assms(2) by (simp add: mutex_inv_def)
  then show ?thesis
    using r load tags_ok_instruction [OF assms(1)] assms(2)
    by (intro mutex_inv_move [OF assms(2), where t=t and p="after_load r (shared s)"])
      (auto simp: mutex_inv_def ldrex_def holds_def)
next
  case (store r v)
  have pc: "mutex_pc (Loaded r v)" using assms(2) store(2) by (metis mutex_inv_def)
  show ?thesis
  proof (cases "t \<in> tags s")
    case True
    then have free: "shared s = 0" using pc store(2) assms(2) by (auto simp: mutex_inv_def tags_ok_def)
    then have none: "\<not> holds (pcs s u)" for u using assms(2) by (simp add: mutex_inv_def)
    have r: "r \<in> {SPINLOCK, TRYLOCK}" using pc by simp
    have s': "pcs s' = (pcs s)(t := Returned r 0)" "shared s' = 1"
      using True store(1) r by (auto simp: strex_def after_store_def)
    have "\<exists>!u. holds (pcs s' u)"
      unfolding s'(1) using none r by (intro ex1I [of _ t]) (auto simp: holds_def split: if_splits)
    moreover have "\<forall>u. mutex_pc (pcs s' u)" using assms(2) r by (auto simp: s'(1) mutex_inv_def)
    ultimately show ?thesis
      using s'(2) tags_ok_instruction [OF assms(1)] assms(2) by (simp add: mutex_inv_def)
  next
    case False
    then show ?thesis
      using pc store tags_ok_instruction [OF assms(1)] assms(2)
      by (intro mutex_inv_move [OF assms(2), where t=t and p="after_store r 1"])
        (auto simp: mutex_inv_def strex_def after_store_def holds_def)
  qed
next
  case release
  then have "holds (pcs s t)" by (simp add: holds_def)
  then have "\<not> holds (pcs s u)" if "u \<noteq> t" for u using that assms(2) by (auto simp: mutex_inv_def)
  then show ?thesis
    using release assms tags_ok_instruction [OF assms(1)]
    by (auto simp: mutex_inv_def str_free_def holds_def)
next
  case lose_tag
  then show ?thesis using assms tags_ok_instruction [OF assms(1)] by (simp add: mutex_inv_def)
qed

lemma mutex_inv_step: "mutex_step s s' \<Longrightarrow> mutex_inv s \<Longrightarrow> mutex_inv s'"
proof (induction rule: mutex_step.induct)
  case (lock s t r)
  show ?case
    by (rule mutex_inv_set_pc [OF lock(3)]) (use lock(1,2) in \<open>auto simp: holds_def\<close>)
next
  case (unlock s t)
  show ?case
    by (rule mutex_inv_set_pc [OF unlock(2)]) (use unlock(1) in \<open>auto simp: holds_def\<close>)
next
  case (leave s t r v)
  show ?case
    by (rule mutex_inv_set_pc [OF leave(3)]) (use leave(2) in \<open>auto simp: holds_def\<close>)
qed (rule mutex_inv_instruction)

lemma mutex_inv_reachable: "mutex_step\<^sup>*\<^sup>* (fresh 0) s \<Longrightarrow> mutex_inv s"
proof (induction rule: rtranclp_induct)
  case base
  show ?case by (simp add: mutex_inv_def tags_ok_def fresh_def holds_def)
qed (rule mutex_inv_step)

text \<open>
  C25. When processors unlock a mutex only while they hold it, then, however their instructions interleave and
  whenever they lose the exclusive tag, at most one of them holds the mutex and the word is 1 exactly while one does. The
  condition is part of \<open>mutex_step\<close>: the code itself records no owner, and an unlock by anybody else
  would let a second processor in.
\<close>

theorem mutual_exclusion:
  assumes "mutex_step\<^sup>*\<^sup>* (fresh OTZ_FREE) s"
  shows "(\<forall>t u. holds (pcs s t) \<longrightarrow> holds (pcs s u) \<longrightarrow> t = u) \<and> (shared s = 1 \<longleftrightarrow> (\<exists>t. holds (pcs s t))) \<and> shared s \<le> 1"
proof -
  have inv: "mutex_inv s" using assms unfolding OTZ_FREE_def by (rule mutex_inv_reachable)
  then consider "shared s = 0" "\<forall>t. \<not> holds (pcs s t)" | "shared s = 1" "\<exists>!t. holds (pcs s t)"
    unfolding mutex_inv_def by blast
  then show ?thesis
  proof cases
    case 2
    then show ?thesis by (auto elim: ex1E)
  qed simp
qed

text \<open>Two processors that both loaded the free word: the first store wins, the second fails.\<close>

definition contended :: machine where
  "contended = \<lparr>shared = 1, tags = {}, pcs = (\<lambda>_. Idle)(0 := Returned SPINLOCK 0, 1 := At SPINLOCK)\<rparr>"

lemma rtranclp_6: "r a b \<Longrightarrow> r b c \<Longrightarrow> r c d \<Longrightarrow> r d e \<Longrightarrow> r e f \<Longrightarrow> r f g \<Longrightarrow> r\<^sup>*\<^sup>* a g"
  by (rule rtranclp_trans [of r a d]; rule rtranclp.rtrancl_into_rtrancl, rule rtranclp.rtrancl_into_rtrancl, rule r_into_rtranclp)

lemma contended_reachable: "mutex_step\<^sup>*\<^sup>* (fresh OTZ_FREE) contended"
proof -
  let ?a = "set_pc 0 (At SPINLOCK) (fresh 0)" let ?b = "set_pc 1 (At SPINLOCK) ?a"
  let ?c = "ldrex 0 SPINLOCK ?b" let ?d = "ldrex 1 SPINLOCK ?c" let ?e = "strex 0 SPINLOCK 0 ?d"
  have 1: "mutex_step (fresh 0) ?a" by (rule mutex_step.lock) (simp_all add: fresh_def)
  have 2: "mutex_step ?a ?b" by (rule mutex_step.lock) (simp_all add: fresh_def)
  have 3: "mutex_step ?b ?c" by (rule mutex_step.run, rule instruction.load) simp_all
  have 4: "mutex_step ?c ?d" by (rule mutex_step.run, rule instruction.load) (simp_all add: ldrex_def)
  have 5: "mutex_step ?d ?e" by (rule mutex_step.run, rule instruction.store) (simp_all add: ldrex_def fresh_def)
  have 6: "mutex_step ?e (strex 1 SPINLOCK 0 ?e)"
    by (rule mutex_step.run, rule instruction.store) (simp_all add: ldrex_def strex_def fresh_def)
  have "strex 1 SPINLOCK 0 ?e = contended"
    by (simp add: contended_def strex_def ldrex_def fresh_def set_pc_def after_store_def fun_eq_iff)
  with rtranclp_6 [of mutex_step, OF 1 2 3 4 5 6] show ?thesis unfolding OTZ_FREE_def by (simp only:)
qed

theorem mutual_exclusion_witness: "{t. holds (pcs contended t)} = {0}"
proof -
  have "holds (pcs contended 0)" by (simp add: contended_def holds_def)
  with mutual_exclusion [OF contended_reachable] show ?thesis by blast
qed

subsection \<open>Semaphores\<close>

fun sem_pc :: "pc \<Rightarrow> bool" where
  "sem_pc Idle = True"
| "sem_pc (At r) = (r \<in> {SEM_WAIT, SEM_POST})"
| "sem_pc (Loaded r v) = (r = SEM_POST \<or> r = SEM_WAIT \<and> \<not> bit (v - 1) 31)"
| "sem_pc (Returned r v) = (r \<in> {SEM_WAIT, SEM_POST})"

definition sem_inv :: "u32 \<Rightarrow> machine \<times> nat \<times> nat \<Rightarrow> bool" where
  "sem_inv n = (\<lambda>(s, w, p). tags_ok s \<and> (\<forall>t. sem_pc (pcs s t)) \<and>
     (unat n + p < 2 ^ 31 \<longrightarrow> unat (shared s) + w = unat n + p))"

lemma completes_set_pc: "completes r t s s' = 0" if "\<not> returned r (pcs s' t)"
  using that by (simp add: completes_def)

lemma decremented:
  assumes "\<not> bit (v - 1 :: u32) 31" "unat v < 2 ^ 31"
  shows "unat (v - 1) + 1 = unat v"
proof -
  have "v \<noteq> 0"
  proof
    assume "v = 0"
    with assms(1) show False by (simp add: bit_minus_1_iff)
  qed
  then have "1 \<le> v" by (simp add: word_le_nat_alt unat_gt_0 Suc_leI)
  moreover from this have "1 \<le> unat v" by (simp add: word_le_nat_alt)
  ultimately show ?thesis by (simp add: unat_minus_le)
qed

lemma sem_inv_instruction:
  assumes "instruction t s s'" "sem_inv n (s, w, p)"
  shows "sem_inv n (s', w + completes SEM_WAIT t s s', p + completes SEM_POST t s s')"
  using assms(1)
proof (cases rule: instruction.cases)
  case (load r)
  have "sem_pc (At r)" using assms(2) load(2) by (metis (no_types, lifting) case_prodD sem_inv_def)
  then have "r \<in> {SEM_WAIT, SEM_POST}" by simp
  then show ?thesis
    using load assms(2) tags_ok_instruction [OF assms(1)]
    by (auto simp: sem_inv_def ldrex_def completes_def split: if_splits)
next
  case (store r v)
  have pc: "sem_pc (Loaded r v)" using assms(2) store(2) by (metis (no_types, lifting) case_prodD sem_inv_def)
  have tags: "tags_ok s'" using tags_ok_instruction [OF assms(1)] assms(2) by (simp add: sem_inv_def)
  show ?thesis
  proof (cases "t \<in> tags s")
    case True
    then have v: "v = shared s" using assms(2) store(2) by (auto simp: sem_inv_def tags_ok_def)
    have s': "pcs s' = (pcs s)(t := Returned r 0)" "shared s' = new_word r v"
      using True store(1) pc by (auto simp: strex_def after_store_def)
    consider "r = SEM_POST" | "r = SEM_WAIT" "\<not> bit (v - 1) 31" using pc by auto
    then show ?thesis
    proof cases
      case 1
      have "unat (v + 1) + w = unat n + (p + 1)" if "unat n + (p + 1) < 2 ^ 31"
      proof -
        have "unat v + w = unat n + p" using that assms(2) v by (simp add: sem_inv_def)
        moreover from this that have "unat (v + 1) = unat v + 1" by (subst unat_plus_lt) simp_all
        ultimately show ?thesis by simp
      qed
      then show ?thesis using 1 s' tags assms(2) store(2) by (auto simp: sem_inv_def completes_def)
    next
      case 2
      have "unat (v - 1) + (w + 1) = unat n + p" if "unat n + p < 2 ^ 31"
      proof -
        have "unat v + w = unat n + p" using that assms(2) v by (simp add: sem_inv_def)
        with that decremented [OF 2(2)] show ?thesis by simp
      qed
      then show ?thesis using 2 s' tags assms(2) store(2) by (auto simp: sem_inv_def completes_def)
    qed
  next
    case False
    then show ?thesis using pc store assms(2) tags by (auto simp: sem_inv_def strex_def after_store_def completes_def)
  qed
next
  case release
  have "sem_pc (At SPINUNLOCK)" using assms(2) release(2) by (metis (no_types, lifting) case_prodD sem_inv_def)
  then show ?thesis by simp
next
  case lose_tag
  then show ?thesis using assms tags_ok_instruction [OF assms(1)] by (auto simp: sem_inv_def completes_def)
qed

lemma sem_inv_step: "sem_step x y \<Longrightarrow> sem_inv n x \<Longrightarrow> sem_inv n y"
proof (induction rule: sem_step.induct)
  case (enter s t r w p)
  then show ?case by (auto simp: sem_inv_def tags_ok_set_pc)
next
  case (leave s t r x w p)
  then show ?case by (auto simp: sem_inv_def tags_ok_set_pc)
qed (rule sem_inv_instruction)

lemma sem_inv_reachable: "sem_step\<^sup>*\<^sup>* (fresh n, 0, 0) x \<Longrightarrow> sem_inv n x"
proof (induction rule: rtranclp_induct)
  case base
  show ?case by (simp add: sem_inv_def tags_ok_def fresh_def)
qed (rule sem_inv_step)

text \<open>
  C26. The counter of a semaphore is its first value plus the posts minus the waits that have returned, however the
  instructions interleave, as long as the posts do not carry it to bit 31; so no wait returns without a unit.
\<close>

theorem semaphore_counts:
  assumes "sem_step\<^sup>*\<^sup>* (fresh n, 0, 0) (s, w, p)" "unat n + p < 2 ^ 31"
  shows "unat (shared s) + w = unat n + p"
  using sem_inv_reachable [OF assms(1)] assms(2) by (simp add: sem_inv_def)

theorem semaphore_counts_witness:
  "unat (shared (strex 0 SEM_WAIT 1 (ldrex 0 SEM_WAIT (set_pc 0 (At SEM_WAIT) (fresh 1))))) + 1 = 1 + 0"
proof -
  let ?a = "set_pc 0 (At SEM_WAIT) (fresh 1)" let ?b = "ldrex 0 SEM_WAIT ?a" let ?c = "strex 0 SEM_WAIT 1 ?b"
  have "sem_step (fresh 1, 0, 0) (?a, 0, 0)" by (rule sem_step.enter) (simp_all add: fresh_def)
  moreover have "sem_step (?a, 0, 0) (?b, 0 + completes SEM_WAIT 0 ?a ?b, 0 + completes SEM_POST 0 ?a ?b)"
    by (rule sem_step.run, rule instruction.load) simp_all
  moreover have "sem_step (?b, 0, 0) (?c, 0 + completes SEM_WAIT 0 ?b ?c, 0 + completes SEM_POST 0 ?b ?c)"
    by (rule sem_step.run, rule instruction.store) (simp add: ldrex_def fresh_def)
  moreover have "completes SEM_WAIT 0 ?a ?b = 0" "completes SEM_POST 0 ?a ?b = 0"
      "completes SEM_WAIT 0 ?b ?c = 1" "completes SEM_POST 0 ?b ?c = 0"
    by (simp_all add: completes_def ldrex_def strex_def after_store_def fresh_def)
  ultimately have "sem_step\<^sup>*\<^sup>* (fresh 1, 0, 0) (?c, 1, 0)"
    by (metis (no_types, lifting) add_0 r_into_rtranclp rtranclp.rtrancl_into_rtrancl)
  from semaphore_counts [OF this] show ?thesis by simp
qed

text \<open>The counter is unsigned, so a semaphore is destroyed whatever its counter is.\<close>

lemma sw_sem_destroy_always: "sw_sem_destroy (Some x) = (OTZ_OK, Some (x\<lparr>counter_param := 0, sem_init_param := 0\<rparr>))"
  by (simp add: sw_sem_destroy_def)

end
