(* ===== verification/Fat32.thy ===== *)
theory Fat32
  imports SwMem "HOL-Library.Monad_Syntax"
begin

text \<open>
  The FAT32 file system (\<open>fs/fat32.c\<close>, \<open>include/fat32.h\<close>) on an image of a disk in memory.

  The image, the directory entries copied to the heap, the path names and the local arrays of
  \<open>file_open\<close> and \<open>get_dir_entry\<close> live in one memory of bytes; the list of open files is a list
  of records. The addresses of the local arrays, the addresses that the next calls of \<open>sw_malloc\<close>
  return and what C leaves open (the content of an uninitialised variable, the value of
  \<open>x = x++\<close>, the order in which the operands of a sum are evaluated) are parameters in the state.
  \<open>freed\<close> records the pointers given to \<open>sw_malloc_free\<close> and \<open>sw_free\<close>, the last one first.

  Variables of type \<open>int\<close> are words that are compared as signed numbers where C does. \<open>None\<close> is a
  loop that does not end or an access through a null pointer.
\<close>

section \<open>State\<close>

record file_info =
  fd :: u32
  entry :: u32
  file_path :: u32
  strt_cluster :: u32
  cur_cluster :: u32
  cur_offset :: u16
  file_size :: u32
  mode :: u8
  bytes_traversed :: u32
  dir_entry_offset :: u32

record fat32 =
  memory :: mem
  blocks :: "u32 list"
  freed :: "u32 list"
  bs_sector :: u32
  fs_infosector :: u32
  backup_boot_sector :: u32
  first_fat :: u32
  second_fat :: u32
  root_directory :: u32
  sec_size :: u16
  cluster_size :: u32
  root_dir_size :: u16
  rt_dir_entry_cnt :: u16
  rt_dir_strt_clus :: u32
  nxt_free_cluster :: u32
  dir_file_offset :: u32
  file_head :: "file_info list"
  fdes :: u32
  long_file_name :: u32
  shrt_file_name :: u32
  temp_lfn :: u32
  junk :: u32
  increment_survives :: bool
  call_first :: bool

definition END_OF_CLUSTER :: u32 where "END_OF_CLUSTER = 0x0FFFFFFF"
definition END_OF_ROOT_CLUSTER :: u32 where "END_OF_ROOT_CLUSTER = 0x0FFFFFF8"
definition MAX_DIR_ENTRY_CNT :: u32 where "MAX_DIR_ENTRY_CNT = 16"
definition SHRT_FILE_NAME_LEN :: nat where "SHRT_FILE_NAME_LEN = 11"
definition LONG_FILE_NAME_LEN :: nat where "LONG_FILE_NAME_LEN = 255"
definition FILE_READ :: u32 where "FILE_READ = 1"
definition FILE_WRITE :: u32 where "FILE_WRITE = 2"
definition FILE_CREATE_NEW :: u32 where "FILE_CREATE_NEW = 4"
definition FILE_CREATE_ALWAYS :: u32 where "FILE_CREATE_ALWAYS = 8"
definition ATTR_READ :: u8 where "ATTR_READ = 1"
definition ATTR_DIR :: u8 where "ATTR_DIR = 0x10"
definition ATTR_ARCHIVE :: u8 where "ATTR_ARCHIVE = 0x20"
definition ATTR_LONG_FNAME :: u8 where "ATTR_LONG_FNAME = 0x0F"
definition FREE_DIR_ENTRY :: u8 where "FREE_DIR_ENTRY = 0"
definition DEL_DIR_ENTRY :: u8 where "DEL_DIR_ENTRY = 0xE5"
definition DELIMITER :: u8 where "DELIMITER = 0x2F"
definition EXTN_DELIMITER :: u8 where "EXTN_DELIMITER = 0x2E"
definition TILDE :: u8 where "TILDE = 0x7E"
definition DIR_ENTRY_LEN :: u32 where "DIR_ENTRY_LEN = 32"
definition FILE_SEEK_SET :: u32 where "FILE_SEEK_SET = 0"
definition FILE_SEEK_CUR :: u32 where "FILE_SEEK_CUR = 1"
definition FILE_SEEK_END :: u32 where "FILE_SEEK_END = 2"

lemmas fat_codes = END_OF_CLUSTER_def END_OF_ROOT_CLUSTER_def MAX_DIR_ENTRY_CNT_def SHRT_FILE_NAME_LEN_def LONG_FILE_NAME_LEN_def
  FILE_READ_def FILE_WRITE_def FILE_CREATE_NEW_def FILE_CREATE_ALWAYS_def ATTR_READ_def ATTR_DIR_def ATTR_ARCHIVE_def ATTR_LONG_FNAME_def
  FREE_DIR_ENTRY_def DEL_DIR_ENTRY_def DELIMITER_def EXTN_DELIMITER_def TILDE_def DIR_ENTRY_LEN_def FILE_SEEK_SET_def FILE_SEEK_CUR_def FILE_SEEK_END_def

definition read16 :: "mem \<Rightarrow> u32 \<Rightarrow> u16" where
  "read16 m a = ucast (m a) OR push_bit 8 (ucast (m (a + 1)))"

definition write16 :: "u32 \<Rightarrow> u16 \<Rightarrow> mem \<Rightarrow> mem" where
  "write16 a v m = m(a := ucast v, a + 1 := ucast (drop_bit 8 v))"

definition on_mem :: "(mem \<Rightarrow> mem) \<Rightarrow> fat32 \<Rightarrow> fat32" where
  "on_mem f s = s\<lparr>memory := f (memory s)\<rparr>"

definition sw_malloc :: "fat32 \<Rightarrow> u32 \<times> fat32" where
  "sw_malloc s = (case blocks s of [] \<Rightarrow> (0, s) | a # as \<Rightarrow> (a, s\<lparr>blocks := as\<rparr>))"

definition sw_malloc_free :: "u32 \<Rightarrow> fat32 \<Rightarrow> fat32" where
  "sw_malloc_free a s = s\<lparr>freed := a # freed s\<rparr>"

definition nonnull :: "u32 \<Rightarrow> unit option" where
  "nonnull p = (if p = 0 then None else Some ())"

definition is_end :: "u32 \<Rightarrow> bool" where
  "is_end c \<longleftrightarrow> c = END_OF_CLUSTER \<or> c = END_OF_ROOT_CLUSTER"

definition strt_clus_of :: "mem \<Rightarrow> u32 \<Rightarrow> u32" where
  "strt_clus_of m e = push_bit 16 (ucast (read16 m (e + 20))) OR ucast (read16 m (e + 26))"

section \<open>Clusters\<close>

definition cluster_to_memory_addr :: "fat32 \<Rightarrow> u32 \<Rightarrow> u32" where
  "cluster_to_memory_addr s c = root_directory s + ucast (sec_size s) + (c - 3) * ucast (sec_size s)"

definition get_fat_table_entry :: "fat32 \<Rightarrow> u32 \<Rightarrow> u32" where
  "get_fat_table_entry s c = read32 (memory s) (first_fat s + c * 4)"

definition write_fat_table :: "u32 \<Rightarrow> u32 \<Rightarrow> fat32 \<Rightarrow> fat32" where
  "write_fat_table c v s = on_mem (write32 (first_fat s + c * 4) v) s"

partial_function (option) find_free_entry :: "mem \<Rightarrow> u32 \<Rightarrow> u32 option" where
  "find_free_entry m a = (if read32 m a \<noteq> 0 then find_free_entry m (a + 4) else Some a)"

definition allocate_cluster :: "fat32 \<Rightarrow> (u32 \<times> fat32) option" where
  "allocate_cluster s = do {
     a \<leftarrow> find_free_entry (memory s) (first_fat s + (nxt_free_cluster s + 1) * 4);
     let c = (a - first_fat s) div 4;
     Some (c, on_mem (write32 (fs_infosector s + 492) c) (s\<lparr>nxt_free_cluster := c\<rparr>))
   }"

section \<open>Mounting\<close>

definition chk_fat32_file_system :: "mem \<Rightarrow> u32 \<Rightarrow> bool" where
  "chk_fat32_file_system m t = (map (\<lambda>i. m (t + of_nat i)) [0..<8] = [0x46, 0x41, 0x54, 0x33, 0x32, 0x20, 0x20, 0x20])"

partial_function (option) count_clusters :: "fat32 \<Rightarrow> u32 \<Rightarrow> u32 \<Rightarrow> u32 option" where
  "count_clusters s c n = (if is_end c then Some n else count_clusters s (get_fat_table_entry s c) (n + 1))"

definition cal_region_offsets :: "u32 \<Rightarrow> fat32 \<Rightarrow> fat32 option" where
  "cal_region_offsets dev s =
     (let m = memory s;
          ss = ucast (read16 m (dev + 11)) :: u32;
          reserved = ucast (read16 m (dev + 14));
          fat_cnt = ucast (m (dev + 16));
          sectors_per_fat = read32 m (dev + 36);
          root_clus = read32 m (dev + 44);
          s1 = s\<lparr>sec_size := read16 m (dev + 11),
                 cluster_size := ucast (m (dev + 13)) * ss,
                 bs_sector := dev,
                 fs_infosector := dev + ucast (read16 m (dev + 48)) * ss,
                 backup_boot_sector := dev + ucast (read16 m (dev + 50)) * ss,
                 first_fat := dev + reserved * ss\<rparr>;
          s2 = (if fat_cnt = 2 then s1\<lparr>second_fat := sectors_per_fat * ss + first_fat s1\<rparr> else s1);
          s3 = s2\<lparr>root_directory := dev + (reserved + fat_cnt * sectors_per_fat + (root_clus - 2)) * ss\<rparr>
      in do {
        clus_cnt \<leftarrow> count_clusters s3 root_clus 0;
        let dir_size = (ucast (cluster_size s3 * clus_cnt) :: u16);
        Some (s3\<lparr>rt_dir_strt_clus := root_clus, root_dir_size := dir_size, rt_dir_entry_cnt := dir_size div 32,
                 nxt_free_cluster := read32 m (fs_infosector s3 + 492)\<rparr>)
      })"

definition mount_file_system :: "u32 \<Rightarrow> fat32 \<Rightarrow> (u32 \<times> fat32) option" where
  "mount_file_system dev s =
     (if chk_fat32_file_system (memory s) (dev + 82)
      then do { s1 \<leftarrow> cal_region_offsets dev s; Some (0, s1\<lparr>file_head := [], fdes := 2\<rparr>) }
      else Some (- 1, s))"

section \<open>Names\<close>

partial_function (option) find_depth_loop :: "mem \<Rightarrow> u32 \<Rightarrow> nat \<Rightarrow> nat option" where
  "find_depth_loop m p n =
     (if m p = 0 then Some n else find_depth_loop m (p + 1) (if m p = DELIMITER then n + 1 else n))"

definition find_depth :: "mem \<Rightarrow> u32 \<Rightarrow> nat option" where
  "find_depth m p = find_depth_loop m p 0"

fun uppercase_loop :: "nat \<Rightarrow> u32 \<Rightarrow> mem \<Rightarrow> mem" where
  "uppercase_loop 0 p m = m"
| "uppercase_loop (Suc k) p m =
     (if m p = 0 then m
      else uppercase_loop k (p + 1) (m(p := if 0x61 \<le> m p \<and> m p \<le> 0x7A then m p - 32 else m p)))"

definition convert_to_uppercase :: "u32 \<Rightarrow> mem \<Rightarrow> mem" where
  "convert_to_uppercase name = uppercase_loop SHRT_FILE_NAME_LEN name"

fun check_sum_loop :: "nat \<Rightarrow> mem \<Rightarrow> u32 \<Rightarrow> u8 \<Rightarrow> u8" where
  "check_sum_loop 0 m p acc = acc"
| "check_sum_loop (Suc k) m p acc = check_sum_loop k m (p + 1) (push_bit 7 (acc AND 1) + drop_bit 1 acc + m p)"

definition calc_check_sum :: "mem \<Rightarrow> u32 \<Rightarrow> u8" where
  "calc_check_sum m p = check_sum_loop SHRT_FILE_NAME_LEN m p 0"

text \<open>The offsets of the characters in an entry of a long name.\<close>

definition name_offsets :: "u32 list" where
  "name_offsets = [1, 3, 5, 7, 9, 14, 16, 18, 20, 22, 24, 28, 30]"

text \<open>The result tells whether the name has ended, with the next index.\<close>

fun copy_name :: "u32 list \<Rightarrow> u32 \<Rightarrow> u32 \<Rightarrow> u32 \<Rightarrow> mem \<Rightarrow> bool \<times> u32 \<times> mem" where
  "copy_name [] e lfname index m = (False, index, m)"
| "copy_name (off # offs) e lfname index m =
     (if m (e + off) = 0 then (True, index, m)
      else copy_name offs e lfname (index + 1) (m(lfname + index := m (e + off))))"

definition lfn_entry_to_name :: "u32 \<Rightarrow> u32 \<Rightarrow> u32 \<Rightarrow> mem \<Rightarrow> bool \<times> u32 \<times> mem" where
  "lfn_entry_to_name = copy_name name_offsets"

partial_function (option) last_lfn_entry :: "mem \<Rightarrow> u32 \<Rightarrow> u32 option" where
  "last_lfn_entry m p = (if m p > 1 \<and> (m p AND 0x0F) > 1 then last_lfn_entry m (p + 32) else Some p)"

fun lfn_loop :: "nat \<Rightarrow> u8 \<Rightarrow> u32 \<Rightarrow> u32 \<Rightarrow> u32 \<Rightarrow> mem \<Rightarrow> u32 \<times> mem" where
  "lfn_loop 0 chk_sum p fname index m = (index, m)"
| "lfn_loop (Suc k) chk_sum p fname index m =
     (if m (p + 13) = chk_sum
      then case lfn_entry_to_name p fname index m of
             (ended, index', m') \<Rightarrow> if ended then (index', m') else lfn_loop k chk_sum (p - 32) fname index' m'
      else lfn_loop k chk_sum p fname index m)"

text \<open>The length that is returned is one less than that of the name. Results: length, count, the short entry, memory.\<close>

definition get_long_file_name :: "u32 \<Rightarrow> u32 \<Rightarrow> mem \<Rightarrow> (u32 \<times> u32 \<times> u32 \<times> mem) option" where
  "get_long_file_name fname dir m = do {
     let counter = m dir AND 0x0F;
     p \<leftarrow> last_lfn_entry m dir;
     let (index, m') = lfn_loop (unat counter) (calc_check_sum m (p + 32)) p fname 0 m;
     Some (index - 1, ucast counter, p + 32, m')
   }"

section \<open>Directories\<close>

text \<open>
  The search. It gives whether the name was found, the address reached and the state: \<open>temp_lfn\<close>
  has changed. A cluster is left after seventeen entries, the first of which are sixteen.
\<close>

partial_function (option) dir_loop :: "u32 \<Rightarrow> bool \<Rightarrow> u32 \<Rightarrow> u32 \<Rightarrow> u32 \<Rightarrow> fat32 \<Rightarrow> (bool \<times> u32 \<times> fat32) option" where
  "dir_loop fname is_lfn dir next_clus i s =
     (if next_clus = END_OF_CLUSTER \<and> i = MAX_DIR_ENTRY_CNT + 2 \<and> next_clus \<noteq> END_OF_ROOT_CLUSTER then Some (False, dir, s)
      else
        let turn = i - MAX_DIR_ENTRY_CNT = 1 \<and> \<not> is_end next_clus;
            clus = if turn then get_fat_table_entry s next_clus else next_clus
        in if turn \<and> is_end clus then Some (False, dir, s)
           else
             let d = if turn then cluster_to_memory_addr s clus else dir;
                 j = if turn then 0 else i
             in if is_lfn
                then if memory s (d + 11) = ATTR_LONG_FNAME
                     then do {
                       (lfn_len, tmp_cnt, d1, m) \<leftarrow> get_long_file_name (temp_lfn s) d (memory s);
                       let s1 = s\<lparr>memory := m\<rparr>;
                       if sw_memcmp (temp_lfn s) fname lfn_len m = 0 then Some (True, d1, s1)
                       else dir_loop fname is_lfn (d1 + DIR_ENTRY_LEN) clus (j + (if tmp_cnt \<noteq> 0 then tmp_cnt else 1)) s1
                     }
                     else dir_loop fname is_lfn (d + DIR_ENTRY_LEN) clus (j + 1) s
                else if sw_memcmp fname d 11 (memory s) = 0 then Some (True, d, s)
                     else dir_loop fname is_lfn (d + DIR_ENTRY_LEN) clus (j + 1) s)"

text \<open>The entry is copied to the heap when the caller asks for it; the second component is the copy.\<close>

definition copy_dir_entry :: "u32 \<Rightarrow> fat32 \<Rightarrow> (u32 \<times> fat32) option" where
  "copy_dir_entry dir s = do {
     let (dir_ptr, s1) = sw_malloc s;
     nonnull dir_ptr;
     Some (dir_ptr, on_mem (\<lambda>m. snd (sw_memcpy dir_ptr dir DIR_ENTRY_LEN m)) s1)
   }"

definition get_dir_entry :: "u32 \<Rightarrow> bool \<Rightarrow> u32 \<Rightarrow> u32 \<Rightarrow> bool \<Rightarrow> fat32 \<Rightarrow> (bool \<times> u32 \<times> fat32) option" where
  "get_dir_entry fname wanted strt strt_clus is_lfn s = do {
     (file_found, dir, s1) \<leftarrow> dir_loop fname is_lfn strt strt_clus 0
        (on_mem (\<lambda>m. snd (sw_memset (temp_lfn s) 0x20 (of_nat LONG_FILE_NAME_LEN) m)) s);
     if file_found \<and> wanted
     then do { (dir_ptr, s2) \<leftarrow> copy_dir_entry dir s1; Some (True, dir_ptr, s2\<lparr>dir_file_offset := dir\<rparr>) }
     else Some (file_found, 0, s1)
   }"

text \<open>The value of \<open>req_cnt = len != 0 ? req_cnt++ : req_cnt\<close> is not defined.\<close>

definition cal_req_dir_cnt :: "bool \<Rightarrow> u32 \<Rightarrow> nat" where
  "cal_req_dir_cnt survives file_name_len =
     (let n = unat file_name_len in n div 13 + (if survives \<and> n mod 13 \<noteq> 0 then 1 else 0))"

text \<open>The characters of one entry: where the next one comes from, and whether the terminator has been written.\<close>

fun fill_name :: "u32 list \<Rightarrow> u32 \<Rightarrow> u32 \<Rightarrow> bool \<Rightarrow> mem \<Rightarrow> u32 \<times> bool \<times> mem" where
  "fill_name [] e p ended m = (p, ended, m)"
| "fill_name (off # offs) e p ended m =
     (if m p = 0
      then if \<not> ended then fill_name offs e p True (write16 (e + off) 0 m)
           else fill_name offs e p ended (write16 (e + off) 0xFFFF m)
      else fill_name offs e (p + 1) ended (m(e + off := m p)))"

fun fill_loop :: "nat \<Rightarrow> u32 \<Rightarrow> u32 \<Rightarrow> u8 \<Rightarrow> u8 \<Rightarrow> bool \<Rightarrow> mem \<Rightarrow> mem" where
  "fill_loop 0 e p chk_sum ord_num ended m = m"
| "fill_loop (Suc count) e p chk_sum ord_num ended m =
     (let m1 = (snd (sw_memset e 0 DIR_ENTRY_LEN m))
            (e := if count = 1 then ord_num else ord_num OR 0x40, e + 11 := ATTR_LONG_FNAME, e + 13 := chk_sum);
          (p', ended', m2) = fill_name name_offsets e p ended m1
      in fill_loop count (e - 32) p' chk_sum (ord_num + 1) ended' m2)"

definition fill_lng_fname_entries :: "u32 \<Rightarrow> u32 \<Rightarrow> u8 \<Rightarrow> nat \<Rightarrow> mem \<Rightarrow> mem" where
  "fill_lng_fname_entries fname e chk_sum count = fill_loop count (e - DIR_ENTRY_LEN) fname chk_sum 1 False"

text \<open>The search for \<open>req\<close> free entries in a row: the address, \<open>j\<close> and \<open>k\<close> at its end.\<close>

fun gap_loop :: "nat \<Rightarrow> mem \<Rightarrow> u32 \<Rightarrow> u32 \<Rightarrow> u32 \<Rightarrow> u32 \<times> u32 \<times> u32" where
  "gap_loop 0 m cur j k = (cur, j, k)"
| "gap_loop (Suc req) m cur j k =
     (if k - MAX_DIR_ENTRY_CNT = 1 then (cur, j, k)
      else if m cur \<in> {FREE_DIR_ENTRY, DEL_DIR_ENTRY} then gap_loop req m (cur + DIR_ENTRY_LEN) (j + 1) (k + 1)
      else gap_loop req m cur j (k + 1))"

definition put_short_entry :: "u32 \<Rightarrow> u32 \<Rightarrow> fat32 \<Rightarrow> (u32 \<times> fat32) option" where
  "put_short_entry cur shrt_name s = do {
     (dir_ptr, s1) \<leftarrow> copy_dir_entry cur
       (on_mem (\<lambda>m. (snd (sw_memcpy cur shrt_name 11 (snd (sw_memset cur 0 DIR_ENTRY_LEN m))))(cur + 11 := ATTR_ARCHIVE)) s);
     Some (dir_ptr, s1\<lparr>dir_file_offset := cur\<rparr>)
   }"

text \<open>
  One round of the loop of \<open>create_file\<close>. When the directory is full a cluster is appended to it,
  but the search goes on behind the end mark. \<open>new_clus\<close> is \<open>None\<close> until a cluster is allocated.
\<close>

partial_function (option) create_loop :: "u32 \<Rightarrow> u32 \<Rightarrow> u32 \<Rightarrow> u32 \<Rightarrow> u32 option \<Rightarrow> u32 \<Rightarrow> fat32 \<Rightarrow> (u32 \<times> fat32) option" where
  "create_loop lfname shrt_name cur next_clus new_clus k s = do {
     let turn = (k - MAX_DIR_ENTRY_CNT = 1);
     let next' = (if turn then get_fat_table_entry s next_clus else next_clus);
     let cur1 = (if turn then cluster_to_memory_addr s next' else cur);
     (new1, k1, s1) \<leftarrow> (if turn \<and> is_end next'
        then do { (c, s0) \<leftarrow> allocate_cluster s; Some (Some c, 0, write_fat_table next_clus c s0) }
        else Some (new_clus, k, s));
     len \<leftarrow> (if lfname = 0 then Some 0 else sw_strlen lfname (memory s1));
     let count = cal_req_dir_cnt (increment_survives s1) len;
     let (cur2, j, k2) = (if lfname = 0 then (cur1, 0, k1 + 1) else gap_loop count (memory s1) cur1 0 k1);
     let gap = (if lfname = 0 then memory s1 cur1 \<in> {FREE_DIR_ENTRY, DEL_DIR_ENTRY} else j = of_nat count);
     let s2 = (if gap \<and> lfname \<noteq> 0
               then on_mem (fill_lng_fname_entries lfname cur2 (calc_check_sum (memory s1) shrt_name) count) s1 else s1);
     (dir_ptr, s3) \<leftarrow> (if gap then put_short_entry cur2 shrt_name s2 else Some (0, s2));
     let s4 = (case new1 of None \<Rightarrow> s3 | Some c \<Rightarrow> write_fat_table c END_OF_CLUSTER s3);
     if gap then Some (dir_ptr, s4)
     else create_loop lfname shrt_name (cur2 + DIR_ENTRY_LEN) next' new1 k2 s4
   }"

definition create_file :: "u32 \<Rightarrow> u32 \<Rightarrow> u32 \<Rightarrow> fat32 \<Rightarrow> (u32 \<times> fat32) option" where
  "create_file lfname shrt_name clus s = create_loop lfname shrt_name (cluster_to_memory_addr s clus) clus None 0 s"

section \<open>Opening and closing\<close>

text \<open>Copies characters of the path until one of \<open>stops\<close> or until the array is full.\<close>

fun name_loop :: "nat \<Rightarrow> u8 set \<Rightarrow> u32 \<Rightarrow> u32 \<Rightarrow> u32 \<Rightarrow> mem \<Rightarrow> u32 \<times> u32 \<times> mem" where
  "name_loop 0 stops buf path len m = (path, len, m)"
| "name_loop (Suc k) stops buf path len m =
     (if m path \<in> stops then (path, len, m)
      else name_loop k stops buf (path + 1) (len + 1) (m(buf + len := m path)))"

partial_function (option) extn_loop :: "mem \<Rightarrow> u32 \<Rightarrow> u32 \<Rightarrow> u32 option" where
  "extn_loop m p n = (if m p \<noteq> DELIMITER \<and> m p \<noteq> 0 then extn_loop m (p + 1) (n + 1) else Some n)"

text \<open>The extension of a short name; a delimiter at the end of the path makes it read behind the path.\<close>

fun short_extn_loop :: "nat \<Rightarrow> u32 \<Rightarrow> u32 \<Rightarrow> u32 \<Rightarrow> mem \<Rightarrow> u32 \<times> u32 \<times> mem" where
  "short_extn_loop 0 buf path len m = (path, len, m)"
| "short_extn_loop (Suc k) buf path len m =
     (if m path = 0 \<or> m path = DELIMITER then (path, len, m)
      else let path1 = if m path = EXTN_DELIMITER then path + 1 else path
           in short_extn_loop k buf (path1 + 1) (len + 1) (m(buf + len := m path1)))"

record open_locals =
  path_ptr :: u32
  delim_strt :: u32
  name_len :: u32
  extn_len_cnt :: u32
  is_long_file_name :: bool
  is_file_found :: bool
  ent :: u32
  pwd :: u32
  dir_clus :: u32

definition free_entry :: "u32 \<Rightarrow> fat32 \<Rightarrow> fat32" where
  "free_entry e s = (if e \<noteq> 0 then sw_malloc_free e s else s)"

text \<open>One component of the path.\<close>

definition open_component :: "bool \<Rightarrow> open_locals \<times> fat32 \<Rightarrow> (open_locals \<times> fat32) option" where
  "open_component last_one = (\<lambda>(l, s). do {
     let buf = long_file_name s;
     let (start, p) = (if memory s (path_ptr l) = DELIMITER then (path_ptr l, path_ptr l + 1) else (delim_strt l, path_ptr l));
     let (p1, n, m1) = name_loop (LONG_FILE_NAME_LEN - unat (name_len l)) {EXTN_DELIMITER, 0, DELIMITER} buf p (name_len l) (memory s);
     extn \<leftarrow> (if m1 p1 = EXTN_DELIMITER then extn_loop m1 (p1 + 1) (extn_len_cnt l) else Some (extn_len_cnt l));
     let long = (is_long_file_name l \<or> n > 8 \<or> extn > 3);
     let (p2, n2, m2) =
       (if long
        then let (q, k, m) = name_loop LONG_FILE_NAME_LEN {0, DELIMITER} buf (if m1 start = DELIMITER then start + 1 else start) 0 m1
             in (q, k, m(buf + k := 0))
        else let (q, k, m) = short_extn_loop 3 buf p1 8 m1 in (q, k, convert_to_uppercase buf m));
     (found, e, s1) \<leftarrow> get_dir_entry buf True (pwd l) (dir_clus l) long (free_entry (ent l) (s\<lparr>memory := m2\<rparr>));
     let l1 = l\<lparr>path_ptr := p2, delim_strt := start, name_len := n2, extn_len_cnt := extn, is_long_file_name := long,
                is_file_found := found, ent := e\<rparr>;
     if found \<and> \<not> last_one
     then let c = strt_clus_of (memory s1) e
          in Some (l1\<lparr>dir_clus := c, pwd := cluster_to_memory_addr s1 c, name_len := 0, extn_len_cnt := 0, is_long_file_name := False\<rparr>,
                   on_mem (\<lambda>m. snd (sw_memset buf 0x20 (of_nat LONG_FILE_NAME_LEN)
                                     (snd (sw_memset (shrt_file_name s1) 0x20 (of_nat SHRT_FILE_NAME_LEN) m)))) s1)
     else Some (l1, s1)
   })"

fun open_loop :: "nat \<Rightarrow> open_locals \<times> fat32 \<Rightarrow> (open_locals \<times> fat32) option" where
  "open_loop 0 x = Some x"
| "open_loop (Suc n) x = do { y \<leftarrow> open_component (n = 0) x; open_loop n y }"

text \<open>The last component, up to eleven characters of the base name being kept.\<close>

fun base_loop :: "nat \<Rightarrow> u32 \<Rightarrow> u32 \<Rightarrow> u32 \<Rightarrow> u32 \<Rightarrow> mem \<Rightarrow> mem" where
  "base_loop 0 start stop sfname n m = m"
| "base_loop (Suc k) start stop sfname n m =
     (if m start = 0 then m
      else if m start = EXTN_DELIMITER \<and> start = stop then m
      else let start1 = if m start = EXTN_DELIMITER then start + 1 else start
           in base_loop k (start1 + 1) stop sfname (n + 1) (m(sfname + n := m start1)))"

partial_function (option) last_dot :: "mem \<Rightarrow> u32 \<Rightarrow> u32 \<Rightarrow> u32 option" where
  "last_dot m start stop = (if m stop \<noteq> EXTN_DELIMITER \<and> stop \<noteq> start then last_dot m start (stop - 1) else Some stop)"

fun dot_extn_loop :: "nat \<Rightarrow> u32 \<Rightarrow> u32 \<Rightarrow> u32 \<Rightarrow> u32 \<Rightarrow> mem \<Rightarrow> mem" where
  "dot_extn_loop 0 stop lfname sfname n m = m"
| "dot_extn_loop (Suc k) stop lfname sfname n m =
     (if m stop = DELIMITER \<or> m stop = 0 \<or> stop = lfname then m
      else let stop1 = if m stop = EXTN_DELIMITER then stop + 1 else stop
           in dot_extn_loop k (stop1 + 1) lfname sfname (n + 1) (m(sfname + n := m stop1)))"

definition get_short_file_name :: "u32 \<Rightarrow> u32 \<Rightarrow> u8 \<Rightarrow> mem \<Rightarrow> mem option" where
  "get_short_file_name lfname sfname seq_num m0 = do {
     let m = snd (sw_memset sfname 0x20 (of_nat SHRT_FILE_NAME_LEN) m0);
     z \<leftarrow> find_nul m lfname;
     stop \<leftarrow> last_dot m lfname z;
     Some (dot_extn_loop 3 stop lfname sfname 8 ((base_loop 6 lfname stop sfname 0 m)(sfname + 6 := TILDE, sfname + 7 := seq_num)))
   }"

text \<open>
  The second name that is tried, and every later one, ends in the constant \<open>'seq_num'\<close> cut to a
  character (the last letter).
\<close>

partial_function (option) unique_name :: "u32 \<Rightarrow> u32 \<Rightarrow> fat32 \<Rightarrow> fat32 option" where
  "unique_name dir clus s = do {
     (found, _, s1) \<leftarrow> get_dir_entry (shrt_file_name s) False dir clus False s;
     if \<not> found then Some s1
     else do { m \<leftarrow> get_short_file_name (long_file_name s1) (shrt_file_name s1) 0x6D (memory s1);
               unique_name dir clus (s1\<lparr>memory := m\<rparr>) }
   }"

fun chk_file_lock_loop :: "file_info list \<Rightarrow> u32 \<Rightarrow> mem \<Rightarrow> u32 option" where
  "chk_file_lock_loop [] p m = Some 0"
| "chk_file_lock_loop (f # fs) p m = do {
     c \<leftarrow> sw_strcmp (file_path f) p m;
     if c = 0 \<and> ucast (mode f) AND FILE_WRITE \<noteq> 0 then Some (- 1) else chk_file_lock_loop fs p m
   }"

definition chk_file_lock :: "u32 \<Rightarrow> fat32 \<Rightarrow> u32 option" where
  "chk_file_lock p s = chk_file_lock_loop (file_head s) p (memory s)"

definition retrieve_file_info :: "u32 \<Rightarrow> u8 \<Rightarrow> u32 \<Rightarrow> u32 \<Rightarrow> fat32 \<Rightarrow> (u32 \<times> fat32) option" where
  "retrieve_file_info e md dir_offset p s = do {
     n \<leftarrow> sw_strlen p (memory s);
     let (copy, s1) = sw_malloc s;
     nonnull copy;
     (_, m) \<leftarrow> sw_strcpy copy p (memory s1);
     nonnull e;
     let c = strt_clus_of m e;
     let f = \<lparr>fd = fdes s + 1, entry = e, file_path = copy, strt_cluster = c, cur_cluster = c, cur_offset = 0,
              file_size = read32 m (e + 28), mode = md, bytes_traversed = 0, dir_entry_offset = dir_offset\<rparr>;
     Some (fd f, s1\<lparr>memory := m, fdes := fd f, file_head := file_head s1 @ [f]\<rparr>)
   }"

definition add_file :: "u32 \<Rightarrow> u32 \<Rightarrow> u32 \<Rightarrow> fat32 \<Rightarrow> (u32 \<times> fat32) option" where
  "add_file e flags p s = do {
     let (info, s1) = sw_malloc s;
     nonnull info;
     retrieve_file_info e (ucast flags) (dir_file_offset s1) p s1
   }"

text \<open>What \<open>file_open\<close> does after the search.\<close>

definition finish_open :: "u32 \<Rightarrow> u32 \<Rightarrow> open_locals \<Rightarrow> fat32 \<Rightarrow> (u32 \<times> fat32) option" where
  "finish_open p flags l s =
     (if is_file_found l
      then if flags AND FILE_WRITE \<noteq> 0
           then do {
             lock \<leftarrow> chk_file_lock p s;
             nonnull (ent l);
             if memory s (ent l + 11) AND ATTR_READ \<noteq> 0 then Some (- 1, s)
             else add_file (ent l) (if lock = - 1 then FILE_READ else flags) p s
           }
           else add_file (ent l) flags p s
      else if flags AND (FILE_CREATE_NEW OR FILE_CREATE_ALWAYS OR FILE_WRITE) \<noteq> 0
      then if is_long_file_name l
           then do {
             m \<leftarrow> get_short_file_name (long_file_name s) (shrt_file_name s) 1 (memory s);
             s2 \<leftarrow> unique_name (pwd l) (dir_clus l) (s\<lparr>memory := m\<rparr>);
             (e, s3) \<leftarrow> create_file (long_file_name s2) (shrt_file_name s2) (dir_clus l) (on_mem (convert_to_uppercase (shrt_file_name s2)) s2);
             add_file e flags p s3
           }
           else do {
             (e, s2) \<leftarrow> create_file 0 (long_file_name s) (dir_clus l) s;
             add_file e flags p s2
           }
      else Some (- 1, s))"

text \<open>A path without a delimiter leaves \<open>is_file_found\<close> uninitialised.\<close>

definition file_open :: "u32 \<Rightarrow> u32 \<Rightarrow> fat32 \<Rightarrow> (u32 \<times> fat32) option" where
  "file_open p flags s = do {
     let s0 = on_mem (\<lambda>m. snd (sw_memset (long_file_name s) 0x20 (of_nat LONG_FILE_NAME_LEN) m)) s;
     delim_cnt \<leftarrow> find_depth (memory s0) p;
     (l, s1) \<leftarrow> open_loop delim_cnt
       (\<lparr>path_ptr = p, delim_strt = junk s0, name_len = 0, extn_len_cnt = 0, is_long_file_name = False, is_file_found = junk s0 \<noteq> 0,
         ent = 0, pwd = root_directory s0, dir_clus = rt_dir_strt_clus s0\<rparr>, s0);
     finish_open p flags l s1
   }"

text \<open>
  The place of the directory entry in the image is freed with every file but the first of the list. The
  record of the file itself, which is freed as well, has no address in the model.
\<close>

definition file_close :: "u32 \<Rightarrow> fat32 \<Rightarrow> u32 \<times> fat32" where
  "file_close d s =
     (case find (\<lambda>f. fd f = d) (file_head s) of
        None \<Rightarrow> (- 1, s)
      | Some f \<Rightarrow>
          let s1 = sw_malloc_free (entry f) (sw_malloc_free (file_path f) (s\<lparr>file_head := remove1 f (file_head s)\<rparr>))
          in if fd (hd (file_head s)) = d then (0, s1) else (0, sw_malloc_free (dir_entry_offset f) s1))"

section \<open>Reading and writing\<close>

definition file_of :: "u32 \<Rightarrow> fat32 \<Rightarrow> file_info option" where
  "file_of d s = find (\<lambda>f. fd f = d) (file_head s)"

fun set_file :: "file_info \<Rightarrow> file_info list \<Rightarrow> file_info list" where
  "set_file f [] = []"
| "set_file f (g # gs) = (if fd g = fd f then f # gs else g # set_file f gs)"

definition put_file :: "file_info \<Rightarrow> fat32 \<Rightarrow> fat32" where
  "put_file f s = s\<lparr>file_head := set_file f (file_head s)\<rparr>"

text \<open>How much is copied at once: the sizes are compared as unsigned numbers, the difference as a signed one.\<close>

definition chunk :: "u32 \<Rightarrow> u16 \<Rightarrow> u32 \<Rightarrow> u32" where
  "chunk csz off left =
     (let n = (if 0 < sint (csz - left) then left else csz)
      in if csz - ucast off > n then n else csz - ucast off)"

partial_function (option) read_loop :: "u32 \<Rightarrow> u32 \<Rightarrow> u32 \<Rightarrow> u32 \<Rightarrow> file_info \<Rightarrow> fat32 \<Rightarrow> (u32 \<times> file_info \<times> fat32) option" where
  "read_loop buffer tmp_bytes_cnt tmp_offset bytes_read f s =
     (if 0 < sint tmp_offset \<and> \<not> is_end (cur_cluster f)
      then if cluster_size s - ucast (cur_offset f) \<noteq> 0
           then let n = chunk (cluster_size s) (cur_offset f) (tmp_bytes_cnt - bytes_read);
                    file_cont = cluster_to_memory_addr s (cur_cluster f) + ucast (cur_offset f)
                in read_loop buffer tmp_bytes_cnt (tmp_offset - n) (bytes_read + n)
                     (f\<lparr>cur_offset := ucast (ucast (cur_offset f) + n)\<rparr>)
                     (on_mem (\<lambda>m. snd (sw_memcpy (buffer + bytes_read) file_cont n m)) s)
           else read_loop buffer tmp_bytes_cnt tmp_offset bytes_read
                  (f\<lparr>cur_cluster := get_fat_table_entry s (cur_cluster f), cur_offset := 0\<rparr>) s
      else Some (bytes_read, f, s))"

definition file_read :: "u32 \<Rightarrow> u32 \<Rightarrow> u32 \<Rightarrow> fat32 \<Rightarrow> (u32 \<times> fat32) option" where
  "file_read d buffer bytes_to_read s = do {
     f \<leftarrow> file_of d s;
     let left = file_size f - bytes_traversed f;
     let n = (if memory s (entry f + 11) \<noteq> ATTR_DIR then if bytes_to_read > left then left else bytes_to_read else bytes_to_read);
     (bytes_read, f1, s1) \<leftarrow> read_loop buffer n n 0 f s;
     Some (bytes_read, put_file (f1\<lparr>bytes_traversed := bytes_traversed f1 + bytes_read\<rparr>) s1)
   }"

record write_locals =
  prev_cluster :: u32
  new_cluster :: u32
  alloc_cluster_cnt :: nat

text \<open>
  The size and the first cluster are written through \<open>dir_file_offset\<close>, which belongs to the file
  that was opened last; the size through a pointer to a byte.
\<close>

partial_function (option) write_loop ::
  "u32 \<Rightarrow> u32 \<Rightarrow> u32 \<Rightarrow> u32 \<Rightarrow> write_locals \<Rightarrow> file_info \<Rightarrow> fat32 \<Rightarrow> (u32 \<times> write_locals \<times> file_info \<times> fat32) option" where
  "write_loop buffer bytes_to_write tmp_offset bytes_written l f s =
     (if 0 < sint tmp_offset
      then if cur_cluster f \<noteq> 0 \<and> \<not> is_end (cur_cluster f) \<and> cluster_size s - ucast (cur_offset f) \<noteq> 0
           then let n = chunk (cluster_size s) (cur_offset f) (bytes_to_write - bytes_written);
                    file_cont = cluster_to_memory_addr s (cur_cluster f) + ucast (cur_offset f);
                    s1 = on_mem (\<lambda>m. snd (sw_memcpy file_cont (buffer + bytes_written) n m)) s;
                    off = ucast (ucast (cur_offset f) + n) :: u16;
                    c = (if ucast off = cluster_size s then get_fat_table_entry s1 (cur_cluster f) else cur_cluster f)
                in write_loop buffer bytes_to_write (tmp_offset - n) (bytes_written + n) (l\<lparr>prev_cluster := cur_cluster f\<rparr>)
                     (f\<lparr>cur_cluster := c, cur_offset := if c \<noteq> 0 \<and> \<not> is_end c \<and> tmp_offset - n \<noteq> 0 then 0 else off\<rparr>) s1
           else do {
             (c, s1) \<leftarrow> allocate_cluster s;
             let first = (alloc_cluster_cnt l = 0 \<and> cur_cluster f = 0 \<and> strt_cluster f = 0);
             write_loop buffer bytes_to_write tmp_offset bytes_written
               (l\<lparr>new_cluster := c, alloc_cluster_cnt := alloc_cluster_cnt l + 1\<rparr>)
               (f\<lparr>strt_cluster := if first then c else strt_cluster f, cur_cluster := c, cur_offset := 0\<rparr>)
               (if first
                then on_mem (\<lambda>m. write16 (dir_file_offset s1 + 20) (ucast (drop_bit 16 c)) (write16 (dir_file_offset s1 + 26) (ucast c) m)) s1
                else write_fat_table (prev_cluster l) c s1)
           }
      else Some (bytes_written, l, f, s))"

definition file_write :: "u32 \<Rightarrow> u32 \<Rightarrow> u32 \<Rightarrow> fat32 \<Rightarrow> (u32 \<times> fat32) option" where
  "file_write d buffer bytes_to_write s = do {
     f \<leftarrow> file_of d s;
     if ucast (mode f) = FILE_READ then Some (0, s)
     else do {
       (n, l, f1, s1) \<leftarrow> write_loop buffer bytes_to_write bytes_to_write 0
          \<lparr>prev_cluster = junk s, new_cluster = junk s, alloc_cluster_cnt = 0\<rparr> f s;
       let grows = (file_size f1 < n);
       let s2 = (if grows then on_mem (\<lambda>m. m(dir_file_offset s1 + 28 := ucast n)) s1 else s1);
       let s3 = (if alloc_cluster_cnt l > 0 then write_fat_table (new_cluster l) END_OF_CLUSTER s2 else s2);
       Some (n, put_file (f1\<lparr>bytes_traversed := bytes_traversed f1 + n, file_size := if grows then n else file_size f1\<rparr>) s3)
     }
   }"

section \<open>Seeking\<close>

record seek_locals =
  seek_prev :: u32
  clus_cnt :: u32
  alloc_clus_cnt :: nat

text \<open>The first cluster that is allocated is not linked to the chain. \<open>c\<close> is the local \<open>cur_cluster\<close>.\<close>

partial_function (option) seek_loop ::
  "u32 \<Rightarrow> u32 \<Rightarrow> u32 \<Rightarrow> u32 \<Rightarrow> seek_locals \<Rightarrow> file_info \<Rightarrow> fat32 \<Rightarrow> (seek_locals \<times> file_info \<times> fat32) option" where
  "seek_loop offset tmp_off traversed c l f s =
     (if 0 < sint tmp_off
      then if cluster_size s - ucast (cur_offset f) \<noteq> 0 \<and> c \<noteq> 0
           then let n = chunk (cluster_size s) (cur_offset f) (offset - traversed);
                    off = ucast (ucast (cur_offset f) + n) :: u16;
                    c' = (if ucast off = cluster_size s then get_fat_table_entry s c else c)
                in seek_loop offset (tmp_off - n) (traversed + n) c'
                     (l\<lparr>seek_prev := c, clus_cnt := clus_cnt l + 1\<rparr>)
                     (f\<lparr>cur_cluster := c, cur_offset := if c' \<noteq> 0 \<and> \<not> is_end c' \<and> tmp_off - n \<noteq> 0 then 0 else off\<rparr>) s
           else if is_end c \<or> c = 0
           then do {
             (new, s1) \<leftarrow> allocate_cluster s;
             seek_loop offset tmp_off traversed new (l\<lparr>alloc_clus_cnt := alloc_clus_cnt l + 1\<rparr>) (f\<lparr>cur_offset := 0\<rparr>)
               (if alloc_clus_cnt l \<noteq> 0 then write_fat_table (seek_prev l) new s1 else s1)
           }
           else seek_loop offset tmp_off traversed c l (f\<lparr>cur_offset := 0\<rparr>) s
      else Some (l, f, s))"

definition get_seek_off :: "u32 \<Rightarrow> u32 \<Rightarrow> file_info \<Rightarrow> fat32 \<Rightarrow> (u32 \<times> file_info \<times> fat32) option" where
  "get_seek_off strt offset f s =
     (if offset + ucast (cur_offset f) < cluster_size s \<and> strt \<noteq> 0
      then let off = ucast (ucast (cur_offset f) + offset)
           in Some (ucast off, f\<lparr>cur_offset := off, cur_cluster := strt\<rparr>, s)
      else do {
        (l, f1, s1) \<leftarrow> seek_loop offset offset 0 strt \<lparr>seek_prev = junk s, clus_cnt = 0, alloc_clus_cnt = 0\<rparr> f s;
        Some ((clus_cnt l - 1) * cluster_size s1 + ucast (cur_offset f1), f1,
              if alloc_clus_cnt l > 0 then write_fat_table (cur_cluster f1) END_OF_CLUSTER s1 else s1)
      })"

text \<open>The last cluster of a chain and the number of its clusters.\<close>

partial_function (option) last_cluster :: "fat32 \<Rightarrow> u32 \<Rightarrow> u32 \<Rightarrow> u32 \<Rightarrow> (u32 \<times> u32) option" where
  "last_cluster s c cur n = (if is_end c then Some (cur, n) else last_cluster s (get_fat_table_entry s c) c (n + 1))"

text \<open>Any other \<open>whence\<close> leaves the result uninitialised.\<close>

definition file_seek :: "u32 \<Rightarrow> u32 \<Rightarrow> u32 \<Rightarrow> fat32 \<Rightarrow> (u32 \<times> fat32) option" where
  "file_seek d offset whence s = do {
     f \<leftarrow> file_of d s;
     if sint offset < 0 \<and> whence \<noteq> FILE_SEEK_CUR \<and> whence \<noteq> FILE_SEEK_END then Some (- 1, s)
     else do {
       let seek_mode = (if sint offset < 0 then FILE_SEEK_SET else whence);
       let tmp_off = (if sint offset < 0 then (if whence = FILE_SEEK_CUR then bytes_traversed f else file_size f) + offset else offset);
       (off_bytes, f1, s1) \<leftarrow>
         (if seek_mode = FILE_SEEK_SET then get_seek_off (strt_cluster f) tmp_off (f\<lparr>cur_offset := 0\<rparr>) s
          else if seek_mode = FILE_SEEK_CUR
          then do {
            (n, f1, s1) \<leftarrow> get_seek_off (cur_cluster f) tmp_off f s;
            Some (bytes_traversed f - ucast (cur_offset (if call_first s then f1 else f)) + n, f1, s1)
          }
          else if seek_mode = FILE_SEEK_END
          then do {
            (cur, n) \<leftarrow> last_cluster s (strt_cluster f) (cur_cluster f) 0;
            (k, f1, s1) \<leftarrow> get_seek_off cur tmp_off
              (f\<lparr>cur_cluster := cur, cur_offset := ucast (file_size f - cluster_size s * (n - 1))\<rparr>) s;
            Some (k + cluster_size s * (n - 1), f1, s1)
          }
          else Some (junk s, f, s));
       Some (off_bytes, put_file (f1\<lparr>bytes_traversed := off_bytes\<rparr>) s1)
     }
   }"

section \<open>Whole files\<close>

definition file_rename :: "u32 \<Rightarrow> u32 \<Rightarrow> fat32 \<Rightarrow> (u32 \<times> fat32) option" where
  "file_rename old new s = do {
     (fd_new, s1) \<leftarrow> file_open new FILE_READ s;
     if fd_new = - 1
     then do {
       (fd_old, s2) \<leftarrow> file_open old FILE_READ s1;
       (fd_new, s3) \<leftarrow> file_open new FILE_CREATE_NEW s2;
       f_old \<leftarrow> file_of fd_old s3;
       f_new \<leftarrow> file_of fd_new s3;
       let s4 = on_mem (\<lambda>m. snd (sw_memcpy (dir_entry_offset f_new + 11) (dir_entry_offset f_old + 11) 21 m)) s3;
       let s5 = on_mem (\<lambda>m. m(dir_entry_offset f_old := DEL_DIR_ENTRY)) s4;
       Some (0, snd (file_close fd_new (snd (file_close fd_old s5))))
     }
     else Some (- 1, s1)
   }"

text \<open>The test of \<open>create_dir\<close> is the wrong way round: it creates what exists.\<close>

definition create_dir :: "u32 \<Rightarrow> fat32 \<Rightarrow> (u32 \<times> fat32) option" where
  "create_dir p s = do {
     (d, s1) \<leftarrow> file_open p FILE_READ s;
     if d \<noteq> - 1 then file_open p FILE_CREATE_NEW s1 else Some (- 1, s1)
   }"

definition open_dir :: "u32 \<Rightarrow> fat32 \<Rightarrow> (u32 \<times> fat32) option" where
  "open_dir p = file_open p FILE_READ"

text \<open>The end of the list is reached through a null pointer.\<close>

fun file_at_path :: "file_info list \<Rightarrow> u32 \<Rightarrow> mem \<Rightarrow> file_info option" where
  "file_at_path [] p m = None"
| "file_at_path (f # fs) p m = do { c \<leftarrow> sw_strcmp (file_path f) p m; if c = 0 then Some f else file_at_path fs p m }"

definition file_unlink :: "u32 \<Rightarrow> fat32 \<Rightarrow> (u32 \<times> fat32) option" where
  "file_unlink p s =
     (if file_head s = [] then Some (- 1, s)
      else do {
        f \<leftarrow> file_at_path (file_head s) p (memory s);
        let (r, s1) = file_close (fd f) (on_mem (\<lambda>m. m(dir_entry_offset f := DEL_DIR_ENTRY)) s);
        Some (if r \<noteq> 0 then - 1 else 0, s1)
      })"

definition file_remove :: "u32 \<Rightarrow> fat32 \<Rightarrow> (u32 \<times> fat32) option" where
  "file_remove p s = do { (r, s1) \<leftarrow> file_unlink p s; Some (if r \<noteq> 0 then - 1 else 0, s1) }"

text \<open>
  The loop that appends zeros writes \<open>end_size\<close> bytes, then one byte less, and so on; each write
  starts at the array of 1024 zeros at \<open>buff\<close>. The second loop ends only when the length minus one
  cluster, cut to 16 bits, is at most a cluster.
\<close>

fun zero_loop :: "nat \<Rightarrow> u32 \<Rightarrow> u32 \<Rightarrow> u32 \<Rightarrow> fat32 \<Rightarrow> (u32 \<times> fat32) option" where
  "zero_loop 0 d buff wt_zo s = Some (wt_zo, s)"
| "zero_loop (Suc n) d buff wt_zo s = do {
     (k, s1) \<leftarrow> file_write d buff (of_nat (Suc n)) s;
     zero_loop n d buff (wt_zo + k) s1
   }"

partial_function (option) truncate_loop :: "u32 \<Rightarrow> u32 \<Rightarrow> u32 \<Rightarrow> u16 \<Rightarrow> fat32 \<Rightarrow> (u32 \<times> u16 \<times> fat32) option" where
  "truncate_loop tr_lgh prev_clstr new_clstr off s =
     (if ucast off > cluster_size s
      then do {
        (c, s1) \<leftarrow> allocate_cluster s;
        truncate_loop tr_lgh c c (ucast (tr_lgh - cluster_size s1)) (write_fat_table prev_clstr c s1)
      }
      else Some (new_clstr, off, s))"

definition file_truncate :: "u32 \<Rightarrow> u32 \<Rightarrow> u32 \<Rightarrow> fat32 \<Rightarrow> (u32 \<times> fat32) option" where
  "file_truncate buff p tr_lgh s' =
     (let s = on_mem (\<lambda>m. snd (sw_memset buff 0 1024 m)) s' in
      if file_head s = [] then Some (- 1, s)
      else do {
        f \<leftarrow> file_at_path (file_head s) p (memory s);
        let tr_addr = dir_entry_offset f + 28;
        if read32 (memory s) tr_addr = file_size f
        then do {
          let s0 = on_mem (write32 tr_addr tr_lgh) s;
          (failed, s1) \<leftarrow>
            (if tr_lgh > file_size f
             then do {
               (sk_ted, s1) \<leftarrow> file_seek (fd f) 0 FILE_SEEK_END s0;
               if sk_ted = - 1 then Some (True, s1)
               else do {
                 (wt_zo, s2) \<leftarrow> zero_loop (unat (tr_lgh - file_size f)) (fd f) buff 0 s1;
                 Some (False, s2)
               }
             }
             else Some (False, s0));
          if failed then Some (- 1, s1)
          else do {
            f1 \<leftarrow> file_of (fd f) s1;
            let prev_clstr = strt_cluster f1;
            (off, s2) \<leftarrow>
              (if tr_lgh = 0 then Some (0, write_fat_table prev_clstr 0 s1)
               else if tr_lgh > cluster_size s1
               then do {
                 (c, off, s2) \<leftarrow> truncate_loop tr_lgh prev_clstr (junk s1) (ucast tr_lgh) s1;
                 Some (off, write_fat_table c END_OF_CLUSTER s2)
               }
               else Some (ucast tr_lgh, write_fat_table prev_clstr END_OF_CLUSTER s1));
            Some (0, on_mem (write32 (entry f1 + 28) tr_lgh) (put_file (f1\<lparr>file_size := tr_lgh, cur_offset := off\<rparr>) s2))
          }
        }
        else Some (- 1, s)
      })"

end
