(* ===== verification/Fat32Read.thy ===== *)
theory Fat32Read
  imports Fat32
begin

text \<open>
  Reading, writing and seeking in an open file, against an abstract file: a list of bytes and a
  position. \<open>chain\<close> is the list of the clusters of a file, \<open>content\<close> the bytes in them.
\<close>

section \<open>Memory\<close>

definition bytes :: "mem \<Rightarrow> u32 \<Rightarrow> nat \<Rightarrow> u8 list" where
  "bytes m a n = map (\<lambda>i. m (a + of_nat i)) [0..<n]"

definition span :: "u32 \<Rightarrow> nat \<Rightarrow> u32 set" where
  "span a n = (\<lambda>i. a + of_nat i) ` {..<n}"

lemma bytes_length [simp]: "length (bytes m a n) = n"
  by (simp add: bytes_def)

lemma bytes_nth [simp]: "i < n \<Longrightarrow> bytes m a n ! i = m (a + of_nat i)"
  by (simp add: bytes_def)

lemma bytes_0 [simp]: "bytes m a 0 = []"
  by (simp add: bytes_def)

lemma bytes_add: "bytes m a (n + k) = bytes m a n @ bytes m (a + of_nat n) k"
  by (rule nth_equalityI) (auto simp: nth_append algebra_simps of_nat_diff)

lemma bytes_cong: "(\<And>x. x \<in> span a n \<Longrightarrow> m x = m' x) \<Longrightarrow> bytes m a n = bytes m' a n"
  by (rule nth_equalityI) (auto simp: span_def)

lemma span_add: "span a (n + k) = span a n \<union> span (a + of_nat n) k"
proof -
  have "{..<n + k} = {..<n} \<union> {n..<n + k}" by auto
  also have "{n..<n + k} = (+) n ` {..<k}" by (simp add: lessThan_atLeast0 add.commute [of n k])
  finally have "{..<n + k} = {..<n} \<union> (+) n ` {..<k}" .
  then show ?thesis by (simp add: span_def image_Un image_image algebra_simps)
qed

lemma copied_off: "x \<notin> span d n \<Longrightarrow> copied n d s m x = m x"
  by (auto simp: copied_def span_def offset_iff)

lemma copied_bytes: "n \<le> 2 ^ 32 \<Longrightarrow> bytes (copied n d s m) d n = bytes m s n"
  by (rule nth_equalityI) (auto simp: copied_at)

lemma disjoint_ranges: "disjoint n d s \<longleftrightarrow> span d n \<inter> span s n = {}"
  by (auto simp: disjoint_def span_def)

lemma memcpy_ranges: "span d (unat n) \<inter> span s (unat n) = {} \<Longrightarrow> snd (sw_memcpy d s n m) = copied (unat n) d s m"
  by (simp add: sw_memcpy_reference disjoint_ranges)

section \<open>Chunks\<close>

lemma sint_small: "n < 2 ^ 31 \<Longrightarrow> sint (of_nat n :: u32) = int n"
  by (simp add: signed_of_nat signed_take_bit_int_eq_self)

lemma sint_small_pos: "n < 2 ^ 31 \<Longrightarrow> 0 < sint (of_nat n :: u32) \<longleftrightarrow> 0 < n"
  by (simp add: sint_small)

lemma sint_diff: "a < 2 ^ 31 \<Longrightarrow> b < 2 ^ 31 \<Longrightarrow> sint (of_nat a - of_nat b :: u32) = int a - int b"
proof -
  assume ab: "a < 2 ^ 31" "b < 2 ^ 31"
  have "sint (of_int (int a - int b) :: u32) = int a - int b"
    unfolding signed_of_int using ab by (simp add: signed_take_bit_int_eq_self)
  then show ?thesis by simp
qed

lemma unat_lt_2p16: "unat (w::u16) < 65536"
  using unsigned_less [of w] by simp

lemma unat_u16: "unat (ucast (w::u16) :: u32) = unat w"
  using unat_lt_2p16 [of w] by (intro unat_ucast_small) simp

lemma chunk_size:
  assumes "unat csz = z" "z < 2 ^ 16" "unat off \<le> z" "left < 2 ^ 31"
  shows "unat (chunk csz off (of_nat left)) = min left (z - unat off)"
proof -
  have z: "csz = of_nat z" using assms(1) by (simp add: of_nat_unat_id flip: assms(1))
  have left: "unat (of_nat left :: u32) = left" using assms(4) by (intro unat_of_nat_lt) simp
  have rest: "unat (csz - ucast off) = z - unat off" using assms(1,3) by (subst unat_minus_le) (simp_all add: word_le_nat_alt unat_u16)
  have "0 < sint (csz - of_nat left) \<longleftrightarrow> left < z" unfolding z using assms(2,4) by (subst sint_diff) simp_all
  then show ?thesis using assms left rest by (auto simp: chunk_def word_less_nat_alt not_less)
qed

lemma next_offset:
  fixes off :: u16 and n :: u32
  assumes "unat off + unat n < 2 ^ 16"
  shows "unat (ucast (ucast off + n) :: u16) = unat off + unat n"
proof -
  have "unat (ucast off + n) = unat off + unat n" using assms by (subst unat_plus_lt) (simp_all add: unat_u16)
  with assms show ?thesis by (subst unat_ucast_small) simp_all
qed

section \<open>Files\<close>

definition csize :: "fat32 \<Rightarrow> nat" where
  "csize s = unat (cluster_size s)"

text \<open>
  Where the kernel keeps the bytes of a cluster: one sector after another from the root directory on, which it
  counts as cluster 2. By the layout of FAT32 the data region begins with cluster 2, every cluster takes
  \<open>cluster_size\<close> bytes, and the root directory is the cluster with the number \<open>rt_dir_strt_clus\<close>. The two are
  the same on volumes with one sector in each cluster whose root directory is cluster 2 (\<open>plain_volume\<close>).
\<close>

definition cluster_addr :: "fat32 \<Rightarrow> u32 \<Rightarrow> u32" where
  "cluster_addr s c = root_directory s + (c - 2) * ucast (sec_size s)"

definition data_region :: "fat32 \<Rightarrow> u32" where
  "data_region s = root_directory s - (rt_dir_strt_clus s - 2) * cluster_size s"

definition fat32_addr :: "fat32 \<Rightarrow> u32 \<Rightarrow> u32" where
  "fat32_addr s c = data_region s + (c - 2) * cluster_size s"

definition plain_volume :: "fat32 \<Rightarrow> bool" where
  "plain_volume s \<longleftrightarrow> cluster_size s = ucast (sec_size s) \<and> rt_dir_strt_clus s = 2"

lemma code_addr: "cluster_to_memory_addr s c = cluster_addr s c"
  by (simp add: cluster_to_memory_addr_def cluster_addr_def algebra_simps)

lemma plain_addr: "plain_volume s \<Longrightarrow> fat32_addr s c = cluster_addr s c"
  by (simp add: cluster_addr_def fat32_addr_def data_region_def plain_volume_def)

text \<open>
  The data region is where the boot sector puts it: behind the reserved sectors and the tables. With several
  sectors in a cluster the kernel finds every cluster but the second too early: cluster 3 in the second
  sector of cluster 2.
\<close>

lemma data_region_layout:
  assumes "cal_region_offsets dev s = Some s'" "plain_volume s'"
  shows "data_region s' = dev + (ucast (read16 (memory s) (dev + 14)) + ucast (memory s (dev + 16)) * read32 (memory s) (dev + 36)) * cluster_size s'"
  using assms by (auto simp: cal_region_offsets_def plain_volume_def data_region_def Let_def split: bind_splits if_splits)

theorem cluster_found_too_early:
  assumes "rt_dir_strt_clus s = 2" "cluster_size s = k * ucast (sec_size s)"
  shows "cluster_to_memory_addr s 3 = fat32_addr s 2 + ucast (sec_size s) \<and> fat32_addr s 3 = fat32_addr s 2 + k * ucast (sec_size s)"
  using assms by (simp add: cluster_to_memory_addr_def fat32_addr_def data_region_def)

definition cluster_bytes :: "fat32 \<Rightarrow> u32 \<Rightarrow> u8 list" where
  "cluster_bytes s c = bytes (memory s) (cluster_addr s c) (csize s)"

definition content :: "fat32 \<Rightarrow> u32 list \<Rightarrow> u8 list" where
  "content s cs = concat (map (cluster_bytes s) cs)"

definition fat32_content :: "fat32 \<Rightarrow> u32 list \<Rightarrow> u8 list" where
  "fat32_content s cs = concat (map (\<lambda>c. bytes (memory s) (fat32_addr s c) (csize s)) cs)"

lemma plain_content: "plain_volume s \<Longrightarrow> fat32_content s cs = content s cs"
  by (simp add: fat32_content_def content_def cluster_bytes_def plain_addr cong: map_cong)

text \<open>
  The table has four bytes for each cluster: the number of the next cluster of the file, or one of the two marks of an
  end that the code knows.
\<close>

definition fat_entry :: "fat32 \<Rightarrow> u32 \<Rightarrow> u32" where
  "fat_entry s c = read32 (memory s) (first_fat s + 4 * c)"

definition chain :: "fat32 \<Rightarrow> u32 list \<Rightarrow> bool" where
  "chain s cs \<longleftrightarrow> (\<forall>c\<in>set cs. c \<noteq> 0 \<and> c \<notin> {0x0FFFFFF8, 0x0FFFFFFF}) \<and>
     (\<forall>i. Suc i < length cs \<longrightarrow> fat_entry s (cs ! i) = cs ! Suc i) \<and>
     (cs \<noteq> [] \<longrightarrow> fat_entry s (last cs) \<in> {0x0FFFFFF8, 0x0FFFFFFF})"

lemma chain_code: "chain s cs \<longleftrightarrow> (\<forall>c\<in>set cs. c \<noteq> 0 \<and> \<not> is_end c) \<and>
     (\<forall>i. Suc i < length cs \<longrightarrow> get_fat_table_entry s (cs ! i) = cs ! Suc i) \<and>
     (cs \<noteq> [] \<longrightarrow> is_end (get_fat_table_entry s (last cs)))"
  by (auto simp: chain_def is_end_def fat_codes get_fat_table_entry_def fat_entry_def mult.commute)

text \<open>The addresses that reading the file looks at.\<close>

definition places :: "fat32 \<Rightarrow> u32 list \<Rightarrow> u32 set" where
  "places s cs = (\<Union>c\<in>set cs. span (cluster_addr s c) (csize s) \<union> span (first_fat s + c * 4) 4)"

definition at_pos :: "fat32 \<Rightarrow> u32 list \<Rightarrow> file_info \<Rightarrow> nat \<Rightarrow> bool" where
  "at_pos s cs f p \<longleftrightarrow> (\<exists>i<length cs. cur_cluster f = cs ! i \<and> unat (cur_offset f) \<le> csize s \<and> p = i * csize s + unat (cur_offset f))"

lemma csize_mem [simp]: "csize (s\<lparr>memory := m\<rparr>) = csize s"
  by (simp add: csize_def)

lemma addr_mem [simp]: "cluster_addr (s\<lparr>memory := m\<rparr>) c = cluster_addr s c" "plain_volume (s\<lparr>memory := m\<rparr>) = plain_volume s"
  by (simp_all add: cluster_addr_def plain_volume_def)

lemma places_mem [simp]: "places (s\<lparr>memory := m\<rparr>) cs = places s cs"
  by (simp add: places_def)

lemma at_pos_mem [simp]: "at_pos (s\<lparr>memory := m\<rparr>) cs f p = at_pos s cs f p"
  by (simp add: at_pos_def)

lemma span_4: "span a 4 = {a, a + 1, a + 2, a + 3}"
proof -
  have "{..<4 :: nat} = {0, 1, 2, 3}" by auto
  then show ?thesis by (simp add: span_def)
qed

lemma span_1: "span a 1 = {a}"
  by (simp add: span_def lessThan_Suc)

lemma write32_off: "x \<notin> span a 4 \<Longrightarrow> write32 a v m x = m x"
  by (simp add: write32_def span_4)

lemma read32_cong: "(\<And>x. x \<in> span a 4 \<Longrightarrow> m x = m' x) \<Longrightarrow> read32 m a = read32 m' a"
proof -
  assume h: "\<And>x. x \<in> span a 4 \<Longrightarrow> m x = m' x"
  have "{..<4 :: nat} = {0, 1, 2, 3}" by auto
  then have "span a 4 = {a, a + 1, a + 2, a + 3}" by (simp add: span_def)
  then show ?thesis using h by (simp add: read32_def)
qed

lemma fat_entry_frame:
  assumes "c \<in> set cs" "\<And>x. x \<in> places s cs \<Longrightarrow> m x = memory s x"
  shows "get_fat_table_entry (s\<lparr>memory := m\<rparr>) c = get_fat_table_entry s c"
  unfolding get_fat_table_entry_def using assms by (simp, intro read32_cong) (auto simp: places_def)

lemma content_frame:
  assumes "\<And>x. x \<in> places s cs \<Longrightarrow> m x = memory s x"
  shows "content (s\<lparr>memory := m\<rparr>) cs = content s cs"
proof -
  have "cluster_bytes (s\<lparr>memory := m\<rparr>) c = cluster_bytes s c" if "c \<in> set cs" for c
    unfolding cluster_bytes_def using assms that by (simp, intro bytes_cong) (auto simp: places_def)
  then show ?thesis by (simp add: content_def cong: map_cong)
qed

lemma chain_frame:
  assumes "\<And>x. x \<in> places s cs \<Longrightarrow> m x = memory s x"
  shows "chain (s\<lparr>memory := m\<rparr>) cs = chain s cs"
proof -
  have "get_fat_table_entry (s\<lparr>memory := m\<rparr>) c = get_fat_table_entry s c" if "c \<in> set cs" for c
    using that assms by (rule fat_entry_frame)
  then show ?thesis by (cases "cs = []") (auto simp: chain_code dest: Suc_lessD)
qed

lemma content_length [simp]: "length (content s cs) = length cs * csize s"
  by (induction cs) (simp_all add: content_def cluster_bytes_def)

lemma drop_content: "drop (i * csize s) (content s cs) = content s (drop i cs)"
proof (induction i arbitrary: cs)
  case (Suc i)
  show ?case
  proof (cases cs)
    case (Cons c ds)
    have "drop (Suc i * csize s) (content s cs) = drop (i * csize s) (drop (csize s) (content s cs))" by (simp add: add.commute)
    also have "drop (csize s) (content s cs) = content s ds" by (simp add: Cons content_def cluster_bytes_def)
    finally show ?thesis using Suc Cons by simp
  qed (simp add: content_def)
qed simp

lemma bytes_slice: "off + n \<le> z \<Longrightarrow> take n (drop off (bytes m a z)) = bytes m (a + of_nat off) n"
  by (rule nth_equalityI) (auto simp: algebra_simps)

lemma content_slice:
  assumes "i < length cs" "off + n \<le> csize s"
  shows "take n (drop (i * csize s + off) (content s cs)) = bytes (memory s) (cluster_addr s (cs ! i) + of_nat off) n"
proof -
  have "drop i cs = cs ! i # drop (Suc i) cs" using assms(1) by (rule Cons_nth_drop_Suc [symmetric])
  then have "drop (i * csize s) (content s cs) = cluster_bytes s (cs ! i) @ content s (drop (Suc i) cs)"
    by (simp add: drop_content) (simp add: content_def)
  then have "drop (i * csize s + off) (content s cs) = drop off (cluster_bytes s (cs ! i) @ content s (drop (Suc i) cs))"
    by (metis add.commute drop_drop)
  then show ?thesis using assms(2) by (simp add: cluster_bytes_def bytes_slice)
qed

section \<open>Reading\<close>

definition moved :: "file_info \<Rightarrow> file_info \<Rightarrow> bool" where
  "moved f f' \<longleftrightarrow> f'\<lparr>cur_cluster := 0, cur_offset := 0\<rparr> = f\<lparr>cur_cluster := 0, cur_offset := 0\<rparr>"

lemma moved_trans: "moved f g \<Longrightarrow> moved g h \<Longrightarrow> moved f h"
  by (simp add: moved_def)

lemma moved_upd [simp]: "moved f f" "moved f (f\<lparr>cur_offset := off\<rparr>)" "moved f (f\<lparr>cur_cluster := c, cur_offset := off\<rparr>)"
  "moved f (f\<lparr>cur_offset := off, cur_cluster := c\<rparr>)"
  by (simp_all add: moved_def)

lemma movedD:
  assumes "moved f f'"
  shows "fd f' = fd f" "entry f' = entry f" "file_path f' = file_path f" "strt_cluster f' = strt_cluster f" "file_size f' = file_size f"
    "mode f' = mode f" "bytes_traversed f' = bytes_traversed f" "dir_entry_offset f' = dir_entry_offset f"
  using assms by (cases f; cases f'; simp add: moved_def)+

lemma span_mono: "k + n \<le> N \<Longrightarrow> span (a + of_nat k) n \<subseteq> span a N"
  using span_add [of a k "N - k"] span_add [of "a + of_nat k" n "N - k - n"] by auto

lemma span_split: "k + n \<le> 2 ^ 32 \<Longrightarrow> span a k \<inter> span (a + of_nat k) n = {}"
proof -
  assume kn: "k + n \<le> 2 ^ 32"
  have "(of_nat i :: u32) \<noteq> of_nat (k + j)" if "i < k" "j < n" for i j
    using that kn by (subst of_nat_inj32) simp_all
  then show ?thesis by (auto simp: span_def algebra_simps)
qed

lemma span_range: "x \<in> span a n \<Longrightarrow> unat a + n \<le> 2 ^ 32 \<Longrightarrow> unat a \<le> unat x \<and> unat x < unat a + n"
  by (auto simp: span_def unat_plus_lt unat_of_nat_lt)

lemma span_apart: "unat a + n \<le> unat b \<or> unat b + k \<le> unat a \<Longrightarrow> unat a + n \<le> 2 ^ 32 \<Longrightarrow> unat b + k \<le> 2 ^ 32 \<Longrightarrow> span a n \<inter> span b k = {}"
  using span_range [of _ a n] span_range [of _ b k] by fastforce

text \<open>The state of a read: \<open>r\<close> of \<open>t\<close> bytes are left, \<open>m\<close> agrees with the first memory on the file.\<close>

definition reading :: "fat32 \<Rightarrow> u32 list \<Rightarrow> u32 \<Rightarrow> nat \<Rightarrow> nat \<Rightarrow> nat \<Rightarrow> file_info \<Rightarrow> mem \<Rightarrow> bool" where
  "reading s cs buffer t r p f m \<longleftrightarrow>
     chain s cs \<and> 0 < csize s \<and> csize s < 2 ^ 16 \<and> t < 2 ^ 31 \<and> r \<le> t \<and> at_pos s cs f p \<and> p + r \<le> length cs * csize s \<and>
     span buffer t \<inter> places s cs = {} \<and> (\<forall>x\<in>places s cs. m x = memory s x)"

lemma read_copy_step:
  assumes "reading s cs buffer t r p f m" "0 < r" "unat (cur_offset f) < csize s"
  obtains n where "0 < n" "n \<le> r"
    "read_loop buffer (of_nat t) (of_nat r) (of_nat (t - r)) f (s\<lparr>memory := m\<rparr>) =
       read_loop buffer (of_nat t) (of_nat (r - n)) (of_nat (t - (r - n)))
         (f\<lparr>cur_offset := cur_offset f + of_nat n\<rparr>)
         (s\<lparr>memory := copied n (buffer + of_nat (t - r)) (cluster_addr s (cur_cluster f) + of_nat (unat (cur_offset f))) m\<rparr>)"
    "at_pos s cs (f\<lparr>cur_offset := cur_offset f + of_nat n\<rparr>) (p + n)"
    "bytes m (cluster_addr s (cur_cluster f) + of_nat (unat (cur_offset f))) n = take n (drop p (content s cs))"
proof -
  obtain i where i: "i < length cs" "cur_cluster f = cs ! i" "p = i * csize s + unat (cur_offset f)"
    using assms(1) by (auto simp: reading_def at_pos_def)
  define n where "n = min r (csize s - unat (cur_offset f))"
  have bounds: "csize s < 2 ^ 16" "t < 2 ^ 31" "r \<le> t" using assms(1) by (simp_all add: reading_def)
  have n: "0 < n" "n \<le> r" "unat (cur_offset f) + n \<le> csize s" "n < 2 ^ 16" using assms(2,3) bounds by (auto simp: n_def)
  let ?src = "cluster_addr s (cur_cluster f) + of_nat (unat (cur_offset f))"
  let ?dst = "buffer + of_nat (t - r)"
  have left: "of_nat t - of_nat (t - r) = (of_nat r :: u32)" using bounds by (simp add: of_nat_diff)
  have un: "unat (of_nat n :: u32) = n" using n(4) by (intro unat_of_nat_lt) simp
  have "unat (chunk (cluster_size s) (cur_offset f) (of_nat r)) = n"
    unfolding n_def using bounds n(3) by (intro chunk_size) (simp_all add: csize_def)
  then have ch: "chunk (cluster_size s) (cur_offset f) (of_nat r) = of_nat n" using un by (simp add: unat_inject [symmetric])
  have "unat (cur_offset f + of_nat n) = unat (cur_offset f) + n"
  proof -
    have "unat (of_nat n :: u16) = n" using n(4) by (intro unat_of_nat_lt) simp
    then show ?thesis using n(3) bounds(1) by (subst unat_plus_lt) simp_all
  qed
  note off = this
  have off2: "ucast (ucast (cur_offset f) + of_nat n :: u32) = cur_offset f + of_nat n"
    using next_offset [of "cur_offset f" "of_nat n"] un off n(3) bounds(1) by (simp add: unat_inject [symmetric])
  have c_in: "cs ! i \<in> set cs" "\<not> is_end (cs ! i)" using assms(1) i(1) by (simp_all add: reading_def chain_code)
  have src: "span ?src n \<subseteq> places s cs"
    using span_mono [of "unat (cur_offset f)" n "csize s" "cluster_addr s (cs ! i)"] n(3) c_in(1) i(2) by (auto simp: places_def)
  have dst: "span ?dst n \<subseteq> span buffer t" using n(2) bounds(3) by (intro span_mono) simp
  have "span ?dst n \<inter> span ?src n = {}" using src dst assms(1) by (auto simp: reading_def)
  then have cp: "snd (sw_memcpy ?dst ?src (of_nat n) m) = copied n ?dst ?src m" using memcpy_ranges [of ?dst "of_nat n" ?src m] un by simp
  have "cluster_size s - ucast (cur_offset f) \<noteq> 0"
  proof
    assume "cluster_size s - ucast (cur_offset f) = 0"
    then have "cluster_size s = ucast (cur_offset f)" by simp
    then have "csize s = unat (cur_offset f)" by (simp add: csize_def unat_u16)
    with assms(3) show False by simp
  qed
  moreover have "cluster_to_memory_addr (s\<lparr>memory := m\<rparr>) (cs ! i) = cluster_addr s (cs ! i)"
    using assms(1) by (simp add: reading_def code_addr)
  ultimately have step: "read_loop buffer (of_nat t) (of_nat r) (of_nat (t - r)) f (s\<lparr>memory := m\<rparr>) =
      read_loop buffer (of_nat t) (of_nat r - of_nat n) (of_nat (t - r) + of_nat n) (f\<lparr>cur_offset := cur_offset f + of_nat n\<rparr>)
        (s\<lparr>memory := copied n ?dst ?src m\<rparr>)"
    using assms(2) bounds c_in(2) i(2) ch left cp off2
    by (subst read_loop.simps) (simp add: sint_small_pos on_mem_def Let_def of_nat_unat_id)
  have nums: "of_nat r - of_nat n = (of_nat (r - n) :: u32)" "of_nat (t - r) + of_nat n = (of_nat (t - (r - n)) :: u32)"
    using n(2) bounds(3) by (simp_all add: of_nat_diff)
  have pos: "at_pos s cs (f\<lparr>cur_offset := cur_offset f + of_nat n\<rparr>) (p + n)"
    unfolding at_pos_def using i off n(3) by (intro exI [of _ i]) simp
  have "bytes m ?src n = take n (drop p (content s cs))"
  proof -
    have "bytes m ?src n = bytes (memory s) ?src n" using src assms(1) by (intro bytes_cong) (auto simp: reading_def)
    then show ?thesis using content_slice [OF i(1) n(3)] i(2,3) by simp
  qed
  then show thesis by (rule that [OF n(1,2) step [unfolded nums] pos])
qed

lemma read_next_step:
  assumes "reading s cs buffer t r p f m" "0 < r" "unat (cur_offset f) = csize s"
  obtains c where "read_loop buffer (of_nat t) (of_nat r) (of_nat (t - r)) f (s\<lparr>memory := m\<rparr>) =
      read_loop buffer (of_nat t) (of_nat r) (of_nat (t - r)) (f\<lparr>cur_cluster := c, cur_offset := 0\<rparr>) (s\<lparr>memory := m\<rparr>)"
    "at_pos s cs (f\<lparr>cur_cluster := c, cur_offset := 0\<rparr>) p"
proof -
  obtain i where i: "i < length cs" "cur_cluster f = cs ! i" "p = i * csize s + unat (cur_offset f)"
    using assms(1) by (auto simp: reading_def at_pos_def)
  have "p + r \<le> length cs * csize s" using assms(1) by (simp add: reading_def)
  then have "Suc i * csize s < length cs * csize s" using i(3) assms(2,3) by simp
  then have next_i: "Suc i < length cs" by (metis mult_less_cancel2)
  have "unat (cluster_size s) = unat (ucast (cur_offset f) :: u32)" using assms(3) by (simp add: csize_def unat_u16)
  then have "cluster_size s - ucast (cur_offset f) = 0" by (simp add: unat_inject)
  moreover have "\<not> is_end (cs ! i)" using assms(1) i(1) by (simp add: reading_def chain_code)
  moreover have "get_fat_table_entry (s\<lparr>memory := m\<rparr>) (cs ! i) = cs ! Suc i"
    using assms(1) next_i by (subst fat_entry_frame [where cs=cs]) (auto simp: reading_def chain_code)
  moreover have "r < 2 ^ 31" using assms(1) by (simp add: reading_def)
  ultimately have "read_loop buffer (of_nat t) (of_nat r) (of_nat (t - r)) f (s\<lparr>memory := m\<rparr>) =
      read_loop buffer (of_nat t) (of_nat r) (of_nat (t - r)) (f\<lparr>cur_cluster := cs ! Suc i, cur_offset := 0\<rparr>) (s\<lparr>memory := m\<rparr>)"
    using assms(2) i(2) by (subst read_loop.simps) (simp add: sint_small_pos)
  moreover have "at_pos s cs (f\<lparr>cur_cluster := cs ! Suc i, cur_offset := 0\<rparr>) p"
    unfolding at_pos_def using next_i i(3) assms(3) by (intro exI [of _ "Suc i"]) simp
  ultimately show thesis by (rule that)
qed

lemma read_loop_exact:
  assumes "reading s cs buffer t r p f m"
  shows "\<exists>f' m'. read_loop buffer (of_nat t) (of_nat r) (of_nat (t - r)) f (s\<lparr>memory := m\<rparr>) = Some (of_nat t, f', s\<lparr>memory := m'\<rparr>) \<and>
    moved f f' \<and> at_pos s cs f' (p + r) \<and> bytes m' (buffer + of_nat (t - r)) r = take r (drop p (content s cs)) \<and>
    (\<forall>x. x \<notin> span (buffer + of_nat (t - r)) r \<longrightarrow> m' x = m x)"
  using assms
proof (induction "2 * r + (if unat (cur_offset f) = csize s then 1 else 0)" arbitrary: r p f m rule: less_induct)
  case less
  note R = less.prems
  have off: "unat (cur_offset f) \<le> csize s" "0 < csize s" using R by (auto simp: reading_def at_pos_def)
  consider "r = 0" | "0 < r" "unat (cur_offset f) = csize s" | "0 < r" "unat (cur_offset f) < csize s" using off(1) by linarith
  then show ?case
  proof cases
    case 1
    then have "read_loop buffer (of_nat t) (of_nat r) (of_nat (t - r)) f (s\<lparr>memory := m\<rparr>) = Some (of_nat t, f, s\<lparr>memory := m\<rparr>)"
      by (subst read_loop.simps) simp
    then show ?thesis using R 1 by (auto simp: reading_def)
  next
    case 2
    from read_next_step [OF R 2] obtain c where c:
      "read_loop buffer (of_nat t) (of_nat r) (of_nat (t - r)) f (s\<lparr>memory := m\<rparr>) =
         read_loop buffer (of_nat t) (of_nat r) (of_nat (t - r)) (f\<lparr>cur_cluster := c, cur_offset := 0\<rparr>) (s\<lparr>memory := m\<rparr>)"
      "at_pos s cs (f\<lparr>cur_cluster := c, cur_offset := 0\<rparr>) p" .
    have "reading s cs buffer t r p (f\<lparr>cur_cluster := c, cur_offset := 0\<rparr>) m" using R c(2) by (simp add: reading_def)
    from less.hyps [OF _ this] 2 off(2) obtain f' m' where "read_loop buffer (of_nat t) (of_nat r) (of_nat (t - r)) (f\<lparr>cur_cluster := c, cur_offset := 0\<rparr>) (s\<lparr>memory := m\<rparr>) = Some (of_nat t, f', s\<lparr>memory := m'\<rparr>)"
      "moved (f\<lparr>cur_cluster := c, cur_offset := 0\<rparr>) f'" "at_pos s cs f' (p + r)"
      "bytes m' (buffer + of_nat (t - r)) r = take r (drop p (content s cs))" "\<forall>x. x \<notin> span (buffer + of_nat (t - r)) r \<longrightarrow> m' x = m x"
      by auto
    then show ?thesis using c(1) moved_trans [OF moved_upd(3)] by metis
  next
    case 3
    let ?src = "cluster_addr s (cur_cluster f) + of_nat (unat (cur_offset f))" and ?dst = "buffer + of_nat (t - r) :: u32"
    from read_copy_step [OF R 3] obtain n where n: "0 < n" "n \<le> r"
      "read_loop buffer (of_nat t) (of_nat r) (of_nat (t - r)) f (s\<lparr>memory := m\<rparr>) =
         read_loop buffer (of_nat t) (of_nat (r - n)) (of_nat (t - (r - n))) (f\<lparr>cur_offset := cur_offset f + of_nat n\<rparr>)
           (s\<lparr>memory := copied n ?dst ?src m\<rparr>)"
      "at_pos s cs (f\<lparr>cur_offset := cur_offset f + of_nat n\<rparr>) (p + n)" "bytes m ?src n = take n (drop p (content s cs))" .
    have t: "r \<le> t" "t < 2 ^ 31" "n \<le> 2 ^ 32" using R n(2) by (auto simp: reading_def)
    have dst: "span ?dst n \<subseteq> span buffer t" using n(2) t by (intro span_mono) simp
    have "\<forall>x\<in>places s cs. copied n ?dst ?src m x = memory s x"
      using dst R by (auto simp: reading_def intro: trans [OF copied_off])
    then have next_reading: "reading s cs buffer t (r - n) (p + n) (f\<lparr>cur_offset := cur_offset f + of_nat n\<rparr>) (copied n ?dst ?src m)"
      using R n(2,4) t(1) by (simp add: reading_def)
    have "2 * (r - n) + (if unat (cur_offset (f\<lparr>cur_offset := cur_offset f + of_nat n\<rparr>)) = csize s then 1 else 0) <
        2 * r + (if unat (cur_offset f) = csize s then 1 else 0)"
      using n(1,2) by auto
    from less.hyps [OF this next_reading] obtain f' m' where fm:
      "read_loop buffer (of_nat t) (of_nat (r - n)) (of_nat (t - (r - n))) (f\<lparr>cur_offset := cur_offset f + of_nat n\<rparr>)
         (s\<lparr>memory := copied n ?dst ?src m\<rparr>) = Some (of_nat t, f', s\<lparr>memory := m'\<rparr>)"
      "moved (f\<lparr>cur_offset := cur_offset f + of_nat n\<rparr>) f'" "at_pos s cs f' (p + n + (r - n))"
      "bytes m' (buffer + of_nat (t - (r - n))) (r - n) = take (r - n) (drop (p + n) (content s cs))"
      "\<forall>x. x \<notin> span (buffer + of_nat (t - (r - n))) (r - n) \<longrightarrow> m' x = copied n ?dst ?src m x"
      by blast
    have at: "buffer + of_nat (t - (r - n)) = ?dst + of_nat n" using n(2) t(1) by (simp add: of_nat_diff algebra_simps)
    have apart: "span ?dst n \<inter> span (?dst + of_nat n) (r - n) = {}" using n(2) t by (intro span_split) simp
    have "bytes m' ?dst n = bytes (copied n ?dst ?src m) ?dst n" using fm(5) apart unfolding at by (intro bytes_cong) blast
    also have "\<dots> = take n (drop p (content s cs))" using copied_bytes [OF t(3)] n(5) by simp
    finally have "bytes m' ?dst (n + (r - n)) = take n (drop p (content s cs)) @ take (r - n) (drop (p + n) (content s cs))"
      using fm(4) unfolding at by (simp add: bytes_add)
    then have got: "bytes m' ?dst r = take r (drop p (content s cs))"
      using n(2) take_add [of n "r - n" "drop p (content s cs)"] by (simp add: add.commute)
    have "m' x = m x" if "x \<notin> span ?dst r" for x
    proof -
      have "x \<notin> span ?dst n" "x \<notin> span (?dst + of_nat n) (r - n)" using that n(2) span_add [of ?dst n "r - n"] by simp_all
      then show ?thesis using fm(5) unfolding at by (simp add: copied_off)
    qed
    then show ?thesis using n(2,3) fm(1,3) got moved_trans [OF moved_upd(2) fm(2)]
      by (intro exI [of _ f'] exI [of _ m']) simp
  qed
qed

section \<open>Handles\<close>

text \<open>File \<open>d\<close> is open and its clusters are \<open>cs\<close>; with \<open>handle\<close> its position is \<open>p\<close>.\<close>

definition opened :: "fat32 \<Rightarrow> u32 list \<Rightarrow> u32 \<Rightarrow> file_info \<Rightarrow> bool" where
  "opened s cs d f \<longleftrightarrow>
     file_of d s = Some f \<and> chain s cs \<and> cs \<noteq> [] \<and> 0 < csize s \<and> csize s < 2 ^ 16 \<and>
     unat (file_size f) \<le> length cs * csize s \<and> unat (file_size f) < 2 ^ 31 \<and>
     strt_cluster f = hd cs \<and> memory s (entry f + 11) \<noteq> ATTR_DIR"

definition handle :: "fat32 \<Rightarrow> u32 list \<Rightarrow> u32 \<Rightarrow> file_info \<Rightarrow> nat \<Rightarrow> bool" where
  "handle s cs d f p \<longleftrightarrow>
     opened s cs d f \<and> at_pos s cs f p \<and> unat (bytes_traversed f) = p \<and> p \<le> unat (file_size f)"

lemma set_file_find: "find (\<lambda>g. fd g = d) fs = Some f \<Longrightarrow> fd f' = d \<Longrightarrow> find (\<lambda>g. fd g = d) (set_file f' fs) = Some f'"
  by (induction fs) (auto split: if_splits)

lemma file_of_put: "file_of d s = Some f \<Longrightarrow> fd f' = d \<Longrightarrow> file_of d (put_file f' (s\<lparr>memory := m\<rparr>)) = Some f'"
  by (simp add: file_of_def put_file_def set_file_find)

lemma file_of_fd: "file_of d s = Some f \<Longrightarrow> fd f = d"
  by (auto simp: file_of_def find_Some_iff)

lemma put_file_simps [simp]:
  "memory (put_file f s) = memory s" "csize (put_file f s) = csize s" "cluster_size (put_file f s) = cluster_size s"
  "content (put_file f s) cs = content s cs" "chain (put_file f s) cs = chain s cs" "at_pos (put_file f s) cs g p = at_pos s cs g p"
  "places (put_file f s) cs = places s cs" "plain_volume (put_file f s) = plain_volume s"
proof -
  show "plain_volume (put_file f s) = plain_volume s" by (simp add: plain_volume_def put_file_def)
  have [simp]: "cluster_addr (put_file f s) c = cluster_addr s c" "get_fat_table_entry (put_file f s) c = get_fat_table_entry s c" for c
    by (simp_all add: put_file_def cluster_addr_def get_fat_table_entry_def)
  show "memory (put_file f s) = memory s" "cluster_size (put_file f s) = cluster_size s" by (simp_all add: put_file_def)
  then show c: "csize (put_file f s) = csize s" by (simp add: csize_def)
  have "first_fat (put_file f s) = first_fat s" by (simp add: put_file_def)
  with c show "content (put_file f s) cs = content s cs" "chain (put_file f s) cs = chain s cs"
      "at_pos (put_file f s) cs g p = at_pos s cs g p" "places (put_file f s) cs = places s cs"
    by (simp_all add: content_def cluster_bytes_def chain_code at_pos_def places_def \<open>memory (put_file f s) = memory s\<close> cong: map_cong)
qed

lemma at_pos_traversed [simp]: "at_pos s cs (f\<lparr>bytes_traversed := b\<rparr>) p = at_pos s cs f p"
  by (simp add: at_pos_def)

lemma file_read_handle:
  assumes h: "handle s cs d f p" and n: "n < 2 ^ 31"
    and apart: "span buffer n \<inter> places s cs = {}" "entry f + 11 \<notin> span buffer n" and k: "k = min n (unat (file_size f) - p)"
  shows "\<exists>f' m'. file_read d buffer (of_nat n) s = Some (of_nat k, put_file f' (s\<lparr>memory := m'\<rparr>)) \<and>
    handle (put_file f' (s\<lparr>memory := m'\<rparr>)) cs d f' (p + k) \<and> file_size f' = file_size f \<and> entry f' = entry f \<and>
    bytes m' buffer k = take k (drop p (content s cs)) \<and> (\<forall>x. x \<notin> span buffer k \<longrightarrow> m' x = memory s x)"
proof -
  note H = h [unfolded handle_def opened_def]
  have left: "unat (file_size f - bytes_traversed f) = unat (file_size f) - p" using H by (subst unat_minus_le) (auto simp: word_le_nat_alt)
  have un: "unat (of_nat n :: u32) = n" using n by (intro unat_of_nat_lt) simp
  have uk: "unat (of_nat k :: u32) = k" using n k by (intro unat_of_nat_lt) simp
  have "(if of_nat n > file_size f - bytes_traversed f then file_size f - bytes_traversed f else of_nat n) = (of_nat k :: u32)"
    using left un uk k by (auto simp: word_less_nat_alt unat_inject [symmetric])
  then have "file_read d buffer (of_nat n) s =
      (case read_loop buffer (of_nat k) (of_nat k) 0 f s of None \<Rightarrow> None
       | Some (r, f1, s1) \<Rightarrow> Some (r, put_file (f1\<lparr>bytes_traversed := bytes_traversed f1 + r\<rparr>) s1))"
    using H by (simp add: file_read_def Let_def split: option.splits)
  note step = this
  have sub: "span buffer k \<subseteq> span buffer n" using span_mono [of 0 k n buffer] k by simp
  have "reading s cs buffer k k p f (memory s)"
    using H apart(1) sub n k by (auto simp: reading_def)
  from read_loop_exact [OF this] obtain f' m' where fm: "read_loop buffer (of_nat k) (of_nat k) 0 f s = Some (of_nat k, f', s\<lparr>memory := m'\<rparr>)"
      "moved f f'" "at_pos s cs f' (p + k)" "bytes m' buffer k = take k (drop p (content s cs))" "\<forall>x. x \<notin> span buffer k \<longrightarrow> m' x = memory s x"
    by auto
  let ?f = "f'\<lparr>bytes_traversed := bytes_traversed f' + of_nat k\<rparr>"
  have pk: "p + k \<le> unat (file_size f)" using H k by auto
  have "unat (bytes_traversed f + of_nat k) = p + k" using H uk pk by (subst unat_plus_lt) auto
  moreover have "chain (s\<lparr>memory := m'\<rparr>) cs" using H fm(5) apart(1) sub by (subst chain_frame) auto
  moreover have "m' (entry f + 11) \<noteq> ATTR_DIR" using H fm(5) apart(2) sub by auto
  moreover have "file_of d (put_file ?f (s\<lparr>memory := m'\<rparr>)) = Some ?f"
    using H movedD [OF fm(2)] file_of_fd [of d s f] by (intro file_of_put [where f=f]) auto
  ultimately have "handle (put_file ?f (s\<lparr>memory := m'\<rparr>)) cs d ?f (p + k)"
    using H fm(3) movedD [OF fm(2)] pk by (simp add: handle_def opened_def)
  then show ?thesis using step fm movedD [OF fm(2)] by (intro exI [of _ ?f] exI [of _ m']) simp
qed

text \<open>
  C27. Reading from an open file copies the bytes that its clusters hold (\<open>content\<close>: \<open>cluster_size\<close> bytes for each, from
  the sector on that the kernel counts for it) from the position on, as many as are asked for and the file has left,
  moves the position behind them and changes nothing but the buffer, which must lie outside of these clusters, of
  their entries in the table, and of the directory entry of the file. On a volume with one sector in each cluster whose
  root directory is cluster 2 these are the bytes of the file by the layout of FAT32; with several sectors in a cluster
  they are not (\<open>cluster_found_too_early\<close>).
\<close>

theorem file_read_exact:
  assumes "handle s cs d f p" "n < 2 ^ 31" "span buffer n \<inter> places s cs = {}" "entry f + 11 \<notin> span buffer n"
    and "k = min n (unat (file_size f) - p)"
  shows "\<exists>f' s'. file_read d buffer (of_nat n) s = Some (of_nat k, s') \<and> handle s' cs d f' (p + k) \<and>
    bytes (memory s') buffer k = take k (drop p (content s cs)) \<and> content s' cs = content s cs \<and>
    (plain_volume s \<longrightarrow> bytes (memory s') buffer k = take k (drop p (fat32_content s cs))) \<and>
    (\<forall>x. x \<notin> span buffer k \<longrightarrow> memory s' x = memory s x)"
proof -
  obtain f' m' where fm: "file_read d buffer (of_nat n) s = Some (of_nat k, put_file f' (s\<lparr>memory := m'\<rparr>))"
      "handle (put_file f' (s\<lparr>memory := m'\<rparr>)) cs d f' (p + k)" "bytes m' buffer k = take k (drop p (content s cs))"
      "\<forall>x. x \<notin> span buffer k \<longrightarrow> m' x = memory s x"
    using file_read_handle [OF assms] by blast
  have "span buffer k \<subseteq> span buffer n" using span_mono [of 0 k n buffer] assms(5) by simp
  then have "content (s\<lparr>memory := m'\<rparr>) cs = content s cs" using fm(4) assms(3) by (intro content_frame) auto
  with fm show ?thesis by (intro exI [of _ f'] exI [of _ "put_file f' (s\<lparr>memory := m'\<rparr>)"]) (simp add: plain_content)
qed

text \<open>A small disk: clusters 2 and 3 of four bytes hold the numbers from 1 to 8, a file has some of them.\<close>

definition sample_mem :: mem where
  "sample_mem = (\<lambda>_. 0)(0x108 := 3, 0x10C := 0xFF, 0x10D := 0xFF, 0x10E := 0xFF, 0x10F := 0x0F,
     0x200 := 1, 0x201 := 2, 0x202 := 3, 0x203 := 4, 0x204 := 5, 0x205 := 6, 0x206 := 7, 0x207 := 8,
     0x600 := 9, 0x601 := 10, 0x602 := 11, 0x603 := 12, 0x604 := 13)"

definition sample_file :: "u32 \<Rightarrow> file_info" where
  "sample_file n = \<lparr>fd = 3, entry = 0x300, file_path = 0x340, strt_cluster = 2, cur_cluster = 2, cur_offset = 0, file_size = n,
     mode = 2, bytes_traversed = 0, dir_entry_offset = 0x380\<rparr>"

definition sample :: "u32 \<Rightarrow> fat32" where
  "sample n = \<lparr>memory = sample_mem, blocks = [], freed = [], bs_sector = 0, fs_infosector = 0, backup_boot_sector = 0, first_fat = 0x100,
     second_fat = 0, root_directory = 0x200, sec_size = 4, cluster_size = 4, root_dir_size = 0, rt_dir_entry_cnt = 0, rt_dir_strt_clus = 2,
     nxt_free_cluster = 3, dir_file_offset = 0x380, file_head = [sample_file n], fdes = 3, long_file_name = 0, shrt_file_name = 0, temp_lfn = 0,
     junk = 0, increment_survives = False, call_first = False\<rparr>"

lemma sample_places: "places (sample n) [2, 3] = {0x200..<0x208} \<union> {0x108..<0x110}"
proof -
  have 4: "{..<4 :: nat} = {0, 1, 2, 3}" by auto
  have "{0x200..<0x208} = {0x200, 0x201, 0x202, 0x203, 0x204, 0x205, 0x206, 0x207 :: u32}"
    "{0x108..<0x110} = {0x108, 0x109, 0x10A, 0x10B, 0x10C, 0x10D, 0x10E, 0x10F :: u32}"
    by (auto simp: word_le_nat_alt word_less_nat_alt unat_inject [symmetric])
  then show ?thesis
    by (simp add: places_def span_def sample_def cluster_addr_def csize_def 4) auto
qed

lemma sample_chain: "chain (sample n) [2, 3]"
  by (auto simp: chain_code sample_def get_fat_table_entry_def read32_def sample_mem_def is_end_def fat_codes less_Suc_eq)

lemma sample_content: "content (sample n) [2, 3] = [1, 2, 3, 4, 5, 6, 7, 8]"
  by (simp add: content_def cluster_bytes_def bytes_def sample_def sample_mem_def cluster_addr_def csize_def upt_rec)

lemma sample_handle: "unat n \<le> 8 \<Longrightarrow> handle (sample n) [2, 3] 3 (sample_file n) 0"
  using sample_chain [of n]
  by (simp add: handle_def opened_def at_pos_def sample_file_def)
    (auto simp: sample_def sample_file_def file_of_def csize_def sample_mem_def ATTR_DIR_def)

theorem file_read_exact_witness:
  "\<exists>s'. file_read 3 0x400 7 (sample 6) = Some (6, s') \<and> bytes (memory s') 0x400 6 = [1, 2, 3, 4, 5, 6] \<and>
     plain_volume (sample 6) \<and> take 6 (fat32_content (sample 6) [2, 3]) = [1, 2, 3, 4, 5, 6]"
proof -
  have "{..<7 :: nat} = {0, 1, 2, 3, 4, 5, 6}" by auto
  then have apart: "span 0x400 7 \<inter> places (sample 6) [2, 3] = {}" "entry (sample_file 6) + 11 \<notin> span 0x400 7"
    by (simp_all add: sample_places span_def sample_file_def)
  have "handle (sample 6) [2, 3] 3 (sample_file 6) 0" by (rule sample_handle) simp
  from file_read_exact [OF this _ apart, where k=6] obtain s' where
    "file_read 3 0x400 7 (sample 6) = Some (6, s')" "bytes (memory s') 0x400 6 = take 6 (drop 0 (content (sample 6) [2, 3]))"
    by (auto simp: sample_file_def)
  moreover have "plain_volume (sample 6)" by (simp add: sample_def plain_volume_def)
  ultimately show ?thesis by (simp add: plain_content sample_content)
qed

section \<open>Seeking\<close>

lemma cs_geometry: "cluster_size s = of_nat (csize s)"
  by (simp add: csize_def of_nat_unat_id)

lemma seek_step:
  assumes "0 < sint T" "c \<noteq> 0" "cluster_size s - ucast (cur_offset f) \<noteq> 0" "chunk (cluster_size s) (cur_offset f) (Q - P) = N"
    "off = ucast (ucast (cur_offset f) + N)" "c' = (if ucast off = cluster_size s then get_fat_table_entry s c else c)"
  shows "seek_loop Q T P c l f s = seek_loop Q (T - N) (P + N) c' (l\<lparr>seek_prev := c, clus_cnt := clus_cnt l + 1\<rparr>)
    (f\<lparr>cur_cluster := c, cur_offset := if c' \<noteq> 0 \<and> \<not> is_end c' \<and> T - N \<noteq> 0 then 0 else off\<rparr>) s"
  using assms by (subst seek_loop.simps) (simp add: Let_def)

text \<open>The loop of a seek from the start of cluster number \<open>i\<close>.\<close>

lemma seek_loop_exact:
  assumes "chain s cs" "0 < csize s" "csize s < 2 ^ 16" "q < 2 ^ 31" "q \<le> length cs * csize s" "i * csize s < q"
    "cur_offset f = 0" "alloc_clus_cnt l = 0" "unat (clus_cnt l) = i"
  shows "\<exists>l' f' j. seek_loop (of_nat q) (of_nat (q - i * csize s)) (of_nat (i * csize s)) (cs ! i) l f s = Some (l', f', s) \<and>
    alloc_clus_cnt l' = 0 \<and> moved f f' \<and> j < length cs \<and> cur_cluster f' = cs ! j \<and> unat (clus_cnt l') = j + 1 \<and>
    unat (cur_offset f') \<le> csize s \<and> q = j * csize s + unat (cur_offset f')"
  using assms(6-9)
proof (induction "q - i * csize s" arbitrary: i f l rule: less_induct)
  case less
  define z where "z = csize s"
  have z: "0 < z" "z < 2 ^ 16" "cluster_size s = of_nat z" "unat (of_nat z :: u32) = z" "i * z < q"
    using assms(2,3) less.prems(1) by (simp_all add: z_def flip: cs_geometry) (simp_all add: csize_def)
  have i: "i < length cs" using assms(5) z(5) unfolding z_def [symmetric] by (metis less_le_trans mult_less_cancel2)
  have c: "cs ! i \<noteq> 0" "\<not> is_end (cs ! i)" using assms(1) i by (simp_all add: chain_code)
  define n where "n = min (q - i * z) z"
  have n: "0 < n" "n \<le> z" "n \<le> q - i * z" "n < 2 ^ 31" using z assms(4) by (auto simp: n_def)
  have left: "of_nat q - of_nat (i * z) = (of_nat (q - i * z) :: u32)" using z(5) by (simp add: of_nat_diff)
  have un: "unat (of_nat n :: u32) = n" using n(4) by (intro unat_of_nat_lt) simp
  have "unat (chunk (cluster_size s) 0 (of_nat (q - i * z))) = n"
    unfolding n_def using z(2) assms(4) by (subst chunk_size [where z=z]) (simp_all add: z_def csize_def)
  then have ch: "chunk (cluster_size s) (cur_offset f) (of_nat (q - i * z)) = of_nat n"
    unfolding less.prems(2) using un by (metis unat_inject)
  have un16: "unat (of_nat n :: u16) = n" using n(2) z(2) by (intro unat_of_nat_lt) simp
  have off: "ucast (of_nat n :: u32) = (of_nat n :: u16)"
    using un un16 n(2) z(2) by (simp add: unat_inject [symmetric] unat_ucast_small)
  have full: "(ucast (of_nat n :: u16) :: u32) = of_nat z \<longleftrightarrow> n = z"
    using un16 z(4) by (simp add: unat_inject [symmetric] unat_u16)
  have sub: "of_nat (q - i * z) - of_nat n = (of_nat (q - i * z - n) :: u32)" using n(3) by (rule of_nat_diff [symmetric])
  have rest: "(of_nat (q - i * z - n) :: u32) = 0 \<longleftrightarrow> n = q - i * z"
  proof -
    have "unat (of_nat (q - i * z - n) :: u32) = q - i * z - n" using assms(4) by (intro unat_of_nat_lt) simp
    then show ?thesis using n(3) by (auto simp: unat_inject [symmetric])
  qed
  have nz: "(of_nat z :: u32) \<noteq> 0" using z(1,4) by (metis less_numeral_extra(3) unsigned_0)
  let ?c' = "if n = z then get_fat_table_entry s (cs ! i) else cs ! i"
  let ?l = "l\<lparr>seek_prev := cs ! i, clus_cnt := clus_cnt l + 1\<rparr>"
  let ?f = "f\<lparr>cur_cluster := cs ! i, cur_offset := if ?c' \<noteq> 0 \<and> \<not> is_end ?c' \<and> n \<noteq> q - i * z then 0 else of_nat n\<rparr>"
  have "0 < sint (of_nat (q - i * z) :: u32)" using z(5) assms(4) by (subst sint_small_pos) simp_all
  then have step: "seek_loop (of_nat q) (of_nat (q - i * z)) (of_nat (i * z)) (cs ! i) l f s =
      seek_loop (of_nat q) (of_nat (q - i * z - n)) (of_nat (i * z) + of_nat n) ?c' ?l ?f s"
    by (subst seek_step [where N="of_nat n" and off="of_nat n" and c'="?c'"])
      (use c nz ch in \<open>simp_all only: left off full sub rest less.prems(2) z(3) unsigned_0 add_0_left diff_zero not_False_eq_True refl\<close>)
  have "i < 2 ^ 31"
  proof -
    have "i \<le> i * z" using z(1) by simp
    with z(5) assms(4) show ?thesis by linarith
  qed
  then have cnt: "unat (clus_cnt ?l) = i + 1" using less.prems(4) by (simp add: unat_plus_lt)
  show ?case
  proof (cases "n = q - i * z")
    case True
    then have "seek_loop (of_nat q) (of_nat (q - i * z)) (of_nat (i * z)) (cs ! i) l f s = Some (?l, ?f, s)"
      unfolding step by (subst seek_loop.simps) simp
    then show ?thesis using True i z less.prems(3) cnt n un16 unfolding z_def [symmetric]
      by (intro exI [of _ ?l] exI [of _ ?f] exI [of _ i]) simp
  next
    case False
    then have nz: "n = z" "(i + 1) * z < q" using n(3) z(5) by (auto simp: n_def)
    then have i1: "i + 1 < length cs" using assms(5) unfolding z_def [symmetric] by (metis less_le_trans mult_less_cancel2)
    then have c': "get_fat_table_entry s (cs ! i) = cs ! (i + 1)" "cs ! (i + 1) \<noteq> 0" "\<not> is_end (cs ! (i + 1))"
      using assms(1) by (simp_all add: chain_code)
    have nums: "q - i * z - n = q - (i + 1) * z" "of_nat (i * z) + of_nat n = (of_nat ((i + 1) * z) :: u32)"
      using nz by (simp_all add: algebra_simps)
    have f: "?c' = cs ! (i + 1)" "(if cs ! (i + 1) \<noteq> 0 \<and> \<not> is_end (cs ! (i + 1)) \<and> n \<noteq> q - i * z then 0 else of_nat n) = (0 :: u16)"
      using nz False c' by simp_all
    have "q - (i + 1) * z < q - i * z" using z(1,5) by simp
    moreover have "cur_offset (f\<lparr>cur_cluster := cs ! i, cur_offset := 0\<rparr>) = 0" "alloc_clus_cnt ?l = 0" using less.prems(3) by simp_all
    ultimately obtain l' f' j where
      "seek_loop (of_nat q) (of_nat (q - (i + 1) * z)) (of_nat ((i + 1) * z)) (cs ! (i + 1)) ?l (f\<lparr>cur_cluster := cs ! i, cur_offset := 0\<rparr>) s =
        Some (l', f', s)"
      "alloc_clus_cnt l' = 0" "moved (f\<lparr>cur_cluster := cs ! i, cur_offset := 0\<rparr>) f'" "j < length cs" "cur_cluster f' = cs ! j"
      "unat (clus_cnt l') = j + 1" "unat (cur_offset f') \<le> z" "q = j * z + unat (cur_offset f')"
      using less.hyps [of "i + 1" "f\<lparr>cur_cluster := cs ! i, cur_offset := 0\<rparr>" ?l] nz(2) cnt unfolding z_def [symmetric] by blast
    then show ?thesis unfolding z_def [symmetric] step nums f
      using moved_trans [OF moved_upd(3)] by blast
  qed
qed

lemma put_file_mem: "put_file f s = put_file f (s\<lparr>memory := memory s\<rparr>)"
  by simp

lemma of_nat_less_u32: "a < 2 ^ 32 \<Longrightarrow> b < 2 ^ 32 \<Longrightarrow> (of_nat a :: u32) < of_nat b \<longleftrightarrow> a < b"
  by (simp add: word_less_nat_alt unat_of_nat_lt)

lemma get_seek_off_set:
  assumes "chain s cs" "cs \<noteq> []" "0 < csize s" "csize s < 2 ^ 16" "q < 2 ^ 31" "q \<le> length cs * csize s" "cur_offset f = 0"
  shows "\<exists>f'. get_seek_off (hd cs) (of_nat q) f s = Some (of_nat q, f', s) \<and> moved f f' \<and> at_pos s cs f' q"
proof (cases "q < csize s")
  case True
  have hd: "hd cs = cs ! 0" "hd cs \<noteq> 0" using assms(1,2) by (simp_all add: hd_conv_nth chain_code)
  have "unat (ucast (of_nat q :: u32) :: u16) = q" using True assms(4,5) by (simp add: unat_ucast_small unat_of_nat_lt)
  moreover from this have "(ucast (ucast (of_nat q :: u32) :: u16) :: u32) = of_nat q"
    using assms(5) by (metis unat_u16 of_nat_unat_id)
  moreover have "(of_nat q :: u32) < cluster_size s"
    using True assms(4) by (subst cs_geometry) (simp add: of_nat_less_u32)
  ultimately show ?thesis using hd assms(2,7) True by (auto simp: get_seek_off_def at_pos_def)
next
  case False
  obtain l' f' j where L: "seek_loop (of_nat q) (of_nat q) 0 (hd cs) \<lparr>seek_prev = junk s, clus_cnt = 0, alloc_clus_cnt = 0\<rparr> f s = Some (l', f', s)"
      "alloc_clus_cnt l' = 0" "moved f f'" "j < length cs" "cur_cluster f' = cs ! j" "unat (clus_cnt l') = j + 1"
      "unat (cur_offset f') \<le> csize s" "q = j * csize s + unat (cur_offset f')"
    using seek_loop_exact [OF assms(1,3-6), of 0 f "\<lparr>seek_prev = junk s, clus_cnt = 0, alloc_clus_cnt = 0\<rparr>"] False assms(2,3,7)
    by (auto simp: hd_conv_nth)
  have "clus_cnt l' = of_nat (j + 1)" using L(6) by (metis of_nat_unat_id)
  then have "(clus_cnt l' - 1) * cluster_size s + ucast (cur_offset f') = of_nat (j * csize s + unat (cur_offset f'))"
    by (subst cs_geometry) (simp add: of_nat_unat_id)
  moreover have "\<not> (of_nat q :: u32) < cluster_size s"
    using False assms(4,5) by (subst cs_geometry) (simp add: of_nat_less_u32)
  moreover have "at_pos s cs f' q" using L by (auto simp: at_pos_def)
  ultimately show ?thesis using L assms(7) by (auto simp: get_seek_off_def)
qed

lemma file_seek_handle:
  assumes h: "opened s cs d f" and q: "q \<le> unat (file_size f)"
  shows "\<exists>f'. file_seek d (of_nat q) FILE_SEEK_SET s = Some (of_nat q, put_file f' s) \<and> handle (put_file f' s) cs d f' q \<and>
    file_size f' = file_size f \<and> entry f' = entry f"
proof -
  note H = h [unfolded opened_def]
  obtain f' where f': "get_seek_off (hd cs) (of_nat q) (f\<lparr>cur_offset := 0\<rparr>) s = Some (of_nat q, f', s)"
      "moved (f\<lparr>cur_offset := 0\<rparr>) f'" "at_pos s cs f' q"
    using get_seek_off_set [of s cs q "f\<lparr>cur_offset := 0\<rparr>"] H q by auto
  have mv: "moved f f'" using moved_trans [OF moved_upd(2) f'(2)] .
  let ?f = "f'\<lparr>bytes_traversed := of_nat q\<rparr>"
  have pos: "\<not> sint (of_nat q :: u32) < 0" using H q by (subst sint_small) simp_all
  have "file_seek d (of_nat q) FILE_SEEK_SET s = Some (of_nat q, put_file ?f s)"
    using H f'(1) pos by (simp add: file_seek_def Let_def)
  moreover have "file_of d (put_file ?f s) = Some ?f"
    using H movedD [OF mv] file_of_fd [of d s f] by (subst put_file_mem, intro file_of_put [where f=f]) auto
  moreover have "unat (of_nat q :: u32) = q" using H q by (intro unat_of_nat_lt) simp
  ultimately show ?thesis using H f'(3) movedD [OF mv] q by (intro exI [of _ ?f]) (simp add: handle_def opened_def)
qed

text \<open>
  Moving to a position from the start of the file and reading there gives the bytes of the file from that
  position on, wherever the file stood before.
\<close>

theorem file_seek_then_read:
  assumes "handle s cs d f p" "q \<le> unat (file_size f)" "n < 2 ^ 31" "span buffer n \<inter> places s cs = {}" "entry f + 11 \<notin> span buffer n"
    and "k = min n (unat (file_size f) - q)"
  shows "\<exists>s1 s2. file_seek d (of_nat q) FILE_SEEK_SET s = Some (of_nat q, s1) \<and> file_read d buffer (of_nat n) s1 = Some (of_nat k, s2) \<and>
    bytes (memory s2) buffer k = take k (drop q (content s cs)) \<and> (\<forall>x. x \<notin> span buffer k \<longrightarrow> memory s2 x = memory s x)"
proof -
  obtain f' where f': "file_seek d (of_nat q) FILE_SEEK_SET s = Some (of_nat q, put_file f' s)" "handle (put_file f' s) cs d f' q"
      "file_size f' = file_size f" "entry f' = entry f"
    using file_seek_handle [of s cs d f q] assms(1,2) by (auto simp: handle_def)
  have "span buffer n \<inter> places (put_file f' s) cs = {}" "entry f' + 11 \<notin> span buffer n" "k = min n (unat (file_size f') - q)"
    using assms(4-6) f'(3,4) by simp_all
  from file_read_handle [OF f'(2) assms(3) this] obtain f2 m2 where
    "file_read d buffer (of_nat n) (put_file f' s) = Some (of_nat k, put_file f2 (put_file f' s\<lparr>memory := m2\<rparr>))"
    "bytes m2 buffer k = take k (drop q (content s cs))" "\<forall>x. x \<notin> span buffer k \<longrightarrow> m2 x = memory s x"
    by auto
  with f'(1) show ?thesis by (intro exI [of _ "put_file f' s"] exI [of _ "put_file f2 (put_file f' s\<lparr>memory := m2\<rparr>)"]) simp
qed

text \<open>The end of a chain is found.\<close>

lemma last_cluster_chain:
  assumes "chain s cs" "i < length cs"
  shows "last_cluster s (cs ! i) cur n = Some (last cs, n + of_nat (length cs - i))"
  using assms(2)
proof (induction "length cs - i" arbitrary: i cur n)
  case (Suc k)
  have c: "\<not> is_end (cs ! i)" using assms(1) Suc.prems by (simp add: chain_code)
  show ?case
  proof (cases "Suc i < length cs")
    case True
    then have "get_fat_table_entry s (cs ! i) = cs ! Suc i" using assms(1) by (simp add: chain_code)
    then have "last_cluster s (cs ! i) cur n = last_cluster s (cs ! Suc i) (cs ! i) (n + 1)"
      using c by (subst last_cluster.simps) simp
    also have "\<dots> = Some (last cs, n + 1 + of_nat (length cs - Suc i))" using Suc True by (intro Suc.hyps(1)) simp_all
    also have "n + 1 + of_nat (length cs - Suc i) = n + of_nat (length cs - i)"
      using True by (simp add: of_nat_diff)
    finally show ?thesis .
  next
    case False
    then have last: "length cs = Suc i" "cs \<noteq> []" using Suc.prems by auto
    then have "cs ! i = last cs" by (simp add: last_conv_nth)
    moreover have "is_end (get_fat_table_entry s (last cs))" using assms(1) last(2) by (simp add: chain_code)
    ultimately show ?thesis using c last(1) by (subst last_cluster.simps, subst last_cluster.simps) simp
  qed
qed simp

text \<open>
  Moving to the end of a file reports the size of the file, unless the file fills its last cluster: then it
  reports one cluster less.
\<close>

theorem file_seek_end:
  assumes "handle s cs d f p" "(length cs - 1) * csize s < unat (file_size f)"
  shows "map_option fst (file_seek d 0 FILE_SEEK_END s) =
    Some (if unat (file_size f) = length cs * csize s then file_size f - cluster_size s else file_size f)"
proof -
  note H = assms(1) [unfolded handle_def opened_def]
  have ne: "cs \<noteq> []" using H by (auto simp: at_pos_def)
  define k where "k = length cs - 1"
  have len: "length cs = Suc k" using ne by (simp add: k_def)
  define r where "r = unat (file_size f) - k * csize s"
  have r: "0 < r" "r \<le> csize s" "unat (file_size f) = k * csize s + r" "r < 2 ^ 16" using H assms(2) by (auto simp: r_def len)
  have size: "file_size f = of_nat k * cluster_size s + of_nat r"
  proof -
    have "file_size f = of_nat (k * csize s + r)" using r(3) by (metis of_nat_unat_id)
    then show ?thesis by (simp flip: cs_geometry)
  qed
  have last: "last_cluster s (strt_cluster f) (cur_cluster f) 0 = Some (last cs, of_nat (Suc k))"
    using last_cluster_chain [of s cs 0 "cur_cluster f" 0] H ne by (simp add: hd_conv_nth len)
  have "last cs \<noteq> 0" using H ne by (simp add: chain_code)
  define g where "g = f\<lparr>cur_cluster := last cs, cur_offset := ucast (of_nat r :: u32)\<rparr>"
  have ur: "unat (of_nat r :: u32) = r" "unat (ucast (of_nat r :: u32) :: u16) = r"
    using r(4) by (simp_all add: unat_of_nat_lt unat_ucast_small)
  then have off: "(ucast (cur_offset g) :: u32) = of_nat r" unfolding g_def by simp (metis unat_u16 of_nat_unat_id)
  have less: "(of_nat r :: u32) < cluster_size s \<longleftrightarrow> r < csize s"
    using r(4) H by (subst cs_geometry) (simp add: of_nat_less_u32)
  have seek: "map_option fst (get_seek_off (last cs) 0 g s) = Some (if r = csize s then of_nat r - cluster_size s else of_nat r)"
  proof (cases "r = csize s")
    case True
    have "seek_loop 0 0 0 (last cs) \<lparr>seek_prev = junk s, clus_cnt = 0, alloc_clus_cnt = 0\<rparr> g s =
        Some (\<lparr>seek_prev = junk s, clus_cnt = 0, alloc_clus_cnt = 0\<rparr>, g, s)"
      by (subst seek_loop.simps) simp
    then show ?thesis using True less off by (simp add: get_seek_off_def)
  next
    case False
    have "(ucast (ucast (of_nat r :: u32) :: u16) :: u32) = of_nat r" using ur(2) by (metis unat_u16 of_nat_unat_id)
    then show ?thesis using False less off r(2) \<open>last cs \<noteq> 0\<close> by (simp add: get_seek_off_def Let_def)
  qed
  then obtain n f1 s1 where got: "get_seek_off (last cs) 0 g s = Some (n, f1, s1)"
      "n = (if r = csize s then of_nat r - cluster_size s else of_nat r)" by auto
  have "f\<lparr>cur_cluster := last cs, cur_offset := ucast (file_size f - cluster_size s * (of_nat (Suc k) - 1))\<rparr> = g"
    unfolding g_def size by (simp add: mult.commute)
  then have "file_seek d 0 FILE_SEEK_END s = Some (n + cluster_size s * of_nat k,
      put_file (f1\<lparr>bytes_traversed := n + cluster_size s * of_nat k\<rparr>) s1)"
    using H last got(1) by (simp add: file_seek_def fat_codes Let_def)
  moreover have "unat (file_size f) = length cs * csize s \<longleftrightarrow> r = csize s" using r(3) len by auto
  ultimately show ?thesis using got(2) size by (simp add: algebra_simps)
qed

theorem file_seek_then_read_witness:
  "\<exists>s1 s2. file_seek 3 5 FILE_SEEK_SET (sample 6) = Some (5, s1) \<and> file_read 3 0x400 7 s1 = Some (1, s2) \<and> bytes (memory s2) 0x400 1 = [6]"
proof -
  have "{..<7 :: nat} = {0, 1, 2, 3, 4, 5, 6}" by auto
  then have apart: "span 0x400 7 \<inter> places (sample 6) [2, 3] = {}" "entry (sample_file 6) + 11 \<notin> span 0x400 7"
    by (simp_all add: sample_places span_def sample_file_def)
  have h: "handle (sample 6) [2, 3] 3 (sample_file 6) 0" "5 \<le> unat (file_size (sample_file 6))"
    by (rule sample_handle) (simp_all add: sample_file_def)
  from file_seek_then_read [OF h _ apart, where k=1] obtain s1 s2 where
    "file_seek 3 5 FILE_SEEK_SET (sample 6) = Some (5, s1)" "file_read 3 0x400 7 s1 = Some (1, s2)"
    "bytes (memory s2) 0x400 1 = take 1 (drop 5 (content (sample 6) [2, 3]))"
    by (auto simp: sample_file_def)
  then show ?thesis unfolding sample_content by auto
qed

theorem file_seek_end_witness:
  "map_option fst (file_seek 3 0 FILE_SEEK_END (sample 6)) = Some 6 \<and> map_option fst (file_seek 3 0 FILE_SEEK_END (sample 8)) = Some 4"
proof -
  have "handle (sample 6) [2, 3] 3 (sample_file 6) 0" "handle (sample 8) [2, 3] 3 (sample_file 8) 0"
    by (rule sample_handle; simp)+
  note h = this
  have "csize (sample n) = 4" "cluster_size (sample n) = 4" for n by (simp_all add: sample_def csize_def)
  then show ?thesis using file_seek_end [OF h(1)] file_seek_end [OF h(2)] by (simp add: sample_file_def)
qed

end
