(* ===== verification/Fat32Write.thy ===== *)
theory Fat32Write
  imports Fat32Read
begin

text \<open>
  Overwriting a part of an open file: the abstract file changes in the written places only, and
  what is read there afterwards is what was written. Also the table of open files: its descriptors
  are distinct, and what closing a file frees.
\<close>

section \<open>Writing in place\<close>

definition overwrite :: "nat \<Rightarrow> 'a list \<Rightarrow> 'a list \<Rightarrow> 'a list" where
  "overwrite p xs ys = take p ys @ xs @ drop (p + length xs) ys"

lemma overwrite_nil [simp]: "overwrite p [] ys = ys"
  by (simp add: overwrite_def)

lemma overwrite_length: "p + length xs \<le> length ys \<Longrightarrow> length (overwrite p xs ys) = length ys"
  by (simp add: overwrite_def)

lemma overwrite_overwrite:
  "p + length xs \<le> length ys \<Longrightarrow> overwrite (p + length xs) zs (overwrite p xs ys) = overwrite p (xs @ zs) ys"
  by (simp add: overwrite_def ac_simps)

lemma overwrite_slice: "p + length xs \<le> length ys \<Longrightarrow> take (length xs) (drop p (overwrite p xs ys)) = xs"
  by (simp add: overwrite_def)

lemma overwrite_nth:
  "p + length xs \<le> length ys \<Longrightarrow> q < length ys \<Longrightarrow> overwrite p xs ys ! q = (if p \<le> q \<and> q < p + length xs then xs ! (q - p) else ys ! q)"
  by (auto simp: overwrite_def nth_append min_def not_less)

definition data_places :: "fat32 \<Rightarrow> u32 list \<Rightarrow> u32 set" where
  "data_places s cs = (\<Union>c\<in>set cs. span (cluster_addr s c) (csize s))"

text \<open>The clusters of the file do not overlap one another or its entries of the table.\<close>

definition separate :: "fat32 \<Rightarrow> u32 list \<Rightarrow> bool" where
  "separate s cs \<longleftrightarrow>
     (\<forall>i<length cs. \<forall>j<length cs. i \<noteq> j \<longrightarrow>
        span (cluster_addr s (cs ! i)) (csize s) \<inter> span (cluster_addr s (cs ! j)) (csize s) = {}) \<and>
     (\<forall>c\<in>set cs. span (first_fat s + c * 4) 4 \<inter> data_places s cs = {})"

lemma content_nth:
  assumes "q < length cs * csize s"
  shows "content s cs ! q = memory s (cluster_addr s (cs ! (q div csize s)) + of_nat (q mod csize s))"
proof -
  have z: "0 < csize s" using assms by (cases "csize s") auto
  let ?i = "q div csize s" and ?o = "q mod csize s"
  have i: "?i < length cs" "?o + 1 \<le> csize s" using assms z by (simp_all add: less_mult_imp_div_less Suc_leI)
  have "take 1 (drop q (content s cs)) = [memory s (cluster_addr s (cs ! ?i) + of_nat ?o)]"
    using content_slice [OF i] by (simp add: bytes_def)
  moreover have "take 1 (drop q (content s cs)) = [content s cs ! q]"
    using assms by (simp add: take_Suc_conv_app_nth)
  ultimately show ?thesis by simp
qed

lemma content_copied:
  assumes sep: "separate s cs" and i: "i < length cs" and n: "off + n \<le> csize s" and z: "csize s < 2 ^ 16"
  shows "content (s\<lparr>memory := copied n (cluster_addr s (cs ! i) + of_nat off) src m\<rparr>) cs =
    overwrite (i * csize s + off) (bytes m src n) (content (s\<lparr>memory := m\<rparr>) cs)"
proof (rule nth_equalityI)
  have "i * csize s + csize s \<le> length cs * csize s" using i by (metis Suc_leI mult_le_mono1 mult_Suc add.commute)
  then have len: "i * csize s + off + n \<le> length cs * csize s" using n by simp
  then show "length (content (s\<lparr>memory := copied n (cluster_addr s (cs ! i) + of_nat off) src m\<rparr>) cs) =
      length (overwrite (i * csize s + off) (bytes m src n) (content (s\<lparr>memory := m\<rparr>) cs))"
    by (simp add: overwrite_length)
  fix q assume "q < length (content (s\<lparr>memory := copied n (cluster_addr s (cs ! i) + of_nat off) src m\<rparr>) cs)"
  then have q: "q < length cs * csize s" by simp
  then have z0: "0 < csize s" by (cases "csize s") auto
  define j where "j = q div csize s" define o' where "o' = q mod csize s"
  have j: "j < length cs" "o' < csize s" "q = j * csize s + o'"
    using q z0 by (simp_all add: j_def o'_def less_mult_imp_div_less)
  let ?a = "cluster_addr s"
  have in_range: "i * csize s + off \<le> q \<and> q < i * csize s + off + n \<longleftrightarrow> i = j \<and> off \<le> o' \<and> o' < off + n"
  proof (cases "i = j")
    case False
    then consider "i < j" | "j < i" by linarith
    then show ?thesis
    proof cases
      case 1
      then have "(i + 1) * csize s \<le> j * csize s" by (intro mult_le_mono1) simp
      then show ?thesis using False n j(3) by simp
    next
      case 2
      then have "(j + 1) * csize s \<le> i * csize s" by (intro mult_le_mono1) simp
      then show ?thesis using False j(2,3) by simp
    qed
  qed (use j in auto)
  have "copied n (?a (cs ! i) + of_nat off) src m (?a (cs ! j) + of_nat o') =
      (if i = j \<and> off \<le> o' \<and> o' < off + n then m (src + of_nat (o' - off)) else m (?a (cs ! j) + of_nat o'))"
  proof (cases "i = j \<and> off \<le> o' \<and> o' < off + n")
    case True
    then have "?a (cs ! j) + of_nat o' = ?a (cs ! i) + of_nat off + of_nat (o' - off)" by (simp add: of_nat_diff)
    moreover have "copied n (?a (cs ! i) + of_nat off) src m (?a (cs ! i) + of_nat off + of_nat (o' - off)) = m (src + of_nat (o' - off))"
      using True n z by (intro copied_at) auto
    ultimately show ?thesis using True by (simp only: simp_thms if_True)
  next
    case False
    have "?a (cs ! j) + of_nat o' \<notin> span (?a (cs ! i) + of_nat off) n"
    proof (cases "i = j")
      case True
      show ?thesis
      proof
        assume "?a (cs ! j) + of_nat o' \<in> span (?a (cs ! i) + of_nat off) n"
        then obtain k where k: "k < n" "(of_nat o' :: u32) = of_nat (off + k)" using True by (auto simp: span_def)
        then have "o' = off + k" using j(2) n z by (subst (asm) of_nat_inj32) simp_all
        with False True k(1) show False by simp
      qed
    next
      case False
      have "?a (cs ! j) + of_nat o' \<in> span (?a (cs ! j)) (csize s)" using j(2) by (auto simp: span_def)
      then show ?thesis using sep False i j(1) span_mono [OF n, of "?a (cs ! i)"] by (auto simp: separate_def)
    qed
    then show ?thesis unfolding if_not_P [OF False] by (rule copied_off)
  qed
  then show "content (s\<lparr>memory := copied n (?a (cs ! i) + of_nat off) src m\<rparr>) cs ! q =
      overwrite (i * csize s + off) (bytes m src n) (content (s\<lparr>memory := m\<rparr>) cs) ! q"
    using q len in_range by (simp add: content_nth overwrite_nth flip: j_def o'_def) (auto simp: j(3))
qed

definition writing :: "fat32 \<Rightarrow> u32 list \<Rightarrow> u32 \<Rightarrow> nat \<Rightarrow> nat \<Rightarrow> nat \<Rightarrow> file_info \<Rightarrow> mem \<Rightarrow> bool" where
  "writing s cs buffer t r p f m \<longleftrightarrow>
     chain s cs \<and> separate s cs \<and> csize s < 2 ^ 16 \<and> t < 2 ^ 31 \<and> r \<le> t \<and> at_pos s cs f p \<and> unat (cur_offset f) < csize s \<and>
     p + r \<le> length cs * csize s \<and> span buffer t \<inter> places s cs = {} \<and> (\<forall>x. x \<notin> data_places s cs \<longrightarrow> m x = memory s x)"

lemma places_data: "places s cs = data_places s cs \<union> (\<Union>c\<in>set cs. span (first_fat s + c * 4) 4)"
  by (auto simp: places_def data_places_def)

lemma fat_entry_data_frame:
  assumes "separate s cs" "c \<in> set cs" "\<And>x. x \<notin> data_places s cs \<Longrightarrow> m x = memory s x"
  shows "get_fat_table_entry (s\<lparr>memory := m\<rparr>) c = get_fat_table_entry s c"
proof -
  have "span (first_fat s + c * 4) 4 \<inter> data_places s cs = {}" using assms(1,2) by (simp add: separate_def)
  then show ?thesis unfolding get_fat_table_entry_def using assms(3) by (simp, intro read32_cong) blast
qed

text \<open>One copy: \<open>c'\<close> and \<open>off\<close> are the cluster and the offset after it.\<close>

lemma write_copy_step:
  assumes W: "writing s cs buffer t r p f m" and r: "0 < r"
  obtains n c' off where "0 < n" "n \<le> r"
    "write_loop buffer (of_nat t) (of_nat r) (of_nat (t - r)) l f (s\<lparr>memory := m\<rparr>) =
       write_loop buffer (of_nat t) (of_nat (r - n)) (of_nat (t - (r - n))) (l\<lparr>prev_cluster := cur_cluster f\<rparr>)
         (f\<lparr>cur_cluster := c', cur_offset := off\<rparr>)
         (s\<lparr>memory := copied n (cluster_addr s (cur_cluster f) + of_nat (unat (cur_offset f))) (buffer + of_nat (t - r)) m\<rparr>)"
    "n < r \<Longrightarrow> at_pos s cs (f\<lparr>cur_cluster := c', cur_offset := off\<rparr>) (p + n) \<and> unat off < csize s"
    "content (s\<lparr>memory := copied n (cluster_addr s (cur_cluster f) + of_nat (unat (cur_offset f))) (buffer + of_nat (t - r)) m\<rparr>) cs =
       overwrite p (bytes (memory s) (buffer + of_nat (t - r)) n) (content (s\<lparr>memory := m\<rparr>) cs)"
    "span (cluster_addr s (cur_cluster f) + of_nat (unat (cur_offset f))) n \<subseteq> data_places s cs"
proof -
  obtain i where i: "i < length cs" "cur_cluster f = cs ! i" "p = i * csize s + unat (cur_offset f)"
    using W by (auto simp: writing_def at_pos_def)
  define n where "n = min r (csize s - unat (cur_offset f))"
  have bounds: "csize s < 2 ^ 16" "t < 2 ^ 31" "r \<le> t" "unat (cur_offset f) < csize s" using W by (simp_all add: writing_def)
  have n: "0 < n" "n \<le> r" "unat (cur_offset f) + n \<le> csize s" "n < 2 ^ 16" using r bounds by (auto simp: n_def)
  let ?dst = "cluster_addr s (cur_cluster f) + of_nat (unat (cur_offset f))"
  let ?src = "buffer + of_nat (t - r)"
  let ?m = "copied n ?dst ?src m"
  have c_in: "cs ! i \<in> set cs" "cs ! i \<noteq> 0" "\<not> is_end (cs ! i)" using W i(1) by (simp_all add: writing_def chain_code)
  have dst: "span ?dst n \<subseteq> data_places s cs"
    using span_mono [OF n(3), of "cluster_addr s (cs ! i)"] c_in(1) i(2) by (auto simp: data_places_def)
  have "span ?src n \<subseteq> span buffer t" using n(2) bounds(3) by (intro span_mono) simp
  then have src: "span ?src n \<inter> data_places s cs = {}" using W by (auto simp: writing_def places_data)
  have un: "unat (of_nat n :: u32) = n" "unat (of_nat n :: u16) = n" using n(4) by (simp_all add: unat_of_nat_lt)
  have "span ?dst n \<inter> span ?src n = {}" using dst src by blast
  then have cp: "snd (sw_memcpy ?dst ?src (of_nat n) m) = ?m" using memcpy_ranges [of ?dst "of_nat n" ?src m] un(1) by simp
  have "unat (chunk (cluster_size s) (cur_offset f) (of_nat r)) = n"
    unfolding n_def using bounds by (intro chunk_size) (simp_all add: csize_def)
  then have ch: "chunk (cluster_size s) (cur_offset f) (of_nat t - of_nat (t - r)) = of_nat n"
    using un(1) bounds(3) by (simp add: of_nat_diff unat_inject [symmetric])
  have off: "unat (cur_offset f + of_nat n) = unat (cur_offset f) + n" using un(2) n(3) bounds(1) by (subst unat_plus_lt) simp_all
  have off2: "ucast (ucast (cur_offset f) + of_nat n :: u32) = cur_offset f + of_nat n"
    using next_offset [of "cur_offset f" "of_nat n"] un off n(3) bounds(1) by (simp add: unat_inject [symmetric])
  have room: "cluster_size s - ucast (cur_offset f) \<noteq> 0"
  proof
    assume "cluster_size s - ucast (cur_offset f) = 0"
    then have "cluster_size s = ucast (cur_offset f)" by simp
    then show False using bounds(4) by (simp add: csize_def unat_u16)
  qed
  define o' where "o' = cur_offset f + of_nat n"
  have full: "ucast o' = cluster_size s \<longleftrightarrow> unat (cur_offset f) + n = csize s"
    using off unat_u16 [of o'] unfolding o'_def csize_def by (metis unat_inject)
  define c' where "c' = (if ucast o' = cluster_size s then get_fat_table_entry (s\<lparr>memory := ?m\<rparr>) (cs ! i) else cs ! i)"
  define o'' where "o'' = (if c' \<noteq> 0 \<and> \<not> is_end c' \<and> (of_nat r - of_nat n :: u32) \<noteq> 0 then 0 else o')"
  have nums: "of_nat r - of_nat n = (of_nat (r - n) :: u32)" "of_nat (t - r) + of_nat n = (of_nat (t - (r - n)) :: u32)"
    using n(2) bounds(3) by (simp_all add: of_nat_diff)
  have "0 < sint (of_nat r :: u32)" using r bounds by (subst sint_small_pos) simp_all
  moreover have "cluster_to_memory_addr (s\<lparr>memory := m\<rparr>) (cs ! i) = cluster_addr s (cs ! i)"
    using W by (simp add: writing_def code_addr)
  ultimately have step: "write_loop buffer (of_nat t) (of_nat r) (of_nat (t - r)) l f (s\<lparr>memory := m\<rparr>) =
      write_loop buffer (of_nat t) (of_nat r - of_nat n) (of_nat (t - r) + of_nat n) (l\<lparr>prev_cluster := cur_cluster f\<rparr>)
        (f\<lparr>cur_cluster := c', cur_offset := o''\<rparr>) (s\<lparr>memory := ?m\<rparr>)"
    using c_in(2,3) i(2) room ch cp off2 unfolding c'_def o''_def o'_def
    by (subst write_loop.simps) (simp add: on_mem_def Let_def of_nat_unat_id)
  have agree: "?m x = memory s x" if "x \<notin> data_places s cs" for x
    using that dst W by (auto simp: writing_def intro: trans [OF copied_off])
  have pos: "at_pos s cs (f\<lparr>cur_cluster := c', cur_offset := o''\<rparr>) (p + n) \<and> unat o'' < csize s" if "n < r"
  proof -
    have rest: "(of_nat r - of_nat n :: u32) \<noteq> 0"
    proof -
      have "unat (of_nat (r - n) :: u32) = r - n" using bounds by (intro unat_of_nat_lt) simp
      then show ?thesis unfolding nums(1) using that by (metis unsigned_0 zero_less_diff less_irrefl)
    qed
    show ?thesis
    proof (cases "unat (cur_offset f) + n = csize s")
      case True
      have "p + r \<le> length cs * csize s" using W by (simp add: writing_def)
      then have "Suc i * csize s < length cs * csize s" using i(3) True that by simp
      then have i1: "Suc i < length cs" by (metis mult_less_cancel2)
      have "get_fat_table_entry (s\<lparr>memory := ?m\<rparr>) (cs ! i) = get_fat_table_entry s (cs ! i)"
        using W c_in(1) agree by (intro fat_entry_data_frame [where cs=cs]) (simp_all add: writing_def)
      then have c': "c' = cs ! Suc i" "c' \<noteq> 0" "\<not> is_end c'"
        using W i1 True full by (simp_all add: c'_def writing_def chain_code)
      then have "o'' = 0" using rest by (simp add: o''_def)
      then show ?thesis using c' i1 i(3) True bounds(4) by (auto simp: at_pos_def intro!: exI [of _ "Suc i"])
    next
      case False
      then have c': "c' = cs ! i" using full by (simp add: c'_def)
      have lt: "unat (cur_offset f) + n < csize s" using False n(3) by simp
      then have "n = r" using n_def by auto
      with that show ?thesis by simp
    qed
  qed
  have "content (s\<lparr>memory := ?m\<rparr>) cs = overwrite p (bytes m ?src n) (content (s\<lparr>memory := m\<rparr>) cs)"
    using content_copied [of s cs i "unat (cur_offset f)" n ?src m] W i n(3) by (simp add: writing_def)
  moreover have "bytes m ?src n = bytes (memory s) ?src n"
    using src W by (intro bytes_cong) (auto simp: writing_def)
  ultimately show thesis using step pos dst n(1,2) unfolding nums by (intro that [of n o'' c']) simp_all
qed

lemma write_loop_exact:
  assumes "writing s cs buffer t r p f m"
  shows "\<exists>l' f' m'. write_loop buffer (of_nat t) (of_nat r) (of_nat (t - r)) l f (s\<lparr>memory := m\<rparr>) =
      Some (of_nat t, l', f', s\<lparr>memory := m'\<rparr>) \<and> alloc_cluster_cnt l' = alloc_cluster_cnt l \<and> moved f f' \<and>
    content (s\<lparr>memory := m'\<rparr>) cs = overwrite p (bytes (memory s) (buffer + of_nat (t - r)) r) (content (s\<lparr>memory := m\<rparr>) cs) \<and>
    (\<forall>x. x \<notin> data_places s cs \<longrightarrow> m' x = memory s x)"
  using assms
proof (induction r arbitrary: p f l m rule: less_induct)
  case (less r)
  note W = less.prems
  have stop: "write_loop buffer (of_nat t) 0 (of_nat t) l f s = Some (of_nat t, l, f, s)" for l f s
    by (subst write_loop.simps) simp
  show ?case
  proof (cases "r = 0")
    case True
    then show ?thesis using stop W by (auto simp: writing_def)
  next
    case False
    let ?dst = "cluster_addr s (cur_cluster f) + of_nat (unat (cur_offset f))" and ?src = "buffer + of_nat (t - r) :: u32"
    from write_copy_step [OF W, of l] False obtain n c' off where n: "0 < n" "n \<le> r"
      and step: "write_loop buffer (of_nat t) (of_nat r) (of_nat (t - r)) l f (s\<lparr>memory := m\<rparr>) =
         write_loop buffer (of_nat t) (of_nat (r - n)) (of_nat (t - (r - n))) (l\<lparr>prev_cluster := cur_cluster f\<rparr>)
           (f\<lparr>cur_cluster := c', cur_offset := off\<rparr>) (s\<lparr>memory := copied n ?dst ?src m\<rparr>)"
      and pos: "n < r \<Longrightarrow> at_pos s cs (f\<lparr>cur_cluster := c', cur_offset := off\<rparr>) (p + n) \<and> unat off < csize s"
      and written: "content (s\<lparr>memory := copied n ?dst ?src m\<rparr>) cs = overwrite p (bytes (memory s) ?src n) (content (s\<lparr>memory := m\<rparr>) cs)"
      and dst: "span ?dst n \<subseteq> data_places s cs" by (metis neq0_conv)
    have agree: "copied n ?dst ?src m x = memory s x" if "x \<notin> data_places s cs" for x
      using that dst W by (auto simp: writing_def intro: trans [OF copied_off])
    show ?thesis
    proof (cases "n = r")
      case True
      then show ?thesis using step written agree stop by (auto intro!: exI [of _ "f\<lparr>cur_cluster := c', cur_offset := off\<rparr>"])
    next
      case False
      then have less_n: "n < r" "r - n < r" using n by simp_all
      then have "writing s cs buffer t (r - n) (p + n) (f\<lparr>cur_cluster := c', cur_offset := off\<rparr>) (copied n ?dst ?src m)"
        using W pos agree by (simp add: writing_def)
      from less.IH [OF less_n(2) this, of "l\<lparr>prev_cluster := cur_cluster f\<rparr>"] obtain l' f' m' where R:
        "write_loop buffer (of_nat t) (of_nat (r - n)) (of_nat (t - (r - n))) (l\<lparr>prev_cluster := cur_cluster f\<rparr>)
           (f\<lparr>cur_cluster := c', cur_offset := off\<rparr>) (s\<lparr>memory := copied n ?dst ?src m\<rparr>) = Some (of_nat t, l', f', s\<lparr>memory := m'\<rparr>)"
        "alloc_cluster_cnt l' = alloc_cluster_cnt l" "moved (f\<lparr>cur_cluster := c', cur_offset := off\<rparr>) f'"
        "content (s\<lparr>memory := m'\<rparr>) cs = overwrite (p + n) (bytes (memory s) (buffer + of_nat (t - (r - n))) (r - n))
           (content (s\<lparr>memory := copied n ?dst ?src m\<rparr>) cs)"
        "\<forall>x. x \<notin> data_places s cs \<longrightarrow> m' x = memory s x"
        by auto
      have "buffer + of_nat (t - (r - n)) = ?src + of_nat n" using W n(2) by (simp add: writing_def of_nat_diff algebra_simps)
      moreover have "p + n \<le> length cs * csize s" using W n(2) by (simp add: writing_def)
      ultimately have "content (s\<lparr>memory := m'\<rparr>) cs = overwrite p (bytes (memory s) ?src n @ bytes (memory s) (?src + of_nat n) (r - n)) (content (s\<lparr>memory := m\<rparr>) cs)"
        using R(4) written overwrite_overwrite [of p "bytes (memory s) ?src n" "content (s\<lparr>memory := m\<rparr>) cs"]
        by (simp add: add.assoc)
      then have "content (s\<lparr>memory := m'\<rparr>) cs = overwrite p (bytes (memory s) ?src r) (content (s\<lparr>memory := m\<rparr>) cs)"
        using bytes_add [of "memory s" ?src n "r - n"] n(2) by simp
      then show ?thesis using R step moved_trans [OF moved_upd(3)] by metis
    qed
  qed
qed

lemma file_write_opened:
  assumes h: "handle s cs d f p" and sep: "separate s cs" and off: "unat (cur_offset f) < csize s" and md: "ucast (mode f) \<noteq> FILE_READ"
    and n: "p + n \<le> unat (file_size f)" "span buffer n \<inter> places s cs = {}" "entry f + 11 \<notin> data_places s cs"
  shows "\<exists>f' m'. file_write d buffer (of_nat n) s = Some (of_nat n, put_file f' (s\<lparr>memory := m'\<rparr>)) \<and>
    opened (put_file f' (s\<lparr>memory := m'\<rparr>)) cs d f' \<and> file_size f' = file_size f \<and> entry f' = entry f \<and>
    content (s\<lparr>memory := m'\<rparr>) cs = overwrite p (bytes (memory s) buffer n) (content s cs) \<and>
    (\<forall>x. x \<notin> data_places s cs \<longrightarrow> m' x = memory s x)"
proof -
  note H = h [unfolded handle_def opened_def]
  let ?l = "\<lparr>prev_cluster = junk s, new_cluster = junk s, alloc_cluster_cnt = 0\<rparr>"
  have "writing s cs buffer n n p f (memory s)" using H sep off n by (simp add: writing_def)
  from write_loop_exact [OF this, of ?l] obtain l' f' m' where R:
    "write_loop buffer (of_nat n) (of_nat n) 0 ?l f s = Some (of_nat n, l', f', s\<lparr>memory := m'\<rparr>)" "alloc_cluster_cnt l' = 0" "moved f f'"
    "content (s\<lparr>memory := m'\<rparr>) cs = overwrite p (bytes (memory s) buffer n) (content s cs)" "\<forall>x. x \<notin> data_places s cs \<longrightarrow> m' x = memory s x"
    by auto
  have un: "unat (of_nat n :: u32) = n" using n(1) H by (intro unat_of_nat_lt) simp
  then have "\<not> file_size f' < of_nat n" using n(1) movedD [OF R(3)] by (simp add: word_less_nat_alt)
  then have w: "file_write d buffer (of_nat n) s =
      Some (of_nat n, put_file (f'\<lparr>bytes_traversed := bytes_traversed f' + of_nat n\<rparr>) (s\<lparr>memory := m'\<rparr>))"
    using H md R(1,2) by (simp add: file_write_def)
  let ?f = "f'\<lparr>bytes_traversed := bytes_traversed f' + of_nat n\<rparr>"
  have fat: "get_fat_table_entry (s\<lparr>memory := m'\<rparr>) c = get_fat_table_entry s c" if "c \<in> set cs" for c
    using sep that R(5) by (intro fat_entry_data_frame) auto
  then have "chain (s\<lparr>memory := m'\<rparr>) cs" using H by (auto simp: chain_code dest: Suc_lessD)
  moreover have "file_of d (put_file ?f (s\<lparr>memory := m'\<rparr>)) = Some ?f"
    using H movedD [OF R(3)] file_of_fd [of d s f] by (intro file_of_put [where f=f]) auto
  moreover have "m' (entry f + 11) \<noteq> ATTR_DIR" using H R(5) n(3) by simp
  ultimately have "opened (put_file ?f (s\<lparr>memory := m'\<rparr>)) cs d ?f"
    using H movedD [OF R(3)] by (simp add: opened_def)
  then show ?thesis using w R(4,5) movedD [OF R(3)] by (intro exI [of _ ?f] exI [of _ m']) simp
qed

text \<open>
  C28. When the clusters of the file overlap neither one another nor its entries in the table (\<open>separate\<close>, which
  fails for neighbouring clusters of several sectors): what is written over a part of a file that lies within its size, from a position that
  is not the end of a cluster, is what is read back there after seeking to the position; the rest of the file keeps its
  bytes. The contents are those of C27, and those of the layout of FAT32 on the volumes described there. The file is open for writing; the buffers lie outside of its clusters and entries, and the
  directory entry lies outside of its clusters.
\<close>

theorem file_write_read_back:
  assumes "handle s cs d f p" "separate s cs" "unat (cur_offset f) < csize s" "ucast (mode f) \<noteq> FILE_READ"
    and "p + n \<le> unat (file_size f)" "span buffer n \<inter> places s cs = {}" "entry f + 11 \<notin> data_places s cs"
    and "span out n \<inter> places s cs = {}" "entry f + 11 \<notin> span out n"
  shows "\<exists>s1 s2 s3. file_write d buffer (of_nat n) s = Some (of_nat n, s1) \<and> file_seek d (of_nat p) FILE_SEEK_SET s1 = Some (of_nat p, s2) \<and>
    file_read d out (of_nat n) s2 = Some (of_nat n, s3) \<and> bytes (memory s3) out n = bytes (memory s) buffer n \<and>
    content s1 cs = overwrite p (bytes (memory s) buffer n) (content s cs) \<and>
    (plain_volume s \<longrightarrow> fat32_content s1 cs = overwrite p (bytes (memory s) buffer n) (fat32_content s cs))"
proof -
  obtain f1 m1 where w: "file_write d buffer (of_nat n) s = Some (of_nat n, put_file f1 (s\<lparr>memory := m1\<rparr>))"
      "opened (put_file f1 (s\<lparr>memory := m1\<rparr>)) cs d f1" "file_size f1 = file_size f" "entry f1 = entry f"
      "content (s\<lparr>memory := m1\<rparr>) cs = overwrite p (bytes (memory s) buffer n) (content s cs)"
    using file_write_opened [OF assms(1-7)] by blast
  let ?s1 = "put_file f1 (s\<lparr>memory := m1\<rparr>)"
  obtain f2 where k: "file_seek d (of_nat p) FILE_SEEK_SET ?s1 = Some (of_nat p, put_file f2 ?s1)" "handle (put_file f2 ?s1) cs d f2 p"
      "file_size f2 = file_size f" "entry f2 = entry f"
    using file_seek_handle [OF w(2), of p] assms(5) w(3,4) by auto
  have fit: "unat (file_size f) < 2 ^ 31" "unat (file_size f) \<le> length cs * csize s" using assms(1) by (simp_all add: handle_def opened_def)
  have "span out n \<inter> places (put_file f2 ?s1) cs = {}" "entry f2 + 11 \<notin> span out n" "n < 2 ^ 31" "n = min n (unat (file_size f2) - p)"
    using assms(5,8,9) k(3,4) fit by simp_all
  from file_read_handle [OF k(2) this(3,1,2,4)] obtain f3 m3 where
    r: "file_read d out (of_nat n) (put_file f2 ?s1) = Some (of_nat n, put_file f3 (put_file f2 ?s1\<lparr>memory := m3\<rparr>))"
      "bytes m3 out n = take n (drop p (content ?s1 cs))" by auto
  have "bytes m3 out n = bytes (memory s) buffer n"
    using r(2) w(5) overwrite_slice [of p "bytes (memory s) buffer n" "content s cs"] assms(5) fit(2) by simp
  with w(1,5) k(1) r(1) show ?thesis
    by (intro exI [of _ ?s1] exI [of _ "put_file f2 ?s1"] exI [of _ "put_file f3 (put_file f2 ?s1\<lparr>memory := m3\<rparr>)"]) (simp add: plain_content)
qed

lemma sample_geometry: "csize (sample n) = 4" "cluster_addr (sample n) 2 = 0x200" "cluster_addr (sample n) 3 = 0x204"
  "first_fat (sample n) = 0x100"
  by (simp_all add: sample_def csize_def cluster_addr_def)

lemma sample_span: "span a 4 = {a, a + 1, a + 2, a + 3}" "span a 5 = {a, a + 1, a + 2, a + 3, a + 4}"
proof -
  have "{..<4 :: nat} = {0, 1, 2, 3}" "{..<5 :: nat} = {0, 1, 2, 3, 4}" by auto
  then show "span a 4 = {a, a + 1, a + 2, a + 3}" "span a 5 = {a, a + 1, a + 2, a + 3, a + 4}" by (simp_all add: span_def)
qed

theorem file_write_read_back_witness:
  "\<exists>s1 s2 s3. file_write 3 0x600 5 (sample 8) = Some (5, s1) \<and> content s1 [2, 3] = [9, 10, 11, 12, 13, 6, 7, 8] \<and>
     file_seek 3 0 FILE_SEEK_SET s1 = Some (0, s2) \<and> file_read 3 0x400 5 s2 = Some (5, s3) \<and> bytes (memory s3) 0x400 5 = [9, 10, 11, 12, 13]"
proof -
  have "handle (sample 8) [2, 3] 3 (sample_file 8) 0" by (rule sample_handle) simp
  moreover have "separate (sample 8) [2, 3]"
    by (auto simp: separate_def data_places_def sample_geometry sample_span less_Suc_eq)
  moreover have "unat (cur_offset (sample_file 8)) < csize (sample 8)" "ucast (mode (sample_file 8)) \<noteq> FILE_READ"
      "0 + 5 \<le> unat (file_size (sample_file 8))"
    by (simp_all add: sample_geometry sample_file_def FILE_READ_def)
  moreover have "span 0x600 5 \<inter> places (sample 8) [2, 3] = {}" "entry (sample_file 8) + 11 \<notin> data_places (sample 8) [2, 3]"
      "span 0x400 5 \<inter> places (sample 8) [2, 3] = {}" "entry (sample_file 8) + 11 \<notin> span 0x400 5"
    by (simp_all add: sample_places sample_span sample_file_def data_places_def sample_geometry)
  ultimately obtain s1 s2 s3 where R: "file_write 3 0x600 (of_nat 5) (sample 8) = Some (of_nat 5, s1)"
      "file_seek 3 (of_nat 0) FILE_SEEK_SET s1 = Some (of_nat 0, s2)" "file_read 3 0x400 (of_nat 5) s2 = Some (of_nat 5, s3)"
      "bytes (memory s3) 0x400 5 = bytes (memory (sample 8)) 0x600 5"
      "content s1 [2, 3] = overwrite 0 (bytes (memory (sample 8)) 0x600 5) (content (sample 8) [2, 3])"
    using file_write_read_back [of "sample 8" "[2, 3]" 3 "sample_file 8" 0 5 "0x600" "0x400"] by blast
  have "bytes (memory (sample 8)) 0x600 5 = [9, 10, 11, 12, 13]"
    by (simp add: bytes_def sample_def sample_mem_def upt_rec)
  with R show ?thesis by (simp add: sample_content overwrite_def)
qed

end
