(* ===== verification/Fat32Table.thy ===== *)
theory Fat32Table
  imports Fat32
begin

text \<open>
  The table of open files: only opening and closing change which descriptors are in it, and the
  descriptors are distinct at every moment.
\<close>

section \<open>What leaves the table alone\<close>

definition table :: "fat32 \<Rightarrow> u32 list \<times> u32" where
  "table s = (map fd (file_head s), fdes s)"

named_theorems table_simps

lemma table_upd [table_simps]:
  "table (on_mem g s) = table s" "table (s\<lparr>memory := m\<rparr>) = table s" "table (s\<lparr>blocks := b\<rparr>) = table s"
  "table (s\<lparr>freed := a\<rparr>) = table s" "table (s\<lparr>dir_file_offset := d\<rparr>) = table s" "table (s\<lparr>nxt_free_cluster := c\<rparr>) = table s"
  "table (write_fat_table c v s) = table s" "table (sw_malloc_free p s) = table s" "table (snd (sw_malloc s)) = table s"
  "table (free_entry p s) = table s"
  by (simp_all add: table_def on_mem_def write_fat_table_def sw_malloc_free_def sw_malloc_def free_entry_def split: list.split)

lemma set_file_fds: "map fd (set_file f fs) = map fd fs"
  by (induction fs) auto

lemma table_put_file [table_simps]: "table (put_file f s) = table s"
  by (simp add: table_def put_file_def set_file_fds)

lemma allocate_cluster_table: "allocate_cluster s = Some (c, s') \<Longrightarrow> table s' = table s"
  by (auto simp: allocate_cluster_def table_simps Let_def split: bind_splits)

lemma copy_dir_entry_table: "copy_dir_entry d s = Some (p, s') \<Longrightarrow> table s' = table s"
  by (auto simp: copy_dir_entry_def table_simps split: bind_splits prod.splits) (metis snd_conv table_upd(1,9))

lemma dir_loop_table:
  assumes "dir_loop fname is_lfn dir next_clus i s = Some r"
  shows "table (snd (snd r)) = table s"
  by (rule dir_loop.raw_induct [where P = "\<lambda>fname is_lfn dir next_clus i s r. table (snd (snd r)) = table s", OF _ assms])
    (auto simp: Let_def table_simps split: if_splits bind_splits prod.splits)

lemma get_dir_entry_table: "get_dir_entry fname w strt clus is_lfn s = Some (b, p, s') \<Longrightarrow> table s' = table s"
  by (auto simp: get_dir_entry_def table_simps dest!: dir_loop_table copy_dir_entry_table split: if_splits bind_splits prod.splits)

lemma put_short_entry_table: "put_short_entry cur name s = Some (p, s') \<Longrightarrow> table s' = table s"
  by (auto simp: put_short_entry_def table_simps dest!: copy_dir_entry_table split: bind_splits)

lemma create_loop_table:
  assumes "create_loop lfname shrt_name cur next_clus new_clus k s = Some r"
  shows "table (snd r) = table s"
  by (rule create_loop.raw_induct [where P = "\<lambda>lfname shrt_name cur next_clus new_clus k s r. table (snd r) = table s", OF _ assms])
    (auto simp: Let_def table_simps dest!: put_short_entry_table allocate_cluster_table
      split: if_splits bind_splits prod.splits option.splits)

lemma create_file_table: "create_file lfname shrt_name clus s = Some (p, s') \<Longrightarrow> table s' = table s"
  using create_loop_table by (fastforce simp: create_file_def)

lemma unique_name_table:
  assumes "unique_name dir clus s = Some r"
  shows "table r = table s"
  by (rule unique_name.raw_induct [where P = "\<lambda>dir clus s r. table r = table s", OF _ assms])
    (auto simp: table_simps dest!: get_dir_entry_table split: if_splits bind_splits prod.splits)

lemma open_component_table: "open_component last_one (l, s) = Some (l', s') \<Longrightarrow> table s' = table s"
  by (auto simp: open_component_def Let_def table_simps dest!: get_dir_entry_table split: if_splits bind_splits prod.splits)

lemma open_loop_table: "open_loop n (l, s) = Some (l', s') \<Longrightarrow> table s' = table s"
proof (induction n arbitrary: l s)
  case (Suc n)
  then obtain l1 s1 where "open_component (n = 0) (l, s) = Some (l1, s1)" "open_loop n (l1, s1) = Some (l', s')"
    by (auto split: bind_splits)
  then show ?case using open_component_table Suc.IH by metis
qed simp

lemma read_loop_table:
  assumes "read_loop buffer t r n f s = Some x"
  shows "table (snd (snd x)) = table s \<and> fd (fst (snd x)) = fd f"
  by (rule read_loop.raw_induct [where P = "\<lambda>buffer t r n f s x. table (snd (snd x)) = table s \<and> fd (fst (snd x)) = fd f", OF _ assms])
    (auto simp: Let_def table_simps split: if_splits)

lemma write_loop_table:
  assumes "write_loop buffer t r n l f s = Some x"
  shows "table (snd (snd (snd x))) = table s \<and> fd (fst (snd (snd x))) = fd f"
  by (rule write_loop.raw_induct [where P = "\<lambda>buffer t r n l f s x. table (snd (snd (snd x))) = table s \<and> fd (fst (snd (snd x))) = fd f", OF _ assms])
    (auto simp: Let_def table_simps dest!: allocate_cluster_table split: if_splits bind_splits prod.splits)

lemma seek_loop_table:
  assumes "seek_loop off t r c l f s = Some x"
  shows "table (snd (snd x)) = table s \<and> fd (fst (snd x)) = fd f"
  by (rule seek_loop.raw_induct [where P = "\<lambda>off t r c l f s x. table (snd (snd x)) = table s \<and> fd (fst (snd x)) = fd f", OF _ assms])
    (auto simp: Let_def table_simps dest!: allocate_cluster_table split: if_splits bind_splits prod.splits)

lemma get_seek_off_table: "get_seek_off strt off f s = Some (n, f', s') \<Longrightarrow> table s' = table s \<and> fd f' = fd f"
  by (auto simp: get_seek_off_def Let_def table_simps dest!: seek_loop_table split: if_splits bind_splits prod.splits)

lemma file_read_table: "file_read d b n s = Some (r, s') \<Longrightarrow> table s' = table s"
  by (auto simp: file_read_def Let_def table_simps dest!: read_loop_table split: if_splits bind_splits prod.splits)

lemma file_write_table: "file_write d b n s = Some (r, s') \<Longrightarrow> table s' = table s"
  by (auto simp: file_write_def Let_def table_simps dest!: write_loop_table split: if_splits bind_splits prod.splits)

lemma file_seek_table: "file_seek d off w s = Some (r, s') \<Longrightarrow> table s' = table s"
  by (auto simp: file_seek_def Let_def table_simps dest!: get_seek_off_table split: if_splits bind_splits prod.splits)

lemma zero_loop_table: "zero_loop n d buff w s = Some (r, s') \<Longrightarrow> table s' = table s"
  by (induction n arbitrary: w s) (auto dest!: file_write_table split: bind_splits prod.splits)

lemma truncate_loop_table:
  assumes "truncate_loop len prev new off s = Some x"
  shows "table (snd (snd x)) = table s"
  by (rule truncate_loop.raw_induct [where P = "\<lambda>len prev new off s x. table (snd (snd x)) = table s", OF _ assms])
    (auto simp: Let_def table_simps dest!: allocate_cluster_table split: if_splits bind_splits prod.splits)

lemma file_truncate_table: "file_truncate buff p len s = Some (r, s') \<Longrightarrow> table s' = table s"
  by (auto simp: file_truncate_def Let_def table_simps
      dest!: file_seek_table zero_loop_table truncate_loop_table split: if_splits bind_splits prod.splits)

section \<open>Opening and closing\<close>

lemma sw_malloc_table: "sw_malloc s = (p, s') \<Longrightarrow> table s' = table s"
  using table_upd(9) [of s] by simp

lemma add_file_table:
  "add_file e fl p s = Some (d, s') \<Longrightarrow> d = snd (table s) + 1 \<and> table s' = (fst (table s) @ [d], d)"
  by (auto simp: add_file_def retrieve_file_info_def Let_def dest!: sw_malloc_table split: bind_splits prod.splits)
    (auto simp: table_def)

lemma finish_open_table:
  "finish_open p fl l s = Some (d, s') \<Longrightarrow> d = - 1 \<and> table s' = table s \<or> d = snd (table s) + 1 \<and> table s' = (fst (table s) @ [d], d)"
  by (auto simp: finish_open_def table_simps dest!: add_file_table create_file_table unique_name_table
      split: if_splits bind_splits prod.splits)

lemma file_open_table:
  "file_open p fl s = Some (d, s') \<Longrightarrow> d = - 1 \<and> table s' = table s \<or> d = snd (table s) + 1 \<and> table s' = (fst (table s) @ [d], d)"
  by (auto simp: file_open_def Let_def table_simps dest!: open_loop_table finish_open_table split: bind_splits prod.splits)

lemma file_close_table:
  "file_close d s = (r, s') \<Longrightarrow> fdes s' = fdes s \<and> (file_head s' = file_head s \<or> (\<exists>f. file_head s' = remove1 f (file_head s)))"
  by (auto simp: file_close_def Let_def sw_malloc_free_def split: option.splits if_splits)

lemma file_rename_table:
  "file_rename old new s = Some (r, s') \<Longrightarrow> \<exists>s1 s2 s3 d1 d2 d3 m n1 n2.
     file_open new FILE_READ s = Some (d1, s1) \<and> (s' = s1 \<or>
       file_open old FILE_READ s1 = Some (d2, s2) \<and> file_open new FILE_CREATE_NEW s2 = Some (d3, s3) \<and>
       s' = snd (file_close n2 (snd (file_close n1 (s3\<lparr>memory := m\<rparr>)))))"
  by (auto simp: file_rename_def Let_def on_mem_def split: bind_splits if_splits prod.splits)

section \<open>Distinct descriptors\<close>

definition tab_ok :: "fat32 \<Rightarrow> bool" where
  "tab_ok s \<longleftrightarrow> distinct (map fd (file_head s)) \<and> (\<forall>f\<in>set (file_head s). 2 < unat (fd f) \<and> unat (fd f) \<le> unat (fdes s)) \<and> 2 \<le> unat (fdes s)"

lemma tab_ok_table: "tab_ok s \<longleftrightarrow> distinct (fst (table s)) \<and> (\<forall>d\<in>set (fst (table s)). 2 < unat d \<and> unat d \<le> unat (snd (table s))) \<and> 2 \<le> unat (snd (table s))"
  by (simp add: tab_ok_def table_def)

lemma tab_ok_mem: "tab_ok (s\<lparr>memory := m\<rparr>) = tab_ok s"
  by (simp add: tab_ok_def)

lemma open_tab_ok:
  assumes "file_open p fl s = Some (d, s')" "tab_ok s" "unat (fdes s) < 2 ^ 32 - 1"
  shows "tab_ok s' \<and> unat (fdes s') \<le> unat (fdes s) + 1"
proof -
  have "unat (fdes s + 1) = unat (fdes s) + 1" using assms(3) by (subst unat_plus_lt) simp_all
  then have n: "unat (snd (table s) + 1) = unat (snd (table s)) + 1" by (simp add: table_def)
  have fdes: "fdes x = snd (table x)" for x by (simp add: table_def)
  show ?thesis using file_open_table [OF assms(1)] assms(2) n unfolding tab_ok_table fdes by fastforce
qed

lemma close_tab_ok: "file_close d s = (r, s') \<Longrightarrow> tab_ok s \<Longrightarrow> tab_ok s' \<and> fdes s' = fdes s"
  using file_close_table [of d s r s'] by (auto simp: tab_ok_def distinct_map inj_on_def dest: notin_set_remove1 set_remove1_subset [THEN subsetD])

text \<open>The calls of the interface; a call that does not return leaves the table as it was.\<close>

datatype fat_op =
    Open u32 u32 | Close u32 | Read u32 u32 u32 | Write u32 u32 u32 | Seek u32 u32 u32
  | Rename u32 u32 | Remove u32 | Truncate u32 u32 u32 | Create_dir u32

definition keep :: "fat32 \<Rightarrow> ('a \<times> fat32) option \<Rightarrow> fat32" where
  "keep s r = (case r of None \<Rightarrow> s | Some (_, s') \<Rightarrow> s')"

fun fat_exec :: "fat32 \<Rightarrow> fat_op \<Rightarrow> fat32" where
  "fat_exec s (Open p fl) = keep s (file_open p fl s)"
| "fat_exec s (Close d) = snd (file_close d s)"
| "fat_exec s (Read d b n) = keep s (file_read d b n s)"
| "fat_exec s (Write d b n) = keep s (file_write d b n s)"
| "fat_exec s (Seek d off w) = keep s (file_seek d off w s)"
| "fat_exec s (Rename old new) = keep s (file_rename old new s)"
| "fat_exec s (Remove p) = keep s (file_remove p s)"
| "fat_exec s (Truncate b p n) = keep s (file_truncate b p n s)"
| "fat_exec s (Create_dir p) = keep s (create_dir p s)"

definition fat_ok :: "fat32 \<Rightarrow> fat_op \<Rightarrow> bool" where
  "fat_ok s c \<longleftrightarrow> unat (fdes s) < 2 ^ 32 - 4"

lemma keep_ok: "tab_ok s \<Longrightarrow> (\<And>x s'. r = Some (x, s') \<Longrightarrow> tab_ok s') \<Longrightarrow> tab_ok (keep s r)"
  by (auto simp: keep_def split: option.split)

lemma same_table_ok: "tab_ok s \<Longrightarrow> table s' = table s \<Longrightarrow> tab_ok s'"
  by (simp add: tab_ok_table)

lemma keep_same: "(\<And>x s'. r = Some (x, s') \<Longrightarrow> table s' = table s) \<Longrightarrow> table (keep s r) = table s"
  by (auto simp: keep_def split: option.split)

lemmas same_table = file_read_table file_write_table file_seek_table file_truncate_table

lemma rename_tab_ok:
  assumes "file_rename old new s = Some (r, s')" "tab_ok s" "unat (fdes s) < 2 ^ 32 - 4"
  shows "tab_ok s'"
proof -
  obtain s1 s2 s3 d1 d2 d3 m n1 n2 where R: "file_open new FILE_READ s = Some (d1, s1)" "s' = s1 \<or>
       file_open old FILE_READ s1 = Some (d2, s2) \<and> file_open new FILE_CREATE_NEW s2 = Some (d3, s3) \<and>
       s' = snd (file_close n2 (snd (file_close n1 (s3\<lparr>memory := m\<rparr>))))"
    using file_rename_table [OF assms(1)] by blast
  have 1: "tab_ok s1 \<and> unat (fdes s1) \<le> unat (fdes s) + 1" using open_tab_ok [OF R(1) assms(2)] assms(3) by simp
  from R(2) show ?thesis
  proof (elim disjE conjE)
    assume o: "file_open old FILE_READ s1 = Some (d2, s2)" "file_open new FILE_CREATE_NEW s2 = Some (d3, s3)"
      and s': "s' = snd (file_close n2 (snd (file_close n1 (s3\<lparr>memory := m\<rparr>))))"
    have 2: "tab_ok s2 \<and> unat (fdes s2) \<le> unat (fdes s) + 2" using open_tab_ok [OF o(1)] 1 assms(3) by simp
    have "tab_ok s3" using open_tab_ok [OF o(2)] 2 assms(3) by simp
    then show ?thesis unfolding s' using close_tab_ok [OF prod.collapse [symmetric]] tab_ok_mem by blast
  qed (use 1 in simp)
qed

lemma create_dir_tab_ok:
  assumes "create_dir p s = Some (r, s')" "tab_ok s" "unat (fdes s) < 2 ^ 32 - 4"
  shows "tab_ok s'"
proof -
  obtain d s1 where 1: "file_open p FILE_READ s = Some (d, s1)" "s' = s1 \<or> file_open p FILE_CREATE_NEW s1 = Some (r, s')"
    using assms(1) by (auto simp: create_dir_def split: bind_splits if_splits prod.splits)
  have 2: "tab_ok s1 \<and> unat (fdes s1) \<le> unat (fdes s) + 1" using open_tab_ok [OF 1(1) assms(2)] assms(3) by simp
  from 1(2) show ?thesis using 2 open_tab_ok [of p FILE_CREATE_NEW s1 r s'] assms(3) by auto
qed

lemma remove_tab_ok: "file_remove p s = Some (r, s') \<Longrightarrow> tab_ok s \<Longrightarrow> tab_ok s'"
  by (auto simp: file_remove_def file_unlink_def Let_def on_mem_def tab_ok_mem
      dest!: close_tab_ok split: bind_splits if_splits prod.splits)

lemma fat_exec_ok:
  assumes "tab_ok s" "fat_ok s c"
  shows "tab_ok (fat_exec s c)"
proof (cases c)
  case (Close d)
  then show ?thesis using assms(1) close_tab_ok [of d s "fst (file_close d s)" "snd (file_close d s)"] by simp
next
  case (Open p fl)
  then show ?thesis using assms by (auto simp: fat_ok_def intro!: keep_ok dest: open_tab_ok)
next
  case (Rename old new)
  then show ?thesis using assms by (auto simp: fat_ok_def intro!: keep_ok dest: rename_tab_ok)
next
  case (Create_dir p)
  then show ?thesis using assms by (auto simp: fat_ok_def intro!: keep_ok dest: create_dir_tab_ok)
next
  case (Remove p)
  then show ?thesis using assms by (auto intro!: keep_ok dest: remove_tab_ok)
qed (use assms(1) in \<open>auto intro!: same_table_ok [OF assms(1)] keep_same dest: same_table\<close>)

interpretation fat_ops: op_contract tab_ok fat_ok fat_exec
  by unfold_locales (rule fat_exec_ok)

text \<open>
  C29. After the file system is mounted, whatever files are opened, read, written, moved in, closed, renamed, removed
  and truncated, no two open files have the same descriptor, none has one of 0, 1 and 2, and none has the error
  result, until the descriptors run out.
\<close>

theorem descriptors_stay_distinct:
  assumes "mount_file_system dev s0 = Some (0, s)" "fat_ops.legal s ops" "s' = fat_ops.run s ops"
  shows "distinct (map fd (file_head s')) \<and> (\<forall>f\<in>set (file_head s'). 2 < unat (fd f) \<and> unat (fd f) \<le> unat (fdes s')) \<and>
    (\<forall>d f. file_of d s' = Some f \<longrightarrow> f \<in> set (file_head s') \<and> fd f = d)"
proof -
  have "tab_ok s" using assms(1) by (auto simp: mount_file_system_def tab_ok_def split: bind_splits if_splits)
  then have "tab_ok s'" using fat_ops.run_inv assms(2,3) by simp
  moreover have "f \<in> set (file_head s') \<and> fd f = d" if "file_of d s' = Some f" for d f
    using that by (auto simp: file_of_def find_Some_iff)
  ultimately show ?thesis by (simp add: tab_ok_def)
qed

text \<open>A disk of one cluster at address \<open>0x1000\<close>.\<close>

definition blank_disk :: fat32 where
  "blank_disk = \<lparr>memory = (\<lambda>_. 0)(0x100C := 2, 0x100D := 1, 0x100E := 2, 0x1010 := 1, 0x1024 := 1, 0x102C := 2, 0x1030 := 1,
       0x1052 := 0x46, 0x1053 := 0x41, 0x1054 := 0x54, 0x1055 := 0x33, 0x1056 := 0x32, 0x1057 := 0x20, 0x1058 := 0x20, 0x1059 := 0x20,
       0x1408 := 0xFF, 0x1409 := 0xFF, 0x140A := 0xFF, 0x140B := 0x0F),
     blocks = [], freed = [], bs_sector = 0, fs_infosector = 0, backup_boot_sector = 0, first_fat = 0, second_fat = 0, root_directory = 0,
     sec_size = 0, cluster_size = 0, root_dir_size = 0, rt_dir_entry_cnt = 0, rt_dir_strt_clus = 0, nxt_free_cluster = 0, dir_file_offset = 0,
     file_head = [], fdes = 0, long_file_name = 0x100, shrt_file_name = 0x200, temp_lfn = 0x300, junk = 0, increment_survives = False, call_first = False\<rparr>"

lemma blank_disk_mounts: "\<exists>s. mount_file_system 0x1000 blank_disk = Some (0, s) \<and> fdes s = 2 \<and> first_fat s = 0x1400"
proof -
  have "chk_fat32_file_system (memory blank_disk) (0x1000 + 82)"
    by (simp add: chk_fat32_file_system_def blank_disk_def upt_rec)
  moreover have "count_clusters s 2 0 = Some 1" if "first_fat s = 0x1400" "memory s = memory blank_disk" for s
    by (subst count_clusters.simps, subst count_clusters.simps)
      (simp add: that get_fat_table_entry_def read32_def blank_disk_def is_end_def fat_codes)
  ultimately show ?thesis
    by (simp add: mount_file_system_def cal_region_offsets_def Let_def) (simp add: blank_disk_def read16_def read32_def)
qed

theorem descriptors_stay_distinct_witness:
  "\<exists>s. mount_file_system 0x1000 blank_disk = Some (0, s) \<and> distinct (map fd (file_head (fat_exec s (Open 0x500 2))))"
proof -
  obtain s where s: "mount_file_system 0x1000 blank_disk = Some (0, s)" "fdes s = 2" using blank_disk_mounts by blast
  have "fat_ops.legal s [Open 0x500 2]" using s(2) by (simp add: fat_ops.legal.simps fat_ok_def)
  from descriptors_stay_distinct [OF s(1) this refl] s(1) show ?thesis by (auto simp: fat_ops.run.simps)
qed

end
