(* ===== verification/Fat32Dir.thy ===== *)
theory Fat32Dir
  imports Fat32
begin

text \<open>
  Listing directories (\<open>read_dir\<close> and \<open>list_dir\<close> of \<open>fs/fat32.c\<close>). The addresses of the two local
  arrays are arguments; the result of \<open>read_dir\<close> is the address of a \<open>file_stat\<close>, 0 at the end.
\<close>

definition SPACE_VAL :: u8 where "SPACE_VAL = 32"
definition DOT_DIR_ENTRY :: u8 where "DOT_DIR_ENTRY = 0x2E"
definition FILE_NAME_SHRT_LEN :: u32 where "FILE_NAME_SHRT_LEN = 8"

text \<open>The result is the address of the entry in the image.\<close>

partial_function (option) skip_entries :: "u32 \<Rightarrow> u32 \<Rightarrow> u32 \<Rightarrow> fat32 \<Rightarrow> (u32 option \<times> fat32) option" where
  "skip_entries d e cur_entry s =
     (if memory s e \<in> {FREE_DIR_ENTRY, DEL_DIR_ENTRY, DOT_DIR_ENTRY}
      then do {
        f \<leftarrow> file_of d s;
        let cur = cluster_to_memory_addr s (cur_cluster f) + ucast (cur_offset f);
        (read_count, s1) \<leftarrow> file_read d e DIR_ENTRY_LEN s;
        if read_count = 0 then Some (None, s1) else skip_entries d e cur s1
      }
      else Some (Some cur_entry, s))"

text \<open>
  The conversion of the short name. The entry is indexed as an array of entries, so that character
  \<open>i\<close> is read 32 \<open>i\<close> bytes behind its start.
\<close>

definition name_char :: "mem \<Rightarrow> u32 \<Rightarrow> u32 \<Rightarrow> u8" where
  "name_char m e i = m (e + i * DIR_ENTRY_LEN)"

partial_function (option) skip_spaces :: "mem \<Rightarrow> u32 \<Rightarrow> u32 \<Rightarrow> u32 option" where
  "skip_spaces m e i = (if name_char m e i = SPACE_VAL then skip_spaces m e (i + 1) else Some i)"

partial_function (option) short_name_loop :: "u32 \<Rightarrow> u32 \<Rightarrow> u32 \<Rightarrow> u32 \<Rightarrow> bool \<Rightarrow> mem \<Rightarrow> (u32 \<times> mem) option" where
  "short_name_loop e sfn index index1 set_extn_lim m =
     (if index1 < of_nat SHRT_FILE_NAME_LEN
      then do {
        let dot = (index1 = FILE_NAME_SHRT_LEN \<or> name_char m e index1 = SPACE_VAL) \<and> name_char m e FILE_NAME_SHRT_LEN \<noteq> SPACE_VAL
                  \<and> \<not> set_extn_lim;
        let m1 = (if dot then m(sfn + index := EXTN_DELIMITER) else m);
        let n = (if dot then index + 1 else index);
        i \<leftarrow> skip_spaces m1 e index1;
        short_name_loop e sfn (n + 1) (i + 1) (set_extn_lim \<or> dot) (m1(sfn + n := name_char m1 e i))
      }
      else Some (index, m))"

text \<open>The fields of \<open>file_stat\<close>: the name, at 16 \<open>lname\<close>, at 20 the size, at 28 the attributes.\<close>

definition fill_stat :: "u32 \<Rightarrow> u32 \<Rightarrow> u32 \<Rightarrow> fat32 \<Rightarrow> (u32 \<times> fat32) option" where
  "fill_stat lfn sfn e s = do {
     let (stat, s1) = sw_malloc s;
     nonnull stat;
     s2 \<leftarrow> (if memory s1 lfn \<noteq> SPACE_VAL
       then do {
         let (lname, s2) = sw_malloc s1;
         nonnull lname;
         (_, m1) \<leftarrow> sw_strcpy lname lfn (write32 (stat + 16) lname (memory s2));
         (_, m2) \<leftarrow> sw_strcpy stat e m1;
         Some (s2\<lparr>memory := m2\<rparr>)
       }
       else do {
         (_, m1) \<leftarrow> sw_strcpy stat sfn (memory s1);
         Some (s1\<lparr>memory := write32 (stat + 16) (ucast SPACE_VAL) m1\<rparr>)
       });
     let s3 = on_mem (\<lambda>m. write32 (stat + 20) (read32 m (e + 28)) m) s2;
     let s4 = on_mem (\<lambda>m. m(stat + 28 := m (e + 11))) s3;
     let s5 = on_mem (\<lambda>m. snd (sw_memset lfn (ucast SPACE_VAL) (of_nat LONG_FILE_NAME_LEN)
                                (snd (sw_memset sfn (ucast SPACE_VAL) (of_nat SHRT_FILE_NAME_LEN) m)))) s4;
     Some (stat, sw_malloc_free e s5)
   }"

definition read_dir :: "u32 \<Rightarrow> u32 \<Rightarrow> u32 \<Rightarrow> fat32 \<Rightarrow> (u32 \<times> fat32) option" where
  "read_dir lfn sfn d s = do {
     f \<leftarrow> file_of d s;
     let cur_entry = cluster_to_memory_addr s (cur_cluster f) + ucast (cur_offset f);
     let (e, s1) = sw_malloc s;
     nonnull e;
     (read_count, s2) \<leftarrow> file_read d e DIR_ENTRY_LEN (on_mem (\<lambda>m. snd (sw_memset e (ucast SPACE_VAL) DIR_ENTRY_LEN m)) s1);
     if read_count = 0 then Some (0, s2)
     else do {
       (found, s3) \<leftarrow> skip_entries d e cur_entry s2;
       (case found of None \<Rightarrow> Some (0, s3) | Some cur \<Rightarrow> do {
         s4 \<leftarrow> (if memory s3 (e + 11) = ATTR_LONG_FNAME
           then do {
             (len, cnt, _, m) \<leftarrow> get_long_file_name lfn cur (memory s3);
             g \<leftarrow> file_of d s3;
             (_, s4) \<leftarrow> file_read d e DIR_ENTRY_LEN
               (put_file (g\<lparr>cur_offset := cur_offset g + ucast ((cnt - 1) * DIR_ENTRY_LEN)\<rparr>)
                 (s3\<lparr>memory := snd (sw_memset e (ucast SPACE_VAL) DIR_ENTRY_LEN (m(lfn + len + 1 := 0)))\<rparr>));
             Some s4
           }
           else Some s3);
         (index, m) \<leftarrow> short_name_loop e sfn 0 0 False (memory s4);
         fill_stat lfn sfn e (s4\<lparr>memory := m(sfn + index + 1 := 0)\<rparr>)
       })
     }
   }"

text \<open>A directory that cannot be opened is read through a null pointer.\<close>

partial_function (option) list_loop :: "u32 \<Rightarrow> u32 \<Rightarrow> u32 \<Rightarrow> nat \<Rightarrow> fat32 \<Rightarrow> (nat \<times> fat32) option" where
  "list_loop lfn sfn d file_count s = do {
     (finfo, s1) \<leftarrow> read_dir lfn sfn d s;
     if finfo = 0 then Some (file_count, s1) else list_loop lfn sfn d (file_count + 1) s1
   }"

definition list_dir :: "u32 \<Rightarrow> u32 \<Rightarrow> u32 \<Rightarrow> fat32 \<Rightarrow> (nat \<times> fat32) option" where
  "list_dir lfn sfn p s = do {
     (fd_dir, s1) \<leftarrow> open_dir p s;
     list_loop lfn sfn fd_dir 0 s1
   }"

end
