(* ===== verification/ElfLoader.thy ===== *)
theory ElfLoader
  imports Fat32 MemMng
begin

text \<open>
  The loader of relocatable ELF files (\<open>arch/arm/armv7/elf_loader.c\<close>): it reads a file of the file
  system into memory, relocates it and copies its sections to the section of memory at
  \<open>BASE_LOAD_ADDRESS\<close>.

  Memory is that of the file system, seen through the mappings of the kernel. Parameters: the table
  of exported symbols (two addresses of the linker), the translation of addresses by the hardware,
  the address of the header on the stack and the contents of uninitialised variables. \<open>None\<close> is a
  call that does not return. The code behind the first \<open>goto out\<close> for executable files is
  unreachable and left out.
\<close>

section \<open>The file in memory\<close>

definition SHT_SYMTAB :: u32 where "SHT_SYMTAB = 2"
definition SHT_STRTAB :: u32 where "SHT_STRTAB = 3"
definition SHT_REL :: u32 where "SHT_REL = 9"
definition SHF_ALLOC :: u32 where "SHF_ALLOC = 2"
definition SHN_UNDEF :: u16 where "SHN_UNDEF = 0"
definition R_ARM_NONE :: u32 where "R_ARM_NONE = 0"
definition R_ARM_PC24 :: u32 where "R_ARM_PC24 = 1"
definition R_ARM_ABS32 :: u32 where "R_ARM_ABS32 = 2"
definition R_ARM_CALL :: u32 where "R_ARM_CALL = 28"
definition R_ARM_JUMP24 :: u32 where "R_ARM_JUMP24 = 29"
definition ET_REL :: u16 where "ET_REL = 1"
definition ET_EXEC :: u16 where "ET_EXEC = 2"
definition EM_ARM :: u16 where "EM_ARM = 40"
definition EV_CURRENT :: u32 where "EV_CURRENT = 1"

lemmas elf_codes = SHT_SYMTAB_def SHT_STRTAB_def SHT_REL_def SHF_ALLOC_def SHN_UNDEF_def R_ARM_NONE_def R_ARM_PC24_def R_ARM_ABS32_def
  R_ARM_CALL_def R_ARM_JUMP24_def ET_REL_def ET_EXEC_def EM_ARM_def EV_CURRENT_def

text \<open>The fields of the structures, by their offsets.\<close>

definition shdr :: "u32 \<Rightarrow> u32 \<Rightarrow> u32" where "shdr sec_header i = sec_header + i * 40"
definition sh_type :: "mem \<Rightarrow> u32 \<Rightarrow> u32" where "sh_type m h = read32 m (h + 4)"
definition sh_flags :: "mem \<Rightarrow> u32 \<Rightarrow> u32" where "sh_flags m h = read32 m (h + 8)"
definition sh_addr :: "mem \<Rightarrow> u32 \<Rightarrow> u32" where "sh_addr m h = read32 m (h + 12)"
definition sh_offset :: "mem \<Rightarrow> u32 \<Rightarrow> u32" where "sh_offset m h = read32 m (h + 16)"
definition sh_size :: "mem \<Rightarrow> u32 \<Rightarrow> u32" where "sh_size m h = read32 m (h + 20)"
definition sh_info :: "mem \<Rightarrow> u32 \<Rightarrow> u32" where "sh_info m h = read32 m (h + 28)"
definition st_name :: "mem \<Rightarrow> u32 \<Rightarrow> u32" where "st_name m symb = read32 m symb"
definition st_value :: "mem \<Rightarrow> u32 \<Rightarrow> u32" where "st_value m symb = read32 m (symb + 4)"
definition st_shndx :: "mem \<Rightarrow> u32 \<Rightarrow> u16" where "st_shndx m symb = read16 m (symb + 14)"

definition BASE_LOAD_ADDRESS :: u32 where "BASE_LOAD_ADDRESS = 0x90100000 + 0x300000 - 0x01000000"

record loader_env =
  SW_KSYMTAB :: u32
  SW_KSYMTAB_END :: u32
  elf_header :: u32
  va_to_pa :: "va_t \<Rightarrow> pa_t"
  uninitialised :: u32

record loader_conf =
  entry_func :: u32
  process_name :: u32
  conf_file_path :: u32
  conf_entry_point :: u32
  conf_process :: u32
  conf_elf_flag :: u32

record loader =
  disk :: fat32
  pages :: pt_state
  pool :: secure_world_mem_info

section \<open>Symbols\<close>

text \<open>The search of a symbol by its name; \<open>i\<close> is the next one and \<open>k\<close> how many are left.\<close>

fun find_symbol :: "nat \<Rightarrow> u32 \<Rightarrow> u32 \<Rightarrow> u32 \<Rightarrow> u32 \<Rightarrow> mem \<Rightarrow> u32 option option" where
  "find_symbol 0 i symb strtab name m = Some None"
| "find_symbol (Suc k) i symb strtab name m = do {
     c \<leftarrow> sw_strcmp (strtab + st_name m (symb + i * 16)) name m;
     if c = 0 then Some (Some (st_value m (symb + i * 16))) else find_symbol k (i + 1) symb strtab name m
   }"

definition find_function :: "u32 \<Rightarrow> u32 \<Rightarrow> u32 \<Rightarrow> u32 \<Rightarrow> u32 \<Rightarrow> mem \<Rightarrow> u32 option option" where
  "find_function sec_header symb name symindex strtab m =
     find_symbol (unat (sh_size m (shdr sec_header symindex) div 16) - 1) 1 symb strtab name m"

definition fix_entry_point :: "u32 \<Rightarrow> u32 \<Rightarrow> u32 \<Rightarrow> u32 \<Rightarrow> loader_conf \<Rightarrow> mem \<Rightarrow> (int \<times> loader_conf) option" where
  "fix_entry_point sec_header symb symindex strtab conf m = do {
     r \<leftarrow> find_function sec_header symb (entry_func conf) symindex strtab m;
     Some (case r of None \<Rightarrow> (- 1, conf) | Some v \<Rightarrow> (0, conf\<lparr>conf_entry_point := BASE_LOAD_ADDRESS + v\<rparr>))
   }"

definition fix_process_func :: "u32 \<Rightarrow> u32 \<Rightarrow> u32 \<Rightarrow> u32 \<Rightarrow> loader_conf \<Rightarrow> mem \<Rightarrow> (int \<times> loader_conf) option" where
  "fix_process_func sec_header symb symindex strtab conf m = do {
     r \<leftarrow> find_function sec_header symb (process_name conf) symindex strtab m;
     Some (case r of None \<Rightarrow> (- 1, conf) | Some v \<Rightarrow> (0, conf\<lparr>conf_process := BASE_LOAD_ADDRESS + v\<rparr>))
   }"

fun ksym_loop :: "nat \<Rightarrow> u32 \<Rightarrow> u32 \<Rightarrow> mem \<Rightarrow> u32 option" where
  "ksym_loop 0 sym_tab symname m = Some (- 1)"
| "ksym_loop (Suc k) sym_tab symname m = do {
     c \<leftarrow> sw_strcmp symname (read32 m (sym_tab + 4)) m;
     if c = 0 then Some (read32 m sym_tab) else ksym_loop k (sym_tab + 8) symname m
   }"

definition get_undefined_symbol_addr :: "loader_env \<Rightarrow> u32 \<Rightarrow> mem \<Rightarrow> u32 option" where
  "get_undefined_symbol_addr env symname m =
     ksym_loop (unat ((SW_KSYMTAB_END env - SW_KSYMTAB env) div 8)) (SW_KSYMTAB env) symname m"

section \<open>Relocation\<close>

text \<open>The offset in a branch instruction, as a signed number of bytes.\<close>

definition branch_offset :: "u32 \<Rightarrow> u32" where
  "branch_offset insn =
     (let off = push_bit 2 (insn AND 0xFFFFFF) in if off AND 0x2000000 \<noteq> 0 then off - 0x4000000 else off)"

definition set_branch :: "u32 \<Rightarrow> u32 \<Rightarrow> u32" where
  "set_branch insn off = (insn AND 0xFF000000) OR (signed_drop_bit 2 off AND 0xFFFFFF)"

text \<open>
  A call of an exported function: the distance is that from the address where the first section
  will be. A call inside the file: one of the bounds is compared as an unsigned number.
  \<open>None\<close> is a relocation that is refused.
\<close>

definition relocate_import :: "u32 \<Rightarrow> u32 \<Rightarrow> u32 \<Rightarrow> u32 option" where
  "relocate_import insn symbol_addr r_offset =
     (let off = branch_offset insn + (symbol_addr - (BASE_LOAD_ADDRESS + r_offset))
      in if off AND 3 \<noteq> 0 \<or> sint off \<le> - 0x2000000 \<or> sint off \<ge> 0x2000000 then None else Some (set_branch insn off))"

definition relocate_local :: "u32 \<Rightarrow> u32 \<Rightarrow> u32 \<Rightarrow> u32 option" where
  "relocate_local insn target loc =
     (let off = branch_offset insn + (target - loc)
      in if off AND 3 \<noteq> 0 \<or> off \<le> 0xFE000000 \<or> sint off \<ge> 0x2000000 then None else Some (set_branch insn off))"

text \<open>
  One entry of a relocation section. The location is kept for the next entry, because an absolute
  relocation uses the last location instead of its own.
\<close>

definition relocate_one :: "loader_env \<Rightarrow> u32 \<Rightarrow> u32 \<Rightarrow> u32 \<Rightarrow> u32 \<Rightarrow> u32 \<Rightarrow> u32 \<Rightarrow> u32 \<Rightarrow> mem \<Rightarrow> (u32 \<times> mem) option option" where
  "relocate_one env sec_header str_tab symbols sym_sec dst_sec rel loc m =
     (let r_offset = read32 m rel; r_info = read32 m (rel + 4);
          index = drop_bit 8 r_info;
          symb = symbols + index * 16;
          kind = r_info AND 0xFF;
          here = sh_addr m dst_sec + r_offset
      in if index > sh_size m sym_sec div 16 then Some None
         else if r_offset > sh_size m dst_sec - 4 then Some None
         else if kind = R_ARM_ABS32 then Some (Some (loc, write32 loc (read32 m loc + st_value m symb) m))
         else if kind \<in> {R_ARM_CALL, R_ARM_JUMP24, R_ARM_PC24}
         then if st_shndx m symb = SHN_UNDEF
              then do {
                symbol_addr \<leftarrow> get_undefined_symbol_addr env (str_tab + st_name m symb) m;
                if symbol_addr = - 1 then Some None
                else Some (map_option (\<lambda>insn. (here, write32 here insn m)) (relocate_import (read32 m here) symbol_addr r_offset))
              }
              else Some (map_option (\<lambda>insn. (here, write32 here insn m))
                     (relocate_local (read32 m here) (sh_addr m (shdr sec_header (ucast (st_shndx m symb))) + st_value m symb) here))
         else Some (Some (loc, m)))"

partial_function (option) relocate_loop ::
  "loader_env \<Rightarrow> u32 \<Rightarrow> u32 \<Rightarrow> u32 \<Rightarrow> u32 \<Rightarrow> u32 \<Rightarrow> u32 \<Rightarrow> u32 \<Rightarrow> u32 \<Rightarrow> u32 \<Rightarrow> mem \<Rightarrow> (bool \<times> mem) option" where
  "relocate_loop env sec_header str_tab symbols sym_sec dst_sec rel_sec rel i loc m =
     (if i < sh_size m rel_sec div 8
      then do {
        r \<leftarrow> relocate_one env sec_header str_tab symbols sym_sec dst_sec (rel + i * 8) loc m;
        (case r of
           None \<Rightarrow> Some (False, m)
         | Some (loc', m') \<Rightarrow> relocate_loop env sec_header str_tab symbols sym_sec dst_sec rel_sec rel (i + 1) loc' m')
      }
      else Some (True, m))"

definition apply_relocations ::
  "loader_env \<Rightarrow> u32 \<Rightarrow> u32 \<Rightarrow> u32 \<Rightarrow> u32 \<Rightarrow> u32 \<Rightarrow> bool \<Rightarrow> loader_conf \<Rightarrow> mem \<Rightarrow> (int \<times> bool \<times> loader_conf \<times> mem) option" where
  "apply_relocations env file_map sec_header str_tab symindex relindex fl conf m = do {
     let rel_sec = shdr sec_header relindex;
     let sym_sec = shdr sec_header symindex;
     let symbols = sh_addr m sym_sec;
     (good, m1) \<leftarrow> relocate_loop env sec_header str_tab symbols sym_sec
        (shdr sec_header (sh_info m rel_sec)) rel_sec (sh_addr m rel_sec) 0 (uninitialised env) m;
     if \<not> good then Some (- 1, fl, conf, m1)
     else if fl then Some (0, True, conf, m1)
     else do {
       (status, conf1) \<leftarrow> fix_entry_point sec_header symbols symindex str_tab conf m1;
       if status = - 1 then Some (- 1, fl, conf1, m1)
       else do {
         (status, conf2) \<leftarrow> fix_process_func sec_header symbols symindex str_tab conf1 m1;
         if status = - 1 then Some (- 1, fl, conf2, m1)
         else Some (0, True, conf2, write32 (file_map + 24) (conf_entry_point conf2) m1)
       }
     }
   }"

section \<open>Loading\<close>

fun load_loop :: "nat \<Rightarrow> u32 \<Rightarrow> u32 \<Rightarrow> u32 \<Rightarrow> mem \<Rightarrow> int \<times> mem" where
  "load_loop 0 sec_header i prev_addr m = (0, m)"
| "load_loop (Suc k) sec_header i prev_addr m =
     (let h = shdr sec_header i
      in if sh_flags m h AND SHF_ALLOC \<noteq> 0
         then let (status, m') = sw_memcpy prev_addr (sh_addr m h) (sh_size m h) m
              in if status = 0 then (- 1, m') else load_loop k sec_header (i + 1) (prev_addr + sh_size m' h) m'
         else load_loop k sec_header (i + 1) prev_addr m)"

definition load_into_memory :: "u32 \<Rightarrow> u32 \<Rightarrow> mem \<Rightarrow> int \<times> mem" where
  "load_into_memory file_map sec_header m =
     load_loop (unat (read16 m (file_map + 48)) - 1) sec_header 1 (BASE_LOAD_ADDRESS) m"

text \<open>The file is read in pieces; a piece of no bytes is an error. The length that is left is zero at the end.\<close>

partial_function (option) read_file_loop :: "u32 \<Rightarrow> u32 \<Rightarrow> u32 \<Rightarrow> fat32 \<Rightarrow> (bool \<times> u32 \<times> fat32) option" where
  "read_file_loop fp tmp left s = do {
     (num_bytes, s1) \<leftarrow> file_read fp tmp left s;
     if num_bytes = 0 then Some (False, left, s1)
     else if left - num_bytes > 0 then read_file_loop fp (tmp + num_bytes) (left - num_bytes) s1
     else Some (True, left - num_bytes, s1)
   }"

text \<open>The addresses of the sections are set; the last symbol table and the last string table are found.\<close>

fun section_loop :: "nat \<Rightarrow> u32 \<Rightarrow> u32 \<Rightarrow> u32 \<Rightarrow> u32 \<Rightarrow> u32 \<Rightarrow> mem \<Rightarrow> u32 \<times> u32 \<times> mem" where
  "section_loop 0 file_map sec_header i symindex strindex m = (symindex, strindex, m)"
| "section_loop (Suc k) file_map sec_header i symindex strindex m =
     (let h = shdr sec_header i
      in section_loop k file_map sec_header (i + 1)
           (if sh_type m h = SHT_SYMTAB then i else symindex) (if sh_type m h = SHT_STRTAB then i else strindex)
           (write32 (h + 12) (file_map + sh_offset m h) m))"

fun apply_loop :: "nat \<Rightarrow> loader_env \<Rightarrow> u32 \<Rightarrow> u32 \<Rightarrow> u32 \<Rightarrow> u32 \<Rightarrow> u32 \<Rightarrow> bool \<Rightarrow> loader_conf \<Rightarrow> mem \<Rightarrow> (int \<times> loader_conf \<times> mem) option" where
  "apply_loop 0 env file_map sec_header str_tab symindex i fl conf m = Some (0, conf, m)"
| "apply_loop (Suc k) env file_map sec_header str_tab symindex i fl conf m =
     (if sh_type m (shdr sec_header i) = SHT_REL
      then do {
        (status, fl1, conf1, m1) \<leftarrow> apply_relocations env file_map sec_header str_tab symindex i fl conf m;
        if status = - 1 then Some (- 1, conf1, m1)
        else apply_loop k env file_map sec_header str_tab symindex (i + 1) fl1 conf1 m1
      }
      else apply_loop k env file_map sec_header str_tab symindex (i + 1) fl conf m)"

definition relocate_image :: "loader_env \<Rightarrow> u32 \<Rightarrow> loader_conf \<Rightarrow> mem \<Rightarrow> (int \<times> loader_conf \<times> mem) option" where
  "relocate_image env file_map conf m0 = do {
     let m = snd (sw_memcpy (elf_header env) file_map 52 m0);
     let sec_header = file_map + read32 m (elf_header env + 32);
     let sh_num = unat (read16 m (elf_header env + 48));
     let (symindex, strindex, m1) = section_loop (sh_num - 1) file_map sec_header 1 (uninitialised env) (uninitialised env) m;
     let str_tab = file_map + sh_offset m1 (shdr sec_header strindex);
     (status, conf1, m2) \<leftarrow> apply_loop (sh_num - 1) env file_map sec_header str_tab symindex 1 False conf m1;
     if status = - 1 then Some (- 1, conf1, m2)
     else let (status, m3) = load_into_memory file_map sec_header m2 in Some (status, conf1, m3)
   }"

text \<open>
  The end of the function: the file map is freed with the length that is left to read, which is zero
  after a complete read, and the file is closed.
\<close>

definition finish_relocate :: "loader_env \<Rightarrow> u32 \<Rightarrow> u32 \<Rightarrow> u32 \<Rightarrow> loader \<Rightarrow> loader" where
  "finish_relocate env fp file_map left ld =
     (let ld1 = (if file_map \<noteq> 0 then ld\<lparr>pool := snd (sw_vir_addr_free (va_to_pa env) file_map left (pool ld))\<rparr> else ld)
      in if fp \<noteq> - 1 then ld1\<lparr>disk := snd (file_close fp (disk ld1))\<rparr> else ld1)"

definition relocate_elf_loader :: "loader_env \<Rightarrow> u32 \<Rightarrow> loader_conf \<Rightarrow> loader \<Rightarrow> (int \<times> loader_conf \<times> loader) option" where
  "relocate_elf_loader env fp conf ld = do {
     (len, d1) \<leftarrow> file_seek fp 0 FILE_SEEK_END (disk ld);
     if len = - 1 then Some (- 1, conf, finish_relocate env fp 0 0 (ld\<lparr>disk := d1\<rparr>))
     else do {
       (_, d2) \<leftarrow> file_seek fp 0 FILE_SEEK_SET d1;
       (file_map, pool1, pages1) \<leftarrow> sw_vir_page_alloc len (pool ld) (pages ld);
       let ld1 = ld\<lparr>disk := d2, pool := pool1, pages := pages1\<rparr>;
       if file_map = 0 then Some (- 1, conf, finish_relocate env fp 0 len ld1)
       else do {
         (complete, left, d3) \<leftarrow> read_file_loop fp file_map len d2;
         if \<not> complete then Some (- 1, conf, finish_relocate env fp file_map left (ld1\<lparr>disk := d3\<rparr>))
         else do {
           (ret, conf1, m) \<leftarrow> relocate_image env file_map conf (memory d3);
           Some (ret, conf1, finish_relocate env fp file_map left (ld1\<lparr>disk := d3\<lparr>memory := m\<rparr>\<rparr>))
         }
       }
     }
   }"

definition elf_loader_cleanup :: "loader \<Rightarrow> (int \<times> loader) option" where
  "elf_loader_cleanup ld = do {
     (status, pages1) \<leftarrow> unmap_secure_memory BASE_LOAD_ADDRESS PageTable.SECTION_SIZE (pages ld);
     Some (status, ld\<lparr>pages := pages1\<rparr>)
   }"

definition PTF_EXEC :: u32 where "PTF_EXEC = 8"
definition PTF_PROT_URW :: u32 where "PTF_PROT_URW = 3"

definition init_map_loader :: "loader_conf \<Rightarrow> loader \<Rightarrow> (int \<times> loader_conf \<times> loader) option" where
  "init_map_loader conf ld = do {
     (r, pages1) \<leftarrow> map_secure_memory BASE_LOAD_ADDRESS 0x94000000 PageTable.SECTION_SIZE (PTF_EXEC OR PTF_PROT_URW) (pages ld);
     if r \<noteq> OTZ_OK then Some (- 1, conf, ld\<lparr>pages := pages1\<rparr>)
     else Some (0, conf\<lparr>conf_elf_flag := 0x5859\<rparr>, ld\<lparr>pages := pages1\<rparr>)
   }"

text \<open>0 for a file that is not relocatable, 1 for a relocatable file, -1 for an invalid header.\<close>

definition validate_elf_header :: "loader_env \<Rightarrow> u32 \<Rightarrow> fat32 \<Rightarrow> (int \<times> fat32) option" where
  "validate_elf_header env fp d = do {
     (num_bytes, d1) \<leftarrow> file_read fp (elf_header env) 52 d;
     let h = elf_header env;
     let m = memory d1;
     Some (if num_bytes \<noteq> 52 then - 1
           else if \<not> (m h = 0x7F \<and> m (h + 1) = 0x45 \<and> m (h + 2) = 0x4C \<and> m (h + 3) = 0x46) then - 1
           else if m (h + 4) \<noteq> 1 then - 1
           else if m (h + 5) \<noteq> 1 then - 1
           else if ucast (m (h + 6)) \<noteq> EV_CURRENT then - 1
           else if read16 m (h + 18) \<noteq> EM_ARM then - 1
           else if read32 m (h + 20) \<noteq> EV_CURRENT then - 1
           else if read16 m (h + 16) = ET_REL then 1 else 0, d1)
   }"

text \<open>
  A relocatable file is closed by \<open>relocate_elf_loader\<close> and once more here; for any other file the
  function goes to its end with the result of \<open>init_map_loader\<close>.
\<close>

definition elf_load :: "loader_env \<Rightarrow> loader_conf \<Rightarrow> loader \<Rightarrow> (int \<times> loader_conf \<times> loader) option" where
  "elf_load env conf0 ld = do {
     (ret, conf, ld1) \<leftarrow> init_map_loader (conf0\<lparr>conf_elf_flag := - 1\<rparr>) ld;
     if ret \<noteq> 0 then Some (- 1, conf, ld1)
     else do {
       (fp, d1) \<leftarrow> file_open (conf_file_path conf) FILE_READ (disk ld1);
       if fp = - 1 then Some (- 1, conf, ld1\<lparr>disk := d1\<rparr>)
       else do {
         (rel, d2) \<leftarrow> validate_elf_header env fp d1;
         (ret, conf1, ld2) \<leftarrow> (if rel = 1 then relocate_elf_loader env fp conf (ld1\<lparr>disk := d2\<rparr>)
           else Some (if rel = - 1 then - 1 else ret, conf, ld1\<lparr>disk := d2\<rparr>));
         Some (ret, conf1, ld2\<lparr>disk := snd (file_close fp (disk ld2))\<rparr>)
       }
     }
   }"

end
