(* ===== verification/Rc4.thy ===== *)
theory Rc4
  imports Fat32Read "HOL-Library.Multiset"
begin

text \<open>
  The stream cipher of \<open>apps/rc4_algorithm.c\<close>, in the build without the crypto library. The state is the array of 256
  bytes on the stack, of which \<open>sw_memset\<close> leaves the last one as it was, and two indices.
\<close>

section \<open>The cipher\<close>

definition MODULO_VALUE :: nat where "MODULO_VALUE = 256"
definition INITIALIZATION_CONST :: u8 where "INITIALIZATION_CONST = 0xFF"

definition key_seq :: "u8 list" where
  "key_seq = [0x29, 0x2A, 0x28, 0x26, 0x24, 0x25, 0x5E, 0x21, 0x40, 0x23, 0x7E, 0x60, 0x2B, 0x3D]"

definition key_seq_len :: nat where "key_seq_len = 14"

text \<open>Exclusive ors that leave equal values alone.\<close>

definition swap :: "nat \<Rightarrow> nat \<Rightarrow> u8 list \<Rightarrow> u8 list" where
  "swap i j xs = xs[i := xs ! j, j := xs ! i]"

text \<open>One round of the key schedule. An entry that still has its initial value is set to the counter, also the entry at \<open>index\<close>.\<close>

definition lazy_set :: "nat \<Rightarrow> nat \<Rightarrow> u8 list \<Rightarrow> u8 list" where
  "lazy_set i v xs = (if xs ! i = INITIALIZATION_CONST then xs[i := of_nat v] else xs)"

definition schedule_step :: "nat \<Rightarrow> nat \<times> u8 list \<Rightarrow> nat \<times> u8 list" where
  "schedule_step loop_cntr = (\<lambda>(index, enc_array).
     let index' = (index + unat (enc_array ! loop_cntr) + unat (key_seq ! (loop_cntr mod key_seq_len))) mod MODULO_VALUE
     in (index', swap loop_cntr index' (lazy_set index' loop_cntr (lazy_set loop_cntr loop_cntr enc_array))))"

definition key_schedule :: "u8 \<Rightarrow> u8 list" where
  "key_schedule last_byte = snd (fold schedule_step [0..<MODULO_VALUE] (0, replicate (MODULO_VALUE - 1) INITIALIZATION_CONST @ [last_byte]))"

text \<open>The next byte of the key stream.\<close>

definition stream_step :: "nat \<times> nat \<times> u8 list \<Rightarrow> u8 \<times> nat \<times> nat \<times> u8 list" where
  "stream_step = (\<lambda>(loop_cntr, index, enc_array).
     let i = (loop_cntr + 1) mod MODULO_VALUE;
         j = (index + unat (enc_array ! i)) mod MODULO_VALUE;
         e = swap i j enc_array
     in (e ! ((unat (e ! i) + unat (e ! j)) mod MODULO_VALUE), i, j, e))"

fun crypt_loop :: "nat \<Rightarrow> nat \<times> nat \<times> u8 list \<Rightarrow> u32 \<Rightarrow> u32 \<Rightarrow> mem \<Rightarrow> mem" where
  "crypt_loop 0 x input_buf output_buf m = m"
| "crypt_loop (Suc n) x input_buf output_buf m =
     (case stream_step x of (k, y) \<Rightarrow>
        crypt_loop n y (input_buf + 1) (output_buf + 1) (m(output_buf := m input_buf XOR k)))"

text \<open>
  Results: the value of the function, \<open>*output_len\<close> and memory. The length is kept apart from memory, so a caller
  whose \<open>output_len\<close> points into the output buffer is not modelled.
\<close>

definition otzone_rc4_algorithm :: "u8 \<Rightarrow> u32 \<Rightarrow> int \<Rightarrow> u32 \<Rightarrow> mem \<Rightarrow> int \<times> int \<times> mem" where
  "otzone_rc4_algorithm last_byte input_buf input_len output_buf m =
     (0, if input_len < 0 then 0 else input_len, crypt_loop (nat input_len) (0, 0, key_schedule last_byte) input_buf output_buf m)"

section \<open>Decryption\<close>

fun key_stream :: "nat \<Rightarrow> nat \<times> nat \<times> u8 list \<Rightarrow> u8 list" where
  "key_stream 0 x = []"
| "key_stream (Suc n) x = (case stream_step x of (k, y) \<Rightarrow> k # key_stream n y)"

lemma key_stream_length [simp]: "length (key_stream n x) = n"
  by (induction n arbitrary: x) (auto split: prod.split)

lemma bytes_Suc: "bytes m a (Suc n) = m a # bytes m (a + 1) n"
  using bytes_add [of m a 1 n] by (simp add: bytes_def)

lemma crypt_loop_off: "x \<notin> span out n \<Longrightarrow> crypt_loop n s inp out m x = m x"
proof (induction n arbitrary: s inp out m)
  case (Suc n)
  have "x \<noteq> out" "x \<notin> span (out + 1) n" using Suc.prems span_add [of out 1 n] by (auto simp: span_def)
  then show ?case using Suc.IH by (simp split: prod.split)
qed simp

lemma crypt_loop_bytes:
  assumes "n \<le> 2 ^ 32" "inp = out \<or> span inp n \<inter> span out n = {}"
  shows "bytes (crypt_loop n s inp out m) out n = map2 (XOR) (bytes m inp n) (key_stream n s)"
  using assms
proof (induction n arbitrary: s inp out m)
  case (Suc n)
  obtain k y where s: "stream_step s = (k, y)" by (cases "stream_step s")
  let ?m = "m(out := m inp XOR k)"
  have out: "out \<notin> span (out + 1) n" using span_split [of 1 n out] Suc.prems(1) by (auto simp: span_def)
  have "span inp (Suc n) = insert inp (span (inp + 1) n)" for inp using span_add [of inp 1 n] by (auto simp: span_def)
  then have "inp + 1 = out + 1 \<or> span (inp + 1) n \<inter> span (out + 1) n = {}" "out \<notin> span (inp + 1) n"
    using Suc.prems(2) out by auto
  moreover from this(2) have "bytes ?m (inp + 1) n = bytes m (inp + 1) n" by (intro bytes_cong) auto
  ultimately show ?case using Suc.IH [of "inp + 1" "out + 1" y ?m] Suc.prems(1) crypt_loop_off [OF out]
    by (simp add: s bytes_Suc del: fun_upd_apply) simp
qed (simp add: bytes_def)

lemma map2_xor_cancel: "length ks = length xs \<Longrightarrow> map2 (XOR) (map2 (XOR) xs ks) ks = (xs :: u8 list)"
  by (induction xs ks rule: list_induct2') (simp_all add: xor.assoc)

text \<open>
  C31. Encrypting and then decrypting gives the text back, in place or between buffers that do not overlap, when the byte
  of the stack that the key schedule reads without setting it is the same both times; the length is reported and no
  byte outside the output is written.
\<close>

theorem rc4_roundtrip:
  assumes "otzone_rc4_algorithm b text len cipher m = (r, n, m1)" "otzone_rc4_algorithm b cipher len plain m1 = (r', n', m2)"
    and "0 \<le> len" "len < 2 ^ 31"
    and "text = cipher \<or> span text (nat len) \<inter> span cipher (nat len) = {}" "cipher = plain \<or> span cipher (nat len) \<inter> span plain (nat len) = {}"
  shows "bytes m2 plain (nat len) = bytes m text (nat len) \<and> n = len \<and> n' = len \<and> r = 0 \<and> r' = 0 \<and>
    (\<forall>x. x \<notin> span cipher (nat len) \<union> span plain (nat len) \<longrightarrow> m2 x = m x)"
proof -
  let ?k = "key_stream (nat len) (0, 0, key_schedule b)"
  have m1: "m1 = crypt_loop (nat len) (0, 0, key_schedule b) text cipher m" and m2: "m2 = crypt_loop (nat len) (0, 0, key_schedule b) cipher plain m1"
    using assms(1,2) by (auto simp: otzone_rc4_algorithm_def)
  have len: "nat len \<le> 2 ^ 32" using assms(4) by simp
  have "bytes m2 plain (nat len) = map2 (XOR) (map2 (XOR) (bytes m text (nat len)) ?k) ?k"
    unfolding m2 crypt_loop_bytes [OF len assms(6)] unfolding m1 crypt_loop_bytes [OF len assms(5)] ..
  also have "\<dots> = bytes m text (nat len)" by (rule map2_xor_cancel) simp
  finally show ?thesis using assms(1-3) by (auto simp: otzone_rc4_algorithm_def m1 m2 crypt_loop_off)
qed

theorem rc4_roundtrip_witness:
  "\<exists>m1 m2. otzone_rc4_algorithm 0 0x100 2 0x200 (\<lambda>_. 7) = (0, 2, m1) \<and> otzone_rc4_algorithm 0 0x200 2 0x300 m1 = (0, 2, m2) \<and>
     bytes m2 0x300 2 = [7, 7]"
proof -
  obtain r n m1 where 1: "otzone_rc4_algorithm 0 0x100 2 0x200 (\<lambda>_. 7) = (r, n, m1)" by (rule prod_cases3)
  obtain r' n' m2 where 2: "otzone_rc4_algorithm 0 0x200 2 0x300 m1 = (r', n', m2)" by (rule prod_cases3)
  have "{..<2 :: nat} = {0, 1}" by auto
  then have apart: "span 0x100 2 \<inter> span 0x200 2 = {}" "span 0x200 2 \<inter> span 0x300 2 = {}" by (simp_all add: span_def)
  have "bytes (\<lambda>_. 7) 0x100 2 = [7, 7]" by (simp add: bytes_def numeral_2_eq_2)
  with rc4_roundtrip [OF 1 2] 1 2 apart show ?thesis by simp
qed

section \<open>The key schedule\<close>

lemma swap_mset: "i < length xs \<Longrightarrow> j < length xs \<Longrightarrow> mset (swap i j xs) = mset xs"
  unfolding swap_def by (rule mset_swap)

lemma lazy_set_zeros: "i < length xs \<Longrightarrow> count (mset xs) 0 \<le> count (mset (lazy_set i v xs)) 0"
  by (auto simp: lazy_set_def mset_update INITIALIZATION_CONST_def)

lemma lazy_set_length [simp]: "length (lazy_set i v xs) = length xs"
  by (simp add: lazy_set_def)

lemma schedule_step_zeros:
  assumes "i < 256" "length xs = 256"
  shows "length (snd (schedule_step i (j, xs))) = 256 \<and> count (mset xs) 0 \<le> count (mset (snd (schedule_step i (j, xs)))) 0"
proof -
  let ?j = "(j + unat (xs ! i) + unat (key_seq ! (i mod key_seq_len))) mod MODULO_VALUE"
  have "?j < 256" by (simp add: MODULO_VALUE_def)
  then have "mset (snd (schedule_step i (j, xs))) = mset (lazy_set ?j i (lazy_set i i xs))"
    using assms by (simp add: schedule_step_def Let_def swap_mset)
  moreover have "count (mset xs) 0 \<le> count (mset (lazy_set ?j i (lazy_set i i xs))) 0"
    using assms \<open>?j < 256\<close> lazy_set_zeros [of i xs i] lazy_set_zeros [of ?j "lazy_set i i xs" i] by simp
  ultimately show ?thesis using assms by (simp add: schedule_step_def Let_def swap_def)
qed

lemma schedule_zeros:
  "set is \<subseteq> {..<256} \<Longrightarrow> length (snd x) = 256 \<Longrightarrow>
    length (snd (fold schedule_step is x)) = 256 \<and> count (mset (snd x)) 0 \<le> count (mset (snd (fold schedule_step is x))) 0"
proof (induction "is" arbitrary: x)
  case (Cons i "is")
  obtain j xs where x: "x = (j, xs)" by (cases x)
  show ?case using schedule_step_zeros [of i xs j] Cons by (fastforce simp: x)
qed simp

text \<open>
  The key schedule does not produce a permutation of the 256 bytes, whatever the byte on the stack is: two entries
  are zero, so some byte never appears in the state that RC4 needs to be a permutation.
\<close>

theorem key_schedule_not_permutation:
  "2 \<le> count (mset (key_schedule b)) 0 \<and> length (key_schedule b) = 256 \<and> set (key_schedule b) \<noteq> UNIV"
proof -
  let ?xs = "replicate (MODULO_VALUE - 1) INITIALIZATION_CONST @ [b]"
  let ?s = "schedule_step 0 (0, ?xs)"
  have at: "?xs ! 0 = 0xFF" "?xs ! 40 = 0xFF" "length ?xs = 256" by (simp_all add: MODULO_VALUE_def INITIALIZATION_CONST_def nth_append)
  have "snd ?s = swap 0 40 (?xs[0 := 0, 40 := 0])"
    using at by (simp add: schedule_step_def Let_def lazy_set_def key_seq_def key_seq_len_def MODULO_VALUE_def INITIALIZATION_CONST_def del: nth_append)
  then have "mset (snd ?s) = mset (?xs[0 := 0, 40 := 0])" using at(3) by (simp add: swap_mset)
  then have s: "2 \<le> count (mset (snd ?s)) 0" "length (snd ?s) = 256"
    using at schedule_step_zeros [of 0 ?xs 0] by (simp_all add: mset_update)
  have "[0..<MODULO_VALUE] = 0 # [1..<256]" by (simp add: MODULO_VALUE_def upt_conv_Cons del: upt_Suc)
  then have k: "key_schedule b = snd (fold schedule_step [1..<256] ?s)" unfolding key_schedule_def by (simp only: fold_simps)
  have two: "2 \<le> count (mset (key_schedule b)) 0" "length (key_schedule b) = 256"
    unfolding k using schedule_zeros [OF _ s(2), of "[1..<256]"] s(1) by (simp_all add: subset_iff del: upt_Suc)
  have "set (key_schedule b) \<noteq> UNIV"
  proof
    assume all: "set (key_schedule b) = UNIV"
    have "card (UNIV :: u8 set) = 256" by (simp add: card_word)
    then have "distinct (key_schedule b)" using all two(2) by (intro card_distinct) simp
    then show False using two(1) by (auto simp: distinct_count_atmost_1 split: if_splits)
  qed
  with two show ?thesis by blast
qed

end
