(* ===== verification/FileLib.thy ===== *)
theory FileLib
  imports Fat32
begin

text \<open>
  The buffered files of \<open>lib/sw_filelib.c\<close> over the file system, with the functions of
  \<open>lib/sw_syslibc.c\<close> and \<open>lib/libc_sos.c\<close> between them, built with \<open>CONFIG_FILESYSTEM_SUPPORT\<close>.

  A \<open>FILE *\<close> is the index of a record in \<open>BUF_IO\<close>. Parameters in the state: the address of that
  array (\<open>fclose\<close> gives addresses in it to \<open>sw_free\<close>), and the addresses of the array \<open>un_ch\<close> and
  of the local variable \<open>c_val\<close> on the stack. Messages are left out.
\<close>

section \<open>State\<close>

record sw_file =
  chr_count :: u32
  fdesp :: u32
  io_flags :: u32
  buf_size :: u32
  buf_base :: u32
  chr_ptr :: u32

record streams =
  disk :: fat32
  BUF_IO :: "sw_file list"
  errno :: u32
  buf_io_addr :: u32
  un_ch :: u32
  c_val :: u32

definition SW_READ :: u32 where "SW_READ = 1"
definition SW_WRITE :: u32 where "SW_WRITE = 2"
definition SW_RDWR :: u32 where "SW_RDWR = SW_READ OR SW_WRITE"
definition SW_CREATE_NEW :: u32 where "SW_CREATE_NEW = 4"
definition SW_CREATE_ALWAYS :: u32 where "SW_CREATE_ALWAYS = 8"
definition SW_APPEND :: u32 where "SW_APPEND = 0x10"
definition SW_UNBUF :: u32 where "SW_UNBUF = 4"
definition SW_EOF :: u32 where "SW_EOF = 0x10"
definition SW_ERROR :: u32 where "SW_ERROR = 0x20"
definition SW_IOFIFO :: u32 where "SW_IOFIFO = 0x40"
definition SW_MYBUF :: u32 where "SW_MYBUF = 8"
definition SW_IOLBF :: u32 where "SW_IOLBF = 0x40"
definition SW_FILEOPEN_MAX :: nat where "SW_FILEOPEN_MAX = 20"
definition SIZE_BUF :: u32 where "SIZE_BUF = 1024"
definition EOF :: u32 where "EOF = - 1"
definition ENOENT :: u32 where "ENOENT = 2"
definition EACCES :: u32 where "EACCES = 13"
definition ENOSPC :: u32 where "ENOSPC = 28"

lemmas io_codes = SW_READ_def SW_WRITE_def SW_RDWR_def SW_CREATE_NEW_def SW_CREATE_ALWAYS_def SW_APPEND_def SW_UNBUF_def
  SW_EOF_def SW_ERROR_def SW_IOFIFO_def SW_MYBUF_def SW_IOLBF_def SIZE_BUF_def EOF_def ENOENT_def EACCES_def ENOSPC_def

definition closed_file :: sw_file where
  "closed_file = \<lparr>chr_count = 0, fdesp = 0, io_flags = 0, buf_size = 0, buf_base = 0, chr_ptr = 0\<rparr>"

text \<open>The standard streams come first.\<close>

definition initial_files :: "sw_file list" where
  "initial_files =
     [closed_file\<lparr>io_flags := SW_READ\<rparr>, closed_file\<lparr>fdesp := 1, io_flags := SW_WRITE\<rparr>,
      closed_file\<lparr>fdesp := 2, io_flags := SW_WRITE OR SW_IOLBF\<rparr>] @ replicate (SW_FILEOPEN_MAX - 3) closed_file"

definition stdout :: nat where "stdout = 1"

definition stream :: "nat \<Rightarrow> streams \<Rightarrow> sw_file" where
  "stream i s = BUF_IO s ! i"

definition upd :: "nat \<Rightarrow> (sw_file \<Rightarrow> sw_file) \<Rightarrow> streams \<Rightarrow> streams" where
  "upd i g s = s\<lparr>BUF_IO := (BUF_IO s)[i := g (BUF_IO s ! i)]\<rparr>"

definition has :: "nat \<Rightarrow> u32 \<Rightarrow> streams \<Rightarrow> bool" where
  "has i b s \<longleftrightarrow> io_flags (stream i s) AND b \<noteq> 0"

definition set_flag :: "nat \<Rightarrow> u32 \<Rightarrow> streams \<Rightarrow> streams" where
  "set_flag i b = upd i (\<lambda>f. f\<lparr>io_flags := io_flags f OR b\<rparr>)"

definition put_byte :: "u32 \<Rightarrow> u8 \<Rightarrow> streams \<Rightarrow> streams" where
  "put_byte a v s = s\<lparr>disk := on_mem (\<lambda>m. m(a := v)) (disk s)\<rparr>"

section \<open>The file system\<close>

definition on_disk :: "(fat32 \<Rightarrow> (u32 \<times> fat32) option) \<Rightarrow> streams \<Rightarrow> (u32 \<times> streams) option" where
  "on_disk g s = map_option (\<lambda>(r, d). (r, s\<lparr>disk := d\<rparr>)) (g (disk s))"

definition f_open :: "u32 \<Rightarrow> u32 \<Rightarrow> streams \<Rightarrow> (u32 \<times> streams) option" where
  "f_open name flags = on_disk (file_open name flags)"

definition f_read :: "u32 \<Rightarrow> u32 \<Rightarrow> u32 \<Rightarrow> streams \<Rightarrow> (u32 \<times> streams) option" where
  "f_read file ptr len = on_disk (file_read file ptr len)"

definition f_write :: "u32 \<Rightarrow> u32 \<Rightarrow> u32 \<Rightarrow> streams \<Rightarrow> (u32 \<times> streams) option" where
  "f_write file ptr len = on_disk (file_write file ptr len)"

definition f_lseek :: "u32 \<Rightarrow> u32 \<Rightarrow> u32 \<Rightarrow> streams \<Rightarrow> (u32 \<times> streams) option" where
  "f_lseek file offset flags = on_disk (file_seek file offset flags)"

definition f_close :: "u32 \<Rightarrow> streams \<Rightarrow> (u32 \<times> streams) option" where
  "f_close file = on_disk (\<lambda>d. Some (file_close file d))"

definition f_remove :: "u32 \<Rightarrow> streams \<Rightarrow> (u32 \<times> streams) option" where
  "f_remove p s = do { (r, s1) \<leftarrow> on_disk (file_remove p) s; Some (if r = - 1 then - 1 else 0, s1) }"

definition libc_remove :: "u32 \<Rightarrow> streams \<Rightarrow> (u32 \<times> streams) option" where
  "libc_remove p s = do { (r, s1) \<leftarrow> f_remove p s; Some (if r = - 1 then - 1 else 0, s1) }"

text \<open>\<open>buff\<close> is the array of zeros on the stack of \<open>file_truncate\<close>.\<close>

definition libc_truncate :: "u32 \<Rightarrow> u32 \<Rightarrow> u32 \<Rightarrow> streams \<Rightarrow> (u32 \<times> streams) option" where
  "libc_truncate buff p len s = do { (r, s1) \<leftarrow> on_disk (file_truncate buff p len) s; Some (if r = - 1 then - 1 else 0, s1) }"

definition libc_rename :: "u32 \<Rightarrow> u32 \<Rightarrow> streams \<Rightarrow> (u32 \<times> streams) option" where
  "libc_rename old_name new_name s = do { (r, s1) \<leftarrow> on_disk (file_rename old_name new_name) s; Some (if r = - 1 then - 1 else 0, s1) }"

section \<open>Buffers\<close>

text \<open>A seek or an error reported by the file system, which sets the error flag.\<close>

definition fails :: "nat \<Rightarrow> streams \<Rightarrow> (u32 \<times> streams) option" where
  "fails i s = Some (EOF, set_flag i SW_ERROR s)"

definition seek_append :: "nat \<Rightarrow> u32 \<Rightarrow> streams \<Rightarrow> (u32 \<times> streams) option" where
  "seek_append i result s =
     (if has i SW_APPEND s
      then do { (r, s1) \<leftarrow> f_lseek (fdesp (stream i s)) 0 FILE_SEEK_END s; if r = - 1 then fails i s1 else Some (result, s1) }
      else Some (result, s))"

definition clear_read :: "nat \<Rightarrow> streams \<Rightarrow> (u32 \<times> streams) option" where
  "clear_read i s =
     (if has i SW_IOFIFO s then Some (0, s)
      else do {
        (r, s1) \<leftarrow> f_lseek (fdesp (stream i s)) (- chr_count (stream i s)) FILE_SEEK_CUR (upd i (\<lambda>f. f\<lparr>chr_count := 0\<rparr>) s);
        if r = - 1 then fails i s1 else Some (0, upd i (\<lambda>f. f\<lparr>chr_ptr := buf_base f\<rparr>) s1)
      })"

definition clear_write :: "nat \<Rightarrow> streams \<Rightarrow> (u32 \<times> streams) option" where
  "clear_write i s =
     (let f = stream i s; num_items = chr_ptr f - buf_base f; s0 = upd i (\<lambda>f. f\<lparr>chr_ptr := buf_base f\<rparr>) s
      in if sint num_items \<le> 0 then Some (0, s0)
         else do {
           (r, s1) \<leftarrow> seek_append i 0 s0;
           if r \<noteq> 0 then Some (EOF, s1)
           else do {
             (write_count, s2) \<leftarrow> f_write (fdesp f) (buf_base f) num_items s1;
             let s3 = upd i (\<lambda>f. f\<lparr>chr_count := 0\<rparr>) s2;
             if num_items \<noteq> write_count then fails i s3 else Some (0, s3)
           }
         })"

definition clear_one :: "nat \<Rightarrow> streams \<Rightarrow> (u32 \<times> streams) option" where
  "clear_one i s =
     (if \<not> has i SW_RDWR s \<or> buf_base (stream i s) = 0 \<or> has i SW_UNBUF s then Some (0, s)
      else if has i SW_READ s then clear_read i s
      else clear_write i s)"

text \<open>All streams of the list that satisfy a condition; the result tells whether one failed.\<close>

fun clear_streams :: "(nat \<Rightarrow> streams \<Rightarrow> bool) \<Rightarrow> nat list \<Rightarrow> u32 \<Rightarrow> streams \<Rightarrow> (u32 \<times> streams) option" where
  "clear_streams sel [] clear_val s = Some (clear_val, s)"
| "clear_streams sel (i # is) clear_val s =
     (if sel i s then do { (r, s1) \<leftarrow> clear_one i s; clear_streams sel is (if r \<noteq> 0 then EOF else clear_val) s1 }
      else clear_streams sel is clear_val s)"

text \<open>With a null pointer the loop over the streams does not advance and never ends.\<close>

definition sw_clear_stream :: "nat option \<Rightarrow> streams \<Rightarrow> (u32 \<times> streams) option" where
  "sw_clear_stream instream s = (case instream of None \<Rightarrow> None | Some i \<Rightarrow> clear_one i s)"

definition line_buffered :: "nat \<Rightarrow> streams \<Rightarrow> bool" where
  "line_buffered i s \<longleftrightarrow> has i SW_IOLBF s \<and> has i SW_WRITE s"

definition new_buffer :: "nat \<Rightarrow> streams \<Rightarrow> u32 \<times> streams" where
  "new_buffer i s = (case sw_malloc (disk s) of (a, d) \<Rightarrow> (a, upd i (\<lambda>f. f\<lparr>buf_base := a\<rparr>) (s\<lparr>disk := d\<rparr>)))"

definition read_buffer :: "nat \<Rightarrow> streams \<Rightarrow> streams" where
  "read_buffer i s =
     (if \<not> has i SW_UNBUF s \<and> buf_base (stream i s) = 0
      then case new_buffer i s of (a, s1) \<Rightarrow>
        if a \<noteq> 0 then set_flag i SW_MYBUF (upd i (\<lambda>f. f\<lparr>buf_size := SIZE_BUF\<rparr>) s1) else set_flag i SW_UNBUF s1
      else s)"

text \<open>The buffer of an unbuffered stream is a byte of an array of the function, which is gone when it returns.\<close>

definition fill_buffer :: "nat \<Rightarrow> streams \<Rightarrow> (u32 \<times> streams) option" where
  "fill_buffer i s = do {
     let small = (buf_base (stream i s) = 0);
     let s1 = (if small then upd i (\<lambda>f. f\<lparr>buf_base := un_ch s + fdesp f\<rparr>) s else s);
     let s2 = upd i (\<lambda>f. f\<lparr>buf_size := if small then 1 else SIZE_BUF, chr_ptr := buf_base f\<rparr>) s1;
     let f = stream i s2;
     (n, s3) \<leftarrow> f_read (fdesp f) (chr_ptr f) (buf_size f) s2;
     let s4 = upd i (\<lambda>f. f\<lparr>chr_count := n\<rparr>) s3;
     if sint n \<le> 0
     then Some (EOF, upd i (\<lambda>f. f\<lparr>buf_base := 0, chr_ptr := 0, chr_count := 0\<rparr>) (set_flag i (if n = 0 then SW_EOF else SW_ERROR) s4))
     else Some (1, s4)
   }"

definition sw_occupy_buffer :: "nat \<Rightarrow> streams \<Rightarrow> (u32 \<times> streams) option" where
  "sw_occupy_buffer i s' =
     (let s = upd i (\<lambda>f. f\<lparr>chr_count := 0\<rparr>) s'
      in if sint (fdesp (stream i s)) < 0 \<or> has i (SW_EOF OR SW_ERROR) s then Some (EOF, s)
         else if \<not> (has i SW_WRITE s \<and> has i SW_READ s) \<and> (has i SW_WRITE s \<or> \<not> has i SW_READ s) then fails i s
         else do {
           (_, s1) \<leftarrow> clear_streams line_buffered [0..<SW_FILEOPEN_MAX] 0 (read_buffer i s);
           fill_buffer i s1
         })"

definition written_to :: "nat \<Rightarrow> streams \<Rightarrow> bool" where
  "written_to i s \<longleftrightarrow> has i SW_WRITE s \<or> has i SW_APPEND s"

definition write_buffer :: "nat \<Rightarrow> streams \<Rightarrow> streams" where
  "write_buffer i s =
     (if \<not> has i SW_UNBUF s \<and> buf_base (stream i s) = 0
      then case new_buffer i s of (a, s1) \<Rightarrow>
        upd i (\<lambda>f. f\<lparr>chr_ptr := buf_base f\<rparr>)
          (if a = 0 then set_flag i SW_UNBUF s1
           else if i \<noteq> stdout
           then upd i (\<lambda>f. f\<lparr>buf_size := SIZE_BUF, io_flags := io_flags f OR SW_MYBUF,
                             chr_count := if io_flags f AND SW_IOLBF \<noteq> 0 then - 1 else SIZE_BUF - 1\<rparr>) s1
           else upd i (\<lambda>f. f\<lparr>buf_size := SIZE_BUF, io_flags := SW_IOLBF OR SW_MYBUF, chr_count := - 1\<rparr>) s1)
      else s)"

text \<open>The three ways to write the byte: line buffered, unbuffered, buffered.\<close>

definition write_line :: "u8 \<Rightarrow> nat \<Rightarrow> streams \<Rightarrow> (u32 \<times> streams) option" where
  "write_line ch i s =
     (let f = stream i s; s1 = upd i (\<lambda>f. f\<lparr>chr_ptr := chr_ptr f + 1\<rparr>) (put_byte (chr_ptr f) ch s)
      in if ch = 0x0A \<or> chr_count f = - buf_size f
         then do {
           (n, s2) \<leftarrow> f_write (fdesp f) (buf_base f) (- chr_count f) (upd i (\<lambda>f. f\<lparr>chr_ptr := buf_base f, chr_count := 0\<rparr>) s1);
           if n = 0 then fails i s2 else seek_append i (ucast ch) s2
         }
         else Some (ucast ch, s1))"

definition write_unbuffered :: "u8 \<Rightarrow> nat \<Rightarrow> streams \<Rightarrow> (u32 \<times> streams) option" where
  "write_unbuffered ch i s = do {
     let s1 = upd i (\<lambda>f. f\<lparr>chr_count := 0\<rparr>) (s\<lparr>disk := on_mem (write32 (c_val s) (ucast ch)) (disk s)\<rparr>);
     (n, s2) \<leftarrow> f_write (fdesp (stream i s)) (c_val s) 1 s1;
     if n \<noteq> 1 then fails i s2 else seek_append i (ucast ch) s2
   }"

definition write_buffered :: "u8 \<Rightarrow> nat \<Rightarrow> streams \<Rightarrow> (u32 \<times> streams) option" where
  "write_buffered ch i s =
     (let f = stream i s; fw_count = chr_ptr f - buf_base f;
          s1 = upd i (\<lambda>f. f\<lparr>chr_count := buf_size f - 1, chr_ptr := buf_base f + 1\<rparr>) s
      in if 0 < sint fw_count
         then do {
           (n, s2) \<leftarrow> f_write (fdesp f) (buf_base f) fw_count s1;
           if n = 0 then fails i (put_byte (buf_base f) ch s2)
           else do {
             (r, s3) \<leftarrow> seek_append i (ucast ch) s2;
             if r = EOF then Some (EOF, s3) else Some (ucast ch, put_byte (buf_base f) ch s3)
           }
         }
         else Some (ucast ch, put_byte (buf_base f) ch s1))"

definition sw_flushbuffer :: "u8 \<Rightarrow> nat \<Rightarrow> streams \<Rightarrow> (u32 \<times> streams) option" where
  "sw_flushbuffer ch i s' = do {
     (_, s) \<leftarrow> clear_streams written_to [0..<SW_FILEOPEN_MAX] 0 s';
     if sint (fdesp (stream i s)) < 0 then Some (- 1, s)
     else if has i SW_READ s \<and> \<not> has i SW_EOF s \<or> \<not> has i SW_WRITE s then Some (EOF, s)
     else let s1 = write_buffer i (upd i (\<lambda>f. f\<lparr>io_flags := (io_flags f AND NOT SW_READ) OR SW_WRITE\<rparr>) s)
          in if has i SW_IOLBF s1 then write_line ch i s1
             else if has i SW_UNBUF s1 then write_unbuffered ch i s1
             else write_buffered ch i s1
   }"

section \<open>Files\<close>

fun free_stream :: "sw_file list \<Rightarrow> nat \<Rightarrow> nat option" where
  "free_stream [] i = None"
| "free_stream (f # fs) i =
     (if io_flags f AND SW_RDWR \<noteq> 0 then if i = SW_FILEOPEN_MAX - 1 then None else free_stream fs (i + 1) else Some i)"

text \<open>A stream whose file cannot be opened keeps its flags. The result is \<open>None\<close> for a null pointer.\<close>

definition fopen :: "u32 \<Rightarrow> u32 \<Rightarrow> streams \<Rightarrow> (nat option \<times> streams) option" where
  "fopen name md s =
     (case free_stream (BUF_IO s) 0 of
        None \<Rightarrow> Some (None, s\<lparr>errno := ENOSPC\<rparr>)
      | Some i \<Rightarrow>
          let m = memory (disk s); c = m md; plus = (m (md + 1) = 0x2B)
          in if c \<notin> {0x72, 0x77, 0x61} then Some (None, s\<lparr>errno := EACCES\<rparr>)
             else do {
               let fl = (if c = 0x72 then SW_READ OR (if plus then SW_WRITE else 0)
                         else SW_WRITE OR SW_CREATE_ALWAYS OR SW_CREATE_NEW OR (if plus then SW_READ else 0));
               (fd, s1) \<leftarrow> f_open name fl (upd i (\<lambda>f. f\<lparr>io_flags := fl\<rparr>) s);
               s2 \<leftarrow> (if c = 0x61 \<and> fd \<noteq> - 1
                 then do { (_, s2) \<leftarrow> f_lseek fd 0 FILE_SEEK_END s1; Some (set_flag i SW_APPEND s2) }
                 else Some s1);
               if sint fd < 0 then Some (None, s2\<lparr>errno := ENOENT\<rparr>)
               else Some (Some i, upd i (\<lambda>f. f\<lparr>chr_count := 0, fdesp := fd, buf_base := 0\<rparr>) s2)
             })"

text \<open>One byte from the buffer to memory.\<close>

definition take_byte :: "u32 \<Rightarrow> nat \<Rightarrow> streams \<Rightarrow> streams" where
  "take_byte localbuf i s =
     upd i (\<lambda>f. f\<lparr>chr_ptr := chr_ptr f + 1\<rparr>) (put_byte localbuf (memory (disk s) (chr_ptr (stream i s))) s)"

definition count_down :: "nat \<Rightarrow> streams \<Rightarrow> streams" where
  "count_down i = upd i (\<lambda>f. f\<lparr>chr_count := chr_count f - 1\<rparr>)"

definition read_byte :: "u32 \<Rightarrow> nat \<Rightarrow> streams \<Rightarrow> (bool \<times> streams) option" where
  "read_byte localbuf i s =
     (let s0 = count_down i s
      in if sint (chr_count (stream i s0)) \<ge> 0 then Some (True, take_byte localbuf i s0)
         else do {
           (r, s1) \<leftarrow> sw_occupy_buffer i s0;
           if r \<noteq> EOF then Some (True, take_byte localbuf i (count_down i s1)) else Some (False, s1)
         })"

fun read_element :: "nat \<Rightarrow> u32 \<Rightarrow> nat \<Rightarrow> streams \<Rightarrow> (bool \<times> streams) option" where
  "read_element 0 localbuf i s = Some (True, s)"
| "read_element (Suc k) localbuf i s = do {
     (ok, s1) \<leftarrow> read_byte localbuf i s;
     if ok then read_element k (localbuf + 1) i s1 else Some (False, s1)
   }"

fun fread_loop :: "nat \<Rightarrow> nat \<Rightarrow> u32 \<Rightarrow> u32 \<Rightarrow> nat \<Rightarrow> streams \<Rightarrow> (u32 \<times> streams) option" where
  "fread_loop 0 esize localbuf read_count i s = Some (read_count, s)"
| "fread_loop (Suc n) esize localbuf read_count i s = do {
     (ok, s1) \<leftarrow> read_element esize localbuf i s;
     if ok then fread_loop n esize (localbuf + of_nat esize) (read_count + 1) i s1 else Some (read_count, s1)
   }"

definition fread :: "u32 \<Rightarrow> u32 \<Rightarrow> u32 \<Rightarrow> nat \<Rightarrow> streams \<Rightarrow> (u32 \<times> streams) option" where
  "fread out_buf esize count i s =
     (if esize = 0 \<or> count = 0 then Some (- 1, s)
      else do {
        (read_count, s1) \<leftarrow> fread_loop (unat count) (unat esize) out_buf 0 i s;
        Some (if has i SW_ERROR s1 then - 1 else read_count, s1)
      })"

definition write_byte :: "u32 \<Rightarrow> nat \<Rightarrow> streams \<Rightarrow> (bool \<times> streams) option" where
  "write_byte cp i s =
     (let s0 = count_down i s; ch = memory (disk s) cp
      in if sint (chr_count (stream i s0)) \<ge> 0
         then Some (True, upd i (\<lambda>f. f\<lparr>chr_ptr := chr_ptr f + 1\<rparr>) (put_byte (chr_ptr (stream i s0)) ch s0))
         else do { (r, s1) \<leftarrow> sw_flushbuffer ch i s0; Some (r \<noteq> EOF, s1) })"

fun write_element :: "nat \<Rightarrow> u32 \<Rightarrow> nat \<Rightarrow> streams \<Rightarrow> (bool \<times> streams) option" where
  "write_element 0 cp i s = Some (True, s)"
| "write_element (Suc k) cp i s = do {
     (ok, s1) \<leftarrow> write_byte cp i s;
     if ok then write_element k (cp + 1) i s1 else Some (False, s1)
   }"

text \<open>The result tells how many elements were written and whether all were.\<close>

fun fwrite_loop :: "nat \<Rightarrow> nat \<Rightarrow> u32 \<Rightarrow> u32 \<Rightarrow> nat \<Rightarrow> streams \<Rightarrow> (bool \<times> u32 \<times> streams) option" where
  "fwrite_loop 0 esize cp new i s = Some (True, new, s)"
| "fwrite_loop (Suc n) esize cp new i s = do {
     (ok, s1) \<leftarrow> write_element esize cp i s;
     if ok then fwrite_loop n esize (cp + of_nat esize) (new + 1) i s1 else Some (False, new, s1)
   }"

text \<open>After the bytes have gone through the stream, the function writes them to the file once more.\<close>

definition fwrite :: "u32 \<Rightarrow> u32 \<Rightarrow> u32 \<Rightarrow> nat \<Rightarrow> streams \<Rightarrow> (u32 \<times> streams) option" where
  "fwrite content esize count i s =
     (if count = 0 then Some (- 1, s)
      else if esize = 0 then Some (- 1, s)
      else if count OR esize > 0xFFFF \<and> count > SIZE_BUF div esize
      then Some (- 1, upd i (\<lambda>f. f\<lparr>io_flags := 0\<rparr>) (s\<lparr>errno := ENOSPC\<rparr>))
      else do {
        (complete, new, s1) \<leftarrow> fwrite_loop (unat count) (unat esize) content 0 i s;
        if \<not> complete then Some (new, s1)
        else do {
          (w_count, s2) \<leftarrow> f_write (fdesp (stream i s1)) content count s1;
          if w_count = 0 then Some (0, s2)
          else let n = w_count * esize in Some (if new \<noteq> n div esize then - 1 else n, s2)
        }
      })"

text \<open>The record is cleared before anything is written or freed, so the buffer is dropped; the record itself is freed.\<close>

definition fclose :: "nat \<Rightarrow> streams \<Rightarrow> (u32 \<times> streams) option" where
  "fclose i s = do {
     let s0 = upd i (\<lambda>f. f\<lparr>chr_count := 0, io_flags := 0, buf_size := 0, buf_base := 0, chr_ptr := 0\<rparr>) s;
     if i = SW_FILEOPEN_MAX - 1 then Some (EOF, s0)
     else do {
       (_, s1) \<leftarrow> sw_clear_stream (Some i) s0;
       (ret_val, s2) \<leftarrow> f_close (fdesp (stream i s1)) s1;
       if ret_val = - 1 then Some (ret_val, s2)
       else do {
         let f = stream i s2;
         let s3 = (if buf_base f \<noteq> 0 \<and> has i SW_MYBUF s2 then s2\<lparr>disk := sw_malloc_free (buf_base f) (disk s2)\<rparr> else s2);
         Some (ret_val, if i > 2 then s3\<lparr>disk := sw_malloc_free (buf_io_addr s3 + of_nat i * 24) (disk s3)\<rparr> else s3)
       }
     }
   }"

definition feof :: "nat \<Rightarrow> streams \<Rightarrow> bool" where
  "feof i s \<longleftrightarrow> has i SW_EOF s"

definition fseek :: "nat \<Rightarrow> u32 \<Rightarrow> u32 \<Rightarrow> streams \<Rightarrow> (u32 \<times> streams) option" where
  "fseek i offset whence s' = do {
     let s = upd i (\<lambda>f. f\<lparr>io_flags := io_flags f AND NOT (SW_EOF OR SW_ERROR)\<rparr>) s';
     let f = stream i s;
     let move = (if has i SW_READ s \<and> buf_base f \<noteq> 0 \<and> \<not> has i SW_UNBUF s \<and> whence = FILE_SEEK_CUR then chr_count f else 0);
     s1 \<leftarrow> (if has i SW_READ s then Some (upd i (\<lambda>f. f\<lparr>chr_count := 0\<rparr>) s)
           else if has i SW_WRITE s then do { (_, s1) \<leftarrow> clear_one i s; Some s1 }
           else Some s);
     (pos, s2) \<leftarrow> f_lseek (fdesp (stream i s1)) (offset - move) whence s1;
     Some (if pos = - 1 then - 1 else 0, upd i (\<lambda>f. f\<lparr>chr_ptr := buf_base f\<rparr>) s2)
   }"

end
