(* ===== verification/TeeStorage.thy ===== *)
theory TeeStorage
  imports FileLib
begin

text \<open>
  The storage interface of the trusted applications (\<open>lib/otz_tee_internal_storage_api.c\<close>) over the
  buffered files.

  A handle is a record; \<open>dataName\<close> is the address of its array of 255 bytes, in the copy of the
  handle when it is passed by value. \<open>ObjectInfo\<close> and \<open>Attribute\<close> are addresses of structures in
  memory. The addresses of local arrays are parameters in the state: \<open>File_name\<close>, the array of 255
  bytes that data is copied to for printing, and the mode string. \<open>None\<close> is an endless loop or a
  null pointer.
\<close>

section \<open>State\<close>

record TEE_ObjectHandle =
  dataPtr :: "nat option"
  dataLen :: u32
  dataName :: u32
  ObjectInfo :: u32
  Attribute :: u32

record storage =
  lib :: streams
  File_name :: u32
  local_buff :: u32
  mode_str :: u32

definition TEE_SUCCESS :: u32 where "TEE_SUCCESS = 1"
definition TEE_ERROR_OVERFLOW :: u32 where "TEE_ERROR_OVERFLOW = 2"
definition TEE_ERROR_ITEM_NOT_FOUND :: u32 where "TEE_ERROR_ITEM_NOT_FOUND = 5"
definition TEE_ERROR_ACCESS_CONFLICT :: u32 where "TEE_ERROR_ACCESS_CONFLICT = 6"
definition TEE_ERROR_OUT_OF_MEMORY :: u32 where "TEE_ERROR_OUT_OF_MEMORY = 7"
definition TEE_ERROR_STORAGE_NO_SPACE :: u32 where "TEE_ERROR_STORAGE_NO_SPACE = 8"
definition TEE_ERROR_NOT_SUPPORTED :: u32 where "TEE_ERROR_NOT_SUPPORTED = 9"
definition TEE_ERROR_BAD_PARAMETERS :: u32 where "TEE_ERROR_BAD_PARAMETERS = 0x10"
definition TEE_DATA_FLAG_ACCESS_READ :: u32 where "TEE_DATA_FLAG_ACCESS_READ = 1"
definition TEE_DATA_FLAG_ACCESS_WRITE :: u32 where "TEE_DATA_FLAG_ACCESS_WRITE = 2"
definition TEE_OBJECT_ID_MAX_LEN :: u32 where "TEE_OBJECT_ID_MAX_LEN = 64"
definition TEE_TYPE_GENERIC_SECRET :: u32 where "TEE_TYPE_GENERIC_SECRET = 14"

lemmas tee_codes = TEE_SUCCESS_def TEE_ERROR_OVERFLOW_def TEE_ERROR_ITEM_NOT_FOUND_def TEE_ERROR_ACCESS_CONFLICT_def
  TEE_ERROR_OUT_OF_MEMORY_def TEE_ERROR_STORAGE_NO_SPACE_def TEE_ERROR_NOT_SUPPORTED_def TEE_ERROR_BAD_PARAMETERS_def
  TEE_DATA_FLAG_ACCESS_READ_def TEE_DATA_FLAG_ACCESS_WRITE_def TEE_OBJECT_ID_MAX_LEN_def TEE_TYPE_GENERIC_SECRET_def

definition mem_of :: "storage \<Rightarrow> mem" where
  "mem_of s = memory (disk (lib s))"

definition change_mem :: "(mem \<Rightarrow> mem) \<Rightarrow> storage \<Rightarrow> storage" where
  "change_mem g s = s\<lparr>lib := (lib s)\<lparr>disk := on_mem g (disk (lib s))\<rparr>\<rparr>"

definition in_lib :: "(streams \<Rightarrow> ('a \<times> streams) option) \<Rightarrow> storage \<Rightarrow> ('a \<times> storage) option" where
  "in_lib g s = map_option (\<lambda>(r, l). (r, s\<lparr>lib := l\<rparr>)) (g (lib s))"

definition tee_malloc :: "u32 \<Rightarrow> storage \<Rightarrow> u32 \<times> storage" where
  "tee_malloc len s =
     (case sw_malloc (disk (lib s)) of (a, d) \<Rightarrow>
        let s1 = s\<lparr>lib := (lib s)\<lparr>disk := d\<rparr>\<rparr> in (a, if a = 0 then s1 else change_mem (\<lambda>m. snd (sw_memset a 0 len m)) s1))"

definition tee_free :: "u32 \<Rightarrow> storage \<Rightarrow> storage" where
  "tee_free a s = s\<lparr>lib := (lib s)\<lparr>disk := sw_malloc_free a (disk (lib s))\<rparr>\<rparr>"

text \<open>
  \<open>realloc\<close> and \<open>calloc\<close> of \<open>lib/libc_sos.c\<close>; the size of the old block, from the tables of the
  heap, is a parameter. A null pointer from \<open>sw_malloc\<close> is copied to.
\<close>

definition MIN_macro :: "u32 \<Rightarrow> u32 \<Rightarrow> u32" where
  "MIN_macro x y = y XOR ((x XOR y) AND (- (if x < y then 1 else 0)))"

definition realloc :: "u32 \<Rightarrow> u32 \<Rightarrow> u32 \<Rightarrow> storage \<Rightarrow> u32 \<times> storage" where
  "realloc old_size ptr len s =
     (let grab = (\<lambda>s. case sw_malloc (disk (lib s)) of (a, d) \<Rightarrow> (a, s\<lparr>lib := (lib s)\<lparr>disk := d\<rparr>\<rparr>))
      in if ptr = 0 then grab s
         else if len = 0 then (0, tee_free ptr s)
         else let (a, s1) = grab s in (a, tee_free ptr (change_mem (\<lambda>m. snd (sw_memcpy a ptr (MIN_macro old_size len) m)) s1)))"

definition calloc :: "u32 \<Rightarrow> u32 \<Rightarrow> storage \<Rightarrow> u32 \<times> storage" where
  "calloc num_elements element_size s = tee_malloc (num_elements * element_size) s"

definition tee_memcpy :: "u32 \<Rightarrow> u32 \<Rightarrow> u32 \<Rightarrow> storage \<Rightarrow> storage" where
  "tee_memcpy dest src n = change_mem (\<lambda>m. snd (sw_memcpy dest src n m))"

text \<open>A copy with a terminator, as the functions make them for printing.\<close>

definition copy_text :: "u32 \<Rightarrow> u32 \<Rightarrow> u32 \<Rightarrow> storage \<Rightarrow> storage" where
  "copy_text dest src n s = change_mem (\<lambda>m. m(dest + n := 0)) (tee_memcpy dest src n s)"

definition tee_strcpy :: "u32 \<Rightarrow> u32 \<Rightarrow> storage \<Rightarrow> storage option" where
  "tee_strcpy dest src s = map_option (\<lambda>(_, m). change_mem (\<lambda>_. m) s) (sw_strcpy dest src (mem_of s))"

section \<open>Transient objects\<close>

definition TEE_AllocateTransientObject :: "u32 \<Rightarrow> u32 \<Rightarrow> TEE_ObjectHandle \<Rightarrow> storage \<Rightarrow> u32 \<times> TEE_ObjectHandle \<times> storage" where
  "TEE_AllocateTransientObject objectType maxObjectSize object s =
     (if maxObjectSize \<le> 0x800
      then if objectType > TEE_TYPE_GENERIC_SECRET then (TEE_ERROR_NOT_SUPPORTED, object, s)
           else let (info, s1) = tee_malloc 28 s;
                    (attr, s2) = tee_malloc 12 s1;
                    obj = object\<lparr>ObjectInfo := info, Attribute := attr\<rparr>
                in if info = 0 \<or> attr = 0 then (TEE_ERROR_OUT_OF_MEMORY, obj, s2)
                   else (TEE_SUCCESS, obj, change_mem (\<lambda>m. write32 (info + 8) maxObjectSize (write32 info objectType m)) s2)
      else (TEE_ERROR_OUT_OF_MEMORY, object, s))"

text \<open>The handle is passed by value; what is freed is the address of the copy.\<close>

definition TEE_FreeTransientObject :: "u32 \<Rightarrow> storage \<Rightarrow> storage" where
  "TEE_FreeTransientObject address_of_copy = tee_free address_of_copy"

definition TEE_ResetTransientObject :: "u32 \<Rightarrow> u32 \<Rightarrow> u32 \<Rightarrow> storage \<Rightarrow> storage" where
  "TEE_ResetTransientObject old_size address_of_copy len s = snd (realloc old_size address_of_copy len s)"

definition is_value_attribute :: "u32 \<Rightarrow> bool" where
  "is_value_attribute attributeID \<longleftrightarrow> drop_bit 31 (push_bit 2 attributeID) = 1"

text \<open>One attribute: its identifier, at 4 the buffer or the first value, at 8 the length or the second.\<close>

definition set_ref :: "u32 \<Rightarrow> u32 \<Rightarrow> u32 \<Rightarrow> storage \<Rightarrow> storage option" where
  "set_ref attr src len s = do {
     let (b, s2) = tee_malloc len (change_mem (write32 (attr + 8) len) s);
     let s3 = change_mem (write32 (attr + 4) b) s2;
     (if b = 0 \<and> len \<noteq> 0 then None else Some (copy_text (local_buff s) b len (tee_memcpy b src len s3)))
   }"

definition set_value :: "u32 \<Rightarrow> u32 \<Rightarrow> u32 \<Rightarrow> storage \<Rightarrow> storage" where
  "set_value attr a b = change_mem (\<lambda>m. write32 (attr + 8) b (write32 (attr + 4) a m))"

fun populate_loop :: "nat \<Rightarrow> u32 \<Rightarrow> u32 \<Rightarrow> u32 \<Rightarrow> storage \<Rightarrow> storage option" where
  "populate_loop 0 first attr src s = Some s"
| "populate_loop (Suc n) first attr src s = do {
     let m = mem_of s;
     let s1 = change_mem (write32 attr (read32 m src)) s;
     s2 \<leftarrow> (if is_value_attribute (read32 m src)
           then Some (set_value attr (read32 m (src + 4)) (read32 m (src + 8)) s1)
           else do {
             s2 \<leftarrow> set_ref attr (read32 m (src + 4)) (read32 m (src + 8)) s1;
             Some (tee_free (read32 (mem_of s2) (first + 4)) s2)
           });
     populate_loop n first (attr + 12) (src + 12) s2
   }"

text \<open>In the end the array of attributes is freed, and it belonged to the copy of the handle.\<close>

definition TEE_PopulateTransientObject :: "u32 \<Rightarrow> u32 \<Rightarrow> storage \<Rightarrow> (u32 \<times> storage) option" where
  "TEE_PopulateTransientObject attrs attrCount s =
     (if attrs = 0 then Some (TEE_ERROR_BAD_PARAMETERS, s)
      else do {
        let (attr, s1) = tee_malloc (attrCount * 12) s;
        (if attr = 0 \<and> attrCount \<noteq> 0 then None
         else do {
           s2 \<leftarrow> populate_loop (unat attrCount) attr attr attrs s1;
           Some (TEE_SUCCESS, tee_free attr s2)
         })
      })"

definition TEE_InitRefAttribute :: "u32 \<Rightarrow> u32 \<Rightarrow> u32 \<Rightarrow> u32 \<Rightarrow> storage \<Rightarrow> storage option" where
  "TEE_InitRefAttribute attr attributeID buffer len s =
     (let s1 = change_mem (write32 attr attributeID) s
      in if is_value_attribute attributeID then Some s1 else set_ref attr buffer len s1)"

definition TEE_InitValueAttribute :: "u32 \<Rightarrow> u32 \<Rightarrow> u32 \<Rightarrow> u32 \<Rightarrow> storage \<Rightarrow> storage" where
  "TEE_InitValueAttribute attr attributeID a b s =
     (let s1 = change_mem (write32 attr attributeID) s in if is_value_attribute attributeID then set_value attr a b s1 else s1)"

text \<open>The attributes of both handles are replaced by new ones, in the copies of the handles, before they are copied.\<close>

definition TEE_CopyObjectAttributes :: "TEE_ObjectHandle \<Rightarrow> TEE_ObjectHandle \<Rightarrow> storage \<Rightarrow> storage option" where
  "TEE_CopyObjectAttributes destObject srcObject s = do {
     let (da, s1) = tee_malloc 12 s;
     let (sa, s2) = tee_malloc 12 s1;
     s3 \<leftarrow> (if dataPtr srcObject \<noteq> None then tee_strcpy (dataName destObject) (dataName srcObject) s2 else Some s2);
     if da = 0 then None
     else do {
       let m = mem_of s3;
       let s4 = change_mem (write32 da (read32 m sa)) s3;
       s5 \<leftarrow> (if sa = 0 then Some s3
             else if is_value_attribute (read32 m sa) then Some (set_value da (read32 m (sa + 4)) (read32 m (sa + 8)) s4)
             else set_ref da (read32 m (sa + 4)) (read32 m (sa + 8)) s4);
       Some (tee_free da (tee_free sa (tee_free (read32 (mem_of s5) (da + 4)) s5)))
     }
   }"

section \<open>Persistent objects\<close>

definition TEE_WriteObjectData :: "TEE_ObjectHandle \<Rightarrow> u32 \<Rightarrow> u32 \<Rightarrow> storage \<Rightarrow> (u32 \<times> storage) option" where
  "TEE_WriteObjectData object buffer len s =
     (if buffer = 0 then Some (TEE_ERROR_STORAGE_NO_SPACE, s)
      else do {
        s1 \<leftarrow> tee_strcpy (File_name s) (dataName object) s;
        (case dataPtr object of
           None \<Rightarrow> Some (TEE_ERROR_OUT_OF_MEMORY, s1)
         | Some fp \<Rightarrow> do {
             (n, s2) \<leftarrow> in_lib (fwrite buffer 1 len fp) s1;
             if n = 0 then Some (TEE_ERROR_STORAGE_NO_SPACE, s2)
             else if n = - 1 \<or> errno (lib s2) = ENOSPC then Some (TEE_ERROR_STORAGE_NO_SPACE, s2)
             else do {
               (c, s3) \<leftarrow> in_lib (fclose fp) s2;
               if c = - 1 then Some (TEE_ERROR_OUT_OF_MEMORY, s3)
               else Some (TEE_SUCCESS, copy_text (local_buff s) buffer n s3)
             }
           })
      })"

text \<open>
  The local arrays are addresses without a size: a longer name or more than 254 bytes overwrite the memory
  behind them, which is the rest of the stack frame in the code. The property about this function excludes that.
\<close>

definition TEE_ReadObjectData :: "TEE_ObjectHandle \<Rightarrow> u32 \<Rightarrow> u32 \<Rightarrow> u32 \<Rightarrow> storage \<Rightarrow> (u32 \<times> storage) option" where
  "TEE_ReadObjectData object buffer len count s = do {
     s1 \<leftarrow> tee_strcpy (File_name s) (dataName object) s;
     (case dataPtr object of
        None \<Rightarrow> Some (TEE_ERROR_OUT_OF_MEMORY, s1)
      | Some fp \<Rightarrow> do {
          (n, s2) \<leftarrow> in_lib (fread buffer 1 len fp) s1;
          if n = - 1 then Some (TEE_ERROR_STORAGE_NO_SPACE, s2)
          else do {
            let s3 = tee_memcpy (local_buff s) buffer n (change_mem (write32 count n) s2);
            (c, s4) \<leftarrow> in_lib (fclose fp) s3;
            if c = - 1 then Some (TEE_ERROR_OUT_OF_MEMORY, s4)
            else Some (TEE_SUCCESS, change_mem (\<lambda>m. m(local_buff s + read32 m count := 0)) s4)
          }
        })
   }"

text \<open>The mode string for the flags; other flags open nothing, and what is reported then is an old \<open>errno\<close>.\<close>

definition open_file :: "u32 \<Rightarrow> u32 \<Rightarrow> storage \<Rightarrow> (nat option \<times> storage) option" where
  "open_file objectID flags s =
     (let md = mode_str s
      in if flags = TEE_DATA_FLAG_ACCESS_WRITE then in_lib (fopen objectID md) (change_mem (\<lambda>m. m(md := 0x77, md + 1 := 0)) s)
         else if flags = TEE_DATA_FLAG_ACCESS_READ then in_lib (fopen objectID md) (change_mem (\<lambda>m. m(md := 0x72, md + 1 := 0)) s)
         else if flags = TEE_DATA_FLAG_ACCESS_WRITE OR TEE_DATA_FLAG_ACCESS_READ
         then in_lib (fopen objectID md) (change_mem (\<lambda>m. m(md := 0x72, md + 1 := 0x2B, md + 2 := 0)) s)
         else Some (None, change_mem (\<lambda>m. m(md := 0)) s))"

definition name_object :: "nat \<Rightarrow> u32 \<Rightarrow> u32 \<Rightarrow> TEE_ObjectHandle \<Rightarrow> storage \<Rightarrow> TEE_ObjectHandle \<times> storage" where
  "name_object fp objectID len object s =
     (object\<lparr>dataPtr := Some fp, dataLen := len\<rparr>, copy_text (dataName object) objectID len s)"

definition TEE_OpenPersistentObject ::
  "u32 \<Rightarrow> u32 \<Rightarrow> u32 \<Rightarrow> TEE_ObjectHandle \<Rightarrow> storage \<Rightarrow> (u32 \<times> TEE_ObjectHandle \<times> storage) option" where
  "TEE_OpenPersistentObject objectID objectIDLen flags object s =
     (if objectID = 0 \<and> objectIDLen > TEE_OBJECT_ID_MAX_LEN then Some (TEE_ERROR_ITEM_NOT_FOUND, object, s)
      else do {
        (pFile, s1) \<leftarrow> open_file objectID flags s;
        (case pFile of
           None \<Rightarrow> Some (if errno (lib s1) = ENOENT then TEE_ERROR_ITEM_NOT_FOUND
                         else if errno (lib s1) = EACCES then TEE_ERROR_ACCESS_CONFLICT else TEE_ERROR_OUT_OF_MEMORY, object, s1)
         | Some fp \<Rightarrow> Some (TEE_SUCCESS, name_object fp objectID objectIDLen object s1))
      })"

definition TEE_CreatePersistentObject ::
  "u32 \<Rightarrow> u32 \<Rightarrow> u32 \<Rightarrow> u32 \<Rightarrow> u32 \<Rightarrow> TEE_ObjectHandle \<Rightarrow> storage \<Rightarrow> (u32 \<times> TEE_ObjectHandle \<times> storage) option" where
  "TEE_CreatePersistentObject objectID objectIDLen flags initialData initialDataLen object s =
     (if objectID = 0 \<and> initialData = 0 \<and> objectIDLen > TEE_OBJECT_ID_MAX_LEN \<and> initialDataLen > TEE_OBJECT_ID_MAX_LEN
      then Some (TEE_ERROR_ITEM_NOT_FOUND, object, s)
      else do {
        (pFile, s1) \<leftarrow> open_file objectID flags s;
        (case pFile of
           None \<Rightarrow> Some (if errno (lib s1) = ENOENT then TEE_ERROR_ITEM_NOT_FOUND
                         else if errno (lib s1) = EACCES then TEE_ERROR_ACCESS_CONFLICT
                         else if errno (lib s1) = ENOSPC then TEE_ERROR_STORAGE_NO_SPACE else TEE_ERROR_OUT_OF_MEMORY, object, s1)
         | Some fp \<Rightarrow> (case name_object fp objectID objectIDLen object s1 of (obj, s2) \<Rightarrow>
             if flags = TEE_DATA_FLAG_ACCESS_READ then Some (TEE_SUCCESS, obj, s2)
             else do {
               (w, s3) \<leftarrow> TEE_WriteObjectData obj initialData initialDataLen s2;
               Some (if w = TEE_SUCCESS then TEE_SUCCESS else TEE_ERROR_STORAGE_NO_SPACE, obj, s3)
             }))
      })"

definition TEE_CloseAndDeletePersistentObject :: "TEE_ObjectHandle \<Rightarrow> storage \<Rightarrow> storage option" where
  "TEE_CloseAndDeletePersistentObject object s =
     map_option snd (in_lib (libc_remove (File_name s)) (copy_text (File_name s) (dataName object) (dataLen object) s))"

text \<open>The new name is stored in the copy of the handle.\<close>

definition TEE_RenamePersistentObject :: "TEE_ObjectHandle \<Rightarrow> u32 \<Rightarrow> u32 \<Rightarrow> storage \<Rightarrow> (u32 \<times> storage) option" where
  "TEE_RenamePersistentObject object newObjectID newObjectIDLen s =
     (if newObjectID = 0 \<and> newObjectIDLen > TEE_OBJECT_ID_MAX_LEN then Some (TEE_ERROR_ACCESS_CONFLICT, s)
      else do {
        s1 \<leftarrow> tee_strcpy (File_name s) (dataName object) s;
        (r, s2) \<leftarrow> in_lib (libc_rename (File_name s) newObjectID) s1;
        if r \<noteq> 0 then Some (TEE_ERROR_ACCESS_CONFLICT, s2)
        else do {
          fp \<leftarrow> dataPtr object;
          (c, s3) \<leftarrow> in_lib (fclose fp) s2;
          if c = - 1 then Some (TEE_ERROR_OUT_OF_MEMORY, s3)
          else Some (TEE_SUCCESS, copy_text (dataName object) newObjectID newObjectIDLen s3)
        }
      })"

definition TEE_TruncateObjectData :: "u32 \<Rightarrow> TEE_ObjectHandle \<Rightarrow> u32 \<Rightarrow> storage \<Rightarrow> (u32 \<times> storage) option" where
  "TEE_TruncateObjectData zeros object len s = do {
     s1 \<leftarrow> tee_strcpy (File_name s) (dataName object) s;
     (r, s2) \<leftarrow> in_lib (libc_truncate zeros (File_name s) len) s1;
     Some (if r \<noteq> 0 then TEE_ERROR_STORAGE_NO_SPACE else TEE_SUCCESS, s2)
   }"

text \<open>The comparison with the largest position is one of unsigned numbers. The file is closed after the seek.\<close>

definition TEE_SeekObjectData :: "TEE_ObjectHandle \<Rightarrow> u32 \<Rightarrow> u32 \<Rightarrow> storage \<Rightarrow> (u32 \<times> storage) option" where
  "TEE_SeekObjectData object offset whence s = do {
     s1 \<leftarrow> tee_strcpy (File_name s) (dataName object) s;
     (case dataPtr object of
        None \<Rightarrow> Some (TEE_ERROR_OUT_OF_MEMORY, s1)
      | Some fp \<Rightarrow> do {
          (r, s2) \<leftarrow> in_lib (fseek fp offset whence) s1;
          if r = - 1 then Some (TEE_ERROR_OVERFLOW, s2)
          else do {
            (c, s3) \<leftarrow> in_lib (fclose fp) s2;
            Some (if c = - 1 then TEE_ERROR_OUT_OF_MEMORY else TEE_SUCCESS, s3)
          }
        })
   }"

end
