(* ===== verification/FileLibRead.thy ===== *)
theory FileLibRead
  imports FileLib Fat32Write
begin

text \<open>
  Buffered reading against the abstract file of \<open>Fat32Read\<close>: the bytes that wait in the buffer of a
  stream are those before the position of the file, so that \<open>fread\<close> delivers the file byte by byte
  although it is read in blocks of 1024.
\<close>

section \<open>Streams\<close>

named_theorems stream_simps

lemma stream_upd [stream_simps]:
  "i < length (BUF_IO s) \<Longrightarrow> stream i (upd i g s) = g (stream i s)" "i \<noteq> j \<Longrightarrow> stream j (upd i g s) = stream j s"
  "disk (upd i g s) = disk s" "length (BUF_IO (upd i g s)) = length (BUF_IO s)" "un_ch (upd i g s) = un_ch s" "c_val (upd i g s) = c_val s"
  by (simp_all add: stream_def upd_def)

lemma stream_disk [stream_simps]: "stream i (s\<lparr>disk := d\<rparr>) = stream i s" "BUF_IO (put_byte a v s) = BUF_IO s" "stream i (put_byte a v s) = stream i s"
  "disk (put_byte a v s) = on_mem (\<lambda>m. m(a := v)) (disk s)"
  by (simp_all add: stream_def put_byte_def)

lemma has_upd [stream_simps]:
  "i < length (BUF_IO s) \<Longrightarrow> has i b (upd i g s) \<longleftrightarrow> io_flags (g (stream i s)) AND b \<noteq> 0" "i \<noteq> j \<Longrightarrow> has j b (upd i g s) = has j b s"
  "has i b (s\<lparr>disk := d\<rparr>) = has i b s" "has i b (put_byte a v s) = has i b s"
  by (simp_all add: has_def stream_simps)

lemma clear_streams_idle:
  "(\<And>i. i \<in> set is \<Longrightarrow> sel i s \<Longrightarrow> clear_one i s = Some (0, s)) \<Longrightarrow> clear_streams sel is v s = Some (v, s)"
  by (induction "is") auto

lemma clear_one_unbuffered: "buf_base (stream i s) = 0 \<or> has i SW_UNBUF s \<Longrightarrow> clear_one i s = Some (0, s)"
  by (auto simp: clear_one_def)

lemma handle_frame:
  assumes "handle s cs d f p" "\<And>x. x \<in> places s cs \<Longrightarrow> m x = memory s x" "m (entry f + 11) = memory s (entry f + 11)"
  shows "handle (s\<lparr>memory := m\<rparr>) cs d f p"
  using assms(1) chain_frame [of s cs m] assms(2,3) by (simp add: handle_def opened_def file_of_def)

section \<open>The invariant of a reader\<close>

text \<open>
  A stream opened for reading at position \<open>p\<close> of the file with clusters \<open>cs\<close>, size \<open>z\<close>, entry \<open>e\<close> and
  contents \<open>C\<close>. Its buffer is the block \<open>B\<close>, or will be when it is allocated; \<open>k\<close> bytes are left in it.
\<close>

definition read_flags :: "u32 \<Rightarrow> bool" where
  "read_flags fl \<longleftrightarrow> fl = SW_READ \<or> fl = SW_READ OR SW_MYBUF"

definition reads_at :: "nat \<Rightarrow> u32 list \<Rightarrow> nat \<Rightarrow> u32 \<Rightarrow> u32 \<Rightarrow> u8 list \<Rightarrow> u32 set \<Rightarrow> nat \<Rightarrow> nat \<Rightarrow> file_info \<Rightarrow> nat \<Rightarrow> streams \<Rightarrow> bool" where
  "reads_at i cs z e B C P p k f w s \<longleftrightarrow>
     i < length (BUF_IO s) \<and> read_flags (io_flags (stream i s)) \<and> 0 \<le> sint (fdesp (stream i s)) \<and> B \<noteq> 0 \<and>
     (buf_base (stream i s) = B \<or> buf_base (stream i s) = 0 \<and> k = 0 \<and> (\<exists>bs. blocks (disk s) = B # bs)) \<and>
     chr_count (stream i s) = of_nat k \<and> (k \<noteq> 0 \<longrightarrow> chr_ptr (stream i s) = B + of_nat w) \<and> w + k \<le> 1024 \<and>
     handle (disk s) cs (fdesp (stream i s)) f (p + k) \<and> unat (file_size f) = z \<and> entry f = e \<and> content (disk s) cs = C \<and>
     bytes (memory (disk s)) (B + of_nat w) k = take k (drop p C) \<and>
     places (disk s) cs = P \<and> span B 1024 \<inter> P = {} \<and> e + 11 \<notin> span B 1024 \<and>
     (\<forall>j<SW_FILEOPEN_MAX. j \<noteq> i \<longrightarrow> line_buffered j s \<longrightarrow> buf_base (stream j s) = 0)"

definition reader :: "nat \<Rightarrow> u32 list \<Rightarrow> nat \<Rightarrow> u32 \<Rightarrow> u32 \<Rightarrow> u8 list \<Rightarrow> u32 set \<Rightarrow> nat \<Rightarrow> streams \<Rightarrow> bool" where
  "reader i cs z e B C P p s \<longleftrightarrow> (\<exists>k f w. reads_at i cs z e B C P p k f w s)"

lemma reader_flags: "read_flags (io_flags (stream i s)) \<Longrightarrow>
    has i SW_READ s \<and> \<not> has i SW_WRITE s \<and> \<not> has i SW_UNBUF s \<and> \<not> has i (SW_EOF OR SW_ERROR) s \<and> \<not> has i SW_ERROR s \<and> \<not> line_buffered i s"
  by (auto simp: read_flags_def has_def line_buffered_def io_codes)

text \<open>A byte that is in the buffer.\<close>

lemma take_buffered:
  assumes R: "reads_at i cs z e B C P p k f w s" and k: "k \<noteq> 0" and out: "out \<notin> P" "out \<notin> span B 1024" "out \<noteq> e + 11"
  defines "s' \<equiv> take_byte out i (count_down i s)"
  shows "reads_at i cs z e B C P (p + 1) (k - 1) f (w + 1) s' \<and> memory (disk s') = (memory (disk s))(out := C ! p) \<and> p < length C"
proof -
  note H = R [unfolded reads_at_def]
  obtain k' where k': "k = Suc k'" using k by (cases k) auto
  let ?a = "B + of_nat w" and ?m = "memory (disk s)"
  have "handle (disk s) cs (fdesp (stream i s)) f (p + k)" "length C = length cs * csize (disk s)" using H by auto
  then have len: "p + k \<le> length C" by (auto simp: handle_def opened_def)
  have b: "?m ?a # bytes ?m (?a + 1) k' = take k (drop p C)"
    using H bytes_add [of ?m ?a 1 k'] by (simp add: k' bytes_def)
  also have "\<dots> = C ! p # take k' (drop (p + 1) C)" using len by (simp add: k' Cons_nth_drop_Suc [symmetric])
  finally have first: "?m ?a = C ! p" "bytes ?m (?a + 1) k' = take k' (drop (p + 1) C)" by simp_all
  have m': "memory (disk s') = ?m(out := C ! p)"
    using H k first(1) by (simp add: s'_def take_byte_def count_down_def stream_simps on_mem_def)
  have disk': "disk s' = disk s\<lparr>memory := ?m(out := C ! p)\<rparr>"
    using H k first(1) by (simp add: s'_def take_byte_def count_down_def stream_simps on_mem_def)
  have "span (?a + 1) k' \<subseteq> span B 1024" using H span_mono [of "w + 1" k' 1024 B] by (simp add: k' ac_simps)
  then have "bytes (?m(out := C ! p)) (?a + 1) k' = bytes ?m (?a + 1) k'" using out(2) by (intro bytes_cong) auto
  moreover have "handle (disk s\<lparr>memory := ?m(out := C ! p)\<rparr>) cs (fdesp (stream i s)) f (p + k)"
    using H out by (intro handle_frame) auto
  moreover have "content (disk s\<lparr>memory := ?m(out := C ! p)\<rparr>) cs = C" using H out by (subst content_frame) auto
  moreover have "stream i s' = (stream i s)\<lparr>chr_count := of_nat k', chr_ptr := chr_ptr (stream i s) + 1\<rparr>"
    using H by (simp add: s'_def take_byte_def count_down_def stream_simps k')
  moreover have "j \<noteq> i \<Longrightarrow> stream j s' = stream j s \<and> line_buffered j s' = line_buffered j s" for j
    by (simp add: s'_def take_byte_def count_down_def stream_simps line_buffered_def)
  moreover have "length (BUF_IO s') = length (BUF_IO s)" by (simp add: s'_def take_byte_def count_down_def stream_simps)
  ultimately have "reads_at i cs z e B C P (p + 1) k' f (w + 1) s'"
    using H first(2) unfolding reads_at_def disk' by (simp add: k' ac_simps)
  then show ?thesis using m' len by (simp add: k')
qed

text \<open>An empty buffer is filled from the file, unless the file has ended.\<close>

lemma blocks_frame:
  "handle (s\<lparr>blocks := bs\<rparr>) cs d f p = handle s cs d f p" "content (s\<lparr>blocks := bs\<rparr>) cs = content s cs" "places (s\<lparr>blocks := bs\<rparr>) cs = places s cs"
proof -
  have [simp]: "cluster_addr (s\<lparr>blocks := bs\<rparr>) c = cluster_addr s c" "get_fat_table_entry (s\<lparr>blocks := bs\<rparr>) c = get_fat_table_entry s c" for c
    by (simp_all add: cluster_addr_def get_fat_table_entry_def)
  have "csize (s\<lparr>blocks := bs\<rparr>) = csize s" by (simp add: csize_def)
  then show "handle (s\<lparr>blocks := bs\<rparr>) cs d f p = handle s cs d f p" "content (s\<lparr>blocks := bs\<rparr>) cs = content s cs" "places (s\<lparr>blocks := bs\<rparr>) cs = places s cs"
    by (simp_all add: handle_def opened_def content_def cluster_bytes_def chain_code at_pos_def places_def file_of_def cong: map_cong)
qed

lemma read_buffer_ready:
  assumes R: "reads_at i cs z e B C P p 0 f w s"
  defines "s1 \<equiv> read_buffer i (upd i (\<lambda>f. f\<lparr>chr_count := 0\<rparr>) (count_down i s))"
  shows "reads_at i cs z e B C P p 0 f 0 s1 \<and> buf_base (stream i s1) = B \<and> memory (disk s1) = memory (disk s)"
proof -
  note H = R [unfolded reads_at_def]
  let ?s = "upd i (\<lambda>f. f\<lparr>chr_count := 0\<rparr>) (count_down i s)"
  have unbuf: "\<not> has i SW_UNBUF ?s" using H reader_flags [of i s] by (simp add: count_down_def stream_simps has_def)
  have others: "line_buffered j ?s = line_buffered j s" "stream j ?s = stream j s" if "j \<noteq> i" for j
    using that by (simp_all add: count_down_def stream_simps line_buffered_def)
  show ?thesis
  proof (cases "buf_base (stream i s) = 0")
    case False
    then have "s1 = ?s" using H by (simp add: s1_def read_buffer_def count_down_def stream_simps)
    then show ?thesis using H False others unfolding reads_at_def by (auto simp: count_down_def stream_simps)
  next
    case True
    then obtain bs where bs: "blocks (disk s) = B # bs" using H by auto
    let ?g = "\<lambda>f. f\<lparr>io_flags := io_flags f OR SW_MYBUF\<rparr>" and ?h = "\<lambda>f. f\<lparr>buf_size := SIZE_BUF\<rparr>" and ?b = "\<lambda>f. f\<lparr>buf_base := B\<rparr>"
    let ?d = "disk s\<lparr>blocks := bs\<rparr>"
    have s1: "s1 = upd i ?g (upd i ?h (upd i ?b (?s\<lparr>disk := ?d\<rparr>)))"
      using H True bs unbuf by (simp add: s1_def read_buffer_def new_buffer_def sw_malloc_def set_flag_def count_down_def stream_simps)
    have flags: "read_flags (io_flags (stream i s) OR SW_MYBUF)" using H by (auto simp: read_flags_def io_codes)
    have s1_others: "line_buffered j s1 = line_buffered j s" "stream j s1 = stream j s" if "j \<noteq> i" for j
      using that others by (simp_all add: s1 count_down_def stream_simps line_buffered_def)
    show ?thesis
      using H flags s1_others unfolding reads_at_def by (auto simp: s1 count_down_def stream_simps blocks_frame)
  qed
qed

lemma fill_buffer_refills:
  assumes R: "reads_at i cs z e B C P p 0 f 0 s" and B: "buf_base (stream i s) = B"
  defines "k \<equiv> min 1024 (z - p)"
  obtains s' f' where "fill_buffer i s = Some (if k = 0 then EOF else 1, s')" "\<not> has i SW_ERROR s'"
    "k \<noteq> 0 \<longrightarrow> reads_at i cs z e B C P p k f' 0 s'" "\<forall>x. x \<notin> span B 1024 \<longrightarrow> memory (disk s') x = memory (disk s) x"
proof -
  note H = R [unfolded reads_at_def]
  let ?g = "\<lambda>f. f\<lparr>buf_size := SIZE_BUF, chr_ptr := buf_base f\<rparr>"
  have z: "z - p = unat (file_size f) - p" "p \<le> z" using H by (auto simp: handle_def)
  have h: "handle (disk s) cs (fdesp (stream i s)) f p" "span B 1024 \<inter> places (disk s) cs = {}" "entry f + 11 \<notin> span B 1024"
      and C: "content (disk s) cs = C" using H by simp_all
  have lt: "(1024 :: nat) < 2 ^ 31" and K: "k = min 1024 (unat (file_size f) - p)" using z(1) by (simp_all add: k_def)
  obtain f' m' where rd:
    "file_read (fdesp (stream i s)) B (of_nat 1024) (disk s) = Some (of_nat k, put_file f' (disk s\<lparr>memory := m'\<rparr>))"
    "handle (put_file f' (disk s\<lparr>memory := m'\<rparr>)) cs (fdesp (stream i s)) f' (p + k)" "file_size f' = file_size f" "entry f' = entry f"
    "bytes m' B k = take k (drop p C)" "\<forall>x. x \<notin> span B k \<longrightarrow> m' x = memory (disk s) x"
    using file_read_handle [OF h(1) lt h(2,3) K] unfolding C by blast
  have keep: "x \<notin> span B 1024 \<Longrightarrow> m' x = memory (disk s) x" for x
    using rd(6) span_mono [of 0 k 1024 B] by (auto simp: k_def)
  have "B \<noteq> 0" using H by blast
  let ?d = "put_file f' (disk s\<lparr>memory := m'\<rparr>)"
  let ?s = "upd i (\<lambda>f. f\<lparr>chr_count := of_nat k\<rparr>) (upd i ?g s\<lparr>disk := ?d\<rparr>)"
  have small: "sint (of_nat k :: u32) = int k" "(of_nat k :: u32) = 0 \<longleftrightarrow> k = 0"
    by (simp_all add: k_def sint_small unat_eq_0 [symmetric] unat_of_nat_lt min_def split: if_splits)
  have run: "fill_buffer i s = (if k = 0 then Some (EOF, upd i (\<lambda>f. f\<lparr>buf_base := 0, chr_ptr := 0, chr_count := 0\<rparr>) (set_flag i SW_EOF ?s))
      else Some (1, ?s))"
    using H B \<open>B \<noteq> 0\<close> rd(1) small by (simp add: fill_buffer_def Let_def stream_simps f_read_def on_disk_def SIZE_BUF_def)
  have noerr: "\<not> has i SW_ERROR ?s" using H reader_flags [of i s] by (simp add: stream_simps has_def)
  have others: "line_buffered j ?s = line_buffered j s" "stream j ?s = stream j s" if "j \<noteq> i" for j
    using that by (simp_all add: stream_simps line_buffered_def)
  show thesis
  proof (cases "k = 0")
    case True
    have "\<not> has i SW_ERROR (set_flag i SW_EOF ?s)"
      using H noerr by (auto simp: set_flag_def stream_simps has_def io_codes read_flags_def)
    moreover have "has i SW_ERROR (upd i (\<lambda>f. f\<lparr>buf_base := 0, chr_ptr := 0, chr_count := 0\<rparr>) (set_flag i SW_EOF ?s)) = has i SW_ERROR (set_flag i SW_EOF ?s)"
      using H by (simp add: set_flag_def stream_simps has_def)
    ultimately show thesis using run True keep
      by (intro that [of "upd i (\<lambda>f. f\<lparr>buf_base := 0, chr_ptr := 0, chr_count := 0\<rparr>) (set_flag i SW_EOF ?s)" f']) (simp_all add: set_flag_def stream_simps)
  next
    case False
    have "content (disk s\<lparr>memory := m'\<rparr>) cs = C" using H keep by (subst content_frame) auto
    then have "reads_at i cs z e B C P p k f' 0 ?s"
      using H B rd others unfolding reads_at_def by (auto simp: stream_simps k_def)
    then show thesis using run False keep noerr by (intro that [of ?s f']) (simp_all add: stream_simps)
  qed
qed

lemma occupy_refills:
  assumes R: "reads_at i cs z e B C P p 0 f w s"
  obtains s' f' where "sw_occupy_buffer i (count_down i s) = Some (if p < z then 1 else EOF, s')" "\<not> has i SW_ERROR s'"
    "p < z \<longrightarrow> reads_at i cs z e B C P p (min 1024 (z - p)) f' 0 s'" "\<forall>x. x \<notin> span B 1024 \<longrightarrow> memory (disk s') x = memory (disk s) x"
proof -
  let ?s = "upd i (\<lambda>f. f\<lparr>chr_count := 0\<rparr>) (count_down i s)" let ?s1 = "read_buffer i ?s"
  have s1: "reads_at i cs z e B C P p 0 f 0 ?s1" "buf_base (stream i ?s1) = B" "memory (disk ?s1) = memory (disk s)"
    using read_buffer_ready [OF R] by blast+
  have fl: "read_flags (io_flags (stream i s))" "i < length (BUF_IO s)" "0 \<le> sint (fdesp (stream i s))"
    "read_flags (io_flags (stream i ?s1))" "\<forall>j<SW_FILEOPEN_MAX. j \<noteq> i \<longrightarrow> line_buffered j ?s1 \<longrightarrow> buf_base (stream j ?s1) = 0"
    using R s1(1) by (simp_all add: reads_at_def)
  have idle: "clear_streams line_buffered [0..<SW_FILEOPEN_MAX] 0 ?s1 = Some (0, ?s1)"
    using fl(5) reader_flags [OF fl(4)] by (intro clear_streams_idle clear_one_unbuffered) (metis atLeastLessThan_iff set_upt)
  have "sw_occupy_buffer i (count_down i s) = fill_buffer i ?s1"
    using reader_flags [OF fl(1)] fl(2,3) idle by (simp add: sw_occupy_buffer_def Let_def count_down_def stream_simps has_def)
  moreover obtain s' f' where "fill_buffer i ?s1 = Some (if min 1024 (z - p) = 0 then EOF else 1, s')" "\<not> has i SW_ERROR s'"
    "min 1024 (z - p) \<noteq> 0 \<longrightarrow> reads_at i cs z e B C P p (min 1024 (z - p)) f' 0 s'"
    "\<forall>x. x \<notin> span B 1024 \<longrightarrow> memory (disk s') x = memory (disk ?s1) x"
    by (rule fill_buffer_refills [OF s1(1,2)])
  ultimately show thesis using s1(3) by (intro that [of s' f']) auto
qed

lemma left_in_buffer:
  assumes "reads_at i cs z e B C P p k f w s"
  shows "0 \<le> sint (chr_count (stream i (count_down i s))) \<longleftrightarrow> k \<noteq> 0" "p + k \<le> z" "z \<le> length C"
proof -
  note H = assms [unfolded reads_at_def]
  have k: "k < 2 ^ 31" using H by simp
  show "0 \<le> sint (chr_count (stream i (count_down i s))) \<longleftrightarrow> k \<noteq> 0"
  proof (cases k)
    case (Suc n)
    then have "chr_count (stream i (count_down i s)) = of_nat n" using H by (simp add: count_down_def stream_simps)
    then show ?thesis using Suc k by (simp add: sint_small)
  qed (use H in \<open>simp add: count_down_def stream_simps\<close>)
  have "p + k \<le> unat (file_size f)" "unat (file_size f) \<le> length cs * csize (disk s)"
    using H unfolding handle_def opened_def by blast+
  then show "p + k \<le> z" "z \<le> length C" using H by auto
qed

text \<open>Where a byte may be stored: not in the file, the buffer or the attribute of the entry.\<close>

definition clear_of :: "u32 set \<Rightarrow> u32 \<Rightarrow> u32 \<Rightarrow> u32 set \<Rightarrow> bool" where
  "clear_of P e B A \<longleftrightarrow> A \<inter> (P \<union> span B 1024 \<union> {e + 11}) = {}"

lemma read_byte_step:
  assumes R: "reader i cs z e B C P p s" and p: "p < z" and out: "clear_of P e B {out}"
  obtains s' where "read_byte out i s = Some (True, s')" "reader i cs z e B C P (p + 1) s'" "memory (disk s') out = C ! p"
    "\<forall>x. x \<noteq> out \<longrightarrow> x \<notin> span B 1024 \<longrightarrow> memory (disk s') x = memory (disk s) x"
proof -
  obtain k f w where r: "reads_at i cs z e B C P p k f w s" using R by (auto simp: reader_def)
  have away: "out \<notin> P" "out \<notin> span B 1024" "out \<noteq> e + 11" using out by (auto simp: clear_of_def)
  show thesis
  proof (cases "k = 0")
    case False
    let ?s = "take_byte out i (count_down i s)"
    have "reads_at i cs z e B C P (p + 1) (k - 1) f (w + 1) ?s \<and> memory (disk ?s) = (memory (disk s))(out := C ! p)"
      using take_buffered [OF r False away] by blast
    moreover have "read_byte out i s = Some (True, ?s)" using left_in_buffer(1) [OF r] False by (simp add: read_byte_def)
    ultimately show thesis by (intro that [of ?s]) (auto simp: reader_def)
  next
    case True
    obtain s1 f1 where s1: "sw_occupy_buffer i (count_down i s) = Some (1, s1)" "reads_at i cs z e B C P p (min 1024 (z - p)) f1 0 s1"
      "\<forall>x. x \<notin> span B 1024 \<longrightarrow> memory (disk s1) x = memory (disk s) x"
      by (rule occupy_refills [OF r [unfolded True]]) (use p in auto)
    let ?s = "take_byte out i (count_down i s1)"
    have "reads_at i cs z e B C P (p + 1) (min 1024 (z - p) - 1) f1 (0 + 1) ?s \<and> memory (disk ?s) = (memory (disk s1))(out := C ! p)"
      using take_buffered [OF s1(2)] p away by simp
    moreover have "read_byte out i s = Some (True, ?s)" using left_in_buffer(1) [OF r] True s1(1) by (simp add: read_byte_def EOF_def)
    ultimately show thesis using s1(3) by (intro that [of ?s]) (auto simp: reader_def)
  qed
qed

lemma read_byte_end:
  assumes R: "reader i cs z e B C P z s"
  obtains s' where "read_byte out i s = Some (False, s')" "\<not> has i SW_ERROR s'"
    "\<forall>x. x \<notin> span B 1024 \<longrightarrow> memory (disk s') x = memory (disk s) x"
proof -
  obtain k f w where r: "reads_at i cs z e B C P z k f w s" using R by (auto simp: reader_def)
  have k: "k = 0" using left_in_buffer(2) [OF r] by simp
  obtain s1 f1 where "sw_occupy_buffer i (count_down i s) = Some (EOF, s1)" "\<not> has i SW_ERROR s1"
    "\<forall>x. x \<notin> span B 1024 \<longrightarrow> memory (disk s1) x = memory (disk s) x"
    by (rule occupy_refills [OF r [unfolded k]]) auto
  then show thesis using left_in_buffer(1) [OF r] k by (intro that [of s1]) (simp_all add: read_byte_def)
qed

section \<open>Reading\<close>

lemma reader_no_error: "reader i cs z e B C P p s \<Longrightarrow> \<not> has i SW_ERROR s"
  using reader_flags by (auto simp: reader_def reads_at_def)

lemma clear_of_Suc: "clear_of P e B (span out (Suc n)) \<longleftrightarrow> clear_of P e B {out} \<and> clear_of P e B (span (out + 1) n)"
  using span_add [of out 1 n] by (auto simp: clear_of_def span_def)

lemma bytes_first: "bytes m a (Suc n) = m a # bytes m (a + 1) n"
  using bytes_add [of m a 1 n] by (simp add: bytes_def)

lemma first_apart: "Suc n \<le> 2 ^ 32 \<Longrightarrow> a \<notin> span (a + 1) n"
  using span_split [of 1 n a] by (auto simp: span_def)

lemma read_element_exact:
  assumes "reader i cs z e B C P p s" "p \<le> z" "z \<le> length C" "clear_of P e B (span out n)" "n < 2 ^ 32"
  shows "\<exists>s'. read_element n out i s = Some (n \<le> z - p, s') \<and> \<not> has i SW_ERROR s' \<and>
    (n \<le> z - p \<longrightarrow> reader i cs z e B C P (p + n) s') \<and>
    bytes (memory (disk s')) out (min n (z - p)) = take (min n (z - p)) (drop p C) \<and>
    (\<forall>x. x \<notin> span out (min n (z - p)) \<union> span B 1024 \<longrightarrow> memory (disk s') x = memory (disk s) x)"
  using assms
proof (induction n arbitrary: p s out)
  case 0
  then show ?case using reader_no_error by (auto simp: span_def)
next
  case (Suc n)
  show ?case
  proof (cases "p = z")
    case True
    then obtain s' where "read_byte out i s = Some (False, s')" "\<not> has i SW_ERROR s'"
      "\<forall>x. x \<notin> span B 1024 \<longrightarrow> memory (disk s') x = memory (disk s) x" using read_byte_end Suc.prems(1) by blast
    then show ?thesis using True by (simp add: span_def)
  next
    case False
    then have p: "p < z" using Suc.prems(2) by simp
    have out: "clear_of P e B {out}" "clear_of P e B (span (out + 1) n)" using Suc.prems(4) clear_of_Suc by blast+
    obtain s1 where s1: "read_byte out i s = Some (True, s1)" "reader i cs z e B C P (p + 1) s1" "memory (disk s1) out = C ! p"
      "\<forall>x. x \<noteq> out \<longrightarrow> x \<notin> span B 1024 \<longrightarrow> memory (disk s1) x = memory (disk s) x"
      using read_byte_step [OF Suc.prems(1) p out(1)] by blast
    let ?k = "min n (z - (p + 1))"
    have "p + 1 \<le> z" "n < 2 ^ 32" using p Suc.prems(5) by simp_all
    from Suc.IH [OF s1(2) this(1) Suc.prems(3) out(2) this(2)] obtain s' where s':
      "read_element n (out + 1) i s1 = Some (n \<le> z - (p + 1), s')" "\<not> has i SW_ERROR s'"
      "n \<le> z - (p + 1) \<longrightarrow> reader i cs z e B C P (p + 1 + n) s'"
      "bytes (memory (disk s')) (out + 1) ?k = take ?k (drop (p + 1) C)"
      "\<forall>x. x \<notin> span (out + 1) ?k \<union> span B 1024 \<longrightarrow> memory (disk s') x = memory (disk s1) x" by blast
    have k: "min (Suc n) (z - p) = Suc ?k" "Suc n \<le> z - p \<longleftrightarrow> n \<le> z - (p + 1)" using p by auto
    have "out \<notin> span (out + 1) ?k" using Suc.prems(5) by (intro first_apart) simp
    moreover have "out \<notin> span B 1024" using out(1) by (simp add: clear_of_def)
    ultimately have "memory (disk s') out = C ! p" using s'(5) s1(3) by simp
    then have "bytes (memory (disk s')) out (Suc ?k) = take (Suc ?k) (drop p C)"
      using s'(4) p Suc.prems(3) by (simp add: bytes_first Cons_nth_drop_Suc [symmetric])
    moreover have "span out (Suc ?k) = insert out (span (out + 1) ?k)" using span_add [of out 1 ?k] by (auto simp: span_def)
    moreover have "read_element (Suc n) out i s = Some (n \<le> z - (p + 1), s')" using s1(1) s'(1) by simp
    ultimately show ?thesis unfolding k using s'(2,3,5) s1(4) by (intro exI [of _ s']) auto
  qed
qed

lemma clear_of_mono: "clear_of P e B A \<Longrightarrow> A' \<subseteq> A \<Longrightarrow> clear_of P e B A'"
  by (auto simp: clear_of_def)

lemma fread_loop_exact:
  assumes "reader i cs z e B C P p s" "p \<le> z" "z \<le> length C" "clear_of P e B (span out (n * sz))" "n * sz < 2 ^ 32" "0 < sz"
  shows "\<exists>s'. fread_loop n sz out r i s = Some (r + of_nat (min n ((z - p) div sz)), s') \<and> \<not> has i SW_ERROR s' \<and>
    (n * sz \<le> z - p \<longrightarrow> reader i cs z e B C P (p + n * sz) s') \<and>
    bytes (memory (disk s')) out (min (n * sz) (z - p)) = take (min (n * sz) (z - p)) (drop p C) \<and>
    (\<forall>x. x \<notin> span out (min (n * sz) (z - p)) \<union> span B 1024 \<longrightarrow> memory (disk s') x = memory (disk s) x)"
  using assms(1-5)
proof (induction n arbitrary: p s out r)
  case 0
  then show ?case using reader_no_error by (auto simp: span_def)
next
  case (Suc n)
  have sp: "span out (Suc n * sz) = span out sz \<union> span (out + of_nat sz) (n * sz)" using span_add [of out sz "n * sz"] by simp
  have out: "clear_of P e B (span out sz)" "clear_of P e B (span (out + of_nat sz) (n * sz))" "sz < 2 ^ 32" "n * sz < 2 ^ 32"
    using clear_of_mono [OF Suc.prems(4)] Suc.prems(5) unfolding sp by auto
  obtain s1 where s1: "read_element sz out i s = Some (sz \<le> z - p, s1)" "\<not> has i SW_ERROR s1"
    "sz \<le> z - p \<longrightarrow> reader i cs z e B C P (p + sz) s1"
    "bytes (memory (disk s1)) out (min sz (z - p)) = take (min sz (z - p)) (drop p C)"
    "\<forall>x. x \<notin> span out (min sz (z - p)) \<union> span B 1024 \<longrightarrow> memory (disk s1) x = memory (disk s) x"
    using read_element_exact [OF Suc.prems(1-3) out(1,3)] by blast
  show ?case
  proof (cases "sz \<le> z - p")
    case False
    then have "min (Suc n) ((z - p) div sz) = 0" "min (Suc n * sz) (z - p) = z - p" "min sz (z - p) = z - p" "\<not> Suc n * sz \<le> z - p"
      by (simp_all add: min_def)
    then show ?thesis using False s1 by (intro exI [of _ s1]) simp
  next
    case True
    let ?q = "p + sz" and ?o = "out + of_nat sz :: u32" let ?k = "min (n * sz) (z - ?q)"
    have "?q \<le> z" using True assms(6) by linarith
    from Suc.IH [OF s1(3) [rule_format, OF True] this Suc.prems(3) out(2,4), of "r + 1"] obtain s' where s':
      "fread_loop n sz ?o (r + 1) i s1 = Some (r + 1 + of_nat (min n ((z - ?q) div sz)), s')" "\<not> has i SW_ERROR s'"
      "n * sz \<le> z - ?q \<longrightarrow> reader i cs z e B C P (?q + n * sz) s'"
      "bytes (memory (disk s')) ?o ?k = take ?k (drop ?q C)"
      "\<forall>x. x \<notin> span ?o ?k \<union> span B 1024 \<longrightarrow> memory (disk s') x = memory (disk s1) x" by blast
    obtain d where d: "z - p = sz + d" using True le_Suc_ex by blast
    have rest: "z - ?q = d" using d by simp
    have k: "min (Suc n * sz) (z - p) = sz + ?k" "Suc n * sz \<le> z - p \<longleftrightarrow> n * sz \<le> z - ?q" unfolding rest d by auto
    have cnt: "min (Suc n) ((z - p) div sz) = Suc (min n ((z - ?q) div sz))" unfolding rest d using le_div_geq [of sz "sz + d"] assms(6) by simp
    have "sz + ?k \<le> 2 ^ 32" using Suc.prems(5) by (simp add: min_def)
    then have "span out sz \<inter> (span ?o ?k \<union> span B 1024) = {}"
      using span_split [of sz ?k out] out(1) by (auto simp: clear_of_def)
    then have "bytes (memory (disk s')) out sz = bytes (memory (disk s1)) out sz" using s'(5) by (intro bytes_cong) blast
    also have "\<dots> = take sz (drop p C)" using s1(4) True by (simp add: min_def)
    finally have "bytes (memory (disk s')) out (sz + ?k) = take (sz + ?k) (drop p C)"
      using s'(4) by (simp add: bytes_add take_add add.commute)
    moreover have "min sz (z - p) = sz" using True by simp
    moreover have "fread_loop (Suc n) sz out r i s = Some (r + of_nat (Suc (min n ((z - ?q) div sz))), s')"
      using s1(1) s'(1) True by simp
    ultimately show ?thesis unfolding k cnt using s'(2,3,5) s1(5) span_add [of out sz ?k]
      by (intro exI [of _ s']) (auto simp: add.assoc)
  qed
qed

text \<open>
  C32. For a stream that is open for reading with its position at \<open>p\<close> of a file of \<open>z\<close> bytes:
  \<open>fread\<close> of \<open>n\<close> elements of \<open>sz\<close> bytes gives the next bytes of the file (the contents of C27), as many as are asked for and left, although
  it reads the file in blocks of 1024 bytes ahead; it writes to the caller's memory and its buffer only, which must
  lie apart from one another, the clusters of the file and its entries. It returns the number of whole elements it
  has read, also when these are fewer than it was asked for: the comment above the function promises -1 then.
\<close>

theorem fread_exact:
  assumes "reader i cs z e B C P p s" "p \<le> z" "z \<le> length C" "0 < n" "0 < sz" "n * sz < 2 ^ 31" "clear_of P e B (span out (n * sz))"
    and "k = min (n * sz) (z - p)"
  shows "\<exists>s'. fread out (of_nat sz) (of_nat n) i s = Some (of_nat (k div sz), s') \<and>
    bytes (memory (disk s')) out k = take k (drop p C) \<and>
    (n * sz \<le> z - p \<longrightarrow> reader i cs z e B C P (p + n * sz) s') \<and>
    (\<forall>x. x \<notin> span out k \<union> span B 1024 \<longrightarrow> memory (disk s') x = memory (disk s) x)"
proof -
  have "n \<le> n * sz" "sz \<le> n * sz" "n * sz < 2 ^ 32" using assms(4-6) by simp_all
  then have "n < 2 ^ 32" and "sz < 2 ^ 32" by (meson le_less_trans)+
  then have n: "unat (of_nat n :: u32) = n" "(of_nat n :: u32) \<noteq> 0" "unat (of_nat sz :: u32) = sz" "(of_nat sz :: u32) \<noteq> 0"
    using assms(4,5) by (simp_all add: unat_of_nat_lt unat_eq_0 [symmetric] del: unat_eq_0)
  have "k div sz = min n ((z - p) div sz)"
  proof (cases "n * sz \<le> z - p")
    case True
    then have "n \<le> (z - p) div sz" using assms(5) by (simp add: less_eq_div_iff_mult_less_eq)
    then show ?thesis using True assms(5,8) by simp
  next
    case False
    then have "(z - p) div sz < n" using assms(5) by (simp add: div_less_iff_less_mult)
    then show ?thesis using False assms(8) by simp
  qed
  moreover have "n * sz < 2 ^ 32" using assms(6) by simp
  ultimately show ?thesis
    using fread_loop_exact [OF assms(1-3,7) _ assms(5), of 0] n unfolding assms(8) by (auto simp: fread_def)
qed


text \<open>The stream of file 3 of the sample disk, with nothing in its buffer.\<close>

definition sample_streams :: "u32 \<Rightarrow> u32 \<Rightarrow> streams" where
  "sample_streams fl n = \<lparr>disk = sample n\<lparr>blocks := [0x1000]\<rparr>,
     BUF_IO = (replicate SW_FILEOPEN_MAX closed_file)[3 := closed_file\<lparr>fdesp := 3, io_flags := fl\<rparr>],
     errno = 0, buf_io_addr = 0x3000, un_ch = 0x740, c_val = 0x700\<rparr>"

lemma sample_stream:
  "j < SW_FILEOPEN_MAX \<Longrightarrow> stream j (sample_streams fl n) = (if j = 3 then closed_file\<lparr>fdesp := 3, io_flags := fl\<rparr> else closed_file)"
  "length (BUF_IO (sample_streams fl n)) = SW_FILEOPEN_MAX" "disk (sample_streams fl n) = sample n\<lparr>blocks := [0x1000]\<rparr>"
  by (simp_all add: stream_def sample_streams_def)

lemma sample_buffer_apart: "span 0x1000 1024 \<inter> ({0x200..<0x208} \<union> {0x108..<0x110}) = {}" "0x300 + 11 \<notin> span 0x1000 1024"
  using span_range [of _ "0x1000" 1024] by (fastforce simp: word_le_nat_alt word_less_nat_alt)+

lemma sample_reader: "reader 3 [2, 3] 6 0x300 0x1000 [1, 2, 3, 4, 5, 6, 7, 8] ({0x200..<0x208} \<union> {0x108..<0x110}) 0 (sample_streams SW_READ 6)"
proof -
  have "handle (sample 6) [2, 3] 3 (sample_file 6) 0" by (rule sample_handle) simp
  moreover have "unat (file_size (sample_file 6)) = 6" "entry (sample_file 6) = 0x300" by (simp_all add: sample_file_def)
  ultimately have "reads_at 3 [2, 3] 6 0x300 0x1000 [1, 2, 3, 4, 5, 6, 7, 8] ({0x200..<0x208} \<union> {0x108..<0x110}) 0 0 (sample_file 6) 0
      (sample_streams SW_READ 6)"
    unfolding reads_at_def using sample_buffer_apart
    by (simp add: sample_stream SW_FILEOPEN_MAX_def closed_file_def read_flags_def blocks_frame sample_places sample_content bytes_def)
  then show ?thesis unfolding reader_def by blast
qed

text \<open>Six bytes are left when two elements of four bytes are asked for: one is returned, all six are stored.\<close>

theorem fread_exact_witness:
  "\<exists>s'. fread 0x400 4 2 3 (sample_streams SW_READ 6) = Some (1, s') \<and> bytes (memory (disk s')) 0x400 6 = [1, 2, 3, 4, 5, 6]"
proof -
  have "{..<8 :: nat} = {0, 1, 2, 3, 4, 5, 6, 7}" by auto
  then have sp: "span 0x400 8 = {0x400, 0x401, 0x402, 0x403, 0x404, 0x405, 0x406, 0x407}" by (simp add: span_def)
  have "x \<notin> span 0x1000 1024" if "x \<in> span 0x400 8" for x
    using that span_range [of x "0x1000" 1024] unfolding sp by auto
  then have "clear_of ({0x200..<0x208} \<union> {0x108..<0x110}) 0x300 0x1000 (span 0x400 8)"
    unfolding clear_of_def sp by auto
  then show ?thesis
    using fread_exact [OF sample_reader, of 2 4 "0x400" 6] by auto
qed

end
