(* ===== verification/FileLibWrite.thy ===== *)
theory FileLibWrite
  imports FileLibRead
begin

text \<open>
  Writing through a stream: a stream that \<open>fopen\<close> opened for writing is unbuffered, because its
  flags are those of the file system and have other meanings in a stream, so each byte goes to the
  file at once, and then \<open>fwrite\<close> writes all of them again.
\<close>

section \<open>Writing inside a cluster\<close>

lemma write_loop_within:
  assumes c: "cur_cluster f \<noteq> 0" "\<not> is_end (cur_cluster f)" and off: "unat (cur_offset f) + n < csize s" "csize s < 2 ^ 16" and n: "0 < n"
  shows "\<exists>m'. write_loop buffer (of_nat n) (of_nat n) 0 l f s =
    Some (of_nat n, l\<lparr>prev_cluster := cur_cluster f\<rparr>, f\<lparr>cur_offset := cur_offset f + of_nat n\<rparr>, s\<lparr>memory := m'\<rparr>)"
proof -
  have un: "unat (of_nat n :: u32) = n" "unat (of_nat n :: u16) = n" using off by (simp_all add: unat_of_nat_lt)
  have "unat (chunk (cluster_size s) (cur_offset f) (of_nat n)) = n"
    using chunk_size [of "cluster_size s" "csize s" "cur_offset f" n] off by (simp add: csize_def)
  then have ch: "chunk (cluster_size s) (cur_offset f) (of_nat n) = of_nat n" using un(1) by (simp add: unat_inject [symmetric])
  have o1: "unat (cur_offset f + of_nat n) = unat (cur_offset f) + n" using un(2) off by (subst unat_plus_lt) simp_all
  have o2: "ucast (ucast (cur_offset f) + of_nat n :: u32) = cur_offset f + of_nat n"
    using next_offset [of "cur_offset f" "of_nat n"] un o1 off by (simp add: unat_inject [symmetric])
  have room: "cluster_size s - ucast (cur_offset f) \<noteq> 0"
  proof
    assume "cluster_size s - ucast (cur_offset f) = 0"
    then have "cluster_size s = ucast (cur_offset f)" by simp
    then show False using off by (simp add: csize_def unat_u16)
  qed
  have full: "ucast (cur_offset f + of_nat n) \<noteq> cluster_size s"
    using o1 off unat_u16 [of "cur_offset f + of_nat n"] unfolding csize_def by (metis less_irrefl)
  have pos: "0 < sint (of_nat n :: u32)" using n off by (subst sint_small_pos) simp_all
  have stop: "write_loop buffer (of_nat n) 0 (of_nat n) l' f' s' = Some (of_nat n, l', f', s')" for l' f' s'
    by (subst write_loop.simps) simp
  have "write_loop buffer (of_nat n) (of_nat n) 0 l f s =
      Some (of_nat n, l\<lparr>prev_cluster := cur_cluster f\<rparr>, f\<lparr>cur_offset := cur_offset f + of_nat n\<rparr>,
        on_mem (\<lambda>m. snd (sw_memcpy (cluster_addr s (cur_cluster f) + ucast (cur_offset f)) buffer (of_nat n) m)) s)"
    using c room ch o2 full pos stop by (subst write_loop.simps) (simp add: Let_def code_addr)
  then show ?thesis unfolding on_mem_def by blast
qed

lemma write_within:
  assumes h: "handle s cs d f p" and sep: "separate s cs" and off: "unat (cur_offset f) + n < csize s" and n: "0 < n" and md: "ucast (mode f) \<noteq> FILE_READ"
    and fit: "p + n \<le> unat (file_size f)" and apart: "span buffer n \<inter> places s cs = {}" "entry f + 11 \<notin> data_places s cs"
  obtains m' f' where "file_write d buffer (of_nat n) s = Some (of_nat n, put_file f' (s\<lparr>memory := m'\<rparr>))"
    "handle (put_file f' (s\<lparr>memory := m'\<rparr>)) cs d f' (p + n)" "file_size f' = file_size f" "entry f' = entry f" "mode f' = mode f"
    "unat (cur_offset f') = unat (cur_offset f) + n" "content (s\<lparr>memory := m'\<rparr>) cs = overwrite p (bytes (memory s) buffer n) (content s cs)"
    "\<forall>x. x \<notin> data_places s cs \<longrightarrow> m' x = memory s x"
proof -
  note H = h [unfolded handle_def opened_def]
  obtain i where i: "i < length cs" "cur_cluster f = cs ! i" "p = i * csize s + unat (cur_offset f)" using H by (auto simp: at_pos_def)
  have c: "cur_cluster f \<noteq> 0" "\<not> is_end (cur_cluster f)" "cur_cluster f \<in> set cs" using H i by (auto simp: chain_code)
  let ?l = "\<lparr>prev_cluster = junk s, new_cluster = junk s, alloc_cluster_cnt = 0\<rparr>"
  have "csize s < 2 ^ 16" using H by simp
  from write_loop_within [OF c(1,2) off this n, of buffer ?l] obtain m1 where
    w1: "write_loop buffer (of_nat n) (of_nat n) 0 ?l f s =
      Some (of_nat n, ?l\<lparr>prev_cluster := cur_cluster f\<rparr>, f\<lparr>cur_offset := cur_offset f + of_nat n\<rparr>, s\<lparr>memory := m1\<rparr>)" ..
  have un: "unat (of_nat n :: u32) = n" "unat (of_nat n :: u16) = n" using H off by (simp_all add: unat_of_nat_lt)
  let ?f = "f\<lparr>cur_offset := cur_offset f + of_nat n, bytes_traversed := bytes_traversed f + of_nat n\<rparr>"
  have "\<not> file_size f < of_nat n" using fit un by (simp add: word_less_nat_alt)
  then have w: "file_write d buffer (of_nat n) s = Some (of_nat n, put_file ?f (s\<lparr>memory := m1\<rparr>))"
    using H md w1 by (simp add: file_write_def)
  obtain f' m' where g: "file_write d buffer (of_nat n) s = Some (of_nat n, put_file f' (s\<lparr>memory := m'\<rparr>))"
      "opened (put_file f' (s\<lparr>memory := m'\<rparr>)) cs d f'" "content (s\<lparr>memory := m'\<rparr>) cs = overwrite p (bytes (memory s) buffer n) (content s cs)"
      "\<forall>x. x \<notin> data_places s cs \<longrightarrow> m' x = memory s x"
    using file_write_opened [OF h sep _ md fit apart] off by auto
  have eq: "put_file f' (s\<lparr>memory := m'\<rparr>) = put_file ?f (s\<lparr>memory := m1\<rparr>)" using g(1) w by simp
  have "file_of d (put_file ?f (s\<lparr>memory := m1\<rparr>)) = Some ?f" using H file_of_fd [of d s f] by (intro file_of_put [where f=f]) auto
  moreover have "file_of d (put_file f' (s\<lparr>memory := m'\<rparr>)) = Some f'" using g(2) by (simp add: opened_def)
  ultimately have f': "f' = ?f" using eq by simp
  have o1: "unat (cur_offset f + of_nat n) = unat (cur_offset f) + n" using un(2) off H by (subst unat_plus_lt) simp_all
  have "at_pos s cs ?f (p + n)" using i o1 off by (auto simp: at_pos_def intro!: exI [of _ i])
  moreover have "unat (bytes_traversed f + of_nat n) = p + n" using H fit un by (subst unat_plus_lt) simp_all
  ultimately have "handle (put_file ?f (s\<lparr>memory := m'\<rparr>)) cs d ?f (p + n)" using g(2) fit by (simp add: handle_def f')
  then show thesis using g(1,3,4) o1 unfolding f' by (intro that [of ?f m']) simp_all
qed

section \<open>A stream opened for writing\<close>

text \<open>
  Such a stream has the flags that \<open>fopen\<close> sets for \<open>"w"\<close>; \<open>off\<close> is the offset in the cluster. No other stream has
  anything to write.
\<close>

definition write_flags :: u32 where
  "write_flags = SW_WRITE OR SW_CREATE_ALWAYS OR SW_CREATE_NEW"

definition writes_at :: "nat \<Rightarrow> u32 list \<Rightarrow> u32 \<Rightarrow> u32 \<Rightarrow> nat \<Rightarrow> nat \<Rightarrow> u32 set \<Rightarrow> u32 set \<Rightarrow> u8 list \<Rightarrow> nat \<Rightarrow> nat \<Rightarrow> file_info \<Rightarrow> streams \<Rightarrow> bool" where
  "writes_at i cs e c z Z P D C p off f s \<longleftrightarrow>
     i < length (BUF_IO s) \<and> io_flags (stream i s) = write_flags \<and> chr_count (stream i s) = 0 \<and> 0 \<le> sint (fdesp (stream i s)) \<and>
     (\<forall>j<SW_FILEOPEN_MAX. written_to j s \<longrightarrow> buf_base (stream j s) = 0 \<or> has j SW_UNBUF s) \<and>
     handle (disk s) cs (fdesp (stream i s)) f p \<and> separate (disk s) cs \<and> ucast (mode f) \<noteq> FILE_READ \<and> unat (cur_offset f) = off \<and>
     csize (disk s) = Z \<and> unat (file_size f) = z \<and> entry f = e \<and> content (disk s) cs = C \<and> places (disk s) cs = P \<and>
     data_places (disk s) cs = D \<and> e + 11 \<notin> D \<and> c_val s = c \<and> span c 4 \<inter> P = {} \<and> e + 11 \<notin> span c 4"

lemma geometry_frame [simp]:
  "separate (s\<lparr>memory := m\<rparr>) cs = separate s cs" "data_places (s\<lparr>memory := m\<rparr>) cs = data_places s cs"
  "separate (put_file f s) cs = separate s cs" "data_places (put_file f s) cs = data_places s cs"
proof -
  have [simp]: "cluster_addr (put_file f s) c = cluster_addr s c" "first_fat (put_file f s) = first_fat s" for c
    by (simp_all add: put_file_def cluster_addr_def)
  show "separate (s\<lparr>memory := m\<rparr>) cs = separate s cs" "data_places (s\<lparr>memory := m\<rparr>) cs = data_places s cs"
    "separate (put_file f s) cs = separate s cs" "data_places (put_file f s) cs = data_places s cs"
    by (simp_all add: separate_def data_places_def)
qed

lemma write32_first: "write32 a (ucast (v :: u8)) m a = v"
proof -
  have "ucast (ucast v :: u32) = v" by (rule bit_word_eqI) (auto simp: bit_simps)
  then show ?thesis by (simp add: write32_def)
qed

lemma byte_not_EOF: "ucast (v :: u8) \<noteq> EOF"
proof -
  have "unat (ucast v :: u32) < 256" using unsigned_less [of v, where 'a=nat] by (subst unat_ucast_small) simp_all
  then show ?thesis by (auto simp: EOF_def unsigned_minus_1_eq_mask mask_eq_exp_minus_1)
qed

lemma write_byte_direct:
  assumes W: "writes_at i cs e c z Z P D C p off f s" and fit: "off + 1 < Z" "p + 1 \<le> z"
  obtains s' f' where "write_byte cp i s = Some (True, s')"
    "writes_at i cs e c z Z P D (overwrite p [memory (disk s) cp] C) (p + 1) (off + 1) f' s'"
    "fdesp (stream i s') = fdesp (stream i s)" "\<forall>x. x \<notin> D \<union> span c 4 \<longrightarrow> memory (disk s') x = memory (disk s) x"
proof -
  note H = W [unfolded writes_at_def]
  let ?ch = "memory (disk s) cp" and ?F = "stream i s"
  let ?d = "disk s\<lparr>memory := write32 c (ucast ?ch) (memory (disk s))\<rparr>"
  have content: "content ?d cs = C" using H by (subst content_frame) (auto intro: write32_off)
  have "handle ?d cs (fdesp ?F) f p" using H by (intro handle_frame) (auto intro: write32_off)
  moreover have "separate ?d cs" "unat (cur_offset f) + 1 < csize ?d" "(0 :: nat) < 1" "ucast (mode f) \<noteq> FILE_READ" "p + 1 \<le> unat (file_size f)"
    "span c 1 \<inter> places ?d cs = {}" "entry f + 11 \<notin> data_places ?d cs"
    using H fit span_mono [of 0 1 4 c] by auto
  ultimately obtain m' f' where w: "file_write (fdesp ?F) c (of_nat 1) ?d = Some (of_nat 1, put_file f' (?d\<lparr>memory := m'\<rparr>))"
    "handle (put_file f' (?d\<lparr>memory := m'\<rparr>)) cs (fdesp ?F) f' (p + 1)" "file_size f' = file_size f" "entry f' = entry f" "mode f' = mode f"
    "unat (cur_offset f') = unat (cur_offset f) + 1" "content (?d\<lparr>memory := m'\<rparr>) cs = overwrite p (bytes (memory ?d) c 1) (content ?d cs)"
    "\<forall>x. x \<notin> data_places ?d cs \<longrightarrow> m' x = memory ?d x"
    by (rule write_within)
  have one: "bytes (memory ?d) c 1 = [?ch]" by (simp add: bytes_def write32_first)
  let ?a = "count_down i s"
  have fl: "\<not> has i SW_READ ?a" "has i SW_WRITE ?a" "has i SW_UNBUF ?a" "\<not> has i SW_IOLBF ?a" "\<not> has i SW_APPEND ?a"
    using H by (simp_all add: count_down_def stream_simps has_def write_flags_def io_codes)
  have others: "written_to j ?a = written_to j s" "buf_base (stream j ?a) = buf_base (stream j s)" "has j SW_UNBUF ?a = has j SW_UNBUF s" for j
    using H by (cases "j = i"; simp add: count_down_def stream_simps written_to_def has_def)+
  have idle: "clear_streams written_to [0..<SW_FILEOPEN_MAX] 0 ?a = Some (0, ?a)"
    using H others by (intro clear_streams_idle clear_one_unbuffered) (metis atLeastLessThan_iff set_upt)
  let ?b = "upd i (\<lambda>f. f\<lparr>io_flags := (io_flags f AND NOT SW_READ) OR SW_WRITE\<rparr>) ?a"
  let ?t = "upd i (\<lambda>f. f\<lparr>chr_count := 0\<rparr>) (?b\<lparr>disk := ?d\<rparr>)\<lparr>disk := put_file f' (?d\<lparr>memory := m'\<rparr>)\<rparr>"
  have fl1: "has i b ?b = has i b ?a" for b
    using H by (simp add: count_down_def stream_simps has_def write_flags_def io_codes)
  have s1: "write_buffer i ?b = ?b" using fl(3) fl1 by (simp add: write_buffer_def)
  have "write_unbuffered ?ch i ?b = Some (ucast ?ch, ?t)"
    using H w(1) fl(5) by (simp add: write_unbuffered_def Let_def write_flags_def io_codes f_write_def on_disk_def seek_append_def count_down_def stream_simps on_mem_def has_def)
  then have "sw_flushbuffer ?ch i ?a = Some (ucast ?ch, ?t)"
    using idle fl fl1 s1 H by (simp add: sw_flushbuffer_def Let_def) (simp add: count_down_def stream_simps)
  moreover have "sint (chr_count (stream i ?a)) < 0" using H by (simp add: count_down_def stream_simps)
  ultimately have run: "write_byte cp i s = Some (True, ?t)"
    using byte_not_EOF [of ?ch] by (simp add: write_byte_def count_down_def stream_simps)
  have st: "stream i ?t = ?F\<lparr>chr_count := 0\<rparr>" using H by (simp add: count_down_def stream_simps write_flags_def io_codes)
  have rest: "written_to j ?t = written_to j s" "buf_base (stream j ?t) = buf_base (stream j s)" "has j SW_UNBUF ?t = has j SW_UNBUF s" for j
    using H st by (cases "j = i"; simp add: count_down_def stream_simps written_to_def has_def)+
  have "content (put_file f' (?d\<lparr>memory := m'\<rparr>)) cs = overwrite p [?ch] C" using w(7) one content by simp
  moreover have "places ?d cs = P" "csize ?d = Z" "data_places ?d cs = D" using H by simp_all
  ultimately have "writes_at i cs e c z Z P D (overwrite p [?ch] C) (p + 1) (off + 1) f' ?t"
    using H w(2-6) st rest unfolding writes_at_def by (simp add: count_down_def stream_simps)
  moreover have "\<forall>x. x \<notin> D \<union> span c 4 \<longrightarrow> memory (disk ?t) x = memory (disk s) x"
    using w(8) H by (simp add: write32_off)
  ultimately show thesis using run st by (intro that [of ?t f']) simp_all
qed

lemma writes_at_length: "writes_at i cs e c z Z P D C p off f s \<Longrightarrow> z \<le> length C \<and> Z < 2 ^ 16"
  by (auto simp: writes_at_def handle_def opened_def)

lemma write_element_direct:
  assumes "writes_at i cs e c z Z P D C p off f s" "off + n < Z" "p + n \<le> z" "span cp n \<inter> (D \<union> span c 4) = {}"
  shows "\<exists>s' f'. write_element n cp i s = Some (True, s') \<and>
    writes_at i cs e c z Z P D (overwrite p (bytes (memory (disk s)) cp n) C) (p + n) (off + n) f' s' \<and>
    fdesp (stream i s') = fdesp (stream i s) \<and> (\<forall>x. x \<notin> D \<union> span c 4 \<longrightarrow> memory (disk s') x = memory (disk s) x)"
  using assms
proof (induction n arbitrary: p off f s cp C)
  case 0
  then show ?case by auto
next
  case (Suc n)
  let ?ch = "memory (disk s) cp"
  have "off + 1 < Z" "p + 1 \<le> z" using Suc.prems(2,3) by simp_all
  with Suc.prems(1) obtain s1 f1 where s1: "write_byte cp i s = Some (True, s1)"
    "writes_at i cs e c z Z P D (overwrite p [?ch] C) (p + 1) (off + 1) f1 s1" "fdesp (stream i s1) = fdesp (stream i s)"
    "\<forall>x. x \<notin> D \<union> span c 4 \<longrightarrow> memory (disk s1) x = memory (disk s) x"
    by (rule write_byte_direct)
  have sp: "span cp (Suc n) = insert cp (span (cp + 1) n)" using span_add [of cp 1 n] by (auto simp: span_def)
  have "off + 1 + n < Z" "p + 1 + n \<le> z" "span (cp + 1) n \<inter> (D \<union> span c 4) = {}" using Suc.prems(2-4) sp by auto
  from Suc.IH [OF s1(2) this] obtain s' f' where s':
    "write_element n (cp + 1) i s1 = Some (True, s')"
    "writes_at i cs e c z Z P D (overwrite (p + 1) (bytes (memory (disk s1)) (cp + 1) n) (overwrite p [?ch] C)) (p + 1 + n) (off + 1 + n) f' s'"
    "fdesp (stream i s') = fdesp (stream i s1)" "\<forall>x. x \<notin> D \<union> span c 4 \<longrightarrow> memory (disk s') x = memory (disk s1) x"
    by blast
  have "bytes (memory (disk s1)) (cp + 1) n = bytes (memory (disk s)) (cp + 1) n"
    using s1(4) Suc.prems(4) sp by (intro bytes_cong) auto
  moreover have "p + length [?ch] \<le> length C" using Suc.prems(1,3) writes_at_length by fastforce
  ultimately have "overwrite (p + 1) (bytes (memory (disk s1)) (cp + 1) n) (overwrite p [?ch] C) = overwrite p (bytes (memory (disk s)) cp (Suc n)) C"
    using overwrite_overwrite [of p "[?ch]" C] by (simp add: bytes_first)
  then show ?case using s1 s' by (intro exI [of _ s'] exI [of _ f']) (simp add: ac_simps)
qed

lemma fwrite_loop_direct:
  assumes "writes_at i cs e c z Z P D C p off f s" "off + n * sz < Z" "p + n * sz \<le> z" "span cp (n * sz) \<inter> (D \<union> span c 4) = {}"
  shows "\<exists>s' f'. fwrite_loop n sz cp new i s = Some (True, new + of_nat n, s') \<and>
    writes_at i cs e c z Z P D (overwrite p (bytes (memory (disk s)) cp (n * sz)) C) (p + n * sz) (off + n * sz) f' s' \<and>
    fdesp (stream i s') = fdesp (stream i s) \<and> (\<forall>x. x \<notin> D \<union> span c 4 \<longrightarrow> memory (disk s') x = memory (disk s) x)"
  using assms
proof (induction n arbitrary: p off f s cp new C)
  case 0
  then show ?case by auto
next
  case (Suc n)
  have sp: "span cp (Suc n * sz) = span cp sz \<union> span (cp + of_nat sz) (n * sz)" using span_add [of cp sz "n * sz"] by simp
  have el: "off + sz < Z" "p + sz \<le> z" "span cp sz \<inter> (D \<union> span c 4) = {}" using Suc.prems(2-4) sp by auto
  obtain s1 f1 where s1: "write_element sz cp i s = Some (True, s1)"
    "writes_at i cs e c z Z P D (overwrite p (bytes (memory (disk s)) cp sz) C) (p + sz) (off + sz) f1 s1"
    "fdesp (stream i s1) = fdesp (stream i s)" "\<forall>x. x \<notin> D \<union> span c 4 \<longrightarrow> memory (disk s1) x = memory (disk s) x"
    using write_element_direct [OF Suc.prems(1) el] by blast
  have "off + sz + n * sz < Z" "p + sz + n * sz \<le> z" "span (cp + of_nat sz) (n * sz) \<inter> (D \<union> span c 4) = {}"
    using Suc.prems(2-4) sp by auto
  from Suc.IH [OF s1(2) this, of "new + 1"] obtain s' f' where s':
    "fwrite_loop n sz (cp + of_nat sz) (new + 1) i s1 = Some (True, new + 1 + of_nat n, s')"
    "writes_at i cs e c z Z P D (overwrite (p + sz) (bytes (memory (disk s1)) (cp + of_nat sz) (n * sz))
       (overwrite p (bytes (memory (disk s)) cp sz) C)) (p + sz + n * sz) (off + sz + n * sz) f' s'"
    "fdesp (stream i s') = fdesp (stream i s1)" "\<forall>x. x \<notin> D \<union> span c 4 \<longrightarrow> memory (disk s') x = memory (disk s1) x"
    by blast
  have "bytes (memory (disk s1)) (cp + of_nat sz) (n * sz) = bytes (memory (disk s)) (cp + of_nat sz) (n * sz)"
    using s1(4) Suc.prems(4) sp by (intro bytes_cong) auto
  moreover have "p + length (bytes (memory (disk s)) cp sz) \<le> length C"
    using el(2) writes_at_length [OF Suc.prems(1)] by simp
  ultimately have "overwrite (p + sz) (bytes (memory (disk s1)) (cp + of_nat sz) (n * sz)) (overwrite p (bytes (memory (disk s)) cp sz) C) =
      overwrite p (bytes (memory (disk s)) cp (Suc n * sz)) C"
    using overwrite_overwrite [of p "bytes (memory (disk s)) cp sz" C] by (simp add: bytes_add)
  then show ?case using s1 s' by (intro exI [of _ s'] exI [of _ f']) (simp add: ac_simps)
qed

text \<open>
  C33. For a stream opened for writing on a file with separate clusters, with the contents of C27: \<open>fwrite\<close> of \<open>n\<close> elements of
  \<open>sz\<close> bytes puts the bytes into the file at the position and, behind them, the first \<open>n\<close> of them again, while it
  returns the number of bytes of one copy; with elements of one byte the data arrives twice. The theorem is for a write that
  fits: all \<open>n * sz + n\<close> bytes lie inside one cluster, and inside the size that the file already has. (Where the file is
  shorter its size is set to the number of bytes of the last of the single writes, see \<open>file_write\<close>.)
\<close>

theorem fwrite_writes_twice:
  assumes "writes_at i cs e c z Z P D C p off f s" "0 < n" "0 < sz" "off + (n * sz + n) < Z" "p + (n * sz + n) \<le> z"
    and "span buf (n * sz) \<inter> (P \<union> span c 4) = {}" "xs = bytes (memory (disk s)) buf (n * sz)"
  shows "\<exists>s'. fwrite buf (of_nat sz) (of_nat n) i s = Some (of_nat (n * sz), s') \<and>
    content (disk s') cs = overwrite p (xs @ take n xs) C \<and>
    (\<forall>x. x \<notin> D \<union> span c 4 \<longrightarrow> memory (disk s') x = memory (disk s) x)"
proof -
  note H = assms(1) [unfolded writes_at_def]
  have D: "D \<subseteq> P" using H places_data [of "disk s" cs] by auto
  have Z: "z \<le> length C" "Z < 2 ^ 16" using writes_at_length [OF assms(1)] by blast+
  have le: "n \<le> n * sz" "sz \<le> n * sz" using assms(2,3) by simp_all
  have small: "n * sz < 2 ^ 16" "n < 2 ^ 16" "sz < 2 ^ 16" using assms(4) Z(2) le by linarith+
  have un: "unat (of_nat n :: u32) = n" "(of_nat n :: u32) \<noteq> 0" "unat (of_nat sz :: u32) = sz" "(of_nat sz :: u32) \<noteq> 0"
    using assms(2,3) small by (simp_all add: unat_of_nat_lt unat_eq_0 [symmetric] del: unat_eq_0)
  have "off + n * sz < Z" "p + n * sz \<le> z" "span buf (n * sz) \<inter> (D \<union> span c 4) = {}" using assms(4-6) D by auto
  with fwrite_loop_direct [OF assms(1), of n sz buf 0] obtain s1 f1 where s1:
    "fwrite_loop n sz buf 0 i s = Some (True, of_nat n, s1)" "writes_at i cs e c z Z P D (overwrite p xs C) (p + n * sz) (off + n * sz) f1 s1"
    "fdesp (stream i s1) = fdesp (stream i s)" "\<forall>x. x \<notin> D \<union> span c 4 \<longrightarrow> memory (disk s1) x = memory (disk s) x"
    unfolding assms(7) by auto
  note H1 = s1(2) [unfolded writes_at_def]
  have sub: "span buf n \<subseteq> span buf (n * sz)" using span_mono [of 0 n "n * sz" buf] le by simp
  have "bytes (memory (disk s1)) buf n = bytes (memory (disk s)) buf n" using s1(4) assms(6) D sub by (intro bytes_cong) auto
  also have "\<dots> = take n xs" using bytes_slice [of 0 n "n * sz" "memory (disk s)" buf] le by (simp add: assms(7))
  finally have xs: "bytes (memory (disk s1)) buf n = take n xs" .
  have "handle (disk s1) cs (fdesp (stream i s1)) f1 (p + n * sz)" "separate (disk s1) cs" "unat (cur_offset f1) + n < csize (disk s1)"
    "ucast (mode f1) \<noteq> FILE_READ" "p + n * sz + n \<le> unat (file_size f1)" "span buf n \<inter> places (disk s1) cs = {}" "entry f1 + 11 \<notin> data_places (disk s1) cs"
    using H1 assms(4-6) sub by auto
  then obtain m' f' where w: "file_write (fdesp (stream i s1)) buf (of_nat n) (disk s1) = Some (of_nat n, put_file f' (disk s1\<lparr>memory := m'\<rparr>))"
    "content (disk s1\<lparr>memory := m'\<rparr>) cs = overwrite (p + n * sz) (bytes (memory (disk s1)) buf n) (content (disk s1) cs)"
    "\<forall>x. x \<notin> data_places (disk s1) cs \<longrightarrow> m' x = memory (disk s1) x"
    using write_within [OF _ _ _ assms(2)] by metis
  have len: "p + length xs \<le> length C" using assms(5) Z(1) by (simp add: assms(7))
  have "content (disk s1\<lparr>memory := m'\<rparr>) cs = overwrite (p + length xs) (take n xs) (overwrite p xs C)"
    using w(2) H1 xs by (simp add: assms(7))
  then have both: "content (disk s1\<lparr>memory := m'\<rparr>) cs = overwrite p (xs @ take n xs) C" using overwrite_overwrite [OF len] by simp
  let ?s = "s1\<lparr>disk := put_file f' (disk s1\<lparr>memory := m'\<rparr>)\<rparr>"
  have guard: "\<not> (of_nat n OR of_nat sz > (0xFFFF :: u32))"
  proof -
    have "uint (of_nat n :: u32) < 2 ^ 16" "uint (of_nat sz :: u32) < 2 ^ 16" using un(1,3) small by (simp_all add: uint_nat)
    then have "uint (of_nat n OR of_nat sz :: u32) < 2 ^ 16" unfolding uint_or by (intro OR_upper) simp_all
    then show ?thesis by (simp add: word_less_def not_less)
  qed
  have prod: "of_nat n * of_nat sz = (of_nat (n * sz) :: u32)" by simp
  have "unat (of_nat (n * sz) :: u32) = n * sz" using small(1) by (intro unat_of_nat_lt) simp
  then have "(of_nat (n * sz) :: u32) div of_nat sz = of_nat n"
    using un assms(3) by (simp add: word_unat_eq_iff unat_div del: of_nat_mult)
  then have "fwrite buf (of_nat sz) (of_nat n) i s = Some (of_nat (n * sz), ?s)"
    using un guard s1(1) w(1) by (simp add: fwrite_def f_write_def on_disk_def Let_def prod del: of_nat_mult)
  moreover have "\<forall>x. x \<notin> D \<union> span c 4 \<longrightarrow> memory (disk ?s) x = memory (disk s) x" using w(3) H1 s1(4) by simp
  ultimately show ?thesis using both by (intro exI [of _ ?s]) simp
qed


lemma blocks_geometry: "separate (s\<lparr>blocks := bs\<rparr>) cs = separate s cs" "data_places (s\<lparr>blocks := bs\<rparr>) cs = data_places s cs" "csize (s\<lparr>blocks := bs\<rparr>) = csize s"
  by (simp_all add: separate_def data_places_def csize_def cluster_addr_def)

lemma sample_writer: "writes_at 3 [2, 3] 0x300 0x700 8 4 ({0x200..<0x208} \<union> {0x108..<0x110}) {0x200, 0x201, 0x202, 0x203, 0x204, 0x205, 0x206, 0x207}
    [1, 2, 3, 4, 5, 6, 7, 8] 0 0 (sample_file 8) (sample_streams write_flags 8)"
proof -
  have "handle (sample 8) [2, 3] 3 (sample_file 8) 0" by (rule sample_handle) simp
  moreover have "separate (sample 8) [2, 3]"
    by (auto simp: separate_def data_places_def sample_geometry sample_span less_Suc_eq)
  moreover have "data_places (sample 8) [2, 3] = {0x200, 0x201, 0x202, 0x203, 0x204, 0x205, 0x206, 0x207}"
    by (auto simp: data_places_def sample_geometry sample_span)
  moreover have "unat (file_size (sample_file 8)) = 8" "entry (sample_file 8) = 0x300" "cur_offset (sample_file 8) = 0"
    "ucast (mode (sample_file 8)) \<noteq> FILE_READ" by (simp_all add: sample_file_def FILE_READ_def)
  moreover have "c_val (sample_streams write_flags 8) = 0x700" by (simp add: sample_streams_def)
  ultimately show ?thesis unfolding writes_at_def
    by (simp add: sample_stream SW_FILEOPEN_MAX_def closed_file_def blocks_frame blocks_geometry sample_places sample_content sample_geometry span_4)
qed

text \<open>One element of two bytes: the second copy has only the first byte of it.\<close>

theorem fwrite_writes_twice_witness:
  "\<exists>s'. fwrite 0x600 2 1 3 (sample_streams write_flags 8) = Some (2, s') \<and> content (disk s') [2, 3] = [9, 10, 9, 4, 5, 6, 7, 8]"
proof -
  have "{..<2 :: nat} = {0, 1}" by auto
  then have sp: "span 0x600 2 = {0x600, 0x601}" by (simp add: span_def)
  have "span 0x600 2 \<inter> ({0x200..<0x208} \<union> {0x108..<0x110} \<union> span 0x700 4) = {}"
    unfolding sp span_4 by auto
  moreover have "bytes (memory (disk (sample_streams write_flags 8))) 0x600 2 = [9, 10]"
    by (simp add: sample_stream bytes_def upt_rec) (simp add: sample_def sample_mem_def)
  ultimately show ?thesis
    using fwrite_writes_twice [OF sample_writer, of 1 2 "0x600" "[9, 10]"] by (auto simp: overwrite_def)
qed

end
