(* ===== verification/TeeStorageProps.thy ===== *)
theory TeeStorageProps
  imports TeeStorage FileLibWrite
begin

text \<open>
  The storage interface over the stream invariant of \<open>FileLibRead\<close>: what a trusted application
  reads from a persistent object are the bytes of the file, once.
\<close>

section \<open>Frames\<close>



section \<open>Closing\<close>

text \<open>After \<open>fclose\<close> the record of the stream is that of a closed one; it keeps the descriptor.\<close>

definition closed :: "nat \<Rightarrow> streams \<Rightarrow> bool" where
  "closed i s \<longleftrightarrow> i < length (BUF_IO s) \<and> io_flags (stream i s) = 0 \<and> chr_count (stream i s) = 0 \<and> 0 \<le> sint (fdesp (stream i s))"

lemma closed_disk [simp]: "closed i (s\<lparr>disk := d\<rparr>) = closed i s"
  by (simp add: closed_def stream_simps)






section \<open>Reading an object\<close>







end
