(* ===== verification/OtzDriver.thy ===== *)
theory OtzDriver
  imports EchoTask
begin

text \<open>
  The Linux driver of the normal world (\<open>otz_driver/otz_client_main.c\<close>, built with
  \<open>OTZONE_ASYNC_NOTIFY_SUPPORT\<close>), through which client programs reach the secure kernel.

  The lists of device files, services, sessions, encoder contexts and shared blocks are lists of
  records; each record keeps the address of the structure in C. What both worlds or the client
  program can see (buffers, arrays of meta data, commands, the results of a session) is in the
  byte memory \<open>kmem\<close>, with the offsets of the C structures.

  Parameters in the state: the addresses that \<open>kmalloc\<close> and \<open>__get_free_pages\<close> give, 0 for a
  failure (\<open>kblocks\<close>, \<open>page_blocks\<close>); which copies between user and kernel fail, with no effect
  then (\<open>copy_faults\<close>); which waits a signal interrupts (\<open>signals\<close>); what the secure world
  answers and does to the memory (\<open>replies\<close>, each a function of the physical address of the
  command); the translation of addresses; the address of the local variable that holds a service
  number. Mutual exclusion between the calls is not modelled; a call runs alone unless a theorem
  interleaves its parts.
\<close>

section \<open>State\<close>

record drv_encode =
  encode_id :: u32
  ker_req_data_addr :: u32
  ker_res_data_addr :: u32
  k_req_offset :: u32
  k_res_offset :: u32
  k_req_pos :: u32
  k_res_pos :: u32
  dec_res_pos :: u32
  dec_offset :: u32
  send_wait_flag :: bool
  meta :: u32

record otzc_shared_mem =
  mem_index :: u32
  k_addr :: u32
  u_addr :: u32
  mem_len :: u32
  mem_block :: u32

record otzc_session =
  session_id :: u32
  encode_list :: "drv_encode list"
  shared_mem_list :: "otzc_shared_mem list"
  ses_block :: u32

record otzc_service =
  svc_id :: u32
  sessions_list :: "otzc_session list"
  svc_block :: u32

record otzc_dev_file =
  file_id :: u32
  service_cnt :: u32
  services_list :: "otzc_service list"
  dev_shared_mem :: "otzc_shared_mem list"
  shared_mem_cnt :: u32
  file_block :: u32

record driver =
  dev_file_list :: "otzc_dev_file list"
  dev_file_cnt :: u32
  device_file_cnt :: u32
  drv_notify :: u32
  smc_cmd_ptr :: u32
  kmem :: mem
  kblocks :: "u32 list"
  kfreed :: "u32 list"
  page_blocks :: "u32 list"
  pages_freed :: "u32 list"
  copy_faults :: "bool list"
  signals :: "bool list"
  replies :: "(u32 \<Rightarrow> mem \<Rightarrow> u32 \<times> mem) list"
  virt_to_phys :: "u32 \<Rightarrow> u32"
  tgid :: u32
  local_svc :: u32

text \<open>The arguments of the calls.\<close>

record otz_client_encode_cmd =
  c_len :: u32
  c_data :: u32
  c_offset :: u32
  c_param_type :: u32
  c_encode_id :: u32
  c_service_id :: u32
  c_session_id :: u32
  c_cmd_id :: u32

record ser_ses_id =
  ss_service :: u32
  ss_session :: u32

record otz_session_shared_mem_info =
  mi_service :: u32
  mi_session :: u32
  user_mem_addr :: u32

definition ENOMEM :: u32 where "ENOMEM = 12"
definition EAGAIN :: u32 where "EAGAIN = 11"
definition EFAULT :: u32 where "EFAULT = 14"
definition EINVAL :: u32 where "EINVAL = 22"
definition ERESTARTSYS :: u32 where "ERESTARTSYS = 512"

lemmas errnos = ENOMEM_def EAGAIN_def EFAULT_def EINVAL_def ERESTARTSYS_def

section \<open>The kernel\<close>

definition kmalloc :: "driver \<Rightarrow> u32 \<times> driver" where
  "kmalloc s = (case kblocks s of [] \<Rightarrow> (0, s) | a # as \<Rightarrow> (a, s\<lparr>kblocks := as\<rparr>))"

definition kfree :: "u32 \<Rightarrow> driver \<Rightarrow> driver" where
  "kfree a s = (if a = 0 then s else s\<lparr>kfreed := a # kfreed s\<rparr>)"

definition get_free_pages :: "driver \<Rightarrow> u32 \<times> driver" where
  "get_free_pages s = (case page_blocks s of [] \<Rightarrow> (0, s) | a # as \<Rightarrow> (a, s\<lparr>page_blocks := as\<rparr>))"

definition free_pages :: "u32 \<Rightarrow> driver \<Rightarrow> driver" where
  "free_pages a s = (if a = 0 then s else s\<lparr>pages_freed := a # pages_freed s\<rparr>)"

definition copy_works :: "driver \<Rightarrow> bool \<times> driver" where
  "copy_works s = (case copy_faults s of [] \<Rightarrow> (True, s) | b # bs \<Rightarrow> (\<not> b, s\<lparr>copy_faults := bs\<rparr>))"

definition interrupted :: "driver \<Rightarrow> bool \<times> driver" where
  "interrupted s = (case signals s of [] \<Rightarrow> (False, s) | b # bs \<Rightarrow> (b, s\<lparr>signals := bs\<rparr>))"

definition on_kmem :: "(mem \<Rightarrow> mem) \<Rightarrow> driver \<Rightarrow> driver" where
  "on_kmem f s = s\<lparr>kmem := f (kmem s)\<rparr>"

section \<open>Lists\<close>

text \<open>The first element with a property, as \<open>list_for_each_entry\<close> finds it, is changed in place or unlinked.\<close>

fun upd_first :: "('a \<Rightarrow> bool) \<Rightarrow> ('a \<Rightarrow> 'a) \<Rightarrow> 'a list \<Rightarrow> 'a list" where
  "upd_first P f [] = []"
| "upd_first P f (x # xs) = (if P x then f x # xs else x # upd_first P f xs)"

fun del_first :: "('a \<Rightarrow> bool) \<Rightarrow> 'a list \<Rightarrow> 'a list" where
  "del_first P [] = []"
| "del_first P (x # xs) = (if P x then xs else x # del_first P xs)"

definition find_file :: "u32 \<Rightarrow> driver \<Rightarrow> otzc_dev_file option" where
  "find_file dev s = find (\<lambda>d. file_id d = dev) (dev_file_list s)"

definition find_service :: "u32 \<Rightarrow> u32 \<Rightarrow> driver \<Rightarrow> otzc_service option" where
  "find_service dev svc s = Option.bind (find_file dev s) (\<lambda>d. find (\<lambda>v. svc_id v = svc) (services_list d))"

definition find_session :: "u32 \<Rightarrow> u32 \<Rightarrow> u32 \<Rightarrow> driver \<Rightarrow> otzc_session option" where
  "find_session dev svc ses s = Option.bind (find_service dev svc s) (\<lambda>v. find (\<lambda>x. session_id x = ses) (sessions_list v))"

definition find_encode :: "u32 \<Rightarrow> otzc_session \<Rightarrow> drv_encode option" where
  "find_encode i x = (if i = - 1 then None else find (\<lambda>e. encode_id e = i) (encode_list x))"

definition on_file :: "u32 \<Rightarrow> (otzc_dev_file \<Rightarrow> otzc_dev_file) \<Rightarrow> driver \<Rightarrow> driver" where
  "on_file dev f s = s\<lparr>dev_file_list := upd_first (\<lambda>d. file_id d = dev) f (dev_file_list s)\<rparr>"

definition on_service :: "u32 \<Rightarrow> u32 \<Rightarrow> (otzc_service \<Rightarrow> otzc_service) \<Rightarrow> driver \<Rightarrow> driver" where
  "on_service dev svc f = on_file dev (\<lambda>d. d\<lparr>services_list := upd_first (\<lambda>v. svc_id v = svc) f (services_list d)\<rparr>)"

definition on_session :: "u32 \<Rightarrow> u32 \<Rightarrow> u32 \<Rightarrow> (otzc_session \<Rightarrow> otzc_session) \<Rightarrow> driver \<Rightarrow> driver" where
  "on_session dev svc ses f =
     on_service dev svc (\<lambda>v. v\<lparr>sessions_list := upd_first (\<lambda>x. session_id x = ses) f (sessions_list v)\<rparr>)"

definition on_encode :: "u32 \<Rightarrow> otz_client_encode_cmd \<Rightarrow> (drv_encode \<Rightarrow> drv_encode) \<Rightarrow> driver \<Rightarrow> driver" where
  "on_encode dev cmd f = on_session dev (c_service_id cmd) (c_session_id cmd)
     (\<lambda>x. x\<lparr>encode_list := upd_first (\<lambda>e. encode_id e = c_encode_id cmd) f (encode_list x)\<rparr>)"

section \<open>Calls of the secure world\<close>

definition smc :: "u32 \<Rightarrow> driver \<Rightarrow> u32 \<times> driver" where
  "smc cmd_phys s =
     (case replies s of [] \<Rightarrow> (SMC_ERROR, s)
      | r # rs \<Rightarrow> (case r cmd_phys (kmem s) of (v, m) \<Rightarrow> (v, s\<lparr>kmem := m, replies := rs\<rparr>)))"

definition set_fields :: "u32 \<Rightarrow> (smc_field \<times> u32) list \<Rightarrow> mem \<Rightarrow> mem" where
  "set_fields p fs m = foldl (\<lambda>m (f, v). write32 (p + smc_off f) v m) m fs"

definition phys_or_null :: "u32 \<Rightarrow> driver \<Rightarrow> u32" where
  "phys_or_null a s = (if a = 0 then 0 else virt_to_phys s a)"

definition fill_cmd :: "u32 \<Rightarrow> u32 \<Rightarrow> u32 \<Rightarrow> u32 \<Rightarrow> u32 \<Rightarrow> u32 \<Rightarrow> u32 \<Rightarrow> u32 \<Rightarrow> u32 \<Rightarrow> u32 \<Rightarrow> driver \<Rightarrow> driver" where
  "fill_cmd dev svc cmd context enc req req_len resp resp_len meta_data s =
     on_kmem (set_fields (smc_cmd_ptr s)
       [(Src_id, push_bit 10 svc OR cmd), (Src_context, tgid s), (Id, push_bit 10 svc OR cmd), (Context, context), (Enc_id, enc),
        (Dev_file_id, dev), (Req_buf_len, req_len), (Resp_buf_len, resp_len), (Ret_resp_buf_len, 0),
        (Req_buf_phys, phys_or_null req s), (Resp_buf_phys, phys_or_null resp s), (Meta_data_phys, phys_or_null meta_data s)]) s"

text \<open>The command is reached through a static variable, also by a call that waits and goes on later.\<close>

definition smc_end :: "u32 \<Rightarrow> driver \<Rightarrow> u32 \<times> driver" where
  "smc_end r s = (r, kfree (smc_cmd_ptr s) s)"

definition smc_begin :: "u32 \<Rightarrow> u32 \<Rightarrow> u32 \<Rightarrow> u32 \<Rightarrow> u32 \<Rightarrow> u32 \<Rightarrow> u32 \<Rightarrow> u32 \<Rightarrow> u32 \<Rightarrow> u32 \<Rightarrow> driver \<Rightarrow> (u32 \<times> u32) option \<times> driver" where
  "smc_begin dev svc cmd context enc req req_len resp resp_len meta_data s =
     (let (p, s1) = kmalloc s; s2 = s1\<lparr>smc_cmd_ptr := p\<rparr>
      in if p = 0 then (None, s2)
         else let phys = virt_to_phys s2 p;
                  (r, s3) = smc phys (fill_cmd dev svc cmd context enc req req_len resp resp_len meta_data s2)
              in (Some (phys, r), s3))"

text \<open>\<open>wq\<close> tells whose flag is waited for.\<close>

definition smc_resume :: "(u32 \<times> otz_client_encode_cmd) option \<Rightarrow> u32 \<Rightarrow> driver \<Rightarrow> u32 \<times> driver" where
  "smc_resume wq phys s =
     (let (signal, s1) = (case wq of None \<Rightarrow> (False, s) | Some _ \<Rightarrow> interrupted s)
      in if signal then smc_end (- ERESTARTSYS) s1
         else let s2 = (case wq of None \<Rightarrow> s1 | Some (dev, c) \<Rightarrow> on_encode dev c (\<lambda>e. e\<lparr>send_wait_flag := False\<rparr>) s1);
                  i = push_bit 10 OTZ_SVC_GLOBAL OR OTZ_GLOBAL_CMD_ID_RESUME_ASYNC_TASK;
                  (r, s3) = smc phys (on_kmem (set_fields (smc_cmd_ptr s2) [(Src_id, i), (Id, i)]) s2)
              in smc_end r s3)"

definition otz_smc_call ::
  "(u32 \<times> otz_client_encode_cmd) option \<Rightarrow> u32 \<Rightarrow> u32 \<Rightarrow> u32 \<Rightarrow> u32 \<Rightarrow> u32 \<Rightarrow> u32 \<Rightarrow> u32 \<Rightarrow> u32 \<Rightarrow> u32 \<Rightarrow> u32 \<Rightarrow> driver \<Rightarrow> u32 \<times> driver" where
  "otz_smc_call wq dev svc cmd context enc req req_len resp resp_len meta_data s =
     (case smc_begin dev svc cmd context enc req req_len resp resp_len meta_data s of
        (None, s1) \<Rightarrow> (- ENOMEM, s1)
      | (Some (phys, r), s1) \<Rightarrow> if r = SMC_PENDING then smc_resume wq phys s1 else smc_end r s1)"

text \<open>The interrupt by which the secure world ends a wait. Only the first session of the service is looked at.\<close>

definition ipi_secure_notify :: "driver \<Rightarrow> driver" where
  "ipi_secure_notify s =
     (if drv_notify s = 0 then s
      else let n = (\<lambda>i. read32 (kmem s) (drv_notify s + 4 * i))
           in case find_service (n 0) (n 1) s of
                None \<Rightarrow> s
              | Some v \<Rightarrow> (case sessions_list v of
                  [] \<Rightarrow> s
                | x # _ \<Rightarrow>
                    if session_id x = n 3
                    then on_session (n 0) (n 1) (n 3)
                           (\<lambda>x. x\<lparr>encode_list := upd_first (\<lambda>e. encode_id e = n 4) (\<lambda>e. e\<lparr>send_wait_flag := True\<rparr>) (encode_list x)\<rparr>) s
                    else s))"

section \<open>Services and sessions\<close>

text \<open>
  The session is closed in the secure world, whatever that answers, and its record freed, with the
  records of its contexts and its shared blocks.
\<close>

definition free_shared :: "otzc_shared_mem \<Rightarrow> driver \<Rightarrow> driver" where
  "free_shared b s = kfree (mem_block b) (free_pages (k_addr b) s)"

definition otz_client_close_session_for_service :: "u32 \<Rightarrow> otzc_service \<Rightarrow> otzc_session \<Rightarrow> driver \<Rightarrow> driver" where
  "otz_client_close_session_for_service dev v x s =
     (let s1 = snd (otz_smc_call None dev OTZ_SVC_GLOBAL OTZ_GLOBAL_CMD_ID_CLOSE_SESSION 0 0 (svc_block v + 8) 4 (ses_block x + 8) 4 0 s);
          s2 = on_service dev (svc_id v) (\<lambda>v. v\<lparr>sessions_list := del_first (\<lambda>y. session_id y = session_id x) (sessions_list v)\<rparr>) s1;
          s3 = fold (\<lambda>e. kfree (encode_id e)) (encode_list x) s2;
          s4 = fold free_shared (shared_mem_list x) s3
      in kfree (ses_block x) s4)"

definition otz_client_service_init :: "u32 \<Rightarrow> u32 \<Rightarrow> driver \<Rightarrow> u32 \<times> driver" where
  "otz_client_service_init dev svc s =
     (let (a, s1) = kmalloc s
      in if a = 0
         then (- ENOMEM, case find_file dev s1 of None \<Rightarrow> s1
                | Some d \<Rightarrow> on_file dev (\<lambda>d. d\<lparr>services_list := []\<rparr>) (fold (\<lambda>v. kfree (svc_block v)) (services_list d) s1))
         else (0, on_file dev (\<lambda>d. d\<lparr>service_cnt := service_cnt d + 1,
                                     services_list := \<lparr>svc_id = svc, sessions_list = [], svc_block = a\<rparr> # services_list d\<rparr>)
                (on_kmem (write32 (a + 8) svc) s1)))"

definition close_services :: "u32 \<Rightarrow> otzc_service list \<Rightarrow> driver \<Rightarrow> driver" where
  "close_services dev vs s =
     fold (\<lambda>v s. kfree (svc_block v)
             (on_file dev (\<lambda>d. d\<lparr>services_list := del_first (\<lambda>w. svc_id w = svc_id v) (services_list d)\<rparr>)
               (fold (otz_client_close_session_for_service dev v) (sessions_list v) s))) vs s"

definition otz_client_service_exit :: "u32 \<Rightarrow> driver \<Rightarrow> driver" where
  "otz_client_service_exit dev s =
     (case find_file dev s of
        None \<Rightarrow> s
      | Some d \<Rightarrow>
          let s1 = on_file dev (\<lambda>d. d\<lparr>dev_shared_mem := []\<rparr>) (fold free_shared (dev_shared_mem d) s);
              s2 = close_services dev (services_list d) s1
          in kfree (file_block d) (s2\<lparr>dev_file_list := del_first (\<lambda>d. file_id d = dev) (dev_file_list s2)\<rparr>))"

text \<open>The record of a session is not set by the driver; its number is where the secure world writes it.\<close>

definition otz_client_session_open :: "u32 \<Rightarrow> ser_ses_id \<Rightarrow> driver \<Rightarrow> u32 \<times> ser_ses_id \<times> driver" where
  "otz_client_session_open dev req s0 =
     (let (ok, s) = copy_works s0; svc = ss_service req
      in if \<not> ok then (- EFAULT, req, s)
         else if find_service dev svc s = None then (- EINVAL, req, s)
         else let (a, s1) = kmalloc s
              in if a = 0 then (- ENOMEM, req, s1)
                 else let (r, s2) = otz_smc_call None dev OTZ_SVC_GLOBAL OTZ_GLOBAL_CMD_ID_OPEN_SESSION 0 0 (local_svc s1) 4 (a + 8) 4 0
                                      (on_kmem (write32 (local_svc s1) svc) s1);
                          i = read32 (kmem s2) (a + 8)
                      in if r \<noteq> SMC_SUCCESS then (r, req, kfree a s2)
                         else if i = - 1 then (- EINVAL, req, kfree a s2)
                         else let x = \<lparr>session_id = i, encode_list = [], shared_mem_list = [], ses_block = a\<rparr>;
                                  (ok2, s3) = copy_works s2
                              in if ok2
                                 then (r, req\<lparr>ss_session := i\<rparr>, on_service dev svc (\<lambda>v. v\<lparr>sessions_list := sessions_list v @ [x]\<rparr>) s3)
                                 else (- EFAULT, req, kfree a s3))"

definition otz_client_session_close :: "u32 \<Rightarrow> ser_ses_id \<Rightarrow> driver \<Rightarrow> u32 \<times> driver" where
  "otz_client_session_close dev req s0 =
     (let (ok, s) = copy_works s0
      in if \<not> ok then (- EFAULT, s)
         else (0, case find_service dev (ss_service req) s of None \<Rightarrow> s
                | Some v \<Rightarrow> (case find (\<lambda>x. session_id x = ss_session req) (sessions_list v) of None \<Rightarrow> s
                    | Some x \<Rightarrow> otz_client_close_session_for_service dev v x s)))"

section \<open>Shared memory\<close>

text \<open>A block belongs to the device file until a session takes it; the second copy fault stands for \<open>remap_pfn_range\<close>.\<close>

definition otz_client_mmap :: "u32 \<Rightarrow> u32 \<Rightarrow> u32 \<Rightarrow> driver \<Rightarrow> (u32 \<times> driver) option" where
  "otz_client_mmap dev vm_start vm_end s =
     (let (p, s1) = get_free_pages s; (ok, s2) = copy_works s1
      in if p = 0 then Some (- ENOMEM, s1)
         else if \<not> ok then Some (- EAGAIN, s2)
         else let (a, s3) = kmalloc s2
              in if a = 0 then Some (- ENOMEM, s3)
                 else if find_file dev s3 = None then None
                 else Some (0, on_file dev (\<lambda>d. d\<lparr>shared_mem_cnt := shared_mem_cnt d + 1, dev_shared_mem := dev_shared_mem d @
                        [\<lparr>mem_index = vm_start, k_addr = p, u_addr = vm_start, mem_len = vm_end - vm_start, mem_block = a\<rparr>]\<rparr>) s3))"

definition otz_client_shared_mem_alloc :: "u32 \<Rightarrow> otz_session_shared_mem_info \<Rightarrow> driver \<Rightarrow> u32 \<times> driver" where
  "otz_client_shared_mem_alloc dev mreq s0 =
     (let (ok, s) = copy_works s0
      in if \<not> ok then (- EFAULT, s)
         else case (find_session dev (mi_service mreq) (mi_session mreq) s, find_file dev s) of
           (Some _, Some d) \<Rightarrow>
             (0, case find (\<lambda>b. mem_index b = user_mem_addr mreq) (dev_shared_mem d) of
                   None \<Rightarrow> s
                 | Some b \<Rightarrow> on_session dev (mi_service mreq) (mi_session mreq) (\<lambda>x. x\<lparr>shared_mem_list := shared_mem_list x @ [b]\<rparr>)
                     (on_file dev (\<lambda>d. d\<lparr>dev_shared_mem := del_first (\<lambda>b. mem_index b = user_mem_addr mreq) (dev_shared_mem d),
                                         shared_mem_cnt := shared_mem_cnt d - 1\<rparr>) s))
         | _ \<Rightarrow> (- EINVAL, s))"

definition otz_client_shared_mem_free :: "u32 \<Rightarrow> otz_session_shared_mem_info \<Rightarrow> driver \<Rightarrow> u32 \<times> driver" where
  "otz_client_shared_mem_free dev mreq s0 =
     (let (ok, s) = copy_works s0
      in if \<not> ok then (- EFAULT, s)
         else case find_session dev (mi_service mreq) (mi_session mreq) s of
           None \<Rightarrow> (- EINVAL, s)
         | Some x \<Rightarrow>
             (0, case find (\<lambda>b. mem_index b = user_mem_addr mreq) (shared_mem_list x) of
                   None \<Rightarrow> s
                 | Some b \<Rightarrow> free_shared b (on_session dev (mi_service mreq) (mi_session mreq)
                     (\<lambda>x. x\<lparr>shared_mem_list := del_first (\<lambda>b. mem_index b = user_mem_addr mreq) (shared_mem_list x)\<rparr>) s)))"

section \<open>Encoding\<close>

text \<open>A new context is named by its address, in the copy of the caller's record that the driver works on.\<close>

definition otz_client_prepare_encode ::
  "u32 \<Rightarrow> otz_client_encode_cmd \<Rightarrow> driver \<Rightarrow> u32 \<times> otz_client_encode_cmd \<times> drv_encode option \<times> driver" where
  "otz_client_prepare_encode dev enc s =
     (case find_session dev (c_service_id enc) (c_session_id enc) s of
        None \<Rightarrow> (- EINVAL, enc, None, s)
      | Some x \<Rightarrow> (case find_encode (c_encode_id enc) x of
          Some e \<Rightarrow> (0, enc, Some e, s)
        | None \<Rightarrow>
            let (a, s1) = kmalloc s
            in if a = 0 then (- ENOMEM, enc, None, s1)
               else let (m, s2) = kmalloc s1
                    in if m = 0 then (- ENOMEM, enc, None, kfree a s2)
                       else let e = \<lparr>encode_id = a, ker_req_data_addr = 0, ker_res_data_addr = 0, k_req_offset = 0, k_res_offset = 0,
                                     k_req_pos = 0, k_res_pos = OTZ_MAX_REQ_PARAMS, dec_res_pos = OTZ_MAX_REQ_PARAMS, dec_offset = 0,
                                     send_wait_flag = False, meta = m\<rparr>
                            in (0, enc\<lparr>c_encode_id := a\<rparr>, Some e,
                                on_session dev (c_service_id enc) (c_session_id enc) (\<lambda>x. x\<lparr>encode_list := encode_list x @ [e]\<rparr>) s2)))"

definition room_req :: "drv_encode \<Rightarrow> u32 \<Rightarrow> bool" where
  "room_req e n \<longleftrightarrow> k_req_offset e + n \<le> OTZ_1K_SIZE \<and> k_req_pos e < OTZ_MAX_REQ_PARAMS"

definition room_res :: "drv_encode \<Rightarrow> u32 \<Rightarrow> bool" where
  "room_res e n \<longleftrightarrow> k_res_offset e + n \<le> OTZ_1K_SIZE \<and> k_res_pos e < OTZ_MAX_RES_PARAMS + OTZ_MAX_REQ_PARAMS"

definition req_buffer :: "drv_encode \<Rightarrow> driver \<Rightarrow> drv_encode \<times> driver" where
  "req_buffer e s =
     (if ker_req_data_addr e = 0 then (case kmalloc s of (a, s1) \<Rightarrow> (e\<lparr>ker_req_data_addr := a\<rparr>, s1)) else (e, s))"

definition res_buffer :: "drv_encode \<Rightarrow> driver \<Rightarrow> drv_encode \<times> driver" where
  "res_buffer e s =
     (if ker_res_data_addr e = 0 then (case kmalloc s of (a, s1) \<Rightarrow> (e\<lparr>ker_res_data_addr := a\<rparr>, s1)) else (e, s))"

text \<open>The fields of an entry of the meta data; \<open>usr_addr\<close> is not set for a value that is passed in.\<close>

definition put_meta :: "u32 \<Rightarrow> u32 \<Rightarrow> u32 \<Rightarrow> u32 \<Rightarrow> mem \<Rightarrow> mem" where
  "put_meta a pos ty len m = write32 (a + 16 * pos + 4) len (write32 (a + 16 * pos) ty m)"

definition put_usr :: "u32 \<Rightarrow> u32 \<Rightarrow> u32 \<Rightarrow> mem \<Rightarrow> mem" where
  "put_usr a pos addr m = write32 (a + 16 * pos + 8) addr m"

definition next_req :: "u32 \<Rightarrow> drv_encode \<Rightarrow> drv_encode" where
  "next_req n e = e\<lparr>k_req_offset := k_req_offset e + n, k_req_pos := k_req_pos e + 1\<rparr>"

definition next_res :: "u32 \<Rightarrow> drv_encode \<Rightarrow> drv_encode" where
  "next_res n e = e\<lparr>k_res_offset := k_res_offset e + n, k_res_pos := k_res_pos e + 1\<rparr>"

text \<open>
  A step works on a context: its result is \<open>None\<close> for a null pointer, or the value returned, the
  copy of the caller's record, the context, whether the copy is written back, and the state. The
  caller keeps its record \<open>usr\<close> when nothing is written back.
\<close>

type_synonym step = "otz_client_encode_cmd \<Rightarrow> drv_encode \<Rightarrow> driver \<Rightarrow> (u32 \<times> otz_client_encode_cmd \<times> drv_encode \<times> bool \<times> driver) option"

definition finish_call ::
  "u32 \<Rightarrow> otz_client_encode_cmd \<Rightarrow> (u32 \<times> otz_client_encode_cmd \<times> drv_encode \<times> bool \<times> driver) \<Rightarrow> u32 \<times> otz_client_encode_cmd \<times> driver" where
  "finish_call dev usr res =
     (case res of (r, enc, e, out, s) \<Rightarrow>
        let s1 = on_encode dev (enc\<lparr>c_encode_id := encode_id e\<rparr>) (\<lambda>_. e) s
        in if out then (case copy_works s1 of (ok, s2) \<Rightarrow> if ok then (r, enc, s2) else (- EFAULT, usr, s2)) else (r, usr, s1))"

definition encode_call :: "step \<Rightarrow> u32 \<Rightarrow> otz_client_encode_cmd \<Rightarrow> driver \<Rightarrow> (u32 \<times> otz_client_encode_cmd \<times> driver) option" where
  "encode_call step dev enc s0 =
     (let (ok, s) = copy_works s0
      in if \<not> ok then Some (- EFAULT, enc, s)
         else case otz_client_prepare_encode dev enc s of
           (r, _, None, s1) \<Rightarrow> Some (r, enc, s1)
         | (_, enc1, Some e, s1) \<Rightarrow> map_option (finish_call dev enc) (step enc1 e s1))"

definition uint32_step :: step where
  "uint32_step enc e0 s0 =
     (if c_param_type enc = OTZC_PARAM_IN
      then let (e, s) = req_buffer e0 s0
           in if ker_req_data_addr e = 0 \<or> \<not> room_req e 4 then Some (- ENOMEM, enc, e, True, s)
              else if c_data enc = 0 then None
              else Some (0, enc, next_req 4 e, True,
                     on_kmem (\<lambda>m. put_meta (meta e) (k_req_pos e) OTZ_ENC_UINT32 4
                       (write32 (ker_req_data_addr e + k_req_offset e) (read32 m (c_data enc)) m)) s)
      else if c_param_type enc = OTZC_PARAM_OUT
      then let (e, s) = res_buffer e0 s0
           in if ker_res_data_addr e = 0 \<or> \<not> room_res e 4 then Some (- ENOMEM, enc, e, True, s)
              else Some (0, enc, next_res 4 e, True,
                     on_kmem (\<lambda>m. put_meta (meta e) (k_res_pos e) OTZ_ENC_UINT32 4 (put_usr (meta e) (k_res_pos e) (c_data enc) m)) s)
      else Some (0, enc, e0, True, s0))"

definition array_step :: step where
  "array_step enc e0 s0 =
     (if c_param_type enc = OTZC_PARAM_IN
      then let (e, s) = req_buffer e0 s0
           in if ker_req_data_addr e = 0 \<or> \<not> room_req e (c_len enc) then Some (- ENOMEM, enc, e, True, s)
              else let (ok, s1) = copy_works s
                   in if \<not> ok then Some (- EFAULT, enc, e, True, s1)
                      else Some (0, enc, next_req (c_len enc) e, True,
                             on_kmem (\<lambda>m. put_meta (meta e) (k_req_pos e) OTZ_ENC_ARRAY (c_len enc)
                               (copied (unat (c_len enc)) (ker_req_data_addr e + k_req_offset e) (c_data enc) m)) s1)
      else if c_param_type enc = OTZC_PARAM_OUT
      then let (e, s) = res_buffer e0 s0
           in if ker_res_data_addr e = 0 \<or> \<not> room_res e (c_len enc) then Some (- ENOMEM, enc, e, True, s)
              else Some (0, enc, next_res (c_len enc) e, True,
                     on_kmem (\<lambda>m. put_meta (meta e) (k_res_pos e) OTZ_ENC_ARRAY (c_len enc) (put_usr (meta e) (k_res_pos e) (c_data enc) m)) s)
      else Some (0, enc, e0, True, s0))"

text \<open>The offset of a reference counts words: \<open>(u32* )buffer + offset\<close>.\<close>

definition find_shared :: "u32 \<Rightarrow> u32 \<Rightarrow> u32 \<Rightarrow> u32 \<Rightarrow> driver \<Rightarrow> otzc_shared_mem option" where
  "find_shared dev svc ses addr s =
     (case Option.bind (find_session dev svc ses s) (\<lambda>x. find (\<lambda>b. mem_index b = addr) (shared_mem_list x)) of
        Some b \<Rightarrow> Some b
      | None \<Rightarrow> Option.bind (find_file dev s) (\<lambda>d. find (\<lambda>b. mem_index b = addr) (dev_shared_mem d)))"

definition mem_ref_step :: "u32 \<Rightarrow> step" where
  "mem_ref_step dev enc e0 s0 =
     (case find_shared dev (c_service_id enc) (c_session_id enc) (c_data enc) s0 of
        None \<Rightarrow> Some (- EINVAL, enc, e0, False, s0)
      | Some b \<Rightarrow>
          let ref = virt_to_phys s0 (k_addr b + c_offset enc); usr = u_addr b + c_offset enc
          in if c_param_type enc = OTZC_PARAM_IN
             then let (e, s) = req_buffer e0 s0
                  in if ker_req_data_addr e = 0 \<or> \<not> room_req e 4 then Some (- ENOMEM, enc, e, True, s)
                     else Some (0, enc, next_req 4 e, True,
                            on_kmem (\<lambda>m. put_meta (meta e) (k_req_pos e) OTZ_MEM_REF (c_len enc) (put_usr (meta e) (k_req_pos e) usr
                              (write32 (ker_req_data_addr e + 4 * k_req_offset e) ref m))) s)
             else if c_param_type enc = OTZC_PARAM_OUT
             then let (e, s) = res_buffer e0 s0
                  in if ker_res_data_addr e = 0 \<or> \<not> room_res e 4 then Some (- ENOMEM, enc, e, True, s)
                     else Some (0, enc, next_res 4 e, True,
                            on_kmem (\<lambda>m. put_meta (meta e) (k_res_pos e) OTZ_MEM_REF (c_len enc) (put_usr (meta e) (k_res_pos e) usr
                              (write32 (ker_res_data_addr e + 4 * k_res_offset e) ref m))) s)
             else Some (0, enc, e0, True, s0))"

definition otz_client_encode_uint32 :: "u32 \<Rightarrow> otz_client_encode_cmd \<Rightarrow> driver \<Rightarrow> (u32 \<times> otz_client_encode_cmd \<times> driver) option" where
  "otz_client_encode_uint32 = encode_call uint32_step"

definition otz_client_encode_array :: "u32 \<Rightarrow> otz_client_encode_cmd \<Rightarrow> driver \<Rightarrow> (u32 \<times> otz_client_encode_cmd \<times> driver) option" where
  "otz_client_encode_array = encode_call array_step"

definition otz_client_encode_mem_ref :: "u32 \<Rightarrow> otz_client_encode_cmd \<Rightarrow> driver \<Rightarrow> (u32 \<times> otz_client_encode_cmd \<times> driver) option" where
  "otz_client_encode_mem_ref dev = encode_call (mem_ref_step dev) dev"

section \<open>Decoding\<close>

definition otz_client_prepare_decode :: "u32 \<Rightarrow> otz_client_encode_cmd \<Rightarrow> driver \<Rightarrow> drv_encode option" where
  "otz_client_prepare_decode dev dec s =
     Option.bind (find_session dev (c_service_id dec) (c_session_id dec) s) (find_encode (c_encode_id dec))"

definition decode_call :: "step \<Rightarrow> u32 \<Rightarrow> otz_client_encode_cmd \<Rightarrow> driver \<Rightarrow> (u32 \<times> otz_client_encode_cmd \<times> driver) option" where
  "decode_call step dev dec s0 =
     (let (ok, s) = copy_works s0
      in if \<not> ok then Some (- EFAULT, dec, s)
         else case otz_client_prepare_decode dev dec s of
           None \<Rightarrow> Some (- EINVAL, dec, s)
         | Some e \<Rightarrow> map_option (finish_call dev dec) (step dec e s))"

text \<open>The entry at the position of the decoder; the position behind the last one is accepted as well.\<close>

definition entry_type :: "drv_encode \<Rightarrow> driver \<Rightarrow> u32 option" where
  "entry_type e s = (if dec_res_pos e \<le> k_res_pos e then Some (m_type (meta_at (kmem s) (meta e) (unat (dec_res_pos e)))) else None)"

definition next_dec :: "u32 \<Rightarrow> drv_encode \<Rightarrow> drv_encode" where
  "next_dec n e = e\<lparr>dec_offset := dec_offset e + n, dec_res_pos := dec_res_pos e + 1\<rparr>"

definition uint32_out :: step where
  "uint32_out dec e s =
     (if entry_type e s = Some OTZ_ENC_UINT32
      then let u = usr_addr (meta_at (kmem s) (meta e) (unat (dec_res_pos e))); dec1 = (if u \<noteq> 0 then dec\<lparr>c_data := u\<rparr> else dec)
           in if c_data dec1 = 0 \<or> ker_res_data_addr e = 0 then None
              else Some (0, dec1, next_dec 4 e, True,
                     on_kmem (\<lambda>m. write32 (c_data dec1) (read32 m (ker_res_data_addr e + dec_offset e)) m) s)
      else Some (0, dec, e, True, s))"

definition array_out :: step where
  "array_out dec e s =
     (let d = meta_at (kmem s) (meta e) (unat (dec_res_pos e))
      in if entry_type e s = Some OTZ_ENC_ARRAY
         then if m_len d <s ret_len d then Some (- EFAULT, dec, e, False, s)
              else if ker_res_data_addr e = 0 \<and> ret_len d \<noteq> 0 then None
              else let dec1 = (if usr_addr d \<noteq> 0 then dec\<lparr>c_data := usr_addr d\<rparr> else dec); (ok, s1) = copy_works s
                   in if \<not> ok then Some (- EFAULT, dec1, e, False, s1)
                      else Some (0, dec1\<lparr>c_len := ret_len d\<rparr>, next_dec (m_len d) e, True,
                             on_kmem (copied (unat (ret_len d)) (c_data dec1) (ker_res_data_addr e + dec_offset e)) s1)
         else if entry_type e s = Some OTZ_MEM_REF
         then if m_len d <s ret_len d then Some (- EFAULT, dec, e, False, s)
              else Some (0, dec\<lparr>c_data := usr_addr d, c_len := ret_len d\<rparr>, next_dec 4 e, True, s)
         else Some (- EINVAL, dec, e, False, s))"

definition type_out :: step where
  "type_out dec e s =
     (case entry_type e s of None \<Rightarrow> Some (- EINVAL, dec, e, False, s) | Some ty \<Rightarrow> Some (0, dec\<lparr>c_data := ty\<rparr>, e, True, s))"

definition otz_client_decode_uint32 :: "u32 \<Rightarrow> otz_client_encode_cmd \<Rightarrow> driver \<Rightarrow> (u32 \<times> otz_client_encode_cmd \<times> driver) option" where
  "otz_client_decode_uint32 = decode_call uint32_out"

definition otz_client_decode_array_space :: "u32 \<Rightarrow> otz_client_encode_cmd \<Rightarrow> driver \<Rightarrow> (u32 \<times> otz_client_encode_cmd \<times> driver) option" where
  "otz_client_decode_array_space = decode_call array_out"

definition otz_client_get_decode_type :: "u32 \<Rightarrow> otz_client_encode_cmd \<Rightarrow> driver \<Rightarrow> (u32 \<times> otz_client_encode_cmd \<times> driver) option" where
  "otz_client_get_decode_type = decode_call type_out"

section \<open>Commands\<close>

text \<open>The context that a command is sent from is looked for in the first session of the service only.\<close>

definition send_context :: "u32 \<Rightarrow> otz_client_encode_cmd \<Rightarrow> driver \<Rightarrow> u32 \<times> otz_client_encode_cmd \<times> drv_encode option \<times> driver" where
  "send_context dev enc s =
     (case find_service dev (c_service_id enc) s of
        None \<Rightarrow> (0, enc, None, s)
      | Some v \<Rightarrow> (case sessions_list v of
          [] \<Rightarrow> (0, enc, None, s)
        | x # _ \<Rightarrow>
            if session_id x \<noteq> c_session_id enc then (0, enc, None, s)
            else if c_encode_id enc \<noteq> - 1 then (0, enc, find_encode (c_encode_id enc) x, s)
            else otz_client_prepare_encode dev enc s))"

definition otz_client_send_cmd :: "u32 \<Rightarrow> otz_client_encode_cmd \<Rightarrow> driver \<Rightarrow> u32 \<times> otz_client_encode_cmd \<times> driver" where
  "otz_client_send_cmd dev enc s0 =
     (let (ok, s) = copy_works s0
      in if \<not> ok then (- EFAULT, enc, s)
         else case send_context dev enc s of
           (_, _, None, s1) \<Rightarrow> (- EINVAL, enc, s1)
         | (_, enc1, Some e, s1) \<Rightarrow>
             let (r, s2) = otz_smc_call (Some (dev, enc1)) dev (c_service_id enc1) (c_cmd_id enc1) (c_session_id enc1) (c_encode_id enc1)
                             (ker_req_data_addr e) (k_req_offset e) (ker_res_data_addr e) (k_res_offset e) (meta e) s1
             in if r \<noteq> SMC_SUCCESS then (r, enc, s2)
                else case copy_works s2 of (ok2, s3) \<Rightarrow> if ok2 then (r, enc1, s3) else (- EFAULT, enc, s3))"

definition otz_client_operation_release :: "u32 \<Rightarrow> otz_client_encode_cmd \<Rightarrow> driver \<Rightarrow> u32 \<times> driver" where
  "otz_client_operation_release dev enc s0 =
     (let (ok, s) = copy_works s0
      in if \<not> ok then (- EFAULT, s)
         else case find_session dev (c_service_id enc) (c_session_id enc) s of
           None \<Rightarrow> (- EINVAL, s)
         | Some x \<Rightarrow> (0, case find_encode (c_encode_id enc) x of
               None \<Rightarrow> s
             | Some e \<Rightarrow> kfree (encode_id e) (kfree (meta e)
                 (on_session dev (c_service_id enc) (c_session_id enc)
                   (\<lambda>x. x\<lparr>encode_list := del_first (\<lambda>e. encode_id e = c_encode_id enc) (encode_list x)\<rparr>)
                   (kfree (ker_res_data_addr e) (kfree (ker_req_data_addr e) s))))))"

section \<open>Opening the device and the calls\<close>

fun init_services :: "u32 \<Rightarrow> u32 list \<Rightarrow> driver \<Rightarrow> u32 \<times> driver" where
  "init_services dev [] s = (0, s)"
| "init_services dev (v # vs) s =
     (case otz_client_service_init dev v s of (r, s1) \<Rightarrow> if r \<noteq> 0 then (r, s1) else init_services dev vs s1)"

text \<open>When something fails the record of the device file stays in the list.\<close>

definition otz_client_open :: "driver \<Rightarrow> u32 \<times> driver" where
  "otz_client_open s0 =
     (let dev = device_file_cnt s0 + 1; (a, s1) = kmalloc (s0\<lparr>device_file_cnt := dev\<rparr>)
      in if a = 0 then (- ENOMEM, s1)
         else let d = \<lparr>file_id = dev, service_cnt = 0, services_list = [], dev_shared_mem = [], shared_mem_cnt = 0, file_block = a\<rparr>;
                  (r, s2) = init_services dev
                     [OTZ_SVC_GLOBAL, OTZ_SVC_ECHO, OTZ_SVC_CRYPT, OTZ_SVC_MUTEX_TEST, OTZ_SVC_VIRTUAL_KEYBOARD, OTZ_SVC_DRM]
                     (s1\<lparr>dev_file_list := d # dev_file_list s1, dev_file_cnt := dev_file_cnt s1 + 1\<rparr>)
              in if r \<noteq> 0 then (r, s2)
                 else let s3 = (if drv_notify s2 = 0 then case kmalloc s2 of (b, s3) \<Rightarrow> s3\<lparr>drv_notify := b\<rparr> else s2)
                      in if drv_notify s3 = 0 then (- ENOMEM, s3)
                         else otz_smc_call None dev OTZ_SVC_GLOBAL OTZ_GLOBAL_CMD_ID_REGISTER_NOTIFY_MEMORY 0 0 (drv_notify s3) 20 0 0 0 s3)"

definition otz_client_release :: "u32 \<Rightarrow> driver \<Rightarrow> driver" where
  "otz_client_release dev s =
     (let s1 = otz_client_service_exit dev
                 (snd (otz_smc_call None dev OTZ_SVC_GLOBAL OTZ_GLOBAL_CMD_ID_UNREGISTER_NOTIFY_MEMORY 0 0 0 0 0 0 0 s))
      in if dev_file_list s1 = [] then (kfree (drv_notify s1) s1)\<lparr>drv_notify := 0\<rparr> else s1)"

text \<open>The calls of \<open>otz_client_ioctl\<close> with their arguments. The one for space for an array encodes a reference.\<close>

datatype ioctl =
  Send_cmd_req otz_client_encode_cmd
| Enc_uint32 otz_client_encode_cmd
| Dec_uint32 otz_client_encode_cmd
| Enc_array otz_client_encode_cmd
| Dec_array_space otz_client_encode_cmd
| Enc_mem_ref otz_client_encode_cmd
| Enc_array_space otz_client_encode_cmd
| Get_decode_type otz_client_encode_cmd
| Ses_open_req ser_ses_id
| Ses_close_req ser_ses_id
| Shr_mem_allocate_req otz_session_shared_mem_info
| Shr_mem_free_req otz_session_shared_mem_info
| Operation_release otz_client_encode_cmd
| Unknown_req

fun otz_client_ioctl :: "u32 \<Rightarrow> ioctl \<Rightarrow> driver \<Rightarrow> (u32 \<times> ioctl \<times> driver) option" where
  "otz_client_ioctl dev (Send_cmd_req c) s = (case otz_client_send_cmd dev c s of (r, c1, s1) \<Rightarrow> Some (r, Send_cmd_req c1, s1))"
| "otz_client_ioctl dev (Enc_uint32 c) s = map_option (\<lambda>(r, c1, s1). (r, Enc_uint32 c1, s1)) (otz_client_encode_uint32 dev c s)"
| "otz_client_ioctl dev (Dec_uint32 c) s = map_option (\<lambda>(r, c1, s1). (r, Dec_uint32 c1, s1)) (otz_client_decode_uint32 dev c s)"
| "otz_client_ioctl dev (Enc_array c) s = map_option (\<lambda>(r, c1, s1). (r, Enc_array c1, s1)) (otz_client_encode_array dev c s)"
| "otz_client_ioctl dev (Dec_array_space c) s = map_option (\<lambda>(r, c1, s1). (r, Dec_array_space c1, s1)) (otz_client_decode_array_space dev c s)"
| "otz_client_ioctl dev (Enc_mem_ref c) s = map_option (\<lambda>(r, c1, s1). (r, Enc_mem_ref c1, s1)) (otz_client_encode_mem_ref dev c s)"
| "otz_client_ioctl dev (Enc_array_space c) s = map_option (\<lambda>(r, c1, s1). (r, Enc_array_space c1, s1)) (otz_client_encode_mem_ref dev c s)"
| "otz_client_ioctl dev (Get_decode_type c) s = map_option (\<lambda>(r, c1, s1). (r, Get_decode_type c1, s1)) (otz_client_get_decode_type dev c s)"
| "otz_client_ioctl dev (Ses_open_req q) s = (case otz_client_session_open dev q s of (r, q1, s1) \<Rightarrow> Some (r, Ses_open_req q1, s1))"
| "otz_client_ioctl dev (Ses_close_req q) s = (case otz_client_session_close dev q s of (r, s1) \<Rightarrow> Some (r, Ses_close_req q, s1))"
| "otz_client_ioctl dev (Shr_mem_allocate_req q) s = (case otz_client_shared_mem_alloc dev q s of (r, s1) \<Rightarrow> Some (r, Shr_mem_allocate_req q, s1))"
| "otz_client_ioctl dev (Shr_mem_free_req q) s = (case otz_client_shared_mem_free dev q s of (r, s1) \<Rightarrow> Some (r, Shr_mem_free_req q, s1))"
| "otz_client_ioctl dev (Operation_release c) s = (case otz_client_operation_release dev c s of (r, s1) \<Rightarrow> Some (r, Operation_release c, s1))"
| "otz_client_ioctl dev Unknown_req s = Some (- EINVAL, Unknown_req, s)"

end
