(* ===== verification/OtzApi.thy ===== *)
theory OtzApi
  imports OtzDriver SwList "HOL-Library.Monad_Syntax"
begin

text \<open>
  The library of the client programs (\<open>otz_api/otz_api.c\<close>, \<open>include/otz_api.h\<close>) over the driver, with
  the system calls of Linux between them: a result from -4095 to -1 of the driver becomes -1, and
  the number \<open>errno\<close>.

  Devices, sessions, operations and shared blocks are records at addresses, the list of the blocks
  of a session is a store of links (theory \<open>SwList\<close>), and what the calls of the driver read or write
  through pointers is in the memory \<open>kmem\<close>. Parameters in the state: the descriptors and addresses
  that \<open>open\<close> and \<open>mmap\<close> give, the paths of other files, on which \<open>ioctl\<close> and \<open>mmap\<close> fail, and the
  contents of local structures that are not set. \<open>None\<close> is an access through a null pointer or
  behind an array. Messages are left out, as is the field \<open>flags\<close> that the driver does not read.
\<close>

section \<open>System calls\<close>

datatype open_file = Otz_file u32 u32 | Other_file

record client =
  drv :: driver
  fd_table :: "u32 \<Rightarrow> open_file option"
  new_fds :: "u32 list"
  other_paths :: "string \<Rightarrow> bool"
  new_maps :: "u32 list"
  unmapped :: "(u32 \<times> u32) list"
  errno :: u32
  client_links :: links
  stack_cmd :: otz_client_encode_cmd
  stack_ids :: ser_ses_id

definition EINTR :: u32 where "EINTR = 4"
definition EBADF :: u32 where "EBADF = 9"
definition EACCES :: u32 where "EACCES = 13"
definition EMFILE :: u32 where "EMFILE = 24"
definition ENOTTY :: u32 where "ENOTTY = 25"
definition ENOENT :: u32 where "ENOENT = 2"
definition ENODEV :: u32 where "ENODEV = 19"
definition O_RDONLY :: u32 where "O_RDONLY = 0"
definition O_WRONLY :: u32 where "O_WRONLY = 1"
definition O_RDWR :: u32 where "O_RDWR = 2"
definition PROT_READ :: u32 where "PROT_READ = 1"
definition PROT_WRITE :: u32 where "PROT_WRITE = 2"
definition OTZ_CLIENT_FULL_PATH_DEV_NAME :: string where "OTZ_CLIENT_FULL_PATH_DEV_NAME = ''/dev/otz_client''"

definition is_errno :: "u32 \<Rightarrow> bool" where
  "is_errno r \<longleftrightarrow> - 4095 \<le> r"

definition fails :: "u32 \<Rightarrow> 'a client_scheme \<Rightarrow> u32 \<times> 'a client_scheme" where
  "fails e c = (- 1, c\<lparr>errno := e\<rparr>)"

text \<open>A call that a signal interrupts is not started again.\<close>

definition sys_result :: "u32 \<Rightarrow> 'a client_scheme \<Rightarrow> u32 \<times> 'a client_scheme" where
  "sys_result r c = (if r = - ERESTARTSYS then fails EINTR c else if is_errno r then fails (- r) c else (r, c))"

definition sys_open :: "string \<Rightarrow> u32 \<Rightarrow> 'a client_scheme \<Rightarrow> (u32 \<times> 'a client_scheme) option" where
  "sys_open path flags c =
     (if path \<noteq> OTZ_CLIENT_FULL_PATH_DEV_NAME \<and> \<not> other_paths c path then Some (fails ENOENT c)
      else case new_fds c of
        [] \<Rightarrow> Some (fails EMFILE c)
      | fd # fds \<Rightarrow>
          if path \<noteq> OTZ_CLIENT_FULL_PATH_DEV_NAME
          then Some (fd, c\<lparr>new_fds := fds, fd_table := (fd_table c)(fd := Some Other_file)\<rparr>)
          else case otz_client_open (drv c) of (r, d) \<Rightarrow>
            if r = 0
            then Some (fd, c\<lparr>drv := d, new_fds := fds, fd_table := (fd_table c)(fd := Some (Otz_file (device_file_cnt d) flags))\<rparr>)
            else if is_errno r then Some (sys_result r (c\<lparr>drv := d\<rparr>))
            else None)"

definition sys_close :: "u32 \<Rightarrow> 'a client_scheme \<Rightarrow> 'a client_scheme" where
  "sys_close fd c =
     (case fd_table c fd of
        None \<Rightarrow> c\<lparr>errno := EBADF\<rparr>
      | Some Other_file \<Rightarrow> c\<lparr>fd_table := (fd_table c)(fd := None)\<rparr>
      | Some (Otz_file dev _) \<Rightarrow> c\<lparr>fd_table := (fd_table c)(fd := None), drv := otz_client_release dev (drv c)\<rparr>)"

definition sys_ioctl :: "u32 \<Rightarrow> ioctl \<Rightarrow> 'a client_scheme \<Rightarrow> (u32 \<times> ioctl \<times> 'a client_scheme) option" where
  "sys_ioctl fd req c =
     (case fd_table c fd of
        None \<Rightarrow> Some (case fails EBADF c of (r, c1) \<Rightarrow> (r, req, c1))
      | Some Other_file \<Rightarrow> Some (case fails ENOTTY c of (r, c1) \<Rightarrow> (r, req, c1))
      | Some (Otz_file dev _) \<Rightarrow> do {
          (r, req1, d) \<leftarrow> otz_client_ioctl dev req (drv c);
          Some (case sys_result r (c\<lparr>drv := d\<rparr>) of (r1, c1) \<Rightarrow> (r1, req1, c1)) })"

definition page_align :: "u32 \<Rightarrow> u32" where
  "page_align n = (n + 0xFFF) AND NOT 0xFFF"

definition sys_mmap :: "u32 \<Rightarrow> u32 \<Rightarrow> u32 \<Rightarrow> 'a client_scheme \<Rightarrow> (u32 \<times> 'a client_scheme) option" where
  "sys_mmap len prot fd c =
     (case fd_table c fd of
        None \<Rightarrow> Some (fails EBADF c)
      | Some file \<Rightarrow>
          if len = 0 then Some (fails EINVAL c)
          else if page_align len = 0 \<or> new_maps c = [] then Some (fails ENOMEM c)
          else case file of
            Other_file \<Rightarrow> Some (fails ENODEV c)
          | Otz_file dev flags \<Rightarrow>
              if flags AND 3 = O_WRONLY \<or> prot AND PROT_WRITE \<noteq> 0 \<and> flags AND 3 \<noteq> O_RDWR then Some (fails EACCES c)
              else let a = hd (new_maps c) in do {
                (r, d) \<leftarrow> otz_client_mmap dev a (a + page_align len) (drv c);
                if r = 0 then Some (a, c\<lparr>drv := d, new_maps := tl (new_maps c)\<rparr>) else Some (sys_result r (c\<lparr>drv := d\<rparr>)) })"

definition MAP_FAILED :: u32 where "MAP_FAILED = - 1"

definition sys_munmap :: "u32 \<Rightarrow> u32 \<Rightarrow> 'a client_scheme \<Rightarrow> 'a client_scheme" where
  "sys_munmap a len c = c\<lparr>unmapped := (a, len) # unmapped c\<rparr>"

text \<open>A call with a command as its argument, which the driver may change.\<close>

fun cmd_of :: "ioctl \<Rightarrow> otz_client_encode_cmd option" where
  "cmd_of (Send_cmd_req e) = Some e"
| "cmd_of (Enc_uint32 e) = Some e"
| "cmd_of (Dec_uint32 e) = Some e"
| "cmd_of (Enc_array e) = Some e"
| "cmd_of (Dec_array_space e) = Some e"
| "cmd_of (Enc_mem_ref e) = Some e"
| "cmd_of (Enc_array_space e) = Some e"
| "cmd_of (Get_decode_type e) = Some e"
| "cmd_of (Operation_release e) = Some e"
| "cmd_of _ = None"

fun ids_of :: "ioctl \<Rightarrow> ser_ses_id option" where
  "ids_of (Ses_open_req ids) = Some ids"
| "ids_of _ = None"

definition cmd_call ::
  "(otz_client_encode_cmd \<Rightarrow> ioctl) \<Rightarrow> u32 \<Rightarrow> otz_client_encode_cmd \<Rightarrow> 'a client_scheme \<Rightarrow> (u32 \<times> otz_client_encode_cmd \<times> 'a client_scheme) option" where
  "cmd_call req fd e c = do { (r, q, c1) \<leftarrow> sys_ioctl fd (req e) c; e1 \<leftarrow> cmd_of q; Some (r, e1, c1) }"

definition deref :: "u32 \<Rightarrow> (u32 \<Rightarrow> 'b) \<Rightarrow> 'b option" where
  "deref p f = (if p = 0 then None else Some (f p))"

definition put_word :: "u32 \<Rightarrow> u32 \<Rightarrow> 'a client_scheme \<Rightarrow> 'a client_scheme" where
  "put_word p v c = c\<lparr>drv := on_kmem (write32 p v) (drv c)\<rparr>"

definition on_links :: "(links \<Rightarrow> links) \<Rightarrow> 'a client_scheme \<Rightarrow> 'a client_scheme" where
  "on_links f c = c\<lparr>client_links := f (client_links c)\<rparr>"
section \<open>Structures and constants\<close>

record otz_device_t =
  dv_state :: u32
  dv_fd :: u32
  dv_sessions :: u32
  dv_errno :: u32

record otz_session_t =
  se_state :: u32
  se_operations :: u32
  se_session_id :: u32
  se_service_id :: u32
  se_blocks :: u32
  se_device :: u32

record otz_mem_reference =
  mr_mem :: u32
  mr_offset :: u32
  mr_length :: u32
  mr_type :: u32

record otz_operation_t =
  op_state :: u32
  op_session :: u32
  op_type :: u32
  op_cmd_id :: u32
  op_encode_id :: u32
  op_enc_error :: u32
  op_dec_error :: u32
  op_shared :: "otz_mem_reference list"
  op_shared_count :: u32
  op_temp :: "otz_mem_reference list"
  op_temp_count :: u32
  op_errno :: u32

record otz_shared_mem_t =
  sm_state :: u32
  sm_length :: u32
  sm_flags :: u32
  sm_block :: u32
  sm_session :: u32
  sm_session_id :: u32
  sm_operations :: u32
  sm_errno :: u32

record api = client +
  devices :: "u32 \<Rightarrow> otz_device_t"
  api_sessions :: "u32 \<Rightarrow> otz_session_t"
  api_operations :: "u32 \<Rightarrow> otz_operation_t"
  api_blocks :: "u32 \<Rightarrow> otz_shared_mem_t"

definition OTZ_SUCCESS :: u32 where "OTZ_SUCCESS = 0"
definition OTZ_ERROR_ACCESS_DENIED :: u32 where "OTZ_ERROR_ACCESS_DENIED = 2"
definition OTZ_ERROR_DECODE_NO_DATA :: u32 where "OTZ_ERROR_DECODE_NO_DATA = 6"
definition OTZ_ERROR_ENCODE_FORMAT :: u32 where "OTZ_ERROR_ENCODE_FORMAT = 8"
definition OTZ_ERROR_ENCODE_MEMORY :: u32 where "OTZ_ERROR_ENCODE_MEMORY = 9"
definition OTZ_ERROR_GENERIC :: u32 where "OTZ_ERROR_GENERIC = 10"
definition OTZ_ERROR_ILLEGAL_ARGUMENT :: u32 where "OTZ_ERROR_ILLEGAL_ARGUMENT = 11"
definition OTZ_ERROR_ILLEGAL_STATE :: u32 where "OTZ_ERROR_ILLEGAL_STATE = 12"
definition OTZ_ERROR_MEMORY :: u32 where "OTZ_ERROR_MEMORY = 13"
definition OTZ_ERROR_NOT_IMPLEMENTED :: u32 where "OTZ_ERROR_NOT_IMPLEMENTED = 14"
definition OTZ_ERROR_SERVICE :: u32 where "OTZ_ERROR_SERVICE = 16"
definition OTZ_ERROR_UNDEFINED :: u32 where "OTZ_ERROR_UNDEFINED = 18"

lemmas otz_errors = OTZ_SUCCESS_def OTZ_ERROR_ACCESS_DENIED_def OTZ_ERROR_DECODE_NO_DATA_def OTZ_ERROR_ENCODE_FORMAT_def
  OTZ_ERROR_ENCODE_MEMORY_def OTZ_ERROR_GENERIC_def OTZ_ERROR_ILLEGAL_ARGUMENT_def OTZ_ERROR_ILLEGAL_STATE_def
  OTZ_ERROR_MEMORY_def OTZ_ERROR_NOT_IMPLEMENTED_def OTZ_ERROR_SERVICE_def OTZ_ERROR_UNDEFINED_def

definition OTZ_STATE_UNDEFINED :: u32 where "OTZ_STATE_UNDEFINED = 0"
definition OTZ_STATE_INVALID :: u32 where "OTZ_STATE_INVALID = 1"
definition OTZ_STATE_OPEN :: u32 where "OTZ_STATE_OPEN = 2"
definition OTZ_STATE_CLOSING :: u32 where "OTZ_STATE_CLOSING = 3"
definition OTZ_STATE_ENCODE :: u32 where "OTZ_STATE_ENCODE = 4"
definition OTZ_STATE_PERFORMABLE :: u32 where "OTZ_STATE_PERFORMABLE = 5"
definition OTZ_STATE_RUNNING :: u32 where "OTZ_STATE_RUNNING = 6"
definition OTZ_STATE_DECODE :: u32 where "OTZ_STATE_DECODE = 8"

lemmas otz_states = OTZ_STATE_UNDEFINED_def OTZ_STATE_INVALID_def OTZ_STATE_OPEN_def OTZ_STATE_CLOSING_def OTZ_STATE_ENCODE_def
  OTZ_STATE_PERFORMABLE_def OTZ_STATE_RUNNING_def OTZ_STATE_DECODE_def

definition OTZ_MEM_SERVICE_RO :: u32 where "OTZ_MEM_SERVICE_RO = 0"
definition OTZ_MEM_SERVICE_WO :: u32 where "OTZ_MEM_SERVICE_WO = 1"
definition OTZ_MEM_SERVICE_RW :: u32 where "OTZ_MEM_SERVICE_RW = 2"
definition OTZ_MEM_SERVICE_UNDEFINED :: u32 where "OTZ_MEM_SERVICE_UNDEFINED = 3"
definition OTZ_OPERATION_OPEN :: u32 where "OTZ_OPERATION_OPEN = 0"
definition OTZ_OPERATION_INVOKE :: u32 where "OTZ_OPERATION_INVOKE = 1"
definition OTZ_OPERATION_CLOSE :: u32 where "OTZ_OPERATION_CLOSE = 2"
definition OTZ_OPERATION_NONE :: u32 where "OTZ_OPERATION_NONE = 3"
definition OTZ_PARAM_IN :: u32 where "OTZ_PARAM_IN = 0"
definition OTZ_PARAM_OUT :: u32 where "OTZ_PARAM_OUT = 1"
definition OTZ_TYPE_NONE :: u32 where "OTZ_TYPE_NONE = 0"
definition OTZ_TYPE_UINT32 :: u32 where "OTZ_TYPE_UINT32 = 1"
definition OTZ_TYPE_ARRAY :: u32 where "OTZ_TYPE_ARRAY = 2"
definition MAX_MEMBLOCKS_PER_OPERATION :: u32 where "MAX_MEMBLOCKS_PER_OPERATION = 4"
definition OTZ_SVC_INVALID :: u32 where "OTZ_SVC_INVALID = 0"

lemmas otz_kinds = OTZ_OPERATION_OPEN_def OTZ_OPERATION_INVOKE_def OTZ_OPERATION_CLOSE_def OTZ_OPERATION_NONE_def

definition on_device :: "u32 \<Rightarrow> (otz_device_t \<Rightarrow> otz_device_t) \<Rightarrow> api \<Rightarrow> api" where
  "on_device p f c = c\<lparr>devices := (devices c)(p := f (devices c p))\<rparr>"

definition on_ses :: "u32 \<Rightarrow> (otz_session_t \<Rightarrow> otz_session_t) \<Rightarrow> api \<Rightarrow> api" where
  "on_ses p f c = c\<lparr>api_sessions := (api_sessions c)(p := f (api_sessions c p))\<rparr>"

definition on_op :: "u32 \<Rightarrow> (otz_operation_t \<Rightarrow> otz_operation_t) \<Rightarrow> api \<Rightarrow> api" where
  "on_op p f c = c\<lparr>api_operations := (api_operations c)(p := f (api_operations c p))\<rparr>"

definition on_block :: "u32 \<Rightarrow> (otz_shared_mem_t \<Rightarrow> otz_shared_mem_t) \<Rightarrow> api \<Rightarrow> api" where
  "on_block p f c = c\<lparr>api_blocks := (api_blocks c)(p := f (api_blocks c p))\<rparr>"

text \<open>The addresses of the list heads inside a session and inside a block.\<close>

definition block_list :: "u32 \<Rightarrow> u32" where "block_list ses = ses + 24"
definition head_ref :: "u32 \<Rightarrow> u32" where "head_ref blk = blk + 32"

section \<open>Devices\<close>

definition otz_device_open :: "string option \<Rightarrow> u32 \<Rightarrow> u32 \<Rightarrow> api \<Rightarrow> (u32 \<times> api) option" where
  "otz_device_open device_name init dev c =
     (if dev = 0 then Some (OTZ_ERROR_ILLEGAL_ARGUMENT, c)
      else do {
        (r, c1) \<leftarrow> sys_open (case device_name of None \<Rightarrow> OTZ_CLIENT_FULL_PATH_DEV_NAME | Some n \<Rightarrow> n) (if init = 0 then O_RDONLY else init) c;
        if r = - 1 then Some (OTZ_ERROR_GENERIC, on_device dev (\<lambda>d. d\<lparr>dv_state := OTZ_STATE_INVALID, dv_errno := errno c1\<rparr>) c1)
        else Some (OTZ_SUCCESS, on_device dev (\<lambda>d. d\<lparr>dv_fd := r, dv_state := OTZ_STATE_OPEN, dv_sessions := 0\<rparr>) c1) })"

definition otz_device_get_timelimit :: "u32 \<Rightarrow> u32 \<Rightarrow> u32 \<Rightarrow> api \<Rightarrow> u32 \<times> api" where
  "otz_device_get_timelimit dev timeout limit c = (OTZ_ERROR_NOT_IMPLEMENTED, c)"

definition otz_device_close :: "u32 \<Rightarrow> api \<Rightarrow> u32 \<times> api" where
  "otz_device_close dev c =
     (let d = devices c dev
      in if dev = 0 then (OTZ_ERROR_ILLEGAL_ARGUMENT, c)
         else if dv_state d = OTZ_STATE_INVALID then (OTZ_SUCCESS, on_device dev (\<lambda>d. d\<lparr>dv_state := OTZ_STATE_UNDEFINED\<rparr>) c)
         else if dv_state d = OTZ_STATE_OPEN
         then if dv_sessions d = 0
              then (OTZ_SUCCESS, on_device dev (\<lambda>d. d\<lparr>dv_fd := 0, dv_state := OTZ_STATE_UNDEFINED\<rparr>) (sys_close (dv_fd d) c))
              else (OTZ_ERROR_ILLEGAL_STATE, on_device dev (\<lambda>d. d\<lparr>dv_errno := errno c\<rparr>) c)
         else (OTZ_ERROR_UNDEFINED, c))"

section \<open>Preparing operations\<close>

definition otz_operation_prepare_open :: "u32 \<Rightarrow> u32 \<Rightarrow> u32 \<Rightarrow> u32 \<Rightarrow> api \<Rightarrow> u32 \<times> api" where
  "otz_operation_prepare_open dev svc ses op c =
     (if dev = 0 \<or> svc = OTZ_SVC_INVALID \<or> ses = 0 \<or> op = 0 then (OTZ_ERROR_ILLEGAL_ARGUMENT, c)
      else let c1 = on_ses ses (\<lambda>s. s\<lparr>se_state := OTZ_STATE_INVALID, se_device := dev, se_operations := 1, se_service_id := svc, se_blocks := 0\<rparr>) c;
               c2 = on_links (init_list_head (block_list ses)) c1
           in (OTZ_SUCCESS, on_op op (\<lambda>x. x\<lparr>op_temp_count := 0, op_type := OTZ_OPERATION_OPEN, op_state := OTZ_STATE_ENCODE, op_session := ses\<rparr>) c2))"

definition otz_operation_prepare_invoke :: "u32 \<Rightarrow> u32 \<Rightarrow> u32 \<Rightarrow> api \<Rightarrow> u32 \<times> api" where
  "otz_operation_prepare_invoke ses command op c =
     (if ses = 0 \<or> op = 0 then (OTZ_ERROR_ILLEGAL_ARGUMENT, c)
      else if se_state (api_sessions c ses) \<noteq> OTZ_STATE_OPEN then (OTZ_ERROR_ILLEGAL_STATE, c)
      else (OTZ_SUCCESS,
        on_op op (\<lambda>x. x\<lparr>op_session := ses, op_type := OTZ_OPERATION_INVOKE, op_state := OTZ_STATE_ENCODE, op_encode_id := - 1,
                        op_cmd_id := command, op_enc_error := OTZ_SUCCESS, op_dec_error := OTZ_SUCCESS, op_shared_count := 0, op_temp_count := 0\<rparr>)
          (on_ses ses (\<lambda>s. s\<lparr>se_operations := se_operations s + 1\<rparr>) c)))"

definition otz_operation_prepare_close :: "u32 \<Rightarrow> u32 \<Rightarrow> api \<Rightarrow> u32 \<times> api" where
  "otz_operation_prepare_close ses op c =
     (if ses = 0 \<or> op = 0 then (OTZ_ERROR_ILLEGAL_ARGUMENT, c)
      else if se_state (api_sessions c ses) \<noteq> OTZ_STATE_OPEN \<or> op_state (api_operations c op) \<noteq> OTZ_STATE_UNDEFINED
      then (OTZ_ERROR_ILLEGAL_STATE, c)
      else (OTZ_SUCCESS,
        on_op op (\<lambda>x. x\<lparr>op_session := ses, op_type := OTZ_OPERATION_CLOSE, op_state := OTZ_STATE_PERFORMABLE, op_shared_count := 0, op_temp_count := 0\<rparr>)
          (on_ses ses (\<lambda>s. s\<lparr>se_state := OTZ_STATE_CLOSING, se_operations := se_operations s + 1\<rparr>) c)))"

section \<open>Performing operations\<close>

definition finish_op :: "u32 \<Rightarrow> u32 \<Rightarrow> u32 \<Rightarrow> u32 \<Rightarrow> api \<Rightarrow> api" where
  "finish_op op pui v final c = on_op op (\<lambda>x. x\<lparr>op_state := final\<rparr>) (put_word pui v c)"

definition failed_op :: "u32 \<Rightarrow> u32 \<Rightarrow> api \<Rightarrow> api" where
  "failed_op op pui c = on_op op (\<lambda>x. x\<lparr>op_errno := errno c\<rparr>) (finish_op op pui OTZ_ERROR_GENERIC OTZ_STATE_INVALID c)"

text \<open>The command with which an operation names itself to the driver; its other fields are not set.\<close>

definition op_cmd :: "u32 \<Rightarrow> otz_session_t \<Rightarrow> api \<Rightarrow> otz_client_encode_cmd" where
  "op_cmd op s c = (stack_cmd c)\<lparr>c_encode_id := op_encode_id (api_operations c op), c_cmd_id := op_cmd_id (api_operations c op),
     c_service_id := se_service_id s, c_session_id := se_session_id s\<rparr>"

definition perform_close :: "u32 \<Rightarrow> u32 \<Rightarrow> api \<Rightarrow> (u32 \<times> api) option" where
  "perform_close op pui c = do {
     let ses = op_session (api_operations c op);
     s \<leftarrow> deref ses (api_sessions c);
     if se_operations s = 1 \<and> se_blocks s = 0 then do {
       d \<leftarrow> deref (se_device s) (devices c);
       (r, _, c1) \<leftarrow> sys_ioctl (dv_fd d) (Ses_close_req \<lparr>ss_service = se_service_id s, ss_session = se_session_id s\<rparr>) c;
       if r <s 0 then Some (if r = - EFAULT then OTZ_ERROR_ACCESS_DENIED else OTZ_ERROR_UNDEFINED, failed_op op pui c1)
       else if r \<noteq> 0 then Some (OTZ_ERROR_SERVICE, finish_op op pui r OTZ_STATE_INVALID c1)
       else Some (OTZ_SUCCESS, finish_op op pui OTZ_SUCCESS OTZ_STATE_INVALID
              (on_ses ses (\<lambda>s. s\<lparr>se_device := 0, se_state := OTZ_STATE_UNDEFINED, se_session_id := - 1, se_service_id := OTZ_SVC_INVALID\<rparr>)
                (on_device (se_device s) (\<lambda>d. d\<lparr>dv_sessions := dv_sessions d - 1\<rparr>) c1))) }
     else Some (OTZ_ERROR_GENERIC, c) }"

definition perform_open :: "u32 \<Rightarrow> u32 \<Rightarrow> api \<Rightarrow> (u32 \<times> api) option" where
  "perform_open op pui c = do {
     let ses = op_session (api_operations c op);
     s \<leftarrow> deref ses (api_sessions c);
     d \<leftarrow> deref (se_device s) (devices c);
     (r, q, c1) \<leftarrow> sys_ioctl (dv_fd d) (Ses_open_req ((stack_ids c)\<lparr>ss_service := se_service_id s\<rparr>)) c;
     if r <s 0 then Some (if r = - ENOMEM then OTZ_ERROR_MEMORY else if r = - EFAULT then OTZ_ERROR_ACCESS_DENIED
                          else if r = - EINVAL then OTZ_ERROR_ILLEGAL_ARGUMENT else OTZ_ERROR_UNDEFINED, failed_op op pui c1)
     else if r \<noteq> 0 then Some (OTZ_ERROR_SERVICE, finish_op op pui r OTZ_STATE_DECODE c1)
     else do {
       ids \<leftarrow> ids_of q;
       Some (OTZ_SUCCESS, on_ses ses (\<lambda>s. s\<lparr>se_state := OTZ_STATE_OPEN\<rparr>) (finish_op op pui OTZ_SUCCESS OTZ_STATE_DECODE
         (on_ses ses (\<lambda>s. s\<lparr>se_session_id := ss_session ids\<rparr>) (on_device (se_device s) (\<lambda>d. d\<lparr>dv_sessions := dv_sessions d + 1\<rparr>) c1)))) } }"

definition perform_invoke :: "u32 \<Rightarrow> u32 \<Rightarrow> api \<Rightarrow> (u32 \<times> api) option" where
  "perform_invoke op pui c = do {
     let ses = op_session (api_operations c op);
     s \<leftarrow> deref ses (api_sessions c);
     d \<leftarrow> deref (se_device s) (devices c);
     (r, _, c1) \<leftarrow> cmd_call Send_cmd_req (dv_fd d) (op_cmd op s c) c;
     if r <s 0 then Some (if r = - EFAULT then OTZ_ERROR_ACCESS_DENIED else if r = - EINVAL then OTZ_ERROR_ILLEGAL_ARGUMENT
                          else OTZ_ERROR_UNDEFINED, failed_op op pui c1)
     else if r \<noteq> 0 then Some (OTZ_ERROR_SERVICE, finish_op op pui r OTZ_STATE_DECODE c1)
     else Some (OTZ_SUCCESS, on_ses ses (\<lambda>s. s\<lparr>se_state := OTZ_STATE_OPEN\<rparr>) (finish_op op pui OTZ_SUCCESS OTZ_STATE_DECODE c1)) }"

definition otz_operation_perform :: "u32 \<Rightarrow> u32 \<Rightarrow> api \<Rightarrow> (u32 \<times> api) option" where
  "otz_operation_perform op pui c =
     (let x = api_operations c op; c1 = on_op op (\<lambda>x. x\<lparr>op_state := OTZ_STATE_RUNNING\<rparr>) c
      in if op = 0 \<or> pui = 0 then Some (OTZ_ERROR_ILLEGAL_ARGUMENT, c)
         else if op_state x \<noteq> OTZ_STATE_ENCODE \<and> op_state x \<noteq> OTZ_STATE_PERFORMABLE then Some (OTZ_ERROR_ILLEGAL_STATE, c)
         else if op_type x = OTZ_OPERATION_CLOSE then perform_close op pui c1
         else if op_type x = OTZ_OPERATION_OPEN then perform_open op pui c1
         else if op_type x = OTZ_OPERATION_INVOKE then perform_invoke op pui c1
         else Some (OTZ_ERROR_UNDEFINED, c1))"

section \<open>Releasing operations\<close>

fun free_temp_from :: "u32 \<Rightarrow> nat list \<Rightarrow> api \<Rightarrow> api option" where
  "free_temp_from op [] c = Some c"
| "free_temp_from op (i # is) c =
     (let x = api_operations c op
      in if length (op_temp x) \<le> i then None
         else do {
           s \<leftarrow> deref (op_session x) (api_sessions c);
           d \<leftarrow> deref (se_device s) (devices c);
           (r, _, c1) \<leftarrow> sys_ioctl (dv_fd d)
              (Shr_mem_free_req \<lparr>mi_service = se_service_id s, mi_session = se_session_id s, user_mem_addr = mr_mem (op_temp x ! i)\<rparr>)
              (sys_munmap (mr_mem (op_temp x ! i)) (mr_length (op_temp x ! i)) c);
           free_temp_from op is (if r \<noteq> 0 then on_op op (\<lambda>x. x\<lparr>op_errno := r\<rparr>) c1 else c1) })"

definition otz_free_temp_shared_mem :: "u32 \<Rightarrow> api \<Rightarrow> api option" where
  "otz_free_temp_shared_mem op c = do {
     _ \<leftarrow> deref (op_session (api_operations c op)) (api_sessions c);
     free_temp_from op [0..<nat (sint (op_temp_count (api_operations c op)))] c }"

definition release_unperformed :: "u32 \<Rightarrow> u32 \<Rightarrow> api \<Rightarrow> api option" where
  "release_unperformed op ses c =
     (if op_type (api_operations c op) = OTZ_OPERATION_OPEN
      then let dev = se_device (api_sessions c ses)
           in if dev = 0 then None
              else Some (on_ses ses (\<lambda>s. s\<lparr>se_device := 0, se_state := OTZ_STATE_UNDEFINED, se_session_id := - 1, se_service_id := OTZ_SVC_INVALID\<rparr>)
                     (on_device dev (\<lambda>d. d\<lparr>dv_sessions := dv_sessions d - 1\<rparr>) c))
      else Some c)"

definition release_performed :: "u32 \<Rightarrow> u32 \<Rightarrow> api \<Rightarrow> api option" where
  "release_performed op ses c = do {
     let s = api_sessions c ses;
     d \<leftarrow> deref (se_device s) (devices c);
     (r, _, c1) \<leftarrow> cmd_call Operation_release (dv_fd d) (op_cmd op s c) c;
     Some (if r \<noteq> 0 then on_op op (\<lambda>x. x\<lparr>op_errno := errno c1\<rparr>) c1 else c1) }"

definition otz_operation_release :: "u32 \<Rightarrow> api \<Rightarrow> api option" where
  "otz_operation_release op c =
     (let x = api_operations c op; ses = op_session x
      in if op = 0 then Some c
         else if op_state x \<notin> {OTZ_STATE_ENCODE, OTZ_STATE_PERFORMABLE, OTZ_STATE_DECODE, OTZ_STATE_INVALID} then Some c
         else if ses = 0 then None
         else do {
           c1 \<leftarrow> otz_free_temp_shared_mem op (on_ses ses (\<lambda>s. s\<lparr>se_operations := se_operations s - 1\<rparr>) c);
           c2 \<leftarrow> (if op_state x = OTZ_STATE_ENCODE then release_unperformed op ses c1
                 else if op_state x = OTZ_STATE_PERFORMABLE
                 then Some (if op_type x = OTZ_OPERATION_CLOSE then on_ses ses (\<lambda>s. s\<lparr>se_state := OTZ_STATE_OPEN\<rparr>) c1 else c1)
                 else if op_state x = OTZ_STATE_DECODE then release_performed op ses c1
                 else Some c1);
           Some (on_op op (\<lambda>x. x\<lparr>op_session := 0, op_state := OTZ_STATE_UNDEFINED, op_type := OTZ_OPERATION_NONE\<rparr>) c2) })"

definition otz_operation_cancel :: "u32 \<Rightarrow> api \<Rightarrow> api" where
  "otz_operation_cancel op c = c"

section \<open>Shared memory\<close>

definition map_prot :: "u32 \<Rightarrow> u32" where
  "map_prot flags = (if flags = OTZ_MEM_SERVICE_RO then PROT_READ
     else if flags = OTZ_MEM_SERVICE_WO then PROT_WRITE else PROT_READ OR PROT_WRITE)"

definition block_info :: "otz_session_t \<Rightarrow> u32 \<Rightarrow> otz_session_shared_mem_info" where
  "block_info s a = \<lparr>mi_service = se_service_id s, mi_session = se_session_id s, user_mem_addr = a\<rparr>"

definition otz_shared_memory_allocate :: "u32 \<Rightarrow> u32 \<Rightarrow> api \<Rightarrow> (u32 \<times> api) option" where
  "otz_shared_memory_allocate ses blk c =
     (let s = api_sessions c ses; b = api_blocks c blk
      in if ses = 0 \<or> blk = 0 then Some (OTZ_ERROR_ILLEGAL_ARGUMENT, c)
         else if se_state s \<noteq> OTZ_STATE_OPEN \<or> sm_length b = 0 \<or>
                 sm_flags b \<notin> {OTZ_MEM_SERVICE_RO, OTZ_MEM_SERVICE_WO, OTZ_MEM_SERVICE_RW}
         then Some (OTZ_ERROR_ILLEGAL_STATE, c)
         else do {
           d \<leftarrow> deref (se_device s) (devices c);
           (a, c1) \<leftarrow> sys_mmap (sm_length b) (map_prot (sm_flags b)) (dv_fd d) c;
           (r, c2) \<leftarrow> (if a \<noteq> MAP_FAILED
              then do { (r, _, c2) \<leftarrow> sys_ioctl (dv_fd d) (Shr_mem_allocate_req (block_info s a)) c1; Some (r, c2) }
              else Some (- 1, c1));
           if r \<noteq> - 1
           then Some (OTZ_SUCCESS,
                  on_ses ses (\<lambda>s. s\<lparr>se_blocks := se_blocks s + 1\<rparr>)
                    (on_links (\<lambda>l. list_add_tail (block_list ses) (head_ref blk) (init_list_head (head_ref blk) l))
                      (on_block blk (\<lambda>b. b\<lparr>sm_block := a, sm_state := OTZ_STATE_OPEN, sm_session := ses, sm_operations := 0\<rparr>) c2)))
           else Some (OTZ_ERROR_MEMORY,
                  on_block blk (\<lambda>b. b\<lparr>sm_errno := errno c2, sm_state := OTZ_STATE_INVALID, sm_length := 0,
                    sm_flags := OTZ_MEM_SERVICE_UNDEFINED, sm_block := 0, sm_session := 0\<rparr>) c2) })"

definition otz_shared_memory_register :: "u32 \<Rightarrow> u32 \<Rightarrow> api \<Rightarrow> u32 \<times> api" where
  "otz_shared_memory_register ses blk c = (OTZ_ERROR_NOT_IMPLEMENTED, c)"

text \<open>Taking a block off the list of its session, if it is on it.\<close>

partial_function (option) search_from :: "ptr \<Rightarrow> ptr \<Rightarrow> links \<Rightarrow> ptr \<Rightarrow> bool option" where
  "search_from hd_ptr n l cur =
     (if cur = hd_ptr then Some False else if cur = n then Some True else search_from hd_ptr n l (nxt l cur))"

definition unlink_block :: "ptr \<Rightarrow> ptr \<Rightarrow> links \<Rightarrow> (bool \<times> links) option" where
  "unlink_block hd_ptr n l = do {
     found \<leftarrow> search_from hd_ptr n l (nxt l hd_ptr);
     Some (found, if found then list_del n l else l) }"

definition otz_shared_memory_release :: "u32 \<Rightarrow> api \<Rightarrow> api option" where
  "otz_shared_memory_release blk c =
     (let b = api_blocks c blk; ses = sm_session b
      in if blk = 0 \<or> sm_operations b \<noteq> 0 then Some c
         else if sm_state b = OTZ_STATE_INVALID then Some c
         else do {
           s \<leftarrow> deref ses (api_sessions c);
           d \<leftarrow> deref (se_device s) (devices c);
           (r, _, c1) \<leftarrow> sys_ioctl (dv_fd d) (Shr_mem_free_req (block_info s (sm_block b))) (sys_munmap (sm_block b) (sm_length b) c);
           if r \<noteq> 0 then Some (on_block blk (\<lambda>b. b\<lparr>sm_errno := errno c1\<rparr>) c1)
           else do {
             let c2 = on_block blk (\<lambda>b. b\<lparr>sm_state := OTZ_STATE_UNDEFINED, sm_block := 0, sm_length := 0,
                        sm_flags := OTZ_MEM_SERVICE_UNDEFINED, sm_session_id := - 1\<rparr>) c1;
             (found, l) \<leftarrow> unlink_block (block_list ses) (head_ref blk) (client_links c2);
             let c3 = (if found then on_ses ses (\<lambda>s. s\<lparr>se_blocks := se_blocks s - 1\<rparr>) (c2\<lparr>client_links := l\<rparr>) else c2);
             Some (on_block blk (\<lambda>b. b\<lparr>sm_session := 0\<rparr>) c3) } })"

section \<open>Encoding\<close>

definition encoder_ready :: "u32 \<Rightarrow> api \<Rightarrow> bool \<times> api" where
  "encoder_ready op c =
     (let x = api_operations c op
      in if op = 0 then (False, c)
         else if op_state x \<noteq> OTZ_STATE_ENCODE then (False, on_op op (\<lambda>x. x\<lparr>op_enc_error := OTZ_ERROR_ILLEGAL_STATE\<rparr>) c)
         else (op_enc_error x = OTZ_SUCCESS, c))"

definition enc_failed :: "u32 \<Rightarrow> u32 \<Rightarrow> api \<Rightarrow> api" where
  "enc_failed op e c = on_op op (\<lambda>x. x\<lparr>op_enc_error := e\<rparr>) c"

definition op_device :: "u32 \<Rightarrow> api \<Rightarrow> (otz_session_t \<times> u32) option" where
  "op_device op c = do {
     s \<leftarrow> deref (op_session (api_operations c op)) (api_sessions c);
     d \<leftarrow> deref (se_device s) (devices c);
     Some (s, dv_fd d) }"

definition encode_with :: "(otz_client_encode_cmd \<Rightarrow> ioctl) \<Rightarrow> (otz_client_encode_cmd \<Rightarrow> otz_client_encode_cmd) \<Rightarrow> u32 \<Rightarrow> api \<Rightarrow> api option" where
  "encode_with req fill op c =
     (case encoder_ready op c of
        (False, c1) \<Rightarrow> Some c1
      | (True, c1) \<Rightarrow> do {
          (s, fd) \<leftarrow> op_device op c1;
          (r, e, c2) \<leftarrow> cmd_call req fd (fill (op_cmd op s c1)) c1;
          Some (if r \<noteq> 0 then on_op op (\<lambda>x. x\<lparr>op_errno := errno c2\<rparr>) (enc_failed op OTZ_ERROR_ENCODE_MEMORY c2)
                else on_op op (\<lambda>x. x\<lparr>op_encode_id := c_encode_id e\<rparr>) c2) })"

definition otz_encode_uint32 :: "u32 \<Rightarrow> u32 \<Rightarrow> u32 \<Rightarrow> api \<Rightarrow> api option" where
  "otz_encode_uint32 op data ptype =
     encode_with Enc_uint32 (\<lambda>e. e\<lparr>c_data := data, c_len := 4, c_param_type := ptype\<rparr>) op"

definition otz_encode_array :: "u32 \<Rightarrow> u32 \<Rightarrow> u32 \<Rightarrow> u32 \<Rightarrow> api \<Rightarrow> api option" where
  "otz_encode_array op arr len ptype =
     encode_with Enc_array (\<lambda>e. e\<lparr>c_data := arr, c_len := len, c_param_type := ptype\<rparr>) op"

text \<open>Entries of an array of an operation; behind its end there is no result.\<close>

definition put_entry :: "otz_mem_reference list \<Rightarrow> u32 \<Rightarrow> otz_mem_reference \<Rightarrow> otz_mem_reference list option" where
  "put_entry xs i r = (if unat i < length xs then Some (xs[unat i := r]) else None)"

definition free_map_data :: "u32 \<Rightarrow> u32 \<Rightarrow> otz_session_t \<Rightarrow> u32 \<Rightarrow> u32 \<Rightarrow> api \<Rightarrow> (u32 \<times> api) option" where
  "free_map_data op fd s a len c = do {
     (_, _, c1) \<leftarrow> sys_ioctl fd (Shr_mem_free_req (block_info s a)) (sys_munmap a len c);
     Some (0, enc_failed op OTZ_ERROR_ENCODE_MEMORY c1) }"

definition otz_encode_array_space :: "u32 \<Rightarrow> u32 \<Rightarrow> u32 \<Rightarrow> api \<Rightarrow> (u32 \<times> api) option" where
  "otz_encode_array_space op len ptype c =
     (case encoder_ready op c of
        (False, c1) \<Rightarrow> Some (0, c1)
      | (True, c1) \<Rightarrow>
          if MAX_MEMBLOCKS_PER_OPERATION \<le>s op_temp_count (api_operations c1 op)
          then Some (0, enc_failed op OTZ_ERROR_ENCODE_MEMORY c1)
          else do {
            (s, fd) \<leftarrow> op_device op c1;
            (a, c2) \<leftarrow> sys_mmap len (PROT_READ OR PROT_WRITE) fd c1;
            if a = MAP_FAILED
            then Some (0, enc_failed op OTZ_ERROR_ENCODE_MEMORY (on_op op (\<lambda>x. x\<lparr>op_errno := errno c2\<rparr>) c2))
            else do {
              (r, _, c3) \<leftarrow> sys_ioctl fd (Shr_mem_allocate_req (block_info s a)) c2;
              if r = - 1 then free_map_data op fd s a len (on_op op (\<lambda>x. x\<lparr>op_errno := errno c3\<rparr>) c3)
              else do {
                (r, e, c4) \<leftarrow> cmd_call Enc_array_space fd
                   ((op_cmd op s c1)\<lparr>c_data := a, c_len := len, c_param_type := ptype, c_offset := 0\<rparr>) c3;
                if r \<noteq> 0 then free_map_data op fd s (c_data e) len (on_op op (\<lambda>x. x\<lparr>op_errno := errno c4\<rparr>) c4)
                else do {
                  let n = op_temp_count (api_operations c4 op);
                  temp \<leftarrow> put_entry (op_temp (api_operations c4 op)) n \<lparr>mr_mem = c_data e, mr_offset = 0, mr_length = len, mr_type = ptype\<rparr>;
                  Some (c_data e, on_op op (\<lambda>x. x\<lparr>op_encode_id := c_encode_id e, op_temp := temp, op_temp_count := n + 1\<rparr>) c4) } } } })"

definition reference_error :: "otz_operation_t \<Rightarrow> otz_shared_mem_t \<Rightarrow> u32 \<Rightarrow> u32 \<Rightarrow> u32 \<Rightarrow> u32 \<Rightarrow> u32 option" where
  "reference_error x b off len flags ptype =
     (if flags = OTZ_MEM_SERVICE_RO \<and> sm_flags b \<noteq> OTZ_MEM_SERVICE_RO \<and> sm_flags b \<noteq> OTZ_MEM_SERVICE_RW then Some OTZ_ERROR_ENCODE_FORMAT
      else if flags = OTZ_MEM_SERVICE_WO \<and> sm_flags b \<noteq> OTZ_MEM_SERVICE_WO \<and> sm_flags b \<noteq> OTZ_MEM_SERVICE_RW then Some OTZ_ERROR_ENCODE_FORMAT
      else if ptype = OTZ_PARAM_IN \<and> flags = OTZ_MEM_SERVICE_WO then Some OTZ_ERROR_ENCODE_FORMAT
      else if ptype = OTZ_PARAM_OUT \<and> flags = OTZ_MEM_SERVICE_RO then Some OTZ_ERROR_ENCODE_FORMAT
      else if sm_length b < off + len then Some OTZ_ERROR_ENCODE_MEMORY
      else if MAX_MEMBLOCKS_PER_OPERATION \<le>s op_shared_count x then Some OTZ_ERROR_ENCODE_MEMORY
      else None)"

definition otz_encode_memory_reference :: "u32 \<Rightarrow> u32 \<Rightarrow> u32 \<Rightarrow> u32 \<Rightarrow> u32 \<Rightarrow> u32 \<Rightarrow> api \<Rightarrow> api option" where
  "otz_encode_memory_reference op blk off len flags ptype c =
     (case encoder_ready op c of
        (False, c1) \<Rightarrow> Some c1
      | (True, c1) \<Rightarrow>
          if blk = 0 then Some (enc_failed op OTZ_ERROR_ENCODE_FORMAT c1)
          else case reference_error (api_operations c1 op) (api_blocks c1 blk) off len flags ptype of
            Some e \<Rightarrow> Some (enc_failed op e c1)
          | None \<Rightarrow> do {
              (s, fd) \<leftarrow> op_device op c1;
              (r, e, c2) \<leftarrow> cmd_call Enc_mem_ref fd
                 ((op_cmd op s c1)\<lparr>c_data := sm_block (api_blocks c1 blk), c_len := len, c_offset := off, c_param_type := ptype\<rparr>) c1;
              if r \<noteq> 0 then Some (on_op op (\<lambda>x. x\<lparr>op_errno := errno c2\<rparr>) (enc_failed op OTZ_ERROR_ENCODE_MEMORY c2))
              else do {
                let n = op_shared_count (api_operations c2 op);
                refs \<leftarrow> put_entry (op_shared (api_operations c2 op)) n \<lparr>mr_mem = blk, mr_offset = off, mr_length = len, mr_type = ptype\<rparr>;
                Some (on_op op (\<lambda>x. x\<lparr>op_encode_id := c_encode_id e, op_shared := refs, op_shared_count := n + 1\<rparr>) c2) } })"

section \<open>Decoding\<close>

definition decoder_ready :: "u32 \<Rightarrow> api \<Rightarrow> bool \<times> api" where
  "decoder_ready op c =
     (let x = api_operations c op
      in if op = 0 then (False, c)
         else if op_state x \<noteq> OTZ_STATE_DECODE then (False, on_op op (\<lambda>x. x\<lparr>op_dec_error := OTZ_ERROR_ILLEGAL_STATE\<rparr>) c)
         else (op_dec_error x = OTZ_SUCCESS, c))"

definition dec_failed :: "u32 \<Rightarrow> api \<Rightarrow> api" where
  "dec_failed op c = on_op op (\<lambda>x. x\<lparr>op_dec_error := OTZ_ERROR_DECODE_NO_DATA, op_errno := errno c\<rparr>) c"

text \<open>In both error cases zero is stored through a pointer that nobody has set.\<close>

definition zero_through :: "u32 \<Rightarrow> api \<Rightarrow> (u32 \<times> api) option" where
  "zero_through p c = (if p = 0 then None else Some (0, put_word p 0 c))"

definition otz_decode_uint32 :: "u32 \<Rightarrow> api \<Rightarrow> (u32 \<times> api) option" where
  "otz_decode_uint32 op c =
     (case decoder_ready op c of
        (False, c1) \<Rightarrow> zero_through (c_data (stack_cmd c1)) c1
      | (True, c1) \<Rightarrow> do {
          (s, fd) \<leftarrow> op_device op c1;
          (r, e, c2) \<leftarrow> cmd_call Dec_uint32 fd ((op_cmd op s c1)\<lparr>c_len := 4\<rparr>) c1;
          if r \<noteq> 0 then zero_through (c_data e) (dec_failed op c2)
          else if c_data e = 0 then None
          else Some (read32 (kmem (drv c2)) (c_data e), c2) })"

definition otz_decode_array_space :: "u32 \<Rightarrow> u32 \<Rightarrow> api \<Rightarrow> (u32 \<times> api) option" where
  "otz_decode_array_space op plength c =
     (if plength = 0 then None
      else case decoder_ready op c of
        (False, c1) \<Rightarrow> Some (0, put_word plength 0 c1)
      | (True, c1) \<Rightarrow> do {
          (s, fd) \<leftarrow> op_device op c1;
          (r, e, c2) \<leftarrow> cmd_call Dec_array_space fd (op_cmd op s c1) c1;
          Some (if r \<noteq> 0 then (0, dec_failed op (put_word plength 0 c2)) else (c_data e, put_word plength (c_len e) c2)) })"

definition otz_decode_get_type :: "u32 \<Rightarrow> api \<Rightarrow> (u32 \<times> api) option" where
  "otz_decode_get_type op c =
     (let x = api_operations c op
      in if op = 0 \<or> op_state x \<noteq> OTZ_STATE_DECODE \<or> op_dec_error x \<noteq> OTZ_SUCCESS then Some (OTZ_TYPE_NONE, c)
         else do {
           (s, fd) \<leftarrow> op_device op c;
           (r, e, c1) \<leftarrow> cmd_call Get_decode_type fd (op_cmd op s c) c;
           Some (if r \<noteq> 0 then (OTZ_TYPE_NONE, on_op op (\<lambda>x. x\<lparr>op_errno := errno c1\<rparr>) c1)
                 else (if c_data e = OTZ_ENC_UINT32 then OTZ_TYPE_UINT32
                       else if c_data e = OTZ_ENC_ARRAY \<or> c_data e = OTZ_MEM_REF then OTZ_TYPE_ARRAY else OTZ_TYPE_NONE, c1)) })"

definition otz_decode_get_error :: "u32 \<Rightarrow> api \<Rightarrow> u32 option" where
  "otz_decode_get_error op c = map_option op_dec_error (deref op (api_operations c))"

end
