(* ===== verification/OtzDriverProps.thy ===== *)
theory OtzDriverProps
  imports OtzDriver Fat32Read
begin

text \<open>
  What the driver of the normal world guarantees: the parameters that a client encodes are the
  ones that a service of the secure kernel decodes. And what it does not: commands of a second
  session, references behind other parameters, lengths that wrap, calls that wait.
\<close>

section \<open>Parameters\<close>

text \<open>A parameter that a client passes in: a number or an array in its memory.\<close>

datatype param = Number u32 | Bytes_at u32 nat

fun psize :: "param \<Rightarrow> nat" where
  "psize (Number a) = 4"
| "psize (Bytes_at a n) = n"

fun ptype :: "param \<Rightarrow> u32" where
  "ptype (Number a) = OTZ_ENC_UINT32"
| "ptype (Bytes_at a n) = OTZ_ENC_ARRAY"

fun paddr :: "param \<Rightarrow> u32" where
  "paddr (Number a) = a"
| "paddr (Bytes_at a n) = a"

definition payload :: "mem \<Rightarrow> param \<Rightarrow> u8 list" where
  "payload m p = bytes m (paddr p) (psize p)"

definition psizes :: "param list \<Rightarrow> nat" where
  "psizes ps = sum_list (map psize ps)"

lemma psizes_append [simp]: "psizes [] = 0" "psizes (ps @ [p]) = psizes ps + psize p"
  by (simp_all add: psizes_def)

lemma psizes_take: "i < length ps \<Longrightarrow> psizes (take (Suc i) ps) = psizes (take i ps) + psize (ps ! i)"
  by (simp add: take_Suc_conv_app_nth)

lemma psizes_take_le: "i < length ps \<Longrightarrow> psizes (take i ps) + psize (ps ! i) \<le> psizes ps"
proof -
  assume "i < length ps"
  then have "ps = take i ps @ ps ! i # drop (Suc i) ps" by (simp add: id_take_nth_drop)
  then have "psizes ps = psizes (take i ps @ ps ! i # drop (Suc i) ps)" by simp
  then show ?thesis by (simp add: psizes_def)
qed

text \<open>The buffer at \<open>rq\<close> and the meta data at \<open>mt\<close> hold the parameters \<open>ps\<close>, taken from the memory \<open>m0\<close>.\<close>

definition stream_of :: "param list \<Rightarrow> mem \<Rightarrow> u32 \<Rightarrow> u32 \<Rightarrow> mem \<Rightarrow> bool" where
  "stream_of ps m0 rq mt m \<longleftrightarrow>
     length ps \<le> 12 \<and> psizes ps \<le> 1024 \<and>
     (\<forall>i<length ps. bytes m (rq + of_nat (psizes (take i ps))) (psize (ps ! i)) = payload m0 (ps ! i)) \<and>
     (\<forall>i<length ps. read32 m (mt + 16 * of_nat i) = ptype (ps ! i) \<and> read32 m (mt + 16 * of_nat i + 4) = of_nat (psize (ps ! i))) \<and>
     (\<forall>x. x \<notin> span rq 1024 \<union> span mt 256 \<longrightarrow> m x = m0 x)"

lemma stream_empty: "stream_of [] m rq mt m"
  by (simp add: stream_of_def)

lemma meta_span: "i < 16 \<Longrightarrow> k \<le> 12 \<Longrightarrow> span (mt + 16 * of_nat i + of_nat k) 4 \<subseteq> span mt 256"
  using span_mono [of "16 * i + k" 4 256 mt] by (simp add: add.assoc)

lemma put_meta_off: "i < 16 \<Longrightarrow> x \<notin> span mt 256 \<Longrightarrow> put_meta mt (of_nat i) ty n m x = m x"
proof -
  assume "i < 16" "x \<notin> span mt 256"
  then have "x \<notin> span (mt + 16 * of_nat i) 4" "x \<notin> span (mt + 16 * of_nat i + 4) 4"
    using meta_span [of i 0 mt] meta_span [of i 4 mt] by auto
  then show ?thesis by (simp add: put_meta_def write32_off)
qed

lemma words_apart:
  assumes "k \<noteq> l" "4 dvd k" "4 dvd l" "k < 256" "l < 256"
  shows "3 < (a + of_nat k :: u32) - (a + of_nat l)"
proof (cases "l < k")
  case True
  then have "unat (of_nat (k - l) :: u32) = k - l" using assms by (intro unat_of_nat_lt) simp
  moreover have "4 \<le> k - l" using True assms(2,3) by (intro dvd_imp_le) auto
  ultimately show ?thesis using True by (simp add: word_less_nat_alt of_nat_diff)
next
  case False
  then have "(of_nat (2 ^ 32 - (l - k)) :: u32) = of_nat (2 ^ 32) - of_nat (l - k)" using assms by (intro of_nat_diff) simp
  then have "(of_nat k - of_nat l :: u32) = of_nat (2 ^ 32 - (l - k))" using False by (simp add: of_nat_diff)
  moreover have "unat (of_nat (2 ^ 32 - (l - k)) :: u32) = 2 ^ 32 - (l - k)" using False assms by (intro unat_of_nat_lt) simp
  ultimately show ?thesis using assms(4,5) by (simp add: word_less_nat_alt)
qed

lemma meta_apart:
  assumes "i < 12" "j < 12" "a \<in> {0, 4}" "b \<in> {0, 4}" "i \<noteq> j \<or> a \<noteq> b"
  shows "3 < (mt + 16 * of_nat i + of_nat a) - (mt + 16 * of_nat j + of_nat b :: u32)"
proof -
  have "(16 * i + a) mod 16 = a" "(16 * j + b) mod 16 = b" using assms(3,4) by auto
  then have "16 * i + a = 16 * j + b \<Longrightarrow> a = b" by metis
  then have ne: "16 * i + a \<noteq> 16 * j + b" using assms(5) by auto
  have "4 dvd a" "4 dvd b" using assms(3,4) by auto
  then have dvd: "4 dvd 16 * i + a" "4 dvd 16 * j + b" by simp_all
  have "16 * i + a < 256" "16 * j + b < 256" using assms(1-4) by auto
  from words_apart [OF ne dvd this, of mt] show ?thesis by (simp add: add.assoc)
qed

lemma read_put_meta:
  assumes "i < 12" "j < 12"
  shows "read32 (put_meta mt (of_nat i) ty n m) (mt + 16 * of_nat j) = (if i = j then ty else read32 m (mt + 16 * of_nat j))"
    and "read32 (put_meta mt (of_nat i) ty n m) (mt + 16 * of_nat j + 4) = (if i = j then n else read32 m (mt + 16 * of_nat j + 4))"
proof -
  have other: "read32 (write32 (mt + 16 * of_nat i + of_nat a) v m') (mt + 16 * of_nat j + of_nat b) = read32 m' (mt + 16 * of_nat j + of_nat b)"
    if "a \<in> {0, 4}" "b \<in> {0, 4}" "i \<noteq> j \<or> a \<noteq> b" for a b v m'
    using that assms by (intro read_write_other meta_apart) auto
  show "read32 (put_meta mt (of_nat i) ty n m) (mt + 16 * of_nat j) = (if i = j then ty else read32 m (mt + 16 * of_nat j))"
    using other [of 0 0] other [of 4 0] by (cases "i = j") (simp_all add: put_meta_def read_write_same)
  show "read32 (put_meta mt (of_nat i) ty n m) (mt + 16 * of_nat j + 4) = (if i = j then n else read32 m (mt + 16 * of_nat j + 4))"
    using other [of 0 4] other [of 4 4] by (cases "i = j") (simp_all add: put_meta_def read_write_same)
qed

lemma stream_add:
  assumes S: "stream_of ps m0 rq mt m" and room: "length ps < 12" "psizes ps + psize p \<le> 1024"
    and apart: "span rq 1024 \<inter> span mt 256 = {}"
    and new: "bytes m1 (rq + of_nat (psizes ps)) (psize p) = payload m0 p"
    and keep: "\<And>x. x \<notin> span (rq + of_nat (psizes ps)) (psize p) \<Longrightarrow> m1 x = m x"
  shows "stream_of (ps @ [p]) m0 rq mt (put_meta mt (of_nat (length ps)) (ptype p) (of_nat (psize p)) m1)"
proof -
  note H = S [unfolded stream_of_def]
  let ?n = "length ps" and ?q = "ps @ [p]" let ?m = "put_meta mt (of_nat ?n) (ptype p) (of_nat (psize p)) m1"
  have n: "?n < 16" using room(1) by simp
  have in_buf: "span (rq + of_nat (psizes ps)) (psize p) \<subseteq> span rq 1024" using room(2) by (rule span_mono)
  have off: "x \<in> span rq 1024 \<Longrightarrow> ?m x = m1 x" for x using put_meta_off [OF n] apart by blast
  have bytes: "bytes ?m (rq + of_nat (psizes (take i ?q))) (psize (?q ! i)) = payload m0 (?q ! i)" if i: "i < length ?q" for i
  proof (cases "i = ?n")
    case True
    have "bytes ?m (rq + of_nat (psizes ps)) (psize p) = bytes m1 (rq + of_nat (psizes ps)) (psize p)"
      using in_buf off by (intro bytes_cong) blast
    then show ?thesis using True new by simp
  next
    case False
    then have i': "i < ?n" using i by simp
    then have le: "psizes (take i ps) + psize (ps ! i) \<le> psizes ps" by (rule psizes_take_le)
    let ?a = "rq + of_nat (psizes (take i ps))"
    have "span ?a (psize (ps ! i)) \<subseteq> span rq (psizes ps)" using le by (rule span_mono)
    moreover have "span rq (psizes ps) \<inter> span (rq + of_nat (psizes ps)) (psize p) = {}" using room(2) by (intro span_split) simp
    moreover have "span rq (psizes ps) \<subseteq> span rq 1024" using span_mono [of 0 "psizes ps" 1024 rq] room(2) by simp
    ultimately have "x \<in> span rq 1024 \<and> x \<notin> span (rq + of_nat (psizes ps)) (psize p)" if "x \<in> span ?a (psize (ps ! i))" for x
      using that by blast
    then have "bytes ?m ?a (psize (ps ! i)) = bytes m ?a (psize (ps ! i))" using off keep by (intro bytes_cong) simp
    then show ?thesis using H i' by (simp add: nth_append)
  qed
  have away: "x \<in> span mt 256 \<Longrightarrow> m1 x = m x" for x using in_buf apart keep by blast
  have meta_kept: "read32 m1 (mt + 16 * of_nat i) = read32 m (mt + 16 * of_nat i)"
    "read32 m1 (mt + 16 * of_nat i + 4) = read32 m (mt + 16 * of_nat i + 4)" if "i < 12" for i
    using that meta_span [of i 0 mt] meta_span [of i 4 mt] away by (auto intro!: read32_cong)
  have "read32 ?m (mt + 16 * of_nat i) = ptype (?q ! i) \<and> read32 ?m (mt + 16 * of_nat i + 4) = of_nat (psize (?q ! i))"
    if "i < length ?q" for i
    using that room(1) H meta_kept [of i] read_put_meta [of ?n i mt "ptype p" "of_nat (psize p)" m1]
    by (cases "i = ?n") (auto simp: nth_append)
  moreover have "?m x = m0 x" if "x \<notin> span rq 1024 \<union> span mt 256" for x
    using that put_meta_off [OF n, of x mt] keep [of x] in_buf H by auto
  ultimately show ?thesis using room bytes unfolding stream_of_def by simp
qed

section \<open>Contexts\<close>

lemma find_upd_first: "find P xs = Some x \<Longrightarrow> P (f x) \<Longrightarrow> find P (upd_first P f xs) = Some (f x)"
  by (induction xs) (auto split: if_splits)

lemma find_last: "\<forall>x\<in>set xs. \<not> P x \<Longrightarrow> P y \<Longrightarrow> find P (xs @ [y]) = Some y"
  by (induction xs) auto

lemma find_on_service:
  assumes "find_service dev svc s = Some v" "svc_id (g v) = svc_id v"
  shows "find_service dev svc (on_service dev svc g s) = Some (g v)"
proof -
  let ?h = "\<lambda>d. d\<lparr>services_list := upd_first (\<lambda>v. svc_id v = svc) g (services_list d)\<rparr>"
  obtain d where d: "find (\<lambda>d. file_id d = dev) (dev_file_list s) = Some d" "find (\<lambda>v. svc_id v = svc) (services_list d) = Some v"
    using assms(1) by (auto simp: find_service_def find_file_def bind_eq_Some_conv)
  have ids: "file_id d = dev" "svc_id v = svc" using d by (auto simp: find_Some_iff)
  have "find (\<lambda>d. file_id d = dev) (upd_first (\<lambda>d. file_id d = dev) ?h (dev_file_list s)) = Some (?h d)"
    using d ids by (intro find_upd_first) simp_all
  moreover have "find (\<lambda>v. svc_id v = svc) (upd_first (\<lambda>v. svc_id v = svc) g (services_list d)) = Some (g v)"
    using d ids assms(2) by (intro find_upd_first) simp_all
  ultimately show ?thesis by (simp add: find_service_def find_file_def on_service_def on_file_def)
qed

lemma find_on_session:
  assumes "find_session dev svc ses s = Some x" "session_id (f x) = session_id x"
  shows "find_session dev svc ses (on_session dev svc ses f s) = Some (f x)"
proof -
  obtain v where v: "find_service dev svc s = Some v" "find (\<lambda>x. session_id x = ses) (sessions_list v) = Some x"
    using assms(1) by (auto simp: find_session_def bind_eq_Some_conv)
  then have "session_id x = ses" by (auto simp: find_Some_iff)
  then have "find (\<lambda>x. session_id x = ses) (upd_first (\<lambda>x. session_id x = ses) f (sessions_list v)) = Some (f x)"
    using v(2) assms(2) by (intro find_upd_first) simp_all
  then show ?thesis using find_on_service [OF v(1)] by (simp add: find_session_def on_session_def)
qed

lemma find_session_cong: "dev_file_list s' = dev_file_list s \<Longrightarrow> find_session dev svc ses s' = find_session dev svc ses s"
  by (simp add: find_session_def find_service_def find_file_def)

abbreviation context_of :: "u32 \<Rightarrow> otz_client_encode_cmd \<Rightarrow> driver \<Rightarrow> drv_encode option" where
  "context_of \<equiv> otz_client_prepare_decode"

lemma context_cong:
  "dev_file_list s' = dev_file_list s \<Longrightarrow> context_of dev c s' = context_of dev c s"
  by (simp add: otz_client_prepare_decode_def find_session_cong [of s' s])

lemma context_known:
  assumes "context_of dev c s = Some e"
  shows "otz_client_prepare_encode dev c s = (0, c, Some e, s)" "encode_id e = c_encode_id c"
proof -
  obtain x where x: "find_session dev (c_service_id c) (c_session_id c) s = Some x" "find_encode (c_encode_id c) x = Some e"
    using assms by (auto simp: otz_client_prepare_decode_def bind_eq_Some_conv)
  then show "otz_client_prepare_encode dev c s = (0, c, Some e, s)" by (simp add: otz_client_prepare_encode_def)
  show "encode_id e = c_encode_id c" using x(2) by (auto simp: find_encode_def find_Some_iff split: if_splits)
qed

text \<open>The context that a call changed is found again.\<close>

lemma finish_call_context:
  assumes "context_of dev c s = Some e" "encode_id e' = c_encode_id c" "c_service_id enc = c_service_id c" "c_session_id enc = c_session_id c"
    and "finish_call dev usr (0, enc, e', True, s) = (0, enc', s')"
  shows "enc' = enc \<and> context_of dev c s' = Some e' \<and> kmem s' = kmem s \<and> kblocks s' = kblocks s"
proof -
  let ?f = "\<lambda>x. x\<lparr>encode_list := upd_first (\<lambda>e. encode_id e = c_encode_id c) (\<lambda>_. e') (encode_list x)\<rparr>"
  obtain x where x: "find_session dev (c_service_id c) (c_session_id c) s = Some x" "find_encode (c_encode_id c) x = Some e"
    using assms(1) by (auto simp: otz_client_prepare_decode_def bind_eq_Some_conv)
  let ?s = "on_session dev (c_service_id c) (c_session_id c) ?f s"
  have "find_session dev (c_service_id c) (c_session_id c) ?s = Some (?f x)" using x(1) by (rule find_on_session) simp
  moreover have "find_encode (c_encode_id c) (?f x) = Some e'"
    using x(2) assms(2) find_upd_first [of "\<lambda>e. encode_id e = c_encode_id c" "encode_list x" e "\<lambda>_. e'"]
    by (auto simp: find_encode_def split: if_splits)
  ultimately have "context_of dev c ?s = Some e'" by (simp add: otz_client_prepare_decode_def)
  moreover have "enc' = enc" "dev_file_list s' = dev_file_list ?s" "kmem s' = kmem s" "kblocks s' = kblocks s"
    using assms(2-5)
    by (auto simp: finish_call_def errnos on_encode_def copy_works_def on_session_def on_service_def on_file_def Let_def split: list.splits if_splits prod.splits)
  ultimately show ?thesis using context_cong [of s' ?s dev c] by simp
qed

section \<open>Encoding\<close>

text \<open>The context \<open>e\<close> holds the parameters \<open>ps\<close>; the first one allocates the buffer.\<close>

definition encoding :: "param list \<Rightarrow> mem \<Rightarrow> u32 \<Rightarrow> u32 \<Rightarrow> drv_encode \<Rightarrow> driver \<Rightarrow> bool" where
  "encoding ps m0 rq mt e s \<longleftrightarrow>
     meta e = mt \<and> k_req_pos e = of_nat (length ps) \<and> k_req_offset e = of_nat (psizes ps) \<and> stream_of ps m0 rq mt (kmem s) \<and> rq \<noteq> 0 \<and>
     span rq 1024 \<inter> span mt 256 = {} \<and> (ker_req_data_addr e = rq \<or> ker_req_data_addr e = 0 \<and> ps = [] \<and> (\<exists>bs. kblocks s = rq # bs))"

definition clear_of_driver :: "u32 \<Rightarrow> u32 \<Rightarrow> param \<Rightarrow> bool" where
  "clear_of_driver rq mt p \<longleftrightarrow> psize p \<le> 1024 \<and> span (paddr p) (psize p) \<inter> (span rq 1024 \<union> span mt 256) = {}"

lemma encoding_buffer:
  assumes "encoding ps m0 rq mt e s" "req_buffer e s = (e1, s1)"
  shows "e1 = e\<lparr>ker_req_data_addr := rq\<rparr>" "kmem s1 = kmem s" "dev_file_list s1 = dev_file_list s"
  using assms by (auto simp: encoding_def req_buffer_def kmalloc_def split: if_splits)

lemma encoding_room:
  assumes "encoding ps m0 rq mt e s" "room_req (e\<lparr>ker_req_data_addr := rq\<rparr>) (of_nat n)" "n \<le> 1024"
  shows "length ps < 12" "psizes ps + n \<le> 1024"
proof -
  have H: "length ps \<le> 12" "psizes ps \<le> 1024" "k_req_pos e = of_nat (length ps)" "k_req_offset e = of_nat (psizes ps)"
    using assms(1) by (simp_all add: encoding_def stream_of_def)
  have "unat (of_nat (length ps) :: u32) = length ps" using H(1) by (intro unat_of_nat_lt) simp
  then show "length ps < 12" using assms(2) H(3) by (simp add: room_req_def OTZ_MAX_REQ_PARAMS_def word_less_nat_alt)
  have "unat (of_nat (psizes ps + n) :: u32) = psizes ps + n" using H(2) assms(3) by (intro unat_of_nat_lt) simp
  then show "psizes ps + n \<le> 1024" using assms(2) H(4) by (simp add: room_req_def OTZ_1K_SIZE_def word_le_nat_alt)
qed

lemma encoding_next:
  assumes E: "encoding ps m0 rq mt e s" and room: "length ps < 12" "psizes ps + psize p \<le> 1024" and clear: "clear_of_driver rq mt p"
    and s': "kmem s' = put_meta mt (of_nat (length ps)) (ptype p) (of_nat (psize p)) (copied (psize p) (rq + of_nat (psizes ps)) (paddr p) (kmem s))"
  shows "encoding (ps @ [p]) m0 rq mt (next_req (of_nat (psize p)) (e\<lparr>ker_req_data_addr := rq\<rparr>)) s'"
proof -
  note H = E [unfolded encoding_def]
  let ?m1 = "copied (psize p) (rq + of_nat (psizes ps)) (paddr p) (kmem s)"
  have "bytes ?m1 (rq + of_nat (psizes ps)) (psize p) = bytes (kmem s) (paddr p) (psize p)"
    using clear by (intro copied_bytes) (simp add: clear_of_driver_def)
  also have "\<dots> = payload m0 p"
    using clear H unfolding payload_def clear_of_driver_def stream_of_def by (intro bytes_cong) blast
  finally have "stream_of (ps @ [p]) m0 rq mt (kmem s')"
    using H room copied_off unfolding s' by (intro stream_add [of ps m0 rq mt "kmem s"]) auto
  then show ?thesis using H by (simp add: encoding_def next_req_def)
qed

lemma step_adds:
  assumes E: "encoding ps m0 rq mt e s" and clear: "clear_of_driver rq mt p" and param: "c_param_type c = OTZC_PARAM_IN" "c_data c = paddr p"
    and step: "p = Number (paddr p) \<and> uint32_step c e s = Some (0, c', e', out, s') \<or>
      p = Bytes_at (paddr p) (psize p) \<and> c_len c = of_nat (psize p) \<and> array_step c e s = Some (0, c', e', out, s')"
  shows "c' = c \<and> out \<and> encode_id e' = encode_id e \<and> dev_file_list s' = dev_file_list s \<and> encoding (ps @ [p]) m0 rq mt e' s'"
proof -
  obtain e1 s1 where b: "req_buffer e s = (e1, s1)" by fastforce
  note B = encoding_buffer [OF E b]
  have rq: "rq \<noteq> 0" "meta e = mt" "k_req_offset e = of_nat (psizes ps)" "k_req_pos e = of_nat (length ps)" using E by (simp_all add: encoding_def)
  have le: "psize p \<le> 1024" using clear by (simp add: clear_of_driver_def)
  have err: "- ENOMEM \<noteq> 0" "- EFAULT \<noteq> 0" by (simp_all add: errnos)
  let ?e = "e\<lparr>ker_req_data_addr := rq\<rparr>" and ?n = "psize p"
  let ?m = "put_meta mt (of_nat (length ps)) (ptype p) (of_nat ?n) (copied ?n (rq + of_nat (psizes ps)) (paddr p) (kmem s))"
  have "room_req ?e (of_nat ?n) \<and> c' = c \<and> out \<and> e' = next_req (of_nat ?n) ?e \<and> kmem s' = ?m \<and> dev_file_list s' = dev_file_list s"
    using step
  proof
    assume "p = Number (paddr p) \<and> uint32_step c e s = Some (0, c', e', out, s')"
    then have p: "p = Number (paddr p)" "uint32_step c e s = Some (0, c', e', out, s')" by auto
    have ty: "ptype p = OTZ_ENC_UINT32" "psize p = 4" by (subst p(1), simp)+
    show ?thesis
      using p(2) b B rq param err unfolding ty
      by (auto simp: uint32_step_def on_kmem_def write32_copied split: if_splits)
  next
    assume "p = Bytes_at (paddr p) (psize p) \<and> c_len c = of_nat (psize p) \<and> array_step c e s = Some (0, c', e', out, s')"
    then have p: "p = Bytes_at (paddr p) (psize p)" "c_len c = of_nat (psize p)" "array_step c e s = Some (0, c', e', out, s')" by auto
    have ty: "ptype p = OTZ_ENC_ARRAY" by (subst p(1), simp)
    have "unat (of_nat ?n :: u32) = ?n" using le by (intro unat_of_nat_lt) simp
    then show ?thesis
      using p(2,3) b B rq param err unfolding ty
      by (auto simp: array_step_def on_kmem_def copy_works_def split: if_splits list.splits)
  qed
  then have r: "room_req ?e (of_nat ?n)" "c' = c" "out" "e' = next_req (of_nat ?n) ?e" "kmem s' = ?m" "dev_file_list s' = dev_file_list s" by auto
  have "encoding (ps @ [p]) m0 rq mt e' s'" unfolding r(4) by (rule encoding_next [OF E encoding_room [OF E r(1) le] clear r(5)])
  then show ?thesis using r by (simp add: next_req_def)
qed

text \<open>The context for the next call: the one there is, or a new one.\<close>

definition prepares :: "u32 \<Rightarrow> otz_client_encode_cmd \<Rightarrow> driver \<Rightarrow> param list \<Rightarrow> mem \<Rightarrow> u32 \<Rightarrow> u32 \<Rightarrow> bool" where
  "prepares dev c s ps m0 rq mt \<longleftrightarrow>
     (\<exists>i e s0. otz_client_prepare_encode dev c s = (0, c\<lparr>c_encode_id := i\<rparr>, Some e, s0) \<and>
        context_of dev (c\<lparr>c_encode_id := i\<rparr>) s0 = Some e \<and> encoding ps m0 rq mt e s0)"

definition same_driver :: "driver \<Rightarrow> driver \<Rightarrow> bool" where
  "same_driver s s' \<longleftrightarrow> dev_file_list s' = dev_file_list s \<and> kmem s' = kmem s \<and> kblocks s' = kblocks s"

lemma encode_call_adds:
  assumes call: "encode_call step dev c s = Some (0, c1, s1)" and prep: "\<And>s'. same_driver s s' \<Longrightarrow> prepares dev c s' ps m0 rq mt"
    and clear: "clear_of_driver rq mt p" and param: "c_param_type c = OTZC_PARAM_IN" "c_data c = paddr p"
    and which: "p = Number (paddr p) \<and> step = uint32_step \<or> p = Bytes_at (paddr p) (psize p) \<and> c_len c = of_nat (psize p) \<and> step = array_step"
  shows "\<exists>e1. context_of dev c1 s1 = Some e1 \<and> encoding (ps @ [p]) m0 rq mt e1 s1"
proof -
  obtain sa where sa: "copy_works s = (True, sa)" "same_driver s sa"
    using call by (auto simp: encode_call_def copy_works_def same_driver_def errnos split: list.splits if_splits prod.splits)
  obtain i e s0 where P: "otz_client_prepare_encode dev c sa = (0, c\<lparr>c_encode_id := i\<rparr>, Some e, s0)"
    "context_of dev (c\<lparr>c_encode_id := i\<rparr>) s0 = Some e" "encoding ps m0 rq mt e s0"
    using prep [OF sa(2)] unfolding prepares_def by blast
  let ?c = "c\<lparr>c_encode_id := i\<rparr>"
  obtain r c2 e2 out s2 where st: "step ?c e s0 = Some (r, c2, e2, out, s2)" "finish_call dev c (r, c2, e2, out, s2) = (0, c1, s1)"
    using call sa(1) P(1) by (auto simp: encode_call_def Let_def)
  have r: "r = 0" using st(2) by (auto simp: finish_call_def errnos Let_def split: if_splits prod.splits)
  have "p = Number (paddr p) \<and> uint32_step ?c e s0 = Some (0, c2, e2, out, s2) \<or>
      p = Bytes_at (paddr p) (psize p) \<and> c_len ?c = of_nat (psize p) \<and> array_step ?c e s0 = Some (0, c2, e2, out, s2)"
    using which st(1) r by auto
  from step_adds [OF P(3) clear _ _ this] param
  have A: "c2 = ?c" "out" "encode_id e2 = encode_id e" "dev_file_list s2 = dev_file_list s0" "encoding (ps @ [p]) m0 rq mt e2 s2" by auto
  have "context_of dev ?c s2 = Some e" using P(2) A(4) context_cong by metis
  moreover have "encode_id e2 = c_encode_id ?c" using A(3) context_known(2) [OF P(2)] by simp
  ultimately have F: "c1 = ?c" "context_of dev ?c s1 = Some e2" "kmem s1 = kmem s2" "kblocks s1 = kblocks s2"
    using finish_call_context [of dev ?c s2 e e2 ?c c c1 s1] st(2) A(1,2) r by auto
  have "encoding (ps @ [p]) m0 rq mt e2 s1" using A(5) F(3,4) by (simp add: encoding_def)
  then show ?thesis using F(1,2) by blast
qed

lemma prepares_cong:
  "c_service_id c' = c_service_id c \<Longrightarrow> c_session_id c' = c_session_id c \<Longrightarrow> c_encode_id c' = c_encode_id c \<Longrightarrow>
    prepares dev c s ps m0 rq mt \<Longrightarrow> prepares dev c' s ps m0 rq mt"
proof -
  assume c: "c_service_id c' = c_service_id c" "c_session_id c' = c_session_id c" "c_encode_id c' = c_encode_id c"
    and "prepares dev c s ps m0 rq mt"
  then obtain i e s0 where P: "otz_client_prepare_encode dev c s = (0, c\<lparr>c_encode_id := i\<rparr>, Some e, s0)"
    "context_of dev (c\<lparr>c_encode_id := i\<rparr>) s0 = Some e" "encoding ps m0 rq mt e s0" unfolding prepares_def by blast
  have "otz_client_prepare_encode dev c' s = (0, c'\<lparr>c_encode_id := i\<rparr>, Some e, s0)"
    using P(1) c by (cases c; cases c') (auto simp: otz_client_prepare_encode_def Let_def split: option.splits if_splits prod.splits)
  moreover have "context_of dev (c'\<lparr>c_encode_id := i\<rparr>) s0 = Some e" using P(2) c by (simp add: otz_client_prepare_decode_def)
  ultimately show ?thesis using P(3) unfolding prepares_def by blast
qed

lemma known_prepares:
  assumes "context_of dev c s = Some e" "encoding ps m0 rq mt e s" "same_driver s s'"
  shows "prepares dev c s' ps m0 rq mt"
proof -
  have c: "context_of dev c s' = Some e" using assms(1,3) context_cong by (metis same_driver_def)
  have "encoding ps m0 rq mt e s'" using assms(2,3) by (simp add: encoding_def same_driver_def)
  moreover have "c\<lparr>c_encode_id := c_encode_id c\<rparr> = c" by simp
  ultimately show ?thesis unfolding prepares_def using context_known(1) [OF c] c by metis
qed

lemma new_prepares:
  assumes "find_session dev (c_service_id c) (c_session_id c) s = Some x" "c_encode_id c = - 1" "\<forall>e\<in>set (encode_list x). encode_id e \<noteq> a"
    and "kblocks s = a # mt # rq # bs" "a \<noteq> 0" "a \<noteq> - 1" "mt \<noteq> 0" "rq \<noteq> 0" "span rq 1024 \<inter> span mt 256 = {}" "same_driver s s'"
  shows "prepares dev c s' [] (kmem s) rq mt"
proof -
  let ?e = "\<lparr>encode_id = a, ker_req_data_addr = 0, ker_res_data_addr = 0, k_req_offset = 0, k_res_offset = 0, k_req_pos = 0,
    k_res_pos = OTZ_MAX_REQ_PARAMS, dec_res_pos = OTZ_MAX_REQ_PARAMS, dec_offset = 0, send_wait_flag = False, meta = mt\<rparr>"
  let ?f = "\<lambda>x. x\<lparr>encode_list := encode_list x @ [?e]\<rparr>" and ?s2 = "s'\<lparr>kblocks := rq # bs\<rparr>"
  let ?s3 = "on_session dev (c_service_id c) (c_session_id c) ?f ?s2"
  have same: "dev_file_list s' = dev_file_list s" "kmem s' = kmem s" "kblocks s' = a # mt # rq # bs" using assms(4,10) by (simp_all add: same_driver_def)
  have x: "find_session dev (c_service_id c) (c_session_id c) ?s2 = Some x" using assms(1) same(1) find_session_cong [of ?s2 s] by simp
  have x': "find_session dev (c_service_id c) (c_session_id c) s' = Some x" using assms(1) same(1) find_session_cong [of s' s] by simp
  have "find_encode (- 1) x = None" by (simp add: find_encode_def)
  then have "otz_client_prepare_encode dev c s' = (0, c\<lparr>c_encode_id := a\<rparr>, Some ?e, ?s3)"
    using x' assms(2,5,7) same(3) by (simp add: otz_client_prepare_encode_def kmalloc_def Let_def)
  moreover have "find_encode a (?f x) = Some ?e"
    using assms(3,6) find_last [of "encode_list x" "\<lambda>e. encode_id e = a"] by (simp add: find_encode_def)
  then have "context_of dev (c\<lparr>c_encode_id := a\<rparr>) ?s3 = Some ?e"
    using find_on_session [OF x, of ?f] by (simp add: otz_client_prepare_decode_def)
  moreover have "kmem ?s3 = kmem s" "kblocks ?s3 = rq # bs" using same(2) by (simp_all add: on_session_def on_service_def on_file_def)
  then have "encoding [] (kmem s) rq mt ?e ?s3" using assms(8,9) stream_empty by (simp add: encoding_def)
  ultimately show ?thesis unfolding prepares_def by blast
qed

lemma bytes_window:
  assumes "\<And>j. j < N \<Longrightarrow> m (a + of_nat j) = m' (b + of_nat j)" "k + n \<le> N"
  shows "bytes m (a + of_nat k) n = bytes m' (b + of_nat k) n"
  using assms(1) [of "k + j" for j] assms(2) by (intro nth_equalityI) (simp_all add: add.assoc)

lemma read32_window:
  assumes "\<And>j. j < N \<Longrightarrow> m (a + of_nat j) = m' (b + of_nat j)" "k + 4 \<le> N"
  shows "read32 m (a + of_nat k) = read32 m' (b + of_nat k)"
  using assms(1) [of k] assms(1) [of "k + 1"] assms(1) [of "k + 2"] assms(1) [of "k + 3"] assms(2)
  by (simp add: read32_def ac_simps)

text \<open>What a service decodes, wherever the kernel has mapped the buffer and the meta data.\<close>

lemma encoding_decoded:
  assumes E: "encoding ps m0 rq mt e s'"
    and mapped: "\<forall>j<1024. m (data + of_nat j) = kmem s' (rq + of_nat j)" "\<forall>j<256. m (md + of_nat j) = kmem s' (mt + of_nat j)"
    and i: "i < length ps"
  shows "decode_data (read32 m) data (meta_at m md) (of_nat (psizes (take i ps))) (of_nat i) pt =
      Inr (Some \<lparr>d_type = ptype (ps ! i), d_offset = of_nat (psizes (take (Suc i) ps)), d_pos = of_nat (Suc i), d_mapped = False,
        d_data = data + of_nat (psizes (take i ps)), d_len = of_nat (psize (ps ! i))\<rparr>, pt) \<and>
    bytes m (data + of_nat (psizes (take i ps))) (psize (ps ! i)) = payload m0 (ps ! i)"
proof -
  have S: "stream_of ps m0 rq mt (kmem s')" using E by (simp add: encoding_def)
  note H = S [unfolded stream_of_def]
  have i12: "i < 12" using i H by simp
  have le: "psizes (take i ps) + psize (ps ! i) \<le> 1024" using psizes_take_le [OF i] H by simp
  have "bytes m (data + of_nat (psizes (take i ps))) (psize (ps ! i)) = bytes (kmem s') (rq + of_nat (psizes (take i ps))) (psize (ps ! i))"
    using mapped(1) le by (intro bytes_window) auto
  then have content: "bytes m (data + of_nat (psizes (take i ps))) (psize (ps ! i)) = payload m0 (ps ! i)" using H i by simp
  have "read32 m (md + of_nat (16 * i)) = read32 (kmem s') (mt + of_nat (16 * i))"
    "read32 m (md + of_nat (16 * i + 4)) = read32 (kmem s') (mt + of_nat (16 * i + 4))"
    using mapped(2) i12 by (intro read32_window [of 256]; simp)+
  then have md: "read32 m (md + 16 * of_nat i) = ptype (ps ! i)" "read32 m (md + 16 * of_nat i + 4) = of_nat (psize (ps ! i))"
    using H i by (simp_all add: ac_simps)
  have "unat (of_nat i :: u32) = i" using i12 by (intro unat_of_nat_lt) simp
  then have "m_type (meta_at m md (unat (of_nat i :: u32))) = ptype (ps ! i)" "m_len (meta_at m md (unat (of_nat i :: u32))) = of_nat (psize (ps ! i))"
    using md by (simp_all add: meta_at_def Let_def)
  moreover have "ptype (ps ! i) = OTZ_ENC_UINT32 \<and> psize (ps ! i) = 4 \<or> ptype (ps ! i) = OTZ_ENC_ARRAY" by (cases "ps ! i") auto
  ultimately have "decode_data (read32 m) data (meta_at m md) (of_nat (psizes (take i ps))) (of_nat i) pt =
      Inr (Some \<lparr>d_type = ptype (ps ! i), d_offset = of_nat (psizes (take (Suc i) ps)), d_pos = of_nat (Suc i), d_mapped = False,
        d_data = data + of_nat (psizes (take i ps)), d_len = of_nat (psize (ps ! i))\<rparr>, pt)"
    by (auto simp: decode_data_def psizes_take [OF i] enc_consts)
  then show ?thesis using content by blast
qed

text \<open>A device file with one session of the echo service, and a client's data.\<close>

definition sample_client :: "otzc_session list \<Rightarrow> driver" where
  "sample_client xs =
     \<lparr>dev_file_list = [\<lparr>file_id = 1, service_cnt = 1, services_list = [\<lparr>svc_id = OTZ_SVC_ECHO, sessions_list = xs, svc_block = 0x4000\<rparr>],
        dev_shared_mem = [\<lparr>mem_index = 0x9000, k_addr = 0xA000, u_addr = 0x9000, mem_len = 0x1000, mem_block = 0x4100\<rparr>],
        shared_mem_cnt = 1, file_block = 0x4200\<rparr>],
      dev_file_cnt = 1, device_file_cnt = 1, drv_notify = 0x4300, smc_cmd_ptr = 0, kmem = (\<lambda>x. ucast x),
      kblocks = [0x5000, 0x6000, 0x7000, 0x8000], kfreed = [], page_blocks = [], pages_freed = [], copy_faults = [], signals = [],
      replies = [], virt_to_phys = (\<lambda>x. x + 0x100000), tgid = 9, local_svc = 0x4400\<rparr>"

definition sample_session :: otzc_session where
  "sample_session = \<lparr>session_id = 7, encode_list = [], shared_mem_list = [], ses_block = 0x4500\<rparr>"

definition sample_cmd :: otz_client_encode_cmd where
  "sample_cmd = \<lparr>c_len = 0, c_data = 0, c_offset = 0, c_param_type = 0, c_encode_id = - 1, c_service_id = OTZ_SVC_ECHO,
     c_session_id = 7, c_cmd_id = 1\<rparr>"

lemmas driver_evals = sample_client_def sample_session_def sample_cmd_def encode_call_def copy_works_def otz_client_prepare_encode_def
  find_session_def find_service_def find_file_def find_encode_def kmalloc_def on_encode_def on_session_def on_service_def on_file_def
  finish_call_def req_buffer_def room_req_def next_req_def on_kmem_def OTZC_PARAM_IN_def OTZ_1K_SIZE_def OTZ_MAX_REQ_PARAMS_def Let_def

section \<open>A second session\<close>

lemma smc_call_lists: "otz_smc_call None dev svc cmd ctx enc req n resp k m s = (r, s') \<Longrightarrow> dev_file_list s' = dev_file_list s"
  by (auto simp: otz_smc_call_def smc_begin_def smc_resume_def smc_end_def smc_def fill_cmd_def on_kmem_def kfree_def kmalloc_def Let_def
      split: list.splits prod.splits option.splits if_splits)

lemma session_open_appends:
  assumes "otz_client_session_open dev q s = (0, q', s')"
  shows "\<exists>a s2. s' = on_service dev (ss_service q)
      (\<lambda>v. v\<lparr>sessions_list := sessions_list v @ [\<lparr>session_id = ss_session q', encode_list = [], shared_mem_list = [], ses_block = a\<rparr>]\<rparr>) s2 \<and>
    dev_file_list s2 = dev_file_list s"
  using assms
  by (auto simp: otz_client_session_open_def copy_works_def kmalloc_def on_kmem_def Let_def errnos SMC_SUCCESS_def
      split: list.splits if_splits prod.splits) (intro exI conjI, rule refl, drule smc_call_lists, simp)+

text \<open>The numbers of the sessions of a service, in the order of its list.\<close>

definition session_ids :: "u32 \<Rightarrow> u32 \<Rightarrow> driver \<Rightarrow> u32 list" where
  "session_ids dev svc s = (case find_service dev svc s of None \<Rightarrow> [] | Some v \<Rightarrow> map session_id (sessions_list v))"

lemma session_ids_cong: "dev_file_list s' = dev_file_list s \<Longrightarrow> session_ids dev svc s' = session_ids dev svc s"
  by (simp add: session_ids_def find_service_def find_file_def)

lemma ids_upd_first: "(\<And>x. session_id (f x) = session_id x) \<Longrightarrow> map session_id (upd_first P f xs) = map session_id xs"
  by (induction xs) auto

lemma session_ids_on_session:
  assumes "\<And>x. session_id (f x) = session_id x"
  shows "find_service dev svc s = Some v \<Longrightarrow> session_ids dev svc (on_session dev svc ses f s) = session_ids dev svc s"
  using find_on_service [of dev svc s v] ids_upd_first [OF assms] by (simp add: session_ids_def on_session_def)

lemma service_on_session:
  "find_service dev svc s = Some v \<Longrightarrow> \<exists>v'. find_service dev svc (on_session dev svc ses f s) = Some v'"
  using find_on_service [of dev svc s v] by (simp add: on_session_def)

text \<open>A command is refused unless its session is the first one of the service.\<close>

lemma only_first_session_sends:
  assumes "session_ids dev (c_service_id c) t = i # is" "c_session_id c \<noteq> i"
  shows "\<exists>r. r \<noteq> 0 \<and> otz_client_send_cmd dev c t = (r, c, snd (copy_works t))"
proof -
  obtain v x xs where v: "find_service dev (c_service_id c) t = Some v" "sessions_list v = x # xs" "session_id x = i"
    using assms(1) by (auto simp: session_ids_def split: option.splits)
  have "find_service dev (c_service_id c) (snd (copy_works t)) = Some v"
    using v(1) by (simp add: copy_works_def find_service_def find_file_def split: list.splits)
  then show ?thesis using v(2,3) assms(2) by (cases "copy_works t") (auto simp: otz_client_send_cmd_def send_context_def errnos Let_def)
qed

lemma opened_session:
  assumes "find_service dev (ss_service q) s = Some v" "ss_session q' \<notin> session_id ` set (sessions_list v)"
    and "otz_client_session_open dev q s = (0, q', s')"
  shows "\<exists>y. find_session dev (ss_service q) (ss_session q') s' = Some y \<and> encode_list y = []"
    and "\<exists>v'. find_service dev (ss_service q) s' = Some v'"
    and "session_ids dev (ss_service q) s' = map session_id (sessions_list v) @ [ss_session q']"
proof -
  let ?svc = "ss_service q"
  obtain s2 a where o: "s' = on_service dev ?svc
      (\<lambda>v. v\<lparr>sessions_list := sessions_list v @ [\<lparr>session_id = ss_session q', encode_list = [], shared_mem_list = [], ses_block = a\<rparr>]\<rparr>) s2"
    "dev_file_list s2 = dev_file_list s"
    using session_open_appends [OF assms(3)] by blast
  let ?y = "\<lparr>session_id = ss_session q', encode_list = [], shared_mem_list = [], ses_block = a\<rparr>"
  have "find_service dev ?svc s2 = Some v" using assms(1) o(2) by (simp add: find_service_def find_file_def)
  then have v: "find_service dev ?svc s' = Some (v\<lparr>sessions_list := sessions_list v @ [?y]\<rparr>)"
    using find_on_service [of dev ?svc s2 v] o(1) by simp
  moreover have "find (\<lambda>x. session_id x = ss_session q') (sessions_list v @ [?y]) = Some ?y"
    using assms(2) by (intro find_last) (auto simp: image_iff)
  ultimately show "\<exists>y. find_session dev ?svc (ss_session q') s' = Some y \<and> encode_list y = []"
    by (simp add: find_session_def)
  show "\<exists>v'. find_service dev ?svc s' = Some v'" "session_ids dev ?svc s' = map session_id (sessions_list v) @ [ss_session q']"
    using v by (simp_all add: session_ids_def)
qed

text \<open>Three blocks, for a context, its meta data and its buffer, which the number at \<open>n\<close> does not lie in.\<close>

definition room_to_encode :: "u32 \<Rightarrow> u32 \<Rightarrow> u32 \<Rightarrow> u32 \<Rightarrow> driver \<Rightarrow> bool" where
  "room_to_encode n a mt rq s \<longleftrightarrow>
     copy_faults s = [] \<and> take 3 (kblocks s) = [a, mt, rq] \<and> a \<noteq> 0 \<and> a \<noteq> - 1 \<and> mt \<noteq> 0 \<and> rq \<noteq> 0 \<and>
     span rq 1024 \<inter> span mt 256 = {} \<and> clear_of_driver rq mt (Number n)"

lemma fresh_number_encoded:
  assumes y: "find_session dev (c_service_id c) (c_session_id c) s = Some y" "encode_list y = []"
    and c: "c_encode_id c = - 1" "c_param_type c = OTZC_PARAM_IN" "c_data c \<noteq> 0"
    and room: "room_to_encode (c_data c) a mt rq s" and v: "find_service dev (c_service_id c) s = Some v"
  shows "\<exists>s1 e. otz_client_encode_uint32 dev c s = Some (0, c\<lparr>c_encode_id := a\<rparr>, s1) \<and>
    context_of dev (c\<lparr>c_encode_id := a\<rparr>) s1 = Some e \<and> encoding [Number (c_data c)] (kmem s) rq mt e s1 \<and>
    session_ids dev (c_service_id c) s1 = session_ids dev (c_service_id c) s"
proof -
  obtain bs where k: "kblocks s = a # mt # rq # bs"
    using room by (cases "kblocks s" rule: list.exhaust; cases "tl (kblocks s)"; cases "tl (tl (kblocks s))") (auto simp: room_to_encode_def)
  note R = room [unfolded room_to_encode_def]
  have P: "prepares dev c s' [] (kmem s) rq mt" if "same_driver s s'" for s'
    using y c k R that by (intro new_prepares [of dev c s y a mt rq bs s']) auto
  have none: "find_encode (- 1) y = None" by (simp add: find_encode_def)
  let ?ses = "on_session dev (c_service_id c) (c_session_id c)" and ?c = "c\<lparr>c_encode_id := a\<rparr>"
  let ?e = "\<lparr>encode_id = a, ker_req_data_addr = 0, ker_res_data_addr = 0, k_req_offset = 0, k_res_offset = 0, k_req_pos = 0,
    k_res_pos = OTZ_MAX_REQ_PARAMS, dec_res_pos = OTZ_MAX_REQ_PARAMS, dec_offset = 0, send_wait_flag = False, meta = mt\<rparr>"
  let ?e1 = "next_req 4 (?e\<lparr>ker_req_data_addr := rq\<rparr>)" and ?f = "\<lambda>x. x\<lparr>encode_list := encode_list x @ [?e]\<rparr>"
  let ?s0 = "?ses ?f (s\<lparr>kblocks := rq # bs\<rparr>)"
  let ?s1 = "on_kmem (\<lambda>m. put_meta mt 0 OTZ_ENC_UINT32 4 (write32 rq (read32 m (c_data c)) m)) (?s0\<lparr>kblocks := bs\<rparr>)"
  let ?s2 = "on_encode dev ?c (\<lambda>_. ?e1) ?s1"
  have ses: "copy_faults (?ses h s) = copy_faults s" "kblocks (?ses h s) = kblocks s" for h s
    by (simp_all add: on_session_def on_service_def on_file_def)
  have "otz_client_prepare_encode dev c s = (0, ?c, Some ?e, ?s0)"
    using y(1) none c(1) R k by (simp add: otz_client_prepare_encode_def kmalloc_def Let_def)
  moreover have "uint32_step ?c ?e ?s0 = Some (0, ?c, ?e1, True, ?s1)"
    using R c by (simp add: uint32_step_def req_buffer_def kmalloc_def ses room_req_def OTZ_1K_SIZE_def OTZ_MAX_REQ_PARAMS_def)
  moreover have "finish_call dev c (0, ?c, ?e1, True, ?s1) = (0, ?c, ?s2)"
    using R by (simp add: finish_call_def copy_works_def next_req_def on_encode_def on_kmem_def ses Let_def)
  ultimately have call: "otz_client_encode_uint32 dev c s = Some (0, ?c, ?s2)"
    using R by (simp add: otz_client_encode_uint32_def encode_call_def copy_works_def)
  have v0: "find_service dev (c_service_id c) (s\<lparr>kblocks := rq # bs\<rparr>) = Some v" using v by (simp add: find_service_def find_file_def)
  then obtain v1 where "find_service dev (c_service_id c) ?s0 = Some v1" using service_on_session by blast
  then have "find_service dev (c_service_id c) ?s1 = Some v1" by (simp add: find_service_def find_file_def on_kmem_def)
  then have "session_ids dev (c_service_id c) ?s2 = session_ids dev (c_service_id c) ?s1"
    unfolding on_encode_def by (simp add: session_ids_on_session)
  also have "\<dots> = session_ids dev (c_service_id c) ?s0" by (intro session_ids_cong) (simp add: on_kmem_def)
  also have "\<dots> = session_ids dev (c_service_id c) (s\<lparr>kblocks := rq # bs\<rparr>)" using v0 by (simp add: session_ids_on_session)
  also have "\<dots> = session_ids dev (c_service_id c) s" by (intro session_ids_cong) simp
  finally have ids: "session_ids dev (c_service_id c) ?s2 = session_ids dev (c_service_id c) s" .
  have "encode_call uint32_step dev c s = Some (0, ?c, ?s2)" using call by (simp add: otz_client_encode_uint32_def)
  from encode_call_adds [OF this P, of "Number (c_data c)"] R c(2) obtain e
    where "context_of dev ?c ?s2 = Some e" "encoding [Number (c_data c)] (kmem s) rq mt e ?s2" by auto
  then show ?thesis using call ids by blast
qed

text \<open>
  C35. When a service has a session already, a client that opens another one is told its number, and a number that it
  encodes for the new session is accepted: the context that the call returns is found in the session and its buffer
  holds the four bytes. But no command can be sent in the new session, in this state, in the one after the encoding, or in
  any later one in which the older session is still the first of its service: nothing reaches the secure kernel and the
  driver changes in nothing but the fault of a copy. The number is new to the service, the copies of the encoding work,
  and the kernel has the three blocks that the encoding takes.
\<close>

theorem second_session_cannot_send:
  assumes "find_service dev (ss_service q) s = Some v" "sessions_list v = x # xs"
    and "otz_client_session_open dev q s = (0, q', s')" "ss_session q' \<notin> session_id ` set (sessions_list v)"
    and c: "c_service_id c = ss_service q" "c_session_id c = ss_session q'" "c_encode_id c = - 1"
      "c_param_type c = OTZC_PARAM_IN" "c_data c \<noteq> 0" and room: "room_to_encode (c_data c) a mt rq s'"
  shows "(\<exists>c1 s1 e. otz_client_encode_uint32 dev c s' = Some (0, c1, s1) \<and> context_of dev c1 s1 = Some e \<and>
      ker_req_data_addr e = rq \<and> k_req_pos e = 1 \<and> k_req_offset e = 4 \<and> bytes (kmem s1) rq 4 = bytes (kmem s') (c_data c) 4 \<and>
      hd (session_ids dev (ss_service q) s1) = session_id x \<and>
      (\<exists>r. r \<noteq> 0 \<and> otz_client_send_cmd dev c1 s1 = (r, c1, snd (copy_works s1)))) \<and>
    (\<forall>t d i is. session_ids dev (ss_service q) t = i # is \<and> i = session_id x \<and> c_service_id d = ss_service q \<and> c_session_id d = ss_session q' \<longrightarrow>
      (\<exists>r. r \<noteq> 0 \<and> otz_client_send_cmd dev d t = (r, d, snd (copy_works t))))"
proof -
  note O = opened_session [OF assms(1,4,3)]
  obtain y v' where y: "find_session dev (c_service_id c) (c_session_id c) s' = Some y" "encode_list y = []"
    and v': "find_service dev (c_service_id c) s' = Some v'" using O(1,2) c by auto
  obtain s1 e where E: "otz_client_encode_uint32 dev c s' = Some (0, c\<lparr>c_encode_id := a\<rparr>, s1)"
    "context_of dev (c\<lparr>c_encode_id := a\<rparr>) s1 = Some e" "encoding [Number (c_data c)] (kmem s') rq mt e s1"
    "session_ids dev (c_service_id c) s1 = session_ids dev (c_service_id c) s'"
    using fresh_number_encoded [OF y c(3-5) room v'] by blast
  have ne: "ss_session q' \<noteq> session_id x" using assms(2,4) by auto
  have ids: "session_ids dev (ss_service q) s1 = session_id x # map session_id xs @ [ss_session q']"
    using E(4) O(3) assms(2) c by simp
  have "ker_req_data_addr e = rq" "k_req_pos e = 1" "k_req_offset e = 4" "bytes (kmem s1) rq 4 = bytes (kmem s') (c_data c) 4"
    using E(3) by (auto simp: encoding_def stream_of_def payload_def psizes_def)
  moreover have "\<exists>r. r \<noteq> 0 \<and> otz_client_send_cmd dev (c\<lparr>c_encode_id := a\<rparr>) s1 = (r, c\<lparr>c_encode_id := a\<rparr>, snd (copy_works s1))"
    using ids c ne by (intro only_first_session_sends) auto
  moreover have "\<exists>r. r \<noteq> 0 \<and> otz_client_send_cmd dev d t = (r, d, snd (copy_works t))"
    if "session_ids dev (ss_service q) t = i # is" "i = session_id x" "c_service_id d = ss_service q" "c_session_id d = ss_session q'" for t d i "is"
    using that ne by (intro only_first_session_sends) auto
  ultimately show ?thesis using E ids by force
qed

definition sample_open :: ser_ses_id where
  "sample_open = \<lparr>ss_service = OTZ_SVC_ECHO, ss_session = 0\<rparr>"

theorem second_session_cannot_send_witness:
  "\<exists>q' s' c1 s1. otz_client_session_open 1 sample_open ((sample_client [sample_session])
       \<lparr>replies := [\<lambda>_ m. (0, write32 0x5008 8 m)], kblocks := [0x5000, 0x6000, 0x7000, 0x8000, 0x9000]\<rparr>) = (0, q', s') \<and>
     ss_session q' = 8 \<and>
     otz_client_encode_uint32 1 (sample_cmd\<lparr>c_session_id := 8, c_data := 0x100\<rparr>) s' = Some (0, c1, s1) \<and>
     bytes (kmem s1) 0x9000 4 = bytes (kmem s') 0x100 4 \<and>
     (\<exists>r. r \<noteq> 0 \<and> otz_client_send_cmd 1 c1 s1 = (r, c1, snd (copy_works s1)))"
proof -
  let ?s = "(sample_client [sample_session])\<lparr>replies := [\<lambda>_ m. (0, write32 0x5008 8 m)], kblocks := [0x5000, 0x6000, 0x7000, 0x8000, 0x9000]\<rparr>"
  let ?c = "sample_cmd\<lparr>c_session_id := 8, c_data := 0x100\<rparr>" and ?v = "\<lparr>svc_id = OTZ_SVC_ECHO, sessions_list = [sample_session], svc_block = 0x4000\<rparr>"
  have "\<exists>q' s'. otz_client_session_open 1 sample_open ?s = (0, q', s') \<and> ss_session q' = 8 \<and> ss_service q' = OTZ_SVC_ECHO \<and>
      copy_faults s' = [] \<and> kblocks s' = [0x7000, 0x8000, 0x9000]"
    by (simp add: otz_client_session_open_def sample_open_def driver_evals otz_smc_call_def smc_begin_def smc_end_def smc_def fill_cmd_def
        kfree_def SMC_SUCCESS_def SMC_PENDING_def read_write_same)
  then obtain q' s' where o: "otz_client_session_open 1 sample_open ?s = (0, q', s')" "ss_session q' = 8"
    "copy_faults s' = []" "kblocks s' = [0x7000, 0x8000, 0x9000]" by blast
  have v: "find_service 1 (ss_service sample_open) ?s = Some ?v" by (simp add: driver_evals sample_open_def)
  have "span (0x9000 :: u32) 1024 \<inter> span 0x8000 256 = {}" "span (0x100 :: u32) 4 \<inter> (span 0x9000 1024 \<union> span 0x8000 256) = {}"
    by (simp_all add: Int_Un_distrib span_apart)
  then have room: "room_to_encode (c_data ?c) 0x7000 0x8000 0x9000 s'"
    using o(3,4) by (simp add: room_to_encode_def clear_of_driver_def sample_cmd_def)
  have "sessions_list ?v = sample_session # []" "ss_session q' \<notin> session_id ` set (sessions_list ?v)" "c_service_id ?c = ss_service sample_open"
    "c_session_id ?c = ss_session q'" "c_encode_id ?c = - 1" "c_param_type ?c = OTZC_PARAM_IN" "c_data ?c \<noteq> 0"
    using o(2) by (simp_all add: sample_session_def sample_cmd_def sample_open_def OTZC_PARAM_IN_def)
  from second_session_cannot_send [OF v this(1) o(1) this(2-7) room] o show ?thesis by (auto simp: sample_cmd_def)
qed

section \<open>References\<close>

lemma encode_call_known:
  assumes "context_of dev c s = Some e" "encode_call step dev c s = Some (0, c1, s1)"
    and keep: "\<And>sa c2 e2 out s2. step c e sa = Some (0, c2, e2, out, s2) \<Longrightarrow>
      c2 = c \<and> out \<and> encode_id e2 = encode_id e \<and> dev_file_list s2 = dev_file_list sa"
  obtains sa e2 s2 where "same_driver s sa" "virt_to_phys sa = virt_to_phys s" "step c e sa = Some (0, c, e2, True, s2)" "c1 = c"
    "context_of dev c s1 = Some e2" "kmem s1 = kmem s2"
proof -
  obtain sa where sa: "copy_works s = (True, sa)" "same_driver s sa" "virt_to_phys sa = virt_to_phys s"
    using assms(2) by (auto simp: encode_call_def copy_works_def same_driver_def errnos split: list.splits if_splits prod.splits)
  have ctx: "context_of dev c sa = Some e" using assms(1) sa(2) context_cong by (metis same_driver_def)
  obtain r c2 e2 out s2 where st: "step c e sa = Some (r, c2, e2, out, s2)" "finish_call dev c (r, c2, e2, out, s2) = (0, c1, s1)"
    using assms(2) sa(1) context_known(1) [OF ctx] by (auto simp: encode_call_def Let_def)
  have r: "r = 0" using st(2) by (auto simp: finish_call_def errnos Let_def split: if_splits prod.splits)
  note k = keep [OF st(1) [unfolded r]]
  have "context_of dev c s2 = Some e" using ctx k context_cong by metis
  moreover have "encode_id e2 = c_encode_id c" using k context_known(2) [OF ctx] by simp
  ultimately have "c1 = c" "context_of dev c s1 = Some e2" "kmem s1 = kmem s2"
    using finish_call_context [of dev c s2 e e2 c c c1 s1] st(2) k r by auto
  then show thesis using that sa(2,3) st(1) k r by auto
qed

lemma mem_ref_known:
  assumes "context_of dev c s = Some e" "otz_client_encode_mem_ref dev c s = Some (0, c1, s1)" "c_param_type c = OTZC_PARAM_IN"
    and "ker_req_data_addr e \<noteq> 0"
  obtains b where "find_shared dev (c_service_id c) (c_session_id c) (c_data c) s = Some b" "room_req e 4" "c1 = c"
    "context_of dev c s1 = Some (next_req 4 e)"
    "kmem s1 = put_meta (meta e) (k_req_pos e) OTZ_MEM_REF (c_len c) (put_usr (meta e) (k_req_pos e) (u_addr b + c_offset c)
      (write32 (ker_req_data_addr e + 4 * k_req_offset e) (virt_to_phys s (k_addr b + c_offset c)) (kmem s)))"
proof -
  have call: "encode_call (mem_ref_step dev) dev c s = Some (0, c1, s1)" using assms(2) by (simp add: otz_client_encode_mem_ref_def)
  have keep: "c2 = c \<and> out \<and> encode_id e2 = encode_id e \<and> dev_file_list s2 = dev_file_list sa"
    if "mem_ref_step dev c e sa = Some (0, c2, e2, out, s2)" for sa c2 e2 out s2
    using that assms(3,4)
    by (auto simp: mem_ref_step_def req_buffer_def on_kmem_def next_req_def errnos Let_def split: option.splits if_splits)
  obtain sa e2 s2 where K: "same_driver s sa" "virt_to_phys sa = virt_to_phys s" "mem_ref_step dev c e sa = Some (0, c, e2, True, s2)" "c1 = c"
    "context_of dev c s1 = Some e2" "kmem s1 = kmem s2"
    by (rule encode_call_known [OF assms(1) call keep])
  have "find_shared dev (c_service_id c) (c_session_id c) (c_data c) sa = find_shared dev (c_service_id c) (c_session_id c) (c_data c) s"
  proof -
    have "dev_file_list sa = dev_file_list s" using K(1) by (simp add: same_driver_def)
    then have "find_file dev sa = find_file dev s" by (simp add: find_file_def)
    then show ?thesis using K(1) find_session_cong [of sa s] by (simp add: find_shared_def same_driver_def split: option.split)
  qed
  then show thesis
    using K assms(3,4) that
    by (auto simp: mem_ref_step_def req_buffer_def on_kmem_def errnos same_driver_def Let_def split: option.splits if_splits)
qed

lemma array_known:
  assumes "context_of dev c s = Some e" "otz_client_encode_array dev c s = Some (0, c1, s1)" "c_param_type c = OTZC_PARAM_IN"
    and "ker_req_data_addr e \<noteq> 0"
  shows "room_req e (c_len c) \<and> kmem s1 = put_meta (meta e) (k_req_pos e) OTZ_ENC_ARRAY (c_len c)
    (copied (unat (c_len c)) (ker_req_data_addr e + k_req_offset e) (c_data c) (kmem s))"
proof -
  let ?g = "\<lambda>m. put_meta (meta e) (k_req_pos e) OTZ_ENC_ARRAY (c_len c) (copied (unat (c_len c)) (ker_req_data_addr e + k_req_offset e) (c_data c) m)"
  have call: "encode_call array_step dev c s = Some (0, c1, s1)" using assms(2) by (simp add: otz_client_encode_array_def)
  have err: "- ENOMEM \<noteq> 0" "- EFAULT \<noteq> 0" by (simp_all add: errnos)
  have run: "room_req e (c_len c) \<and> c2 = c \<and> out \<and> encode_id e2 = encode_id e \<and> dev_file_list s2 = dev_file_list sa \<and> kmem s2 = ?g (kmem sa)"
    if "array_step c e sa = Some (0, c2, e2, out, s2)" for sa c2 e2 out s2
  proof -
    obtain ok sb where cp: "copy_works sa = (ok, sb)" by fastforce
    then have sb: "dev_file_list sb = dev_file_list sa" "kmem sb = kmem sa" by (auto simp: copy_works_def split: list.splits)
    have "array_step c e sa = (if \<not> room_req e (c_len c) then Some (- ENOMEM, c, e, True, sa)
        else if \<not> ok then Some (- EFAULT, c, e, True, sb) else Some (0, c, next_req (c_len c) e, True, on_kmem ?g sb))"
      using assms(3,4) cp by (simp add: array_step_def req_buffer_def)
    then show ?thesis using that err sb by (cases "room_req e (c_len c)"; cases ok) (auto simp: next_req_def on_kmem_def)
  qed
  have keep: "c2 = c \<and> out \<and> encode_id e2 = encode_id e \<and> dev_file_list s2 = dev_file_list sa"
    if "array_step c e sa = Some (0, c2, e2, out, s2)" for sa c2 e2 out s2 using run [OF that] by simp
  obtain sa e2 s2 where "same_driver s sa" "virt_to_phys sa = virt_to_phys s" "array_step c e sa = Some (0, c, e2, True, s2)" "c1 = c"
    "context_of dev c s1 = Some e2" "kmem s1 = kmem s2"
    by (rule encode_call_known [OF assms(1) call keep])
  then show ?thesis using run [of sa c e2 True s2] by (simp add: same_driver_def)
qed

lemma meta_entry_off:
  assumes "unat pos < 16" "x \<notin> span mt 256"
  shows "put_meta mt pos ty n m x = m x" "put_usr mt pos u m x = m x"
proof -
  show "put_meta mt pos ty n m x = m x" using put_meta_off [OF assms, of ty n m] by simp
  have "x \<notin> span (mt + 16 * pos + 8) 4" using meta_span [OF assms(1), of 8 mt] assms(2) by auto
  then show "put_usr mt pos u m x = m x" by (simp add: put_usr_def write32_off)
qed

lemma meta_entry_word:
  assumes "unat pos < 16" "span a 4 \<inter> span mt 256 = {}"
  shows "read32 (put_meta mt pos ty n m) a = read32 m a" "read32 (put_usr mt pos u m) a = read32 m a"
proof -
  have "x \<in> span a 4 \<Longrightarrow> x \<notin> span mt 256" for x using assms(2) by blast
  then show "read32 (put_meta mt pos ty n m) a = read32 m a" "read32 (put_usr mt pos u m) a = read32 m a"
    using meta_entry_off [OF assms(1)] by (auto intro: read32_cong)
qed

lemma room_pos: "room_req e n \<Longrightarrow> unat (k_req_pos e) < 12"
  by (simp add: room_req_def OTZ_MAX_REQ_PARAMS_def word_less_nat_alt)

text \<open>
  C36. The place of a reference is counted in words, while the room for it is counted in bytes: behind 256 bytes of other
  parameters the driver writes the address outside the buffer it has allocated.
\<close>

theorem reference_outside_buffer:
  assumes "context_of dev c s = Some e" "otz_client_encode_mem_ref dev c s = Some (0, c1, s1)" "c_param_type c = OTZC_PARAM_IN"
    and "ker_req_data_addr e = rq" "rq \<noteq> 0" "k_req_offset e = of_nat off" "256 \<le> off" "off \<le> 1024" "span rq 5000 \<inter> span (meta e) 256 = {}"
  shows "\<exists>b. find_shared dev (c_service_id c) (c_session_id c) (c_data c) s = Some b \<and>
    read32 (kmem s1) (rq + of_nat (4 * off)) = virt_to_phys s (k_addr b + c_offset c) \<and> span (rq + of_nat (4 * off)) 4 \<inter> span rq 1024 = {}"
proof -
  let ?a = "rq + of_nat (4 * off)"
  obtain b where b: "find_shared dev (c_service_id c) (c_session_id c) (c_data c) s = Some b" "room_req e 4"
    "kmem s1 = put_meta (meta e) (k_req_pos e) OTZ_MEM_REF (c_len c) (put_usr (meta e) (k_req_pos e) (u_addr b + c_offset c)
      (write32 (ker_req_data_addr e + 4 * k_req_offset e) (virt_to_phys s (k_addr b + c_offset c)) (kmem s)))"
    using mem_ref_known [OF assms(1-3)] assms(4,5) by blast
  have pos: "unat (k_req_pos e) < 16" using room_pos [OF b(2)] by simp
  have "span ?a 4 \<subseteq> span rq 5000" using assms(8) by (intro span_mono) simp
  then have "span ?a 4 \<inter> span (meta e) 256 = {}" using assms(9) by blast
  moreover have "ker_req_data_addr e + 4 * k_req_offset e = ?a" using assms(4,6) by simp
  ultimately have "read32 (kmem s1) ?a = virt_to_phys s (k_addr b + c_offset c)"
    using meta_entry_word [OF pos] by (simp add: b(3) read_write_same)
  moreover have "span rq (4 * off) \<inter> span ?a 4 = {}" using assms(8) by (intro span_split) simp
  then have "span ?a 4 \<inter> span rq 1024 = {}" using span_mono [of 0 1024 "4 * off" rq] assms(7) by auto
  ultimately show ?thesis using b(1) by blast
qed

lemma copied_window: "k + n \<le> N \<Longrightarrow> N \<le> 2 ^ 32 \<Longrightarrow> bytes (copied N d s m) (d + of_nat k) n = bytes m (s + of_nat k) n"
  by (rule nth_equalityI) (use copied_at [of "k + i" N d s m for i] in \<open>auto simp: add.assoc\<close>)

lemma read32_bytes: "bytes m a 4 = bytes m' b 4 \<Longrightarrow> read32 m a = read32 m' b"
  by (simp add: bytes_def read32_def upt_rec)

text \<open>
  A reference that follows \<open>off\<close> bytes of parameters and is followed by an array is overwritten by it: the word that the
  service takes for the address of the shared memory is one that the client has put into the array.
\<close>

theorem array_forges_reference:
  assumes "context_of dev c s = Some e" "otz_client_encode_mem_ref dev c s = Some (0, c1, s1)" "c_param_type c = OTZC_PARAM_IN"
    and "ker_req_data_addr e = rq" "rq \<noteq> 0" "k_req_offset e = of_nat off"
    and array: "c2 = c1\<lparr>c_data := a, c_len := of_nat n\<rparr>" "otz_client_encode_array dev c2 s1 = Some (0, c3, s2)"
    and place: "2 \<le> off" "3 * off \<le> n" "off + 4 + n \<le> 1024"
    and apart: "span rq 1024 \<inter> span (meta e) 256 = {}" "span a n \<inter> (span rq 1024 \<union> span (meta e) 256) = {}"
  shows "read32 (kmem s2) (rq + 4 * k_req_offset e) = read32 (kmem s) (a + of_nat (3 * off - 4))"
proof -
  let ?a = "rq + of_nat (4 * off)" and ?e = "next_req 4 e" and ?k = "3 * off - 4"
  have "ker_req_data_addr e \<noteq> 0" using assms(4,5) by simp
  note M = mem_ref_known [OF assms(1-3) this]
  obtain b where "find_shared dev (c_service_id c) (c_session_id c) (c_data c) s = Some b" and b: "room_req e 4" "c1 = c" "context_of dev c s1 = Some ?e"
    "kmem s1 = put_meta (meta e) (k_req_pos e) OTZ_MEM_REF (c_len c) (put_usr (meta e) (k_req_pos e) (u_addr b + c_offset c)
      (write32 (ker_req_data_addr e + 4 * k_req_offset e) (virt_to_phys s (k_addr b + c_offset c)) (kmem s)))"
    by (rule M)
  have e: "ker_req_data_addr ?e = rq" "meta ?e = meta e" "k_req_offset ?e = of_nat (off + 4)"
    using assms(4,6) by (simp_all add: next_req_def)
  have c2: "context_of dev c2 s1 = Some ?e" using b(2,3) array(1) by (simp add: otz_client_prepare_decode_def)
  have args: "c_param_type c2 = OTZC_PARAM_IN" "c_len c2 = of_nat n" "c_data c2 = a" using array(1) b(2) assms(3) by simp_all
  have n: "unat (of_nat n :: u32) = n" using place(3) by (intro unat_of_nat_lt) simp
  have "ker_req_data_addr ?e \<noteq> 0" using e(1) assms(5) by simp
  from array_known [OF c2 array(2) args(1) this]
  have A: "room_req ?e (of_nat n)" "kmem s2 = put_meta (meta e) (k_req_pos ?e) OTZ_ENC_ARRAY (of_nat n) (copied n (rq + of_nat (off + 4)) a (kmem s1))"
    unfolding args e n by blast+
  have pos: "unat (k_req_pos e) < 16" "unat (k_req_pos ?e) < 16" using room_pos [OF b(1)] room_pos [OF A(1)] by auto
  have in_buf: "span ?a 4 \<subseteq> span rq 1024" using place by (intro span_mono) simp
  have "read32 (kmem s2) ?a = read32 (copied n (rq + of_nat (off + 4)) a (kmem s1)) ?a"
    using in_buf apart(1) by (subst A(2), intro meta_entry_word(1) [OF pos(2)]) blast
  also have "\<dots> = read32 (copied n (rq + of_nat (off + 4)) a (kmem s1)) (rq + of_nat (off + 4) + of_nat ?k)"
  proof -
    have "?a = rq + of_nat (off + 4 + ?k)" using place(1) by simp
    then show ?thesis by (simp only: of_nat_add add.assoc)
  qed
  also have "\<dots> = read32 (kmem s1) (a + of_nat ?k)"
    using place by (intro read32_bytes copied_window) auto
  also have "\<dots> = read32 (kmem s) (a + of_nat ?k)"
  proof (rule read32_cong)
    fix x assume "x \<in> span (a + of_nat ?k) 4"
    moreover have "span (a + of_nat ?k) 4 \<subseteq> span a n" using place by (intro span_mono) simp
    ultimately have x: "x \<notin> span rq 1024" "x \<notin> span (meta e) 256" using apart(2) by auto
    have "x \<notin> span ?a 4" using x(1) in_buf by blast
    then show "kmem s1 x = kmem s x"
      using x meta_entry_off [OF pos(1)] assms(4,6) by (simp add: b(4) write32_off)
  qed
  finally show ?thesis using assms(6) by simp
qed

definition sample_context :: "u32 \<Rightarrow> drv_encode" where
  "sample_context off = \<lparr>encode_id = 0x5000, ker_req_data_addr = 0x7000, ker_res_data_addr = 0, k_req_offset = off, k_res_offset = 0,
     k_req_pos = 1, k_res_pos = 12, dec_res_pos = 12, dec_offset = 0, send_wait_flag = False, meta = 0x6000\<rparr>"

definition sample_busy :: "u32 \<Rightarrow> driver" where
  "sample_busy off = sample_client [sample_session\<lparr>encode_list := [sample_context off]\<rparr>]"

definition sample_ref :: otz_client_encode_cmd where
  "sample_ref = sample_cmd\<lparr>c_encode_id := 0x5000, c_data := 0x9000, c_len := 16\<rparr>"

lemma sample_busy_context: "context_of 1 sample_ref (sample_busy off) = Some (sample_context off)"
  by (simp add: sample_busy_def sample_ref_def sample_context_def otz_client_prepare_decode_def driver_evals)

lemma sample_ref_encoded: "off \<le> 1020 \<Longrightarrow> \<exists>s1. otz_client_encode_mem_ref 1 sample_ref (sample_busy off) = Some (0, sample_ref, s1)"
  using sample_busy_context [of off]
  by (simp add: sample_busy_def sample_ref_def sample_context_def otz_client_encode_mem_ref_def mem_ref_step_def find_shared_def driver_evals
      word_le_nat_alt unat_plus_lt)

theorem reference_outside_buffer_witness:
  "\<exists>s1. otz_client_encode_mem_ref 1 sample_ref (sample_busy 256) = Some (0, sample_ref, s1) \<and> read32 (kmem s1) 0x7400 = 0x10A000 \<and>
     span 0x7400 4 \<inter> span 0x7000 1024 = {}"
proof -
  obtain s1 where call: "otz_client_encode_mem_ref 1 sample_ref (sample_busy 256) = Some (0, sample_ref, s1)"
    using sample_ref_encoded [of 256] by auto
  have apart: "span 0x7000 5000 \<inter> span (meta (sample_context 256)) 256 = {}" by (simp add: sample_context_def span_apart)
  have IN: "c_param_type sample_ref = OTZC_PARAM_IN" by (simp add: sample_ref_def sample_cmd_def OTZC_PARAM_IN_def)
  have e: "ker_req_data_addr (sample_context 256) = 0x7000" "k_req_offset (sample_context 256) = of_nat 256" by (simp_all add: sample_context_def)
  have b: "find_shared 1 (c_service_id sample_ref) (c_session_id sample_ref) (c_data sample_ref) (sample_busy 256) =
      Some \<lparr>mem_index = 0x9000, k_addr = 0xA000, u_addr = 0x9000, mem_len = 0x1000, mem_block = 0x4100\<rparr>"
    by (simp add: sample_busy_def sample_ref_def sample_context_def find_shared_def driver_evals)
  have v: "virt_to_phys (sample_busy 256) (0xA000 + c_offset sample_ref) = 0x10A000"
    by (simp add: sample_busy_def sample_client_def sample_ref_def sample_cmd_def)
  from reference_outside_buffer [OF sample_busy_context call IN e(1) _ e(2) _ _ apart]
  show ?thesis using call b v by simp
qed

theorem array_forges_reference_witness:
  "\<exists>s1 s2 c3. otz_client_encode_mem_ref 1 sample_ref (sample_busy 4) = Some (0, sample_ref, s1) \<and>
     otz_client_encode_array 1 (sample_ref\<lparr>c_data := 0x200, c_len := 12\<rparr>) s1 = Some (0, c3, s2) \<and> read32 (kmem s2) 0x7010 = 0x0B0A0908"
proof -
  let ?c = "sample_ref\<lparr>c_data := 0x200, c_len := 12\<rparr>"
  have "\<exists>s1. otz_client_encode_mem_ref 1 sample_ref (sample_busy 4) = Some (0, sample_ref, s1) \<and>
      (\<exists>c3 s2. otz_client_encode_array 1 ?c s1 = Some (0, c3, s2))"
    by (simp add: sample_busy_def sample_ref_def sample_context_def otz_client_encode_mem_ref_def mem_ref_step_def find_shared_def driver_evals
        otz_client_encode_array_def array_step_def)
  then obtain s1 c3 s2 where calls: "otz_client_encode_mem_ref 1 sample_ref (sample_busy 4) = Some (0, sample_ref, s1)"
    "otz_client_encode_array 1 ?c s1 = Some (0, c3, s2)" by blast
  have IN: "c_param_type sample_ref = OTZC_PARAM_IN" by (simp add: sample_ref_def sample_cmd_def OTZC_PARAM_IN_def)
  have e: "ker_req_data_addr (sample_context 4) = 0x7000" "k_req_offset (sample_context 4) = of_nat 4" "meta (sample_context 4) = 0x6000"
    by (simp_all add: sample_context_def)
  have apart: "span 0x7000 1024 \<inter> span (meta (sample_context 4)) 256 = {}" "span 0x200 12 \<inter> (span 0x7000 1024 \<union> span (meta (sample_context 4)) 256) = {}"
    unfolding e(3) Int_Un_distrib by (simp_all add: span_apart)
  have c: "?c = sample_ref\<lparr>c_data := 0x200, c_len := of_nat 12\<rparr>" by simp
  have "read32 (kmem (sample_busy 4)) (0x200 + 8) = 0x0B0A0908"
    by (simp add: sample_busy_def sample_client_def read32_def push_bit_eq_mult)
  then show ?thesis
    using calls array_forges_reference [OF sample_busy_context calls(1) IN e(1) _ e(2) c calls(2) _ _ _ apart] e(2) by auto
qed

section \<open>Calls that wait\<close>

lemma smc_keeps: "smc p s = (r, s') \<Longrightarrow> kfreed s' = kfreed s \<and> smc_cmd_ptr s' = smc_cmd_ptr s"
  by (auto simp: smc_def split: list.splits prod.splits)

lemma smc_end_frees: "smc_end r s = (r', s') \<Longrightarrow> smc_cmd_ptr s \<noteq> 0 \<Longrightarrow> kfreed s' = smc_cmd_ptr s # kfreed s \<and> smc_cmd_ptr s' = smc_cmd_ptr s"
  by (auto simp: smc_end_def kfree_def)

lemma smc_resume_frees:
  assumes "smc_resume wq phys s = (r, s')" "smc_cmd_ptr s \<noteq> 0"
  shows "kfreed s' = smc_cmd_ptr s # kfreed s \<and> smc_cmd_ptr s' = smc_cmd_ptr s"
proof -
  obtain signal s1 where 1: "(case wq of None \<Rightarrow> (False, s) | Some _ \<Rightarrow> interrupted s) = (signal, s1)" by fastforce
  then have s1: "kfreed s1 = kfreed s" "smc_cmd_ptr s1 = smc_cmd_ptr s"
    by (auto simp: interrupted_def split: option.splits list.splits)
  let ?s2 = "case wq of None \<Rightarrow> s1 | Some (dev, c) \<Rightarrow> on_encode dev c (\<lambda>e. e\<lparr>send_wait_flag := False\<rparr>) s1"
  have s2: "kfreed ?s2 = kfreed s" "smc_cmd_ptr ?s2 = smc_cmd_ptr s"
    using s1 by (auto simp: on_encode_def on_session_def on_service_def on_file_def split: option.splits)
  show ?thesis
  proof (cases signal)
    case True
    then show ?thesis using assms s1 1 smc_end_frees [of "- ERESTARTSYS" s1 r s'] by (simp add: smc_resume_def)
  next
    case False
    let ?i = "push_bit 10 OTZ_SVC_GLOBAL OR OTZ_GLOBAL_CMD_ID_RESUME_ASYNC_TASK"
    obtain v s3 where 3: "smc phys (on_kmem (set_fields (smc_cmd_ptr ?s2) [(Src_id, ?i), (Id, ?i)]) ?s2) = (v, s3)" by fastforce
    then have "smc_end v s3 = (r, s')" using assms(1) 1 False by (simp add: smc_resume_def Let_def)
    moreover have "kfreed s3 = kfreed s" "smc_cmd_ptr s3 = smc_cmd_ptr s" using smc_keeps [OF 3] s2 by (simp_all add: on_kmem_def)
    ultimately show ?thesis using smc_end_frees [of v s3 r s'] assms(2) by simp
  qed
qed

lemma smc_call_frees:
  assumes "otz_smc_call wq dev svc cmd ctx enc req n resp k m s = (r, s')" "kblocks s = b # bs" "b \<noteq> 0"
  shows "kfreed s' = b # kfreed s \<and> smc_cmd_ptr s' = b"
proof -
  let ?s2 = "s\<lparr>kblocks := bs, smc_cmd_ptr := b\<rparr>"
  obtain v s3 where 3: "smc (virt_to_phys s b) (fill_cmd dev svc cmd ctx enc req n resp k m ?s2) = (v, s3)" by fastforce
  have s3: "kfreed s3 = kfreed s" "smc_cmd_ptr s3 = b" using smc_keeps [OF 3] by (simp_all add: fill_cmd_def on_kmem_def)
  have "(if v = SMC_PENDING then smc_resume wq (virt_to_phys s b) s3 else smc_end v s3) = (r, s')"
    using assms 3 by (simp add: otz_smc_call_def smc_begin_def kmalloc_def Let_def)
  then show ?thesis
    using smc_resume_frees [of wq "virt_to_phys s b" s3 r s'] smc_end_frees [of v s3 r s'] s3 assms(3) by (auto split: if_splits)
qed

text \<open>
  C37. While a call waits for the secure kernel another one may run, and both reach their command through one static
  variable: the call that goes on frees the command of the other a second time, and never its own.
\<close>

theorem pending_call_frees_other_command:
  assumes "smc_begin dev svc cmd ctx enc req n resp k m s = (Some (phys, SMC_PENDING), s1)" "kblocks s1 = b # bs" "b \<noteq> 0"
    and "otz_smc_call wq' dev' svc' cmd' ctx' enc' req' n' resp' k' m' s1 = (r, s2)" and "smc_resume wq phys s2 = (r', s3)"
  shows "kfreed s3 = b # b # kfreed s1"
  using smc_call_frees [OF assms(4,2,3)] smc_resume_frees [OF assms(5)] assms(3) by auto

theorem pending_call_frees_other_command_witness:
  "\<exists>s1 s2 s3. smc_begin 1 OTZ_SVC_ECHO 1 7 0 0 0 0 0 0 ((sample_busy 0)\<lparr>replies := [\<lambda>_ m. (SMC_PENDING, m), \<lambda>_ m. (SMC_SUCCESS, m)]\<rparr>) =
       (Some (0x105000, SMC_PENDING), s1) \<and>
     otz_smc_call None 1 OTZ_SVC_GLOBAL OTZ_GLOBAL_CMD_ID_CLOSE_SESSION 0 0 0 0 0 0 0 s1 = (SMC_SUCCESS, s2) \<and>
     smc_resume (Some (1, sample_ref)) 0x105000 s2 = (SMC_ERROR, s3) \<and> kfreed s3 = [0x6000, 0x6000]"
proof -
  let ?s = "(sample_busy 0)\<lparr>replies := [\<lambda>_ m. (SMC_PENDING, m), \<lambda>_ m. (SMC_SUCCESS, m)]\<rparr>"
  have "\<exists>s1 s2 s3. smc_begin 1 OTZ_SVC_ECHO 1 7 0 0 0 0 0 0 ?s = (Some (0x105000, SMC_PENDING), s1) \<and> kblocks s1 = [0x6000, 0x7000, 0x8000] \<and> kfreed s1 = [] \<and>
      otz_smc_call None 1 OTZ_SVC_GLOBAL OTZ_GLOBAL_CMD_ID_CLOSE_SESSION 0 0 0 0 0 0 0 s1 = (SMC_SUCCESS, s2) \<and>
      smc_resume (Some (1, sample_ref)) 0x105000 s2 = (SMC_ERROR, s3)"
    by (simp add: smc_begin_def otz_smc_call_def smc_resume_def smc_end_def smc_def fill_cmd_def kfree_def interrupted_def sample_busy_def sample_ref_def
        sample_context_def driver_evals SMC_SUCCESS_def SMC_PENDING_def SMC_ERROR_def)
  then obtain s1 s2 s3 where r: "smc_begin 1 OTZ_SVC_ECHO 1 7 0 0 0 0 0 0 ?s = (Some (0x105000, SMC_PENDING), s1)"
    "kblocks s1 = 0x6000 # [0x7000, 0x8000]" "kfreed s1 = []"
    "otz_smc_call None 1 OTZ_SVC_GLOBAL OTZ_GLOBAL_CMD_ID_CLOSE_SESSION 0 0 0 0 0 0 0 s1 = (SMC_SUCCESS, s2)"
    "smc_resume (Some (1, sample_ref)) 0x105000 s2 = (SMC_ERROR, s3)" by blast
  show ?thesis using pending_call_frees_other_command [OF r(1,2) _ r(4,5)] r by auto
qed

end
