(* ===== verification/OtzApiProps.thy ===== *)
theory OtzApiProps
  imports OtzApi OtzDriverProps
begin

text \<open>
  The life of a session in the library of the clients: opened, used and closed it leaves the device
  as it was; prepared and given up it leaves a device that cannot be closed.
\<close>

section \<open>What a call of the driver changes\<close>

lemma sys_result_frame: "\<exists>e. snd (sys_result r c) = c\<lparr>errno := e\<rparr>"
  by (cases c) (auto simp: sys_result_def fails_def intro: exI [of _ "errno c"])

lemma sys_ioctl_frame: "sys_ioctl des q c = Some (r, q1, c1) \<Longrightarrow> \<exists>d e. c1 = c\<lparr>drv := d, errno := e\<rparr>"
proof -
  assume "sys_ioctl des q c = Some (r, q1, c1)"
  then consider e where "c1 = c\<lparr>errno := e\<rparr>" | r0 d where "c1 = snd (sys_result r0 (c\<lparr>drv := d\<rparr>))"
    by (auto simp: sys_ioctl_def fails_def bind_eq_Some_conv case_prod_unfold split: option.splits open_file.splits)
  then show ?thesis
  proof cases
    case 1
    then show ?thesis by (intro exI [of _ "drv c"] exI) simp
  next
    case 2
    then show ?thesis using sys_result_frame [of r0 "c\<lparr>drv := d\<rparr>"] by auto
  qed
qed

lemma cmd_call_frame: "cmd_call req des e c = Some (r, e1, c1) \<Longrightarrow> \<exists>d er. c1 = c\<lparr>drv := d, errno := er\<rparr>"
  by (auto simp: cmd_call_def bind_eq_Some_conv dest: sys_ioctl_frame)

lemma ioctl_keeps:
  assumes "sys_ioctl des q c = Some (r, q1, c1)"
  shows "devices c1 = devices c" "api_sessions c1 = api_sessions c" "api_operations c1 = api_operations c"
  using sys_ioctl_frame [OF assms] by auto

lemma call_keeps:
  assumes "cmd_call req des e c = Some (r, e1, c1)"
  shows "devices c1 = devices c" "api_sessions c1 = api_sessions c" "api_operations c1 = api_operations c"
  using cmd_call_frame [OF assms] by auto

lemma api_sel [simp]:
  "devices (on_device p f c) = (devices c)(p := f (devices c p))" "api_sessions (on_device p f c) = api_sessions c"
  "api_operations (on_device p f c) = api_operations c" "devices (on_ses p g c) = devices c"
  "api_sessions (on_ses p g c) = (api_sessions c)(p := g (api_sessions c p))" "api_operations (on_ses p g c) = api_operations c"
  "devices (on_op p h c) = devices c" "api_sessions (on_op p h c) = api_sessions c"
  "api_operations (on_op p h c) = (api_operations c)(p := h (api_operations c p))"
  "devices (put_word a v c) = devices c" "api_sessions (put_word a v c) = api_sessions c" "api_operations (put_word a v c) = api_operations c"
  "devices (on_links l c) = devices c" "api_sessions (on_links l c) = api_sessions c" "api_operations (on_links l c) = api_operations c"
  by (simp_all add: on_device_def on_ses_def on_op_def put_word_def on_links_def)

section \<open>The life of a session\<close>

lemma perform_open_ok:
  assumes "otz_operation_perform op pui c = Some (OTZ_SUCCESS, c1)" "op_type (api_operations c op) = OTZ_OPERATION_OPEN"
    and "op_state (api_operations c op) = OTZ_STATE_ENCODE" "op_session (api_operations c op) = ses" "se_device (api_sessions c ses) = dev"
  obtains i where "devices c1 = (devices c)(dev := (devices c dev)\<lparr>dv_sessions := dv_sessions (devices c dev) + 1\<rparr>)"
    "api_sessions c1 = (api_sessions c)(ses := (api_sessions c ses)\<lparr>se_session_id := i, se_state := OTZ_STATE_OPEN\<rparr>)"
    "api_operations c1 = (api_operations c)(op := (api_operations c op)\<lparr>op_state := OTZ_STATE_DECODE\<rparr>)"
proof -
  let ?c = "on_op op (\<lambda>x. x\<lparr>op_state := OTZ_STATE_RUNNING\<rparr>) c"
  have "perform_open op pui ?c = Some (OTZ_SUCCESS, c1)"
    using assms by (auto simp: otz_operation_perform_def Let_def otz_errors otz_states otz_kinds split: if_splits)
  then obtain q q' c2 and ids :: ser_ses_id where q: "sys_ioctl (dv_fd (devices c dev)) q ?c = Some (0, q', c2)"
    "c1 = on_ses ses (\<lambda>s. s\<lparr>se_state := OTZ_STATE_OPEN\<rparr>) (finish_op op pui OTZ_SUCCESS OTZ_STATE_DECODE
            (on_ses ses (\<lambda>s. s\<lparr>se_session_id := ss_session ids\<rparr>) (on_device dev (\<lambda>d. d\<lparr>dv_sessions := dv_sessions d + 1\<rparr>) c2)))"
    using assms(4,5)
    by (auto simp: perform_open_def deref_def bind_eq_Some_conv otz_errors errnos Let_def split: if_splits)
  show thesis
    by (rule that [of "ss_session ids"]) (simp_all add: q(2) finish_op_def ioctl_keeps [OF q(1)])
qed

lemma perform_close_ok:
  assumes "otz_operation_perform op pui c = Some (OTZ_SUCCESS, c1)" "op_type (api_operations c op) = OTZ_OPERATION_CLOSE"
    and "op_state (api_operations c op) = OTZ_STATE_PERFORMABLE" "op_session (api_operations c op) = ses" "se_device (api_sessions c ses) = dev"
  shows "devices c1 = (devices c)(dev := (devices c dev)\<lparr>dv_sessions := dv_sessions (devices c dev) - 1\<rparr>)"
    "api_sessions c1 = (api_sessions c)(ses := (api_sessions c ses)
       \<lparr>se_device := 0, se_state := OTZ_STATE_UNDEFINED, se_session_id := - 1, se_service_id := OTZ_SVC_INVALID\<rparr>)"
    "api_operations c1 = (api_operations c)(op := (api_operations c op)\<lparr>op_state := OTZ_STATE_INVALID\<rparr>)"
proof -
  let ?c = "on_op op (\<lambda>x. x\<lparr>op_state := OTZ_STATE_RUNNING\<rparr>) c"
  have "perform_close op pui ?c = Some (OTZ_SUCCESS, c1)"
    using assms by (auto simp: otz_operation_perform_def Let_def otz_errors otz_states otz_kinds split: if_splits)
  then obtain q q' c2 where q: "sys_ioctl (dv_fd (devices c dev)) q ?c = Some (0, q', c2)"
    "c1 = finish_op op pui OTZ_SUCCESS OTZ_STATE_INVALID
            (on_ses ses (\<lambda>s. s\<lparr>se_device := 0, se_state := OTZ_STATE_UNDEFINED, se_session_id := - 1, se_service_id := OTZ_SVC_INVALID\<rparr>)
              (on_device dev (\<lambda>d. d\<lparr>dv_sessions := dv_sessions d - 1\<rparr>) c2))"
    using assms(4,5)
    by (auto simp: perform_close_def deref_def bind_eq_Some_conv otz_errors Let_def split: if_splits)
  show "devices c1 = (devices c)(dev := (devices c dev)\<lparr>dv_sessions := dv_sessions (devices c dev) - 1\<rparr>)"
    "api_sessions c1 = (api_sessions c)(ses := (api_sessions c ses)
       \<lparr>se_device := 0, se_state := OTZ_STATE_UNDEFINED, se_session_id := - 1, se_service_id := OTZ_SVC_INVALID\<rparr>)"
    "api_operations c1 = (api_operations c)(op := (api_operations c op)\<lparr>op_state := OTZ_STATE_INVALID\<rparr>)"
    by (simp_all add: q(2) finish_op_def ioctl_keeps [OF q(1)])
qed

text \<open>An operation without temporary blocks is released.\<close>

lemma release_ok:
  assumes "otz_operation_release op c = Some c1" "op \<noteq> 0" "op_session (api_operations c op) = ses" "op_temp_count (api_operations c op) = 0"
    and "op_state (api_operations c op) \<in> {OTZ_STATE_DECODE, OTZ_STATE_INVALID}"
  shows "devices c1 = devices c"
    "api_sessions c1 = (api_sessions c)(ses := (api_sessions c ses)\<lparr>se_operations := se_operations (api_sessions c ses) - 1\<rparr>)"
    "op_state (api_operations c1 op) = OTZ_STATE_UNDEFINED" "op_temp_count (api_operations c1 op) = 0"
proof -
  let ?c = "on_ses ses (\<lambda>s. s\<lparr>se_operations := se_operations s - 1\<rparr>) c"
  have temp: "otz_free_temp_shared_mem op ?c = (if ses = 0 then None else Some ?c)"
    using assms(3,4) by (simp add: otz_free_temp_shared_mem_def deref_def)
  obtain c2 where c2: "c1 = on_op op (\<lambda>x. x\<lparr>op_session := 0, op_state := OTZ_STATE_UNDEFINED, op_type := OTZ_OPERATION_NONE\<rparr>) c2"
    "c2 = ?c \<or> release_performed op ses ?c = Some c2"
    using assms temp by (auto simp: otz_operation_release_def Let_def otz_states bind_eq_Some_conv split: if_splits)
  have "devices c2 = devices ?c \<and> api_sessions c2 = api_sessions ?c \<and> op_temp_count (api_operations c2 op) = 0"
    using c2(2)
  proof
    assume "release_performed op ses ?c = Some c2"
    then show ?thesis
      using assms(4) by (auto simp: release_performed_def Let_def bind_eq_Some_conv call_keeps split: if_splits)
  qed (use assms(4) in simp)
  then show "devices c1 = devices c"
    "api_sessions c1 = (api_sessions c)(ses := (api_sessions c ses)\<lparr>se_operations := se_operations (api_sessions c ses) - 1\<rparr>)"
    "op_state (api_operations c1 op) = OTZ_STATE_UNDEFINED" "op_temp_count (api_operations c1 op) = 0"
    by (simp_all add: c2(1))
qed

text \<open>
  C39. A session that is opened, released, closed and released again, each call of the library with success, was open in between, is
  closed in the end and leaves every device as it was, with its count of sessions.
\<close>

theorem session_leaves_device:
  assumes args: "dev \<noteq> 0" "svc \<noteq> OTZ_SVC_INVALID" "ses \<noteq> 0" "op \<noteq> 0"
    and opened: "c1 = snd (otz_operation_prepare_open dev svc ses op c)" "otz_operation_perform op pui c1 = Some (OTZ_SUCCESS, c2)"
      "otz_operation_release op c2 = Some c3"
    and closed: "c4 = snd (otz_operation_prepare_close ses op c3)" "otz_operation_perform op pui c4 = Some (OTZ_SUCCESS, c5)"
      "otz_operation_release op c5 = Some c6"
  shows "se_state (api_sessions c3 ses) = OTZ_STATE_OPEN \<and> dv_sessions (devices c3 dev) = dv_sessions (devices c dev) + 1 \<and>
    fst (otz_operation_prepare_close ses op c3) = OTZ_SUCCESS \<and>
    se_state (api_sessions c6 ses) = OTZ_STATE_UNDEFINED \<and> se_device (api_sessions c6 ses) = 0 \<and>
    op_state (api_operations c6 op) = OTZ_STATE_UNDEFINED \<and> devices c6 = devices c"
proof -
  have c1: "devices c1 = devices c" "api_sessions c1 ses = (api_sessions c ses)
      \<lparr>se_state := OTZ_STATE_INVALID, se_device := dev, se_operations := 1, se_service_id := svc, se_blocks := 0\<rparr>"
    "op_type (api_operations c1 op) = OTZ_OPERATION_OPEN" "op_state (api_operations c1 op) = OTZ_STATE_ENCODE"
    "op_session (api_operations c1 op) = ses" "op_temp_count (api_operations c1 op) = 0"
    using args by (simp_all add: opened(1) otz_operation_prepare_open_def Let_def)
  have "se_device (api_sessions c1 ses) = dev" using c1(2) by simp
  from perform_open_ok [OF opened(2) c1(3-5) this] obtain i where
    c2: "devices c2 = (devices c1)(dev := (devices c1 dev)\<lparr>dv_sessions := dv_sessions (devices c1 dev) + 1\<rparr>)"
    "api_sessions c2 = (api_sessions c1)(ses := (api_sessions c1 ses)\<lparr>se_session_id := i, se_state := OTZ_STATE_OPEN\<rparr>)"
    "api_operations c2 = (api_operations c1)(op := (api_operations c1 op)\<lparr>op_state := OTZ_STATE_DECODE\<rparr>)" .
  have "op_session (api_operations c2 op) = ses" "op_temp_count (api_operations c2 op) = 0"
    "op_state (api_operations c2 op) \<in> {OTZ_STATE_DECODE, OTZ_STATE_INVALID}" using c1 c2(3) by simp_all
  note c3 = release_ok [OF opened(3) args(4) this]
  have s3: "se_state (api_sessions c3 ses) = OTZ_STATE_OPEN" "se_device (api_sessions c3 ses) = dev" using c1 c2 c3 by simp_all
  have prep: "fst (otz_operation_prepare_close ses op c3) = OTZ_SUCCESS" "devices c4 = devices c3" "se_device (api_sessions c4 ses) = dev"
    "op_type (api_operations c4 op) = OTZ_OPERATION_CLOSE" "op_state (api_operations c4 op) = OTZ_STATE_PERFORMABLE"
    "op_session (api_operations c4 op) = ses" "op_temp_count (api_operations c4 op) = 0"
    using args s3 c3 by (simp_all add: closed(1) otz_operation_prepare_close_def)
  note c5 = perform_close_ok [OF closed(2) prep(4-6,3)]
  have "op_session (api_operations c5 op) = ses" "op_temp_count (api_operations c5 op) = 0"
    "op_state (api_operations c5 op) \<in> {OTZ_STATE_DECODE, OTZ_STATE_INVALID}" using prep c5(3) by simp_all
  note c6 = release_ok [OF closed(3) args(4) this]
  have "devices c6 = devices c" using c1 c2 c3 prep c5 c6 by (simp add: fun_eq_iff)
  moreover have "dv_sessions (devices c3 dev) = dv_sessions (devices c dev) + 1" using c1 c2 c3 by simp
  ultimately show ?thesis using s3 prep(1) c5 c6 by simp
qed

section \<open>A session that is given up\<close>


text \<open>A client with a device open as descriptor 3; the secure world opens session 8 and closes it.\<close>

definition sample_api :: "otz_session_t \<Rightarrow> api" where
  "sample_api ses =
     \<lparr>drv = (sample_client [])\<lparr>replies := [\<lambda>_ m. (0, write32 0x5008 8 m), \<lambda>_ m. (0, m)]\<rparr>,
      fd_table = [3 \<mapsto> Otz_file 1 O_RDWR], new_fds = [], other_paths = (\<lambda>_. False), new_maps = [], unmapped = [], errno = 0,
      client_links = \<lparr>nxt = (\<lambda>_. 0), prv = (\<lambda>_. 0)\<rparr>, stack_cmd = sample_cmd, stack_ids = \<lparr>ss_service = 0, ss_session = 0\<rparr>,
      devices = (\<lambda>_. \<lparr>dv_state = OTZ_STATE_OPEN, dv_fd = 3, dv_sessions = 0, dv_errno = 0\<rparr>),
      api_sessions = (\<lambda>_. ses),
      api_operations = (\<lambda>_. \<lparr>op_state = 0, op_session = 0, op_type = 0, op_cmd_id = 0, op_encode_id = 0, op_enc_error = 0, op_dec_error = 0,
        op_shared = [], op_shared_count = 0, op_temp = [], op_temp_count = 0, op_errno = 0\<rparr>),
      api_blocks = (\<lambda>_. \<lparr>sm_state = 0, sm_length = 0, sm_flags = 0, sm_block = 0, sm_session = 0, sm_session_id = 0, sm_operations = 0, sm_errno = 0\<rparr>)\<rparr>"

definition sample_api_session :: otz_session_t where
  "sample_api_session = \<lparr>se_state = 0, se_operations = 0, se_session_id = 0, se_service_id = 0, se_blocks = 0, se_device = 0\<rparr>"


lemmas api_evals = sample_api_def sample_api_session_def otz_operation_prepare_open_def otz_operation_prepare_close_def otz_operation_perform_def
  perform_open_def perform_close_def otz_operation_release_def otz_free_temp_shared_mem_def release_performed_def finish_op_def op_cmd_def
  deref_def cmd_call_def sys_ioctl_def sys_result_def is_errno_def on_ses_def on_op_def on_device_def on_links_def put_word_def
  otz_states otz_kinds otz_errors OTZ_SVC_INVALID_def OTZ_SVC_ECHO_def ERESTARTSYS_def

lemma sample_opens:
  "\<exists>c2. otz_operation_perform 0x30 0x40 (snd (otz_operation_prepare_open 0x10 OTZ_SVC_ECHO 0x20 0x30 (sample_api sample_api_session))) = Some (OTZ_SUCCESS, c2) \<and>
     (\<exists>c3. otz_operation_release 0x30 c2 = Some c3 \<and>
       (\<exists>c5. otz_operation_perform 0x30 0x40 (snd (otz_operation_prepare_close 0x20 0x30 c3)) = Some (OTZ_SUCCESS, c5) \<and>
         (\<exists>c6. otz_operation_release 0x30 c5 = Some c6)))"
  by (simp add: api_evals otz_client_session_open_def otz_client_session_close_def otz_client_operation_release_def
      otz_client_close_session_for_service_def otz_smc_call_def smc_begin_def smc_end_def smc_def fill_cmd_def kfree_def
      SMC_SUCCESS_def SMC_PENDING_def read_write_same driver_evals)

theorem session_leaves_device_witness:
  "\<exists>c2 c3 c5 c6. otz_operation_perform 0x30 0x40 (snd (otz_operation_prepare_open 0x10 OTZ_SVC_ECHO 0x20 0x30 (sample_api sample_api_session))) = Some (OTZ_SUCCESS, c2) \<and>
     otz_operation_release 0x30 c2 = Some c3 \<and>
     otz_operation_perform 0x30 0x40 (snd (otz_operation_prepare_close 0x20 0x30 c3)) = Some (OTZ_SUCCESS, c5) \<and>
     otz_operation_release 0x30 c5 = Some c6 \<and>
     dv_sessions (devices c3 0x10) = 1 \<and> se_state (api_sessions c6 0x20) = OTZ_STATE_UNDEFINED \<and> dv_sessions (devices c6 0x10) = 0"
proof -
  let ?c = "sample_api sample_api_session"
  obtain c2 c3 c5 c6 where run: "otz_operation_perform 0x30 0x40 (snd (otz_operation_prepare_open 0x10 OTZ_SVC_ECHO 0x20 0x30 ?c)) = Some (OTZ_SUCCESS, c2)"
    "otz_operation_release 0x30 c2 = Some c3"
    "otz_operation_perform 0x30 0x40 (snd (otz_operation_prepare_close 0x20 0x30 c3)) = Some (OTZ_SUCCESS, c5)" "otz_operation_release 0x30 c5 = Some c6"
    using sample_opens by blast
  have "dv_sessions (devices ?c 0x10) = 0" by (simp add: sample_api_def)
  then show ?thesis
    using session_leaves_device [OF _ _ _ _ refl run(1,2) refl run(3,4)] run by (auto simp: OTZ_SVC_ECHO_def OTZ_SVC_INVALID_def)
qed

end
