(* ===== verification/TeecApi.thy ===== *)
theory TeecApi
  imports OtzApi
begin

text \<open>
  The client interface of the GlobalPlatform standard (\<open>otz_api/otz_tee_api.c\<close>,
  \<open>include/otz_tee_client_api.h\<close>) over the same system calls as \<open>OtzApi\<close>.

  Contexts, sessions and shared blocks are records at addresses. An operation lies in the memory
  that the driver reads and writes, because the driver is given addresses inside it: the word
  \<open>started\<close>, the word \<open>paramTypes\<close> and four unions of 12 bytes. \<open>ro\<close> is the pointer to the origin of
  an error, which may be null. \<open>stack_types\<close> is the local array \<open>param_types\<close> before it is set.
\<close>

section \<open>Structures and constants\<close>

record TEEC_Context =
  cx_fd :: u32
  cx_sessions :: u32
  cx_blocks :: u32
  cx_errno :: u32

record TEEC_Session =
  ts_operations :: u32
  ts_session_id :: u32
  ts_service_id :: u32
  ts_device :: u32
  ts_errno :: u32

record TEEC_SharedMemory =
  tm_buffer :: u32
  tm_size :: u32
  tm_flags :: u32
  tm_context :: u32
  tm_operations :: u32
  tm_allocated :: bool
  tm_errno :: u32

record teec = client +
  contexts :: "u32 \<Rightarrow> TEEC_Context"
  tee_sessions :: "u32 \<Rightarrow> TEEC_Session"
  tee_blocks :: "u32 \<Rightarrow> TEEC_SharedMemory"
  stack_types :: "u32 list"

definition TEEC_SUCCESS :: u32 where "TEEC_SUCCESS = 0"
definition TEEC_ERROR_GENERIC :: u32 where "TEEC_ERROR_GENERIC = 0xFFFF0000"
definition TEEC_ERROR_ACCESS_DENIED :: u32 where "TEEC_ERROR_ACCESS_DENIED = 0xFFFF0001"
definition TEEC_ERROR_EXCESS_DATA :: u32 where "TEEC_ERROR_EXCESS_DATA = 0xFFFF0004"
definition TEEC_ERROR_BAD_FORMAT :: u32 where "TEEC_ERROR_BAD_FORMAT = 0xFFFF0005"
definition TEEC_ERROR_BAD_PARAMETERS :: u32 where "TEEC_ERROR_BAD_PARAMETERS = 0xFFFF0006"
definition TEEC_ERROR_NOT_IMPLEMENTED :: u32 where "TEEC_ERROR_NOT_IMPLEMENTED = 0xFFFF0009"
definition TEEC_ERROR_NO_DATA :: u32 where "TEEC_ERROR_NO_DATA = 0xFFFF000B"
definition TEEC_ERROR_OUT_OF_MEMORY :: u32 where "TEEC_ERROR_OUT_OF_MEMORY = 0xFFFF000C"

lemmas teec_errors = TEEC_SUCCESS_def TEEC_ERROR_GENERIC_def TEEC_ERROR_ACCESS_DENIED_def TEEC_ERROR_EXCESS_DATA_def
  TEEC_ERROR_BAD_FORMAT_def TEEC_ERROR_BAD_PARAMETERS_def TEEC_ERROR_NOT_IMPLEMENTED_def TEEC_ERROR_NO_DATA_def TEEC_ERROR_OUT_OF_MEMORY_def

definition TEEC_ORIGIN_API :: u32 where "TEEC_ORIGIN_API = 1"
definition TEEC_ORIGIN_TRUSTED_APP :: u32 where "TEEC_ORIGIN_TRUSTED_APP = 4"
definition TEEC_LOGIN_PUBLIC :: u32 where "TEEC_LOGIN_PUBLIC = 0"
definition TEEC_LOGIN_USER :: u32 where "TEEC_LOGIN_USER = 1"
definition TEEC_LOGIN_GROUP :: u32 where "TEEC_LOGIN_GROUP = 2"
definition TEEC_LOGIN_APPLICATION :: u32 where "TEEC_LOGIN_APPLICATION = 4"
definition TEEC_LOGIN_USER_APPLICATION :: u32 where "TEEC_LOGIN_USER_APPLICATION = 5"
definition TEEC_LOGIN_GROUP_APPLICATION :: u32 where "TEEC_LOGIN_GROUP_APPLICATION = 6"
definition TEEC_MEM_INPUT :: u32 where "TEEC_MEM_INPUT = 1"
definition TEEC_MEM_OUTPUT :: u32 where "TEEC_MEM_OUTPUT = 2"
definition TEEC_NONE :: u32 where "TEEC_NONE = 1"
definition TEEC_VALUE_INPUT :: u32 where "TEEC_VALUE_INPUT = 2"
definition TEEC_VALUE_OUTPUT :: u32 where "TEEC_VALUE_OUTPUT = 3"
definition TEEC_VALUE_INOUT :: u32 where "TEEC_VALUE_INOUT = 4"
definition TEEC_MEMREF_TEMP_INPUT :: u32 where "TEEC_MEMREF_TEMP_INPUT = 5"
definition TEEC_MEMREF_TEMP_OUTPUT :: u32 where "TEEC_MEMREF_TEMP_OUTPUT = 6"
definition TEEC_MEMREF_TEMP_INOUT :: u32 where "TEEC_MEMREF_TEMP_INOUT = 7"
definition TEEC_MEMREF_WHOLE :: u32 where "TEEC_MEMREF_WHOLE = 0xC"
definition TEEC_MEMREF_PARTIAL_INPUT :: u32 where "TEEC_MEMREF_PARTIAL_INPUT = 0xD"
definition TEEC_MEMREF_PARTIAL_OUTPUT :: u32 where "TEEC_MEMREF_PARTIAL_OUTPUT = 0xE"
definition TEEC_MEMREF_PARTIAL_INOUT :: u32 where "TEEC_MEMREF_PARTIAL_INOUT = 0xF"
definition TEEC_VALUE_UNDEF :: u32 where "TEEC_VALUE_UNDEF = 0xFFFFFFFF"

lemmas teec_types = TEEC_NONE_def TEEC_VALUE_INPUT_def TEEC_VALUE_OUTPUT_def TEEC_VALUE_INOUT_def TEEC_MEMREF_TEMP_INPUT_def
  TEEC_MEMREF_TEMP_OUTPUT_def TEEC_MEMREF_TEMP_INOUT_def TEEC_MEMREF_WHOLE_def TEEC_MEMREF_PARTIAL_INPUT_def
  TEEC_MEMREF_PARTIAL_OUTPUT_def TEEC_MEMREF_PARTIAL_INOUT_def

definition TEEC_errorlist :: "string list" where
  "TEEC_errorlist =
    [''The operation succeeded'', ''Non-specific cause'', ''Access privileges are not sufficient'', ''The operation was cancelled'',
     ''Concurrent accesses caused conflict'', ''Too much data for the requested operation was passed'',
     ''Input data was of invalid format'', ''Input parameters were invalid'', ''Operation is not valid in the current state'',
     ''The requested data item is not found'', ''The requested operation should exist but is not yet implemented'',
     ''The requested operation is valid but is not supported in this Implementation'', ''Expected data was missing'',
     ''System ran out of resources'', ''The system is busy working on something else'', ''Communication with a remote party failed'',
     ''A security fault was detected'', ''The supplied buffer is too short for the generated output'']"

definition TEEC_service_errorlist :: "string list" where
  "TEEC_service_errorlist =
    [''Service Success'', ''Service Pending'', ''Service Interrupted'', ''Service Error'', ''Service - Invalid Argument'',
     ''Service -Invalid Address'', ''Service No Support'', ''Service No Memory'']"

text \<open>The tables are indexed without a test; there is no result behind their ends.\<close>

definition TEEC_GetError :: "u32 \<Rightarrow> u32 \<Rightarrow> string option" where
  "TEEC_GetError e origin =
     (let table = (if origin = TEEC_ORIGIN_TRUSTED_APP then TEEC_service_errorlist else TEEC_errorlist)
      in if 0 \<le> sint e \<and> nat (sint e) < length table then Some (table ! nat (sint e)) else None)"

definition on_context :: "u32 \<Rightarrow> (TEEC_Context \<Rightarrow> TEEC_Context) \<Rightarrow> teec \<Rightarrow> teec" where
  "on_context p f c = c\<lparr>contexts := (contexts c)(p := f (contexts c p))\<rparr>"

definition on_tee_session :: "u32 \<Rightarrow> (TEEC_Session \<Rightarrow> TEEC_Session) \<Rightarrow> teec \<Rightarrow> teec" where
  "on_tee_session p f c = c\<lparr>tee_sessions := (tee_sessions c)(p := f (tee_sessions c p))\<rparr>"

definition on_tee_block :: "u32 \<Rightarrow> (TEEC_SharedMemory \<Rightarrow> TEEC_SharedMemory) \<Rightarrow> teec \<Rightarrow> teec" where
  "on_tee_block p f c = c\<lparr>tee_blocks := (tee_blocks c)(p := f (tee_blocks c p))\<rparr>"

definition cx_list :: "u32 \<Rightarrow> u32" where "cx_list context = context + 12"
definition tm_head_ref :: "u32 \<Rightarrow> u32" where "tm_head_ref blk = blk + 24"

definition set_origin :: "u32 \<Rightarrow> u32 \<Rightarrow> teec \<Rightarrow> teec" where
  "set_origin ro v c = (if ro = 0 then c else put_word ro v c)"

section \<open>Contexts\<close>

definition TEEC_InitializeContext :: "string option \<Rightarrow> u32 \<Rightarrow> teec \<Rightarrow> (u32 \<times> teec) option" where
  "TEEC_InitializeContext device_name cx c =
     (if cx = 0 then Some (TEEC_ERROR_BAD_PARAMETERS, c)
      else let path = (case device_name of None \<Rightarrow> OTZ_CLIENT_FULL_PATH_DEV_NAME | Some n \<Rightarrow> n)
      in if 256 \<le> length path then None
         else do {
           (r, c1) \<leftarrow> sys_open path O_RDWR c;
           if r = - 1 then Some (TEEC_ERROR_GENERIC, on_context cx (\<lambda>x. x\<lparr>cx_errno := errno c1\<rparr>) c1)
           else Some (TEEC_SUCCESS, on_links (init_list_head (cx_list cx))
                  (on_context cx (\<lambda>x. x\<lparr>cx_fd := r, cx_sessions := 0, cx_blocks := 0\<rparr>) c1)) })"

definition TEEC_FinalizeContext :: "u32 \<Rightarrow> teec \<Rightarrow> teec" where
  "TEEC_FinalizeContext cx c =
     (if cx = 0 then c
      else if cx_sessions (contexts c cx) = 0 \<and> cx_blocks (contexts c cx) = 0
      then on_context cx (\<lambda>x. x\<lparr>cx_fd := 0\<rparr>) (sys_close (cx_fd (contexts c cx)) c)
      else c)"

section \<open>Shared memory\<close>

definition bad_block :: "u32 \<Rightarrow> u32 \<Rightarrow> teec \<Rightarrow> bool" where
  "bad_block cx blk c \<longleftrightarrow> cx = 0 \<or> blk = 0 \<or> tm_size (tee_blocks c blk) = 0 \<or>
     tm_flags (tee_blocks c blk) \<notin> {TEEC_MEM_INPUT, TEEC_MEM_OUTPUT, TEEC_MEM_INPUT OR TEEC_MEM_OUTPUT}"

definition add_block :: "u32 \<Rightarrow> u32 \<Rightarrow> bool \<Rightarrow> teec \<Rightarrow> teec" where
  "add_block cx blk allocated c =
     on_context cx (\<lambda>x. x\<lparr>cx_blocks := cx_blocks x + 1\<rparr>)
       (on_links (\<lambda>l. list_add_tail (cx_list cx) (tm_head_ref blk) (init_list_head (tm_head_ref blk) l))
         (on_tee_block blk (\<lambda>b. b\<lparr>tm_allocated := allocated, tm_context := cx, tm_operations := 0\<rparr>) c))"

definition TEEC_AllocateSharedMemory :: "u32 \<Rightarrow> u32 \<Rightarrow> teec \<Rightarrow> (u32 \<times> teec) option" where
  "TEEC_AllocateSharedMemory cx blk c =
     (if bad_block cx blk c then Some (TEEC_ERROR_BAD_PARAMETERS, c)
      else do {
        (a, c1) \<leftarrow> sys_mmap (tm_size (tee_blocks c blk)) (PROT_READ OR PROT_WRITE) (cx_fd (contexts c cx)) c;
        if a = MAP_FAILED
        then Some (TEEC_ERROR_OUT_OF_MEMORY, on_tee_block blk (\<lambda>b. b\<lparr>tm_errno := errno c1, tm_buffer := 0\<rparr>) c1)
        else Some (TEEC_SUCCESS, add_block cx blk True (on_tee_block blk (\<lambda>b. b\<lparr>tm_buffer := a\<rparr>) c1)) })"

definition TEEC_RegisterSharedMemory :: "u32 \<Rightarrow> u32 \<Rightarrow> teec \<Rightarrow> u32 \<times> teec" where
  "TEEC_RegisterSharedMemory cx blk c =
     (if bad_block cx blk c \<or> tm_buffer (tee_blocks c blk) = 0 then (TEEC_ERROR_BAD_PARAMETERS, c)
      else (TEEC_SUCCESS, add_block cx blk False c))"

definition TEEC_ReleaseSharedMemory :: "u32 \<Rightarrow> teec \<Rightarrow> teec option" where
  "TEEC_ReleaseSharedMemory blk c =
     (let b = tee_blocks c blk; cx = tm_context b
      in if blk = 0 \<or> tm_operations b \<noteq> 0 then Some c
         else if cx = 0 then None
         else let c1 = on_tee_block blk (\<lambda>b. b\<lparr>tm_buffer := 0, tm_size := 0\<rparr>)
                         (if tm_allocated b then sys_munmap (tm_buffer b) (tm_size b) c else c)
              in do {
                (found, l) \<leftarrow> unlink_block (cx_list cx) (tm_head_ref blk) (client_links c1);
                let c2 = (if found then on_context cx (\<lambda>x. x\<lparr>cx_blocks := cx_blocks x - 1\<rparr>) (c1\<lparr>client_links := l\<rparr>) else c1);
                Some (on_tee_block blk (\<lambda>b. b\<lparr>tm_context := 0\<rparr>) c2) })"

section \<open>Sessions\<close>

definition login_error :: "u32 \<Rightarrow> u32 \<Rightarrow> u32 option" where
  "login_error connection_method connection_data =
     (if connection_method = TEEC_LOGIN_PUBLIC
      then (if connection_data \<noteq> 0 then Some TEEC_ERROR_BAD_PARAMETERS else None)
      else if connection_method \<in> {TEEC_LOGIN_USER, TEEC_LOGIN_APPLICATION, TEEC_LOGIN_USER_APPLICATION}
      then Some (if connection_data \<noteq> 0 then TEEC_ERROR_BAD_PARAMETERS else TEEC_ERROR_NOT_IMPLEMENTED)
      else if connection_method \<in> {TEEC_LOGIN_GROUP, TEEC_LOGIN_GROUP_APPLICATION}
      then Some (if connection_data = 0 then TEEC_ERROR_BAD_PARAMETERS else TEEC_ERROR_NOT_IMPLEMENTED)
      else None)"

definition TEEC_OpenSession :: "u32 \<Rightarrow> u32 \<Rightarrow> u32 \<Rightarrow> u32 \<Rightarrow> u32 \<Rightarrow> u32 \<Rightarrow> u32 \<Rightarrow> teec \<Rightarrow> (u32 \<times> teec) option" where
  "TEEC_OpenSession cx ses destination connection_method connection_data operation ro c =
     (if cx = 0 \<or> ses = 0 \<or> destination = 0 then Some (TEEC_ERROR_BAD_PARAMETERS, c)
      else case login_error connection_method connection_data of
        Some e \<Rightarrow> Some (e, c)
      | None \<Rightarrow> do {
          (r, q, c1) \<leftarrow> sys_ioctl (cx_fd (contexts c cx)) (Ses_open_req ((stack_ids c)\<lparr>ss_service := read32 (kmem (drv c)) destination\<rparr>)) c;
          if r <s 0
          then Some (if r = - ENOMEM then TEEC_ERROR_OUT_OF_MEMORY else if r = - EFAULT then TEEC_ERROR_ACCESS_DENIED
                     else if r = - EINVAL then TEEC_ERROR_BAD_PARAMETERS else TEEC_ERROR_GENERIC,
                 on_context cx (\<lambda>x. x\<lparr>cx_errno := errno c1\<rparr>) (set_origin ro TEEC_ORIGIN_API c1))
          else if r \<noteq> 0
          then map_option (\<lambda>_. (r, set_origin ro TEEC_ORIGIN_TRUSTED_APP c1)) (TEEC_GetError r TEEC_ORIGIN_TRUSTED_APP)
          else do {
            ids \<leftarrow> ids_of q;
            Some (TEEC_SUCCESS,
              on_tee_session ses (\<lambda>s. s\<lparr>ts_operations := 0, ts_session_id := ss_session ids,
                  ts_service_id := read32 (kmem (drv c1)) destination, ts_device := cx\<rparr>)
                (on_context cx (\<lambda>x. x\<lparr>cx_sessions := cx_sessions x + 1\<rparr>) c1)) } })"

definition TEEC_CloseSession :: "u32 \<Rightarrow> teec \<Rightarrow> teec option" where
  "TEEC_CloseSession ses c =
     (let s = tee_sessions c ses
      in if ses = 0 \<or> ts_operations s \<noteq> 0 then Some c
         else do {
           x \<leftarrow> deref (ts_device s) (contexts c);
           (r, _, c1) \<leftarrow> sys_ioctl (cx_fd x) (Ses_close_req \<lparr>ss_service = ts_service_id s, ss_session = ts_session_id s\<rparr>) c;
           Some (if r = 0
                 then on_tee_session ses (\<lambda>s. s\<lparr>ts_device := 0, ts_session_id := - 1\<rparr>)
                        (on_context (ts_device s) (\<lambda>x. x\<lparr>cx_sessions := cx_sessions x - 1\<rparr>) c1)
                 else c1) })"

section \<open>Commands: encoding\<close>

text \<open>
  Every step gives the value of \<open>ret\<close>, the command, and where it may change the variable \<open>inout\<close>: 0 for
  a parameter that is passed in, 1 for one passed out, 2 for both. The loops stop when \<open>ret\<close> is not zero.
\<close>

definition started_at :: "u32 \<Rightarrow> teec \<Rightarrow> u32" where "started_at op c = read32 (kmem (drv c)) op"
definition types_at :: "u32 \<Rightarrow> teec \<Rightarrow> u32" where "types_at op c = read32 (kmem (drv c)) (op + 4)"
definition param_at :: "u32 \<Rightarrow> nat \<Rightarrow> u32" where "param_at op i = op + 8 + 12 * of_nat i"

definition param_types :: "u32 \<Rightarrow> u32 list" where
  "param_types w = [w AND 0xF, drop_bit 4 w AND 0xF, drop_bit 8 w AND 0xF, drop_bit 12 w AND 0xF]"

definition teec_call ::
  "(otz_client_encode_cmd \<Rightarrow> ioctl) \<Rightarrow> u32 \<Rightarrow> u32 \<Rightarrow> otz_client_encode_cmd \<Rightarrow> teec \<Rightarrow> (u32 \<times> otz_client_encode_cmd \<times> teec) option" where
  "teec_call req ro ses e c = do {
     x \<leftarrow> deref (ts_device (tee_sessions c ses)) (contexts c);
     (r, e1, c1) \<leftarrow> cmd_call req (cx_fd x) e c;
     Some (r, e1, if r \<noteq> 0 then on_tee_session ses (\<lambda>s. s\<lparr>ts_errno := errno c1\<rparr>) (set_origin ro TEEC_ORIGIN_API c1) else c1) }"

definition encode_dirs ::
  "(otz_client_encode_cmd \<Rightarrow> ioctl) \<Rightarrow> u32 \<Rightarrow> u32 \<Rightarrow> u32 \<Rightarrow> otz_client_encode_cmd \<Rightarrow> teec \<Rightarrow> (u32 \<times> otz_client_encode_cmd \<times> teec) option" where
  "encode_dirs req ro ses inout e c = do {
     (r, e1, c1) \<leftarrow> teec_call req ro ses (e\<lparr>c_param_type := if inout = 1 then OTZC_PARAM_OUT else OTZC_PARAM_IN\<rparr>) c;
     if r \<noteq> 0 \<or> inout \<noteq> 2 then Some (r, e1, c1)
     else teec_call req ro ses (e1\<lparr>c_param_type := OTZC_PARAM_OUT\<rparr>) c1 }"

definition encode_value :: "u32 \<Rightarrow> u32 \<Rightarrow> u32 \<Rightarrow> u32 \<Rightarrow> otz_client_encode_cmd \<Rightarrow> teec \<Rightarrow> (u32 \<times> otz_client_encode_cmd \<times> teec) option" where
  "encode_value ro ses inout p e c = do {
     (r, e1, c1) \<leftarrow> encode_dirs Enc_uint32 ro ses inout (e\<lparr>c_data := p, c_len := 4\<rparr>) c;
     if r \<noteq> 0 \<or> read32 (kmem (drv c1)) (p + 4) = TEEC_VALUE_UNDEF then Some (r, e1, c1)
     else encode_dirs Enc_uint32 ro ses inout (e1\<lparr>c_data := p + 4, c_len := 4\<rparr>) c1 }"

definition memref_error :: "u32 \<Rightarrow> u32 \<Rightarrow> u32 \<Rightarrow> TEEC_SharedMemory \<Rightarrow> u32 option" where
  "memref_error t off sz b =
     (let needs_in = t \<in> {TEEC_MEMREF_PARTIAL_INPUT, TEEC_MEMREF_PARTIAL_INOUT};
          needs_out = t \<in> {TEEC_MEMREF_PARTIAL_OUTPUT, TEEC_MEMREF_PARTIAL_INOUT}
      in if tm_buffer b = 0 then Some TEEC_ERROR_NO_DATA
         else if needs_in \<and> tm_flags b AND TEEC_MEM_INPUT = 0 then Some TEEC_ERROR_BAD_FORMAT
         else if needs_out \<and> tm_flags b AND TEEC_MEM_OUTPUT = 0 then Some TEEC_ERROR_BAD_FORMAT
         else if (needs_in \<or> needs_out) \<and> tm_size b < off + sz then Some TEEC_ERROR_EXCESS_DATA
         else None)"

text \<open>The direction of a whole block comes from its flags; other flags leave that of the parameter before.\<close>

definition memref_dir :: "u32 \<Rightarrow> TEEC_SharedMemory \<Rightarrow> u32 \<Rightarrow> u32" where
  "memref_dir t b inout =
     (if t = TEEC_MEMREF_PARTIAL_INPUT then 0
      else if t = TEEC_MEMREF_PARTIAL_OUTPUT then 1
      else if t = TEEC_MEMREF_PARTIAL_INOUT then 2
      else if tm_flags b = (TEEC_MEM_INPUT OR TEEC_MEM_OUTPUT) then 2
      else if tm_flags b = TEEC_MEM_INPUT then 0
      else if tm_flags b = TEEC_MEM_OUTPUT then 1
      else inout)"

definition encode_memref ::
  "u32 \<Rightarrow> u32 \<Rightarrow> u32 \<Rightarrow> u32 \<Rightarrow> u32 \<Rightarrow> otz_client_encode_cmd \<Rightarrow> teec \<Rightarrow> (u32 \<times> u32 \<times> otz_client_encode_cmd \<times> teec) option" where
  "encode_memref ro ses t p inout e c =
     (let m = kmem (drv c); parent = read32 m p; sz = read32 m (p + 4); off = read32 m (p + 8); b = tee_blocks c parent
      in if parent = 0 then Some (TEEC_ERROR_NO_DATA, inout, e, set_origin ro TEEC_ORIGIN_API c)
         else case memref_error t off sz b of
           Some r \<Rightarrow> Some (r, inout, e, set_origin ro TEEC_ORIGIN_API c)
         | None \<Rightarrow>
             let dir = memref_dir t b inout;
                 e1 = (if t = TEEC_MEMREF_WHOLE then e\<lparr>c_len := tm_size b, c_offset := 0\<rparr> else e\<lparr>c_len := sz, c_offset := off\<rparr>)
             in map_option (\<lambda>(r, e2, c1). (r, dir, e2, c1))
                  (if tm_allocated b then encode_dirs Enc_mem_ref ro ses dir (e1\<lparr>c_data := tm_buffer b\<rparr>) c
                   else encode_dirs Enc_array ro ses dir (e1\<lparr>c_data := tm_buffer b + c_offset e1, c_offset := 0\<rparr>) c))"

definition encode_tmpref ::
  "u32 \<Rightarrow> u32 \<Rightarrow> u32 \<Rightarrow> u32 \<Rightarrow> u32 \<Rightarrow> otz_client_encode_cmd \<Rightarrow> teec \<Rightarrow> (u32 \<times> u32 \<times> otz_client_encode_cmd \<times> teec) option" where
  "encode_tmpref ro ses t p inout e c =
     (let buf = read32 (kmem (drv c)) p; sz = read32 (kmem (drv c)) (p + 4);
          dir = (if t = TEEC_MEMREF_TEMP_INPUT then 0 else if t = TEEC_MEMREF_TEMP_OUTPUT then 1 else 2)
      in if buf = 0 \<or> sz = 0 then Some (TEEC_ERROR_NO_DATA, inout, e, set_origin ro TEEC_ORIGIN_API c)
         else map_option (\<lambda>(r, e1, c1). (r, dir, e1, c1)) (encode_dirs Enc_array ro ses dir (e\<lparr>c_len := sz, c_data := buf\<rparr>) c))"

definition encode_parameter ::
  "u32 \<Rightarrow> u32 \<Rightarrow> u32 \<Rightarrow> u32 \<Rightarrow> u32 \<Rightarrow> otz_client_encode_cmd \<Rightarrow> teec \<Rightarrow> (u32 \<times> u32 \<times> otz_client_encode_cmd \<times> teec) option" where
  "encode_parameter ro ses t p inout e c =
     (if t \<in> {TEEC_VALUE_INPUT, TEEC_VALUE_INOUT, TEEC_VALUE_OUTPUT}
      then let dir = (if t = TEEC_VALUE_INPUT then 0 else if t = TEEC_VALUE_OUTPUT then 1 else 2)
           in map_option (\<lambda>(r, e1, c1). (r, dir, e1, c1)) (encode_value ro ses dir p e c)
      else if t \<in> {TEEC_MEMREF_WHOLE, TEEC_MEMREF_PARTIAL_INPUT, TEEC_MEMREF_PARTIAL_INOUT, TEEC_MEMREF_PARTIAL_OUTPUT}
      then encode_memref ro ses t p inout e c
      else if t \<in> {TEEC_MEMREF_TEMP_INPUT, TEEC_MEMREF_TEMP_OUTPUT, TEEC_MEMREF_TEMP_INOUT}
      then encode_tmpref ro ses t p inout e c
      else Some (0, inout, e, c))"

fun teec_encode ::
  "u32 \<Rightarrow> u32 \<Rightarrow> u32 \<Rightarrow> (nat \<times> u32) list \<Rightarrow> u32 \<Rightarrow> otz_client_encode_cmd \<Rightarrow> teec \<Rightarrow> (u32 \<times> otz_client_encode_cmd \<times> teec) option" where
  "teec_encode ro ses op [] inout e c = Some (0, e, c)"
| "teec_encode ro ses op ((i, t) # ts) inout e c = do {
     (r, inout1, e1, c1) \<leftarrow> encode_parameter ro ses t (param_at op i) inout e c;
     if r \<noteq> 0 then Some (r, e1, c1) else teec_encode ro ses op ts inout1 e1 c1 }"

section \<open>Commands: decoding\<close>

definition decode_word ::
  "u32 \<Rightarrow> u32 \<Rightarrow> u32 \<Rightarrow> otz_client_encode_cmd \<Rightarrow> teec \<Rightarrow> (u32 \<times> otz_client_encode_cmd \<times> teec) option" where
  "decode_word ro ses p e c = do {
     (r, e1, c1) \<leftarrow> teec_call Dec_uint32 ro ses (e\<lparr>c_len := 4\<rparr>) c;
     if r \<noteq> 0 then Some (r, e1, c1)
     else if c_data e1 = 0 then None
     else Some (0, e1, put_word p (read32 (kmem (drv c1)) (c_data e1)) c1) }"

definition decode_parameter ::
  "u32 \<Rightarrow> u32 \<Rightarrow> u32 \<Rightarrow> u32 \<Rightarrow> otz_client_encode_cmd \<Rightarrow> teec \<Rightarrow> (u32 \<times> otz_client_encode_cmd \<times> teec) option" where
  "decode_parameter ro ses t p e c =
     (if t \<in> {TEEC_VALUE_INOUT, TEEC_VALUE_OUTPUT}
      then do {
        (r, e1, c1) \<leftarrow> decode_word ro ses p e c;
        if r \<noteq> 0 \<or> read32 (kmem (drv c1)) (p + 4) = TEEC_VALUE_UNDEF then Some (r, e1, c1)
        else decode_word ro ses (p + 4) e1 c1 }
      else if t \<in> {TEEC_MEMREF_WHOLE, TEEC_MEMREF_PARTIAL_INOUT, TEEC_MEMREF_PARTIAL_OUTPUT, TEEC_MEMREF_TEMP_INOUT, TEEC_MEMREF_TEMP_OUTPUT}
      then do {
        inout \<leftarrow> (if t = TEEC_MEMREF_WHOLE
                 then map_option (\<lambda>b. memref_dir t b 2) (deref (read32 (kmem (drv c)) p) (tee_blocks c))
                 else Some 2);
        if inout = 0 then Some (0, e, c)
        else do {
          (r, e1, c1) \<leftarrow> teec_call Dec_array_space ro ses e c;
          Some (r, e1, if r \<noteq> 0 then c1 else put_word (p + 4) (c_len e1) c1) } }
      else Some (0, e, c))"

fun teec_decode ::
  "u32 \<Rightarrow> u32 \<Rightarrow> u32 \<Rightarrow> (nat \<times> u32) list \<Rightarrow> otz_client_encode_cmd \<Rightarrow> teec \<Rightarrow> (u32 \<times> otz_client_encode_cmd \<times> teec) option" where
  "teec_decode ro ses op [] e c = Some (0, e, c)"
| "teec_decode ro ses op ((i, t) # ts) e c = do {
     (r, e1, c1) \<leftarrow> decode_parameter ro ses t (param_at op i) e c;
     if r \<noteq> 0 then Some (r, e1, c1) else teec_decode ro ses op ts e1 c1 }"

section \<open>Commands\<close>

definition teec_send :: "u32 \<Rightarrow> u32 \<Rightarrow> otz_client_encode_cmd \<Rightarrow> teec \<Rightarrow> (u32 \<times> otz_client_encode_cmd \<times> teec) option" where
  "teec_send ro ses e c = do {
     x \<leftarrow> deref (ts_device (tee_sessions c ses)) (contexts c);
     (r, e1, c1) \<leftarrow> cmd_call Send_cmd_req (cx_fd x) e c;
     if r <s 0
     then Some (if r = - EFAULT then TEEC_ERROR_ACCESS_DENIED else if r = - EINVAL then TEEC_ERROR_BAD_PARAMETERS else r, e1,
                on_tee_session ses (\<lambda>s. s\<lparr>ts_errno := errno c1\<rparr>) (set_origin ro TEEC_ORIGIN_API c1))
     else if r \<noteq> 0
     then map_option (\<lambda>_. (r, e1, set_origin ro TEEC_ORIGIN_TRUSTED_APP c1)) (TEEC_GetError r TEEC_ORIGIN_TRUSTED_APP)
     else Some (0, e1, c1) }"

definition teec_finish :: "u32 \<Rightarrow> u32 \<Rightarrow> otz_client_encode_cmd \<Rightarrow> teec \<Rightarrow> (u32 \<times> teec) option" where
  "teec_finish ses r e c = do {
     x \<leftarrow> deref (ts_device (tee_sessions c ses)) (contexts c);
     (_, _, c1) \<leftarrow> cmd_call Operation_release (cx_fd x) e c;
     Some (r, on_tee_session ses (\<lambda>s. s\<lparr>ts_operations := ts_operations s - 1\<rparr>) c1) }"

text \<open>The command that \<open>TEEC_InvokeCommand\<close> begins with.\<close>

definition invoke_cmd :: "u32 \<Rightarrow> u32 \<Rightarrow> teec \<Rightarrow> otz_client_encode_cmd" where
  "invoke_cmd ses command c = (stack_cmd c)\<lparr>c_encode_id := - 1, c_cmd_id := command,
     c_service_id := ts_service_id (tee_sessions c ses), c_session_id := ts_session_id (tee_sessions c ses)\<rparr>"

definition TEEC_InvokeCommand :: "u32 \<Rightarrow> u32 \<Rightarrow> u32 \<Rightarrow> u32 \<Rightarrow> teec \<Rightarrow> (u32 \<times> teec) option" where
  "TEEC_InvokeCommand ses command op ro c =
     (let e = invoke_cmd ses command c
      in if ses = 0 then Some (TEEC_ERROR_BAD_PARAMETERS, c)
         else if op \<noteq> 0 \<and> started_at op c = 0 then Some (TEEC_ERROR_NOT_IMPLEMENTED, c)
         else if op = 0 then None
         else do {
           let c1 = on_tee_session ses (\<lambda>s. s\<lparr>ts_operations := ts_operations s + 1\<rparr>) c;
           let ts = (if types_at op c1 = 0 then stack_types c1 else param_types (types_at op c1));
           (r, e2, c2) \<leftarrow> (if types_at op c1 = 0 then Some (0, e, c1) else teec_encode ro ses op (enumerate 0 ts) 0 e c1);
           if r \<noteq> 0 then teec_finish ses r e2 c2
           else do {
             (r, e3, c3) \<leftarrow> teec_send ro ses e2 c2;
             if r \<noteq> 0 then teec_finish ses r e3 c3
             else do {
               (r, e4, c4) \<leftarrow> (if types_at op c3 = 0 then Some (0, e3, c3) else teec_decode ro ses op (enumerate 0 ts) e3 c3);
               teec_finish ses r e4 c4 } } })"

definition TEEC_RequestCancellation :: "u32 \<Rightarrow> teec \<Rightarrow> teec" where
  "TEEC_RequestCancellation op c = c"

end
