(* ===== verification/TeecProps.thy ===== *)
theory TeecProps
  imports TeecApi OtzDriverProps "HOL-Library.Multiset"
begin

text \<open>
  What the client interface does: its parameters reach a service of the secure kernel, through the
  driver; the list of the shared blocks of a context and its count agree, so that a context whose
  blocks and sessions are gone is closed.
\<close>

section \<open>Calls that succeed\<close>

definition device_of :: "u32 \<Rightarrow> teec \<Rightarrow> u32 \<Rightarrow> bool" where
  "device_of ses c dev \<longleftrightarrow> ts_device (tee_sessions c ses) \<noteq> 0 \<and>
     (\<exists>flags. fd_table c (cx_fd (contexts c (ts_device (tee_sessions c ses)))) = Some (Otz_file dev flags))"

lemma device_of_drv [simp]: "device_of ses (c\<lparr>drv := d\<rparr>) dev = device_of ses c dev"
  by (simp add: device_of_def)

lemma sys_result_zero: "fst (sys_result r c) = 0 \<Longrightarrow> r = 0 \<and> snd (sys_result r c) = c"
  by (auto simp: sys_result_def fails_def split: if_splits)

lemma teec_call_ok:
  assumes "teec_call req ro ses e c = Some (0, e1, c1)" "device_of ses c dev"
  obtains q d where "otz_client_ioctl dev (req e) (drv c) = Some (0, q, d)" "cmd_of q = Some e1" "c1 = c\<lparr>drv := d\<rparr>"
proof -
  obtain r q d where "otz_client_ioctl dev (req e) (drv c) = Some (r, q, d)" "fst (sys_result r (c\<lparr>drv := d\<rparr>)) = 0"
      "cmd_of q = Some e1" "c1 = snd (sys_result r (c\<lparr>drv := d\<rparr>))"
    using assms by (auto simp: teec_call_def device_of_def deref_def cmd_call_def sys_ioctl_def bind_eq_Some_conv case_prod_unfold split: if_splits)
  then show thesis using that sys_result_zero by metis
qed

section \<open>Parameters\<close>

text \<open>The context of the command holds the parameters \<open>ps\<close>, or will when the next call prepares it.\<close>

definition ready :: "u32 \<Rightarrow> mem \<Rightarrow> u32 \<Rightarrow> u32 \<Rightarrow> param list \<Rightarrow> otz_client_encode_cmd \<Rightarrow> teec \<Rightarrow> bool" where
  "ready dev m0 rq mt ps e c \<longleftrightarrow>
     (\<forall>d. same_driver (drv c) d \<longrightarrow> prepares dev e d ps m0 rq mt) \<and>
     (ps \<noteq> [] \<longrightarrow> (\<exists>n. context_of dev e (drv c) = Some n \<and> encoding ps m0 rq mt n (drv c))) \<and>
     (\<forall>x. x \<notin> span rq 1024 \<union> span mt 256 \<longrightarrow> kmem (drv c) x = m0 x)"

lemma ready_set: "ready dev m0 rq mt ps e c \<Longrightarrow> c_service_id e' = c_service_id e \<Longrightarrow> c_session_id e' = c_session_id e \<Longrightarrow>
    c_encode_id e' = c_encode_id e \<Longrightarrow> ready dev m0 rq mt ps e' c"
  unfolding ready_def using prepares_cong [of e' e] by (auto simp: otz_client_prepare_decode_def)

lemma ready_step:
  assumes R: "ready dev m0 rq mt ps e c" and call: "encode_call step dev e (drv c) = Some (0, e1, d)" and clear: "clear_of_driver rq mt p"
    and param: "c_param_type e = OTZC_PARAM_IN" "c_data e = paddr p"
    and which: "p = Number (paddr p) \<and> step = uint32_step \<or> p = Bytes_at (paddr p) (psize p) \<and> c_len e = of_nat (psize p) \<and> step = array_step"
  shows "ready dev m0 rq mt (ps @ [p]) e1 (c\<lparr>drv := d\<rparr>)"
proof -
  obtain n where n: "context_of dev e1 d = Some n" "encoding (ps @ [p]) m0 rq mt n d"
    using encode_call_adds [OF call _ clear param which] R unfolding ready_def by blast
  moreover have "kmem d x = m0 x" if "x \<notin> span rq 1024 \<union> span mt 256" for x
    using n(2) that by (simp add: encoding_def stream_of_def)
  ultimately show ?thesis using known_prepares unfolding ready_def by auto
qed

definition passed :: "u32 \<Rightarrow> mem \<Rightarrow> u32 \<Rightarrow> u32 \<Rightarrow> u32 \<Rightarrow> param list \<Rightarrow> otz_client_encode_cmd \<Rightarrow> teec \<Rightarrow> bool" where
  "passed dev m0 rq mt ses ps e c \<longleftrightarrow> ready dev m0 rq mt ps e c \<and> device_of ses c dev"

lemma passed_set: "passed dev m0 rq mt ses ps e c \<Longrightarrow> c_service_id e' = c_service_id e \<Longrightarrow> c_session_id e' = c_session_id e \<Longrightarrow>
    c_encode_id e' = c_encode_id e \<Longrightarrow> passed dev m0 rq mt ses ps e' c"
  unfolding passed_def using ready_set by blast

text \<open>A direction of 0 passes one value in.\<close>

lemma encode_dirs_in: "encode_dirs req ro ses 0 e c = teec_call req ro ses (e\<lparr>c_param_type := OTZC_PARAM_IN\<rparr>) c"
  by (cases "teec_call req ro ses (e\<lparr>c_param_type := OTZC_PARAM_IN\<rparr>) c") (auto simp: encode_dirs_def)

lemma number_passed:
  assumes "passed dev m0 rq mt ses ps e c" "encode_dirs Enc_uint32 ro ses 0 (e\<lparr>c_data := p, c_len := 4\<rparr>) c = Some (0, e1, c1)"
    and "clear_of_driver rq mt (Number p)"
  shows "passed dev m0 rq mt ses (ps @ [Number p]) e1 c1"
proof -
  let ?e = "e\<lparr>c_data := p, c_len := 4, c_param_type := OTZC_PARAM_IN\<rparr>"
  have R: "ready dev m0 rq mt ps ?e c" "device_of ses c dev" using passed_set [OF assms(1), of ?e] by (simp_all add: passed_def)
  obtain q d where "otz_client_ioctl dev (Enc_uint32 ?e) (drv c) = Some (0, q, d)" "cmd_of q = Some e1" "c1 = c\<lparr>drv := d\<rparr>"
    using assms(2) R(2) by (auto simp: encode_dirs_in elim: teec_call_ok)
  then have "encode_call uint32_step dev ?e (drv c) = Some (0, e1, d)" "c1 = c\<lparr>drv := d\<rparr>" by (auto simp: otz_client_encode_uint32_def)
  then show ?thesis using ready_step [OF R(1) _ assms(3), of uint32_step e1 d] R(2) by (simp add: passed_def)
qed

lemma array_passed:
  assumes "passed dev m0 rq mt ses ps e c" "encode_dirs Enc_array ro ses 0 (e\<lparr>c_len := n, c_data := p\<rparr>) c = Some (0, e1, c1)"
    and "clear_of_driver rq mt (Bytes_at p (unat n))"
  shows "passed dev m0 rq mt ses (ps @ [Bytes_at p (unat n)]) e1 c1"
proof -
  let ?e = "e\<lparr>c_len := n, c_data := p, c_param_type := OTZC_PARAM_IN\<rparr>"
  have R: "ready dev m0 rq mt ps ?e c" "device_of ses c dev" using passed_set [OF assms(1), of ?e] by (simp_all add: passed_def)
  obtain q d where "otz_client_ioctl dev (Enc_array ?e) (drv c) = Some (0, q, d)" "cmd_of q = Some e1" "c1 = c\<lparr>drv := d\<rparr>"
    using assms(2) R(2) by (auto simp: encode_dirs_in elim: teec_call_ok)
  then have "encode_call array_step dev ?e (drv c) = Some (0, e1, d)" "c1 = c\<lparr>drv := d\<rparr>" by (auto simp: otz_client_encode_array_def)
  then show ?thesis using ready_step [OF R(1) _ assms(3), of array_step e1 d] R(2) by (simp add: passed_def)
qed

text \<open>The parameters that an operation in the memory \<open>m\<close> passes in.\<close>

definition op_params :: "mem \<Rightarrow> u32 \<Rightarrow> nat \<times> u32 \<Rightarrow> param list" where
  "op_params m op it = (case it of (i, t) \<Rightarrow>
     let p = param_at op i
     in if t = TEEC_VALUE_INPUT then Number p # (if read32 m (p + 4) = TEEC_VALUE_UNDEF then [] else [Number (p + 4)])
        else if t = TEEC_MEMREF_TEMP_INPUT then [Bytes_at (read32 m p) (unat (read32 m (p + 4)))]
        else [])"

lemma passed_reads:
  assumes "passed dev m0 rq mt ses ps e c" "span a 4 \<inter> (span rq 1024 \<union> span mt 256) = {}"
  shows "read32 (kmem (drv c)) a = read32 m0 a"
  using assms by (intro read32_cong) (auto simp: passed_def ready_def)

definition fields_apart :: "u32 \<Rightarrow> u32 \<Rightarrow> u32 \<Rightarrow> bool" where
  "fields_apart rq mt p \<longleftrightarrow> (\<forall>k\<in>{0, 4}. span (p + k) 4 \<inter> (span rq 1024 \<union> span mt 256) = {})"

lemma parameter_passed:
  assumes P: "passed dev m0 rq mt ses ps e c" and run: "encode_parameter ro ses t (param_at op i) inout e c = Some (0, inout', e1, c1)"
    and t: "t \<in> {0, TEEC_NONE, TEEC_VALUE_INPUT, TEEC_MEMREF_TEMP_INPUT}" and apart: "fields_apart rq mt (param_at op i)"
    and clear: "\<forall>p\<in>set (op_params m0 op (i, t)). clear_of_driver rq mt p"
  shows "passed dev m0 rq mt ses (ps @ op_params m0 op (i, t)) e1 c1"
proof -
  let ?p = "param_at op i"
  have rd: "read32 (kmem (drv c2)) (?p + k) = read32 m0 (?p + k)" if "passed dev m0 rq mt ses qs e2 c2" "k \<in> {0, 4}" for qs e2 c2 k
    using passed_reads [OF that(1)] apart that(2) by (auto simp: fields_apart_def)
  consider "t = 0 \<or> t = TEEC_NONE" | "t = TEEC_VALUE_INPUT" | "t = TEEC_MEMREF_TEMP_INPUT" using t by blast
  then show ?thesis
  proof cases
    case 1
    then show ?thesis using run P by (auto simp: encode_parameter_def op_params_def teec_types)
  next
    case 2
    then have "encode_value ro ses 0 ?p e c = Some (0, e1, c1)" using run by (auto simp: encode_parameter_def)
    then obtain r2 e2 c2 where a: "encode_dirs Enc_uint32 ro ses 0 (e\<lparr>c_data := ?p, c_len := 4\<rparr>) c = Some (r2, e2, c2)"
        "if r2 \<noteq> 0 \<or> read32 (kmem (drv c2)) (?p + 4) = TEEC_VALUE_UNDEF then (0, e1, c1) = (r2, e2, c2)
         else encode_dirs Enc_uint32 ro ses 0 (e2\<lparr>c_data := ?p + 4, c_len := 4\<rparr>) c2 = Some (0, e1, c1)"
      by (auto simp: encode_value_def bind_eq_Some_conv split: if_splits)
    then have r2: "r2 = 0" by (auto split: if_splits)
    have first: "passed dev m0 rq mt ses (ps @ [Number ?p]) e2 c2"
      using number_passed [OF P a(1) [unfolded r2]] clear 2 by (auto simp: op_params_def Let_def)
    show ?thesis
    proof (cases "read32 m0 (?p + 4) = TEEC_VALUE_UNDEF")
      case True
      then show ?thesis using first a(2) rd [OF first] r2 2 by (simp add: op_params_def)
    next
      case False
      then have "encode_dirs Enc_uint32 ro ses 0 (e2\<lparr>c_data := ?p + 4, c_len := 4\<rparr>) c2 = Some (0, e1, c1)"
        using a(2) rd [OF first] r2 by simp
      from number_passed [OF first this] show ?thesis using clear False 2 by (auto simp: op_params_def Let_def)
    qed
  next
    case 3
    let ?n = "read32 m0 (?p + 4)"
    have "read32 (kmem (drv c)) ?p = read32 m0 ?p" "read32 (kmem (drv c)) (?p + 4) = ?n" using rd [OF P, of 0] rd [OF P, of 4] by simp_all
    then have "encode_dirs Enc_array ro ses 0 (e\<lparr>c_len := ?n, c_data := read32 m0 ?p\<rparr>) c = Some (0, e1, c1)"
      using run 3 by (auto simp: encode_parameter_def encode_tmpref_def teec_types teec_errors Let_def split: if_splits)
    from array_passed [OF P this] show ?thesis using clear 3 by (auto simp: op_params_def teec_types Let_def)
  qed
qed

lemma operation_passed:
  assumes "passed dev m0 rq mt ses ps e c" "teec_encode ro ses op its inout e c = Some (0, e1, c1)"
    and "\<forall>(i, t)\<in>set its. t \<in> {0, TEEC_NONE, TEEC_VALUE_INPUT, TEEC_MEMREF_TEMP_INPUT} \<and> fields_apart rq mt (param_at op i)"
    and "\<forall>p\<in>set (concat (map (op_params m0 op) its)). clear_of_driver rq mt p"
  shows "passed dev m0 rq mt ses (ps @ concat (map (op_params m0 op) its)) e1 c1"
  using assms
proof (induction its arbitrary: ps inout e c)
  case (Cons it its)
  obtain i t where it: "it = (i, t)" by fastforce
  obtain inout2 e2 c2 where one: "encode_parameter ro ses t (param_at op i) inout e c = Some (0, inout2, e2, c2)"
      "teec_encode ro ses op its inout2 e2 c2 = Some (0, e1, c1)"
    using Cons.prems(2) by (auto simp: it bind_eq_Some_conv split: if_splits)
  have "passed dev m0 rq mt ses (ps @ op_params m0 op it) e2 c2"
    using parameter_passed [OF Cons.prems(1) one(1)] Cons.prems(3,4) by (auto simp: it)
  from Cons.IH [OF this one(2)] Cons.prems(3,4) show ?case by simp
qed simp

lemma nothing_passed:
  assumes "device_of ses c dev" "find_session dev (c_service_id e) (c_session_id e) (drv c) = Some x" "c_encode_id e = - 1"
    and "\<forall>n\<in>set (encode_list x). encode_id n \<noteq> a" "kblocks (drv c) = a # mt # rq # bs" "a \<noteq> 0" "a \<noteq> - 1" "mt \<noteq> 0" "rq \<noteq> 0"
    and "span rq 1024 \<inter> span mt 256 = {}"
  shows "passed dev (kmem (drv c)) rq mt ses [] e c"
  using assms(1) new_prepares [OF assms(2-)] by (simp add: passed_def ready_def)

lemma types_enumerated: "(i, t) \<in> set (enumerate 0 (param_types w)) \<Longrightarrow> i < 4 \<and> t \<in> set (param_types w)"
proof -
  assume "(i, t) \<in> set (enumerate 0 (param_types w))"
  moreover have "length (param_types w) = 4" by (simp add: param_types_def)
  ultimately show ?thesis unfolding enumerate_eq_zip by (auto dest: set_zip_leftD set_zip_rightD)
qed

text \<open>
  C10. The values and temporary buffers that a client passes to \<open>TEEC_InvokeCommand\<close>, in any of its four parameters, go through
  the library and the driver to the secure world: a service decodes them in order, with their lengths and contents, wherever
  the kernel has mapped the request buffer and the meta data.
\<close>

theorem operation_reaches_service:
  assumes dev: "device_of ses c dev"
    and session: "find_session dev (ts_service_id (tee_sessions c ses)) (ts_session_id (tee_sessions c ses)) (drv c) = Some x"
      "\<forall>n\<in>set (encode_list x). encode_id n \<noteq> a"
    and blocks: "kblocks (drv c) = a # mt # rq # bs" "a \<noteq> 0" "a \<noteq> - 1" "mt \<noteq> 0" "rq \<noteq> 0" "span rq 1024 \<inter> span mt 256 = {}"
    and run: "teec_encode ro ses op (enumerate 0 (param_types w)) 0 (invoke_cmd ses command c) c = Some (0, e1, c1)"
    and types: "set (param_types w) \<subseteq> {0, TEEC_NONE, TEEC_VALUE_INPUT, TEEC_MEMREF_TEMP_INPUT}"
    and ps: "ps = concat (map (op_params (kmem (drv c)) op) (enumerate 0 (param_types w)))"
    and clear: "\<forall>p\<in>set ps. clear_of_driver rq mt p" "\<forall>i<4. fields_apart rq mt (param_at op i)"
    and mapped: "\<forall>j<1024. m (data + of_nat j) = kmem (drv c1) (rq + of_nat j)" "\<forall>j<256. m (md + of_nat j) = kmem (drv c1) (mt + of_nat j)"
    and i: "i < length ps"
  shows "decode_data (read32 m) data (meta_at m md) (of_nat (psizes (take i ps))) (of_nat i) pt =
      Inr (Some \<lparr>d_type = ptype (ps ! i), d_offset = of_nat (psizes (take (Suc i) ps)), d_pos = of_nat (Suc i), d_mapped = False,
        d_data = data + of_nat (psizes (take i ps)), d_len = of_nat (psize (ps ! i))\<rparr>, pt) \<and>
    bytes m (data + of_nat (psizes (take i ps))) (psize (ps ! i)) = payload (kmem (drv c)) (ps ! i)"
proof -
  have "passed dev (kmem (drv c)) rq mt ses [] (invoke_cmd ses command c) c"
    using session(1) by (intro nothing_passed [OF dev _ _ session(2) blocks]) (simp_all add: invoke_cmd_def)
  moreover have "\<forall>(i, t)\<in>set (enumerate 0 (param_types w)). t \<in> {0, TEEC_NONE, TEEC_VALUE_INPUT, TEEC_MEMREF_TEMP_INPUT} \<and>
      fields_apart rq mt (param_at op i)"
    using types clear(2) types_enumerated by fast
  ultimately have "passed dev (kmem (drv c)) rq mt ses ps e1 c1"
    using operation_passed [OF _ run] clear(1) unfolding ps by fastforce
  then obtain n where "encoding ps (kmem (drv c)) rq mt n (drv c1)" using i by (auto simp: passed_def ready_def)
  from encoding_decoded [OF this mapped i] show ?thesis .
qed

text \<open>A client with an operation at \<open>0x200\<close>: two values and a buffer of three bytes.\<close>

definition sample_op :: mem where
  "sample_op = write32 0x200 1 (write32 0x204 0x52 (write32 0x208 0x11 (write32 0x20C 0x22 (write32 0x214 0x301 (write32 0x218 3 (\<lambda>x. ucast x))))))"

definition sample_teec :: teec where
  "sample_teec =
     \<lparr>drv = (sample_client [sample_session])\<lparr>kmem := sample_op\<rparr>,
      fd_table = [3 \<mapsto> Otz_file 1 O_RDWR], new_fds = [], other_paths = (\<lambda>_. False), new_maps = [], unmapped = [], errno = 0,
      client_links = \<lparr>nxt = (\<lambda>_. 0), prv = (\<lambda>_. 0)\<rparr>, stack_cmd = sample_cmd, stack_ids = \<lparr>ss_service = 0, ss_session = 0\<rparr>,
      contexts = (\<lambda>_. \<lparr>cx_fd = 3, cx_sessions = 1, cx_blocks = 0, cx_errno = 0\<rparr>),
      tee_sessions = (\<lambda>_. \<lparr>ts_operations = 0, ts_session_id = 7, ts_service_id = OTZ_SVC_ECHO, ts_device = 0x80, ts_errno = 0\<rparr>),
      tee_blocks = (\<lambda>_. \<lparr>tm_buffer = 0, tm_size = 0, tm_flags = 0, tm_context = 0, tm_operations = 0, tm_allocated = False, tm_errno = 0\<rparr>),
      stack_types = []\<rparr>"

lemma sample_op_words: "read32 sample_op 0x20C = 0x22" "read32 sample_op 0x214 = 0x301" "read32 sample_op 0x218 = 3"
  by (simp_all add: sample_op_def read_write_same read_write_other)

lemma sample_params: "concat (map (op_params sample_op 0x200) (enumerate 0 (param_types 0x52))) = [Number 0x208, Number 0x20C, Bytes_at 0x301 3]"
  by (simp add: param_types_def op_params_def param_at_def teec_types TEEC_VALUE_UNDEF_def sample_op_words Let_def)

lemmas teec_evals = encode_parameter_def encode_value_def encode_tmpref_def encode_dirs_def teec_call_def invoke_cmd_def sample_teec_def
  deref_def cmd_call_def sys_ioctl_def sys_result_def is_errno_def param_at_def teec_types TEEC_VALUE_UNDEF_def ERESTARTSYS_def
  otz_client_encode_uint32_def uint32_step_def otz_client_encode_array_def array_step_def driver_evals

lemma sample_encodes: "\<exists>e1 c1. teec_encode 0 0x90 0x200 (enumerate 0 (param_types 0x52)) 0 (invoke_cmd 0x90 1 sample_teec) sample_teec = Some (0, e1, c1)"
  by (simp add: param_types_def teec_evals put_meta_def read_write_other sample_op_words)

theorem operation_reaches_service_witness:
  "\<exists>e1 c1. teec_encode 0 0x90 0x200 (enumerate 0 (param_types 0x52)) 0 (invoke_cmd 0x90 1 sample_teec) sample_teec = Some (0, e1, c1) \<and>
     (\<forall>pt. decode_data (read32 (kmem (drv c1))) 0x7000 (meta_at (kmem (drv c1)) 0x6000) 8 2 pt =
       Inr (Some \<lparr>d_type = OTZ_ENC_ARRAY, d_offset = 11, d_pos = 3, d_mapped = False, d_data = 0x7008, d_len = 3\<rparr>, pt)) \<and>
     bytes (kmem (drv c1)) 0x7008 3 = [0x01, 0x02, 0x03]"
proof -
  let ?ps = "[Number 0x208, Number 0x20C, Bytes_at 0x301 3]"
  obtain e1 c1 where run: "teec_encode 0 0x90 0x200 (enumerate 0 (param_types 0x52)) 0 (invoke_cmd 0x90 1 sample_teec) sample_teec = Some (0, e1, c1)"
    using sample_encodes by blast
  have dev: "device_of 0x90 sample_teec 1" by (simp add: device_of_def sample_teec_def)
  have session: "find_session 1 (ts_service_id (tee_sessions sample_teec 0x90)) (ts_session_id (tee_sessions sample_teec 0x90)) (drv sample_teec) = Some sample_session"
    "\<forall>n\<in>set (encode_list sample_session). encode_id n \<noteq> 0x5000" by (simp_all add: sample_teec_def driver_evals)
  have blocks: "kblocks (drv sample_teec) = 0x5000 # 0x6000 # 0x7000 # [0x8000]" by (simp add: sample_teec_def sample_client_def)
  have types: "set (param_types 0x52) \<subseteq> {0, TEEC_NONE, TEEC_VALUE_INPUT, TEEC_MEMREF_TEMP_INPUT}" by (simp add: param_types_def teec_types)
  have ps: "?ps = concat (map (op_params (kmem (drv sample_teec)) 0x200) (enumerate 0 (param_types 0x52)))"
    unfolding sample_params [symmetric] by (simp add: sample_teec_def)
  have apart: "span 0x7000 1024 \<inter> span 0x6000 256 = {}" by (rule span_apart) simp_all
  have away: "span a n \<inter> span 0x7000 1024 = {}" "span a n \<inter> span 0x6000 256 = {}" if "unat a + n \<le> 0x6000" for a n
    using that by (simp_all add: span_apart)
  have clear: "\<forall>p\<in>set ?ps. clear_of_driver 0x7000 0x6000 p" using away by (simp add: clear_of_driver_def Int_Un_distrib)
  have "i = 0 \<or> i = 1 \<or> i = 2 \<or> i = 3" if "i < 4" for i :: nat using that by linarith
  then have fields: "\<forall>i<4. fields_apart 0x7000 0x6000 (param_at 0x200 i)"
    by (fastforce simp: fields_apart_def param_at_def Int_Un_distrib away)
  have at2: "take 2 ?ps = [Number 0x208, Number 0x20C]" "take (Suc 2) ?ps = ?ps" "?ps ! 2 = Bytes_at 0x301 3" by (simp_all add: numeral_2_eq_2)
  have decoded: "decode_data (read32 (kmem (drv c1))) 0x7000 (meta_at (kmem (drv c1)) 0x6000) 8 2 pt =
       Inr (Some \<lparr>d_type = OTZ_ENC_ARRAY, d_offset = 11, d_pos = 3, d_mapped = False, d_data = 0x7008, d_len = 3\<rparr>, pt) \<and>
     bytes (kmem (drv c1)) 0x7008 3 = payload (kmem (drv sample_teec)) (Bytes_at 0x301 3)" for pt
    using operation_reaches_service [OF dev session blocks _ _ _ _ apart run types ps clear fields, of "kmem (drv c1)" "0x7000" "0x6000" 2 pt]
    by (simp add: psizes_def at2)
  moreover have "payload (kmem (drv sample_teec)) (Bytes_at 0x301 3) = [0x01, 0x02, 0x03]"
    by (simp add: payload_def bytes_def sample_teec_def sample_op_def write32_def upt_rec)
  ultimately show ?thesis using run by auto
qed

section \<open>Shared blocks of a context\<close>

lemma search_ring: "ring l h xs \<Longrightarrow> n \<noteq> h \<Longrightarrow> search_from h n l (nxt l h) = Some (n \<in> set xs)"
proof -
  have "linked l a ys h \<Longrightarrow> h \<notin> set ys \<Longrightarrow> n \<noteq> h \<Longrightarrow> search_from h n l (nxt l a) = Some (n \<in> set ys)" for a ys
    by (induction ys arbitrary: a) (auto simp: search_from.simps)
  then show "ring l h xs \<Longrightarrow> n \<noteq> h \<Longrightarrow> search_from h n l (nxt l h) = Some (n \<in> set xs)" by (auto simp: ring_def)
qed

lemma unlink_ring:
  assumes "ring l h xs" "n \<in> set xs"
  shows "unlink_block h n l = Some (True, list_del n l)" "ring (list_del n l) h (remove1 n xs)"
proof -
  have "n \<noteq> h" using assms by (auto simp: ring_def)
  then show "unlink_block h n l = Some (True, list_del n l)" using search_ring [OF assms(1)] assms(2) by (simp add: unlink_block_def)
  obtain ys zs where xs: "xs = ys @ n # zs" "n \<notin> set ys" using assms(2) by (meson split_list_first)
  then show "ring (list_del n l) h (remove1 n xs)" using ring_list_del assms(1) by (simp add: remove1_append)
qed

lemma ring_init_other: "ring l h xs \<Longrightarrow> p \<notin> set (h # xs) \<Longrightarrow> ring (init_list_head p l) h xs"
  by (simp add: ring_def init_list_head_def ring_simps)

lemma ring_append: "ring l h xs \<Longrightarrow> p \<notin> set (h # xs) \<Longrightarrow> ring (list_add_tail h p (init_list_head p l)) h (xs @ [p])"
  using ring_list_add_before [of "init_list_head p l" h xs "[]" p h] ring_init_other [of l h xs p] by simp

definition listed :: "u32 \<Rightarrow> u32 list \<Rightarrow> teec \<Rightarrow> bool" where
  "listed cx bs c \<longleftrightarrow> cx \<noteq> 0 \<and> ring (client_links c) (cx_list cx) (map tm_head_ref bs) \<and> cx_blocks (contexts c cx) = of_nat (length bs) \<and>
     (\<forall>b\<in>set bs. b \<noteq> 0 \<and> tm_context (tee_blocks c b) = cx \<and> tm_operations (tee_blocks c b) = 0)"

definition same_context :: "u32 \<Rightarrow> teec \<Rightarrow> teec \<Rightarrow> bool" where
  "same_context cx c c' \<longleftrightarrow> cx_fd (contexts c' cx) = cx_fd (contexts c cx) \<and> cx_sessions (contexts c' cx) = cx_sessions (contexts c cx)"

lemma tm_head_ref_eq [simp]: "tm_head_ref a = tm_head_ref b \<longleftrightarrow> a = b"
  by (simp add: tm_head_ref_def)

lemma add_block_listed:
  assumes "listed cx bs c" "b \<notin> set bs" "b \<noteq> 0" "tm_head_ref b \<noteq> cx_list cx"
  shows "listed cx (bs @ [b]) (add_block cx b al c)" "same_context cx c (add_block cx b al c)"
proof -
  have "tm_head_ref b \<notin> set (cx_list cx # map tm_head_ref bs)" using assms by auto
  then have "ring (list_add_tail (cx_list cx) (tm_head_ref b) (init_list_head (tm_head_ref b) (client_links c))) (cx_list cx) (map tm_head_ref bs @ [tm_head_ref b])"
    using assms(1) unfolding listed_def by (intro ring_append) auto
  then show "listed cx (bs @ [b]) (add_block cx b al c)"
    using assms by (simp add: listed_def add_block_def on_context_def on_links_def on_tee_block_def)
  show "same_context cx c (add_block cx b al c)" by (simp add: same_context_def add_block_def on_context_def on_links_def on_tee_block_def)
qed

lemma release_listed:
  assumes "listed cx bs c" "b \<in> set bs" "distinct bs"
  obtains c' where "TEEC_ReleaseSharedMemory b c = Some c'" "listed cx (remove1 b bs) c'" "same_context cx c c'"
proof -
  let ?n = "tm_head_ref b" and ?l = "client_links c"
  have b: "b \<noteq> 0" "cx \<noteq> 0" "tm_context (tee_blocks c b) = cx" "tm_operations (tee_blocks c b) = 0" using assms by (auto simp: listed_def)
  have r: "ring ?l (cx_list cx) (map tm_head_ref bs)" "?n \<in> set (map tm_head_ref bs)" using assms by (auto simp: listed_def)
  note u = unlink_ring [OF r]
  have rem: "remove1 ?n (map tm_head_ref bs) = map tm_head_ref (remove1 b bs)" by (induction bs) auto
  let ?c1 = "if tm_allocated (tee_blocks c b) then sys_munmap (tm_buffer (tee_blocks c b)) (tm_size (tee_blocks c b)) c else c"
  let ?c = "on_tee_block b (\<lambda>x. x\<lparr>tm_context := 0\<rparr>) (on_context cx (\<lambda>x. x\<lparr>cx_blocks := cx_blocks x - 1\<rparr>)
     ((on_tee_block b (\<lambda>x. x\<lparr>tm_buffer := 0, tm_size := 0\<rparr>) ?c1)\<lparr>client_links := list_del ?n ?l\<rparr>))"
  have run: "TEEC_ReleaseSharedMemory b c = Some ?c"
    using b u(1) by (simp add: TEEC_ReleaseSharedMemory_def Let_def on_tee_block_def sys_munmap_def)
  have blocks: "tee_blocks ?c x = tee_blocks c x" if "x \<noteq> b" for x
    using that by (simp add: on_tee_block_def on_context_def sys_munmap_def)
  have "length bs = Suc (length (remove1 b bs))" using assms(2) length_pos_if_in_set [of b bs] by (simp add: length_remove1)
  then have "cx_blocks (contexts ?c cx) = of_nat (length (remove1 b bs))"
    using assms(1) by (simp add: listed_def on_tee_block_def on_context_def sys_munmap_def)
  moreover have "client_links ?c = list_del ?n ?l" by (simp add: on_tee_block_def on_context_def)
  moreover have "\<forall>x\<in>set (remove1 b bs). x \<noteq> 0 \<and> tm_context (tee_blocks ?c x) = cx \<and> tm_operations (tee_blocks ?c x) = 0"
    using assms blocks by (auto simp: listed_def)
  ultimately have "listed cx (remove1 b bs) ?c" using b(2) u(2) rem unfolding listed_def by simp
  moreover have "same_context cx c ?c" by (simp add: same_context_def on_tee_block_def on_context_def sys_munmap_def)
  ultimately show thesis using run that by blast
qed

text \<open>What a client does with its blocks: allocates or registers them, each with success, and releases them later.\<close>

fun acquire :: "u32 \<Rightarrow> (u32 \<times> bool) list \<Rightarrow> teec \<Rightarrow> teec option" where
  "acquire cx [] c = Some c"
| "acquire cx ((b, allocate) # rest) c = do {
     (r, c1) \<leftarrow> (if allocate then TEEC_AllocateSharedMemory cx b c else Some (TEEC_RegisterSharedMemory cx b c));
     if r = TEEC_SUCCESS then acquire cx rest c1 else None }"

fun release_all :: "u32 list \<Rightarrow> teec \<Rightarrow> teec option" where
  "release_all [] c = Some c"
| "release_all (b # bs) c = Option.bind (TEEC_ReleaseSharedMemory b c) (release_all bs)"

lemma sys_mmap_frame:
  assumes "sys_mmap len prot f c = Some (a, c1)"
  shows "client_links c1 = client_links c" "contexts c1 = contexts c" "tee_blocks c1 = tee_blocks c"
proof -
  have "client_links c1 = client_links c \<and> contexts c1 = contexts c \<and> tee_blocks c1 = tee_blocks c"
    using assms by (auto simp: sys_mmap_def fails_def sys_result_def Let_def bind_eq_Some_conv split: option.splits if_splits open_file.splits)
  then show "client_links c1 = client_links c" "contexts c1 = contexts c" "tee_blocks c1 = tee_blocks c" by auto
qed

lemma acquire_one:
  assumes "listed cx bs c" "b \<notin> set bs" "tm_head_ref b \<noteq> cx_list cx"
    and "(if al then TEEC_AllocateSharedMemory cx b c else Some (TEEC_RegisterSharedMemory cx b c)) = Some (TEEC_SUCCESS, c1)"
  shows "listed cx (bs @ [b]) c1 \<and> same_context cx c c1"
proof -
  obtain a c2 where c2: "b \<noteq> 0" "c1 = add_block cx b al (on_tee_block b (\<lambda>x. x\<lparr>tm_buffer := a\<rparr>) c2)"
    "client_links c2 = client_links c" "contexts c2 = contexts c" "tee_blocks c2 = tee_blocks c"
  proof (cases al)
    case True
    then obtain a c2 where "sys_mmap (tm_size (tee_blocks c b)) (PROT_READ OR PROT_WRITE) (cx_fd (contexts c cx)) c = Some (a, c2)"
      "c1 = add_block cx b al (on_tee_block b (\<lambda>x. x\<lparr>tm_buffer := a\<rparr>) c2)" "b \<noteq> 0"
      using assms(4) by (auto simp: TEEC_AllocateSharedMemory_def bad_block_def teec_errors bind_eq_Some_conv split: if_splits)
    then show thesis using that sys_mmap_frame by blast
  next
    case False
    have "on_tee_block b (\<lambda>x. x\<lparr>tm_buffer := tm_buffer (tee_blocks c b)\<rparr>) c = c" by (simp add: on_tee_block_def)
    moreover have "b \<noteq> 0" "c1 = add_block cx b al c"
      using False assms(4) by (auto simp: TEEC_RegisterSharedMemory_def bad_block_def teec_errors split: if_splits)
    ultimately show thesis using that [of "tm_buffer (tee_blocks c b)" c] by simp
  qed
  have "listed cx bs (on_tee_block b (\<lambda>x. x\<lparr>tm_buffer := a\<rparr>) c2)" using assms(1,2) c2(3-5) by (auto simp: listed_def on_tee_block_def)
  from add_block_listed [OF this assms(2) c2(1) assms(3), of al] show ?thesis
    using c2(2,4) by (simp add: same_context_def on_tee_block_def)
qed

lemma acquire_listed:
  assumes "listed cx bs c" "acquire cx reqs c = Some c1" "distinct (bs @ map fst reqs)" "\<forall>b\<in>set (map fst reqs). tm_head_ref b \<noteq> cx_list cx"
  shows "listed cx (bs @ map fst reqs) c1 \<and> same_context cx c c1"
  using assms
proof (induction reqs arbitrary: bs c)
  case Nil
  then show ?case by (simp add: same_context_def)
next
  case (Cons q reqs)
  obtain b al where q: "q = (b, al)" by fastforce
  obtain c2 where c2: "(if al then TEEC_AllocateSharedMemory cx b c else Some (TEEC_RegisterSharedMemory cx b c)) = Some (TEEC_SUCCESS, c2)"
    "acquire cx reqs c2 = Some c1" using Cons.prems(2) by (auto simp: q bind_eq_Some_conv split: if_splits)
  have "listed cx (bs @ [b]) c2 \<and> same_context cx c c2" using acquire_one [OF Cons.prems(1) _ _ c2(1)] Cons.prems(3,4) by (simp add: q)
  then show ?case using Cons.IH [of "bs @ [b]" c2] c2(2) Cons.prems(3,4) by (auto simp: q same_context_def)
qed

lemma release_all_listed:
  "listed cx bs c \<Longrightarrow> distinct bs \<Longrightarrow> mset rs = mset bs \<Longrightarrow> \<exists>c2. release_all rs c = Some c2 \<and> listed cx [] c2 \<and> same_context cx c c2"
proof (induction rs arbitrary: bs c)
  case Nil
  then show ?case by (simp add: same_context_def)
next
  case (Cons b rs)
  have b: "b \<in> set bs" "mset rs = mset (remove1 b bs)" using Cons.prems(3) by (metis list.set_intros(1) set_mset_mset, simp add: Cons.prems(3) [symmetric])
  obtain c1 where "TEEC_ReleaseSharedMemory b c = Some c1" "listed cx (remove1 b bs) c1" "same_context cx c c1"
    using release_listed [OF Cons.prems(1) b(1) Cons.prems(2)] by blast
  then show ?case using Cons.IH [of "remove1 b bs" c1] Cons.prems(2) b(2) by (auto simp: same_context_def)
qed

text \<open>
  C38. Blocks that a client allocates or registers in a context are counted exactly, and when it has released all of them, in any
  order, the context counts none and \<open>TEEC_FinalizeContext\<close> closes the device.
\<close>

theorem context_closes_after_release:
  assumes "TEEC_InitializeContext path cx c0 = Some (TEEC_SUCCESS, c)" "acquire cx reqs c = Some c1"
    and "distinct (map fst reqs)" "\<forall>b\<in>set (map fst reqs). tm_head_ref b \<noteq> cx_list cx" "mset rs = mset (map fst reqs)"
  shows "cx_blocks (contexts c1 cx) = of_nat (length reqs) \<and>
    (\<exists>c2. release_all rs c1 = Some c2 \<and> cx_blocks (contexts c2 cx) = 0 \<and>
       fd_table (TEEC_FinalizeContext cx c2) (cx_fd (contexts c cx)) = None)"
proof -
  have new: "listed cx [] c" "cx_sessions (contexts c cx) = 0"
    using assms(1) ring_init [of "cx_list cx"]
    by (auto simp: TEEC_InitializeContext_def listed_def teec_errors on_links_def on_context_def Let_def bind_eq_Some_conv split: if_splits)
  have a: "listed cx (map fst reqs) c1" "same_context cx c c1" using acquire_listed [OF new(1) assms(2)] assms(3,4) by simp_all
  obtain c2 where c2: "release_all rs c1 = Some c2" "listed cx [] c2" "same_context cx c1 c2"
    using release_all_listed [OF a(1) assms(3,5)] by blast
  have "cx \<noteq> 0" "cx_sessions (contexts c2 cx) = 0" "cx_blocks (contexts c2 cx) = 0" "cx_fd (contexts c2 cx) = cx_fd (contexts c cx)"
    using new a(2) c2(2,3) by (simp_all add: listed_def same_context_def)
  then have "fd_table (TEEC_FinalizeContext cx c2) (cx_fd (contexts c cx)) = None"
    by (auto simp: TEEC_FinalizeContext_def sys_close_def on_context_def split: option.splits open_file.splits)
  then show ?thesis using a(1) c2(1,2) by (simp add: listed_def)
qed

text \<open>A system where the device can be opened, as descriptor 3, and a page can be mapped at \<open>0x9000\<close>.\<close>

definition sample_system :: teec where
  "sample_system = sample_teec\<lparr>drv := (sample_client [])\<lparr>dev_file_list := [], replies := [\<lambda>_ m. (0, m)], page_blocks := [0xA000],
       kblocks := [0x5000, 0x5100, 0x5200, 0x5300, 0x5400, 0x5500, 0x5600, 0x5700, 0x5800]\<rparr>,
     fd_table := (\<lambda>_. None), new_fds := [3], new_maps := [0x9000],
     tee_blocks := (\<lambda>_. \<lparr>tm_buffer = 0x300, tm_size = 16, tm_flags = 1, tm_context = 0, tm_operations = 0, tm_allocated = False, tm_errno = 0\<rparr>)\<rparr>"

lemma sample_system_acquires:
  "\<exists>c. TEEC_InitializeContext None 0x80 sample_system = Some (TEEC_SUCCESS, c) \<and> cx_fd (contexts c 0x80) = 3 \<and>
     (\<exists>c1. acquire 0x80 [(0x100, True), (0x200, False)] c = Some c1)"
  by (simp add: sample_system_def TEEC_InitializeContext_def sys_open_def OTZ_CLIENT_FULL_PATH_DEV_NAME_def otz_client_open_def
      otz_client_service_init_def otz_smc_call_def smc_begin_def smc_end_def smc_def fill_cmd_def kfree_def SMC_PENDING_def
      on_context_def on_links_def on_tee_block_def add_block_def bad_block_def TEEC_AllocateSharedMemory_def TEEC_RegisterSharedMemory_def
      sys_mmap_def page_align_def otz_client_mmap_def get_free_pages_def MAP_FAILED_def TEEC_MEM_INPUT_def PROT_READ_def PROT_WRITE_def
      O_RDWR_def O_WRONLY_def teec_errors teec_evals)

theorem context_closes_after_release_witness:
  "\<exists>c c1 c2. TEEC_InitializeContext None 0x80 sample_system = Some (TEEC_SUCCESS, c) \<and>
     acquire 0x80 [(0x100, True), (0x200, False)] c = Some c1 \<and> cx_blocks (contexts c1 0x80) = 2 \<and>
     release_all [0x200, 0x100] c1 = Some c2 \<and> fd_table (TEEC_FinalizeContext 0x80 c2) 3 = None"
proof -
  obtain c c1 where run: "TEEC_InitializeContext None 0x80 sample_system = Some (TEEC_SUCCESS, c)" "cx_fd (contexts c 0x80) = 3"
    "acquire 0x80 [(0x100, True), (0x200, False)] c = Some c1" using sample_system_acquires by blast
  have "mset [0x200, 0x100] = mset (map fst [(0x100 :: u32, True), (0x200, False)])" by simp
  from context_closes_after_release [OF run(1,3) _ _ this] show ?thesis using run by (auto simp: tm_head_ref_def cx_list_def)
qed

end
