(* ===== verification/Spec2Isabelle.thy ===== *)
theory Spec2Isabelle
  imports SwDiv SwList SwBuddyInv PageTableInv MemMng SwTimerQueue TasksInv SecureCodec SwMem SwWait SecureApiProps TeeDivide
    SwSem Fat32Write Fat32Table Fat32Dir ElfProps Rc4 TeeStorageProps OtzApiProps TeecProps
begin

text \<open>
  A verification development of the OpenVirtualization secure kernel: a small operating system for
  the secure world of an ARM TrustZone processor, and the Linux driver and the client libraries
  through which programs of the normal world call its services. Paths below are relative to \<open>src/tzone_sdk\<close>; those that do
  not begin with \<open>otz_driver\<close>, \<open>otz_api\<close> or \<open>include\<close> are in \<open>otzone/src\<close>.

  \<^bold>\<open>How the parts interact.\<close> A client library opens a session through the driver, has the driver
  encode parameters into shared buffers, and sends a command. The driver notifies the secure world, where the monitor
  enters the scheduler. The dispatcher task decodes the command, maps the shared sections, and
  opens a session (which creates a task), closes one, or hands the command to the task of a
  session. That task decodes the parameters, runs the command of its service, writes the response
  and passes control back; the dispatcher unmaps the sections and answers. Underneath are the page
  table with its reference counts, the page allocator, the buddy heaps, the timers and wait
  queues, and libraries for services: memory and strings, division, semaphores, big numbers, RC4, a
  FAT32 file system with buffered files, persistent objects and a loader for ELF files.

  \<^bold>\<open>Theories, with the sources they model.\<close> A function has the name it has in C unless that name
  is taken; structures are records, enumerations datatypes or words, and linked lists the
  sequences of the addresses they link.

  \<^item> \<open>OtzPrelude\<close>: machine types (\<open>lib/include/sw_types.h\<close>), the ways a call can end, the locale
    \<open>op_contract\<close> (an invariant kept by each operation is kept by every legal sequence of them).
  \<^item> \<open>SwList\<close>: \<open>include/sw_list.h\<close> as link assignments on a store; \<open>ring\<close> relates the store to a
    sequence, and the interface \<open>fifo\<close> is interpreted on it.
  \<^item> \<open>SwDiv\<close>: \<open>lib/sw_div.c\<close>. \<open>SwMem\<close>: \<open>lib/sw_mem_functions.c\<close>, \<open>lib/sw_string_functions.c\<close>.
    \<open>SwSem\<close>: \<open>lib/sw_semaphores.c\<close> and the routines of \<open>arch/arm/armv7/sw_semaphores_asm.S\<close>, as steps of
    interleaved processors.
  \<^item> \<open>SwBuddy\<close>, \<open>SwBuddyInv\<close>: \<open>lib/sw_buddy.c\<close>, with the heaps of all owners in one map; the
    interface \<open>allocator\<close>.
  \<^item> \<open>PageTable\<close>, \<open>PageTableInv\<close>: \<open>arch/arm/armv7/page_table.c\<close>. \<open>MemMng\<close>: \<open>core/mem_mng.c\<close>.
  \<^item> \<open>SwTimer\<close>, \<open>SwTimerInv\<close>, \<open>SwTimerQueue\<close>: \<open>core/sw_timer.c\<close> and the conversions of
    \<open>arch/arm/armv7/cpu_api.c\<close>. \<open>SwWait\<close>: \<open>lib/sw_wait.c\<close>, \<open>lib/include/sw_wait.h\<close>,
    \<open>lib/sw_timer_functions.c\<close>.
  \<^item> \<open>Tasks\<close>, \<open>TasksInv\<close>: \<open>core/task.c\<close>, \<open>core/global.c\<close>, \<open>core/scheduler.c\<close>,
    \<open>arch/arm/armv7/cpu_task.c\<close>, \<open>lib/sw_user_mgmt.c\<close>.
  \<^item> \<open>SecureCodec\<close>: encoder and decoders of \<open>core/secure_api.c\<close>. \<open>SecureApi\<close>: sessions, commands and
    their release in that file, \<open>apps/dispatcher_task.c\<close>, \<open>apps/task_control.c\<close>,
    \<open>arch/arm/armv7/cpu_ipi.c\<close>. \<open>EchoTask\<close>: \<open>apps/echo_task.c\<close>, \<open>apps/drm_task.c\<close>.
    \<open>SecureApiInv\<close>, \<open>SecureApiProps\<close>: their theorems, with the interface \<open>kernel\<close>.
  \<^item> \<open>TeeArith\<close>, \<open>TeeArithProps\<close>, \<open>TeeDivide\<close>: \<open>lib/otz_tee_arith_api.c\<close> with the memory functions of
    \<open>lib/otz_tee_mem_mgmt.c\<close> it calls. \<open>Rc4\<close>: \<open>apps/rc4_algorithm.c\<close>.
  \<^item> \<open>Fat32\<close>, \<open>Fat32Dir\<close>: \<open>fs/fat32.c\<close>; \<open>Fat32Read\<close>, \<open>Fat32Write\<close>, \<open>Fat32Table\<close>: their theorems,
    against an abstract file. \<open>FileLib\<close>: \<open>lib/sw_filelib.c\<close> with \<open>lib/sw_syslibc.c\<close> and part of
    \<open>lib/libc_sos.c\<close>; \<open>FileLibRead\<close>, \<open>FileLibWrite\<close>: their theorems. \<open>TeeStorage\<close>,
    \<open>TeeStorageProps\<close>: \<open>lib/otz_tee_internal_storage_api.c\<close>.
  \<^item> \<open>ElfLoader\<close>, \<open>ElfProps\<close>: \<open>arch/arm/armv7/elf_loader.c\<close>, \<open>apps/elf_loader_app.c\<close>.
  \<^item> \<open>OtzDriver\<close>, \<open>OtzDriverProps\<close>: \<open>otz_driver/otz_client_main.c\<close>, \<open>include/otz_client.h\<close>.
  \<^item> \<open>OtzApi\<close>, \<open>OtzApiProps\<close>: \<open>otz_api/otz_api.c\<close>, \<open>include/otz_api.h\<close>, with the system calls of Linux that both
    libraries use. \<open>TeecApi\<close>, \<open>TeecProps\<close>: \<open>otz_api/otz_tee_api.c\<close>, \<open>include/otz_tee_client_api.h\<close>.

  \<^bold>\<open>What the lemmas show.\<close> Heaps: blocks never overlap, allocation and release are inverse.
  Sections: counted once per user, and mapped while somebody counts them; this is carried through
  sessions and commands, whatever the normal world stores between two reads (\<open>owes\<close>, \<open>settled\<close>).
  Tasks: the lists agree with the states, every ready task gets its turn and finds its registers,
  creation that fails leaves the lists as they were; all this as long as no task is made ready twice. Timers: the queue
  stays sorted, whatever handlers start and stop, and an interrupt calls the handlers of the events that are due, in
  order. Wait queues: who sleeps is woken by the interrupt. The dispatcher: a command for the global service is
  answered once, with the code of its result unless another task of the round sets its own. Parameters: what a task of the kernel encodes, and what a
  client passes through library and driver, is what a service decodes. Clients: blocks and sessions are
  counted exactly, so that a context or a device is closed in the end. Files: reads and writes refine an abstract list of bytes
  with a position, through the buffers of streams as well; the bytes are those that the layout of FAT32 gives a
  file on the volumes on which the code follows it (\<open>plain_volume\<close>: one sector in a
  cluster, the root directory in cluster 2). Semaphores: exclusion, among users who unlock only what they hold,
  and counting under every interleaving. Numbers and division: exact results, and where they fail.
  Several theorems show what the code does in cases it does not handle: the closing of an unknown
  session, a big division that misses carries, an \<open>fwrite\<close> that writes twice, a second session of the
  driver that cannot send, references beyond a buffer, a prepared session that is given up. They are stated as the code behaves.

  \<^bold>\<open>Loops, bounds, outcomes.\<close> Loops that count are structural recursion. A loop that may run for
  ever is a \<open>partial_function\<close> and \<open>None\<close> says that the call does not return; theorems about such
  functions state that the result is \<open>Some\<close> (or \<open>Inr\<close>), so no fuel is chosen anywhere. \<open>Inl\<close> is a stop
  through \<open>DIE_NOW\<close> or, in the functions of \<open>SecureApi\<close>, an access the hardware would trap. Where a
  null pointer is used without a test, the result is \<open>None\<close>. Integers are words of the width that C
  gives them, and comparisons are signed where the C types are.

  \<^bold>\<open>Parameters.\<close> Not under \<open>src\<close>, or left open by C, and so arguments or fields of the state:
  addresses given by the linker (sections, entry points, exported symbols), the address translation
  of the processor, stores of the normal world between two reads (\<open>ns_writes\<close>), counter readings,
  handlers and wake functions of device drivers, the contents of variables that are read before
  they are set (\<open>junk\<close>, \<open>dflt\<close>), the order of evaluation where C does not fix it, addresses of
  local arrays, descriptors and mappings that Linux gives, the blocks that \<open>sw_malloc\<close>, \<open>TEE_Malloc\<close> or Linux return, the faults, signals and replies that
  the Linux driver meets. Each theorem holds for all of them or names what it needs; the
  witnesses give concrete ones.

  \<^bold>\<open>Build.\<close> The driver and the file library are modelled as built with
  \<open>OTZONE_ASYNC_NOTIFY_SUPPORT\<close> and \<open>CONFIG_FILESYSTEM_SUPPORT\<close>, the services with \<open>CONFIG_GUI_SUPPORT\<close>
  and the ELF loader, RC4 without \<open>_CRYPTO_BUILD_\<close>; the
  kernel itself without the hypervisor and multi-core options.

  \<^bold>\<open>Not modelled.\<close> Boot, exception entry, monitor and hypervisor (assembly and coprocessor
  registers); device drivers, the reading of the disk image and the frame buffer (accesses to
  device registers); the keyboard bitmaps and fonts (arrays); wrappers of the OpenSSL library, the
  services that only call it, and the C library glue around it; \<open>sw_printf\<close> and all messages; locks that
  only mask interrupts; the asynchronous echo command, the optional tests and \<open>notify_ns\<close>;
  client and Android programs; packaging. Caches and barriers have no effect in a
  model with one memory.
\<close>

end
